(* ===== verification/Prelude.thy ===== *)
theory Prelude
  imports Main "HOL-Library.Word" "HOL-Library.Monad_Syntax"
begin

text \<open>
  The shared vocabulary of the development: the C integer types as words, the usual
  arithmetic conversions, the byte-order and BCD expressions that the kernel headers
  repeat, and the lemmas that carry the component proofs.

  The target of the root file system is the 32-bit little-endian ARM EABI
  (\<^verbatim>\<open>arm-fslc-linux-gnueabi\<close>): \<open>int\<close>, \<open>long\<close> and pointers have 32 bits.
  Arithmetic on \<open>__u8\<close> and \<open>__u16\<close> operands happens after the integer promotions,
  so it is written on 32-bit words (\<open>promote\<close>) and truncated by the assignment
  (\<open>to_u8\<close>, \<open>to_u16\<close>).

  The collections: \<open>byte_defs\<close> unfolds the byte expressions, \<open>bits8\<close>, \<open>bits16\<close>, \<open>bits32\<close>
  turn an equation between words into one boolean equation per bit (which \<open>simp\<close>
  decides), \<open>below_pow2\<close> reads a bound \<open>x < 2 ^ n\<close> as "the high bits are zero".
\<close>

unbundle bit_operations_syntax

type_synonym u8 = "8 word"
type_synonym u16 = "16 word"
type_synonym u32 = "32 word"
type_synonym u64 = "64 word"

named_theorems byte_defs \<open>the byte-level expressions of the headers\<close>
named_theorems below_pow2 \<open>bounds by a power of two as bit facts\<close>

subsection \<open>Conversions and byte expressions\<close>

abbreviation promote :: "'a::len word \<Rightarrow> u32" where
  "promote x \<equiv> ucast x"

abbreviation to_u8 :: "'a::len word \<Rightarrow> u8" where
  "to_u8 x \<equiv> ucast x"

abbreviation to_u16 :: "'a::len word \<Rightarrow> u16" where
  "to_u16 x \<equiv> ucast x"

text \<open>\<open>msg[i] = x >> 8\<close> and \<open>msg[i] = x & 0xff\<close> for a 16-bit \<open>x\<close>.\<close>

definition hi8 :: "u16 \<Rightarrow> u8" where [byte_defs]:
  "hi8 x = to_u8 (drop_bit 8 (promote x))"

definition lo8 :: "u16 \<Rightarrow> u8" where [byte_defs]:
  "lo8 x = to_u8 (promote x AND 0xff)"

text \<open>\<open>x = (msg[i] << 8) | msg[j]\<close> for a 16-bit \<open>x\<close>.\<close>

definition be16 :: "u8 \<Rightarrow> u8 \<Rightarrow> u16" where [byte_defs]:
  "be16 a b = to_u16 (push_bit 8 (promote a) OR promote b)"

text \<open>\<open>msg[i] = ((x / 10) << 4) | (x % 10)\<close> and its inverse
  \<open>x = (msg[i] >> 4) * 10 + (msg[i] & 0xf)\<close>.\<close>

definition bcd :: "u8 \<Rightarrow> u8" where
  "bcd x = to_u8 (push_bit 4 (promote x div 10) OR (promote x mod 10))"

definition unbcd :: "u8 \<Rightarrow> u8" where
  "unbcd b = to_u8 (drop_bit 4 (promote b) * 10 + (promote b AND 0xf))"

text \<open>\<open>reply ? opcode : 0\<close>, where \<open>reply\<close> is a C \<open>int\<close>.\<close>

definition reply_op :: "int \<Rightarrow> u8 \<Rightarrow> u8" where
  "reply_op r op = (if r \<noteq> 0 then op else 0)"

subsection \<open>Equality of words, bit by bit\<close>

lemma all_less_8: "(\<forall>n<8::nat. P n) \<longleftrightarrow>
     P 7 \<and> P 6 \<and> P 5 \<and> P 4 \<and> P 3 \<and> P 2 \<and> P 1 \<and> P 0"
  by (simp add: eval_nat_numeral All_less_Suc)

lemma all_less_16: "(\<forall>n<16::nat. P n) \<longleftrightarrow>
     P 15 \<and> P 14 \<and> P 13 \<and> P 12 \<and> P 11 \<and> P 10 \<and> P 9 \<and> P 8 \<and>
     P 7 \<and> P 6 \<and> P 5 \<and> P 4 \<and> P 3 \<and> P 2 \<and> P 1 \<and> P 0"
  by (simp add: eval_nat_numeral All_less_Suc)

lemma all_less_32: "(\<forall>n<32::nat. P n) \<longleftrightarrow>
     P 31 \<and> P 30 \<and> P 29 \<and> P 28 \<and> P 27 \<and> P 26 \<and> P 25 \<and> P 24 \<and>
     P 23 \<and> P 22 \<and> P 21 \<and> P 20 \<and> P 19 \<and> P 18 \<and> P 17 \<and> P 16 \<and>
     P 15 \<and> P 14 \<and> P 13 \<and> P 12 \<and> P 11 \<and> P 10 \<and> P 9 \<and> P 8 \<and>
     P 7 \<and> P 6 \<and> P 5 \<and> P 4 \<and> P 3 \<and> P 2 \<and> P 1 \<and> P 0"
  by (simp add: eval_nat_numeral All_less_Suc)

lemma word_eq_bits8: "(a::u8) = b \<longleftrightarrow> (\<forall>n<8. bit a n = bit b n)"
  using bit_word_eqI [of a b] by auto

lemma word_eq_bits16: "(a::u16) = b \<longleftrightarrow> (\<forall>n<16. bit a n = bit b n)"
  using bit_word_eqI [of a b] by auto

lemma word_eq_bits32: "(a::u32) = b \<longleftrightarrow> (\<forall>n<32. bit a n = bit b n)"
  using bit_word_eqI [of a b] by auto

lemma bit_u8_beyond [simp]: "8 \<le> n \<Longrightarrow> bit (b::u8) n = False"
  by (auto dest: bit_imp_le_length)

lemma bit_u16_beyond [simp]: "16 \<le> n \<Longrightarrow> bit (b::u16) n = False"
  by (auto dest: bit_imp_le_length)

lemma bit_u32_beyond [simp]: "32 \<le> n \<Longrightarrow> bit (b::u32) n = False"
  by (auto dest: bit_imp_le_length)

lemmas bits8 = word_eq_bits8 all_less_8 bit_simps numeral_2_eq_2 [symmetric]
lemmas bits16 = word_eq_bits16 all_less_16 bit_simps numeral_2_eq_2 [symmetric]
lemmas bits32 = word_eq_bits32 all_less_32 bit_simps numeral_2_eq_2 [symmetric]

lemma u8_less_2 [below_pow2]: "(x::u8) < 2 \<longleftrightarrow> \<not> bit x 1 \<and> \<not> bit x 2 \<and> \<not> bit x 3 \<and> \<not> bit x 4 \<and>
     \<not> bit x 5 \<and> \<not> bit x 6 \<and> \<not> bit x 7"
proof -
  have "x < 2 \<longleftrightarrow> x = 0 \<or> x = 1"
    using word_less_nat_alt [of x 2] by (auto simp: word_unat_eq_iff less_2_cases_iff)
  then show ?thesis
    by (auto simp: bits8)
qed

lemma u8_less_4 [below_pow2]: "(x::u8) < 4 \<longleftrightarrow> take_bit 2 x = x"
  by (simp add: word_less_nat_alt word_unat_eq_iff unsigned_take_bit_eq take_bit_nat_eq_self_iff)

lemma u8_less_16 [below_pow2]: "(x::u8) < 16 \<longleftrightarrow> take_bit 4 x = x"
  by (simp add: word_less_nat_alt word_unat_eq_iff unsigned_take_bit_eq take_bit_nat_eq_self_iff)

lemma u8_less_64 [below_pow2]: "(x::u8) < 64 \<longleftrightarrow> take_bit 6 x = x"
  by (simp add: word_less_nat_alt word_unat_eq_iff unsigned_take_bit_eq take_bit_nat_eq_self_iff)

lemma u8_less_128 [below_pow2]: "(x::u8) < 128 \<longleftrightarrow> take_bit 7 x = x"
  by (simp add: word_less_nat_alt word_unat_eq_iff unsigned_take_bit_eq take_bit_nat_eq_self_iff)

lemma u16_less_256 [below_pow2]: "(x::u16) < 256 \<longleftrightarrow> take_bit 8 x = x"
  by (simp add: word_less_nat_alt word_unat_eq_iff unsigned_take_bit_eq take_bit_nat_eq_self_iff)

lemma u16_less_1024 [below_pow2]: "(x::u16) < 1024 \<longleftrightarrow> take_bit 10 x = x"
  by (simp add: word_less_nat_alt word_unat_eq_iff unsigned_take_bit_eq take_bit_nat_eq_self_iff)

lemma u32_less_2_24 [below_pow2]: "(x::u32) < 0x1000000 \<longleftrightarrow> take_bit 24 x = x"
  by (simp add: word_less_nat_alt word_unat_eq_iff unsigned_take_bit_eq take_bit_nat_eq_self_iff)

lemma unat_of_nat_small: "n < 2 ^ LENGTH('a) \<Longrightarrow> unat (of_nat n :: 'a::len word) = n"
  by (simp add: unat_of_nat)

subsection \<open>Round trips of the byte expressions\<close>

lemma be16_hi8_lo8 [simp]: "be16 (hi8 x) (lo8 x) = x"
  by (simp add: bits16 byte_defs)

lemma hi8_be16 [simp]: "hi8 (be16 a b) = a"
  by (simp add: bits8 byte_defs)

lemma lo8_be16 [simp]: "lo8 (be16 a b) = b"
  by (simp add: bits8 byte_defs)

text \<open>
  The BCD expressions are inverse to each other below 160: the tens digit then still fits
  in the high nibble. The 160 cases are evaluated by the kernel.
\<close>

lemma u8_below_cases:
  assumes "x < (of_nat n :: u8)" and "n < 256"
  shows "x \<in> set (map of_nat [0..<n])"
proof -
  from assms have "unat x < n"
    by (simp add: word_less_nat_alt unat_of_nat)
  then show ?thesis
    using image_eqI [of x of_nat "unat x" "set [0..<n]"] by simp
qed

lemma unbcd_bcd_cases: "list_all (\<lambda>x. unbcd (bcd x) = x) (map of_nat [0..<160])"
  by code_simp

lemma unbcd_bcd [simp]: "x < 160 \<Longrightarrow> unbcd (bcd x) = x"
  using u8_below_cases [of x 160] unbcd_bcd_cases by (auto simp: list_all_iff)

end
