(* ===== verification/Cec_Message.thy ===== *)
theory Cec_Message
  imports Prelude
begin

text \<open>
  The HDMI CEC message of \<^verbatim>\<open>linux/cec.h\<close>: \<open>struct cec_msg\<close> as a record, the header
  accessors, \<open>cec_msg_init\<close>, \<open>cec_msg_set_reply_to\<close> and the status test, and the
  statement language in which the message functions of \<^verbatim>\<open>linux/cec-funcs.h\<close> are
  translated.

  A statement of a message function is a function from the message to the message, or to
  \<open>None\<close> when it accesses \<open>msg->msg\<close> outside the array (undefined behaviour in C);
  \<open>exec\<close> runs a list of statements in order. \<open>rd\<close> and \<open>wr\<close> are the array accesses.
  \<open>cec_wf\<close> is the type invariant (the payload array has \<open>CEC_MAX_MSG_SIZE\<close> bytes), and
  under it every constant index below 16 is a total access, so that \<open>put\<close> and \<open>byte\<close>
  compute the effect of a message function by rewriting (collection \<open>cec_simps\<close>).

  \<open>wire m r\<close> is transmission: the receiver's message \<open>r\<close> has the length of \<open>m\<close> and its
  first \<open>len\<close> bytes; the bytes beyond \<open>len\<close> are whatever the receiver had there.
  The locales \<open>cec_builder\<close> and \<open>cec_codec\<close> are the contracts of the \<open>cec_msg_*\<close> and
  \<open>cec_ops_*\<close> functions; every feature theory interprets them on its own functions.
\<close>

named_theorems cec_simps \<open>effects of the statements on well-formed messages\<close>

section \<open>The message structure\<close>

abbreviation (input) CEC_MAX_MSG_SIZE :: nat where "CEC_MAX_MSG_SIZE \<equiv> 16"

record cec_msg =
  tx_ts :: u64
  rx_ts :: u64
  len :: u32
  timeout :: u32
  sequence :: u32
  flags :: u32
  msg :: "u8 list"
  reply :: u8
  rx_status :: u8
  tx_status :: u8
  tx_arb_lost_cnt :: u8
  tx_nack_cnt :: u8
  tx_low_drive_cnt :: u8
  tx_error_cnt :: u8

type_synonym cec_stmt = "cec_msg \<Rightarrow> cec_msg option"

section \<open>Array accesses and statements\<close>

definition rd :: "cec_msg \<Rightarrow> nat \<Rightarrow> u8 option" where
  "rd m i = (if i < length (msg m) then Some (msg m ! i) else None)"

definition wr :: "nat \<Rightarrow> u8 \<Rightarrow> cec_stmt" where
  "wr i v m = (if i < length (msg m) then Some (m\<lparr>msg := (msg m)[i := v]\<rparr>) else None)"

fun exec :: "cec_stmt list \<Rightarrow> cec_stmt" where
  "exec [] m = Some m"
| "exec (s # ss) m = Option.bind (s m) (exec ss)"

definition set_len :: "u32 \<Rightarrow> cec_stmt" where
  "set_len n m = Some (m\<lparr>len := n\<rparr>)"

definition set_reply :: "u8 \<Rightarrow> cec_stmt" where
  "set_reply op m = Some (m\<lparr>reply := op\<rparr>)"

definition when_stmt :: "bool \<Rightarrow> cec_stmt list \<Rightarrow> cec_stmt" where
  "when_stmt c ss m = (if c then exec ss m else Some m)"

text \<open>\<open>msg->msg[0] |= 0xf\<close>, the statement that makes a message a broadcast.\<close>

definition or_broadcast :: cec_stmt where
  "or_broadcast m = Option.bind (rd m 0) (\<lambda>b. wr 0 (to_u8 (promote b OR 0xf)) m)"

text \<open>\<open>msg->msg[msg->len++] = v\<close>.\<close>

definition push_byte :: "u8 \<Rightarrow> cec_stmt" where
  "push_byte v m = Option.bind (wr (unat (len m)) v m) (\<lambda>m'. Some (m'\<lparr>len := len m' + 1\<rparr>))"

text \<open>\<open>memcpy(msg->msg + off, src, n)\<close>: reads \<open>n\<close> bytes of \<open>src\<close>.\<close>

fun write_from :: "nat \<Rightarrow> u8 list \<Rightarrow> cec_stmt" where
  "write_from off [] m = Some m"
| "write_from off (b # bs) m = Option.bind (wr off b m) (write_from (Suc off) bs)"

definition memcpy_to_msg :: "nat \<Rightarrow> u8 list \<Rightarrow> nat \<Rightarrow> cec_stmt" where
  "memcpy_to_msg off src n m =
     (if n \<le> length src then write_from off (take n src) m else None)"

text \<open>\<open>memcpy(dst, msg->msg + off, n)\<close> into a buffer of the caller.\<close>

definition memcpy_from_msg :: "u8 list \<Rightarrow> cec_msg \<Rightarrow> nat \<Rightarrow> nat \<Rightarrow> u8 list option" where
  "memcpy_from_msg dst m off n =
     (if n \<le> length dst \<and> off + n \<le> length (msg m)
      then Some (take n (drop off (msg m)) @ drop n dst) else None)"

text \<open>\<open>strlen\<close> of a buffer, \<open>None\<close> when no terminator is found inside it.\<close>

fun c_strlen :: "u8 list \<Rightarrow> nat option" where
  "c_strlen [] = None"
| "c_strlen (b # bs) = (if b = 0 then Some 0 else map_option Suc (c_strlen bs))"

definition store_byte :: "u8 list \<Rightarrow> nat \<Rightarrow> u8 \<Rightarrow> u8 list option" where
  "store_byte dst i v = (if i < length dst then Some (dst[i := v]) else None)"

text \<open>
  \<open>if (len > cap) len = cap;\<close> and
  \<open>len = msg->len > off ? msg->len - off : 0; if (len > cap) len = cap;\<close>.
\<close>

definition clip :: "nat \<Rightarrow> nat \<Rightarrow> nat" where
  "clip cap n = (if n > cap then cap else n)"

definition payload_len :: "u32 \<Rightarrow> u32 \<Rightarrow> cec_msg \<Rightarrow> u32" where
  "payload_len off cap m =
     (let l = (if len m > off then len m - off else 0) in if l > cap then cap else l)"

text \<open>Two bytes as a big-endian \<open>__u16\<close>, three as a \<open>__u32\<close>, one as BCD.\<close>

definition rd_be16 :: "cec_msg \<Rightarrow> nat \<Rightarrow> nat \<Rightarrow> u16 option" where
  "rd_be16 m i j = do { a \<leftarrow> rd m i; b \<leftarrow> rd m j; Some (be16 a b) }"

definition rd_be24 :: "cec_msg \<Rightarrow> nat \<Rightarrow> nat \<Rightarrow> nat \<Rightarrow> u32 option" where
  "rd_be24 m i j k = do { a \<leftarrow> rd m i; b \<leftarrow> rd m j; c \<leftarrow> rd m k;
     Some (push_bit 16 (promote a) OR push_bit 8 (promote b) OR promote c) }"

definition rd_bcd :: "cec_msg \<Rightarrow> nat \<Rightarrow> u8 option" where
  "rd_bcd m i = do { b \<leftarrow> rd m i; Some (unbcd b) }"

section \<open>Header functions\<close>

definition cec_msg_initiator :: "cec_msg \<Rightarrow> u8 option" where
  "cec_msg_initiator m = do { b \<leftarrow> rd m 0; Some (to_u8 (drop_bit 4 (promote b))) }"

definition cec_msg_destination :: "cec_msg \<Rightarrow> u8 option" where
  "cec_msg_destination m = do { b \<leftarrow> rd m 0; Some (to_u8 (promote b AND 0xf)) }"

definition cec_msg_opcode :: "cec_msg \<Rightarrow> int option" where
  "cec_msg_opcode m = (if len m > 1 then do { b \<leftarrow> rd m 1; Some (uint b) } else Some (- 1))"

definition cec_msg_is_broadcast :: "cec_msg \<Rightarrow> bool option" where
  "cec_msg_is_broadcast m = do { b \<leftarrow> rd m 0; Some ((promote b AND 0xf) = 0xf) }"

definition cec_msg_init :: "u8 \<Rightarrow> u8 \<Rightarrow> cec_stmt" where
  "cec_msg_init initiator destination m = exec [
     \<lambda>_. Some \<lparr>tx_ts = 0, rx_ts = 0, len = 0, timeout = 0, sequence = 0, flags = 0,
       msg = replicate CEC_MAX_MSG_SIZE 0, reply = 0, rx_status = 0, tx_status = 0,
       tx_arb_lost_cnt = 0, tx_nack_cnt = 0, tx_low_drive_cnt = 0, tx_error_cnt = 0\<rparr>,
     wr 0 (to_u8 (push_bit 4 (promote initiator) OR promote destination)),
     set_len 1] m"

definition cec_msg_set_reply_to :: "cec_msg \<Rightarrow> cec_stmt" where
  "cec_msg_set_reply_to orig m = do {
     d \<leftarrow> cec_msg_destination orig;
     i \<leftarrow> cec_msg_initiator orig;
     m \<leftarrow> wr 0 (to_u8 (push_bit 4 (promote d) OR promote i)) m;
     Some (m\<lparr>timeout := 0, reply := 0\<rparr>) }"

abbreviation (input) CEC_TX_STATUS_OK :: u8 where "CEC_TX_STATUS_OK \<equiv> 1"
abbreviation (input) CEC_RX_STATUS_OK :: u8 where "CEC_RX_STATUS_OK \<equiv> 1"
abbreviation (input) CEC_RX_STATUS_FEATURE_ABORT :: u8 where "CEC_RX_STATUS_FEATURE_ABORT \<equiv> 4"

definition cec_msg_status_is_ok :: "cec_msg \<Rightarrow> bool" where
  "cec_msg_status_is_ok m =
     (if tx_status m \<noteq> 0 \<and> tx_status m AND CEC_TX_STATUS_OK = 0 then False
      else if rx_status m \<noteq> 0 \<and> rx_status m AND CEC_RX_STATUS_OK = 0 then False
      else if tx_status m = 0 \<and> rx_status m = 0 then False
      else rx_status m AND CEC_RX_STATUS_FEATURE_ABORT = 0)"

section \<open>Well-formed messages, the wire and the abstract effects\<close>

definition cec_wf :: "cec_msg \<Rightarrow> bool" where
  "cec_wf m \<longleftrightarrow> length (msg m) = CEC_MAX_MSG_SIZE"

definition byte :: "cec_msg \<Rightarrow> nat \<Rightarrow> u8" where
  "byte m i = msg m ! i"

definition put :: "nat \<Rightarrow> u8 \<Rightarrow> cec_msg \<Rightarrow> cec_msg" where
  "put i v m = m\<lparr>msg := (msg m)[i := v]\<rparr>"

definition wire :: "cec_msg \<Rightarrow> cec_msg \<Rightarrow> bool" where
  "wire m r \<longleftrightarrow> cec_wf r \<and> len r = len m \<and> (\<forall>i < unat (len m). byte r i = byte m i)"

lemma exec_Nil [simp]: "exec [] = Some"
  by (rule ext) simp

lemma rd_ok [cec_simps]: "cec_wf m \<Longrightarrow> i < 16 \<Longrightarrow> rd m i = Some (byte m i)"
  by (simp add: rd_def cec_wf_def byte_def)

lemma wr_ok [cec_simps]: "cec_wf m \<Longrightarrow> i < 16 \<Longrightarrow> wr i v m = Some (put i v m)"
  by (simp add: wr_def cec_wf_def put_def)

lemma cec_wf_put [cec_simps]: "cec_wf (put i v m) = cec_wf m"
  by (simp add: cec_wf_def put_def)

lemma cec_wf_update [cec_simps]:
  "cec_wf (m\<lparr>len := n\<rparr>) = cec_wf m"
  "cec_wf (m\<lparr>reply := op\<rparr>) = cec_wf m"
  "cec_wf (m\<lparr>timeout := t\<rparr>) = cec_wf m"
  by (simp_all add: cec_wf_def)

lemma byte_put [cec_simps]:
  "cec_wf m \<Longrightarrow> i < 16 \<Longrightarrow> byte (put i v m) j = (if i = j then v else byte m j)"
  by (auto simp: byte_def put_def cec_wf_def)

lemma byte_update [cec_simps]:
  "byte (m\<lparr>len := n\<rparr>) i = byte m i"
  "byte (m\<lparr>reply := op\<rparr>) i = byte m i"
  "byte (m\<lparr>timeout := t\<rparr>) i = byte m i"
  by (simp_all add: byte_def)

lemma fields_put [cec_simps]:
  "len (put i v m) = len m" "reply (put i v m) = reply m"
  by (simp_all add: put_def)

lemma stmt_effects [cec_simps]:
  "set_len n m = Some (m\<lparr>len := n\<rparr>)"
  "set_reply op m = Some (m\<lparr>reply := op\<rparr>)"
  "when_stmt c ss m = (if c then exec ss m else Some m)"
  by (simp_all add: set_len_def set_reply_def when_stmt_def)

lemma or_broadcast_ok [cec_simps]:
  "cec_wf m \<Longrightarrow> or_broadcast m = Some (put 0 (byte m 0 OR 0xf) m)"
proof -
  have "to_u8 (promote b OR 0xf) = b OR 0xf" for b :: u8
    by (simp add: bits8)
  then show "cec_wf m \<Longrightarrow> or_broadcast m = Some (put 0 (byte m 0 OR 0xf) m)"
    by (simp add: or_broadcast_def cec_simps)
qed

lemma push_byte_ok [cec_simps]:
  "cec_wf m \<Longrightarrow> unat (len m) < 16 \<Longrightarrow>
     push_byte v m = Some ((put (unat (len m)) v m)\<lparr>len := len m + 1\<rparr>)"
  by (simp add: push_byte_def cec_simps)

lemma rd_multi_ok [cec_simps]:
  "cec_wf m \<Longrightarrow> i < 16 \<Longrightarrow> j < 16 \<Longrightarrow> rd_be16 m i j = Some (be16 (byte m i) (byte m j))"
  "cec_wf m \<Longrightarrow> i < 16 \<Longrightarrow> rd_bcd m i = Some (unbcd (byte m i))"
  "cec_wf m \<Longrightarrow> i < 16 \<Longrightarrow> j < 16 \<Longrightarrow> k < 16 \<Longrightarrow> rd_be24 m i j k =
     Some (push_bit 16 (promote (byte m i)) OR push_bit 8 (promote (byte m j)) OR
       promote (byte m k))"
  by (simp_all add: rd_be16_def rd_bcd_def rd_be24_def cec_simps)

lemma wireD:
  assumes "wire m r"
  shows "cec_wf r" and "len r = len m" and "\<And>i. i < unat (len m) \<Longrightarrow> byte r i = byte m i"
  using assms by (simp_all add: wire_def)

lemma wire_refl: "cec_wf m \<Longrightarrow> wire m m"
  by (simp add: wire_def)

subsection \<open>Copies into and out of the payload\<close>

fun puts :: "nat \<Rightarrow> u8 list \<Rightarrow> cec_msg \<Rightarrow> cec_msg" where
  "puts off [] m = m"
| "puts off (b # bs) m = puts (Suc off) bs (put off b m)"

lemma cec_wf_puts [cec_simps]: "cec_wf (puts off bs m) = cec_wf m"
  by (induction bs arbitrary: off m) (auto simp: cec_simps)

lemma fields_puts [cec_simps]: "len (puts off bs m) = len m" "reply (puts off bs m) = reply m"
  by (induction bs arbitrary: off m) (auto simp: cec_simps)

lemma write_from_ok [cec_simps]:
  "cec_wf m \<Longrightarrow> off + length bs \<le> 16 \<Longrightarrow> write_from off bs m = Some (puts off bs m)"
  by (induction bs arbitrary: off m) (auto simp: cec_simps)

lemma byte_puts [cec_simps]:
  "cec_wf m \<Longrightarrow> off + length bs \<le> 16 \<Longrightarrow>
     byte (puts off bs m) i =
       (if off \<le> i \<and> i < off + length bs then bs ! (i - off) else byte m i)"
proof (induction bs arbitrary: off m)
  case Nil
  then show ?case by auto
next
  case (Cons b bs)
  then show ?case
    by (auto simp: cec_simps nth_Cons' Suc_diff_le not_less_eq_eq)
qed

lemma byte_puts_below [cec_simps]: "i < off \<Longrightarrow> byte (puts off bs m) i = byte m i"
proof (induction bs arbitrary: off m)
  case Nil
  then show ?case by simp
next
  case (Cons b bs)
  then show ?case by (simp add: byte_def put_def)
qed

lemma memcpy_to_msg_ok [cec_simps]:
  "cec_wf m \<Longrightarrow> n \<le> length src \<Longrightarrow> off + n \<le> 16 \<Longrightarrow>
     memcpy_to_msg off src n m = Some (puts off (take n src) m)"
  by (simp add: memcpy_to_msg_def cec_simps)

definition payload :: "cec_msg \<Rightarrow> nat \<Rightarrow> nat \<Rightarrow> u8 list" where
  "payload m off n = map (byte m) [off..<off + n]"

lemma payload_eq: "cec_wf m \<Longrightarrow> off + n \<le> 16 \<Longrightarrow> take n (drop off (msg m)) = payload m off n"
  by (rule nth_equalityI) (auto simp: payload_def byte_def cec_wf_def)

lemma memcpy_from_msg_ok [cec_simps]:
  "cec_wf m \<Longrightarrow> n \<le> length dst \<Longrightarrow> off + n \<le> 16 \<Longrightarrow>
     memcpy_from_msg dst m off n = Some (payload m off n @ drop n dst)"
  using payload_eq [of m off n] by (simp add: memcpy_from_msg_def cec_wf_def)

lemma length_payload [simp]: "length (payload m off n) = n"
  by (simp add: payload_def)

lemma payload_puts:
  "cec_wf m \<Longrightarrow> off + length bs \<le> 16 \<Longrightarrow> payload (puts off bs m) off (length bs) = bs"
  by (rule nth_equalityI) (auto simp: payload_def cec_simps)

lemma payload_wire:
  "wire m r \<Longrightarrow> off + n \<le> unat (len m) \<Longrightarrow> payload r off n = payload m off n"
  by (auto simp: payload_def wire_def)

text \<open>
  C strings: \<open>c_string buf\<close> is the string a buffer holds. A copy of at most \<open>n\<close> bytes of a
  string into the payload, and out of it into a buffer with a terminator, gives the string
  cut to \<open>n\<close> bytes.
\<close>

definition c_string :: "u8 list \<Rightarrow> u8 list" where
  "c_string buf = takeWhile (\<lambda>b. b \<noteq> 0) buf"

lemma c_strlen_c_string: "0 \<in> set buf \<Longrightarrow> c_strlen buf = Some (length (c_string buf))"
  by (induction buf) (auto simp: c_string_def)

lemma c_strlen_None: "0 \<notin> set buf \<Longrightarrow> c_strlen buf = None"
  by (induction buf) auto

lemma length_c_string: "length (c_string buf) \<le> length buf"
  by (simp add: c_string_def length_takeWhile_le)

lemma take_c_string: "n \<le> length (c_string buf) \<Longrightarrow> take n buf = take n (c_string buf)"
  by (metis c_string_def take_all take_take min.absorb1 takeWhile_eq_take)

lemma c_string_nonzero: "0 \<notin> set (take n (c_string buf))"
  by (auto simp: c_string_def dest: in_set_takeD set_takeWhileD)

lemma copy_out_string [cec_simps]:
  assumes "cec_wf r" and "off + n \<le> 16" and "n < length buf"
  shows "Option.bind (memcpy_from_msg buf r off n) (\<lambda>b. store_byte b n 0) =
    Some (payload r off n @ 0 # drop (Suc n) buf)"
proof -
  from assms have "drop n buf = buf ! n # drop (Suc n) buf"
    by (simp add: Cons_nth_drop_Suc)
  with assms show ?thesis
    by (simp add: cec_simps store_byte_def list_update_append)
qed

lemma c_string_terminated: "0 \<notin> set s \<Longrightarrow> c_string (s @ 0 # rest) = s"
  by (induction s) (auto simp: c_string_def)

lemma clip_le [simp]: "clip cap n \<le> cap" "clip cap n \<le> n"
  by (simp_all add: clip_def)

lemma take_clip: "take (clip cap (length xs)) xs = take cap xs"
  by (simp add: clip_def)

lemma unat_payload_len:
  assumes "len m = of_nat (off + k)" and "k \<le> cap" and "off + cap \<le> 16"
  shows "unat (payload_len (of_nat off) (of_nat cap) m) = k"
  using assms
  by (auto simp: payload_len_def Let_def word_less_nat_alt unat_of_nat unat_sub word_le_nat_alt
      simp flip: of_nat_add)

lemma memcpy_string_ok [cec_simps]:
  assumes "cec_wf m" and "off + cap \<le> 16"
  shows "memcpy_to_msg off src (clip cap (length (c_string src))) m =
    Some (puts off (take (clip cap (length (c_string src))) src) m)"
proof -
  have "clip cap (length (c_string src)) \<le> length src"
    using clip_le(2) length_c_string order_trans by blast
  moreover have "off + clip cap (length (c_string src)) \<le> 16"
    using clip_le(1) [of cap "length (c_string src)"] assms(2) by linarith
  ultimately show ?thesis
    using assms(1) by (simp add: cec_simps)
qed

lemma string_transfer:
  assumes "cec_wf m" and "off + cap \<le> 16" and n: "n = clip cap (length (c_string src))"
    and "wire (puts off (take n src) m) r" and "len m = of_nat (off + n)" and "cap < length buf"
  shows "Option.bind (memcpy_from_msg buf r off n) (\<lambda>b. store_byte b n 0) =
    Some (take cap (c_string src) @ 0 # drop (Suc n) buf)"
    and "c_string (take cap (c_string src) @ 0 # drop (Suc n) buf) = take cap (c_string src)"
    and "length (take cap (c_string src) @ 0 # drop (Suc n) buf) = length buf"
    and "unat (payload_len (of_nat off) (of_nat cap) r) = n"
proof -
  have bounds: "n \<le> cap" "n \<le> length (c_string src)" "off + n \<le> 16" "n < length buf"
    using clip_le [of cap "length (c_string src)"] assms(2,6) unfolding n by linarith+
  have "unat (len m) = off + n"
    using bounds(3) by (simp add: assms(5) unat_of_nat del: of_nat_add)
  have len: "length (take n src) = n"
    using bounds(2) length_c_string [of src] by simp
  have "payload r off n = payload (puts off (take n src) m) off n"
    using assms(4) \<open>unat (len m) = off + n\<close> by (simp add: payload_wire cec_simps)
  also have "\<dots> = take n src"
    using payload_puts [of m off "take n src"] assms(1) bounds(3) len by simp
  also have "\<dots> = take cap (c_string src)"
    using bounds(2) by (simp add: take_c_string n take_clip)
  finally show "Option.bind (memcpy_from_msg buf r off n) (\<lambda>b. store_byte b n 0) =
      Some (take cap (c_string src) @ 0 # drop (Suc n) buf)"
    using assms(4) bounds by (simp add: copy_out_string wireD)
  show "c_string (take cap (c_string src) @ 0 # drop (Suc n) buf) = take cap (c_string src)"
    by (rule c_string_terminated) (rule c_string_nonzero)
  show "length (take cap (c_string src) @ 0 # drop (Suc n) buf) = length buf"
    using bounds by (simp add: n clip_def split: if_splits)
  show "unat (payload_len (of_nat off) (of_nat cap) r) = n"
    by (rule unat_payload_len) (use assms wireD(2) [OF assms(4)] bounds in \<open>simp_all add: cec_simps\<close>)
qed


section \<open>The contracts of the message functions\<close>

text \<open>
  A builder \<open>build a\<close> (a \<open>cec_msg_*\<close> function applied to its arguments) is total on
  well-formed messages, keeps them well-formed, sets the length \<open>size_of a\<close>, writes its
  opcode and leaves the address byte alone unless the message is a broadcast.
\<close>

locale cec_builder =
  fixes build :: "'a \<Rightarrow> cec_stmt"
    and opcode :: u8
    and bcast :: bool
    and size_of :: "'a \<Rightarrow> nat"
  assumes size_range: "2 \<le> size_of a" "size_of a \<le> CEC_MAX_MSG_SIZE"
    and build_total: "cec_wf m \<Longrightarrow> \<exists>m'. build a m = Some m'"
    and build_effect: "cec_wf m \<Longrightarrow> build a m = Some m' \<Longrightarrow>
      cec_wf m' \<and> len m' = of_nat (size_of a) \<and> byte m' 1 = opcode \<and>
      byte m' 0 = (if bcast then byte m 0 OR 0xf else byte m 0)"
begin

lemma build_len: "cec_wf m \<Longrightarrow> build a m = Some m' \<Longrightarrow> unat (len m') = size_of a"
  using build_effect [of m a m'] size_range [of a] by (simp add: unat_of_nat)

lemma build_reads_opcode:
  assumes "cec_wf m" and "build a m = Some m'"
  shows "cec_msg_opcode m' = Some (uint opcode)"
proof -
  from assms have wf: "cec_wf m'" and op: "byte m' 1 = opcode"
    using build_effect by blast+
  from build_len [OF assms] size_range [of a] have "len m' > 1"
    by (simp add: word_less_nat_alt)
  with wf op show ?thesis
    by (simp add: cec_msg_opcode_def cec_simps)
qed

lemma build_keeps_initiator:
  assumes "cec_wf m" and "build a m = Some m'"
  shows "cec_msg_initiator m' = cec_msg_initiator m"
proof -
  have "to_u8 (drop_bit 4 (promote (b OR 0xf))) = to_u8 (drop_bit 4 (promote b))" for b :: u8
    by (simp add: bits8)
  with assms build_effect [OF assms] show ?thesis
    by (simp add: cec_msg_initiator_def cec_simps)
qed

lemma build_destination:
  assumes "cec_wf m" and "build a m = Some m'"
  shows "cec_msg_destination m' = (if bcast then Some 0xf else cec_msg_destination m)"
proof -
  have "to_u8 (promote (b OR 0xf) AND 0xf) = 0xf" for b :: u8
    by (simp add: bits8)
  with assms build_effect [OF assms] show ?thesis
    by (simp add: cec_msg_destination_def cec_simps)
qed

end

text \<open>
  A codec adds the \<open>cec_ops_*\<close> parser: what arrives over the wire parses to the arguments
  that were built (\<open>view a\<close>), for every argument inside the field widths (\<open>valid a\<close>).
\<close>

locale cec_codec = cec_builder build opcode bcast size_of
  for build :: "'a \<Rightarrow> cec_stmt" and opcode :: u8 and bcast :: bool and size_of :: "'a \<Rightarrow> nat" +
  fixes parse :: "cec_msg \<Rightarrow> 'b option"
    and view :: "'a \<Rightarrow> 'b"
    and valid :: "'a \<Rightarrow> bool"
  assumes parse_wire: "cec_wf m \<Longrightarrow> valid a \<Longrightarrow> build a m = Some m' \<Longrightarrow> wire m' r \<Longrightarrow>
    parse r = Some (view a)"
begin

lemma parse_build: "cec_wf m \<Longrightarrow> valid a \<Longrightarrow> Option.bind (build a m) parse = Some (view a)"
  using build_total [of m a] build_effect parse_wire wire_refl by fastforce

lemma received_unambiguous:
  assumes "cec_wf m" and "cec_wf n" and "valid a" and "valid b"
    and "build a m = Some m'" and "build b n = Some n'" and "wire m' r" and "wire n' r"
  shows "view a = view b"
proof -
  from assms have "parse r = Some (view a)" and "parse r = Some (view b)"
    by (blast intro: parse_wire)+
  then show ?thesis by simp
qed

end

text \<open>A zeroed message, the concrete input of the witnesses.\<close>

definition blank_msg :: cec_msg where
  "blank_msg = \<lparr>tx_ts = 0, rx_ts = 0, len = 0, timeout = 0, sequence = 0, flags = 0,
     msg = replicate CEC_MAX_MSG_SIZE 0, reply = 0, rx_status = 0, tx_status = 0,
     tx_arb_lost_cnt = 0, tx_nack_cnt = 0, tx_low_drive_cnt = 0, tx_error_cnt = 0\<rparr>"

lemma blank_wf: "cec_wf blank_msg"
  by (simp add: blank_msg_def cec_wf_def)

section \<open>Further theorems\<close>

text \<open>
  \<open>cec_msg_init\<close> gives a message of length 1, with no opcode, the given initiator
  and destination (both below 16) and everything else zero, whatever was in the structure
  before.
\<close>

theorem init_header:
  assumes "i < 16" and "d < 16"
  shows "\<exists>m. cec_msg_init i d m0 = Some m \<and> cec_msg_initiator m = Some i \<and>
    cec_msg_destination m = Some d \<and> cec_msg_is_broadcast m = Some (d = 0xf) \<and>
    cec_msg_opcode m = Some (- 1) \<and> unat (len m) = 1 \<and> tl (msg m) = replicate 15 0 \<and>
    reply m = 0 \<and> timeout m = 0 \<and> tx_status m = 0 \<and> rx_status m = 0"
proof -
  let ?b = "to_u8 (push_bit 4 (promote i) OR promote d)"
  have b: "to_u8 (drop_bit 4 (promote ?b)) = i" "to_u8 (promote ?b AND 0xf) = d"
      "(promote ?b AND 0xf) = promote d"
    using assms by (simp_all add: below_pow2 bits8 bits32)
  have "promote d = (0xf :: u32) \<longleftrightarrow> d = 0xf"
    by (simp add: bits8 bits32)
  moreover have "tl ((replicate 16 0)[0 := x]) = replicate 15 0" for x :: u8
    by (simp add: eval_nat_numeral)
  ultimately show ?thesis
    using b by (simp add: cec_msg_init_def wr_def set_len_def cec_msg_initiator_def cec_msg_destination_def
        cec_msg_is_broadcast_def cec_msg_opcode_def rd_def)
qed

text \<open>
  \<open>cec_msg_status_is_ok\<close> says yes exactly when something was sent or received,
  every part that happened carries its OK flag, and the reply is not a feature abort.
\<close>

theorem status_ok_iff:
  "cec_msg_status_is_ok m \<longleftrightarrow>
     \<not> (tx_status m = 0 \<and> rx_status m = 0) \<and> (tx_status m = 0 \<or> bit (tx_status m) 0) \<and>
     (rx_status m = 0 \<or> bit (rx_status m) 0) \<and> \<not> bit (rx_status m) 2"
proof -
  have "b AND 1 = 0 \<longleftrightarrow> \<not> bit b 0" "b AND 4 = 0 \<longleftrightarrow> \<not> bit b 2" for b :: u8
    by (simp_all add: bits8)
  then show ?thesis
    unfolding cec_msg_status_is_ok_def by auto
qed

end
