(* ===== verification/Cec_Opcodes.thy ===== *)
theory Cec_Opcodes
  imports Prelude
begin

text \<open>
  The opcodes and operand values of the CEC messages, from the second half of
  \<^verbatim>\<open>linux/cec.h\<close>: one abbreviation per macro, under the macro's name, and one list per
  operand comment (\<open>X Operand (var)\<close> becomes \<open>var_operands\<close>), which collects the values
  the header documents for that operand. \<open>cec_opcodes\<close> and \<open>cec_cdc_opcodes\<close> are the
  message opcodes and the opcodes of the CDC sub-messages.
\<close>

section \<open>Opcodes and operand values\<close>

subsection \<open>One Touch Play Feature\<close>

abbreviation (input) CEC_MSG_ACTIVE_SOURCE :: u8 where "CEC_MSG_ACTIVE_SOURCE \<equiv> 0x82"
abbreviation (input) CEC_MSG_IMAGE_VIEW_ON :: u8 where "CEC_MSG_IMAGE_VIEW_ON \<equiv> 0x04"
abbreviation (input) CEC_MSG_TEXT_VIEW_ON :: u8 where "CEC_MSG_TEXT_VIEW_ON \<equiv> 0x0d"
subsection \<open>Routing Control Feature\<close>

abbreviation (input) CEC_MSG_INACTIVE_SOURCE :: u8 where "CEC_MSG_INACTIVE_SOURCE \<equiv> 0x9d"
abbreviation (input) CEC_MSG_REQUEST_ACTIVE_SOURCE :: u8 where "CEC_MSG_REQUEST_ACTIVE_SOURCE \<equiv> 0x85"
abbreviation (input) CEC_MSG_ROUTING_CHANGE :: u8 where "CEC_MSG_ROUTING_CHANGE \<equiv> 0x80"
abbreviation (input) CEC_MSG_ROUTING_INFORMATION :: u8 where "CEC_MSG_ROUTING_INFORMATION \<equiv> 0x81"
abbreviation (input) CEC_MSG_SET_STREAM_PATH :: u8 where "CEC_MSG_SET_STREAM_PATH \<equiv> 0x86"
subsection \<open>Standby Feature\<close>

abbreviation (input) CEC_MSG_STANDBY :: u8 where "CEC_MSG_STANDBY \<equiv> 0x36"
subsection \<open>One Touch Record Feature\<close>

abbreviation (input) CEC_MSG_RECORD_OFF :: u8 where "CEC_MSG_RECORD_OFF \<equiv> 0x0b"
abbreviation (input) CEC_MSG_RECORD_ON :: u8 where "CEC_MSG_RECORD_ON \<equiv> 0x09"
abbreviation (input) CEC_OP_RECORD_SRC_OWN :: u8 where "CEC_OP_RECORD_SRC_OWN \<equiv> 1"
abbreviation (input) CEC_OP_RECORD_SRC_DIGITAL :: u8 where "CEC_OP_RECORD_SRC_DIGITAL \<equiv> 2"
abbreviation (input) CEC_OP_RECORD_SRC_ANALOG :: u8 where "CEC_OP_RECORD_SRC_ANALOG \<equiv> 3"
abbreviation (input) CEC_OP_RECORD_SRC_EXT_PLUG :: u8 where "CEC_OP_RECORD_SRC_EXT_PLUG \<equiv> 4"
abbreviation (input) CEC_OP_RECORD_SRC_EXT_PHYS_ADDR :: u8 where "CEC_OP_RECORD_SRC_EXT_PHYS_ADDR \<equiv> 5"
abbreviation (input) CEC_OP_SERVICE_ID_METHOD_BY_DIG_ID :: u8 where "CEC_OP_SERVICE_ID_METHOD_BY_DIG_ID \<equiv> 0"
abbreviation (input) CEC_OP_SERVICE_ID_METHOD_BY_CHANNEL :: u8 where "CEC_OP_SERVICE_ID_METHOD_BY_CHANNEL \<equiv> 1"
abbreviation (input) CEC_OP_DIG_SERVICE_BCAST_SYSTEM_ARIB_GEN :: u8 where "CEC_OP_DIG_SERVICE_BCAST_SYSTEM_ARIB_GEN \<equiv> 0x00"
abbreviation (input) CEC_OP_DIG_SERVICE_BCAST_SYSTEM_ATSC_GEN :: u8 where "CEC_OP_DIG_SERVICE_BCAST_SYSTEM_ATSC_GEN \<equiv> 0x01"
abbreviation (input) CEC_OP_DIG_SERVICE_BCAST_SYSTEM_DVB_GEN :: u8 where "CEC_OP_DIG_SERVICE_BCAST_SYSTEM_DVB_GEN \<equiv> 0x02"
abbreviation (input) CEC_OP_DIG_SERVICE_BCAST_SYSTEM_ARIB_BS :: u8 where "CEC_OP_DIG_SERVICE_BCAST_SYSTEM_ARIB_BS \<equiv> 0x08"
abbreviation (input) CEC_OP_DIG_SERVICE_BCAST_SYSTEM_ARIB_CS :: u8 where "CEC_OP_DIG_SERVICE_BCAST_SYSTEM_ARIB_CS \<equiv> 0x09"
abbreviation (input) CEC_OP_DIG_SERVICE_BCAST_SYSTEM_ARIB_T :: u8 where "CEC_OP_DIG_SERVICE_BCAST_SYSTEM_ARIB_T \<equiv> 0x0a"
abbreviation (input) CEC_OP_DIG_SERVICE_BCAST_SYSTEM_ATSC_CABLE :: u8 where "CEC_OP_DIG_SERVICE_BCAST_SYSTEM_ATSC_CABLE \<equiv> 0x10"
abbreviation (input) CEC_OP_DIG_SERVICE_BCAST_SYSTEM_ATSC_SAT :: u8 where "CEC_OP_DIG_SERVICE_BCAST_SYSTEM_ATSC_SAT \<equiv> 0x11"
abbreviation (input) CEC_OP_DIG_SERVICE_BCAST_SYSTEM_ATSC_T :: u8 where "CEC_OP_DIG_SERVICE_BCAST_SYSTEM_ATSC_T \<equiv> 0x12"
abbreviation (input) CEC_OP_DIG_SERVICE_BCAST_SYSTEM_DVB_C :: u8 where "CEC_OP_DIG_SERVICE_BCAST_SYSTEM_DVB_C \<equiv> 0x18"
abbreviation (input) CEC_OP_DIG_SERVICE_BCAST_SYSTEM_DVB_S :: u8 where "CEC_OP_DIG_SERVICE_BCAST_SYSTEM_DVB_S \<equiv> 0x19"
abbreviation (input) CEC_OP_DIG_SERVICE_BCAST_SYSTEM_DVB_S2 :: u8 where "CEC_OP_DIG_SERVICE_BCAST_SYSTEM_DVB_S2 \<equiv> 0x1a"
abbreviation (input) CEC_OP_DIG_SERVICE_BCAST_SYSTEM_DVB_T :: u8 where "CEC_OP_DIG_SERVICE_BCAST_SYSTEM_DVB_T \<equiv> 0x1b"
abbreviation (input) CEC_OP_ANA_BCAST_TYPE_CABLE :: u8 where "CEC_OP_ANA_BCAST_TYPE_CABLE \<equiv> 0"
abbreviation (input) CEC_OP_ANA_BCAST_TYPE_SATELLITE :: u8 where "CEC_OP_ANA_BCAST_TYPE_SATELLITE \<equiv> 1"
abbreviation (input) CEC_OP_ANA_BCAST_TYPE_TERRESTRIAL :: u8 where "CEC_OP_ANA_BCAST_TYPE_TERRESTRIAL \<equiv> 2"
abbreviation (input) CEC_OP_BCAST_SYSTEM_PAL_BG :: u8 where "CEC_OP_BCAST_SYSTEM_PAL_BG \<equiv> 0x00"
abbreviation (input) CEC_OP_BCAST_SYSTEM_SECAM_LQ :: u8 where "CEC_OP_BCAST_SYSTEM_SECAM_LQ \<equiv> 0x01"
abbreviation (input) CEC_OP_BCAST_SYSTEM_PAL_M :: u8 where "CEC_OP_BCAST_SYSTEM_PAL_M \<equiv> 0x02"
abbreviation (input) CEC_OP_BCAST_SYSTEM_NTSC_M :: u8 where "CEC_OP_BCAST_SYSTEM_NTSC_M \<equiv> 0x03"
abbreviation (input) CEC_OP_BCAST_SYSTEM_PAL_I :: u8 where "CEC_OP_BCAST_SYSTEM_PAL_I \<equiv> 0x04"
abbreviation (input) CEC_OP_BCAST_SYSTEM_SECAM_DK :: u8 where "CEC_OP_BCAST_SYSTEM_SECAM_DK \<equiv> 0x05"
abbreviation (input) CEC_OP_BCAST_SYSTEM_SECAM_BG :: u8 where "CEC_OP_BCAST_SYSTEM_SECAM_BG \<equiv> 0x06"
abbreviation (input) CEC_OP_BCAST_SYSTEM_SECAM_L :: u8 where "CEC_OP_BCAST_SYSTEM_SECAM_L \<equiv> 0x07"
abbreviation (input) CEC_OP_BCAST_SYSTEM_PAL_DK :: u8 where "CEC_OP_BCAST_SYSTEM_PAL_DK \<equiv> 0x08"
abbreviation (input) CEC_OP_BCAST_SYSTEM_OTHER :: u8 where "CEC_OP_BCAST_SYSTEM_OTHER \<equiv> 0x1f"
abbreviation (input) CEC_OP_CHANNEL_NUMBER_FMT_1_PART :: u8 where "CEC_OP_CHANNEL_NUMBER_FMT_1_PART \<equiv> 0x01"
abbreviation (input) CEC_OP_CHANNEL_NUMBER_FMT_2_PART :: u8 where "CEC_OP_CHANNEL_NUMBER_FMT_2_PART \<equiv> 0x02"
abbreviation (input) CEC_MSG_RECORD_STATUS :: u8 where "CEC_MSG_RECORD_STATUS \<equiv> 0x0a"
abbreviation (input) CEC_OP_RECORD_STATUS_CUR_SRC :: u8 where "CEC_OP_RECORD_STATUS_CUR_SRC \<equiv> 0x01"
abbreviation (input) CEC_OP_RECORD_STATUS_DIG_SERVICE :: u8 where "CEC_OP_RECORD_STATUS_DIG_SERVICE \<equiv> 0x02"
abbreviation (input) CEC_OP_RECORD_STATUS_ANA_SERVICE :: u8 where "CEC_OP_RECORD_STATUS_ANA_SERVICE \<equiv> 0x03"
abbreviation (input) CEC_OP_RECORD_STATUS_EXT_INPUT :: u8 where "CEC_OP_RECORD_STATUS_EXT_INPUT \<equiv> 0x04"
abbreviation (input) CEC_OP_RECORD_STATUS_NO_DIG_SERVICE :: u8 where "CEC_OP_RECORD_STATUS_NO_DIG_SERVICE \<equiv> 0x05"
abbreviation (input) CEC_OP_RECORD_STATUS_NO_ANA_SERVICE :: u8 where "CEC_OP_RECORD_STATUS_NO_ANA_SERVICE \<equiv> 0x06"
abbreviation (input) CEC_OP_RECORD_STATUS_NO_SERVICE :: u8 where "CEC_OP_RECORD_STATUS_NO_SERVICE \<equiv> 0x07"
abbreviation (input) CEC_OP_RECORD_STATUS_INVALID_EXT_PLUG :: u8 where "CEC_OP_RECORD_STATUS_INVALID_EXT_PLUG \<equiv> 0x09"
abbreviation (input) CEC_OP_RECORD_STATUS_INVALID_EXT_PHYS_ADDR :: u8 where "CEC_OP_RECORD_STATUS_INVALID_EXT_PHYS_ADDR \<equiv> 0x0a"
abbreviation (input) CEC_OP_RECORD_STATUS_UNSUP_CA :: u8 where "CEC_OP_RECORD_STATUS_UNSUP_CA \<equiv> 0x0b"
abbreviation (input) CEC_OP_RECORD_STATUS_NO_CA_ENTITLEMENTS :: u8 where "CEC_OP_RECORD_STATUS_NO_CA_ENTITLEMENTS \<equiv> 0x0c"
abbreviation (input) CEC_OP_RECORD_STATUS_CANT_COPY_SRC :: u8 where "CEC_OP_RECORD_STATUS_CANT_COPY_SRC \<equiv> 0x0d"
abbreviation (input) CEC_OP_RECORD_STATUS_NO_MORE_COPIES :: u8 where "CEC_OP_RECORD_STATUS_NO_MORE_COPIES \<equiv> 0x0e"
abbreviation (input) CEC_OP_RECORD_STATUS_NO_MEDIA :: u8 where "CEC_OP_RECORD_STATUS_NO_MEDIA \<equiv> 0x10"
abbreviation (input) CEC_OP_RECORD_STATUS_PLAYING :: u8 where "CEC_OP_RECORD_STATUS_PLAYING \<equiv> 0x11"
abbreviation (input) CEC_OP_RECORD_STATUS_ALREADY_RECORDING :: u8 where "CEC_OP_RECORD_STATUS_ALREADY_RECORDING \<equiv> 0x12"
abbreviation (input) CEC_OP_RECORD_STATUS_MEDIA_PROT :: u8 where "CEC_OP_RECORD_STATUS_MEDIA_PROT \<equiv> 0x13"
abbreviation (input) CEC_OP_RECORD_STATUS_NO_SIGNAL :: u8 where "CEC_OP_RECORD_STATUS_NO_SIGNAL \<equiv> 0x14"
abbreviation (input) CEC_OP_RECORD_STATUS_MEDIA_PROBLEM :: u8 where "CEC_OP_RECORD_STATUS_MEDIA_PROBLEM \<equiv> 0x15"
abbreviation (input) CEC_OP_RECORD_STATUS_NO_SPACE :: u8 where "CEC_OP_RECORD_STATUS_NO_SPACE \<equiv> 0x16"
abbreviation (input) CEC_OP_RECORD_STATUS_PARENTAL_LOCK :: u8 where "CEC_OP_RECORD_STATUS_PARENTAL_LOCK \<equiv> 0x17"
abbreviation (input) CEC_OP_RECORD_STATUS_TERMINATED_OK :: u8 where "CEC_OP_RECORD_STATUS_TERMINATED_OK \<equiv> 0x1a"
abbreviation (input) CEC_OP_RECORD_STATUS_ALREADY_TERM :: u8 where "CEC_OP_RECORD_STATUS_ALREADY_TERM \<equiv> 0x1b"
abbreviation (input) CEC_OP_RECORD_STATUS_OTHER :: u8 where "CEC_OP_RECORD_STATUS_OTHER \<equiv> 0x1f"
abbreviation (input) CEC_MSG_RECORD_TV_SCREEN :: u8 where "CEC_MSG_RECORD_TV_SCREEN \<equiv> 0x0f"
subsection \<open>Timer Programming Feature\<close>

abbreviation (input) CEC_MSG_CLEAR_ANALOGUE_TIMER :: u8 where "CEC_MSG_CLEAR_ANALOGUE_TIMER \<equiv> 0x33"
abbreviation (input) CEC_OP_REC_SEQ_SUNDAY :: u8 where "CEC_OP_REC_SEQ_SUNDAY \<equiv> 0x01"
abbreviation (input) CEC_OP_REC_SEQ_MONDAY :: u8 where "CEC_OP_REC_SEQ_MONDAY \<equiv> 0x02"
abbreviation (input) CEC_OP_REC_SEQ_TUESDAY :: u8 where "CEC_OP_REC_SEQ_TUESDAY \<equiv> 0x04"
abbreviation (input) CEC_OP_REC_SEQ_WEDNESDAY :: u8 where "CEC_OP_REC_SEQ_WEDNESDAY \<equiv> 0x08"
abbreviation (input) CEC_OP_REC_SEQ_THURSDAY :: u8 where "CEC_OP_REC_SEQ_THURSDAY \<equiv> 0x10"
abbreviation (input) CEC_OP_REC_SEQ_FRIDAY :: u8 where "CEC_OP_REC_SEQ_FRIDAY \<equiv> 0x20"
abbreviation (input) CEC_OP_REC_SEQ_SATERDAY :: u8 where "CEC_OP_REC_SEQ_SATERDAY \<equiv> 0x40"
abbreviation (input) CEC_OP_REC_SEQ_ONCE_ONLY :: u8 where "CEC_OP_REC_SEQ_ONCE_ONLY \<equiv> 0x00"
abbreviation (input) CEC_MSG_CLEAR_DIGITAL_TIMER :: u8 where "CEC_MSG_CLEAR_DIGITAL_TIMER \<equiv> 0x99"
abbreviation (input) CEC_MSG_CLEAR_EXT_TIMER :: u8 where "CEC_MSG_CLEAR_EXT_TIMER \<equiv> 0xa1"
abbreviation (input) CEC_OP_EXT_SRC_PLUG :: u8 where "CEC_OP_EXT_SRC_PLUG \<equiv> 0x04"
abbreviation (input) CEC_OP_EXT_SRC_PHYS_ADDR :: u8 where "CEC_OP_EXT_SRC_PHYS_ADDR \<equiv> 0x05"
abbreviation (input) CEC_MSG_SET_ANALOGUE_TIMER :: u8 where "CEC_MSG_SET_ANALOGUE_TIMER \<equiv> 0x34"
abbreviation (input) CEC_MSG_SET_DIGITAL_TIMER :: u8 where "CEC_MSG_SET_DIGITAL_TIMER \<equiv> 0x97"
abbreviation (input) CEC_MSG_SET_EXT_TIMER :: u8 where "CEC_MSG_SET_EXT_TIMER \<equiv> 0xa2"
abbreviation (input) CEC_MSG_SET_TIMER_PROGRAM_TITLE :: u8 where "CEC_MSG_SET_TIMER_PROGRAM_TITLE \<equiv> 0x67"
abbreviation (input) CEC_MSG_TIMER_CLEARED_STATUS :: u8 where "CEC_MSG_TIMER_CLEARED_STATUS \<equiv> 0x43"
abbreviation (input) CEC_OP_TIMER_CLR_STAT_RECORDING :: u8 where "CEC_OP_TIMER_CLR_STAT_RECORDING \<equiv> 0x00"
abbreviation (input) CEC_OP_TIMER_CLR_STAT_NO_MATCHING :: u8 where "CEC_OP_TIMER_CLR_STAT_NO_MATCHING \<equiv> 0x01"
abbreviation (input) CEC_OP_TIMER_CLR_STAT_NO_INFO :: u8 where "CEC_OP_TIMER_CLR_STAT_NO_INFO \<equiv> 0x02"
abbreviation (input) CEC_OP_TIMER_CLR_STAT_CLEARED :: u8 where "CEC_OP_TIMER_CLR_STAT_CLEARED \<equiv> 0x80"
abbreviation (input) CEC_MSG_TIMER_STATUS :: u8 where "CEC_MSG_TIMER_STATUS \<equiv> 0x35"
abbreviation (input) CEC_OP_TIMER_OVERLAP_WARNING_NO_OVERLAP :: u8 where "CEC_OP_TIMER_OVERLAP_WARNING_NO_OVERLAP \<equiv> 0"
abbreviation (input) CEC_OP_TIMER_OVERLAP_WARNING_OVERLAP :: u8 where "CEC_OP_TIMER_OVERLAP_WARNING_OVERLAP \<equiv> 1"
abbreviation (input) CEC_OP_MEDIA_INFO_UNPROT_MEDIA :: u8 where "CEC_OP_MEDIA_INFO_UNPROT_MEDIA \<equiv> 0"
abbreviation (input) CEC_OP_MEDIA_INFO_PROT_MEDIA :: u8 where "CEC_OP_MEDIA_INFO_PROT_MEDIA \<equiv> 1"
abbreviation (input) CEC_OP_MEDIA_INFO_NO_MEDIA :: u8 where "CEC_OP_MEDIA_INFO_NO_MEDIA \<equiv> 2"
abbreviation (input) CEC_OP_PROG_IND_NOT_PROGRAMMED :: u8 where "CEC_OP_PROG_IND_NOT_PROGRAMMED \<equiv> 0"
abbreviation (input) CEC_OP_PROG_IND_PROGRAMMED :: u8 where "CEC_OP_PROG_IND_PROGRAMMED \<equiv> 1"
abbreviation (input) CEC_OP_PROG_INFO_ENOUGH_SPACE :: u8 where "CEC_OP_PROG_INFO_ENOUGH_SPACE \<equiv> 0x08"
abbreviation (input) CEC_OP_PROG_INFO_NOT_ENOUGH_SPACE :: u8 where "CEC_OP_PROG_INFO_NOT_ENOUGH_SPACE \<equiv> 0x09"
abbreviation (input) CEC_OP_PROG_INFO_MIGHT_NOT_BE_ENOUGH_SPACE :: u8 where "CEC_OP_PROG_INFO_MIGHT_NOT_BE_ENOUGH_SPACE \<equiv> 0x0b"
abbreviation (input) CEC_OP_PROG_INFO_NONE_AVAILABLE :: u8 where "CEC_OP_PROG_INFO_NONE_AVAILABLE \<equiv> 0x0a"
abbreviation (input) CEC_OP_PROG_ERROR_NO_FREE_TIMER :: u8 where "CEC_OP_PROG_ERROR_NO_FREE_TIMER \<equiv> 0x01"
abbreviation (input) CEC_OP_PROG_ERROR_DATE_OUT_OF_RANGE :: u8 where "CEC_OP_PROG_ERROR_DATE_OUT_OF_RANGE \<equiv> 0x02"
abbreviation (input) CEC_OP_PROG_ERROR_REC_SEQ_ERROR :: u8 where "CEC_OP_PROG_ERROR_REC_SEQ_ERROR \<equiv> 0x03"
abbreviation (input) CEC_OP_PROG_ERROR_INV_EXT_PLUG :: u8 where "CEC_OP_PROG_ERROR_INV_EXT_PLUG \<equiv> 0x04"
abbreviation (input) CEC_OP_PROG_ERROR_INV_EXT_PHYS_ADDR :: u8 where "CEC_OP_PROG_ERROR_INV_EXT_PHYS_ADDR \<equiv> 0x05"
abbreviation (input) CEC_OP_PROG_ERROR_CA_UNSUPP :: u8 where "CEC_OP_PROG_ERROR_CA_UNSUPP \<equiv> 0x06"
abbreviation (input) CEC_OP_PROG_ERROR_INSUF_CA_ENTITLEMENTS :: u8 where "CEC_OP_PROG_ERROR_INSUF_CA_ENTITLEMENTS \<equiv> 0x07"
abbreviation (input) CEC_OP_PROG_ERROR_RESOLUTION_UNSUPP :: u8 where "CEC_OP_PROG_ERROR_RESOLUTION_UNSUPP \<equiv> 0x08"
abbreviation (input) CEC_OP_PROG_ERROR_PARENTAL_LOCK :: u8 where "CEC_OP_PROG_ERROR_PARENTAL_LOCK \<equiv> 0x09"
abbreviation (input) CEC_OP_PROG_ERROR_CLOCK_FAILURE :: u8 where "CEC_OP_PROG_ERROR_CLOCK_FAILURE \<equiv> 0x0a"
abbreviation (input) CEC_OP_PROG_ERROR_DUPLICATE :: u8 where "CEC_OP_PROG_ERROR_DUPLICATE \<equiv> 0x0e"
subsection \<open>System Information Feature\<close>

abbreviation (input) CEC_MSG_CEC_VERSION :: u8 where "CEC_MSG_CEC_VERSION \<equiv> 0x9e"
abbreviation (input) CEC_OP_CEC_VERSION_1_3A :: u8 where "CEC_OP_CEC_VERSION_1_3A \<equiv> 4"
abbreviation (input) CEC_OP_CEC_VERSION_1_4 :: u8 where "CEC_OP_CEC_VERSION_1_4 \<equiv> 5"
abbreviation (input) CEC_OP_CEC_VERSION_2_0 :: u8 where "CEC_OP_CEC_VERSION_2_0 \<equiv> 6"
abbreviation (input) CEC_MSG_GET_CEC_VERSION :: u8 where "CEC_MSG_GET_CEC_VERSION \<equiv> 0x9f"
abbreviation (input) CEC_MSG_GIVE_PHYSICAL_ADDR :: u8 where "CEC_MSG_GIVE_PHYSICAL_ADDR \<equiv> 0x83"
abbreviation (input) CEC_MSG_GET_MENU_LANGUAGE :: u8 where "CEC_MSG_GET_MENU_LANGUAGE \<equiv> 0x91"
abbreviation (input) CEC_MSG_REPORT_PHYSICAL_ADDR :: u8 where "CEC_MSG_REPORT_PHYSICAL_ADDR \<equiv> 0x84"
abbreviation (input) CEC_OP_PRIM_DEVTYPE_TV :: u8 where "CEC_OP_PRIM_DEVTYPE_TV \<equiv> 0"
abbreviation (input) CEC_OP_PRIM_DEVTYPE_RECORD :: u8 where "CEC_OP_PRIM_DEVTYPE_RECORD \<equiv> 1"
abbreviation (input) CEC_OP_PRIM_DEVTYPE_TUNER :: u8 where "CEC_OP_PRIM_DEVTYPE_TUNER \<equiv> 3"
abbreviation (input) CEC_OP_PRIM_DEVTYPE_PLAYBACK :: u8 where "CEC_OP_PRIM_DEVTYPE_PLAYBACK \<equiv> 4"
abbreviation (input) CEC_OP_PRIM_DEVTYPE_AUDIOSYSTEM :: u8 where "CEC_OP_PRIM_DEVTYPE_AUDIOSYSTEM \<equiv> 5"
abbreviation (input) CEC_OP_PRIM_DEVTYPE_SWITCH :: u8 where "CEC_OP_PRIM_DEVTYPE_SWITCH \<equiv> 6"
abbreviation (input) CEC_OP_PRIM_DEVTYPE_PROCESSOR :: u8 where "CEC_OP_PRIM_DEVTYPE_PROCESSOR \<equiv> 7"
abbreviation (input) CEC_MSG_SET_MENU_LANGUAGE :: u8 where "CEC_MSG_SET_MENU_LANGUAGE \<equiv> 0x32"
abbreviation (input) CEC_MSG_REPORT_FEATURES :: u8 where "CEC_MSG_REPORT_FEATURES \<equiv> 0xa6"
abbreviation (input) CEC_OP_ALL_DEVTYPE_TV :: u8 where "CEC_OP_ALL_DEVTYPE_TV \<equiv> 0x80"
abbreviation (input) CEC_OP_ALL_DEVTYPE_RECORD :: u8 where "CEC_OP_ALL_DEVTYPE_RECORD \<equiv> 0x40"
abbreviation (input) CEC_OP_ALL_DEVTYPE_TUNER :: u8 where "CEC_OP_ALL_DEVTYPE_TUNER \<equiv> 0x20"
abbreviation (input) CEC_OP_ALL_DEVTYPE_PLAYBACK :: u8 where "CEC_OP_ALL_DEVTYPE_PLAYBACK \<equiv> 0x10"
abbreviation (input) CEC_OP_ALL_DEVTYPE_AUDIOSYSTEM :: u8 where "CEC_OP_ALL_DEVTYPE_AUDIOSYSTEM \<equiv> 0x08"
abbreviation (input) CEC_OP_ALL_DEVTYPE_SWITCH :: u8 where "CEC_OP_ALL_DEVTYPE_SWITCH \<equiv> 0x04"
abbreviation (input) CEC_OP_FEAT_EXT :: u8 where "CEC_OP_FEAT_EXT \<equiv> 0x80"
abbreviation (input) CEC_OP_FEAT_RC_TV_PROFILE_NONE :: u8 where "CEC_OP_FEAT_RC_TV_PROFILE_NONE \<equiv> 0x00"
abbreviation (input) CEC_OP_FEAT_RC_TV_PROFILE_1 :: u8 where "CEC_OP_FEAT_RC_TV_PROFILE_1 \<equiv> 0x02"
abbreviation (input) CEC_OP_FEAT_RC_TV_PROFILE_2 :: u8 where "CEC_OP_FEAT_RC_TV_PROFILE_2 \<equiv> 0x06"
abbreviation (input) CEC_OP_FEAT_RC_TV_PROFILE_3 :: u8 where "CEC_OP_FEAT_RC_TV_PROFILE_3 \<equiv> 0x0a"
abbreviation (input) CEC_OP_FEAT_RC_TV_PROFILE_4 :: u8 where "CEC_OP_FEAT_RC_TV_PROFILE_4 \<equiv> 0x0e"
abbreviation (input) CEC_OP_FEAT_RC_SRC_HAS_DEV_ROOT_MENU :: u8 where "CEC_OP_FEAT_RC_SRC_HAS_DEV_ROOT_MENU \<equiv> 0x50"
abbreviation (input) CEC_OP_FEAT_RC_SRC_HAS_DEV_SETUP_MENU :: u8 where "CEC_OP_FEAT_RC_SRC_HAS_DEV_SETUP_MENU \<equiv> 0x48"
abbreviation (input) CEC_OP_FEAT_RC_SRC_HAS_CONTENTS_MENU :: u8 where "CEC_OP_FEAT_RC_SRC_HAS_CONTENTS_MENU \<equiv> 0x44"
abbreviation (input) CEC_OP_FEAT_RC_SRC_HAS_MEDIA_TOP_MENU :: u8 where "CEC_OP_FEAT_RC_SRC_HAS_MEDIA_TOP_MENU \<equiv> 0x42"
abbreviation (input) CEC_OP_FEAT_RC_SRC_HAS_MEDIA_CONTEXT_MENU :: u8 where "CEC_OP_FEAT_RC_SRC_HAS_MEDIA_CONTEXT_MENU \<equiv> 0x41"
abbreviation (input) CEC_OP_FEAT_DEV_HAS_RECORD_TV_SCREEN :: u8 where "CEC_OP_FEAT_DEV_HAS_RECORD_TV_SCREEN \<equiv> 0x40"
abbreviation (input) CEC_OP_FEAT_DEV_HAS_SET_OSD_STRING :: u8 where "CEC_OP_FEAT_DEV_HAS_SET_OSD_STRING \<equiv> 0x20"
abbreviation (input) CEC_OP_FEAT_DEV_HAS_DECK_CONTROL :: u8 where "CEC_OP_FEAT_DEV_HAS_DECK_CONTROL \<equiv> 0x10"
abbreviation (input) CEC_OP_FEAT_DEV_HAS_SET_AUDIO_RATE :: u8 where "CEC_OP_FEAT_DEV_HAS_SET_AUDIO_RATE \<equiv> 0x08"
abbreviation (input) CEC_OP_FEAT_DEV_SINK_HAS_ARC_TX :: u8 where "CEC_OP_FEAT_DEV_SINK_HAS_ARC_TX \<equiv> 0x04"
abbreviation (input) CEC_OP_FEAT_DEV_SOURCE_HAS_ARC_RX :: u8 where "CEC_OP_FEAT_DEV_SOURCE_HAS_ARC_RX \<equiv> 0x02"
abbreviation (input) CEC_MSG_GIVE_FEATURES :: u8 where "CEC_MSG_GIVE_FEATURES \<equiv> 0xa5"
subsection \<open>Deck Control Feature\<close>

abbreviation (input) CEC_MSG_DECK_CONTROL :: u8 where "CEC_MSG_DECK_CONTROL \<equiv> 0x42"
abbreviation (input) CEC_OP_DECK_CTL_MODE_SKIP_FWD :: u8 where "CEC_OP_DECK_CTL_MODE_SKIP_FWD \<equiv> 1"
abbreviation (input) CEC_OP_DECK_CTL_MODE_SKIP_REV :: u8 where "CEC_OP_DECK_CTL_MODE_SKIP_REV \<equiv> 2"
abbreviation (input) CEC_OP_DECK_CTL_MODE_STOP :: u8 where "CEC_OP_DECK_CTL_MODE_STOP \<equiv> 3"
abbreviation (input) CEC_OP_DECK_CTL_MODE_EJECT :: u8 where "CEC_OP_DECK_CTL_MODE_EJECT \<equiv> 4"
abbreviation (input) CEC_MSG_DECK_STATUS :: u8 where "CEC_MSG_DECK_STATUS \<equiv> 0x1b"
abbreviation (input) CEC_OP_DECK_INFO_PLAY :: u8 where "CEC_OP_DECK_INFO_PLAY \<equiv> 0x11"
abbreviation (input) CEC_OP_DECK_INFO_RECORD :: u8 where "CEC_OP_DECK_INFO_RECORD \<equiv> 0x12"
abbreviation (input) CEC_OP_DECK_INFO_PLAY_REV :: u8 where "CEC_OP_DECK_INFO_PLAY_REV \<equiv> 0x13"
abbreviation (input) CEC_OP_DECK_INFO_STILL :: u8 where "CEC_OP_DECK_INFO_STILL \<equiv> 0x14"
abbreviation (input) CEC_OP_DECK_INFO_SLOW :: u8 where "CEC_OP_DECK_INFO_SLOW \<equiv> 0x15"
abbreviation (input) CEC_OP_DECK_INFO_SLOW_REV :: u8 where "CEC_OP_DECK_INFO_SLOW_REV \<equiv> 0x16"
abbreviation (input) CEC_OP_DECK_INFO_FAST_FWD :: u8 where "CEC_OP_DECK_INFO_FAST_FWD \<equiv> 0x17"
abbreviation (input) CEC_OP_DECK_INFO_FAST_REV :: u8 where "CEC_OP_DECK_INFO_FAST_REV \<equiv> 0x18"
abbreviation (input) CEC_OP_DECK_INFO_NO_MEDIA :: u8 where "CEC_OP_DECK_INFO_NO_MEDIA \<equiv> 0x19"
abbreviation (input) CEC_OP_DECK_INFO_STOP :: u8 where "CEC_OP_DECK_INFO_STOP \<equiv> 0x1a"
abbreviation (input) CEC_OP_DECK_INFO_SKIP_FWD :: u8 where "CEC_OP_DECK_INFO_SKIP_FWD \<equiv> 0x1b"
abbreviation (input) CEC_OP_DECK_INFO_SKIP_REV :: u8 where "CEC_OP_DECK_INFO_SKIP_REV \<equiv> 0x1c"
abbreviation (input) CEC_OP_DECK_INFO_INDEX_SEARCH_FWD :: u8 where "CEC_OP_DECK_INFO_INDEX_SEARCH_FWD \<equiv> 0x1d"
abbreviation (input) CEC_OP_DECK_INFO_INDEX_SEARCH_REV :: u8 where "CEC_OP_DECK_INFO_INDEX_SEARCH_REV \<equiv> 0x1e"
abbreviation (input) CEC_OP_DECK_INFO_OTHER :: u8 where "CEC_OP_DECK_INFO_OTHER \<equiv> 0x1f"
abbreviation (input) CEC_MSG_GIVE_DECK_STATUS :: u8 where "CEC_MSG_GIVE_DECK_STATUS \<equiv> 0x1a"
abbreviation (input) CEC_OP_STATUS_REQ_ON :: u8 where "CEC_OP_STATUS_REQ_ON \<equiv> 1"
abbreviation (input) CEC_OP_STATUS_REQ_OFF :: u8 where "CEC_OP_STATUS_REQ_OFF \<equiv> 2"
abbreviation (input) CEC_OP_STATUS_REQ_ONCE :: u8 where "CEC_OP_STATUS_REQ_ONCE \<equiv> 3"
abbreviation (input) CEC_MSG_PLAY :: u8 where "CEC_MSG_PLAY \<equiv> 0x41"
abbreviation (input) CEC_OP_PLAY_MODE_PLAY_FWD :: u8 where "CEC_OP_PLAY_MODE_PLAY_FWD \<equiv> 0x24"
abbreviation (input) CEC_OP_PLAY_MODE_PLAY_REV :: u8 where "CEC_OP_PLAY_MODE_PLAY_REV \<equiv> 0x20"
abbreviation (input) CEC_OP_PLAY_MODE_PLAY_STILL :: u8 where "CEC_OP_PLAY_MODE_PLAY_STILL \<equiv> 0x25"
abbreviation (input) CEC_OP_PLAY_MODE_PLAY_FAST_FWD_MIN :: u8 where "CEC_OP_PLAY_MODE_PLAY_FAST_FWD_MIN \<equiv> 0x05"
abbreviation (input) CEC_OP_PLAY_MODE_PLAY_FAST_FWD_MED :: u8 where "CEC_OP_PLAY_MODE_PLAY_FAST_FWD_MED \<equiv> 0x06"
abbreviation (input) CEC_OP_PLAY_MODE_PLAY_FAST_FWD_MAX :: u8 where "CEC_OP_PLAY_MODE_PLAY_FAST_FWD_MAX \<equiv> 0x07"
abbreviation (input) CEC_OP_PLAY_MODE_PLAY_FAST_REV_MIN :: u8 where "CEC_OP_PLAY_MODE_PLAY_FAST_REV_MIN \<equiv> 0x09"
abbreviation (input) CEC_OP_PLAY_MODE_PLAY_FAST_REV_MED :: u8 where "CEC_OP_PLAY_MODE_PLAY_FAST_REV_MED \<equiv> 0x0a"
abbreviation (input) CEC_OP_PLAY_MODE_PLAY_FAST_REV_MAX :: u8 where "CEC_OP_PLAY_MODE_PLAY_FAST_REV_MAX \<equiv> 0x0b"
abbreviation (input) CEC_OP_PLAY_MODE_PLAY_SLOW_FWD_MIN :: u8 where "CEC_OP_PLAY_MODE_PLAY_SLOW_FWD_MIN \<equiv> 0x15"
abbreviation (input) CEC_OP_PLAY_MODE_PLAY_SLOW_FWD_MED :: u8 where "CEC_OP_PLAY_MODE_PLAY_SLOW_FWD_MED \<equiv> 0x16"
abbreviation (input) CEC_OP_PLAY_MODE_PLAY_SLOW_FWD_MAX :: u8 where "CEC_OP_PLAY_MODE_PLAY_SLOW_FWD_MAX \<equiv> 0x17"
abbreviation (input) CEC_OP_PLAY_MODE_PLAY_SLOW_REV_MIN :: u8 where "CEC_OP_PLAY_MODE_PLAY_SLOW_REV_MIN \<equiv> 0x19"
abbreviation (input) CEC_OP_PLAY_MODE_PLAY_SLOW_REV_MED :: u8 where "CEC_OP_PLAY_MODE_PLAY_SLOW_REV_MED \<equiv> 0x1a"
abbreviation (input) CEC_OP_PLAY_MODE_PLAY_SLOW_REV_MAX :: u8 where "CEC_OP_PLAY_MODE_PLAY_SLOW_REV_MAX \<equiv> 0x1b"
subsection \<open>Tuner Control Feature\<close>

abbreviation (input) CEC_MSG_GIVE_TUNER_DEVICE_STATUS :: u8 where "CEC_MSG_GIVE_TUNER_DEVICE_STATUS \<equiv> 0x08"
abbreviation (input) CEC_MSG_SELECT_ANALOGUE_SERVICE :: u8 where "CEC_MSG_SELECT_ANALOGUE_SERVICE \<equiv> 0x92"
abbreviation (input) CEC_MSG_SELECT_DIGITAL_SERVICE :: u8 where "CEC_MSG_SELECT_DIGITAL_SERVICE \<equiv> 0x93"
abbreviation (input) CEC_MSG_TUNER_DEVICE_STATUS :: u8 where "CEC_MSG_TUNER_DEVICE_STATUS \<equiv> 0x07"
abbreviation (input) CEC_OP_REC_FLAG_USED :: u8 where "CEC_OP_REC_FLAG_USED \<equiv> 0"
abbreviation (input) CEC_OP_REC_FLAG_NOT_USED :: u8 where "CEC_OP_REC_FLAG_NOT_USED \<equiv> 1"
abbreviation (input) CEC_OP_TUNER_DISPLAY_INFO_DIGITAL :: u8 where "CEC_OP_TUNER_DISPLAY_INFO_DIGITAL \<equiv> 0"
abbreviation (input) CEC_OP_TUNER_DISPLAY_INFO_NONE :: u8 where "CEC_OP_TUNER_DISPLAY_INFO_NONE \<equiv> 1"
abbreviation (input) CEC_OP_TUNER_DISPLAY_INFO_ANALOGUE :: u8 where "CEC_OP_TUNER_DISPLAY_INFO_ANALOGUE \<equiv> 2"
abbreviation (input) CEC_MSG_TUNER_STEP_DECREMENT :: u8 where "CEC_MSG_TUNER_STEP_DECREMENT \<equiv> 0x06"
abbreviation (input) CEC_MSG_TUNER_STEP_INCREMENT :: u8 where "CEC_MSG_TUNER_STEP_INCREMENT \<equiv> 0x05"
subsection \<open>Vendor Specific Commands Feature\<close>

abbreviation (input) CEC_MSG_DEVICE_VENDOR_ID :: u8 where "CEC_MSG_DEVICE_VENDOR_ID \<equiv> 0x87"
abbreviation (input) CEC_MSG_GIVE_DEVICE_VENDOR_ID :: u8 where "CEC_MSG_GIVE_DEVICE_VENDOR_ID \<equiv> 0x8c"
abbreviation (input) CEC_MSG_VENDOR_COMMAND :: u8 where "CEC_MSG_VENDOR_COMMAND \<equiv> 0x89"
abbreviation (input) CEC_MSG_VENDOR_COMMAND_WITH_ID :: u8 where "CEC_MSG_VENDOR_COMMAND_WITH_ID \<equiv> 0xa0"
abbreviation (input) CEC_MSG_VENDOR_REMOTE_BUTTON_DOWN :: u8 where "CEC_MSG_VENDOR_REMOTE_BUTTON_DOWN \<equiv> 0x8a"
abbreviation (input) CEC_MSG_VENDOR_REMOTE_BUTTON_UP :: u8 where "CEC_MSG_VENDOR_REMOTE_BUTTON_UP \<equiv> 0x8b"
subsection \<open>OSD Display Feature\<close>

abbreviation (input) CEC_MSG_SET_OSD_STRING :: u8 where "CEC_MSG_SET_OSD_STRING \<equiv> 0x64"
abbreviation (input) CEC_OP_DISP_CTL_DEFAULT :: u8 where "CEC_OP_DISP_CTL_DEFAULT \<equiv> 0x00"
abbreviation (input) CEC_OP_DISP_CTL_UNTIL_CLEARED :: u8 where "CEC_OP_DISP_CTL_UNTIL_CLEARED \<equiv> 0x40"
abbreviation (input) CEC_OP_DISP_CTL_CLEAR :: u8 where "CEC_OP_DISP_CTL_CLEAR \<equiv> 0x80"
subsection \<open>Device OSD Transfer Feature\<close>

abbreviation (input) CEC_MSG_GIVE_OSD_NAME :: u8 where "CEC_MSG_GIVE_OSD_NAME \<equiv> 0x46"
abbreviation (input) CEC_MSG_SET_OSD_NAME :: u8 where "CEC_MSG_SET_OSD_NAME \<equiv> 0x47"
subsection \<open>Device Menu Control Feature\<close>

abbreviation (input) CEC_MSG_MENU_REQUEST :: u8 where "CEC_MSG_MENU_REQUEST \<equiv> 0x8d"
abbreviation (input) CEC_OP_MENU_REQUEST_ACTIVATE :: u8 where "CEC_OP_MENU_REQUEST_ACTIVATE \<equiv> 0x00"
abbreviation (input) CEC_OP_MENU_REQUEST_DEACTIVATE :: u8 where "CEC_OP_MENU_REQUEST_DEACTIVATE \<equiv> 0x01"
abbreviation (input) CEC_OP_MENU_REQUEST_QUERY :: u8 where "CEC_OP_MENU_REQUEST_QUERY \<equiv> 0x02"
abbreviation (input) CEC_MSG_MENU_STATUS :: u8 where "CEC_MSG_MENU_STATUS \<equiv> 0x8e"
abbreviation (input) CEC_OP_MENU_STATE_ACTIVATED :: u8 where "CEC_OP_MENU_STATE_ACTIVATED \<equiv> 0x00"
abbreviation (input) CEC_OP_MENU_STATE_DEACTIVATED :: u8 where "CEC_OP_MENU_STATE_DEACTIVATED \<equiv> 0x01"
abbreviation (input) CEC_MSG_USER_CONTROL_PRESSED :: u8 where "CEC_MSG_USER_CONTROL_PRESSED \<equiv> 0x44"
abbreviation (input) CEC_OP_UI_BCAST_TYPE_TOGGLE_ALL :: u8 where "CEC_OP_UI_BCAST_TYPE_TOGGLE_ALL \<equiv> 0x00"
abbreviation (input) CEC_OP_UI_BCAST_TYPE_TOGGLE_DIG_ANA :: u8 where "CEC_OP_UI_BCAST_TYPE_TOGGLE_DIG_ANA \<equiv> 0x01"
abbreviation (input) CEC_OP_UI_BCAST_TYPE_ANALOGUE :: u8 where "CEC_OP_UI_BCAST_TYPE_ANALOGUE \<equiv> 0x10"
abbreviation (input) CEC_OP_UI_BCAST_TYPE_ANALOGUE_T :: u8 where "CEC_OP_UI_BCAST_TYPE_ANALOGUE_T \<equiv> 0x20"
abbreviation (input) CEC_OP_UI_BCAST_TYPE_ANALOGUE_CABLE :: u8 where "CEC_OP_UI_BCAST_TYPE_ANALOGUE_CABLE \<equiv> 0x30"
abbreviation (input) CEC_OP_UI_BCAST_TYPE_ANALOGUE_SAT :: u8 where "CEC_OP_UI_BCAST_TYPE_ANALOGUE_SAT \<equiv> 0x40"
abbreviation (input) CEC_OP_UI_BCAST_TYPE_DIGITAL :: u8 where "CEC_OP_UI_BCAST_TYPE_DIGITAL \<equiv> 0x50"
abbreviation (input) CEC_OP_UI_BCAST_TYPE_DIGITAL_T :: u8 where "CEC_OP_UI_BCAST_TYPE_DIGITAL_T \<equiv> 0x60"
abbreviation (input) CEC_OP_UI_BCAST_TYPE_DIGITAL_CABLE :: u8 where "CEC_OP_UI_BCAST_TYPE_DIGITAL_CABLE \<equiv> 0x70"
abbreviation (input) CEC_OP_UI_BCAST_TYPE_DIGITAL_SAT :: u8 where "CEC_OP_UI_BCAST_TYPE_DIGITAL_SAT \<equiv> 0x80"
abbreviation (input) CEC_OP_UI_BCAST_TYPE_DIGITAL_COM_SAT :: u8 where "CEC_OP_UI_BCAST_TYPE_DIGITAL_COM_SAT \<equiv> 0x90"
abbreviation (input) CEC_OP_UI_BCAST_TYPE_DIGITAL_COM_SAT2 :: u8 where "CEC_OP_UI_BCAST_TYPE_DIGITAL_COM_SAT2 \<equiv> 0x91"
abbreviation (input) CEC_OP_UI_BCAST_TYPE_IP :: u8 where "CEC_OP_UI_BCAST_TYPE_IP \<equiv> 0xa0"
abbreviation (input) CEC_OP_UI_SND_PRES_CTL_DUAL_MONO :: u8 where "CEC_OP_UI_SND_PRES_CTL_DUAL_MONO \<equiv> 0x10"
abbreviation (input) CEC_OP_UI_SND_PRES_CTL_KARAOKE :: u8 where "CEC_OP_UI_SND_PRES_CTL_KARAOKE \<equiv> 0x20"
abbreviation (input) CEC_OP_UI_SND_PRES_CTL_DOWNMIX :: u8 where "CEC_OP_UI_SND_PRES_CTL_DOWNMIX \<equiv> 0x80"
abbreviation (input) CEC_OP_UI_SND_PRES_CTL_REVERB :: u8 where "CEC_OP_UI_SND_PRES_CTL_REVERB \<equiv> 0x90"
abbreviation (input) CEC_OP_UI_SND_PRES_CTL_EQUALIZER :: u8 where "CEC_OP_UI_SND_PRES_CTL_EQUALIZER \<equiv> 0xa0"
abbreviation (input) CEC_OP_UI_SND_PRES_CTL_BASS_UP :: u8 where "CEC_OP_UI_SND_PRES_CTL_BASS_UP \<equiv> 0xb1"
abbreviation (input) CEC_OP_UI_SND_PRES_CTL_BASS_NEUTRAL :: u8 where "CEC_OP_UI_SND_PRES_CTL_BASS_NEUTRAL \<equiv> 0xb2"
abbreviation (input) CEC_OP_UI_SND_PRES_CTL_BASS_DOWN :: u8 where "CEC_OP_UI_SND_PRES_CTL_BASS_DOWN \<equiv> 0xb3"
abbreviation (input) CEC_OP_UI_SND_PRES_CTL_TREBLE_UP :: u8 where "CEC_OP_UI_SND_PRES_CTL_TREBLE_UP \<equiv> 0xc1"
abbreviation (input) CEC_OP_UI_SND_PRES_CTL_TREBLE_NEUTRAL :: u8 where "CEC_OP_UI_SND_PRES_CTL_TREBLE_NEUTRAL \<equiv> 0xc2"
abbreviation (input) CEC_OP_UI_SND_PRES_CTL_TREBLE_DOWN :: u8 where "CEC_OP_UI_SND_PRES_CTL_TREBLE_DOWN \<equiv> 0xc3"
abbreviation (input) CEC_MSG_USER_CONTROL_RELEASED :: u8 where "CEC_MSG_USER_CONTROL_RELEASED \<equiv> 0x45"
subsection \<open>Remote Control Passthrough Feature\<close>

subsection \<open>Power Status Feature\<close>

abbreviation (input) CEC_MSG_GIVE_DEVICE_POWER_STATUS :: u8 where "CEC_MSG_GIVE_DEVICE_POWER_STATUS \<equiv> 0x8f"
abbreviation (input) CEC_MSG_REPORT_POWER_STATUS :: u8 where "CEC_MSG_REPORT_POWER_STATUS \<equiv> 0x90"
abbreviation (input) CEC_OP_POWER_STATUS_ON :: u8 where "CEC_OP_POWER_STATUS_ON \<equiv> 0"
abbreviation (input) CEC_OP_POWER_STATUS_STANDBY :: u8 where "CEC_OP_POWER_STATUS_STANDBY \<equiv> 1"
abbreviation (input) CEC_OP_POWER_STATUS_TO_ON :: u8 where "CEC_OP_POWER_STATUS_TO_ON \<equiv> 2"
abbreviation (input) CEC_OP_POWER_STATUS_TO_STANDBY :: u8 where "CEC_OP_POWER_STATUS_TO_STANDBY \<equiv> 3"
subsection \<open>General Protocol Messages\<close>

abbreviation (input) CEC_MSG_FEATURE_ABORT :: u8 where "CEC_MSG_FEATURE_ABORT \<equiv> 0x00"
abbreviation (input) CEC_OP_ABORT_UNRECOGNIZED_OP :: u8 where "CEC_OP_ABORT_UNRECOGNIZED_OP \<equiv> 0"
abbreviation (input) CEC_OP_ABORT_INCORRECT_MODE :: u8 where "CEC_OP_ABORT_INCORRECT_MODE \<equiv> 1"
abbreviation (input) CEC_OP_ABORT_NO_SOURCE :: u8 where "CEC_OP_ABORT_NO_SOURCE \<equiv> 2"
abbreviation (input) CEC_OP_ABORT_INVALID_OP :: u8 where "CEC_OP_ABORT_INVALID_OP \<equiv> 3"
abbreviation (input) CEC_OP_ABORT_REFUSED :: u8 where "CEC_OP_ABORT_REFUSED \<equiv> 4"
abbreviation (input) CEC_OP_ABORT_UNDETERMINED :: u8 where "CEC_OP_ABORT_UNDETERMINED \<equiv> 5"
abbreviation (input) CEC_MSG_ABORT :: u8 where "CEC_MSG_ABORT \<equiv> 0xff"
subsection \<open>System Audio Control Feature\<close>

abbreviation (input) CEC_MSG_GIVE_AUDIO_STATUS :: u8 where "CEC_MSG_GIVE_AUDIO_STATUS \<equiv> 0x71"
abbreviation (input) CEC_MSG_GIVE_SYSTEM_AUDIO_MODE_STATUS :: u8 where "CEC_MSG_GIVE_SYSTEM_AUDIO_MODE_STATUS \<equiv> 0x7d"
abbreviation (input) CEC_MSG_REPORT_AUDIO_STATUS :: u8 where "CEC_MSG_REPORT_AUDIO_STATUS \<equiv> 0x7a"
abbreviation (input) CEC_OP_AUD_MUTE_STATUS_OFF :: u8 where "CEC_OP_AUD_MUTE_STATUS_OFF \<equiv> 0"
abbreviation (input) CEC_OP_AUD_MUTE_STATUS_ON :: u8 where "CEC_OP_AUD_MUTE_STATUS_ON \<equiv> 1"
abbreviation (input) CEC_MSG_REPORT_SHORT_AUDIO_DESCRIPTOR :: u8 where "CEC_MSG_REPORT_SHORT_AUDIO_DESCRIPTOR \<equiv> 0xa3"
abbreviation (input) CEC_MSG_REQUEST_SHORT_AUDIO_DESCRIPTOR :: u8 where "CEC_MSG_REQUEST_SHORT_AUDIO_DESCRIPTOR \<equiv> 0xa4"
abbreviation (input) CEC_MSG_SET_SYSTEM_AUDIO_MODE :: u8 where "CEC_MSG_SET_SYSTEM_AUDIO_MODE \<equiv> 0x72"
abbreviation (input) CEC_OP_SYS_AUD_STATUS_OFF :: u8 where "CEC_OP_SYS_AUD_STATUS_OFF \<equiv> 0"
abbreviation (input) CEC_OP_SYS_AUD_STATUS_ON :: u8 where "CEC_OP_SYS_AUD_STATUS_ON \<equiv> 1"
abbreviation (input) CEC_MSG_SYSTEM_AUDIO_MODE_REQUEST :: u8 where "CEC_MSG_SYSTEM_AUDIO_MODE_REQUEST \<equiv> 0x70"
abbreviation (input) CEC_MSG_SYSTEM_AUDIO_MODE_STATUS :: u8 where "CEC_MSG_SYSTEM_AUDIO_MODE_STATUS \<equiv> 0x7e"
abbreviation (input) CEC_OP_AUD_FMT_ID_CEA861 :: u8 where "CEC_OP_AUD_FMT_ID_CEA861 \<equiv> 0"
abbreviation (input) CEC_OP_AUD_FMT_ID_CEA861_CXT :: u8 where "CEC_OP_AUD_FMT_ID_CEA861_CXT \<equiv> 1"
subsection \<open>Audio Rate Control Feature\<close>

abbreviation (input) CEC_MSG_SET_AUDIO_RATE :: u8 where "CEC_MSG_SET_AUDIO_RATE \<equiv> 0x9a"
abbreviation (input) CEC_OP_AUD_RATE_OFF :: u8 where "CEC_OP_AUD_RATE_OFF \<equiv> 0"
abbreviation (input) CEC_OP_AUD_RATE_WIDE_STD :: u8 where "CEC_OP_AUD_RATE_WIDE_STD \<equiv> 1"
abbreviation (input) CEC_OP_AUD_RATE_WIDE_FAST :: u8 where "CEC_OP_AUD_RATE_WIDE_FAST \<equiv> 2"
abbreviation (input) CEC_OP_AUD_RATE_WIDE_SLOW :: u8 where "CEC_OP_AUD_RATE_WIDE_SLOW \<equiv> 3"
abbreviation (input) CEC_OP_AUD_RATE_NARROW_STD :: u8 where "CEC_OP_AUD_RATE_NARROW_STD \<equiv> 4"
abbreviation (input) CEC_OP_AUD_RATE_NARROW_FAST :: u8 where "CEC_OP_AUD_RATE_NARROW_FAST \<equiv> 5"
abbreviation (input) CEC_OP_AUD_RATE_NARROW_SLOW :: u8 where "CEC_OP_AUD_RATE_NARROW_SLOW \<equiv> 6"
subsection \<open>Audio Return Channel Control Feature\<close>

abbreviation (input) CEC_MSG_INITIATE_ARC :: u8 where "CEC_MSG_INITIATE_ARC \<equiv> 0xc0"
abbreviation (input) CEC_MSG_REPORT_ARC_INITIATED :: u8 where "CEC_MSG_REPORT_ARC_INITIATED \<equiv> 0xc1"
abbreviation (input) CEC_MSG_REPORT_ARC_TERMINATED :: u8 where "CEC_MSG_REPORT_ARC_TERMINATED \<equiv> 0xc2"
abbreviation (input) CEC_MSG_REQUEST_ARC_INITIATION :: u8 where "CEC_MSG_REQUEST_ARC_INITIATION \<equiv> 0xc3"
abbreviation (input) CEC_MSG_REQUEST_ARC_TERMINATION :: u8 where "CEC_MSG_REQUEST_ARC_TERMINATION \<equiv> 0xc4"
abbreviation (input) CEC_MSG_TERMINATE_ARC :: u8 where "CEC_MSG_TERMINATE_ARC \<equiv> 0xc5"
subsection \<open>Dynamic Audio Lipsync Feature\<close>

abbreviation (input) CEC_MSG_REQUEST_CURRENT_LATENCY :: u8 where "CEC_MSG_REQUEST_CURRENT_LATENCY \<equiv> 0xa7"
abbreviation (input) CEC_MSG_REPORT_CURRENT_LATENCY :: u8 where "CEC_MSG_REPORT_CURRENT_LATENCY \<equiv> 0xa8"
abbreviation (input) CEC_OP_LOW_LATENCY_MODE_OFF :: u8 where "CEC_OP_LOW_LATENCY_MODE_OFF \<equiv> 0"
abbreviation (input) CEC_OP_LOW_LATENCY_MODE_ON :: u8 where "CEC_OP_LOW_LATENCY_MODE_ON \<equiv> 1"
abbreviation (input) CEC_OP_AUD_OUT_COMPENSATED_NA :: u8 where "CEC_OP_AUD_OUT_COMPENSATED_NA \<equiv> 0"
abbreviation (input) CEC_OP_AUD_OUT_COMPENSATED_DELAY :: u8 where "CEC_OP_AUD_OUT_COMPENSATED_DELAY \<equiv> 1"
abbreviation (input) CEC_OP_AUD_OUT_COMPENSATED_NO_DELAY :: u8 where "CEC_OP_AUD_OUT_COMPENSATED_NO_DELAY \<equiv> 2"
abbreviation (input) CEC_OP_AUD_OUT_COMPENSATED_PARTIAL_DELAY :: u8 where "CEC_OP_AUD_OUT_COMPENSATED_PARTIAL_DELAY \<equiv> 3"
subsection \<open>Capability Discovery and Control Feature\<close>

abbreviation (input) CEC_MSG_CDC_MESSAGE :: u8 where "CEC_MSG_CDC_MESSAGE \<equiv> 0xf8"
abbreviation (input) CEC_MSG_CDC_HEC_INQUIRE_STATE :: u8 where "CEC_MSG_CDC_HEC_INQUIRE_STATE \<equiv> 0x00"
abbreviation (input) CEC_MSG_CDC_HEC_REPORT_STATE :: u8 where "CEC_MSG_CDC_HEC_REPORT_STATE \<equiv> 0x01"
abbreviation (input) CEC_OP_HEC_FUNC_STATE_NOT_SUPPORTED :: u8 where "CEC_OP_HEC_FUNC_STATE_NOT_SUPPORTED \<equiv> 0"
abbreviation (input) CEC_OP_HEC_FUNC_STATE_INACTIVE :: u8 where "CEC_OP_HEC_FUNC_STATE_INACTIVE \<equiv> 1"
abbreviation (input) CEC_OP_HEC_FUNC_STATE_ACTIVE :: u8 where "CEC_OP_HEC_FUNC_STATE_ACTIVE \<equiv> 2"
abbreviation (input) CEC_OP_HEC_FUNC_STATE_ACTIVATION_FIELD :: u8 where "CEC_OP_HEC_FUNC_STATE_ACTIVATION_FIELD \<equiv> 3"
abbreviation (input) CEC_OP_HOST_FUNC_STATE_NOT_SUPPORTED :: u8 where "CEC_OP_HOST_FUNC_STATE_NOT_SUPPORTED \<equiv> 0"
abbreviation (input) CEC_OP_HOST_FUNC_STATE_INACTIVE :: u8 where "CEC_OP_HOST_FUNC_STATE_INACTIVE \<equiv> 1"
abbreviation (input) CEC_OP_HOST_FUNC_STATE_ACTIVE :: u8 where "CEC_OP_HOST_FUNC_STATE_ACTIVE \<equiv> 2"
abbreviation (input) CEC_OP_ENC_FUNC_STATE_EXT_CON_NOT_SUPPORTED :: u8 where "CEC_OP_ENC_FUNC_STATE_EXT_CON_NOT_SUPPORTED \<equiv> 0"
abbreviation (input) CEC_OP_ENC_FUNC_STATE_EXT_CON_INACTIVE :: u8 where "CEC_OP_ENC_FUNC_STATE_EXT_CON_INACTIVE \<equiv> 1"
abbreviation (input) CEC_OP_ENC_FUNC_STATE_EXT_CON_ACTIVE :: u8 where "CEC_OP_ENC_FUNC_STATE_EXT_CON_ACTIVE \<equiv> 2"
abbreviation (input) CEC_OP_CDC_ERROR_CODE_NONE :: u8 where "CEC_OP_CDC_ERROR_CODE_NONE \<equiv> 0"
abbreviation (input) CEC_OP_CDC_ERROR_CODE_CAP_UNSUPPORTED :: u8 where "CEC_OP_CDC_ERROR_CODE_CAP_UNSUPPORTED \<equiv> 1"
abbreviation (input) CEC_OP_CDC_ERROR_CODE_WRONG_STATE :: u8 where "CEC_OP_CDC_ERROR_CODE_WRONG_STATE \<equiv> 2"
abbreviation (input) CEC_OP_CDC_ERROR_CODE_OTHER :: u8 where "CEC_OP_CDC_ERROR_CODE_OTHER \<equiv> 3"
abbreviation (input) CEC_OP_HEC_SUPPORT_NO :: u8 where "CEC_OP_HEC_SUPPORT_NO \<equiv> 0"
abbreviation (input) CEC_OP_HEC_SUPPORT_YES :: u8 where "CEC_OP_HEC_SUPPORT_YES \<equiv> 1"
abbreviation (input) CEC_OP_HEC_ACTIVATION_ON :: u8 where "CEC_OP_HEC_ACTIVATION_ON \<equiv> 0"
abbreviation (input) CEC_OP_HEC_ACTIVATION_OFF :: u8 where "CEC_OP_HEC_ACTIVATION_OFF \<equiv> 1"
abbreviation (input) CEC_MSG_CDC_HEC_SET_STATE_ADJACENT :: u8 where "CEC_MSG_CDC_HEC_SET_STATE_ADJACENT \<equiv> 0x02"
abbreviation (input) CEC_MSG_CDC_HEC_SET_STATE :: u8 where "CEC_MSG_CDC_HEC_SET_STATE \<equiv> 0x03"
abbreviation (input) CEC_OP_HEC_SET_STATE_DEACTIVATE :: u8 where "CEC_OP_HEC_SET_STATE_DEACTIVATE \<equiv> 0"
abbreviation (input) CEC_OP_HEC_SET_STATE_ACTIVATE :: u8 where "CEC_OP_HEC_SET_STATE_ACTIVATE \<equiv> 1"
abbreviation (input) CEC_MSG_CDC_HEC_REQUEST_DEACTIVATION :: u8 where "CEC_MSG_CDC_HEC_REQUEST_DEACTIVATION \<equiv> 0x04"
abbreviation (input) CEC_MSG_CDC_HEC_NOTIFY_ALIVE :: u8 where "CEC_MSG_CDC_HEC_NOTIFY_ALIVE \<equiv> 0x05"
abbreviation (input) CEC_MSG_CDC_HEC_DISCOVER :: u8 where "CEC_MSG_CDC_HEC_DISCOVER \<equiv> 0x06"
abbreviation (input) CEC_MSG_CDC_HPD_SET_STATE :: u8 where "CEC_MSG_CDC_HPD_SET_STATE \<equiv> 0x10"
abbreviation (input) CEC_OP_HPD_STATE_CP_EDID_DISABLE :: u8 where "CEC_OP_HPD_STATE_CP_EDID_DISABLE \<equiv> 0"
abbreviation (input) CEC_OP_HPD_STATE_CP_EDID_ENABLE :: u8 where "CEC_OP_HPD_STATE_CP_EDID_ENABLE \<equiv> 1"
abbreviation (input) CEC_OP_HPD_STATE_CP_EDID_DISABLE_ENABLE :: u8 where "CEC_OP_HPD_STATE_CP_EDID_DISABLE_ENABLE \<equiv> 2"
abbreviation (input) CEC_OP_HPD_STATE_EDID_DISABLE :: u8 where "CEC_OP_HPD_STATE_EDID_DISABLE \<equiv> 3"
abbreviation (input) CEC_OP_HPD_STATE_EDID_ENABLE :: u8 where "CEC_OP_HPD_STATE_EDID_ENABLE \<equiv> 4"
abbreviation (input) CEC_OP_HPD_STATE_EDID_DISABLE_ENABLE :: u8 where "CEC_OP_HPD_STATE_EDID_DISABLE_ENABLE \<equiv> 5"
abbreviation (input) CEC_MSG_CDC_HPD_REPORT_STATE :: u8 where "CEC_MSG_CDC_HPD_REPORT_STATE \<equiv> 0x11"
abbreviation (input) CEC_OP_HPD_ERROR_NONE :: u8 where "CEC_OP_HPD_ERROR_NONE \<equiv> 0"
abbreviation (input) CEC_OP_HPD_ERROR_INITIATOR_NOT_CAPABLE :: u8 where "CEC_OP_HPD_ERROR_INITIATOR_NOT_CAPABLE \<equiv> 1"
abbreviation (input) CEC_OP_HPD_ERROR_INITIATOR_WRONG_STATE :: u8 where "CEC_OP_HPD_ERROR_INITIATOR_WRONG_STATE \<equiv> 2"
abbreviation (input) CEC_OP_HPD_ERROR_OTHER :: u8 where "CEC_OP_HPD_ERROR_OTHER \<equiv> 3"
abbreviation (input) CEC_OP_HPD_ERROR_NONE_NO_VIDEO :: u8 where "CEC_OP_HPD_ERROR_NONE_NO_VIDEO \<equiv> 4"

section \<open>The tables\<close>

definition cec_opcodes :: "u8 list" where
  "cec_opcodes = [
    CEC_MSG_ACTIVE_SOURCE, CEC_MSG_IMAGE_VIEW_ON, CEC_MSG_TEXT_VIEW_ON,
    CEC_MSG_INACTIVE_SOURCE, CEC_MSG_REQUEST_ACTIVE_SOURCE, CEC_MSG_ROUTING_CHANGE,
    CEC_MSG_ROUTING_INFORMATION, CEC_MSG_SET_STREAM_PATH, CEC_MSG_STANDBY,
    CEC_MSG_RECORD_OFF, CEC_MSG_RECORD_ON, CEC_MSG_RECORD_STATUS, CEC_MSG_RECORD_TV_SCREEN,
    CEC_MSG_CLEAR_ANALOGUE_TIMER, CEC_MSG_CLEAR_DIGITAL_TIMER, CEC_MSG_CLEAR_EXT_TIMER,
    CEC_MSG_SET_ANALOGUE_TIMER, CEC_MSG_SET_DIGITAL_TIMER, CEC_MSG_SET_EXT_TIMER,
    CEC_MSG_SET_TIMER_PROGRAM_TITLE, CEC_MSG_TIMER_CLEARED_STATUS, CEC_MSG_TIMER_STATUS,
    CEC_MSG_CEC_VERSION, CEC_MSG_GET_CEC_VERSION, CEC_MSG_GIVE_PHYSICAL_ADDR,
    CEC_MSG_GET_MENU_LANGUAGE, CEC_MSG_REPORT_PHYSICAL_ADDR, CEC_MSG_SET_MENU_LANGUAGE,
    CEC_MSG_REPORT_FEATURES, CEC_MSG_GIVE_FEATURES, CEC_MSG_DECK_CONTROL,
    CEC_MSG_DECK_STATUS, CEC_MSG_GIVE_DECK_STATUS, CEC_MSG_PLAY,
    CEC_MSG_GIVE_TUNER_DEVICE_STATUS, CEC_MSG_SELECT_ANALOGUE_SERVICE,
    CEC_MSG_SELECT_DIGITAL_SERVICE, CEC_MSG_TUNER_DEVICE_STATUS,
    CEC_MSG_TUNER_STEP_DECREMENT, CEC_MSG_TUNER_STEP_INCREMENT, CEC_MSG_DEVICE_VENDOR_ID,
    CEC_MSG_GIVE_DEVICE_VENDOR_ID, CEC_MSG_VENDOR_COMMAND, CEC_MSG_VENDOR_COMMAND_WITH_ID,
    CEC_MSG_VENDOR_REMOTE_BUTTON_DOWN, CEC_MSG_VENDOR_REMOTE_BUTTON_UP,
    CEC_MSG_SET_OSD_STRING, CEC_MSG_GIVE_OSD_NAME, CEC_MSG_SET_OSD_NAME,
    CEC_MSG_MENU_REQUEST, CEC_MSG_MENU_STATUS, CEC_MSG_USER_CONTROL_PRESSED,
    CEC_MSG_USER_CONTROL_RELEASED, CEC_MSG_GIVE_DEVICE_POWER_STATUS,
    CEC_MSG_REPORT_POWER_STATUS, CEC_MSG_FEATURE_ABORT, CEC_MSG_ABORT,
    CEC_MSG_GIVE_AUDIO_STATUS, CEC_MSG_GIVE_SYSTEM_AUDIO_MODE_STATUS,
    CEC_MSG_REPORT_AUDIO_STATUS, CEC_MSG_REPORT_SHORT_AUDIO_DESCRIPTOR,
    CEC_MSG_REQUEST_SHORT_AUDIO_DESCRIPTOR, CEC_MSG_SET_SYSTEM_AUDIO_MODE,
    CEC_MSG_SYSTEM_AUDIO_MODE_REQUEST, CEC_MSG_SYSTEM_AUDIO_MODE_STATUS,
    CEC_MSG_SET_AUDIO_RATE, CEC_MSG_INITIATE_ARC, CEC_MSG_REPORT_ARC_INITIATED,
    CEC_MSG_REPORT_ARC_TERMINATED, CEC_MSG_REQUEST_ARC_INITIATION,
    CEC_MSG_REQUEST_ARC_TERMINATION, CEC_MSG_TERMINATE_ARC,
    CEC_MSG_REQUEST_CURRENT_LATENCY, CEC_MSG_REPORT_CURRENT_LATENCY, CEC_MSG_CDC_MESSAGE]"

definition cec_cdc_opcodes :: "u8 list" where
  "cec_cdc_opcodes = [
    CEC_MSG_CDC_HEC_INQUIRE_STATE, CEC_MSG_CDC_HEC_REPORT_STATE,
    CEC_MSG_CDC_HEC_SET_STATE_ADJACENT, CEC_MSG_CDC_HEC_SET_STATE,
    CEC_MSG_CDC_HEC_REQUEST_DEACTIVATION, CEC_MSG_CDC_HEC_NOTIFY_ALIVE,
    CEC_MSG_CDC_HEC_DISCOVER, CEC_MSG_CDC_HPD_SET_STATE, CEC_MSG_CDC_HPD_REPORT_STATE]"

definition rec_src_type_operands :: "u8 list" where
  "rec_src_type_operands = [
    CEC_OP_RECORD_SRC_OWN, CEC_OP_RECORD_SRC_DIGITAL, CEC_OP_RECORD_SRC_ANALOG,
    CEC_OP_RECORD_SRC_EXT_PLUG, CEC_OP_RECORD_SRC_EXT_PHYS_ADDR]"

definition service_id_method_operands :: "u8 list" where
  "service_id_method_operands = [
    CEC_OP_SERVICE_ID_METHOD_BY_DIG_ID, CEC_OP_SERVICE_ID_METHOD_BY_CHANNEL]"

definition dig_bcast_system_operands :: "u8 list" where
  "dig_bcast_system_operands = [
    CEC_OP_DIG_SERVICE_BCAST_SYSTEM_ARIB_GEN, CEC_OP_DIG_SERVICE_BCAST_SYSTEM_ATSC_GEN,
    CEC_OP_DIG_SERVICE_BCAST_SYSTEM_DVB_GEN, CEC_OP_DIG_SERVICE_BCAST_SYSTEM_ARIB_BS,
    CEC_OP_DIG_SERVICE_BCAST_SYSTEM_ARIB_CS, CEC_OP_DIG_SERVICE_BCAST_SYSTEM_ARIB_T,
    CEC_OP_DIG_SERVICE_BCAST_SYSTEM_ATSC_CABLE, CEC_OP_DIG_SERVICE_BCAST_SYSTEM_ATSC_SAT,
    CEC_OP_DIG_SERVICE_BCAST_SYSTEM_ATSC_T, CEC_OP_DIG_SERVICE_BCAST_SYSTEM_DVB_C,
    CEC_OP_DIG_SERVICE_BCAST_SYSTEM_DVB_S, CEC_OP_DIG_SERVICE_BCAST_SYSTEM_DVB_S2,
    CEC_OP_DIG_SERVICE_BCAST_SYSTEM_DVB_T]"

definition ana_bcast_type_operands :: "u8 list" where
  "ana_bcast_type_operands = [
    CEC_OP_ANA_BCAST_TYPE_CABLE, CEC_OP_ANA_BCAST_TYPE_SATELLITE,
    CEC_OP_ANA_BCAST_TYPE_TERRESTRIAL]"

definition bcast_system_operands :: "u8 list" where
  "bcast_system_operands = [
    CEC_OP_BCAST_SYSTEM_PAL_BG, CEC_OP_BCAST_SYSTEM_SECAM_LQ, CEC_OP_BCAST_SYSTEM_PAL_M,
    CEC_OP_BCAST_SYSTEM_NTSC_M, CEC_OP_BCAST_SYSTEM_PAL_I, CEC_OP_BCAST_SYSTEM_SECAM_DK,
    CEC_OP_BCAST_SYSTEM_SECAM_BG, CEC_OP_BCAST_SYSTEM_SECAM_L, CEC_OP_BCAST_SYSTEM_PAL_DK,
    CEC_OP_BCAST_SYSTEM_OTHER]"

definition channel_number_fmt_operands :: "u8 list" where
  "channel_number_fmt_operands = [
    CEC_OP_CHANNEL_NUMBER_FMT_1_PART, CEC_OP_CHANNEL_NUMBER_FMT_2_PART]"

definition rec_status_operands :: "u8 list" where
  "rec_status_operands = [
    CEC_OP_RECORD_STATUS_CUR_SRC, CEC_OP_RECORD_STATUS_DIG_SERVICE,
    CEC_OP_RECORD_STATUS_ANA_SERVICE, CEC_OP_RECORD_STATUS_EXT_INPUT,
    CEC_OP_RECORD_STATUS_NO_DIG_SERVICE, CEC_OP_RECORD_STATUS_NO_ANA_SERVICE,
    CEC_OP_RECORD_STATUS_NO_SERVICE, CEC_OP_RECORD_STATUS_INVALID_EXT_PLUG,
    CEC_OP_RECORD_STATUS_INVALID_EXT_PHYS_ADDR, CEC_OP_RECORD_STATUS_UNSUP_CA,
    CEC_OP_RECORD_STATUS_NO_CA_ENTITLEMENTS, CEC_OP_RECORD_STATUS_CANT_COPY_SRC,
    CEC_OP_RECORD_STATUS_NO_MORE_COPIES, CEC_OP_RECORD_STATUS_NO_MEDIA,
    CEC_OP_RECORD_STATUS_PLAYING, CEC_OP_RECORD_STATUS_ALREADY_RECORDING,
    CEC_OP_RECORD_STATUS_MEDIA_PROT, CEC_OP_RECORD_STATUS_NO_SIGNAL,
    CEC_OP_RECORD_STATUS_MEDIA_PROBLEM, CEC_OP_RECORD_STATUS_NO_SPACE,
    CEC_OP_RECORD_STATUS_PARENTAL_LOCK, CEC_OP_RECORD_STATUS_TERMINATED_OK,
    CEC_OP_RECORD_STATUS_ALREADY_TERM, CEC_OP_RECORD_STATUS_OTHER]"

definition recording_seq_operands :: "u8 list" where
  "recording_seq_operands = [
    CEC_OP_REC_SEQ_SUNDAY, CEC_OP_REC_SEQ_MONDAY, CEC_OP_REC_SEQ_TUESDAY,
    CEC_OP_REC_SEQ_WEDNESDAY, CEC_OP_REC_SEQ_THURSDAY, CEC_OP_REC_SEQ_FRIDAY,
    CEC_OP_REC_SEQ_SATERDAY, CEC_OP_REC_SEQ_ONCE_ONLY]"

definition ext_src_spec_operands :: "u8 list" where
  "ext_src_spec_operands = [
    CEC_OP_EXT_SRC_PLUG, CEC_OP_EXT_SRC_PHYS_ADDR]"

definition timer_cleared_status_operands :: "u8 list" where
  "timer_cleared_status_operands = [
    CEC_OP_TIMER_CLR_STAT_RECORDING, CEC_OP_TIMER_CLR_STAT_NO_MATCHING,
    CEC_OP_TIMER_CLR_STAT_NO_INFO, CEC_OP_TIMER_CLR_STAT_CLEARED]"

definition timer_overlap_warning_operands :: "u8 list" where
  "timer_overlap_warning_operands = [
    CEC_OP_TIMER_OVERLAP_WARNING_NO_OVERLAP, CEC_OP_TIMER_OVERLAP_WARNING_OVERLAP]"

definition media_info_operands :: "u8 list" where
  "media_info_operands = [
    CEC_OP_MEDIA_INFO_UNPROT_MEDIA, CEC_OP_MEDIA_INFO_PROT_MEDIA, CEC_OP_MEDIA_INFO_NO_MEDIA]"

definition prog_indicator_operands :: "u8 list" where
  "prog_indicator_operands = [
    CEC_OP_PROG_IND_NOT_PROGRAMMED, CEC_OP_PROG_IND_PROGRAMMED]"

definition prog_info_operands :: "u8 list" where
  "prog_info_operands = [
    CEC_OP_PROG_INFO_ENOUGH_SPACE, CEC_OP_PROG_INFO_NOT_ENOUGH_SPACE,
    CEC_OP_PROG_INFO_MIGHT_NOT_BE_ENOUGH_SPACE, CEC_OP_PROG_INFO_NONE_AVAILABLE]"

definition prog_error_operands :: "u8 list" where
  "prog_error_operands = [
    CEC_OP_PROG_ERROR_NO_FREE_TIMER, CEC_OP_PROG_ERROR_DATE_OUT_OF_RANGE,
    CEC_OP_PROG_ERROR_REC_SEQ_ERROR, CEC_OP_PROG_ERROR_INV_EXT_PLUG,
    CEC_OP_PROG_ERROR_INV_EXT_PHYS_ADDR, CEC_OP_PROG_ERROR_CA_UNSUPP,
    CEC_OP_PROG_ERROR_INSUF_CA_ENTITLEMENTS, CEC_OP_PROG_ERROR_RESOLUTION_UNSUPP,
    CEC_OP_PROG_ERROR_PARENTAL_LOCK, CEC_OP_PROG_ERROR_CLOCK_FAILURE,
    CEC_OP_PROG_ERROR_DUPLICATE]"

definition cec_version_operands :: "u8 list" where
  "cec_version_operands = [
    CEC_OP_CEC_VERSION_1_3A, CEC_OP_CEC_VERSION_1_4, CEC_OP_CEC_VERSION_2_0]"

definition prim_devtype_operands :: "u8 list" where
  "prim_devtype_operands = [
    CEC_OP_PRIM_DEVTYPE_TV, CEC_OP_PRIM_DEVTYPE_RECORD, CEC_OP_PRIM_DEVTYPE_TUNER,
    CEC_OP_PRIM_DEVTYPE_PLAYBACK, CEC_OP_PRIM_DEVTYPE_AUDIOSYSTEM,
    CEC_OP_PRIM_DEVTYPE_SWITCH, CEC_OP_PRIM_DEVTYPE_PROCESSOR]"

definition all_device_types_operands :: "u8 list" where
  "all_device_types_operands = [
    CEC_OP_ALL_DEVTYPE_TV, CEC_OP_ALL_DEVTYPE_RECORD, CEC_OP_ALL_DEVTYPE_TUNER,
    CEC_OP_ALL_DEVTYPE_PLAYBACK, CEC_OP_ALL_DEVTYPE_AUDIOSYSTEM, CEC_OP_ALL_DEVTYPE_SWITCH]"

definition rc_profile_operands :: "u8 list" where
  "rc_profile_operands = [
    CEC_OP_FEAT_RC_TV_PROFILE_NONE, CEC_OP_FEAT_RC_TV_PROFILE_1,
    CEC_OP_FEAT_RC_TV_PROFILE_2, CEC_OP_FEAT_RC_TV_PROFILE_3, CEC_OP_FEAT_RC_TV_PROFILE_4,
    CEC_OP_FEAT_RC_SRC_HAS_DEV_ROOT_MENU, CEC_OP_FEAT_RC_SRC_HAS_DEV_SETUP_MENU,
    CEC_OP_FEAT_RC_SRC_HAS_CONTENTS_MENU, CEC_OP_FEAT_RC_SRC_HAS_MEDIA_TOP_MENU,
    CEC_OP_FEAT_RC_SRC_HAS_MEDIA_CONTEXT_MENU]"

definition dev_features_operands :: "u8 list" where
  "dev_features_operands = [
    CEC_OP_FEAT_DEV_HAS_RECORD_TV_SCREEN, CEC_OP_FEAT_DEV_HAS_SET_OSD_STRING,
    CEC_OP_FEAT_DEV_HAS_DECK_CONTROL, CEC_OP_FEAT_DEV_HAS_SET_AUDIO_RATE,
    CEC_OP_FEAT_DEV_SINK_HAS_ARC_TX, CEC_OP_FEAT_DEV_SOURCE_HAS_ARC_RX]"

definition deck_control_mode_operands :: "u8 list" where
  "deck_control_mode_operands = [
    CEC_OP_DECK_CTL_MODE_SKIP_FWD, CEC_OP_DECK_CTL_MODE_SKIP_REV,
    CEC_OP_DECK_CTL_MODE_STOP, CEC_OP_DECK_CTL_MODE_EJECT]"

definition deck_info_operands :: "u8 list" where
  "deck_info_operands = [
    CEC_OP_DECK_INFO_PLAY, CEC_OP_DECK_INFO_RECORD, CEC_OP_DECK_INFO_PLAY_REV,
    CEC_OP_DECK_INFO_STILL, CEC_OP_DECK_INFO_SLOW, CEC_OP_DECK_INFO_SLOW_REV,
    CEC_OP_DECK_INFO_FAST_FWD, CEC_OP_DECK_INFO_FAST_REV, CEC_OP_DECK_INFO_NO_MEDIA,
    CEC_OP_DECK_INFO_STOP, CEC_OP_DECK_INFO_SKIP_FWD, CEC_OP_DECK_INFO_SKIP_REV,
    CEC_OP_DECK_INFO_INDEX_SEARCH_FWD, CEC_OP_DECK_INFO_INDEX_SEARCH_REV,
    CEC_OP_DECK_INFO_OTHER]"

definition status_req_operands :: "u8 list" where
  "status_req_operands = [
    CEC_OP_STATUS_REQ_ON, CEC_OP_STATUS_REQ_OFF, CEC_OP_STATUS_REQ_ONCE]"

definition play_mode_operands :: "u8 list" where
  "play_mode_operands = [
    CEC_OP_PLAY_MODE_PLAY_FWD, CEC_OP_PLAY_MODE_PLAY_REV, CEC_OP_PLAY_MODE_PLAY_STILL,
    CEC_OP_PLAY_MODE_PLAY_FAST_FWD_MIN, CEC_OP_PLAY_MODE_PLAY_FAST_FWD_MED,
    CEC_OP_PLAY_MODE_PLAY_FAST_FWD_MAX, CEC_OP_PLAY_MODE_PLAY_FAST_REV_MIN,
    CEC_OP_PLAY_MODE_PLAY_FAST_REV_MED, CEC_OP_PLAY_MODE_PLAY_FAST_REV_MAX,
    CEC_OP_PLAY_MODE_PLAY_SLOW_FWD_MIN, CEC_OP_PLAY_MODE_PLAY_SLOW_FWD_MED,
    CEC_OP_PLAY_MODE_PLAY_SLOW_FWD_MAX, CEC_OP_PLAY_MODE_PLAY_SLOW_REV_MIN,
    CEC_OP_PLAY_MODE_PLAY_SLOW_REV_MED, CEC_OP_PLAY_MODE_PLAY_SLOW_REV_MAX]"

definition rec_flag_operands :: "u8 list" where
  "rec_flag_operands = [
    CEC_OP_REC_FLAG_USED, CEC_OP_REC_FLAG_NOT_USED]"

definition tuner_display_info_operands :: "u8 list" where
  "tuner_display_info_operands = [
    CEC_OP_TUNER_DISPLAY_INFO_DIGITAL, CEC_OP_TUNER_DISPLAY_INFO_NONE,
    CEC_OP_TUNER_DISPLAY_INFO_ANALOGUE]"

definition disp_ctl_operands :: "u8 list" where
  "disp_ctl_operands = [
    CEC_OP_DISP_CTL_DEFAULT, CEC_OP_DISP_CTL_UNTIL_CLEARED, CEC_OP_DISP_CTL_CLEAR]"

definition menu_req_operands :: "u8 list" where
  "menu_req_operands = [
    CEC_OP_MENU_REQUEST_ACTIVATE, CEC_OP_MENU_REQUEST_DEACTIVATE, CEC_OP_MENU_REQUEST_QUERY]"

definition menu_state_operands :: "u8 list" where
  "menu_state_operands = [
    CEC_OP_MENU_STATE_ACTIVATED, CEC_OP_MENU_STATE_DEACTIVATED]"

definition ui_bcast_type_operands :: "u8 list" where
  "ui_bcast_type_operands = [
    CEC_OP_UI_BCAST_TYPE_TOGGLE_ALL, CEC_OP_UI_BCAST_TYPE_TOGGLE_DIG_ANA,
    CEC_OP_UI_BCAST_TYPE_ANALOGUE, CEC_OP_UI_BCAST_TYPE_ANALOGUE_T,
    CEC_OP_UI_BCAST_TYPE_ANALOGUE_CABLE, CEC_OP_UI_BCAST_TYPE_ANALOGUE_SAT,
    CEC_OP_UI_BCAST_TYPE_DIGITAL, CEC_OP_UI_BCAST_TYPE_DIGITAL_T,
    CEC_OP_UI_BCAST_TYPE_DIGITAL_CABLE, CEC_OP_UI_BCAST_TYPE_DIGITAL_SAT,
    CEC_OP_UI_BCAST_TYPE_DIGITAL_COM_SAT, CEC_OP_UI_BCAST_TYPE_DIGITAL_COM_SAT2,
    CEC_OP_UI_BCAST_TYPE_IP]"

definition ui_snd_pres_ctl_operands :: "u8 list" where
  "ui_snd_pres_ctl_operands = [
    CEC_OP_UI_SND_PRES_CTL_DUAL_MONO, CEC_OP_UI_SND_PRES_CTL_KARAOKE,
    CEC_OP_UI_SND_PRES_CTL_DOWNMIX, CEC_OP_UI_SND_PRES_CTL_REVERB,
    CEC_OP_UI_SND_PRES_CTL_EQUALIZER, CEC_OP_UI_SND_PRES_CTL_BASS_UP,
    CEC_OP_UI_SND_PRES_CTL_BASS_NEUTRAL, CEC_OP_UI_SND_PRES_CTL_BASS_DOWN,
    CEC_OP_UI_SND_PRES_CTL_TREBLE_UP, CEC_OP_UI_SND_PRES_CTL_TREBLE_NEUTRAL,
    CEC_OP_UI_SND_PRES_CTL_TREBLE_DOWN]"

definition pwr_state_operands :: "u8 list" where
  "pwr_state_operands = [
    CEC_OP_POWER_STATUS_ON, CEC_OP_POWER_STATUS_STANDBY, CEC_OP_POWER_STATUS_TO_ON,
    CEC_OP_POWER_STATUS_TO_STANDBY]"

definition reason_operands :: "u8 list" where
  "reason_operands = [
    CEC_OP_ABORT_UNRECOGNIZED_OP, CEC_OP_ABORT_INCORRECT_MODE, CEC_OP_ABORT_NO_SOURCE,
    CEC_OP_ABORT_INVALID_OP, CEC_OP_ABORT_REFUSED, CEC_OP_ABORT_UNDETERMINED]"

definition aud_mute_status_operands :: "u8 list" where
  "aud_mute_status_operands = [
    CEC_OP_AUD_MUTE_STATUS_OFF, CEC_OP_AUD_MUTE_STATUS_ON]"

definition sys_aud_status_operands :: "u8 list" where
  "sys_aud_status_operands = [
    CEC_OP_SYS_AUD_STATUS_OFF, CEC_OP_SYS_AUD_STATUS_ON]"

definition audio_format_id_operands :: "u8 list" where
  "audio_format_id_operands = [
    CEC_OP_AUD_FMT_ID_CEA861, CEC_OP_AUD_FMT_ID_CEA861_CXT]"

definition audio_rate_operands :: "u8 list" where
  "audio_rate_operands = [
    CEC_OP_AUD_RATE_OFF, CEC_OP_AUD_RATE_WIDE_STD, CEC_OP_AUD_RATE_WIDE_FAST,
    CEC_OP_AUD_RATE_WIDE_SLOW, CEC_OP_AUD_RATE_NARROW_STD, CEC_OP_AUD_RATE_NARROW_FAST,
    CEC_OP_AUD_RATE_NARROW_SLOW]"

definition low_latency_mode_operands :: "u8 list" where
  "low_latency_mode_operands = [
    CEC_OP_LOW_LATENCY_MODE_OFF, CEC_OP_LOW_LATENCY_MODE_ON]"

definition audio_out_compensated_operands :: "u8 list" where
  "audio_out_compensated_operands = [
    CEC_OP_AUD_OUT_COMPENSATED_NA, CEC_OP_AUD_OUT_COMPENSATED_DELAY,
    CEC_OP_AUD_OUT_COMPENSATED_NO_DELAY, CEC_OP_AUD_OUT_COMPENSATED_PARTIAL_DELAY]"

definition hec_func_state_operands :: "u8 list" where
  "hec_func_state_operands = [
    CEC_OP_HEC_FUNC_STATE_NOT_SUPPORTED, CEC_OP_HEC_FUNC_STATE_INACTIVE,
    CEC_OP_HEC_FUNC_STATE_ACTIVE, CEC_OP_HEC_FUNC_STATE_ACTIVATION_FIELD]"

definition host_func_state_operands :: "u8 list" where
  "host_func_state_operands = [
    CEC_OP_HOST_FUNC_STATE_NOT_SUPPORTED, CEC_OP_HOST_FUNC_STATE_INACTIVE,
    CEC_OP_HOST_FUNC_STATE_ACTIVE]"

definition enc_func_state_operands :: "u8 list" where
  "enc_func_state_operands = [
    CEC_OP_ENC_FUNC_STATE_EXT_CON_NOT_SUPPORTED, CEC_OP_ENC_FUNC_STATE_EXT_CON_INACTIVE,
    CEC_OP_ENC_FUNC_STATE_EXT_CON_ACTIVE]"

definition cdc_errcode_operands :: "u8 list" where
  "cdc_errcode_operands = [
    CEC_OP_CDC_ERROR_CODE_NONE, CEC_OP_CDC_ERROR_CODE_CAP_UNSUPPORTED,
    CEC_OP_CDC_ERROR_CODE_WRONG_STATE, CEC_OP_CDC_ERROR_CODE_OTHER]"

definition hec_support_operands :: "u8 list" where
  "hec_support_operands = [
    CEC_OP_HEC_SUPPORT_NO, CEC_OP_HEC_SUPPORT_YES]"

definition hec_activation_operands :: "u8 list" where
  "hec_activation_operands = [
    CEC_OP_HEC_ACTIVATION_ON, CEC_OP_HEC_ACTIVATION_OFF]"

definition hec_set_state_operands :: "u8 list" where
  "hec_set_state_operands = [
    CEC_OP_HEC_SET_STATE_DEACTIVATE, CEC_OP_HEC_SET_STATE_ACTIVATE]"

definition hpd_state_operands :: "u8 list" where
  "hpd_state_operands = [
    CEC_OP_HPD_STATE_CP_EDID_DISABLE, CEC_OP_HPD_STATE_CP_EDID_ENABLE,
    CEC_OP_HPD_STATE_CP_EDID_DISABLE_ENABLE, CEC_OP_HPD_STATE_EDID_DISABLE,
    CEC_OP_HPD_STATE_EDID_ENABLE, CEC_OP_HPD_STATE_EDID_DISABLE_ENABLE]"

definition hpd_error_operands :: "u8 list" where
  "hpd_error_operands = [
    CEC_OP_HPD_ERROR_NONE, CEC_OP_HPD_ERROR_INITIATOR_NOT_CAPABLE,
    CEC_OP_HPD_ERROR_INITIATOR_WRONG_STATE, CEC_OP_HPD_ERROR_OTHER,
    CEC_OP_HPD_ERROR_NONE_NO_VIDEO]"

lemmas operand_tables =
  rec_src_type_operands_def
  service_id_method_operands_def
  dig_bcast_system_operands_def
  ana_bcast_type_operands_def
  bcast_system_operands_def
  channel_number_fmt_operands_def
  rec_status_operands_def
  recording_seq_operands_def
  ext_src_spec_operands_def
  timer_cleared_status_operands_def
  timer_overlap_warning_operands_def
  media_info_operands_def
  prog_indicator_operands_def
  prog_info_operands_def
  prog_error_operands_def
  cec_version_operands_def
  prim_devtype_operands_def
  all_device_types_operands_def
  rc_profile_operands_def
  dev_features_operands_def
  deck_control_mode_operands_def
  deck_info_operands_def
  status_req_operands_def
  play_mode_operands_def
  rec_flag_operands_def
  tuner_display_info_operands_def
  disp_ctl_operands_def
  menu_req_operands_def
  menu_state_operands_def
  ui_bcast_type_operands_def
  ui_snd_pres_ctl_operands_def
  pwr_state_operands_def
  reason_operands_def
  aud_mute_status_operands_def
  sys_aud_status_operands_def
  audio_format_id_operands_def
  audio_rate_operands_def
  low_latency_mode_operands_def
  audio_out_compensated_operands_def
  hec_func_state_operands_def
  host_func_state_operands_def
  enc_func_state_operands_def
  cdc_errcode_operands_def
  hec_support_operands_def
  hec_activation_operands_def
  hec_set_state_operands_def
  hpd_state_operands_def
  hpd_error_operands_def

section \<open>Distinct codes\<close>

lemma cec_opcodes_distinct: "distinct cec_opcodes"
  by (simp add: cec_opcodes_def)

lemma cec_cdc_opcodes_distinct: "distinct cec_cdc_opcodes"
  by (simp add: cec_cdc_opcodes_def)

section \<open>Further theorems\<close>

text \<open>
  No two CEC messages of the header share an opcode, and no two CDC messages share a CDC opcode,
  so an opcode determines the message.
\<close>

theorem opcodes_distinct: "distinct cec_opcodes \<and> distinct cec_cdc_opcodes"
  by (simp add: cec_opcodes_distinct cec_cdc_opcodes_distinct)

end
