(* ===== verification/Cec_Routing.thy ===== *)
theory Cec_Routing
  imports Cec_Message Cec_Opcodes
begin

text \<open>
  The One Touch Play, Routing Control and Standby features of \<^verbatim>\<open>linux/cec-funcs.h\<close>:
  each \<open>cec_msg_*\<close> builder and \<open>cec_ops_*\<close> parser as written, and the interpretations of
  \<open>cec_builder\<close> and \<open>cec_codec\<close> that discharge their contracts.
\<close>

section \<open>One Touch Play\<close>

definition cec_msg_active_source :: "u16 \<Rightarrow> cec_stmt" where
  "cec_msg_active_source phys_addr = exec [
     set_len 4,
     or_broadcast,
     wr 1 CEC_MSG_ACTIVE_SOURCE,
     wr 2 (hi8 phys_addr),
     wr 3 (lo8 phys_addr)]"

definition cec_ops_active_source :: "cec_msg \<Rightarrow> (u16) option" where
  "cec_ops_active_source m = do {
     phys_addr \<leftarrow> rd_be16 m 2 3;
     Some (phys_addr) }"

definition cec_msg_image_view_on :: "cec_stmt" where
  "cec_msg_image_view_on = exec [
     set_len 2,
     wr 1 CEC_MSG_IMAGE_VIEW_ON]"

definition cec_msg_text_view_on :: "cec_stmt" where
  "cec_msg_text_view_on = exec [
     set_len 2,
     wr 1 CEC_MSG_TEXT_VIEW_ON]"

section \<open>Routing Control\<close>

definition cec_msg_inactive_source :: "u16 \<Rightarrow> cec_stmt" where
  "cec_msg_inactive_source phys_addr = exec [
     set_len 4,
     wr 1 CEC_MSG_INACTIVE_SOURCE,
     wr 2 (hi8 phys_addr),
     wr 3 (lo8 phys_addr)]"

definition cec_ops_inactive_source :: "cec_msg \<Rightarrow> (u16) option" where
  "cec_ops_inactive_source m = do {
     phys_addr \<leftarrow> rd_be16 m 2 3;
     Some (phys_addr) }"

definition cec_msg_request_active_source :: "int \<Rightarrow> cec_stmt" where
  "cec_msg_request_active_source want_reply = exec [
     set_len 2,
     or_broadcast,
     wr 1 CEC_MSG_REQUEST_ACTIVE_SOURCE,
     set_reply (reply_op want_reply CEC_MSG_ACTIVE_SOURCE)]"

definition cec_msg_routing_information :: "u16 \<Rightarrow> cec_stmt" where
  "cec_msg_routing_information phys_addr = exec [
     set_len 4,
     or_broadcast,
     wr 1 CEC_MSG_ROUTING_INFORMATION,
     wr 2 (hi8 phys_addr),
     wr 3 (lo8 phys_addr)]"

definition cec_ops_routing_information :: "cec_msg \<Rightarrow> (u16) option" where
  "cec_ops_routing_information m = do {
     phys_addr \<leftarrow> rd_be16 m 2 3;
     Some (phys_addr) }"

definition cec_msg_routing_change :: "int \<Rightarrow> u16 \<Rightarrow> u16 \<Rightarrow> cec_stmt" where
  "cec_msg_routing_change want_reply orig_phys_addr new_phys_addr = exec [
     set_len 6,
     or_broadcast,
     wr 1 CEC_MSG_ROUTING_CHANGE,
     wr 2 (hi8 orig_phys_addr),
     wr 3 (lo8 orig_phys_addr),
     wr 4 (hi8 new_phys_addr),
     wr 5 (lo8 new_phys_addr),
     set_reply (reply_op want_reply CEC_MSG_ROUTING_INFORMATION)]"

definition cec_ops_routing_change :: "cec_msg \<Rightarrow> (u16 \<times> u16) option" where
  "cec_ops_routing_change m = do {
     orig_phys_addr \<leftarrow> rd_be16 m 2 3;
     new_phys_addr \<leftarrow> rd_be16 m 4 5;
     Some (orig_phys_addr, new_phys_addr) }"

definition cec_msg_set_stream_path :: "u16 \<Rightarrow> cec_stmt" where
  "cec_msg_set_stream_path phys_addr = exec [
     set_len 4,
     or_broadcast,
     wr 1 CEC_MSG_SET_STREAM_PATH,
     wr 2 (hi8 phys_addr),
     wr 3 (lo8 phys_addr)]"

definition cec_ops_set_stream_path :: "cec_msg \<Rightarrow> (u16) option" where
  "cec_ops_set_stream_path m = do {
     phys_addr \<leftarrow> rd_be16 m 2 3;
     Some (phys_addr) }"

section \<open>Standby\<close>

definition cec_msg_standby :: "cec_stmt" where
  "cec_msg_standby = exec [
     set_len 2,
     wr 1 CEC_MSG_STANDBY]"

section \<open>Contracts\<close>

interpretation active_source: cec_codec "cec_msg_active_source" CEC_MSG_ACTIVE_SOURCE True "\<lambda>_. 4"
  cec_ops_active_source "\<lambda>a. a" "\<lambda>_. True"
  by unfold_locales (auto simp: cec_msg_active_source_def cec_ops_active_source_def cec_simps
      wire_def)

interpretation image_view_on: cec_builder "\<lambda>_ :: unit. cec_msg_image_view_on"
    CEC_MSG_IMAGE_VIEW_ON False "\<lambda>_. 2"
  by unfold_locales (auto simp: cec_msg_image_view_on_def cec_simps)

interpretation text_view_on: cec_builder "\<lambda>_ :: unit. cec_msg_text_view_on" CEC_MSG_TEXT_VIEW_ON
    False "\<lambda>_. 2"
  by unfold_locales (auto simp: cec_msg_text_view_on_def cec_simps)

interpretation inactive_source: cec_codec "cec_msg_inactive_source" CEC_MSG_INACTIVE_SOURCE False
    "\<lambda>_. 4"
  cec_ops_inactive_source "\<lambda>a. a" "\<lambda>_. True"
  by unfold_locales (auto simp: cec_msg_inactive_source_def cec_ops_inactive_source_def cec_simps
      wire_def)

interpretation request_active_source: cec_builder "\<lambda>_ :: unit. cec_msg_request_active_source r"
    CEC_MSG_REQUEST_ACTIVE_SOURCE True "\<lambda>_. 2" for r
  by unfold_locales (auto simp: cec_msg_request_active_source_def cec_simps)

interpretation routing_information: cec_codec "cec_msg_routing_information"
    CEC_MSG_ROUTING_INFORMATION True "\<lambda>_. 4"
  cec_ops_routing_information "\<lambda>a. a" "\<lambda>_. True"
  by unfold_locales (auto simp: cec_msg_routing_information_def cec_ops_routing_information_def
      cec_simps wire_def)

interpretation routing_change: cec_codec "\<lambda>(orig_phys_addr, new_phys_addr). cec_msg_routing_change
    r orig_phys_addr new_phys_addr" CEC_MSG_ROUTING_CHANGE True "\<lambda>_. 6"
  cec_ops_routing_change "\<lambda>a. a" "\<lambda>_. True" for r
  by unfold_locales (auto simp: cec_msg_routing_change_def cec_ops_routing_change_def cec_simps
      wire_def)

interpretation set_stream_path: cec_codec "cec_msg_set_stream_path" CEC_MSG_SET_STREAM_PATH True
    "\<lambda>_. 4"
  cec_ops_set_stream_path "\<lambda>a. a" "\<lambda>_. True"
  by unfold_locales (auto simp: cec_msg_set_stream_path_def cec_ops_set_stream_path_def cec_simps
      wire_def)

interpretation standby: cec_builder "\<lambda>_ :: unit. cec_msg_standby" CEC_MSG_STANDBY False "\<lambda>_. 2"
  by unfold_locales (auto simp: cec_msg_standby_def cec_simps)

end
