(* ===== verification/Cec_Record.thy ===== *)
theory Cec_Record
  imports Cec_Message Cec_Opcodes
begin

text \<open>
  The One Touch Record feature of \<^verbatim>\<open>linux/cec-funcs.h\<close>, with the digital service
  identification (\<open>cec_set_digital_service_id\<close>, \<open>cec_get_digital_service_id\<close>) that the
  timer and tuner features use too.

  A C union is modelled by its storage: the halfwords it occupies on the little-endian
  target. Each member is an accessor on that storage, so a value stored through one member
  and read through another is what the overlay gives (the header itself writes \<open>dvb\<close> and
  reads \<open>atsc\<close>). \<open>digital_view\<close> and \<open>record_src_view\<close> are the abstract values: the members
  selected by the tag.
\<close>

section \<open>Digital service identification\<close>

record cec_op_digital_service_id =
  service_id_method :: u8
  dig_bcast_system :: u8
  du0 :: u16
  du1 :: u16
  du2 :: u16

text \<open>A byte member at an even offset of the union: the low byte of its halfword.\<close>

definition set_lo8 :: "u8 \<Rightarrow> u16 \<Rightarrow> u16" where [byte_defs]:
  "set_lo8 b w = (w AND 0xff00) OR to_u16 b"

abbreviation (input) "dvb_transport_id \<equiv> du0"
abbreviation (input) "dvb_service_id \<equiv> du1"
abbreviation (input) "dvb_orig_network_id \<equiv> du2"
abbreviation (input) "atsc_transport_id \<equiv> du0"
abbreviation (input) "atsc_program_number \<equiv> du1"
abbreviation (input) "channel_number_fmt d \<equiv> lo8 (du0 d)"
abbreviation (input) "channel_major \<equiv> du1"
abbreviation (input) "channel_minor \<equiv> du2"

text \<open>The cases \<open>ATSC_GEN\<close>, \<open>ATSC_CABLE\<close>, \<open>ATSC_SAT\<close>, \<open>ATSC_T\<close> of the switch.\<close>

definition is_atsc :: "u8 \<Rightarrow> bool" where
  "is_atsc s \<longleftrightarrow> s = CEC_OP_DIG_SERVICE_BCAST_SYSTEM_ATSC_GEN \<or>
     s = CEC_OP_DIG_SERVICE_BCAST_SYSTEM_ATSC_CABLE \<or>
     s = CEC_OP_DIG_SERVICE_BCAST_SYSTEM_ATSC_SAT \<or>
     s = CEC_OP_DIG_SERVICE_BCAST_SYSTEM_ATSC_T"

definition cec_set_digital_service_id :: "nat \<Rightarrow> cec_op_digital_service_id \<Rightarrow> cec_stmt" where
  "cec_set_digital_service_id off digital = exec [
     wr off (to_u8 (push_bit 7 (promote (service_id_method digital)) OR
       promote (dig_bcast_system digital))),
     if service_id_method digital = CEC_OP_SERVICE_ID_METHOD_BY_CHANNEL then exec [
       wr (off + 1) (to_u8 (push_bit 2 (promote (channel_number_fmt digital)) OR
         drop_bit 8 (promote (channel_major digital)))),
       wr (off + 2) (lo8 (channel_major digital)),
       wr (off + 3) (hi8 (channel_minor digital)),
       wr (off + 4) (lo8 (channel_minor digital)),
       wr (off + 5) 0,
       wr (off + 6) 0]
     else if is_atsc (dig_bcast_system digital) then exec [
       wr (off + 1) (hi8 (atsc_transport_id digital)),
       wr (off + 2) (lo8 (atsc_transport_id digital)),
       wr (off + 3) (hi8 (atsc_program_number digital)),
       wr (off + 4) (lo8 (atsc_program_number digital)),
       wr (off + 5) 0,
       wr (off + 6) 0]
     else exec [
       wr (off + 1) (hi8 (dvb_transport_id digital)),
       wr (off + 2) (lo8 (dvb_transport_id digital)),
       wr (off + 3) (hi8 (dvb_service_id digital)),
       wr (off + 4) (lo8 (dvb_service_id digital)),
       wr (off + 5) (hi8 (dvb_orig_network_id digital)),
       wr (off + 6) (lo8 (dvb_orig_network_id digital))]]"

text \<open>\<open>channel.major = ((msg[1] & 3) << 6) | msg[2]\<close>.\<close>

definition get_channel_major :: "u8 \<Rightarrow> u8 \<Rightarrow> u16" where
  "get_channel_major b1 b2 = to_u16 (push_bit 6 (promote b1 AND 3) OR promote b2)"

definition cec_get_digital_service_id ::
  "cec_msg \<Rightarrow> nat \<Rightarrow> cec_op_digital_service_id \<Rightarrow> cec_op_digital_service_id option" where
  "cec_get_digital_service_id m off digital = do {
     b0 \<leftarrow> rd m off;
     let digital = digital\<lparr>service_id_method := to_u8 (drop_bit 7 (promote b0)),
                           dig_bcast_system := to_u8 (promote b0 AND 0x7f)\<rparr>;
     if service_id_method digital = CEC_OP_SERVICE_ID_METHOD_BY_CHANNEL then do {
       b1 \<leftarrow> rd m (off + 1);
       b2 \<leftarrow> rd m (off + 2);
       minor \<leftarrow> rd_be16 m (off + 3) (off + 4);
       Some (digital\<lparr>du0 := set_lo8 (to_u8 (drop_bit 2 (promote b1))) (du0 digital),
                     du1 := get_channel_major b1 b2,
                     du2 := minor\<rparr>) }
     else do {
       transport_id \<leftarrow> rd_be16 m (off + 1) (off + 2);
       service_id \<leftarrow> rd_be16 m (off + 3) (off + 4);
       orig_network_id \<leftarrow> rd_be16 m (off + 5) (off + 6);
       Some (digital\<lparr>du0 := transport_id, du1 := service_id, du2 := orig_network_id\<rparr>) } }"

section \<open>One Touch Record\<close>

definition cec_msg_record_off :: "int \<Rightarrow> cec_stmt" where
  "cec_msg_record_off want_reply = exec [
     set_len 2,
     wr 1 CEC_MSG_RECORD_OFF,
     set_reply (reply_op want_reply CEC_MSG_RECORD_STATUS)]"

text \<open>
  The union of \<open>struct cec_op_record_src\<close> has eight bytes: \<open>digital\<close> fills it, \<open>analog\<close> has
  its members at the offsets 0, 2 and 4, \<open>ext_plug\<close> and \<open>ext_phys_addr\<close> at 0.
\<close>

record cec_op_record_src =
  src_type :: u8
  ru0 :: u16
  ru1 :: u16
  ru2 :: u16
  ru3 :: u16

definition src_digital :: "cec_op_record_src \<Rightarrow> cec_op_digital_service_id" where
  "src_digital s = \<lparr>service_id_method = lo8 (ru0 s), dig_bcast_system = hi8 (ru0 s),
     du0 = ru1 s, du1 = ru2 s, du2 = ru3 s\<rparr>"

definition src_set_digital ::
  "cec_op_digital_service_id \<Rightarrow> cec_op_record_src \<Rightarrow> cec_op_record_src" where
  "src_set_digital d s = s\<lparr>ru0 := be16 (dig_bcast_system d) (service_id_method d),
     ru1 := du0 d, ru2 := du1 d, ru3 := du2 d\<rparr>"

abbreviation (input) "src_ana_bcast_type s \<equiv> lo8 (ru0 s)"
abbreviation (input) "src_ana_freq \<equiv> ru1"
abbreviation (input) "src_bcast_system s \<equiv> lo8 (ru2 s)"
abbreviation (input) "src_plug s \<equiv> lo8 (ru0 s)"
abbreviation (input) "src_phys_addr \<equiv> ru0"

definition cec_msg_record_on_own :: "cec_stmt" where
  "cec_msg_record_on_own = exec [
     set_len 3,
     wr 1 CEC_MSG_RECORD_ON,
     wr 2 CEC_OP_RECORD_SRC_OWN]"

definition cec_msg_record_on_digital :: "cec_op_digital_service_id \<Rightarrow> cec_stmt" where
  "cec_msg_record_on_digital digital = exec [
     set_len 10,
     wr 1 CEC_MSG_RECORD_ON,
     wr 2 CEC_OP_RECORD_SRC_DIGITAL,
     cec_set_digital_service_id 3 digital]"

definition cec_msg_record_on_analog :: "u8 \<Rightarrow> u16 \<Rightarrow> u8 \<Rightarrow> cec_stmt" where
  "cec_msg_record_on_analog ana_bcast_type ana_freq bcast_system = exec [
     set_len 7,
     wr 1 CEC_MSG_RECORD_ON,
     wr 2 CEC_OP_RECORD_SRC_ANALOG,
     wr 3 ana_bcast_type,
     wr 4 (hi8 ana_freq),
     wr 5 (lo8 ana_freq),
     wr 6 bcast_system]"

definition cec_msg_record_on_plug :: "u8 \<Rightarrow> cec_stmt" where
  "cec_msg_record_on_plug plug = exec [
     set_len 4,
     wr 1 CEC_MSG_RECORD_ON,
     wr 2 CEC_OP_RECORD_SRC_EXT_PLUG,
     wr 3 plug]"

definition cec_msg_record_on_phys_addr :: "u16 \<Rightarrow> cec_stmt" where
  "cec_msg_record_on_phys_addr phys_addr = exec [
     set_len 5,
     wr 1 CEC_MSG_RECORD_ON,
     wr 2 CEC_OP_RECORD_SRC_EXT_PHYS_ADDR,
     wr 3 (hi8 phys_addr),
     wr 4 (lo8 phys_addr)]"

definition cec_msg_record_on :: "int \<Rightarrow> cec_op_record_src \<Rightarrow> cec_stmt" where
  "cec_msg_record_on want_reply rec_src = exec [
     if src_type rec_src = CEC_OP_RECORD_SRC_OWN then cec_msg_record_on_own
     else if src_type rec_src = CEC_OP_RECORD_SRC_DIGITAL then
       cec_msg_record_on_digital (src_digital rec_src)
     else if src_type rec_src = CEC_OP_RECORD_SRC_ANALOG then
       cec_msg_record_on_analog (src_ana_bcast_type rec_src) (src_ana_freq rec_src)
         (src_bcast_system rec_src)
     else if src_type rec_src = CEC_OP_RECORD_SRC_EXT_PLUG then
       cec_msg_record_on_plug (src_plug rec_src)
     else if src_type rec_src = CEC_OP_RECORD_SRC_EXT_PHYS_ADDR then
       cec_msg_record_on_phys_addr (src_phys_addr rec_src)
     else exec [],
     set_reply (reply_op want_reply CEC_MSG_RECORD_STATUS)]"

definition cec_ops_record_on :: "cec_msg \<Rightarrow> cec_op_record_src \<Rightarrow> cec_op_record_src option" where
  "cec_ops_record_on m rec_src = do {
     t \<leftarrow> rd m 2;
     let rec_src = rec_src\<lparr>src_type := t\<rparr>;
     if t = CEC_OP_RECORD_SRC_OWN then Some rec_src
     else if t = CEC_OP_RECORD_SRC_DIGITAL then do {
       d \<leftarrow> cec_get_digital_service_id m 3 (src_digital rec_src);
       Some (src_set_digital d rec_src) }
     else if t = CEC_OP_RECORD_SRC_ANALOG then do {
       ana_bcast_type \<leftarrow> rd m 3;
       ana_freq \<leftarrow> rd_be16 m 4 5;
       bcast_system \<leftarrow> rd m 6;
       Some (rec_src\<lparr>ru0 := set_lo8 ana_bcast_type (ru0 rec_src), ru1 := ana_freq,
                     ru2 := set_lo8 bcast_system (ru2 rec_src)\<rparr>) }
     else if t = CEC_OP_RECORD_SRC_EXT_PLUG then do {
       plug \<leftarrow> rd m 3;
       Some (rec_src\<lparr>ru0 := set_lo8 plug (ru0 rec_src)\<rparr>) }
     else if t = CEC_OP_RECORD_SRC_EXT_PHYS_ADDR then do {
       phys_addr \<leftarrow> rd_be16 m 3 4;
       Some (rec_src\<lparr>ru0 := phys_addr\<rparr>) }
     else Some rec_src }"

definition cec_msg_record_status :: "u8 \<Rightarrow> cec_stmt" where
  "cec_msg_record_status rec_status = exec [
     set_len 3,
     wr 1 CEC_MSG_RECORD_STATUS,
     wr 2 rec_status]"

definition cec_ops_record_status :: "cec_msg \<Rightarrow> (u8) option" where
  "cec_ops_record_status m = do {
     rec_status \<leftarrow> rd m 2;
     Some (rec_status) }"

definition cec_msg_record_tv_screen :: "int \<Rightarrow> cec_stmt" where
  "cec_msg_record_tv_screen want_reply = exec [
     set_len 2,
     wr 1 CEC_MSG_RECORD_TV_SCREEN,
     set_reply (reply_op want_reply CEC_MSG_RECORD_ON)]"

section \<open>Abstract views\<close>

datatype digital_service =
    ServiceByChannel u8 u16 u16
  | ServiceAtsc u16 u16
  | ServiceDvb u16 u16 u16

definition digital_view :: "cec_op_digital_service_id \<Rightarrow> u8 \<times> u8 \<times> digital_service" where
  "digital_view d = (service_id_method d, dig_bcast_system d,
     if service_id_method d = CEC_OP_SERVICE_ID_METHOD_BY_CHANNEL
     then ServiceByChannel (channel_number_fmt d) (channel_major d) (channel_minor d)
     else if is_atsc (dig_bcast_system d)
     then ServiceAtsc (atsc_transport_id d) (atsc_program_number d)
     else ServiceDvb (dvb_transport_id d) (dvb_service_id d) (dvb_orig_network_id d))"

definition digital_valid :: "cec_op_digital_service_id \<Rightarrow> bool" where
  "digital_valid d \<longleftrightarrow> service_id_method d < 2 \<and> dig_bcast_system d < 128 \<and>
     (service_id_method d = CEC_OP_SERVICE_ID_METHOD_BY_CHANNEL \<longrightarrow>
        channel_number_fmt d < 64 \<and> channel_major d < 256)"

datatype record_source =
    SourceOwn
  | SourceDigital "u8 \<times> u8 \<times> digital_service"
  | SourceAnalog u8 u16 u8
  | SourcePlug u8
  | SourcePhysAddr u16
  | SourceOther u8

definition record_src_view :: "cec_op_record_src \<Rightarrow> record_source" where
  "record_src_view s =
     (if src_type s = CEC_OP_RECORD_SRC_OWN then SourceOwn
      else if src_type s = CEC_OP_RECORD_SRC_DIGITAL then SourceDigital (digital_view (src_digital
          s))
      else if src_type s = CEC_OP_RECORD_SRC_ANALOG then
        SourceAnalog (src_ana_bcast_type s) (src_ana_freq s) (src_bcast_system s)
      else if src_type s = CEC_OP_RECORD_SRC_EXT_PLUG then SourcePlug (src_plug s)
      else if src_type s = CEC_OP_RECORD_SRC_EXT_PHYS_ADDR then SourcePhysAddr (src_phys_addr s)
      else SourceOther (src_type s))"

definition record_src_valid :: "cec_op_record_src \<Rightarrow> bool" where
  "record_src_valid s \<longleftrightarrow> src_type s \<in> set rec_src_type_operands \<and>
     (src_type s = CEC_OP_RECORD_SRC_DIGITAL \<longrightarrow> digital_valid (src_digital s))"

section \<open>The digital service identification round trip\<close>

lemma lo8_set_lo8 [simp]: "lo8 (set_lo8 b w) = b"
  by (simp add: bits8 byte_defs)

lemma service_byte:
  assumes "meth < 2" and "sys < (128::u8)"
  shows "to_u8 (drop_bit 7 (promote (to_u8 (push_bit 7 (promote meth) OR promote sys)))) =
      (meth::u8)"
    and "to_u8 (promote (to_u8 (push_bit 7 (promote meth) OR promote sys)) AND 0x7f) = sys"
  using assms by (simp_all add: below_pow2 bits8)

lemmas service_byte_channel = service_byte [of 1, simplified]

lemma channel_byte:
  assumes "fmt < (64::u8)" and "major < (256::u16)"
  shows "to_u8 (drop_bit 2 (promote (to_u8 (push_bit 2 (promote fmt) OR drop_bit 8 (promote
      major))))) = fmt"
    and "get_channel_major (to_u8 (push_bit 2 (promote fmt) OR drop_bit 8 (promote major))) (lo8
        major) = major"
  using assms by (simp_all add: below_pow2 bits8 bits16 get_channel_major_def byte_defs)

text \<open>
  The seven bytes that \<open>cec_set_digital_service_id\<close> writes, and the abstract value that
  \<open>cec_get_digital_service_id\<close> reads from seven bytes.
\<close>

definition digital_bytes :: "cec_op_digital_service_id \<Rightarrow> u8 list" where
  "digital_bytes d =
     to_u8 (push_bit 7 (promote (service_id_method d)) OR promote (dig_bcast_system d)) #
     (if service_id_method d = CEC_OP_SERVICE_ID_METHOD_BY_CHANNEL
      then [to_u8 (push_bit 2 (promote (channel_number_fmt d)) OR drop_bit 8 (promote
          (channel_major d))),
        lo8 (channel_major d), hi8 (channel_minor d), lo8 (channel_minor d), 0, 0]
      else if is_atsc (dig_bcast_system d)
      then [hi8 (du0 d), lo8 (du0 d), hi8 (du1 d), lo8 (du1 d), 0, 0]
      else [hi8 (du0 d), lo8 (du0 d), hi8 (du1 d), lo8 (du1 d), hi8 (du2 d), lo8 (du2 d)])"

definition dig_parse ::
  "cec_msg \<Rightarrow> nat \<Rightarrow> cec_op_digital_service_id \<Rightarrow> cec_op_digital_service_id" where
  "dig_parse r off d0 = the (cec_get_digital_service_id r off d0)"

definition bytes_view :: "u8 \<Rightarrow> u8 \<Rightarrow> u8 \<Rightarrow> u8 \<Rightarrow> u8 \<Rightarrow> u8 \<Rightarrow> u8 \<Rightarrow> u8 \<times> u8 \<times> digital_service" where
  "bytes_view b0 b1 b2 b3 b4 b5 b6 =
     (let meth = to_u8 (drop_bit 7 (promote b0)); sys = to_u8 (promote b0 AND 0x7f)
      in (meth, sys,
        if meth = CEC_OP_SERVICE_ID_METHOD_BY_CHANNEL
        then ServiceByChannel (to_u8 (drop_bit 2 (promote b1))) (get_channel_major b1 b2) (be16 b3
            b4)
        else if is_atsc sys then ServiceAtsc (be16 b1 b2) (be16 b3 b4)
        else ServiceDvb (be16 b1 b2) (be16 b3 b4) (be16 b5 b6)))"

lemma length_digital_bytes [simp]: "length (digital_bytes d) = 7"
  by (simp add: digital_bytes_def)

lemma set_digital_ok [cec_simps]:
  "cec_wf m \<Longrightarrow> off + 7 \<le> 16 \<Longrightarrow>
     cec_set_digital_service_id off d m = Some (puts off (digital_bytes d) m)"
  by (simp add: cec_set_digital_service_id_def cec_simps digital_bytes_def eval_nat_numeral)

lemma get_digital_ok [cec_simps]:
  assumes "cec_wf r" and "off + 7 \<le> 16"
  shows "cec_get_digital_service_id r off d0 = Some (dig_parse r off d0)"
    and "digital_view (dig_parse r off d0) =
      bytes_view (byte r off) (byte r (off + 1)) (byte r (off + 2)) (byte r (off + 3))
        (byte r (off + 4)) (byte r (off + 5)) (byte r (off + 6))"
  using assms
  by (simp_all add: dig_parse_def cec_get_digital_service_id_def cec_simps bytes_view_def Let_def
      digital_view_def)

lemma bytes_view_digital_bytes [cec_simps]:
  "digital_valid d \<Longrightarrow>
     bytes_view (digital_bytes d ! 0) (digital_bytes d ! Suc 0) (digital_bytes d ! 2)
       (digital_bytes d ! 3) (digital_bytes d ! 4) (digital_bytes d ! 5) (digital_bytes d ! 6)
     = digital_view d"
  by (auto simp: digital_bytes_def bytes_view_def digital_view_def digital_valid_def service_byte
      service_byte_channel channel_byte Let_def)

lemma record_src_views:
  "src_type s = CEC_OP_RECORD_SRC_OWN \<Longrightarrow> record_src_view s = SourceOwn"
  "src_type s = CEC_OP_RECORD_SRC_DIGITAL \<Longrightarrow>
     record_src_view s = SourceDigital (digital_view (src_digital s))"
  "src_type s = CEC_OP_RECORD_SRC_ANALOG \<Longrightarrow> record_src_view s =
     SourceAnalog (src_ana_bcast_type s) (src_ana_freq s) (src_bcast_system s)"
  "src_type s = CEC_OP_RECORD_SRC_EXT_PLUG \<Longrightarrow> record_src_view s = SourcePlug (src_plug s)"
  "src_type s = CEC_OP_RECORD_SRC_EXT_PHYS_ADDR \<Longrightarrow>
     record_src_view s = SourcePhysAddr (src_phys_addr s)"
  by (simp_all add: record_src_view_def)

lemma src_type_src_set_digital [simp]: "src_type (src_set_digital d s) = src_type s"
  by (simp add: src_set_digital_def)

lemma src_digital_src_set_digital [simp]: "src_digital (src_set_digital d s) = d"
  by (simp add: src_digital_def src_set_digital_def)

section \<open>Contracts\<close>

interpretation record_off: cec_builder "\<lambda>_ :: unit. cec_msg_record_off r" CEC_MSG_RECORD_OFF False
    "\<lambda>_. 2" for r
  by unfold_locales (auto simp: cec_msg_record_off_def cec_simps)

interpretation record_on_own: cec_builder "\<lambda>_ :: unit. cec_msg_record_on_own" CEC_MSG_RECORD_ON
    False "\<lambda>_. 3"
  by unfold_locales (auto simp: cec_msg_record_on_own_def cec_simps)

interpretation record_on_digital: cec_codec cec_msg_record_on_digital CEC_MSG_RECORD_ON False
  "\<lambda>_. 10" "\<lambda>r. map_option record_src_view (cec_ops_record_on r s0)"
  "\<lambda>d. SourceDigital (digital_view d)" digital_valid for s0
  by unfold_locales (auto simp: cec_msg_record_on_digital_def cec_ops_record_on_def cec_simps
      wire_def record_src_views Let_def)

interpretation record_tv_screen: cec_builder "\<lambda>_ :: unit. cec_msg_record_tv_screen r"
    CEC_MSG_RECORD_TV_SCREEN False "\<lambda>_. 2" for r
  by unfold_locales (auto simp: cec_msg_record_tv_screen_def cec_simps)

interpretation record_status: cec_codec "cec_msg_record_status" CEC_MSG_RECORD_STATUS False "\<lambda>_. 3"
  cec_ops_record_status "\<lambda>a. a" "\<lambda>_. True"
  by unfold_locales (auto simp: cec_msg_record_status_def cec_ops_record_status_def cec_simps
      wire_def)

interpretation record_on_analog: cec_codec "\<lambda>(t, f, b). cec_msg_record_on_analog t f b"
  CEC_MSG_RECORD_ON False "\<lambda>_. 7" "\<lambda>r. map_option record_src_view (cec_ops_record_on r s0)"
  "\<lambda>(t, f, b). SourceAnalog t f b" "\<lambda>_. True" for s0
  by unfold_locales (auto simp: cec_msg_record_on_analog_def cec_ops_record_on_def cec_simps
      wire_def record_src_views Let_def)

interpretation record_on_plug: cec_codec cec_msg_record_on_plug
  CEC_MSG_RECORD_ON False "\<lambda>_. 4" "\<lambda>r. map_option record_src_view (cec_ops_record_on r s0)"
  SourcePlug "\<lambda>_. True" for s0
  by unfold_locales (auto simp: cec_msg_record_on_plug_def cec_ops_record_on_def cec_simps
      wire_def record_src_views Let_def)

interpretation record_on_phys_addr: cec_codec cec_msg_record_on_phys_addr
  CEC_MSG_RECORD_ON False "\<lambda>_. 5" "\<lambda>r. map_option record_src_view (cec_ops_record_on r s0)"
  SourcePhysAddr "\<lambda>_. True" for s0
  by unfold_locales (auto simp: cec_msg_record_on_phys_addr_def cec_ops_record_on_def cec_simps
      wire_def record_src_views Let_def)

lemma record_own_wire:
  "cec_wf m \<Longrightarrow> cec_msg_record_on_own m = Some m' \<Longrightarrow> wire m' r \<Longrightarrow>
     map_option record_src_view (cec_ops_record_on r s0) = Some SourceOwn"
  by (auto simp: cec_msg_record_on_own_def cec_ops_record_on_def cec_simps wire_def
      record_src_views)

lemma wire_reply: "wire (m\<lparr>reply := op\<rparr>) r = wire m r"
  by (simp add: wire_def cec_simps)

text \<open>
  What is built by \<open>cec_msg_record_on\<close> parses to the same record source, through the
  dispatch on the source type on both sides.
\<close>

lemma record_on_dispatch:
  assumes "record_src_valid s" and "cec_msg_record_on r s m = Some m'"
  obtains n where "m' = n\<lparr>reply := reply_op r CEC_MSG_RECORD_STATUS\<rparr>"
    and "src_type s = CEC_OP_RECORD_SRC_OWN \<Longrightarrow> cec_msg_record_on_own m = Some n"
    and "src_type s = CEC_OP_RECORD_SRC_DIGITAL \<Longrightarrow>
      cec_msg_record_on_digital (src_digital s) m = Some n"
    and "src_type s = CEC_OP_RECORD_SRC_ANALOG \<Longrightarrow>
      cec_msg_record_on_analog (src_ana_bcast_type s) (src_ana_freq s) (src_bcast_system s) m =
          Some n"
    and "src_type s = CEC_OP_RECORD_SRC_EXT_PLUG \<Longrightarrow> cec_msg_record_on_plug (src_plug s) m = Some n"
    and "src_type s = CEC_OP_RECORD_SRC_EXT_PHYS_ADDR \<Longrightarrow>
      cec_msg_record_on_phys_addr (src_phys_addr s) m = Some n"
  using assms
  by (auto simp: cec_msg_record_on_def record_src_valid_def rec_src_type_operands_def
      bind_eq_Some_conv set_reply_def)

lemma record_on_roundtrip:
  assumes "cec_wf m" and "record_src_valid s" and "cec_msg_record_on r s m = Some m'"
    and "wire m' rx"
  shows "map_option record_src_view (cec_ops_record_on rx s0) = Some (record_src_view s)"
proof -
  obtain n where n: "m' = n\<lparr>reply := reply_op r CEC_MSG_RECORD_STATUS\<rparr>"
    and own: "src_type s = CEC_OP_RECORD_SRC_OWN \<Longrightarrow> cec_msg_record_on_own m = Some n"
    and dig: "src_type s = CEC_OP_RECORD_SRC_DIGITAL \<Longrightarrow>
      cec_msg_record_on_digital (src_digital s) m = Some n"
    and ana: "src_type s = CEC_OP_RECORD_SRC_ANALOG \<Longrightarrow>
      cec_msg_record_on_analog (src_ana_bcast_type s) (src_ana_freq s) (src_bcast_system s) m =
          Some n"
    and plug: "src_type s = CEC_OP_RECORD_SRC_EXT_PLUG \<Longrightarrow> cec_msg_record_on_plug (src_plug s) m =
        Some n"
    and phys: "src_type s = CEC_OP_RECORD_SRC_EXT_PHYS_ADDR \<Longrightarrow>
      cec_msg_record_on_phys_addr (src_phys_addr s) m = Some n"
    using record_on_dispatch [OF assms(2,3)] by blast
  from assms(4) n have w: "wire n rx" by (simp add: wire_reply)
  have "src_type s \<in> set rec_src_type_operands"
    and valid: "src_type s = CEC_OP_RECORD_SRC_DIGITAL \<Longrightarrow> digital_valid (src_digital s)"
    using assms(2) by (auto simp: record_src_valid_def)
  then consider "src_type s = CEC_OP_RECORD_SRC_OWN" | "src_type s = CEC_OP_RECORD_SRC_DIGITAL"
    | "src_type s = CEC_OP_RECORD_SRC_ANALOG" | "src_type s = CEC_OP_RECORD_SRC_EXT_PLUG"
    | "src_type s = CEC_OP_RECORD_SRC_EXT_PHYS_ADDR"
    by (auto simp: rec_src_type_operands_def)
  then show ?thesis
  proof cases
    case 1
    with record_own_wire [OF assms(1) own w] show ?thesis by (simp add: record_src_views)
  next
    case 2
    with record_on_digital.parse_wire [OF assms(1) valid dig w] show ?thesis
      by (simp add: record_src_views)
  next
    case 3
    with record_on_analog.parse_wire [OF assms(1) _ _ w, of "(_, _, _)"] ana show ?thesis
      by (simp add: record_src_views)
  next
    case 4
    with record_on_plug.parse_wire [OF assms(1) _ plug w] show ?thesis
      by (simp add: record_src_views)
  next
    case 5
    with record_on_phys_addr.parse_wire [OF assms(1) _ phys w] show ?thesis
      by (simp add: record_src_views)
  qed
qed

text \<open>The corruption of channel numbers above 255: bits 8 and 9 of the major number are
  written to the two low bits of the first byte but read back two positions too low.\<close>

lemma get_set_channel_major:
  assumes "fmt < 64" and "major < 1024"
  shows "get_channel_major (to_u8 (push_bit 2 (promote (fmt::u8)) OR drop_bit 8 (promote major)))
      (lo8 major)
    = (push_bit 6 (drop_bit 8 major) OR take_bit 8 (major::u16))"
  using assms by (simp add: below_pow2 bits16 get_channel_major_def byte_defs)

lemma channel_fmt_field:
  assumes "fmt < (64::u8)" and "major < (1024::u16)"
  shows "to_u8 (drop_bit 2 (promote (to_u8 (push_bit 2 (promote fmt) OR drop_bit 8 (promote major)))))
    = fmt"
  using assms by (simp add: below_pow2 bits8 word_eq_bits16 all_less_16)

text \<open>Concrete arguments: an ARIB service, a recording from a physical address.\<close>

definition sample_service :: cec_op_digital_service_id where
  "sample_service = \<lparr>service_id_method = 0, dig_bcast_system = 0, du0 = 0x1122, du1 = 0x3344,
     du2 = 0x5566\<rparr>"

definition sample_source :: cec_op_record_src where
  "sample_source = \<lparr>src_type = CEC_OP_RECORD_SRC_EXT_PHYS_ADDR, ru0 = 0x1200, ru1 = 0, ru2 = 0,
     ru3 = 0\<rparr>"

section \<open>Properties\<close>

text \<open>
  C11. The record source survives the dispatch on its type on both sides: what
  \<open>cec_msg_record_on\<close> builds for a valid source of any of the five types is the
  source \<open>cec_ops_record_on\<close> returns. A source is valid
  (\<open>record_src_valid\<close>) when its type is one of the five and, for a digital service,
  the identification method is one bit, the broadcast system seven bits and, for a service by
  channel, the number format six bits and the major channel number below 256; for the major
  numbers from 256 to 1023 that the field admits it is not what is received
  (\<open>channel_number_received\<close>).
\<close>

theorem record_source_roundtrip:
  assumes "cec_wf m" and "record_src_valid s" and "cec_msg_record_on r s m = Some m'"
    and "wire m' rx"
  shows "map_option record_src_view (cec_ops_record_on rx s0) = Some (record_src_view s)"
  using assms by (rule record_on_roundtrip)

theorem record_source_roundtrip_witness:
  "\<exists>m'. cec_msg_record_on 1 sample_source blank_msg = Some m' \<and>
     map_option record_src_view (cec_ops_record_on m' sample_source) = Some (SourcePhysAddr 0x1200)"
proof -
  let ?m = "the (cec_msg_record_on 1 sample_source blank_msg)"
  have b: "cec_msg_record_on 1 sample_source blank_msg = Some ?m" "cec_wf ?m"
    by (simp_all add: sample_source_def blank_wf cec_msg_record_on_def
        cec_msg_record_on_phys_addr_def cec_simps)
  have "record_src_valid sample_source" "record_src_view sample_source = SourcePhysAddr 0x1200"
    by (simp_all add: sample_source_def record_src_valid_def record_src_view_def
        rec_src_type_operands_def)
  with record_source_roundtrip [OF blank_wf _ b(1) wire_refl [OF b(2)]] b(1) show ?thesis
    by metis
qed

end
