(* ===== verification/Cec_Timer.thy ===== *)
theory Cec_Timer
  imports Cec_Record
begin

text \<open>
  The Timer Programming feature of \<^verbatim>\<open>linux/cec-funcs.h\<close>: the timer status with its
  optional BCD duration, the analogue, digital and external timers (set and clear), and the
  program title. Times are carried in BCD; the round trips hold below 160, where the tens
  digit fits in a nibble.
\<close>

section \<open>Timer status\<close>

text \<open>The condition under which a timer status carries a duration.\<close>

definition timer_has_duration :: "u8 \<Rightarrow> u8 \<Rightarrow> bool" where
  "timer_has_duration prog_info prog_error \<longleftrightarrow>
     prog_info = CEC_OP_PROG_INFO_NOT_ENOUGH_SPACE \<or>
     prog_info = CEC_OP_PROG_INFO_MIGHT_NOT_BE_ENOUGH_SPACE \<or>
     prog_error = CEC_OP_PROG_ERROR_DUPLICATE"

text \<open>The status byte \<open>(overlap << 7) | (media << 5) | (info ? 0x10 : 0) | (info ? info : error)\<close>.\<close>

definition timer_status_code :: "u8 \<Rightarrow> u8 \<Rightarrow> u8 \<Rightarrow> u8 \<Rightarrow> u8" where
  "timer_status_code timer_overlap_warning media_info prog_info prog_error =
     to_u8 (push_bit 7 (promote timer_overlap_warning) OR
       push_bit 5 (promote media_info) OR
       (if prog_info \<noteq> 0 then 0x10 else 0) OR
       (if prog_info \<noteq> 0 then promote prog_info else promote prog_error))"

definition cec_msg_timer_status :: "u8 \<Rightarrow> u8 \<Rightarrow> u8 \<Rightarrow> u8 \<Rightarrow> u8 \<Rightarrow> u8 \<Rightarrow> cec_stmt" where
  "cec_msg_timer_status timer_overlap_warning media_info prog_info prog_error duration_hr
     duration_min = exec [
     set_len 3,
     wr 1 CEC_MSG_TIMER_STATUS,
     wr 2 (timer_status_code timer_overlap_warning media_info prog_info prog_error),
     when_stmt (timer_has_duration prog_info prog_error) [
       \<lambda>m. set_len (len m + 2) m,
       wr 3 (bcd duration_hr),
       wr 4 (bcd duration_min)]]"

definition cec_ops_timer_status :: "cec_msg \<Rightarrow> (u8 \<times> u8 \<times> u8 \<times> u8 \<times> u8 \<times> u8) option" where
  "cec_ops_timer_status m = do {
     b2 \<leftarrow> rd m 2;
     let timer_overlap_warning = to_u8 (drop_bit 7 (promote b2));
     let media_info = to_u8 (drop_bit 5 (promote b2) AND 3);
     let prog_info = (if promote b2 AND 0x10 \<noteq> 0 then to_u8 (promote b2 AND 0xf) else 0);
     let prog_error = (if promote b2 AND 0x10 \<noteq> 0 then 0 else to_u8 (promote b2 AND 0xf));
     if timer_has_duration prog_info prog_error then do {
       duration_hr \<leftarrow> rd_bcd m 3;
       duration_min \<leftarrow> rd_bcd m 4;
       Some (timer_overlap_warning, media_info, prog_info, prog_error, duration_hr, duration_min) }
     else Some (timer_overlap_warning, media_info, prog_info, prog_error, 0, 0) }"

definition cec_msg_timer_cleared_status :: "u8 \<Rightarrow> cec_stmt" where
  "cec_msg_timer_cleared_status timer_cleared_status = exec [
     set_len 3,
     wr 1 CEC_MSG_TIMER_CLEARED_STATUS,
     wr 2 timer_cleared_status]"

definition cec_ops_timer_cleared_status :: "cec_msg \<Rightarrow> (u8) option" where
  "cec_ops_timer_cleared_status m = do {
     timer_cleared_status \<leftarrow> rd m 2;
     Some (timer_cleared_status) }"

section \<open>Timers\<close>

definition cec_msg_clear_analogue_timer :: "int \<Rightarrow> u8 \<Rightarrow> u8 \<Rightarrow> u8 \<Rightarrow> u8 \<Rightarrow> u8 \<Rightarrow> u8 \<Rightarrow> u8 \<Rightarrow> u8 \<Rightarrow> u16 \<Rightarrow> u8
    \<Rightarrow> cec_stmt" where
  "cec_msg_clear_analogue_timer want_reply day month start_hr start_min duration_hr duration_min
      recording_seq ana_bcast_type ana_freq bcast_system = exec [
     set_len 13,
     wr 1 CEC_MSG_CLEAR_ANALOGUE_TIMER,
     wr 2 day,
     wr 3 month,
     wr 4 (bcd start_hr),
     wr 5 (bcd start_min),
     wr 6 (bcd duration_hr),
     wr 7 (bcd duration_min),
     wr 8 recording_seq,
     wr 9 ana_bcast_type,
     wr 10 (hi8 ana_freq),
     wr 11 (lo8 ana_freq),
     wr 12 bcast_system,
     set_reply (reply_op want_reply CEC_MSG_TIMER_CLEARED_STATUS)]"

definition cec_ops_clear_analogue_timer :: "cec_msg \<Rightarrow> (u8 \<times> u8 \<times> u8 \<times> u8 \<times> u8 \<times> u8 \<times> u8 \<times> u8 \<times> u16
    \<times> u8) option" where
  "cec_ops_clear_analogue_timer m = do {
     day \<leftarrow> rd m 2;
     month \<leftarrow> rd m 3;
     start_hr \<leftarrow> rd_bcd m 4;
     start_min \<leftarrow> rd_bcd m 5;
     duration_hr \<leftarrow> rd_bcd m 6;
     duration_min \<leftarrow> rd_bcd m 7;
     recording_seq \<leftarrow> rd m 8;
     ana_bcast_type \<leftarrow> rd m 9;
     ana_freq \<leftarrow> rd_be16 m 10 11;
     bcast_system \<leftarrow> rd m 12;
     Some (day, month, start_hr, start_min, duration_hr, duration_min, recording_seq,
         ana_bcast_type, ana_freq, bcast_system) }"

definition cec_msg_clear_digital_timer :: "int \<Rightarrow> u8 \<Rightarrow> u8 \<Rightarrow> u8 \<Rightarrow> u8 \<Rightarrow> u8 \<Rightarrow> u8 \<Rightarrow> u8 \<Rightarrow>
    cec_op_digital_service_id \<Rightarrow> cec_stmt" where
  "cec_msg_clear_digital_timer want_reply day month start_hr start_min duration_hr duration_min
     recording_seq digital = exec [
     set_len 16,
     set_reply (reply_op want_reply CEC_MSG_TIMER_CLEARED_STATUS),
     wr 1 CEC_MSG_CLEAR_DIGITAL_TIMER,
     wr 2 day,
     wr 3 month,
     wr 4 (bcd start_hr),
     wr 5 (bcd start_min),
     wr 6 (bcd duration_hr),
     wr 7 (bcd duration_min),
     wr 8 recording_seq,
     cec_set_digital_service_id 9 digital]"

definition cec_ops_clear_digital_timer :: "cec_msg \<Rightarrow> cec_op_digital_service_id \<Rightarrow>
    (u8 \<times> u8 \<times> u8 \<times> u8 \<times> u8 \<times> u8 \<times> u8 \<times> cec_op_digital_service_id) option" where
  "cec_ops_clear_digital_timer m digital = do {
     day \<leftarrow> rd m 2;
     month \<leftarrow> rd m 3;
     start_hr \<leftarrow> rd_bcd m 4;
     start_min \<leftarrow> rd_bcd m 5;
     duration_hr \<leftarrow> rd_bcd m 6;
     duration_min \<leftarrow> rd_bcd m 7;
     recording_seq \<leftarrow> rd m 8;
     digital \<leftarrow> cec_get_digital_service_id m 9 digital;
     Some (day, month, start_hr, start_min, duration_hr, duration_min, recording_seq, digital) }"

definition cec_msg_clear_ext_timer :: "int \<Rightarrow> u8 \<Rightarrow> u8 \<Rightarrow> u8 \<Rightarrow> u8 \<Rightarrow> u8 \<Rightarrow> u8 \<Rightarrow> u8 \<Rightarrow> u8 \<Rightarrow> u8 \<Rightarrow> u16 \<Rightarrow>
    cec_stmt" where
  "cec_msg_clear_ext_timer want_reply day month start_hr start_min duration_hr duration_min
      recording_seq ext_src_spec plug phys_addr = exec [
     set_len 13,
     wr 1 CEC_MSG_CLEAR_EXT_TIMER,
     wr 2 day,
     wr 3 month,
     wr 4 (bcd start_hr),
     wr 5 (bcd start_min),
     wr 6 (bcd duration_hr),
     wr 7 (bcd duration_min),
     wr 8 recording_seq,
     wr 9 ext_src_spec,
     wr 10 plug,
     wr 11 (hi8 phys_addr),
     wr 12 (lo8 phys_addr),
     set_reply (reply_op want_reply CEC_MSG_TIMER_CLEARED_STATUS)]"

definition cec_ops_clear_ext_timer :: "cec_msg \<Rightarrow> (u8 \<times> u8 \<times> u8 \<times> u8 \<times> u8 \<times> u8 \<times> u8 \<times> u8 \<times> u8 \<times>
    u16) option" where
  "cec_ops_clear_ext_timer m = do {
     day \<leftarrow> rd m 2;
     month \<leftarrow> rd m 3;
     start_hr \<leftarrow> rd_bcd m 4;
     start_min \<leftarrow> rd_bcd m 5;
     duration_hr \<leftarrow> rd_bcd m 6;
     duration_min \<leftarrow> rd_bcd m 7;
     recording_seq \<leftarrow> rd m 8;
     ext_src_spec \<leftarrow> rd m 9;
     plug \<leftarrow> rd m 10;
     phys_addr \<leftarrow> rd_be16 m 11 12;
     Some (day, month, start_hr, start_min, duration_hr, duration_min, recording_seq,
         ext_src_spec, plug, phys_addr) }"

definition cec_msg_set_analogue_timer :: "int \<Rightarrow> u8 \<Rightarrow> u8 \<Rightarrow> u8 \<Rightarrow> u8 \<Rightarrow> u8 \<Rightarrow> u8 \<Rightarrow> u8 \<Rightarrow> u8 \<Rightarrow> u16 \<Rightarrow> u8 \<Rightarrow>
    cec_stmt" where
  "cec_msg_set_analogue_timer want_reply day month start_hr start_min duration_hr duration_min
      recording_seq ana_bcast_type ana_freq bcast_system = exec [
     set_len 13,
     wr 1 CEC_MSG_SET_ANALOGUE_TIMER,
     wr 2 day,
     wr 3 month,
     wr 4 (bcd start_hr),
     wr 5 (bcd start_min),
     wr 6 (bcd duration_hr),
     wr 7 (bcd duration_min),
     wr 8 recording_seq,
     wr 9 ana_bcast_type,
     wr 10 (hi8 ana_freq),
     wr 11 (lo8 ana_freq),
     wr 12 bcast_system,
     set_reply (reply_op want_reply CEC_MSG_TIMER_STATUS)]"

definition cec_ops_set_analogue_timer :: "cec_msg \<Rightarrow> (u8 \<times> u8 \<times> u8 \<times> u8 \<times> u8 \<times> u8 \<times> u8 \<times> u8 \<times> u16 \<times>
    u8) option" where
  "cec_ops_set_analogue_timer m = do {
     day \<leftarrow> rd m 2;
     month \<leftarrow> rd m 3;
     start_hr \<leftarrow> rd_bcd m 4;
     start_min \<leftarrow> rd_bcd m 5;
     duration_hr \<leftarrow> rd_bcd m 6;
     duration_min \<leftarrow> rd_bcd m 7;
     recording_seq \<leftarrow> rd m 8;
     ana_bcast_type \<leftarrow> rd m 9;
     ana_freq \<leftarrow> rd_be16 m 10 11;
     bcast_system \<leftarrow> rd m 12;
     Some (day, month, start_hr, start_min, duration_hr, duration_min, recording_seq,
         ana_bcast_type, ana_freq, bcast_system) }"

definition cec_msg_set_digital_timer :: "int \<Rightarrow> u8 \<Rightarrow> u8 \<Rightarrow> u8 \<Rightarrow> u8 \<Rightarrow> u8 \<Rightarrow> u8 \<Rightarrow> u8 \<Rightarrow>
    cec_op_digital_service_id \<Rightarrow> cec_stmt" where
  "cec_msg_set_digital_timer want_reply day month start_hr start_min duration_hr duration_min
     recording_seq digital = exec [
     set_len 16,
     set_reply (reply_op want_reply CEC_MSG_TIMER_STATUS),
     wr 1 CEC_MSG_SET_DIGITAL_TIMER,
     wr 2 day,
     wr 3 month,
     wr 4 (bcd start_hr),
     wr 5 (bcd start_min),
     wr 6 (bcd duration_hr),
     wr 7 (bcd duration_min),
     wr 8 recording_seq,
     cec_set_digital_service_id 9 digital]"

definition cec_ops_set_digital_timer :: "cec_msg \<Rightarrow> cec_op_digital_service_id \<Rightarrow>
    (u8 \<times> u8 \<times> u8 \<times> u8 \<times> u8 \<times> u8 \<times> u8 \<times> cec_op_digital_service_id) option" where
  "cec_ops_set_digital_timer m digital = do {
     day \<leftarrow> rd m 2;
     month \<leftarrow> rd m 3;
     start_hr \<leftarrow> rd_bcd m 4;
     start_min \<leftarrow> rd_bcd m 5;
     duration_hr \<leftarrow> rd_bcd m 6;
     duration_min \<leftarrow> rd_bcd m 7;
     recording_seq \<leftarrow> rd m 8;
     digital \<leftarrow> cec_get_digital_service_id m 9 digital;
     Some (day, month, start_hr, start_min, duration_hr, duration_min, recording_seq, digital) }"

definition cec_msg_set_ext_timer :: "int \<Rightarrow> u8 \<Rightarrow> u8 \<Rightarrow> u8 \<Rightarrow> u8 \<Rightarrow> u8 \<Rightarrow> u8 \<Rightarrow> u8 \<Rightarrow> u8 \<Rightarrow> u8 \<Rightarrow> u16 \<Rightarrow>
    cec_stmt" where
  "cec_msg_set_ext_timer want_reply day month start_hr start_min duration_hr duration_min
      recording_seq ext_src_spec plug phys_addr = exec [
     set_len 13,
     wr 1 CEC_MSG_SET_EXT_TIMER,
     wr 2 day,
     wr 3 month,
     wr 4 (bcd start_hr),
     wr 5 (bcd start_min),
     wr 6 (bcd duration_hr),
     wr 7 (bcd duration_min),
     wr 8 recording_seq,
     wr 9 ext_src_spec,
     wr 10 plug,
     wr 11 (hi8 phys_addr),
     wr 12 (lo8 phys_addr),
     set_reply (reply_op want_reply CEC_MSG_TIMER_STATUS)]"

definition cec_ops_set_ext_timer :: "cec_msg \<Rightarrow> (u8 \<times> u8 \<times> u8 \<times> u8 \<times> u8 \<times> u8 \<times> u8 \<times> u8 \<times> u8 \<times> u16)
    option" where
  "cec_ops_set_ext_timer m = do {
     day \<leftarrow> rd m 2;
     month \<leftarrow> rd m 3;
     start_hr \<leftarrow> rd_bcd m 4;
     start_min \<leftarrow> rd_bcd m 5;
     duration_hr \<leftarrow> rd_bcd m 6;
     duration_min \<leftarrow> rd_bcd m 7;
     recording_seq \<leftarrow> rd m 8;
     ext_src_spec \<leftarrow> rd m 9;
     plug \<leftarrow> rd m 10;
     phys_addr \<leftarrow> rd_be16 m 11 12;
     Some (day, month, start_hr, start_min, duration_hr, duration_min, recording_seq,
         ext_src_spec, plug, phys_addr) }"

section \<open>Program title\<close>

definition cec_msg_set_timer_program_title :: "u8 list \<Rightarrow> cec_stmt" where
  "cec_msg_set_timer_program_title prog_title m = do {
     l \<leftarrow> c_strlen prog_title;
     let l = clip 14 l;
     exec [
       set_len (2 + of_nat l),
       wr 1 CEC_MSG_SET_TIMER_PROGRAM_TITLE,
       memcpy_to_msg 2 prog_title l] m }"

definition cec_ops_set_timer_program_title :: "cec_msg \<Rightarrow> u8 list \<Rightarrow> u8 list option" where
  "cec_ops_set_timer_program_title m prog_title =
     (let l = payload_len 2 14 m in do {
        prog_title \<leftarrow> memcpy_from_msg prog_title m 2 (unat l);
        store_byte prog_title (unat l) 0 })"

section \<open>Contracts\<close>

text \<open>
  The arguments of a timer status that its byte can carry: one bit of overlap warning, two
  of media information, four of the programmed or not-programmed information, of which only
  one is given.
\<close>

definition timer_status_valid :: "u8 \<times> u8 \<times> u8 \<times> u8 \<times> u8 \<times> u8 \<Rightarrow> bool" where
  "timer_status_valid = (\<lambda>(overlap, media, info, err, hr, mi).
     overlap < 2 \<and> media < 4 \<and> info < 16 \<and> err < 16 \<and> (info = 0 \<or> err = 0) \<and> hr < 160 \<and> mi < 160)"

definition timer_status_view :: "u8 \<times> u8 \<times> u8 \<times> u8 \<times> u8 \<times> u8 \<Rightarrow> u8 \<times> u8 \<times> u8 \<times> u8 \<times> u8 \<times> u8" where
  "timer_status_view = (\<lambda>(overlap, media, info, err, hr, mi).
     if timer_has_duration info err then (overlap, media, info, err, hr, mi)
     else (overlap, media, info, err, 0, 0))"

text \<open>A digital timer: its operands, with the abstract view of the service.\<close>

type_synonym digital_timer = "u8 \<times> u8 \<times> u8 \<times> u8 \<times> u8 \<times> u8 \<times> u8 \<times> cec_op_digital_service_id"

definition timer_view :: "digital_timer \<Rightarrow>
    u8 \<times> u8 \<times> u8 \<times> u8 \<times> u8 \<times> u8 \<times> u8 \<times> (u8 \<times> u8 \<times> digital_service)" where
  "timer_view = (\<lambda>(day, month, start_hr, start_min, duration_hr, duration_min, recording_seq,
      digital).
     (day, month, start_hr, start_min, duration_hr, duration_min, recording_seq, digital_view
         digital))"

definition digital_timer_valid :: "digital_timer \<Rightarrow> bool" where
  "digital_timer_valid =
     (\<lambda>(day, month, start_hr, start_min, duration_hr, duration_min, recording_seq, digital).
        start_hr < 160 \<and> start_min < 160 \<and> duration_hr < 160 \<and> duration_min < 160 \<and>
        digital_valid digital)"

lemma timer_status_byte:
  assumes "overlap < (2::u8)" and "media < (4::u8)" and "x < (16::u8)" and "flag = 0x10 \<or> flag = 0"
  defines "b \<equiv> to_u8 (push_bit 7 (promote overlap) OR push_bit 5 (promote media) OR
    (flag OR promote x))"
  shows "to_u8 (drop_bit 7 (promote b)) = overlap"
    and "to_u8 (drop_bit 5 (promote b) AND 3) = media"
    and "to_u8 (promote b AND 0xf) = x"
    and "promote b AND 0x10 = flag"
  using assms(4) unfolding b_def
  by (elim disjE; insert assms(1-3), simp add: below_pow2 bits8 bits32)+

lemma timer_status_code_fields:
  assumes "overlap < (2::u8)" and "media < (4::u8)" and "info < (16::u8)" and "err < (16::u8)"
  defines "b \<equiv> timer_status_code overlap media info err"
  shows "to_u8 (drop_bit 7 (promote b)) = overlap"
    and "to_u8 (drop_bit 5 (promote b) AND 3) = media"
    and "to_u8 (promote b AND 0xf) = (if info = 0 then err else info)"
    and "promote b AND 0x10 = 0 \<longleftrightarrow> info = 0"
proof -
  have b: "b = to_u8 (push_bit 7 (promote overlap) OR push_bit 5 (promote media) OR
      ((if info = 0 then 0 else 0x10) OR promote (if info = 0 then err else info)))"
    by (simp add: b_def timer_status_code_def)
  note fields = timer_status_byte [OF assms(1,2), of "if info = 0 then err else info"
      "if info = 0 then 0 else 0x10", folded b]
  show "to_u8 (drop_bit 7 (promote b)) = overlap" "to_u8 (drop_bit 5 (promote b) AND 3) = media"
    "to_u8 (promote b AND 0xf) = (if info = 0 then err else info)"
    "promote b AND 0x10 = 0 \<longleftrightarrow> info = 0"
    using fields assms(3,4) by auto
qed

interpretation timer_status: cec_codec
  "\<lambda>(overlap, media, info, err, hr, mi). cec_msg_timer_status overlap media info err hr mi"
  CEC_MSG_TIMER_STATUS False
  "\<lambda>(overlap, media, info, err, hr, mi). if timer_has_duration info err then 5 else 3"
  cec_ops_timer_status timer_status_view timer_status_valid
  by unfold_locales (auto simp: cec_msg_timer_status_def cec_ops_timer_status_def cec_simps
      wire_def Let_def timer_status_view_def timer_status_valid_def timer_status_code_fields
      split: if_splits)

interpretation timer_cleared_status: cec_codec "cec_msg_timer_cleared_status"
    CEC_MSG_TIMER_CLEARED_STATUS False "\<lambda>_. 3"
  cec_ops_timer_cleared_status "\<lambda>a. a" "\<lambda>_. True"
  by unfold_locales (auto simp: cec_msg_timer_cleared_status_def cec_ops_timer_cleared_status_def
      cec_simps wire_def)

interpretation clear_analogue_timer: cec_codec "\<lambda>(day, month, start_hr, start_min, duration_hr,
    duration_min, recording_seq, ana_bcast_type, ana_freq, bcast_system).
        cec_msg_clear_analogue_timer r day month start_hr start_min duration_hr duration_min
            recording_seq ana_bcast_type ana_freq bcast_system" CEC_MSG_CLEAR_ANALOGUE_TIMER False
                "\<lambda>_. 13"
  cec_ops_clear_analogue_timer "\<lambda>a. a" "\<lambda>(day, month, start_hr, start_min, duration_hr,
      duration_min, recording_seq, ana_bcast_type, ana_freq, bcast_system). start_hr < 160 \<and>
          start_min < 160 \<and> duration_hr < 160 \<and> duration_min < 160" for r
  by unfold_locales (auto simp: cec_msg_clear_analogue_timer_def cec_ops_clear_analogue_timer_def
      cec_simps wire_def)

interpretation clear_ext_timer: cec_codec "\<lambda>(day, month, start_hr, start_min, duration_hr,
    duration_min, recording_seq, ext_src_spec, plug, phys_addr). cec_msg_clear_ext_timer r day
        month start_hr start_min duration_hr duration_min recording_seq ext_src_spec plug
            phys_addr" CEC_MSG_CLEAR_EXT_TIMER False "\<lambda>_. 13"
  cec_ops_clear_ext_timer "\<lambda>a. a" "\<lambda>(day, month, start_hr, start_min, duration_hr, duration_min,
      recording_seq, ext_src_spec, plug, phys_addr). start_hr < 160 \<and> start_min < 160 \<and>
          duration_hr < 160 \<and> duration_min < 160" for r
  by unfold_locales (auto simp: cec_msg_clear_ext_timer_def cec_ops_clear_ext_timer_def cec_simps
      wire_def)

interpretation clear_digital_timer: cec_codec
  "\<lambda>(day, month, start_hr, start_min, duration_hr, duration_min, recording_seq, digital).
     cec_msg_clear_digital_timer r day month start_hr start_min duration_hr duration_min
         recording_seq
       digital"
  CEC_MSG_CLEAR_DIGITAL_TIMER False "\<lambda>_. 16"
  "\<lambda>r. map_option timer_view (cec_ops_clear_digital_timer r d0)" timer_view digital_timer_valid
  for r d0
  by unfold_locales (auto simp: cec_msg_clear_digital_timer_def cec_ops_clear_digital_timer_def
      cec_simps wire_def timer_view_def digital_timer_valid_def)

interpretation set_analogue_timer: cec_codec "\<lambda>(day, month, start_hr, start_min, duration_hr,
    duration_min, recording_seq, ana_bcast_type, ana_freq, bcast_system).
        cec_msg_set_analogue_timer r day month start_hr start_min duration_hr duration_min
            recording_seq ana_bcast_type ana_freq bcast_system" CEC_MSG_SET_ANALOGUE_TIMER False
                "\<lambda>_. 13"
  cec_ops_set_analogue_timer "\<lambda>a. a" "\<lambda>(day, month, start_hr, start_min, duration_hr,
      duration_min, recording_seq, ana_bcast_type, ana_freq, bcast_system). start_hr < 160 \<and>
          start_min < 160 \<and> duration_hr < 160 \<and> duration_min < 160" for r
  by unfold_locales (auto simp: cec_msg_set_analogue_timer_def cec_ops_set_analogue_timer_def
      cec_simps wire_def)

interpretation set_digital_timer: cec_codec
  "\<lambda>(day, month, start_hr, start_min, duration_hr, duration_min, recording_seq, digital).
     cec_msg_set_digital_timer r day month start_hr start_min duration_hr duration_min recording_seq
       digital"
  CEC_MSG_SET_DIGITAL_TIMER False "\<lambda>_. 16"
  "\<lambda>r. map_option timer_view (cec_ops_set_digital_timer r d0)" timer_view digital_timer_valid
  for r d0
  by unfold_locales (auto simp: cec_msg_set_digital_timer_def cec_ops_set_digital_timer_def
      cec_simps wire_def timer_view_def digital_timer_valid_def)

interpretation set_ext_timer: cec_codec "\<lambda>(day, month, start_hr, start_min, duration_hr,
    duration_min, recording_seq, ext_src_spec, plug, phys_addr). cec_msg_set_ext_timer r day month
        start_hr start_min duration_hr duration_min recording_seq ext_src_spec plug phys_addr"
            CEC_MSG_SET_EXT_TIMER False "\<lambda>_. 13"
  cec_ops_set_ext_timer "\<lambda>a. a" "\<lambda>(day, month, start_hr, start_min, duration_hr, duration_min,
      recording_seq, ext_src_spec, plug, phys_addr). start_hr < 160 \<and> start_min < 160 \<and>
          duration_hr < 160 \<and> duration_min < 160" for r
  by unfold_locales (auto simp: cec_msg_set_ext_timer_def cec_ops_set_ext_timer_def cec_simps
      wire_def)

text \<open>The title: cut to 14 bytes, terminated on arrival, never written past 15 bytes.\<close>

lemma program_title_wire:
  assumes "cec_wf m" and "0 \<in> set title"
    and "cec_msg_set_timer_program_title title m = Some m'" and "wire m' r" and "15 \<le> length buf"
  shows "\<exists>out. cec_ops_set_timer_program_title r buf = Some out \<and> length out = length buf \<and>
    c_string out = take 14 (c_string title)"
proof -
  let ?n = "clip 14 (length (c_string title))"
  let ?m = "put 1 CEC_MSG_SET_TIMER_PROGRAM_TITLE (m\<lparr>len := 2 + of_nat ?n\<rparr>)"
  have "m' = puts 2 (take ?n title) ?m"
    using assms(1-3)
    by (simp add: cec_msg_set_timer_program_title_def c_strlen_c_string cec_simps Let_def)
  with assms string_transfer [of ?m 2 14 ?n title r buf]
  show ?thesis
    by (simp add: cec_ops_set_timer_program_title_def Let_def cec_simps)
qed

section \<open>Further theorems\<close>

text \<open>
  A digital timer survives the wire, the service identification seen through its abstract value
  (ARIB/DVB, ATSC or channel), for every service whose fields fit and whose major channel number
  is below 256.
\<close>

theorem digital_timer_roundtrip:
  assumes "cec_wf m" and "start_hr < 160" and "start_min < 160" and "duration_hr < 160"
    and "duration_min < 160" and "digital_valid digital"
    and "cec_msg_set_digital_timer r day month start_hr start_min duration_hr duration_min
      recording_seq digital m = Some m'"
    and "wire m' rx"
  shows "\<exists>digital'. cec_ops_set_digital_timer rx d0 = Some (day, month, start_hr, start_min,
    duration_hr, duration_min, recording_seq, digital') \<and>
    digital_view digital' = digital_view digital"
proof -
  have "map_option timer_view (cec_ops_set_digital_timer rx d0) = Some (timer_view
      (day, month, start_hr, start_min, duration_hr, duration_min, recording_seq, digital))"
    by (rule set_digital_timer.parse_wire
        [of m "(day, month, start_hr, start_min, duration_hr, duration_min, recording_seq, digital)"])
      (use assms in \<open>simp_all add: digital_timer_valid_def\<close>)
  then show ?thesis
    by (auto simp: timer_view_def)
qed

text \<open>
  A program title arrives cut to 14 characters and terminated, in a buffer of at least 15 bytes
  that is not otherwise changed in length.
\<close>

theorem program_title_roundtrip:
  assumes "cec_wf m" and "0 \<in> set title" and "cec_msg_set_timer_program_title title m = Some m'"
    and "wire m' r" and "15 \<le> length buf"
  shows "\<exists>out. cec_ops_set_timer_program_title r buf = Some out \<and> length out = length buf \<and>
    c_string out = take 14 (c_string title)"
  using assms by (rule program_title_wire)

text \<open>
  A timer status survives the wire: the overlap flag, the media information, and either the
  programming information or the error, with the duration present exactly for the codes that
  carry one.
\<close>

theorem timer_status_roundtrip:
  assumes "cec_wf m" and "overlap < 2" and "media < 4" and "info < 16" and "err < 16"
    and "info = 0 \<or> err = 0" and "hr < 160" and "mi < 160"
    and "cec_msg_timer_status overlap media info err hr mi m = Some m'" and "wire m' rx"
  shows "cec_ops_timer_status rx = Some (timer_status_view (overlap, media, info, err, hr, mi))"
  by (rule timer_status.parse_wire [of m "(overlap, media, info, err, hr, mi)"])
    (use assms in \<open>simp_all add: timer_status_valid_def\<close>)

section \<open>Properties\<close>

text \<open>
  C10. An analogue timer survives the wire: what \<open>cec_msg_set_analogue_timer\<close>
  encodes (dates, BCD times below 160, recording sequence, broadcast type, frequency, system) is
  what \<open>cec_ops_set_analogue_timer\<close> returns from any message that agrees with it on
  the transmitted bytes.
\<close>

theorem analogue_timer_roundtrip:
  assumes "cec_wf m" and "start_hr < 160" and "start_min < 160" and "duration_hr < 160"
    and "duration_min < 160"
    and "cec_msg_set_analogue_timer r day month start_hr start_min duration_hr duration_min
      recording_seq ana_bcast_type ana_freq bcast_system m = Some m'"
    and "wire m' rx"
  shows "cec_ops_set_analogue_timer rx = Some (day, month, start_hr, start_min, duration_hr,
    duration_min, recording_seq, ana_bcast_type, ana_freq, bcast_system)"
  by (rule set_analogue_timer.parse_wire
      [of m "(day, month, start_hr, start_min, duration_hr, duration_min, recording_seq,
        ana_bcast_type, ana_freq, bcast_system)"])
    (use assms in simp_all)

theorem analogue_timer_roundtrip_witness:
  "Option.bind (cec_msg_set_analogue_timer 1 24 12 20 15 2 30 0 1 0x1234 5 blank_msg)
     cec_ops_set_analogue_timer = Some (24, 12, 20, 15, 2, 30, 0, 1, 0x1234, 5)"
proof -
  obtain m' where b: "cec_msg_set_analogue_timer 1 24 12 20 15 2 30 0 1 0x1234 5 blank_msg = Some m'"
    using set_analogue_timer.build_total [OF blank_wf, of 1 "(24, 12, 20, 15, 2, 30, 0, 1, 0x1234, 5)"]
    by auto
  then have "wire m' m'"
    using set_analogue_timer.build_effect [OF blank_wf, of 1 "(24, 12, 20, 15, 2, 30, 0, 1, 0x1234, 5)"]
    by (auto intro: wire_refl)
  from analogue_timer_roundtrip [OF blank_wf _ _ _ _ b this] b show ?thesis
    by simp
qed

end
