(* ===== verification/Cec_System.thy ===== *)
theory Cec_System
  imports Cec_Message Cec_Opcodes
begin

text \<open>
  The System Information feature of \<^verbatim>\<open>linux/cec-funcs.h\<close>: CEC version, physical address,
  menu language and the feature report. \<open>cec_ops_report_features\<close> returns pointers into the
  payload, modelled as offsets (\<open>None\<close> for \<open>NULL\<close>); its loop over extension bytes is
  \<open>scan_ext\<close>, a terminating recursion.
\<close>

section \<open>Versions and addresses\<close>

definition cec_msg_cec_version :: "u8 \<Rightarrow> cec_stmt" where
  "cec_msg_cec_version cec_version = exec [
     set_len 3,
     wr 1 CEC_MSG_CEC_VERSION,
     wr 2 cec_version]"

definition cec_ops_cec_version :: "cec_msg \<Rightarrow> (u8) option" where
  "cec_ops_cec_version m = do {
     cec_version \<leftarrow> rd m 2;
     Some (cec_version) }"

definition cec_msg_get_cec_version :: "int \<Rightarrow> cec_stmt" where
  "cec_msg_get_cec_version want_reply = exec [
     set_len 2,
     wr 1 CEC_MSG_GET_CEC_VERSION,
     set_reply (reply_op want_reply CEC_MSG_CEC_VERSION)]"

definition cec_msg_report_physical_addr :: "u16 \<Rightarrow> u8 \<Rightarrow> cec_stmt" where
  "cec_msg_report_physical_addr phys_addr prim_devtype = exec [
     set_len 5,
     or_broadcast,
     wr 1 CEC_MSG_REPORT_PHYSICAL_ADDR,
     wr 2 (hi8 phys_addr),
     wr 3 (lo8 phys_addr),
     wr 4 prim_devtype]"

definition cec_ops_report_physical_addr :: "cec_msg \<Rightarrow> (u16 \<times> u8) option" where
  "cec_ops_report_physical_addr m = do {
     phys_addr \<leftarrow> rd_be16 m 2 3;
     prim_devtype \<leftarrow> rd m 4;
     Some (phys_addr, prim_devtype) }"

definition cec_msg_give_physical_addr :: "int \<Rightarrow> cec_stmt" where
  "cec_msg_give_physical_addr want_reply = exec [
     set_len 2,
     wr 1 CEC_MSG_GIVE_PHYSICAL_ADDR,
     set_reply (reply_op want_reply CEC_MSG_REPORT_PHYSICAL_ADDR)]"

section \<open>Menu language\<close>

definition cec_msg_set_menu_language :: "u8 list \<Rightarrow> cec_stmt" where
  "cec_msg_set_menu_language language = exec [
     set_len 5,
     or_broadcast,
     wr 1 CEC_MSG_SET_MENU_LANGUAGE,
     memcpy_to_msg 2 language 3]"

definition cec_ops_set_menu_language :: "cec_msg \<Rightarrow> u8 list \<Rightarrow> u8 list option" where
  "cec_ops_set_menu_language m language = do {
     language \<leftarrow> memcpy_from_msg language m 2 3;
     store_byte language 3 0 }"

definition cec_msg_get_menu_language :: "int \<Rightarrow> cec_stmt" where
  "cec_msg_get_menu_language want_reply = exec [
     set_len 2,
     wr 1 CEC_MSG_GET_MENU_LANGUAGE,
     set_reply (reply_op want_reply CEC_MSG_SET_MENU_LANGUAGE)]"

section \<open>Features\<close>

definition cec_msg_report_features :: "u8 \<Rightarrow> u8 \<Rightarrow> u8 \<Rightarrow> u8 \<Rightarrow> cec_stmt" where
  "cec_msg_report_features cec_version all_device_types rc_profile dev_features = exec [
     set_len 6,
     or_broadcast,
     wr 1 CEC_MSG_REPORT_FEATURES,
     wr 2 cec_version,
     wr 3 all_device_types,
     wr 4 rc_profile,
     wr 5 dev_features]"

text \<open>\<open>while (p < &msg->msg[lim] && (*p & CEC_OP_FEAT_EXT)) p++;\<close>\<close>

function scan_ext :: "cec_msg \<Rightarrow> nat \<Rightarrow> nat \<Rightarrow> nat option" where
  "scan_ext m lim p =
     (if p < lim then
        (case rd m p of
           None \<Rightarrow> None
         | Some b \<Rightarrow> if b AND CEC_OP_FEAT_EXT \<noteq> 0 then scan_ext m lim (Suc p) else Some p)
      else Some p)"
  by pat_completeness auto
termination
  by (relation "measure (\<lambda>(m, lim, p). lim - p)") auto

declare scan_ext.simps [simp del]

definition cec_ops_report_features ::
  "cec_msg \<Rightarrow> (u8 \<times> u8 \<times> nat option \<times> nat option) option" where
  "cec_ops_report_features m = do {
     let p = 4;
     cec_version \<leftarrow> rd m 2;
     all_device_types \<leftarrow> rd m 3;
     let rc_profile = Some p;
     let dev_features = None;
     p \<leftarrow> scan_ext m 14 p;
     b \<leftarrow> rd m p;
     (p, dev_features) \<leftarrow>
       (if b AND CEC_OP_FEAT_EXT = 0 then do {
          q \<leftarrow> scan_ext m 15 p;
          Some (q, Some (p + 1)) }
        else Some (p, dev_features));
     b \<leftarrow> rd m p;
     if b AND CEC_OP_FEAT_EXT \<noteq> 0 then Some (cec_version, all_device_types, None, None)
     else Some (cec_version, all_device_types, rc_profile, dev_features) }"

definition cec_msg_give_features :: "int \<Rightarrow> cec_stmt" where
  "cec_msg_give_features want_reply = exec [
     set_len 2,
     wr 1 CEC_MSG_GIVE_FEATURES,
     set_reply (reply_op want_reply CEC_MSG_REPORT_FEATURES)]"

section \<open>Contracts\<close>

interpretation cec_version: cec_codec "cec_msg_cec_version" CEC_MSG_CEC_VERSION False "\<lambda>_. 3"
  cec_ops_cec_version "\<lambda>a. a" "\<lambda>_. True"
  by unfold_locales (auto simp: cec_msg_cec_version_def cec_ops_cec_version_def cec_simps wire_def)

interpretation get_cec_version: cec_builder "\<lambda>_ :: unit. cec_msg_get_cec_version r"
    CEC_MSG_GET_CEC_VERSION False "\<lambda>_. 2" for r
  by unfold_locales (auto simp: cec_msg_get_cec_version_def cec_simps)

interpretation report_physical_addr: cec_codec "\<lambda>(phys_addr, prim_devtype).
    cec_msg_report_physical_addr phys_addr prim_devtype" CEC_MSG_REPORT_PHYSICAL_ADDR True "\<lambda>_. 5"
  cec_ops_report_physical_addr "\<lambda>a. a" "\<lambda>_. True"
  by unfold_locales (auto simp: cec_msg_report_physical_addr_def cec_ops_report_physical_addr_def
      cec_simps wire_def)

interpretation give_physical_addr: cec_builder "\<lambda>_ :: unit. cec_msg_give_physical_addr r"
    CEC_MSG_GIVE_PHYSICAL_ADDR False "\<lambda>_. 2" for r
  by unfold_locales (auto simp: cec_msg_give_physical_addr_def cec_simps)

interpretation get_menu_language: cec_builder "\<lambda>_ :: unit. cec_msg_get_menu_language r"
    CEC_MSG_GET_MENU_LANGUAGE False "\<lambda>_. 2" for r
  by unfold_locales (auto simp: cec_msg_get_menu_language_def cec_simps)

interpretation give_features: cec_builder "\<lambda>_ :: unit. cec_msg_give_features r"
    CEC_MSG_GIVE_FEATURES False "\<lambda>_. 2" for r
  by unfold_locales (auto simp: cec_msg_give_features_def cec_simps)

text \<open>The language code: three bytes, terminated on arrival.\<close>

lemma set_menu_language_wire:
  assumes "cec_wf m" and "cec_msg_set_menu_language lang m = Some m'" and "wire m' r"
    and "4 \<le> length buf"
  shows "cec_ops_set_menu_language r buf = Some (take 3 lang @ 0 # drop 4 buf)"
proof -
  from assms(1,2) have len: "3 \<le> length lang"
    by (auto simp: cec_msg_set_menu_language_def cec_simps memcpy_to_msg_def split: if_splits)
  let ?m = "put 1 CEC_MSG_SET_MENU_LANGUAGE (put 0 (byte m 0 OR 0xf) (m\<lparr>len := 5\<rparr>))"
  from assms(1,2) len have m': "m' = puts 2 (take 3 lang) ?m"
    by (simp add: cec_msg_set_menu_language_def cec_simps)
  have "payload r 2 3 = payload m' 2 3"
    by (rule payload_wire [OF assms(3)]) (simp add: m' cec_simps)
  also have "\<dots> = take 3 lang"
    using payload_puts [of ?m 2 "take 3 lang"] assms(1) len by (simp add: m' cec_simps)
  finally show ?thesis
    using assms(3,4) copy_out_string [of r 2 3 buf]
    by (simp add: cec_ops_set_menu_language_def wireD)
qed

text \<open>The scan stops at the first byte without the extension bit, or at the limit.\<close>

lemma scan_ext_spec:
  assumes "cec_wf m" and "p \<le> lim" and "lim \<le> 16"
  shows "\<exists>q. scan_ext m lim p = Some q \<and> p \<le> q \<and> q \<le> lim \<and>
    (\<forall>i. p \<le> i \<and> i < q \<longrightarrow> byte m i AND CEC_OP_FEAT_EXT \<noteq> 0) \<and>
    (q < lim \<longrightarrow> byte m q AND CEC_OP_FEAT_EXT = 0)"
  using assms
proof (induction m lim p rule: scan_ext.induct)
  case (1 m lim p)
  show ?case
  proof (cases "p < lim \<and> byte m p AND CEC_OP_FEAT_EXT \<noteq> 0")
    case True
    with "1.prems" have "rd m p = Some (byte m p)"
      by (simp add: cec_simps)
    with "1.IH" [of "byte m p"] "1.prems" True obtain q where
      q: "scan_ext m lim (Suc p) = Some q" "Suc p \<le> q" "q \<le> lim"
        "\<And>i. Suc p \<le> i \<Longrightarrow> i < q \<Longrightarrow> byte m i AND CEC_OP_FEAT_EXT \<noteq> 0"
        "q < lim \<Longrightarrow> byte m q AND CEC_OP_FEAT_EXT = 0"
      by auto
    moreover have "scan_ext m lim p = Some q"
      using True q(1) \<open>rd m p = Some (byte m p)\<close> by (simp add: scan_ext.simps [of m lim p])
    moreover have "\<forall>i. p \<le> i \<and> i < q \<longrightarrow> byte m i AND CEC_OP_FEAT_EXT \<noteq> 0"
      using True q(4) by (metis Suc_leI le_neq_implies_less)
    ultimately show ?thesis by auto
  next
    case False
    with "1.prems" have "scan_ext m lim p = Some p"
      by (auto simp: scan_ext.simps [of m lim p] cec_simps)
    with False "1.prems" show ?thesis by auto
  qed
qed

text \<open>
  What \<open>cec_ops_report_features\<close> returns: with \<open>q\<close> the first byte of \<open>msg[4..14]\<close> without the
  extension bit, the RC profile starts at 4 and the device features at \<open>q + 1\<close>; without such
  a byte, both are \<open>NULL\<close>.
\<close>

lemma report_features_found:
  assumes "cec_wf m" and "4 \<le> q" and "q \<le> 14" and "byte m q AND CEC_OP_FEAT_EXT = 0"
    and "\<And>i. 4 \<le> i \<Longrightarrow> i < q \<Longrightarrow> byte m i AND CEC_OP_FEAT_EXT \<noteq> 0"
  shows "cec_ops_report_features m = Some (byte m 2, byte m 3, Some 4, Some (q + 1))"
proof -
  obtain q' where q': "scan_ext m 14 4 = Some q'" "4 \<le> q'" "q' \<le> 14"
      "\<And>i. 4 \<le> i \<Longrightarrow> i < q' \<Longrightarrow> byte m i AND CEC_OP_FEAT_EXT \<noteq> 0"
      "q' < 14 \<Longrightarrow> byte m q' AND CEC_OP_FEAT_EXT = 0"
    using scan_ext_spec [OF assms(1), of 4 14] by auto
  have "q' = q"
  proof (rule linorder_cases [of q' q])
    assume "q' < q"
    with assms(3,5) q'(2,5) show ?thesis by force
  next
    assume "q < q'"
    with assms(2,4) q'(4) show ?thesis by force
  qed
  moreover have "scan_ext m 15 q = Some q"
    using assms(1,3,4) by (simp add: scan_ext.simps [of m 15 q] cec_simps)
  ultimately show ?thesis
    using assms q'(1) by (simp add: cec_ops_report_features_def cec_simps)
qed

lemma report_features_missing:
  assumes "cec_wf m" and "\<And>i. 4 \<le> i \<Longrightarrow> i \<le> 14 \<Longrightarrow> byte m i AND CEC_OP_FEAT_EXT \<noteq> 0"
  shows "cec_ops_report_features m = Some (byte m 2, byte m 3, None, None)"
proof -
  obtain q' where q': "scan_ext m 14 4 = Some q'" "4 \<le> q'" "q' \<le> 14"
      "q' < 14 \<Longrightarrow> byte m q' AND CEC_OP_FEAT_EXT = 0"
    using scan_ext_spec [OF assms(1), of 4 14] by auto
  with assms(2) have "byte m q' AND CEC_OP_FEAT_EXT \<noteq> 0" by simp
  with q' assms(1) show ?thesis
    by (simp add: cec_ops_report_features_def cec_simps)
qed

definition report_features_valid :: "u8 \<times> u8 \<times> u8 \<times> u8 \<Rightarrow> bool" where
  "report_features_valid = (\<lambda>(ver, types, rc, dev). rc AND CEC_OP_FEAT_EXT = 0)"

interpretation report_features: cec_codec
  "\<lambda>(ver, types, rc, dev). cec_msg_report_features ver types rc dev"
  CEC_MSG_REPORT_FEATURES True "\<lambda>_. 6"
  "\<lambda>r. do { (ver, types, rc, dev) \<leftarrow> cec_ops_report_features r; rc \<leftarrow> rc; dev \<leftarrow> dev;
       rc \<leftarrow> rd r rc; dev \<leftarrow> rd r dev; Some (ver, types, rc, dev) }"
  "\<lambda>a. a" report_features_valid
proof (unfold_locales, goal_cases)
  case (5 m a m' r)
  obtain ver types rc dev where a: "a = (ver, types, rc, dev)" by (cases a) auto
  with 5 have r: "cec_wf r" "byte r 2 = ver" "byte r 3 = types" "byte r 4 = rc" "byte r 5 = dev"
    by (auto simp: cec_msg_report_features_def cec_simps wire_def)
  with report_features_found [of r 4] 5(2) a show ?case
    by (auto simp: cec_simps report_features_valid_def)
qed (auto simp: cec_msg_report_features_def cec_simps)

section \<open>Properties\<close>

text \<open>
  C34. Where \<open>cec_ops_report_features\<close> finds its two variable-length operands: the
  RC profile at byte 4 and the device features after the first byte of 4 to 14 without the
  extension bit; without such a byte both pointers are NULL. Nothing after that byte is looked
  at, so device features that do not end are returned too.
\<close>

theorem features_located:
  assumes "cec_wf m"
  shows "(\<forall>i \<in> {4..14}. msg m ! i AND CEC_OP_FEAT_EXT \<noteq> 0) \<and>
      cec_ops_report_features m = Some (msg m ! 2, msg m ! 3, None, None) \<or>
    (\<exists>q \<in> {4..14}. msg m ! q AND CEC_OP_FEAT_EXT = 0 \<and>
      (\<forall>i \<in> {4..<q}. msg m ! i AND CEC_OP_FEAT_EXT \<noteq> 0) \<and>
      cec_ops_report_features m = Some (msg m ! 2, msg m ! 3, Some 4, Some (q + 1)))"
proof (cases "\<forall>i \<in> {4..14}. byte m i AND CEC_OP_FEAT_EXT \<noteq> 0")
  case True
  with report_features_missing [OF assms] show ?thesis
    by (simp add: byte_def)
next
  case False
  define q where "q = (LEAST i. 4 \<le> i \<and> byte m i AND CEC_OP_FEAT_EXT = 0)"
  obtain i where i: "4 \<le> i" "i \<le> 14" "byte m i AND CEC_OP_FEAT_EXT = 0"
    using False by auto
  have q: "4 \<le> q" "byte m q AND CEC_OP_FEAT_EXT = 0" "q \<le> i"
    using LeastI [of "\<lambda>i. 4 \<le> i \<and> byte m i AND CEC_OP_FEAT_EXT = 0" i] i
      Least_le [of "\<lambda>i. 4 \<le> i \<and> byte m i AND CEC_OP_FEAT_EXT = 0" i]
    by (auto simp: q_def)
  have below: "byte m j AND CEC_OP_FEAT_EXT \<noteq> 0" if "4 \<le> j" "j < q" for j
    using not_less_Least [of j "\<lambda>i. 4 \<le> i \<and> byte m i AND CEC_OP_FEAT_EXT = 0"] that
    by (auto simp: q_def)
  have "cec_ops_report_features m = Some (byte m 2, byte m 3, Some 4, Some (q + 1))"
    using assms q i below by (intro report_features_found) auto
  with q i below show ?thesis
    by (intro disjI2 bexI [of _ q]) (auto simp: byte_def)
qed

theorem features_located_witness:
  "cec_ops_report_features (blank_msg\<lparr>msg := replicate 5 0x80 @ 0 # replicate 10 0x80\<rparr>) =
     Some (0x80, 0x80, Some 4, Some 6)"
proof -
  let ?m = "blank_msg\<lparr>msg := replicate 5 0x80 @ 0 # replicate 10 0x80\<rparr>"
  have wf: "cec_wf ?m"
    by (simp add: cec_wf_def)
  have "msg ?m ! 5 AND CEC_OP_FEAT_EXT = 0"
    by (simp add: nth_append)
  moreover have "(5::nat) \<in> {4..14}"
    by simp
  ultimately have no: "\<not> (\<forall>i \<in> {4..14}. msg ?m ! i AND CEC_OP_FEAT_EXT \<noteq> 0)"
    by blast
  obtain q where q: "q \<in> {4..14}" "msg ?m ! q AND CEC_OP_FEAT_EXT = 0"
      "\<forall>i \<in> {4..<q}. msg ?m ! i AND CEC_OP_FEAT_EXT \<noteq> 0"
      "cec_ops_report_features ?m = Some (msg ?m ! 2, msg ?m ! 3, Some 4, Some (q + 1))"
    using features_located [OF wf] no by blast
  have "q \<noteq> 4"
    using q(2) by (auto simp: nth_append)
  moreover have "\<not> 5 < q"
    using q(1) bspec [OF q(3), of 5] by (auto simp: nth_append)
  ultimately have "q = 5"
    using q(1) by auto
  with q(4) show ?thesis
    by (simp add: nth_append)
qed

end
