(* ===== verification/Cec_Tuner.thy ===== *)
theory Cec_Tuner
  imports Cec_Record
begin

text \<open>
  The Deck Control and Tuner Control features of \<^verbatim>\<open>linux/cec-funcs.h\<close>. The tuner device
  status chooses between an analogue and a digital layout; the parser tells them apart by
  the length of the message (\<open>msg->len < 10\<close>). The union of
  \<open>struct cec_op_tuner_device_info\<close> is modelled by its storage, as in \<open>Cec_Record\<close>.
\<close>

section \<open>Deck Control\<close>

definition cec_msg_deck_control :: "u8 \<Rightarrow> cec_stmt" where
  "cec_msg_deck_control deck_control_mode = exec [
     set_len 3,
     wr 1 CEC_MSG_DECK_CONTROL,
     wr 2 deck_control_mode]"

definition cec_ops_deck_control :: "cec_msg \<Rightarrow> (u8) option" where
  "cec_ops_deck_control m = do {
     deck_control_mode \<leftarrow> rd m 2;
     Some (deck_control_mode) }"

definition cec_msg_deck_status :: "u8 \<Rightarrow> cec_stmt" where
  "cec_msg_deck_status deck_info = exec [
     set_len 3,
     wr 1 CEC_MSG_DECK_STATUS,
     wr 2 deck_info]"

definition cec_ops_deck_status :: "cec_msg \<Rightarrow> (u8) option" where
  "cec_ops_deck_status m = do {
     deck_info \<leftarrow> rd m 2;
     Some (deck_info) }"

definition cec_msg_give_deck_status :: "int \<Rightarrow> u8 \<Rightarrow> cec_stmt" where
  "cec_msg_give_deck_status want_reply status_req = exec [
     set_len 3,
     wr 1 CEC_MSG_GIVE_DECK_STATUS,
     wr 2 status_req,
     set_reply (reply_op want_reply CEC_MSG_DECK_STATUS)]"

definition cec_ops_give_deck_status :: "cec_msg \<Rightarrow> (u8) option" where
  "cec_ops_give_deck_status m = do {
     status_req \<leftarrow> rd m 2;
     Some (status_req) }"

definition cec_msg_play :: "u8 \<Rightarrow> cec_stmt" where
  "cec_msg_play play_mode = exec [
     set_len 3,
     wr 1 CEC_MSG_PLAY,
     wr 2 play_mode]"

definition cec_ops_play :: "cec_msg \<Rightarrow> (u8) option" where
  "cec_ops_play m = do {
     play_mode \<leftarrow> rd m 2;
     Some (play_mode) }"

section \<open>Tuner Control\<close>

record cec_op_tuner_device_info =
  rec_flag :: u8
  tuner_display_info :: u8
  is_analog :: u8
  tu0 :: u16
  tu1 :: u16
  tu2 :: u16
  tu3 :: u16

definition tuner_digital :: "cec_op_tuner_device_info \<Rightarrow> cec_op_digital_service_id" where
  "tuner_digital t = \<lparr>service_id_method = lo8 (tu0 t), dig_bcast_system = hi8 (tu0 t),
     du0 = tu1 t, du1 = tu2 t, du2 = tu3 t\<rparr>"

definition tuner_set_digital ::
  "cec_op_digital_service_id \<Rightarrow> cec_op_tuner_device_info \<Rightarrow> cec_op_tuner_device_info" where
  "tuner_set_digital d t = t\<lparr>tu0 := be16 (dig_bcast_system d) (service_id_method d),
     tu1 := du0 d, tu2 := du1 d, tu3 := du2 d\<rparr>"

abbreviation (input) "tuner_ana_bcast_type t \<equiv> lo8 (tu0 t)"
abbreviation (input) "tuner_ana_freq \<equiv> tu1"
abbreviation (input) "tuner_bcast_system t \<equiv> lo8 (tu2 t)"

text \<open>\<open>(rec_flag << 7) | tuner_display_info\<close>.\<close>

definition tuner_flags :: "u8 \<Rightarrow> u8 \<Rightarrow> u8" where
  "tuner_flags flag info = to_u8 (push_bit 7 (promote flag) OR promote info)"

definition cec_msg_tuner_device_status_analog :: "u8 \<Rightarrow> u8 \<Rightarrow> u8 \<Rightarrow> u16 \<Rightarrow> u8 \<Rightarrow> cec_stmt" where
  "cec_msg_tuner_device_status_analog flag info ana_bcast_type ana_freq bcast_system = exec [
     set_len 7,
     wr 1 CEC_MSG_TUNER_DEVICE_STATUS,
     wr 2 (tuner_flags flag info),
     wr 3 ana_bcast_type,
     wr 4 (hi8 ana_freq),
     wr 5 (lo8 ana_freq),
     wr 6 bcast_system]"

definition cec_msg_tuner_device_status_digital ::
  "u8 \<Rightarrow> u8 \<Rightarrow> cec_op_digital_service_id \<Rightarrow> cec_stmt" where
  "cec_msg_tuner_device_status_digital flag info digital = exec [
     set_len 10,
     wr 1 CEC_MSG_TUNER_DEVICE_STATUS,
     wr 2 (tuner_flags flag info),
     cec_set_digital_service_id 3 digital]"

definition cec_msg_tuner_device_status :: "cec_op_tuner_device_info \<Rightarrow> cec_stmt" where
  "cec_msg_tuner_device_status info =
     (if is_analog info \<noteq> 0 then
        cec_msg_tuner_device_status_analog (rec_flag info) (tuner_display_info info)
          (tuner_ana_bcast_type info) (tuner_ana_freq info) (tuner_bcast_system info)
      else cec_msg_tuner_device_status_digital (rec_flag info) (tuner_display_info info)
          (tuner_digital info))"

definition cec_ops_tuner_device_status ::
  "cec_msg \<Rightarrow> cec_op_tuner_device_info \<Rightarrow> cec_op_tuner_device_info option" where
  "cec_ops_tuner_device_status m info = do {
     b2 \<leftarrow> rd m 2;
     let info = info\<lparr>is_analog := (if len m < 10 then 1 else 0),
                     rec_flag := to_u8 (drop_bit 7 (promote b2)),
                     tuner_display_info := to_u8 (promote b2 AND 0x7f)\<rparr>;
     if is_analog info \<noteq> 0 then do {
       ana_bcast_type \<leftarrow> rd m 3;
       ana_freq \<leftarrow> rd_be16 m 4 5;
       bcast_system \<leftarrow> rd m 6;
       Some (info\<lparr>tu0 := set_lo8 ana_bcast_type (tu0 info), tu1 := ana_freq,
                  tu2 := set_lo8 bcast_system (tu2 info)\<rparr>) }
     else do {
       d \<leftarrow> cec_get_digital_service_id m 3 (tuner_digital info);
       Some (tuner_set_digital d info) } }"

definition cec_msg_give_tuner_device_status :: "int \<Rightarrow> u8 \<Rightarrow> cec_stmt" where
  "cec_msg_give_tuner_device_status want_reply status_req = exec [
     set_len 3,
     wr 1 CEC_MSG_GIVE_TUNER_DEVICE_STATUS,
     wr 2 status_req,
     set_reply (reply_op want_reply CEC_MSG_TUNER_DEVICE_STATUS)]"

definition cec_ops_give_tuner_device_status :: "cec_msg \<Rightarrow> (u8) option" where
  "cec_ops_give_tuner_device_status m = do {
     status_req \<leftarrow> rd m 2;
     Some (status_req) }"

definition cec_msg_select_analogue_service :: "u8 \<Rightarrow> u16 \<Rightarrow> u8 \<Rightarrow> cec_stmt" where
  "cec_msg_select_analogue_service ana_bcast_type ana_freq bcast_system = exec [
     set_len 6,
     wr 1 CEC_MSG_SELECT_ANALOGUE_SERVICE,
     wr 2 ana_bcast_type,
     wr 3 (hi8 ana_freq),
     wr 4 (lo8 ana_freq),
     wr 5 bcast_system]"

definition cec_ops_select_analogue_service :: "cec_msg \<Rightarrow> (u8 \<times> u16 \<times> u8) option" where
  "cec_ops_select_analogue_service m = do {
     ana_bcast_type \<leftarrow> rd m 2;
     ana_freq \<leftarrow> rd_be16 m 3 4;
     bcast_system \<leftarrow> rd m 5;
     Some (ana_bcast_type, ana_freq, bcast_system) }"

definition cec_msg_select_digital_service :: "cec_op_digital_service_id \<Rightarrow> cec_stmt" where
  "cec_msg_select_digital_service digital = exec [
     set_len 9,
     wr 1 CEC_MSG_SELECT_DIGITAL_SERVICE,
     cec_set_digital_service_id 2 digital]"

definition cec_ops_select_digital_service ::
  "cec_msg \<Rightarrow> cec_op_digital_service_id \<Rightarrow> cec_op_digital_service_id option" where
  "cec_ops_select_digital_service m digital = cec_get_digital_service_id m 2 digital"

definition cec_msg_tuner_step_decrement :: "cec_stmt" where
  "cec_msg_tuner_step_decrement = exec [
     set_len 2,
     wr 1 CEC_MSG_TUNER_STEP_DECREMENT]"

definition cec_msg_tuner_step_increment :: "cec_stmt" where
  "cec_msg_tuner_step_increment = exec [
     set_len 2,
     wr 1 CEC_MSG_TUNER_STEP_INCREMENT]"

section \<open>Abstract view\<close>

datatype tuner_service =
    TunerAnalogue u8 u16 u8
  | TunerDigital "u8 \<times> u8 \<times> digital_service"

definition tuner_view :: "cec_op_tuner_device_info \<Rightarrow> u8 \<times> u8 \<times> tuner_service" where
  "tuner_view t = (rec_flag t, tuner_display_info t,
     if is_analog t \<noteq> 0
     then TunerAnalogue (tuner_ana_bcast_type t) (tuner_ana_freq t) (tuner_bcast_system t)
     else TunerDigital (digital_view (tuner_digital t)))"

definition tuner_valid :: "cec_op_tuner_device_info \<Rightarrow> bool" where
  "tuner_valid t \<longleftrightarrow> rec_flag t < 2 \<and> tuner_display_info t < 128 \<and>
     (is_analog t = 0 \<longrightarrow> digital_valid (tuner_digital t))"

section \<open>Contracts\<close>

lemma tuner_flags_fields:
  assumes "flag < 2" and "info < (128::u8)"
  shows "to_u8 (drop_bit 7 (promote (tuner_flags flag info))) = (flag::u8)"
    and "to_u8 (promote (tuner_flags flag info) AND 0x7f) = info"
  using service_byte [OF assms] by (simp_all add: tuner_flags_def)

lemma tuner_digital_set [simp]:
  "tuner_digital (tuner_set_digital d t) = d"
  "rec_flag (tuner_set_digital d t) = rec_flag t"
  "tuner_display_info (tuner_set_digital d t) = tuner_display_info t"
  "is_analog (tuner_set_digital d t) = is_analog t"
  by (simp_all add: tuner_digital_def tuner_set_digital_def)

interpretation deck_control: cec_codec "cec_msg_deck_control" CEC_MSG_DECK_CONTROL False "\<lambda>_. 3"
  cec_ops_deck_control "\<lambda>a. a" "\<lambda>_. True"
  by unfold_locales (auto simp: cec_msg_deck_control_def cec_ops_deck_control_def cec_simps
      wire_def)

interpretation deck_status: cec_codec "cec_msg_deck_status" CEC_MSG_DECK_STATUS False "\<lambda>_. 3"
  cec_ops_deck_status "\<lambda>a. a" "\<lambda>_. True"
  by unfold_locales (auto simp: cec_msg_deck_status_def cec_ops_deck_status_def cec_simps wire_def)

interpretation give_deck_status: cec_codec "cec_msg_give_deck_status r" CEC_MSG_GIVE_DECK_STATUS
    False "\<lambda>_. 3"
  cec_ops_give_deck_status "\<lambda>a. a" "\<lambda>_. True" for r
  by unfold_locales (auto simp: cec_msg_give_deck_status_def cec_ops_give_deck_status_def
      cec_simps wire_def)

interpretation play: cec_codec "cec_msg_play" CEC_MSG_PLAY False "\<lambda>_. 3"
  cec_ops_play "\<lambda>a. a" "\<lambda>_. True"
  by unfold_locales (auto simp: cec_msg_play_def cec_ops_play_def cec_simps wire_def)

interpretation tuner_device_status: cec_codec cec_msg_tuner_device_status
  CEC_MSG_TUNER_DEVICE_STATUS False "\<lambda>t. if is_analog t \<noteq> 0 then 7 else 10"
  "\<lambda>r. map_option tuner_view (cec_ops_tuner_device_status r t0)" tuner_view tuner_valid for t0
  by unfold_locales (auto simp: cec_msg_tuner_device_status_def
      cec_msg_tuner_device_status_analog_def cec_msg_tuner_device_status_digital_def
      cec_ops_tuner_device_status_def cec_simps wire_def tuner_view_def tuner_valid_def Let_def
      tuner_flags_fields split: if_splits)

interpretation give_tuner_device_status: cec_codec "cec_msg_give_tuner_device_status r"
    CEC_MSG_GIVE_TUNER_DEVICE_STATUS False "\<lambda>_. 3"
  cec_ops_give_tuner_device_status "\<lambda>a. a" "\<lambda>_. True" for r
  by unfold_locales (auto simp: cec_msg_give_tuner_device_status_def
      cec_ops_give_tuner_device_status_def cec_simps wire_def)

interpretation select_analogue_service: cec_codec "\<lambda>(ana_bcast_type, ana_freq, bcast_system).
    cec_msg_select_analogue_service ana_bcast_type ana_freq bcast_system"
        CEC_MSG_SELECT_ANALOGUE_SERVICE False "\<lambda>_. 6"
  cec_ops_select_analogue_service "\<lambda>a. a" "\<lambda>_. True"
  by unfold_locales (auto simp: cec_msg_select_analogue_service_def
      cec_ops_select_analogue_service_def cec_simps wire_def)

interpretation select_digital_service: cec_codec cec_msg_select_digital_service
  CEC_MSG_SELECT_DIGITAL_SERVICE False "\<lambda>_. 9"
  "\<lambda>r. map_option digital_view (cec_ops_select_digital_service r d0)" digital_view digital_valid
  for d0
  by unfold_locales (auto simp: cec_msg_select_digital_service_def
      cec_ops_select_digital_service_def cec_simps wire_def)

interpretation tuner_step_decrement: cec_builder "\<lambda>_ :: unit. cec_msg_tuner_step_decrement"
    CEC_MSG_TUNER_STEP_DECREMENT False "\<lambda>_. 2"
  by unfold_locales (auto simp: cec_msg_tuner_step_decrement_def cec_simps)

interpretation tuner_step_increment: cec_builder "\<lambda>_ :: unit. cec_msg_tuner_step_increment"
    CEC_MSG_TUNER_STEP_INCREMENT False "\<lambda>_. 2"
  by unfold_locales (auto simp: cec_msg_tuner_step_increment_def cec_simps)

text \<open>A concrete service: ATSC channel 513.7.\<close>

definition high_channel :: cec_op_digital_service_id where
  "high_channel = \<lparr>service_id_method = CEC_OP_SERVICE_ID_METHOD_BY_CHANNEL, dig_bcast_system = 1,
     du0 = 2, du1 = 0x201, du2 = 7\<rparr>"

definition sample_tuner :: cec_op_tuner_device_info where
  "sample_tuner = \<lparr>rec_flag = 1, tuner_display_info = 2, is_analog = 1, tu0 = 1, tu1 = 0x1234,
     tu2 = 5, tu3 = 0\<rparr>"

section \<open>Further theorems\<close>

text \<open>
  A tuner device status survives the wire in both its forms: the receiver tells an analogue from
  a digital report by the length and recovers the flags and the service.
\<close>

theorem tuner_status_roundtrip:
  assumes "cec_wf m" and "tuner_valid t" and "cec_msg_tuner_device_status t m = Some m'"
    and "wire m' rx"
  shows "map_option tuner_view (cec_ops_tuner_device_status rx t0) = Some (tuner_view t)"
  using assms by (rule tuner_device_status.parse_wire)

section \<open>Properties\<close>

text \<open>
  C12. What a receiver reads from a service identified by channel with a major number below
  1024, a broadcast system of seven bits and a number format of six: system, format and minor
  number as sent, the major number with its bits 8 and 9 moved to bits 6 and 7 and or-ed with
  the low byte, which is the number sent only when that is below 256.
\<close>

theorem channel_number_received:
  assumes "cec_wf m" and "service_id_method d = CEC_OP_SERVICE_ID_METHOD_BY_CHANNEL"
    and "dig_bcast_system d < 128" and "channel_number_fmt d < 64" and "channel_major d < 1024"
    and "cec_msg_select_digital_service d m = Some m'" and "wire m' rx"
  shows "\<exists>d'. cec_ops_select_digital_service rx d0 = Some d' \<and>
    digital_view d' = (1, dig_bcast_system d, ServiceByChannel (channel_number_fmt d)
      (push_bit 6 (drop_bit 8 (channel_major d)) OR take_bit 8 (channel_major d)) (channel_minor d)) \<and>
    (digital_view d' = digital_view d \<longleftrightarrow> channel_major d < 256)"
proof -
  let ?major = "push_bit 6 (drop_bit 8 (channel_major d)) OR take_bit 8 (channel_major d)"
  let ?d = "dig_parse rx 2 d0"
  have fmt: "to_u8 (drop_bit 2 (promote (to_u8 (push_bit 2 (promote (channel_number_fmt d)) OR
      drop_bit 8 (promote (channel_major d)))))) = channel_number_fmt d"
    using assms(4,5) by (rule channel_fmt_field)
  have "digital_view ?d = bytes_view (digital_bytes d ! 0) (digital_bytes d ! 1)
      (digital_bytes d ! 2) (digital_bytes d ! 3) (digital_bytes d ! 4) (digital_bytes d ! 5)
      (digital_bytes d ! 6)"
    using assms by (auto simp: cec_msg_select_digital_service_def cec_simps wire_def)
  then have "digital_view ?d = (1, dig_bcast_system d, ServiceByChannel (channel_number_fmt d)
      ?major (channel_minor d))"
    using assms(2,3) service_byte_channel [OF assms(3)] fmt get_set_channel_major [OF assms(4,5)]
    by (simp add: bytes_view_def digital_bytes_def Let_def)
  moreover have "?major = channel_major d \<longleftrightarrow> channel_major d < 256"
    using assms(5) by (auto simp: below_pow2 bits16)
  moreover have "digital_view d = (1, dig_bcast_system d, ServiceByChannel (channel_number_fmt d)
      (channel_major d) (channel_minor d))"
    using assms(2) by (simp add: digital_view_def)
  moreover have "cec_ops_select_digital_service rx d0 = Some ?d"
    using wireD(1) [OF assms(7)] by (simp add: cec_ops_select_digital_service_def cec_simps)
  ultimately show ?thesis
    by simp
qed

theorem channel_number_received_witness:
  "\<exists>m' d'. cec_msg_select_digital_service high_channel blank_msg = Some m' \<and>
     cec_ops_select_digital_service m' high_channel = Some d' \<and>
     digital_view d' = (1, 1, ServiceByChannel 2 0x81 7) \<and> channel_major high_channel = 0x201"
proof -
  obtain m' where b: "cec_msg_select_digital_service high_channel blank_msg = Some m'"
    using select_digital_service.build_total [OF blank_wf] by blast
  then have "wire m' m'"
    using select_digital_service.build_effect [OF blank_wf] by (auto intro: wire_refl)
  with channel_number_received [OF blank_wf _ _ _ _ b, of m' high_channel] b show ?thesis
    by (auto simp: high_channel_def byte_defs)
qed

end
