(* ===== verification/Cec_Vendor.thy ===== *)
theory Cec_Vendor
  imports Cec_Message Cec_Opcodes
begin

text \<open>
  The Vendor Specific Commands, OSD Display and Device OSD Transfer features of
  \<^verbatim>\<open>linux/cec-funcs.h\<close>. The parsers of vendor commands return a sz and a pointer into the
  payload, modelled as an offset; the sizes are \<open>__u8\<close> values, with the truncation of
  \<open>msg->len - 2\<close> written out. The OSD functions copy strings into the caller's buffer.
\<close>

section \<open>Vendor commands\<close>

text \<open>\<open>vendor_id >> 16\<close>, \<open>(vendor_id >> 8) & 0xff\<close>, \<open>vendor_id & 0xff\<close> as bytes.\<close>

definition id_byte2 :: "u32 \<Rightarrow> u8" where [byte_defs]: "id_byte2 v = to_u8 (drop_bit 16 v)"
definition id_byte1 :: "u32 \<Rightarrow> u8" where [byte_defs]: "id_byte1 v = to_u8 (drop_bit 8 v AND 0xff)"
definition id_byte0 :: "u32 \<Rightarrow> u8" where [byte_defs]: "id_byte0 v = to_u8 (v AND 0xff)"

definition cec_msg_device_vendor_id :: "u32 \<Rightarrow> cec_stmt" where
  "cec_msg_device_vendor_id vendor_id = exec [
     set_len 5,
     or_broadcast,
     wr 1 CEC_MSG_DEVICE_VENDOR_ID,
     wr 2 (id_byte2 vendor_id),
     wr 3 (id_byte1 vendor_id),
     wr 4 (id_byte0 vendor_id)]"

definition cec_ops_device_vendor_id :: "cec_msg \<Rightarrow> u32 option" where
  "cec_ops_device_vendor_id m = rd_be24 m 2 3 4"

definition cec_msg_give_device_vendor_id :: "int \<Rightarrow> cec_stmt" where
  "cec_msg_give_device_vendor_id want_reply = exec [
     set_len 2,
     wr 1 CEC_MSG_GIVE_DEVICE_VENDOR_ID,
     set_reply (reply_op want_reply CEC_MSG_DEVICE_VENDOR_ID)]"

definition cec_msg_vendor_command :: "u8 \<Rightarrow> u8 list \<Rightarrow> cec_stmt" where
  "cec_msg_vendor_command sz vendor_cmd =
     (let sz = (if sz > 14 then 14 else sz) in exec [
     set_len (2 + promote sz),
     wr 1 CEC_MSG_VENDOR_COMMAND,
     memcpy_to_msg 2 vendor_cmd (unat sz)])"

definition cec_ops_vendor_command :: "cec_msg \<Rightarrow> (u8 \<times> nat) option" where
  "cec_ops_vendor_command m =
     (let sz = to_u8 (len m - 2);
          sz = (if sz > 14 then 14 else sz)
      in Some (sz, 2))"

definition cec_msg_vendor_command_with_id :: "u32 \<Rightarrow> u8 \<Rightarrow> u8 list \<Rightarrow> cec_stmt" where
  "cec_msg_vendor_command_with_id vendor_id sz vendor_cmd =
     (let sz = (if sz > 11 then 11 else sz) in exec [
     set_len (5 + promote sz),
     wr 1 CEC_MSG_VENDOR_COMMAND_WITH_ID,
     wr 2 (id_byte2 vendor_id),
     wr 3 (id_byte1 vendor_id),
     wr 4 (id_byte0 vendor_id),
     memcpy_to_msg 5 vendor_cmd (unat sz)])"

definition cec_ops_vendor_command_with_id :: "cec_msg \<Rightarrow> (u32 \<times> u8 \<times> nat) option" where
  "cec_ops_vendor_command_with_id m =
     (let sz = to_u8 (len m - 5);
          sz = (if sz > 11 then 11 else sz)
      in do {
        vendor_id \<leftarrow> rd_be24 m 2 3 4;
        Some (vendor_id, sz, 5) })"

definition cec_msg_vendor_remote_button_down :: "u8 \<Rightarrow> u8 list \<Rightarrow> cec_stmt" where
  "cec_msg_vendor_remote_button_down sz rc_code =
     (let sz = (if sz > 14 then 14 else sz) in exec [
     set_len (2 + promote sz),
     wr 1 CEC_MSG_VENDOR_REMOTE_BUTTON_DOWN,
     memcpy_to_msg 2 rc_code (unat sz)])"

definition cec_ops_vendor_remote_button_down :: "cec_msg \<Rightarrow> (u8 \<times> nat) option" where
  "cec_ops_vendor_remote_button_down m =
     (let sz = to_u8 (len m - 2);
          sz = (if sz > 14 then 14 else sz)
      in Some (sz, 2))"

definition cec_msg_vendor_remote_button_up :: "cec_stmt" where
  "cec_msg_vendor_remote_button_up = exec [
     set_len 2,
     wr 1 CEC_MSG_VENDOR_REMOTE_BUTTON_UP]"

section \<open>OSD strings\<close>

definition cec_msg_set_osd_string :: "u8 \<Rightarrow> u8 list \<Rightarrow> cec_stmt" where
  "cec_msg_set_osd_string disp_ctl osd m = do {
     l \<leftarrow> c_strlen osd;
     let l = clip 13 l;
     exec [
       set_len (3 + of_nat l),
       wr 1 CEC_MSG_SET_OSD_STRING,
       wr 2 disp_ctl,
       memcpy_to_msg 3 osd l] m }"

definition cec_ops_set_osd_string :: "cec_msg \<Rightarrow> u8 list \<Rightarrow> (u8 \<times> u8 list) option" where
  "cec_ops_set_osd_string m osd =
     (let l = payload_len 3 13 m in do {
        disp_ctl \<leftarrow> rd m 2;
        osd \<leftarrow> Option.bind (memcpy_from_msg osd m 3 (unat l)) (\<lambda>osd. store_byte osd (unat l) 0);
        Some (disp_ctl, osd) })"

definition cec_msg_set_osd_name :: "u8 list \<Rightarrow> cec_stmt" where
  "cec_msg_set_osd_name name m = do {
     l \<leftarrow> c_strlen name;
     let l = clip 14 l;
     exec [
       set_len (2 + of_nat l),
       wr 1 CEC_MSG_SET_OSD_NAME,
       memcpy_to_msg 2 name l] m }"

definition cec_ops_set_osd_name :: "cec_msg \<Rightarrow> u8 list \<Rightarrow> u8 list option" where
  "cec_ops_set_osd_name m name =
     (let l = payload_len 2 14 m in do {
        name \<leftarrow> memcpy_from_msg name m 2 (unat l);
        store_byte name (unat l) 0 })"

definition cec_msg_give_osd_name :: "int \<Rightarrow> cec_stmt" where
  "cec_msg_give_osd_name want_reply = exec [
     set_len 2,
     wr 1 CEC_MSG_GIVE_OSD_NAME,
     set_reply (reply_op want_reply CEC_MSG_SET_OSD_NAME)]"

section \<open>Contracts\<close>

lemma id_bytes [cec_simps]:
  "v < 0x1000000 \<Longrightarrow>
     push_bit 16 (promote (id_byte2 v)) OR push_bit 8 (promote (id_byte1 v)) OR promote (id_byte0
         v) = v"
  by (simp add: below_pow2 bits32 byte_defs)

interpretation device_vendor_id: cec_codec cec_msg_device_vendor_id
  CEC_MSG_DEVICE_VENDOR_ID True "\<lambda>_. 5" cec_ops_device_vendor_id "\<lambda>a. a" "\<lambda>v. v < 0x1000000"
  by unfold_locales (auto simp: cec_msg_device_vendor_id_def cec_ops_device_vendor_id_def cec_simps
      wire_def)

interpretation give_device_vendor_id: cec_builder "\<lambda>_ :: unit. cec_msg_give_device_vendor_id r"
    CEC_MSG_GIVE_DEVICE_VENDOR_ID False "\<lambda>_. 2" for r
  by unfold_locales (auto simp: cec_msg_give_device_vendor_id_def cec_simps)

interpretation vendor_remote_button_up: cec_builder "\<lambda>_ :: unit. cec_msg_vendor_remote_button_up"
    CEC_MSG_VENDOR_REMOTE_BUTTON_UP False "\<lambda>_. 2"
  by unfold_locales (auto simp: cec_msg_vendor_remote_button_up_def cec_simps)

interpretation give_osd_name: cec_builder "\<lambda>_ :: unit. cec_msg_give_osd_name r"
    CEC_MSG_GIVE_OSD_NAME False "\<lambda>_. 2" for r
  by unfold_locales (auto simp: cec_msg_give_osd_name_def cec_simps)

text \<open>
  Vendor commands: a command of \<open>sz\<close> bytes, cut to the room of the payload, arrives with
  its sz and its bytes at the returned offset.
\<close>

lemma u8_clip:
  "unat (if sz > 14 then 14 else (sz::u8)) = min 14 (unat sz)"
  "unat (if sz > 11 then 11 else sz) = min 11 (unat sz)"
  by (auto simp: word_less_nat_alt)

lemma size_from_len:
  assumes "unat (n::u8) \<le> 14" and "off \<le> 5"
  shows "to_u8 (of_nat off + promote n - of_nat off) = n"
    and "unat (of_nat off + promote n :: u32) = off + unat n"
proof -
  have "to_u8 (promote n) = n"
    by (simp add: bits8)
  then show "to_u8 (of_nat off + promote n - of_nat off) = n"
    by simp
  show "unat (of_nat off + promote n :: u32) = off + unat n"
    using assms by (simp add: unat_word_ariths unat_of_nat unsigned_ucast_eq take_bit_nat_eq_self)
qed

lemma vendor_payload:
  assumes "cec_wf m" and "off + n \<le> 16" and "n \<le> length cmd" and "wire (puts off (take n cmd) m) r"
    and "unat (len m) = off + n"
  shows "payload r off n = take n cmd"
proof -
  have "payload r off n = payload (puts off (take n cmd) m) off n"
    by (rule payload_wire [OF assms(4)]) (simp add: assms(5) cec_simps)
  then show ?thesis
    using payload_puts [of m off "take n cmd"] assms(1-3) by simp
qed

lemma vendor_command_wire:
  assumes "cec_wf m" and "unat sz \<le> length cmd"
    and "cec_msg_vendor_command sz cmd m = Some m'" and "wire m' r"
  shows "\<exists>n. cec_ops_vendor_command r = Some (n, 2) \<and> unat n = min 14 (unat sz) \<and>
    payload r 2 (unat n) = take 14 (take (unat sz) cmd)"
proof -
  define n where "n = (if sz > 14 then 14 else sz)"
  have n: "unat n = min 14 (unat sz)" "unat n \<le> 14"
    using u8_clip(1) [of sz] by (simp_all add: n_def)
  let ?m = "put 1 CEC_MSG_VENDOR_COMMAND (m\<lparr>len := 2 + promote n\<rparr>)"
  have m': "m' = puts 2 (take (unat n) cmd) ?m"
    using assms(1-3) n by (simp add: cec_msg_vendor_command_def n_def [symmetric] cec_simps)
  have len: "len r = 2 + promote n"
    using wireD(2) [OF assms(4)] by (simp add: m' cec_simps)
  have "cec_ops_vendor_command r = Some (n, 2)"
    using size_from_len(1) [of n 2] n(2)
    by (simp add: cec_ops_vendor_command_def len Let_def word_less_nat_alt)
  moreover have "payload r 2 (unat n) = take (unat n) cmd"
    by (rule vendor_payload [of ?m])
      (use assms m' n size_from_len(2) [of n 2] in \<open>auto simp: cec_simps\<close>)
  ultimately show ?thesis
    using n(1) by (auto simp: min_def)
qed

lemma vendor_remote_button_down_wire:
  assumes "cec_wf m" and "unat sz \<le> length code"
    and "cec_msg_vendor_remote_button_down sz code m = Some m'" and "wire m' r"
  shows "\<exists>n. cec_ops_vendor_remote_button_down r = Some (n, 2) \<and> unat n = min 14 (unat sz) \<and>
    payload r 2 (unat n) = take 14 (take (unat sz) code)"
proof -
  define n where "n = (if sz > 14 then 14 else sz)"
  have n: "unat n = min 14 (unat sz)" "unat n \<le> 14"
    using u8_clip(1) [of sz] by (simp_all add: n_def)
  let ?m = "put 1 CEC_MSG_VENDOR_REMOTE_BUTTON_DOWN (m\<lparr>len := 2 + promote n\<rparr>)"
  have m': "m' = puts 2 (take (unat n) code) ?m"
    using assms(1-3) n
    by (simp add: cec_msg_vendor_remote_button_down_def n_def [symmetric] cec_simps)
  have len: "len r = 2 + promote n"
    using wireD(2) [OF assms(4)] by (simp add: m' cec_simps)
  have "cec_ops_vendor_remote_button_down r = Some (n, 2)"
    using size_from_len(1) [of n 2] n(2)
    by (simp add: cec_ops_vendor_remote_button_down_def len Let_def word_less_nat_alt)
  moreover have "payload r 2 (unat n) = take (unat n) code"
    by (rule vendor_payload [of ?m])
      (use assms m' n size_from_len(2) [of n 2] in \<open>auto simp: cec_simps\<close>)
  ultimately show ?thesis
    using n(1) by (auto simp: min_def)
qed

lemma vendor_command_with_id_wire:
  assumes "cec_wf m" and "unat sz \<le> length cmd" and "vendor_id < 0x1000000"
    and "cec_msg_vendor_command_with_id vendor_id sz cmd m = Some m'" and "wire m' r"
  shows "\<exists>n. cec_ops_vendor_command_with_id r = Some (vendor_id, n, 5) \<and>
    unat n = min 11 (unat sz) \<and> payload r 5 (unat n) = take 11 (take (unat sz) cmd)"
proof -
  define n where "n = (if sz > 11 then 11 else sz)"
  have n: "unat n = min 11 (unat sz)" "unat n \<le> 11"
    using u8_clip(2) [of sz] by (simp_all add: n_def)
  let ?m = "put 4 (id_byte0 vendor_id) (put 3 (id_byte1 vendor_id) (put 2 (id_byte2 vendor_id)
    (put 1 CEC_MSG_VENDOR_COMMAND_WITH_ID (m\<lparr>len := 5 + promote n\<rparr>))))"
  have m': "m' = puts 5 (take (unat n) cmd) ?m"
    using assms(1,2,4) n by (simp add: cec_msg_vendor_command_with_id_def n_def [symmetric]
        cec_simps)
  have len: "len r = 5 + promote n" "unat (len m') = 5 + unat n"
    using wireD(2) [OF assms(5)] size_from_len(2) [of n 5] n by (simp_all add: m' cec_simps)
  have id: "rd_be24 r 2 3 4 = Some vendor_id"
    using wireD [OF assms(5)] assms(1,3) len n by (simp add: cec_simps m')
  have "cec_ops_vendor_command_with_id r = Some (vendor_id, n, 5)"
    using size_from_len(1) [of n 5] n(2) id
    by (simp add: cec_ops_vendor_command_with_id_def len Let_def word_less_nat_alt)
  moreover have "payload r 5 (unat n) = take (unat n) cmd"
    by (rule vendor_payload [of ?m])
      (use assms m' n size_from_len(2) [of n 5] in \<open>auto simp: cec_simps\<close>)
  ultimately show ?thesis
    using n(1) by (auto simp: min_def)
qed

text \<open>The OSD string and name: cut to the room of the payload, terminated on arrival.\<close>

lemma osd_name_wire:
  assumes "cec_wf m" and "0 \<in> set name" and "cec_msg_set_osd_name name m = Some m'"
    and "wire m' r" and "15 \<le> length buf"
  shows "\<exists>out. cec_ops_set_osd_name r buf = Some out \<and> length out = length buf \<and>
    c_string out = take 14 (c_string name)"
proof -
  let ?n = "clip 14 (length (c_string name))"
  let ?m = "put 1 CEC_MSG_SET_OSD_NAME (m\<lparr>len := 2 + of_nat ?n\<rparr>)"
  have "m' = puts 2 (take ?n name) ?m"
    using assms(1-3) by (simp add: cec_msg_set_osd_name_def c_strlen_c_string cec_simps Let_def)
  with assms string_transfer [of ?m 2 14 ?n name r buf] show ?thesis
    by (simp add: cec_ops_set_osd_name_def Let_def cec_simps)
qed

lemma osd_string_wire:
  assumes "cec_wf m" and "0 \<in> set osd" and "cec_msg_set_osd_string disp_ctl osd m = Some m'"
    and "wire m' r" and "14 \<le> length buf"
  shows "\<exists>out. cec_ops_set_osd_string r buf = Some (disp_ctl, out) \<and> length out = length buf \<and>
    c_string out = take 13 (c_string osd)"
proof -
  let ?n = "clip 13 (length (c_string osd))"
  let ?m = "put 2 disp_ctl (put 1 CEC_MSG_SET_OSD_STRING (m\<lparr>len := 3 + of_nat ?n\<rparr>))"
  have m': "m' = puts 3 (take ?n osd) ?m"
    using assms(1-3) by (simp add: cec_msg_set_osd_string_def c_strlen_c_string cec_simps Let_def)
  have "unat (3 + of_nat k :: u32) = 3 + k" if "k \<le> 13" for k
    using that by (simp add: unat_word_ariths unat_of_nat)
  then have "unat (3 + of_nat ?n :: u32) = 3 + ?n"
    by simp
  then have "byte r 2 = disp_ctl"
    using wireD(3) [OF assms(4), of 2] assms(1) m' by (simp add: cec_simps)
  with assms m' string_transfer [of ?m 3 13 ?n osd r buf] wireD(1) [OF assms(4)] show ?thesis
    by (simp add: cec_ops_set_osd_string_def Let_def cec_simps del: Option.bind_assoc)
qed

section \<open>Further theorems\<close>

text \<open>
  A vendor command arrives with its vendor id and with its bytes, cut to the 11 that fit behind
  the id: the parser returns their number and the offset at which they are in the received
  payload.
\<close>

theorem vendor_command_roundtrip:
  assumes "cec_wf m" and "unat sz \<le> length cmd" and "vendor_id < 0x1000000"
    and "cec_msg_vendor_command_with_id vendor_id sz cmd m = Some m'" and "wire m' r"
  shows "\<exists>n. cec_ops_vendor_command_with_id r = Some (vendor_id, n, 5) \<and>
    unat n = min 11 (unat sz) \<and> payload r 5 (unat n) = take 11 (take (unat sz) cmd)"
  using assms by (rule vendor_command_with_id_wire)

text \<open>
  An OSD string arrives with its display control byte, cut to 13 characters and terminated
  inside a buffer of at least 14 bytes.
\<close>

theorem osd_string_roundtrip:
  assumes "cec_wf m" and "0 \<in> set osd" and "cec_msg_set_osd_string disp_ctl osd m = Some m'"
    and "wire m' r" and "14 \<le> length buf"
  shows "\<exists>out. cec_ops_set_osd_string r buf = Some (disp_ctl, out) \<and> length out = length buf \<and>
    c_string out = take 13 (c_string osd)"
  using assms by (rule osd_string_wire)

end
