(* ===== verification/Cec_Menu.thy ===== *)
theory Cec_Menu
  imports Cec_Record
begin

text \<open>
  The Device Menu Control, Power Status and General Protocol messages of
  \<^verbatim>\<open>linux/cec-funcs.h\<close>, with the user control commands and their optional operand, and
  \<open>cec_msg_reply_feature_abort\<close>, which turns a received message into a feature abort in
  place.
\<close>

section \<open>Device Menu Control\<close>

definition cec_msg_menu_status :: "u8 \<Rightarrow> cec_stmt" where
  "cec_msg_menu_status menu_state = exec [
     set_len 3,
     wr 1 CEC_MSG_MENU_STATUS,
     wr 2 menu_state]"

definition cec_ops_menu_status :: "cec_msg \<Rightarrow> (u8) option" where
  "cec_ops_menu_status m = do {
     menu_state \<leftarrow> rd m 2;
     Some (menu_state) }"

definition cec_msg_menu_request :: "int \<Rightarrow> u8 \<Rightarrow> cec_stmt" where
  "cec_msg_menu_request want_reply menu_req = exec [
     set_len 3,
     wr 1 CEC_MSG_MENU_REQUEST,
     wr 2 menu_req,
     set_reply (reply_op want_reply CEC_MSG_MENU_STATUS)]"

definition cec_ops_menu_request :: "cec_msg \<Rightarrow> (u8) option" where
  "cec_ops_menu_request m = do {
     menu_req \<leftarrow> rd m 2;
     Some (menu_req) }"

text \<open>
  The union of \<open>struct cec_op_ui_command\<close> has six bytes; all its one-byte members
  (\<open>play_mode\<close>, \<open>ui_broadcast_type\<close>, ...) are at offset 0, the channel identifier has its
  members at the offsets 0, 2 and 4.
\<close>

record cec_op_ui_command =
  ui_cmd :: u8
  has_opt_arg :: u8
  uu0 :: u16
  uu1 :: u16
  uu2 :: u16

abbreviation (input) "ui_play_mode c \<equiv> lo8 (uu0 c)"
abbreviation (input) "ui_channel_number_fmt c \<equiv> lo8 (uu0 c)"
abbreviation (input) "ui_channel_major \<equiv> uu1"
abbreviation (input) "ui_channel_minor \<equiv> uu2"

text \<open>The user interface commands whose optional operand is one byte.\<close>

definition ui_one_byte :: "u8 \<Rightarrow> bool" where
  "ui_one_byte c \<longleftrightarrow> c = 0x56 \<or> c = 0x57 \<or> c = 0x60 \<or> c = 0x68 \<or> c = 0x69 \<or> c = 0x6a"

definition cec_msg_user_control_pressed :: "cec_op_ui_command \<Rightarrow> cec_stmt" where
  "cec_msg_user_control_pressed c = exec [
     set_len 3,
     wr 1 CEC_MSG_USER_CONTROL_PRESSED,
     wr 2 (ui_cmd c),
     when_stmt (has_opt_arg c \<noteq> 0) [
       if ui_one_byte (ui_cmd c) then exec [
         \<lambda>m. set_len (len m + 1) m,
         wr 3 (ui_play_mode c)]
       else if ui_cmd c = 0x67 then exec [
         \<lambda>m. set_len (len m + 4) m,
         wr 3 (to_u8 (push_bit 2 (promote (ui_channel_number_fmt c)) OR
           drop_bit 8 (promote (ui_channel_major c)))),
         wr 4 (lo8 (ui_channel_major c)),
         wr 5 (hi8 (ui_channel_minor c)),
         wr 6 (lo8 (ui_channel_minor c))]
       else exec []]]"

definition cec_ops_user_control_pressed ::
  "cec_msg \<Rightarrow> cec_op_ui_command \<Rightarrow> cec_op_ui_command option" where
  "cec_ops_user_control_pressed m c = do {
     cmd \<leftarrow> rd m 2;
     let c = c\<lparr>ui_cmd := cmd, has_opt_arg := 0\<rparr>;
     if len m = 3 then Some c
     else if ui_one_byte cmd then do {
       b \<leftarrow> rd m 3;
       Some (c\<lparr>uu0 := set_lo8 b (uu0 c), has_opt_arg := 1\<rparr>) }
     else if cmd = 0x67 then
       (if len m < 7 then Some c
        else do {
          b3 \<leftarrow> rd m 3;
          b4 \<leftarrow> rd m 4;
          minor \<leftarrow> rd_be16 m 5 6;
          Some (c\<lparr>has_opt_arg := 1, uu0 := set_lo8 (to_u8 (drop_bit 2 (promote b3))) (uu0 c),
                  uu1 := get_channel_major b3 b4, uu2 := minor\<rparr>) })
     else Some c }"

definition cec_msg_user_control_released :: "cec_stmt" where
  "cec_msg_user_control_released = exec [
     set_len 2,
     wr 1 CEC_MSG_USER_CONTROL_RELEASED]"

section \<open>Power Status\<close>

definition cec_msg_report_power_status :: "u8 \<Rightarrow> cec_stmt" where
  "cec_msg_report_power_status pwr_state = exec [
     set_len 3,
     wr 1 CEC_MSG_REPORT_POWER_STATUS,
     wr 2 pwr_state]"

definition cec_ops_report_power_status :: "cec_msg \<Rightarrow> (u8) option" where
  "cec_ops_report_power_status m = do {
     pwr_state \<leftarrow> rd m 2;
     Some (pwr_state) }"

definition cec_msg_give_device_power_status :: "int \<Rightarrow> cec_stmt" where
  "cec_msg_give_device_power_status want_reply = exec [
     set_len 2,
     wr 1 CEC_MSG_GIVE_DEVICE_POWER_STATUS,
     set_reply (reply_op want_reply CEC_MSG_REPORT_POWER_STATUS)]"

section \<open>General Protocol\<close>

definition cec_msg_feature_abort :: "u8 \<Rightarrow> u8 \<Rightarrow> cec_stmt" where
  "cec_msg_feature_abort abort_msg reason = exec [
     set_len 4,
     wr 1 CEC_MSG_FEATURE_ABORT,
     wr 2 abort_msg,
     wr 3 reason]"

definition cec_ops_feature_abort :: "cec_msg \<Rightarrow> (u8 \<times> u8) option" where
  "cec_ops_feature_abort m = do {
     abort_msg \<leftarrow> rd m 2;
     reason \<leftarrow> rd m 3;
     Some (abort_msg, reason) }"

definition cec_msg_reply_feature_abort :: "u8 \<Rightarrow> cec_stmt" where
  "cec_msg_reply_feature_abort reason = exec [
     \<lambda>m. cec_msg_set_reply_to m m,
     set_len 4,
     \<lambda>m. Option.bind (rd m 1) (\<lambda>b. wr 2 b m),
     wr 3 reason,
     wr 1 CEC_MSG_FEATURE_ABORT]"

definition cec_msg_abort :: "cec_stmt" where
  "cec_msg_abort = exec [
     set_len 2,
     wr 1 CEC_MSG_ABORT]"

section \<open>Abstract view of a user control command\<close>

datatype ui_operand = UiNone | UiByte u8 | UiChannel u8 u16 u16

definition ui_view :: "cec_op_ui_command \<Rightarrow> u8 \<times> ui_operand" where
  "ui_view c = (ui_cmd c,
     if has_opt_arg c = 0 then UiNone
     else if ui_one_byte (ui_cmd c) then UiByte (ui_play_mode c)
     else if ui_cmd c = 0x67
     then UiChannel (ui_channel_number_fmt c) (ui_channel_major c) (ui_channel_minor c)
     else UiNone)"

definition ui_valid :: "cec_op_ui_command \<Rightarrow> bool" where
  "ui_valid c \<longleftrightarrow> (has_opt_arg c \<noteq> 0 \<and> ui_cmd c = 0x67 \<longrightarrow>
     ui_channel_number_fmt c < 64 \<and> ui_channel_major c < 256)"

definition ui_size :: "cec_op_ui_command \<Rightarrow> nat" where
  "ui_size c = (if has_opt_arg c = 0 then 3 else if ui_one_byte (ui_cmd c) then 4
     else if ui_cmd c = 0x67 then 7 else 3)"

section \<open>Contracts\<close>

interpretation menu_status: cec_codec "cec_msg_menu_status" CEC_MSG_MENU_STATUS False "\<lambda>_. 3"
  cec_ops_menu_status "\<lambda>a. a" "\<lambda>_. True"
  by unfold_locales (auto simp: cec_msg_menu_status_def cec_ops_menu_status_def cec_simps wire_def)

interpretation menu_request: cec_codec "cec_msg_menu_request r" CEC_MSG_MENU_REQUEST False "\<lambda>_. 3"
  cec_ops_menu_request "\<lambda>a. a" "\<lambda>_. True" for r
  by unfold_locales (auto simp: cec_msg_menu_request_def cec_ops_menu_request_def cec_simps
      wire_def)

lemma ui_one_byte_67 [simp]: "\<not> ui_one_byte 0x67"
  by (simp add: ui_one_byte_def)

interpretation user_control_pressed: cec_codec cec_msg_user_control_pressed
  CEC_MSG_USER_CONTROL_PRESSED False ui_size
  "\<lambda>r. map_option ui_view (cec_ops_user_control_pressed r c0)" ui_view ui_valid for c0
  by unfold_locales (auto simp: cec_msg_user_control_pressed_def cec_ops_user_control_pressed_def
      cec_simps wire_def ui_view_def ui_valid_def ui_size_def channel_byte Let_def split: if_splits)

interpretation user_control_released: cec_builder "\<lambda>_ :: unit. cec_msg_user_control_released"
    CEC_MSG_USER_CONTROL_RELEASED False "\<lambda>_. 2"
  by unfold_locales (auto simp: cec_msg_user_control_released_def cec_simps)

interpretation report_power_status: cec_codec "cec_msg_report_power_status"
    CEC_MSG_REPORT_POWER_STATUS False "\<lambda>_. 3"
  cec_ops_report_power_status "\<lambda>a. a" "\<lambda>_. True"
  by unfold_locales (auto simp: cec_msg_report_power_status_def cec_ops_report_power_status_def
      cec_simps wire_def)

interpretation give_device_power_status: cec_builder "\<lambda>_ :: unit. cec_msg_give_device_power_status
    r" CEC_MSG_GIVE_DEVICE_POWER_STATUS False "\<lambda>_. 2" for r
  by unfold_locales (auto simp: cec_msg_give_device_power_status_def cec_simps)

interpretation feature_abort: cec_codec "\<lambda>(abort_msg, reason). cec_msg_feature_abort abort_msg
    reason" CEC_MSG_FEATURE_ABORT False "\<lambda>_. 4"
  cec_ops_feature_abort "\<lambda>a. a" "\<lambda>_. True"
  by unfold_locales (auto simp: cec_msg_feature_abort_def cec_ops_feature_abort_def cec_simps
      wire_def)

interpretation abort: cec_builder "\<lambda>_ :: unit. cec_msg_abort" CEC_MSG_ABORT False "\<lambda>_. 2"
  by unfold_locales (auto simp: cec_msg_abort_def cec_simps)

text \<open>Swapping the nibbles of the address byte, twice, is the identity.\<close>

definition swap_addr :: "u8 \<Rightarrow> u8" where
  "swap_addr b = to_u8 (push_bit 4 (promote (to_u8 (promote b AND 0xf))) OR
     promote (to_u8 (drop_bit 4 (promote b))))"

lemma swap_addr_swap_addr [simp]: "swap_addr (swap_addr b) = b"
  by (simp add: swap_addr_def bits8)

lemma set_reply_to_ok [cec_simps]:
  "cec_wf m \<Longrightarrow> cec_wf orig \<Longrightarrow> cec_msg_set_reply_to orig m =
     Some ((put 0 (swap_addr (byte orig 0)) m)\<lparr>timeout := 0, reply := 0\<rparr>)"
  by (simp add: cec_msg_set_reply_to_def cec_msg_destination_def cec_msg_initiator_def cec_simps
      swap_addr_def)

lemma reply_feature_abort_ok:
  "cec_wf m \<Longrightarrow> cec_msg_reply_feature_abort reason m = Some
     (put 1 CEC_MSG_FEATURE_ABORT (put 3 reason (put 2 (byte m 1)
       ((put 0 (swap_addr (byte m 0)) m)\<lparr>timeout := 0, reply := 0, len := 4\<rparr>))))"
  by (simp add: cec_msg_reply_feature_abort_def cec_simps)

text \<open>A concrete command: tune to channel 9.2.\<close>

definition sample_command :: cec_op_ui_command where
  "sample_command = \<lparr>ui_cmd = 0x67, has_opt_arg = 1, uu0 = 1, uu1 = 9, uu2 = 2\<rparr>"

section \<open>Further theorems\<close>

text \<open>
  A user control command survives the wire with its optional operand: none, one byte, or a
  channel identifier with a major number below 256.
\<close>

theorem user_control_roundtrip:
  assumes "cec_wf m" and "ui_valid c" and "cec_msg_user_control_pressed c m = Some m'"
    and "wire m' rx"
  shows "map_option ui_view (cec_ops_user_control_pressed rx c0) = Some (ui_view c)"
  using assms by (rule user_control_pressed.parse_wire)

text \<open>
  Turning a received message into a feature abort answers it: initiator and destination change
  places, the aborted opcode is the one the message had, the reason is the given one, and the
  message no longer waits for a reply.
\<close>

theorem feature_abort_reply:
  assumes "cec_wf m"
  shows "\<exists>m'. cec_msg_reply_feature_abort reason m = Some m' \<and>
    cec_msg_initiator m' = cec_msg_destination m \<and> cec_msg_destination m' = cec_msg_initiator m \<and>
    cec_msg_opcode m' = Some (uint (CEC_MSG_FEATURE_ABORT :: u8)) \<and>
    cec_ops_feature_abort m' = Some (msg m ! 1, reason) \<and>
    reply m' = 0 \<and> timeout m' = 0 \<and> len m' = 4"
proof -
  have "to_u8 (drop_bit 4 (promote (swap_addr b))) = to_u8 (promote b AND 0xf)"
      "to_u8 (promote (swap_addr b) AND 0xf) = to_u8 (drop_bit 4 (promote b))" for b :: u8
    by (simp_all add: swap_addr_def bits8)
  then show ?thesis
    using assms
    by (simp add: reply_feature_abort_ok cec_msg_initiator_def cec_msg_destination_def
        cec_msg_opcode_def cec_ops_feature_abort_def cec_simps)
      (simp add: put_def byte_def)
qed

end
