(* ===== verification/Cec_Audio.thy ===== *)
theory Cec_Audio
  imports Cec_Message Cec_Opcodes
begin

text \<open>
  The System Audio Control, Audio Rate Control, Audio Return Channel and Dynamic Audio
  Lipsync features of \<^verbatim>\<open>linux/cec-funcs.h\<close>. The short audio descriptors are written and
  read by loops over the descriptor arrays; the loops are recursions on the number of
  descriptors that are left.
\<close>

section \<open>System Audio Control\<close>

text \<open>\<open>(aud_mute_status << 7) | (aud_vol_status & 0x7f)\<close>.\<close>

definition audio_status_code :: "u8 \<Rightarrow> u8 \<Rightarrow> u8" where
  "audio_status_code mute vol = to_u8 (push_bit 7 (promote mute) OR (promote vol AND 0x7f))"

definition cec_msg_report_audio_status :: "u8 \<Rightarrow> u8 \<Rightarrow> cec_stmt" where
  "cec_msg_report_audio_status aud_mute_status aud_vol_status = exec [
     set_len 3,
     wr 1 CEC_MSG_REPORT_AUDIO_STATUS,
     wr 2 (audio_status_code aud_mute_status aud_vol_status)]"

definition cec_ops_report_audio_status :: "cec_msg \<Rightarrow> (u8 \<times> u8) option" where
  "cec_ops_report_audio_status m = do {
     b \<leftarrow> rd m 2;
     Some (to_u8 (drop_bit 7 (promote b)), to_u8 (promote b AND 0x7f)) }"

definition cec_msg_give_audio_status :: "int \<Rightarrow> cec_stmt" where
  "cec_msg_give_audio_status want_reply = exec [
     set_len 2,
     wr 1 CEC_MSG_GIVE_AUDIO_STATUS,
     set_reply (reply_op want_reply CEC_MSG_REPORT_AUDIO_STATUS)]"

definition cec_msg_set_system_audio_mode :: "u8 \<Rightarrow> cec_stmt" where
  "cec_msg_set_system_audio_mode sys_aud_status = exec [
     set_len 3,
     wr 1 CEC_MSG_SET_SYSTEM_AUDIO_MODE,
     wr 2 sys_aud_status]"

definition cec_ops_set_system_audio_mode :: "cec_msg \<Rightarrow> (u8) option" where
  "cec_ops_set_system_audio_mode m = do {
     sys_aud_status \<leftarrow> rd m 2;
     Some (sys_aud_status) }"

definition cec_msg_system_audio_mode_request :: "int \<Rightarrow> u16 \<Rightarrow> cec_stmt" where
  "cec_msg_system_audio_mode_request want_reply phys_addr = exec [
     set_len (if phys_addr = 0xffff then 2 else 4),
     wr 1 CEC_MSG_SYSTEM_AUDIO_MODE_REQUEST,
     wr 2 (hi8 phys_addr),
     wr 3 (lo8 phys_addr),
     set_reply (reply_op want_reply CEC_MSG_SET_SYSTEM_AUDIO_MODE)]"

definition cec_ops_system_audio_mode_request :: "cec_msg \<Rightarrow> u16 option" where
  "cec_ops_system_audio_mode_request m =
     (if len m < 4 then Some 0xffff else rd_be16 m 2 3)"

definition cec_msg_system_audio_mode_status :: "u8 \<Rightarrow> cec_stmt" where
  "cec_msg_system_audio_mode_status sys_aud_status = exec [
     set_len 3,
     wr 1 CEC_MSG_SYSTEM_AUDIO_MODE_STATUS,
     wr 2 sys_aud_status]"

definition cec_ops_system_audio_mode_status :: "cec_msg \<Rightarrow> (u8) option" where
  "cec_ops_system_audio_mode_status m = do {
     sys_aud_status \<leftarrow> rd m 2;
     Some (sys_aud_status) }"

definition cec_msg_give_system_audio_mode_status :: "int \<Rightarrow> cec_stmt" where
  "cec_msg_give_system_audio_mode_status want_reply = exec [
     set_len 2,
     wr 1 CEC_MSG_GIVE_SYSTEM_AUDIO_MODE_STATUS,
     set_reply (reply_op want_reply CEC_MSG_SYSTEM_AUDIO_MODE_STATUS)]"

section \<open>Short audio descriptors\<close>

text \<open>The loop over the descriptors: \<open>k\<close> of them are left, the next one is \<open>i\<close>.\<close>

fun put_descriptors :: "nat \<Rightarrow> nat \<Rightarrow> u32 list \<Rightarrow> cec_stmt" where
  "put_descriptors 0 i ds m = Some m"
| "put_descriptors (Suc k) i ds m =
     (if i < length ds then
        Option.bind (exec [
          wr (2 + i * 3) (to_u8 (drop_bit 16 (ds ! i) AND 0xff)),
          wr (3 + i * 3) (to_u8 (drop_bit 8 (ds ! i) AND 0xff)),
          wr (4 + i * 3) (to_u8 (ds ! i AND 0xff))] m)
        (put_descriptors k (Suc i) ds)
      else None)"

definition cec_msg_report_short_audio_descriptor :: "u8 \<Rightarrow> u32 list \<Rightarrow> cec_stmt" where
  "cec_msg_report_short_audio_descriptor num_descriptors descriptors =
     (let num_descriptors = (if num_descriptors > 4 then 4 else num_descriptors) in exec [
     set_len (2 + promote num_descriptors * 3),
     wr 1 CEC_MSG_REPORT_SHORT_AUDIO_DESCRIPTOR,
     put_descriptors (unat num_descriptors) 0 descriptors])"

text \<open>
  The parsers store into arrays of the caller; \<open>None\<close> is a store outside of one.
\<close>

definition store_descriptor :: "u32 list \<Rightarrow> nat \<Rightarrow> u32 \<Rightarrow> u32 list option" where
  "store_descriptor ds i d = (if i < length ds then Some (ds[i := d]) else None)"

fun get_descriptors :: "nat \<Rightarrow> nat \<Rightarrow> cec_msg \<Rightarrow> u32 list \<Rightarrow> u32 list option" where
  "get_descriptors 0 i m ds = Some ds"
| "get_descriptors (Suc k) i m ds = do {
     d \<leftarrow> rd_be24 m (2 + i * 3) (3 + i * 3) (4 + i * 3);
     ds \<leftarrow> store_descriptor ds i d;
     get_descriptors k (Suc i) m ds }"

definition cec_ops_report_short_audio_descriptor ::
  "cec_msg \<Rightarrow> u32 list \<Rightarrow> (u8 \<times> u32 list) option" where
  "cec_ops_report_short_audio_descriptor m descriptors =
     (let num_descriptors = to_u8 ((len m - 2) div 3);
          num_descriptors = (if num_descriptors > 4 then 4 else num_descriptors)
      in do {
        descriptors \<leftarrow> get_descriptors (unat num_descriptors) 0 m descriptors;
        Some (num_descriptors, descriptors) })"

text \<open>\<open>(audio_format_id[i] << 6) | (audio_format_code[i] & 0x3f)\<close>.\<close>

definition audio_format_byte :: "u8 \<Rightarrow> u8 \<Rightarrow> u8" where
  "audio_format_byte fid code = to_u8 (push_bit 6 (promote fid) OR (promote code AND 0x3f))"

fun put_formats :: "nat \<Rightarrow> nat \<Rightarrow> u8 list \<Rightarrow> u8 list \<Rightarrow> cec_stmt" where
  "put_formats 0 i ids codes m = Some m"
| "put_formats (Suc k) i ids codes m =
     (if i < length ids \<and> i < length codes then
        Option.bind (wr (2 + i) (audio_format_byte (ids ! i) (codes ! i)) m)
          (put_formats k (Suc i) ids codes)
      else None)"

definition cec_msg_request_short_audio_descriptor ::
  "int \<Rightarrow> u8 \<Rightarrow> u8 list \<Rightarrow> u8 list \<Rightarrow> cec_stmt" where
  "cec_msg_request_short_audio_descriptor want_reply num_descriptors audio_format_id
     audio_format_code =
     (let num_descriptors = (if num_descriptors > 4 then 4 else num_descriptors) in exec [
     set_len (2 + promote num_descriptors),
     wr 1 CEC_MSG_REQUEST_SHORT_AUDIO_DESCRIPTOR,
     set_reply (reply_op want_reply CEC_MSG_REPORT_SHORT_AUDIO_DESCRIPTOR),
     put_formats (unat num_descriptors) 0 audio_format_id audio_format_code])"

fun get_formats :: "nat \<Rightarrow> nat \<Rightarrow> cec_msg \<Rightarrow> u8 list \<Rightarrow> u8 list \<Rightarrow> (u8 list \<times> u8 list) option" where
  "get_formats 0 i m ids codes = Some (ids, codes)"
| "get_formats (Suc k) i m ids codes = do {
     b \<leftarrow> rd m (2 + i);
     ids \<leftarrow> store_byte ids i (to_u8 (drop_bit 6 (promote b)));
     codes \<leftarrow> store_byte codes i (to_u8 (promote b AND 0x3f));
     get_formats k (Suc i) m ids codes }"

definition cec_ops_request_short_audio_descriptor ::
  "cec_msg \<Rightarrow> u8 list \<Rightarrow> u8 list \<Rightarrow> (u8 \<times> u8 list \<times> u8 list) option" where
  "cec_ops_request_short_audio_descriptor m audio_format_id audio_format_code =
     (let num_descriptors = to_u8 (len m - 2);
          num_descriptors = (if num_descriptors > 4 then 4 else num_descriptors)
      in do {
        (ids, codes) \<leftarrow> get_formats (unat num_descriptors) 0 m audio_format_id audio_format_code;
        Some (num_descriptors, ids, codes) })"

section \<open>Audio Rate and Audio Return Channel\<close>

definition cec_msg_set_audio_rate :: "u8 \<Rightarrow> cec_stmt" where
  "cec_msg_set_audio_rate audio_rate = exec [
     set_len 3,
     wr 1 CEC_MSG_SET_AUDIO_RATE,
     wr 2 audio_rate]"

definition cec_ops_set_audio_rate :: "cec_msg \<Rightarrow> (u8) option" where
  "cec_ops_set_audio_rate m = do {
     audio_rate \<leftarrow> rd m 2;
     Some (audio_rate) }"

definition cec_msg_report_arc_initiated :: "cec_stmt" where
  "cec_msg_report_arc_initiated = exec [
     set_len 2,
     wr 1 CEC_MSG_REPORT_ARC_INITIATED]"

definition cec_msg_initiate_arc :: "int \<Rightarrow> cec_stmt" where
  "cec_msg_initiate_arc want_reply = exec [
     set_len 2,
     wr 1 CEC_MSG_INITIATE_ARC,
     set_reply (reply_op want_reply CEC_MSG_REPORT_ARC_INITIATED)]"

definition cec_msg_request_arc_initiation :: "int \<Rightarrow> cec_stmt" where
  "cec_msg_request_arc_initiation want_reply = exec [
     set_len 2,
     wr 1 CEC_MSG_REQUEST_ARC_INITIATION,
     set_reply (reply_op want_reply CEC_MSG_INITIATE_ARC)]"

definition cec_msg_report_arc_terminated :: "cec_stmt" where
  "cec_msg_report_arc_terminated = exec [
     set_len 2,
     wr 1 CEC_MSG_REPORT_ARC_TERMINATED]"

definition cec_msg_terminate_arc :: "int \<Rightarrow> cec_stmt" where
  "cec_msg_terminate_arc want_reply = exec [
     set_len 2,
     wr 1 CEC_MSG_TERMINATE_ARC,
     set_reply (reply_op want_reply CEC_MSG_REPORT_ARC_TERMINATED)]"

definition cec_msg_request_arc_termination :: "int \<Rightarrow> cec_stmt" where
  "cec_msg_request_arc_termination want_reply = exec [
     set_len 2,
     wr 1 CEC_MSG_REQUEST_ARC_TERMINATION,
     set_reply (reply_op want_reply CEC_MSG_TERMINATE_ARC)]"

section \<open>Dynamic Audio Lipsync\<close>

text \<open>\<open>(low_latency_mode << 2) | audio_out_compensated\<close>.\<close>

definition latency_flags :: "u8 \<Rightarrow> u8 \<Rightarrow> u8" where
  "latency_flags low cmpn = to_u8 (push_bit 2 (promote low) OR promote cmpn)"

definition cec_msg_report_current_latency :: "u16 \<Rightarrow> u8 \<Rightarrow> u8 \<Rightarrow> u8 \<Rightarrow> u8 \<Rightarrow> cec_stmt" where
  "cec_msg_report_current_latency phys_addr video_latency low_latency_mode audio_out_compensated
     audio_out_delay = exec [
     set_len 6,
     or_broadcast,
     wr 1 CEC_MSG_REPORT_CURRENT_LATENCY,
     wr 2 (hi8 phys_addr),
     wr 3 (lo8 phys_addr),
     wr 4 video_latency,
     wr 5 (latency_flags low_latency_mode audio_out_compensated),
     when_stmt (audio_out_compensated = 3) [push_byte audio_out_delay]]"

definition cec_ops_report_current_latency :: "cec_msg \<Rightarrow> (u16 \<times> u8 \<times> u8 \<times> u8 \<times> u8) option" where
  "cec_ops_report_current_latency m = do {
     phys_addr \<leftarrow> rd_be16 m 2 3;
     video_latency \<leftarrow> rd m 4;
     b5 \<leftarrow> rd m 5;
     let low_latency_mode = to_u8 (drop_bit 2 (promote b5) AND 1);
     let audio_out_compensated = to_u8 (promote b5 AND 3);
     audio_out_delay \<leftarrow> (if audio_out_compensated = 3 \<and> len m \<ge> 7 then rd m 6 else Some 0);
     Some (phys_addr, video_latency, low_latency_mode, audio_out_compensated, audio_out_delay) }"

definition cec_msg_request_current_latency :: "int \<Rightarrow> u16 \<Rightarrow> cec_stmt" where
  "cec_msg_request_current_latency want_reply phys_addr = exec [
     set_len 4,
     or_broadcast,
     wr 1 CEC_MSG_REQUEST_CURRENT_LATENCY,
     wr 2 (hi8 phys_addr),
     wr 3 (lo8 phys_addr),
     set_reply (reply_op want_reply CEC_MSG_REPORT_CURRENT_LATENCY)]"

definition cec_ops_request_current_latency :: "cec_msg \<Rightarrow> (u16) option" where
  "cec_ops_request_current_latency m = do {
     phys_addr \<leftarrow> rd_be16 m 2 3;
     Some (phys_addr) }"

section \<open>Contracts\<close>

lemma audio_status_fields:
  assumes "mute < 2" and "vol < (128::u8)"
  shows "to_u8 (drop_bit 7 (promote (audio_status_code mute vol))) = (mute::u8)"
    and "to_u8 (promote (audio_status_code mute vol) AND 0x7f) = vol"
  using assms by (simp_all add: audio_status_code_def below_pow2 bits8)

interpretation report_audio_status: cec_codec
  "\<lambda>(mute, vol). cec_msg_report_audio_status mute vol" CEC_MSG_REPORT_AUDIO_STATUS False "\<lambda>_. 3"
  cec_ops_report_audio_status "\<lambda>a. a" "\<lambda>(mute, vol). mute < 2 \<and> vol < 128"
  by unfold_locales (auto simp: cec_msg_report_audio_status_def cec_ops_report_audio_status_def
      cec_simps wire_def audio_status_fields)

interpretation give_audio_status: cec_builder "\<lambda>_ :: unit. cec_msg_give_audio_status r"
    CEC_MSG_GIVE_AUDIO_STATUS False "\<lambda>_. 2" for r
  by unfold_locales (auto simp: cec_msg_give_audio_status_def cec_simps)

interpretation set_system_audio_mode: cec_codec "cec_msg_set_system_audio_mode"
    CEC_MSG_SET_SYSTEM_AUDIO_MODE False "\<lambda>_. 3"
  cec_ops_set_system_audio_mode "\<lambda>a. a" "\<lambda>_. True"
  by unfold_locales (auto simp: cec_msg_set_system_audio_mode_def
      cec_ops_set_system_audio_mode_def cec_simps wire_def)

interpretation system_audio_mode_request: cec_codec "cec_msg_system_audio_mode_request r"
  CEC_MSG_SYSTEM_AUDIO_MODE_REQUEST False "\<lambda>p. if p = 0xffff then 2 else 4"
  cec_ops_system_audio_mode_request "\<lambda>a. a" "\<lambda>_. True" for r
  by unfold_locales (auto simp: cec_msg_system_audio_mode_request_def
      cec_ops_system_audio_mode_request_def cec_simps wire_def split: if_splits)

interpretation system_audio_mode_status: cec_codec "cec_msg_system_audio_mode_status"
    CEC_MSG_SYSTEM_AUDIO_MODE_STATUS False "\<lambda>_. 3"
  cec_ops_system_audio_mode_status "\<lambda>a. a" "\<lambda>_. True"
  by unfold_locales (auto simp: cec_msg_system_audio_mode_status_def
      cec_ops_system_audio_mode_status_def cec_simps wire_def)

interpretation give_system_audio_mode_status: cec_builder "\<lambda>_ :: unit.
    cec_msg_give_system_audio_mode_status r" CEC_MSG_GIVE_SYSTEM_AUDIO_MODE_STATUS False "\<lambda>_. 2"
        for r
  by unfold_locales (auto simp: cec_msg_give_system_audio_mode_status_def cec_simps)

interpretation set_audio_rate: cec_codec "cec_msg_set_audio_rate" CEC_MSG_SET_AUDIO_RATE False
    "\<lambda>_. 3"
  cec_ops_set_audio_rate "\<lambda>a. a" "\<lambda>_. True"
  by unfold_locales (auto simp: cec_msg_set_audio_rate_def cec_ops_set_audio_rate_def cec_simps
      wire_def)

interpretation report_arc_initiated: cec_builder "\<lambda>_ :: unit. cec_msg_report_arc_initiated"
    CEC_MSG_REPORT_ARC_INITIATED False "\<lambda>_. 2"
  by unfold_locales (auto simp: cec_msg_report_arc_initiated_def cec_simps)

interpretation initiate_arc: cec_builder "\<lambda>_ :: unit. cec_msg_initiate_arc r" CEC_MSG_INITIATE_ARC
    False "\<lambda>_. 2" for r
  by unfold_locales (auto simp: cec_msg_initiate_arc_def cec_simps)

interpretation request_arc_initiation: cec_builder "\<lambda>_ :: unit. cec_msg_request_arc_initiation r"
    CEC_MSG_REQUEST_ARC_INITIATION False "\<lambda>_. 2" for r
  by unfold_locales (auto simp: cec_msg_request_arc_initiation_def cec_simps)

interpretation report_arc_terminated: cec_builder "\<lambda>_ :: unit. cec_msg_report_arc_terminated"
    CEC_MSG_REPORT_ARC_TERMINATED False "\<lambda>_. 2"
  by unfold_locales (auto simp: cec_msg_report_arc_terminated_def cec_simps)

interpretation terminate_arc: cec_builder "\<lambda>_ :: unit. cec_msg_terminate_arc r"
    CEC_MSG_TERMINATE_ARC False "\<lambda>_. 2" for r
  by unfold_locales (auto simp: cec_msg_terminate_arc_def cec_simps)

interpretation request_arc_termination: cec_builder "\<lambda>_ :: unit. cec_msg_request_arc_termination
    r" CEC_MSG_REQUEST_ARC_TERMINATION False "\<lambda>_. 2" for r
  by unfold_locales (auto simp: cec_msg_request_arc_termination_def cec_simps)

lemma latency_flags_fields:
  assumes "low < 2" and "cmpn < (4::u8)"
  shows "to_u8 (drop_bit 2 (promote (latency_flags low cmpn)) AND 1) = (low::u8)"
    and "to_u8 (promote (latency_flags low cmpn) AND 3) = cmpn"
  using assms by (simp_all add: latency_flags_def below_pow2 bits8)

definition latency_valid :: "u16 \<times> u8 \<times> u8 \<times> u8 \<times> u8 \<Rightarrow> bool" where
  "latency_valid = (\<lambda>(phys, video, low, cmpn, delay). low < 2 \<and> cmpn < 4)"

definition latency_view :: "u16 \<times> u8 \<times> u8 \<times> u8 \<times> u8 \<Rightarrow> u16 \<times> u8 \<times> u8 \<times> u8 \<times> u8" where
  "latency_view = (\<lambda>(phys, video, low, cmpn, delay).
     (phys, video, low, cmpn, if cmpn = 3 then delay else 0))"

interpretation report_current_latency: cec_codec
  "\<lambda>(phys, video, low, cmpn, delay). cec_msg_report_current_latency phys video low cmpn delay"
  CEC_MSG_REPORT_CURRENT_LATENCY True "\<lambda>(phys, video, low, cmpn, delay). if cmpn = 3 then 7 else 6"
  cec_ops_report_current_latency latency_view latency_valid
  by unfold_locales (auto simp: cec_msg_report_current_latency_def
      cec_ops_report_current_latency_def cec_simps wire_def latency_valid_def latency_view_def
      latency_flags_fields Let_def split: if_splits)

interpretation request_current_latency: cec_codec "cec_msg_request_current_latency r"
    CEC_MSG_REQUEST_CURRENT_LATENCY True "\<lambda>_. 4"
  cec_ops_request_current_latency "\<lambda>a. a" "\<lambda>_. True" for r
  by unfold_locales (auto simp: cec_msg_request_current_latency_def
      cec_ops_request_current_latency_def cec_simps wire_def)

subsection \<open>Short audio descriptors\<close>

text \<open>
  The write loops put one run of bytes into the payload, and the read loops recover the
  descriptors from it. The arrays are those of the caller; the number of descriptors is
  the length of the array, which the functions cut to four.
\<close>

definition descriptor_bytes :: "u32 \<Rightarrow> u8 list" where
  "descriptor_bytes d =
     [to_u8 (drop_bit 16 d AND 0xff), to_u8 (drop_bit 8 d AND 0xff), to_u8 (d AND 0xff)]"

lemma small_offsets:
  "3 + n = Suc (Suc (Suc n))" "4 + n = Suc (Suc (Suc (Suc n)))"
  "5 + n = Suc (Suc (Suc (Suc (Suc n))))" for n :: nat
  by simp_all

lemma put_descriptors_puts:
  "cec_wf m \<Longrightarrow> i + k \<le> length ds \<Longrightarrow> i + k \<le> 4 \<Longrightarrow>
     put_descriptors k i ds m =
       Some (puts (2 + i * 3) (concat (map descriptor_bytes (take k (drop i ds)))) m)"
proof (induction k arbitrary: i m)
  case 0
  then show ?case by simp
next
  case (Suc k)
  then have "drop i ds = ds ! i # drop (Suc i) ds"
    by (simp add: Cons_nth_drop_Suc)
  with Suc show ?case
    by (simp add: cec_simps descriptor_bytes_def small_offsets)
qed

lemma length_descriptor_bytes: "length (concat (map descriptor_bytes ds)) = 3 * length ds"
  by (induction ds) (auto simp: descriptor_bytes_def)

lemma descriptor_fields:
  "d < 0x1000000 \<Longrightarrow> push_bit 16 (promote (to_u8 (drop_bit 16 d AND 0xff))) OR
     push_bit 8 (promote (to_u8 (drop_bit 8 d AND 0xff))) OR
     promote (to_u8 (d AND 0xff)) = (d :: u32)"
  by (simp add: bits32 below_pow2)

lemma payload_Suc: "payload m off (Suc n) = byte m off # payload m (Suc off) n"
  by (simp add: payload_def upt_conv_Cons del: upt_Suc)

lemma take_update_snoc: "i < length xs \<Longrightarrow> take (Suc i) (xs[i := x]) = take i xs @ [x]"
  by (simp add: take_Suc_conv_app_nth)

lemma get_descriptors_payload:
  "cec_wf r \<Longrightarrow> i + length ds \<le> 4 \<Longrightarrow> \<forall>d \<in> set ds. d < 0x1000000 \<Longrightarrow>
     i + length ds \<le> length out \<Longrightarrow>
     payload r (2 + i * 3) (3 * length ds) = concat (map descriptor_bytes ds) \<Longrightarrow>
     get_descriptors (length ds) i r out = Some (take i out @ ds @ drop (i + length ds) out)"
proof (induction ds arbitrary: i out)
  case Nil
  then show ?case by simp
next
  case (Cons d ds)
  from Cons.prems(5) have bytes: "byte r (2 + i * 3) = to_u8 (drop_bit 16 d AND 0xff)"
      "byte r (3 + i * 3) = to_u8 (drop_bit 8 d AND 0xff)"
      "byte r (4 + i * 3) = to_u8 (d AND 0xff)"
    and rest: "payload r (2 + Suc i * 3) (3 * length ds) = concat (map descriptor_bytes ds)"
    by (simp_all add: payload_Suc descriptor_bytes_def [of d] small_offsets)
  from Cons.IH [of "Suc i" "out[i := d]"] Cons.prems rest
  have "get_descriptors (length ds) (Suc i) r (out[i := d]) =
      Some (take i out @ (d # ds) @ drop (Suc (i + length ds)) out)"
    by (simp add: take_update_snoc)
  with Cons.prems(1-4) bytes show ?case
    by (simp add: cec_simps descriptor_fields store_descriptor_def)
qed

definition sent_count :: "'a list \<Rightarrow> nat" where
  "sent_count xs = min 4 (length xs mod 256)"

lemma sent_count_le: "sent_count xs \<le> 4" "sent_count xs \<le> length xs"
  by (simp_all add: sent_count_def min.coboundedI2)

lemma unat_small_len: "k \<le> 14 \<Longrightarrow> unat (of_nat (2 + k) :: u32) = 2 + k"
  by (subst unat_of_nat) simp

lemma descriptor_size: "2 + 3 * sent_count xs \<le> 16" "2 + sent_count xs \<le> 16"
  using sent_count_le(1) [of xs] by linarith+

lemma cut_count:
  "unat (if (of_nat (length xs) :: u8) > 4 then 4 else of_nat (length xs) :: u8) = sent_count xs"
  by (simp add: sent_count_def word_less_nat_alt unat_of_nat)

lemma cut_promote:
  "promote (if (of_nat (length xs) :: u8) > 4 then 4 else of_nat (length xs) :: u8) =
     of_nat (sent_count xs)"
  using cut_count [of xs] by (metis of_nat_unat)

lemma report_short_audio_descriptor_effect:
  assumes "cec_wf m"
  shows "cec_msg_report_short_audio_descriptor (of_nat (length ds)) ds m =
    Some (puts 2 (concat (map descriptor_bytes (take (sent_count ds) ds)))
      (put 1 CEC_MSG_REPORT_SHORT_AUDIO_DESCRIPTOR (m\<lparr>len := of_nat (2 + 3 * sent_count ds)\<rparr>)))"
  using assms sent_count_le [of ds]
  by (simp add: cec_msg_report_short_audio_descriptor_def Let_def cut_count cut_promote cec_simps
      put_descriptors_puts mult.commute)

lemma to_u8_count: "k \<le> 4 \<Longrightarrow> to_u8 (of_nat k :: u32) = of_nat k"
  by (simp add: word_unat_eq_iff unsigned_ucast_eq unat_of_nat take_bit_nat_def)

lemma report_descriptor_count:
  assumes "len r = of_nat (2 + 3 * k)" and "k \<le> 4"
  shows "to_u8 ((len r - 2) div 3) = of_nat k"
proof -
  have "(of_nat (3 * k) :: u32) div 3 = of_nat k"
    using assms(2) by (simp add: word_unat_eq_iff unat_div unat_of_nat del: of_nat_mult)
  moreover have "len r - 2 = of_nat (3 * k)"
    using assms(1) by simp
  ultimately show ?thesis
    using to_u8_count [OF assms(2)] by simp
qed

interpretation report_short_audio_descriptor: cec_codec
  "\<lambda>ds. cec_msg_report_short_audio_descriptor (of_nat (length ds)) ds"
  CEC_MSG_REPORT_SHORT_AUDIO_DESCRIPTOR False "\<lambda>ds. 2 + 3 * sent_count ds"
  "\<lambda>r. cec_ops_report_short_audio_descriptor r out"
  "\<lambda>ds. (of_nat (sent_count ds), take (sent_count ds) ds @ drop (sent_count ds) out)"
  "\<lambda>ds. (\<forall>d \<in> set ds. d < 0x1000000) \<and> 4 \<le> length out" for out
proof unfold_locales
  fix m r m' and ds :: "u32 list"
  let ?k = "sent_count ds"
  let ?bs = "concat (map descriptor_bytes (take ?k ds))"
  assume wf: "cec_wf m" and small: "(\<forall>d \<in> set ds. d < 0x1000000) \<and> 4 \<le> length out"
    and built: "cec_msg_report_short_audio_descriptor (of_nat (length ds)) ds m = Some m'"
    and recv: "wire m' r"
  note k = sent_count_le [of ds]
  have bs: "length ?bs = 3 * ?k"
    using k by (simp add: length_descriptor_bytes)
  have m': "m' = puts 2 ?bs (put 1 CEC_MSG_REPORT_SHORT_AUDIO_DESCRIPTOR
      (m\<lparr>len := of_nat (2 + 3 * ?k)\<rparr>))"
    using built report_short_audio_descriptor_effect [OF wf] by simp
  then have len: "len r = of_nat (2 + 3 * ?k)"
    using wireD(2) [OF recv] by (simp add: cec_simps)
  then have unat_len: "unat (len m') = 2 + 3 * ?k"
    using wireD(2) [OF recv] k unat_small_len [of "3 * ?k"] by simp
  have "payload m' 2 (3 * ?k) = ?bs"
    unfolding m' using payload_puts [of _ 2 ?bs] wf k bs by (simp add: cec_simps)
  moreover have "payload r 2 (3 * ?k) = payload m' 2 (3 * ?k)"
    using recv unat_len by (intro payload_wire) simp_all
  ultimately have "get_descriptors (length (take ?k ds)) 0 r out =
      Some (take 0 out @ take ?k ds @ drop (0 + length (take ?k ds)) out)"
    using k small wireD(1) [OF recv]
    by (intro get_descriptors_payload) (auto dest: in_set_takeD)
  with k len report_descriptor_count [OF len k(1)]
  show "cec_ops_report_short_audio_descriptor r out = Some (of_nat ?k, take ?k ds @ drop ?k out)"
    by (simp add: cec_ops_report_short_audio_descriptor_def Let_def word_less_nat_alt unat_of_nat)
qed (use descriptor_size in \<open>auto simp: report_short_audio_descriptor_effect cec_simps\<close>)

lemma audio_format_fields:
  assumes "fid < 4" and "code < (64::u8)"
  shows "to_u8 (drop_bit 6 (promote (audio_format_byte fid code))) = (fid::u8)"
    and "to_u8 (promote (audio_format_byte fid code) AND 0x3f) = code"
  using assms by (simp_all add: audio_format_byte_def below_pow2 bits8)

lemma put_formats_puts:
  "cec_wf m \<Longrightarrow> i + k \<le> length fs \<Longrightarrow> i + k \<le> 4 \<Longrightarrow>
     put_formats k i (map fst fs) (map snd fs) m =
       Some (puts (2 + i) (map (case_prod audio_format_byte) (take k (drop i fs))) m)"
proof (induction k arbitrary: i m)
  case 0
  then show ?case by simp
next
  case (Suc k)
  then have "drop i fs = fs ! i # drop (Suc i) fs"
    by (simp add: Cons_nth_drop_Suc)
  with Suc show ?case
    by (simp add: cec_simps split_beta)
qed

lemma get_formats_payload:
  "cec_wf r \<Longrightarrow> i + length fs \<le> 4 \<Longrightarrow> \<forall>(fid, code) \<in> set fs. fid < 4 \<and> code < 64 \<Longrightarrow>
     i + length fs \<le> length ids \<Longrightarrow> i + length fs \<le> length codes \<Longrightarrow>
     payload r (2 + i) (length fs) = map (case_prod audio_format_byte) fs \<Longrightarrow>
     get_formats (length fs) i r ids codes =
       Some (take i ids @ map fst fs @ drop (i + length fs) ids,
             take i codes @ map snd fs @ drop (i + length fs) codes)"
proof (induction fs arbitrary: i ids codes)
  case Nil
  then show ?case by simp
next
  case (Cons f fs)
  obtain fid code where f: "f = (fid, code)"
    by (cases f)
  from Cons.prems f have b: "byte r (2 + i) = audio_format_byte fid code"
    and rest: "payload r (2 + Suc i) (length fs) = map (case_prod audio_format_byte) fs"
    by (simp_all add: payload_Suc)
  from Cons.IH [of "Suc i" "ids[i := fid]" "codes[i := code]"] Cons.prems rest
  have "get_formats (length fs) (Suc i) r (ids[i := fid]) (codes[i := code]) =
      Some (take i ids @ (fid # map fst fs) @ drop (Suc (i + length fs)) ids,
            take i codes @ (code # map snd fs) @ drop (Suc (i + length fs)) codes)"
    by (simp add: take_update_snoc)
  with Cons.prems(1-5) b f show ?case
    by (simp add: cec_simps audio_format_fields store_byte_def)
qed

lemma request_short_audio_descriptor_effect:
  assumes "cec_wf m"
  shows "cec_msg_request_short_audio_descriptor w (of_nat (length fs)) (map fst fs) (map snd fs) m =
    Some (puts 2 (map (case_prod audio_format_byte) (take (sent_count fs) fs))
      ((put 1 CEC_MSG_REQUEST_SHORT_AUDIO_DESCRIPTOR (m\<lparr>len := of_nat (2 + sent_count fs)\<rparr>))
        \<lparr>reply := reply_op w CEC_MSG_REPORT_SHORT_AUDIO_DESCRIPTOR\<rparr>))"
  using assms sent_count_le [of fs]
  by (simp add: cec_msg_request_short_audio_descriptor_def Let_def cut_count cut_promote cec_simps
      put_formats_puts)

interpretation request_short_audio_descriptor: cec_codec
  "\<lambda>fs. cec_msg_request_short_audio_descriptor w (of_nat (length fs)) (map fst fs) (map snd fs)"
  CEC_MSG_REQUEST_SHORT_AUDIO_DESCRIPTOR False "\<lambda>fs. 2 + sent_count fs"
  "\<lambda>r. cec_ops_request_short_audio_descriptor r ids codes"
  "\<lambda>fs. (of_nat (sent_count fs), map fst (take (sent_count fs) fs) @ drop (sent_count fs) ids,
      map snd (take (sent_count fs) fs) @ drop (sent_count fs) codes)"
  "\<lambda>fs. (\<forall>(fid, code) \<in> set fs. fid < 4 \<and> code < 64) \<and> 4 \<le> length ids \<and> 4 \<le> length codes"
  for w ids codes
proof unfold_locales
  fix m r m' and fs :: "(u8 \<times> u8) list"
  let ?k = "sent_count fs"
  let ?bs = "map (case_prod audio_format_byte) (take ?k fs)"
  assume wf: "cec_wf m" and small: "(\<forall>(fid, code) \<in> set fs. fid < 4 \<and> code < 64) \<and>
      4 \<le> length ids \<and> 4 \<le> length codes"
    and built: "cec_msg_request_short_audio_descriptor w (of_nat (length fs)) (map fst fs)
      (map snd fs) m = Some m'"
    and recv: "wire m' r"
  note k = sent_count_le [of fs]
  have m': "m' = puts 2 ?bs ((put 1 CEC_MSG_REQUEST_SHORT_AUDIO_DESCRIPTOR
      (m\<lparr>len := of_nat (2 + ?k)\<rparr>))\<lparr>reply := reply_op w CEC_MSG_REPORT_SHORT_AUDIO_DESCRIPTOR\<rparr>)"
    using built request_short_audio_descriptor_effect [OF wf] by simp
  then have len: "len r = of_nat (2 + ?k)"
    using wireD(2) [OF recv] by (simp add: cec_simps)
  then have unat_len: "unat (len m') = 2 + ?k"
    using wireD(2) [OF recv] k unat_small_len [of ?k] by simp
  have "payload m' 2 ?k = ?bs"
    unfolding m' using payload_puts [of _ 2 ?bs] wf k by (simp add: cec_simps min_absorb2)
  moreover have "payload r 2 ?k = payload m' 2 ?k"
    using recv unat_len by (intro payload_wire) simp_all
  ultimately have "get_formats (length (take ?k fs)) 0 r ids codes =
      Some (take 0 ids @ map fst (take ?k fs) @ drop (0 + length (take ?k fs)) ids,
            take 0 codes @ map snd (take ?k fs) @ drop (0 + length (take ?k fs)) codes)"
    using k small wireD(1) [OF recv]
    by (intro get_formats_payload) (auto dest!: in_set_takeD)
  moreover have "to_u8 (len r - 2) = of_nat ?k"
    using to_u8_count [OF k(1)] len by simp
  ultimately show "cec_ops_request_short_audio_descriptor r ids codes =
      Some (of_nat ?k, map fst (take ?k fs) @ drop ?k ids, map snd (take ?k fs) @ drop ?k codes)"
    using k by (simp add: cec_ops_request_short_audio_descriptor_def Let_def word_less_nat_alt
        unat_of_nat)
qed (use descriptor_size in \<open>auto simp: request_short_audio_descriptor_effect cec_simps\<close>)

section \<open>Further theorems\<close>

text \<open>
  Short audio descriptors of 24 bits survive the wire: the receiver gets the first four (or all,
  if fewer) of at most 255 descriptors and their number, in the front of its array.
\<close>

theorem audio_descriptors_roundtrip:
  assumes "cec_wf m" and "\<forall>d \<in> set ds. d < 0x1000000" and "length ds < 256"
    and "cec_msg_report_short_audio_descriptor (of_nat (length ds)) ds m = Some m'" and "wire m' rx"
    and "4 \<le> length out"
  shows "cec_ops_report_short_audio_descriptor rx out =
    Some (of_nat (min 4 (length ds)), take 4 ds @ drop (min 4 (length ds)) out)"
proof -
  have "sent_count ds = min 4 (length ds)"
    using assms(3) by (simp add: sent_count_def)
  moreover have "take (min 4 (length ds)) ds = take 4 ds"
    by (metis min.commute take_all_iff take_take order_refl)
  ultimately show ?thesis
    using report_short_audio_descriptor.parse_wire [OF assms(1) _ assms(4,5)] assms(2,6) by simp
qed

text \<open>
  A latency report survives the wire: the audio output delay is transmitted, and read back,
  exactly when the compensation code says it is there (3), and is 0 otherwise.
\<close>

theorem latency_roundtrip:
  assumes "cec_wf m" and "low < 2" and "cmpn < 4"
    and "cec_msg_report_current_latency phys video low cmpn delay m = Some m'" and "wire m' rx"
  shows "unat (len m') = (if cmpn = 3 then 7 else 6) \<and>
    cec_ops_report_current_latency rx =
      Some (phys, video, low, cmpn, if cmpn = 3 then delay else 0)"
  using report_current_latency.parse_wire [of m "(phys, video, low, cmpn, delay)" m' rx]
    report_current_latency.build_len [of m "(phys, video, low, cmpn, delay)" m'] assms
  by (simp add: latency_valid_def latency_view_def)

end
