(* ===== verification/Cec_Cdc.thy ===== *)
theory Cec_Cdc
  imports Cec_Message Cec_Opcodes
begin

text \<open>
  The Capability Discovery and Control feature of \<^verbatim>\<open>linux/cec-funcs.h\<close> (HDMI Ethernet
  Channel and Hot Plug Detect). Every CDC message is a broadcast with the opcode
  \<open>CEC_MSG_CDC_MESSAGE\<close>; the CDC opcode is byte 4. Bytes 2 and 3, the physical address of
  the sender, are not written by the message functions: their comment says that the CEC
  framework fills them in, which is \<open>cdc_fill\<close> below, and the parsers read them.
\<close>

section \<open>HDMI Ethernet Channel\<close>

abbreviation (input) CEC_PHYS_ADDR_INVALID :: u16 where "CEC_PHYS_ADDR_INVALID \<equiv> 0xffff"

definition cec_msg_cdc_hec_inquire_state :: "u16 \<Rightarrow> u16 \<Rightarrow> cec_stmt" where
  "cec_msg_cdc_hec_inquire_state phys_addr1 phys_addr2 = exec [
     set_len 9,
     or_broadcast,
     wr 1 CEC_MSG_CDC_MESSAGE,
     wr 4 CEC_MSG_CDC_HEC_INQUIRE_STATE,
     wr 5 (hi8 phys_addr1),
     wr 6 (lo8 phys_addr1),
     wr 7 (hi8 phys_addr2),
     wr 8 (lo8 phys_addr2)]"

definition cec_ops_cdc_hec_inquire_state :: "cec_msg \<Rightarrow> (u16 \<times> u16 \<times> u16) option" where
  "cec_ops_cdc_hec_inquire_state m = do {
     phys_addr \<leftarrow> rd_be16 m 2 3;
     phys_addr1 \<leftarrow> rd_be16 m 5 6;
     phys_addr2 \<leftarrow> rd_be16 m 7 8;
     Some (phys_addr, phys_addr1, phys_addr2) }"

text \<open>
  \<open>(hec_func_state << 6) | (host_func_state << 4) | (enc_func_state << 2) | cdc_errcode\<close>.
\<close>

definition hec_state_byte :: "u8 \<Rightarrow> u8 \<Rightarrow> u8 \<Rightarrow> u8 \<Rightarrow> u8" where
  "hec_state_byte hec host enc err =
     to_u8 (push_bit 6 (promote hec) OR push_bit 4 (promote host) OR push_bit 2 (promote enc) OR
       promote err)"

definition cec_msg_cdc_hec_report_state ::
  "u16 \<Rightarrow> u8 \<Rightarrow> u8 \<Rightarrow> u8 \<Rightarrow> u8 \<Rightarrow> u8 \<Rightarrow> u16 \<Rightarrow> cec_stmt" where
  "cec_msg_cdc_hec_report_state target_phys_addr hec_func_state host_func_state enc_func_state
     cdc_errcode has_field hec_field = exec [
     set_len (if has_field \<noteq> 0 then 10 else 8),
     or_broadcast,
     wr 1 CEC_MSG_CDC_MESSAGE,
     wr 4 CEC_MSG_CDC_HEC_REPORT_STATE,
     wr 5 (hi8 target_phys_addr),
     wr 6 (lo8 target_phys_addr),
     wr 7 (hec_state_byte hec_func_state host_func_state enc_func_state cdc_errcode),
     when_stmt (has_field \<noteq> 0) [
       wr 8 (hi8 hec_field),
       wr 9 (lo8 hec_field)]]"

definition cec_ops_cdc_hec_report_state ::
  "cec_msg \<Rightarrow> (u16 \<times> u16 \<times> u8 \<times> u8 \<times> u8 \<times> u8 \<times> u8 \<times> u16) option" where
  "cec_ops_cdc_hec_report_state m = do {
     phys_addr \<leftarrow> rd_be16 m 2 3;
     target_phys_addr \<leftarrow> rd_be16 m 5 6;
     b \<leftarrow> rd m 7;
     let hec_func_state = to_u8 (drop_bit 6 (promote b));
     let host_func_state = to_u8 (drop_bit 4 (promote b) AND 3);
     let enc_func_state = to_u8 (drop_bit 4 (promote b) AND 3);
     let cdc_errcode = to_u8 (promote b AND 3);
     let has_field = (if len m \<ge> 10 then 1 else 0);
     hec_field \<leftarrow> (if has_field \<noteq> 0 then rd_be16 m 8 9 else Some 0);
     Some (phys_addr, target_phys_addr, hec_func_state, host_func_state, enc_func_state,
       cdc_errcode, has_field, hec_field) }"

definition cec_msg_cdc_hec_set_state ::
  "u16 \<Rightarrow> u16 \<Rightarrow> u8 \<Rightarrow> u16 \<Rightarrow> u16 \<Rightarrow> u16 \<Rightarrow> cec_stmt" where
  "cec_msg_cdc_hec_set_state phys_addr1 phys_addr2 hec_set_state phys_addr3 phys_addr4
     phys_addr5 = exec [
     set_len 10,
     or_broadcast,
     wr 1 CEC_MSG_CDC_MESSAGE,
     wr 4 CEC_MSG_CDC_HEC_INQUIRE_STATE,
     wr 5 (hi8 phys_addr1),
     wr 6 (lo8 phys_addr1),
     wr 7 (hi8 phys_addr2),
     wr 8 (lo8 phys_addr2),
     wr 9 hec_set_state,
     when_stmt (phys_addr3 \<noteq> CEC_PHYS_ADDR_INVALID) [
       push_byte (hi8 phys_addr3),
       push_byte (lo8 phys_addr3),
       when_stmt (phys_addr4 \<noteq> CEC_PHYS_ADDR_INVALID) [
         push_byte (hi8 phys_addr4),
         push_byte (lo8 phys_addr4),
         when_stmt (phys_addr5 \<noteq> CEC_PHYS_ADDR_INVALID) [
           push_byte (hi8 phys_addr5),
           push_byte (lo8 phys_addr5)]]]]"

definition cec_ops_cdc_hec_set_state ::
  "cec_msg \<Rightarrow> (u16 \<times> u16 \<times> u16 \<times> u8 \<times> u16 \<times> u16 \<times> u16) option" where
  "cec_ops_cdc_hec_set_state m = do {
     phys_addr \<leftarrow> rd_be16 m 2 3;
     phys_addr1 \<leftarrow> rd_be16 m 5 6;
     phys_addr2 \<leftarrow> rd_be16 m 7 8;
     hec_set_state \<leftarrow> rd m 9;
     phys_addr3 \<leftarrow> (if len m \<ge> 12 then rd_be16 m 10 11 else Some CEC_PHYS_ADDR_INVALID);
     phys_addr4 \<leftarrow> (if len m \<ge> 14 then rd_be16 m 12 13 else Some CEC_PHYS_ADDR_INVALID);
     phys_addr5 \<leftarrow> (if len m \<ge> 16 then rd_be16 m 14 15 else Some CEC_PHYS_ADDR_INVALID);
     Some (phys_addr, phys_addr1, phys_addr2, hec_set_state, phys_addr3, phys_addr4, phys_addr5) }"

definition cec_msg_cdc_hec_set_state_adjacent :: "u16 \<Rightarrow> u8 \<Rightarrow> cec_stmt" where
  "cec_msg_cdc_hec_set_state_adjacent phys_addr1 hec_set_state = exec [
     set_len 8,
     or_broadcast,
     wr 1 CEC_MSG_CDC_MESSAGE,
     wr 4 CEC_MSG_CDC_HEC_SET_STATE_ADJACENT,
     wr 5 (hi8 phys_addr1),
     wr 6 (lo8 phys_addr1),
     wr 7 hec_set_state]"

definition cec_ops_cdc_hec_set_state_adjacent :: "cec_msg \<Rightarrow> (u16 \<times> u16 \<times> u8) option" where
  "cec_ops_cdc_hec_set_state_adjacent m = do {
     phys_addr \<leftarrow> rd_be16 m 2 3;
     phys_addr1 \<leftarrow> rd_be16 m 5 6;
     hec_set_state \<leftarrow> rd m 7;
     Some (phys_addr, phys_addr1, hec_set_state) }"

definition cec_msg_cdc_hec_request_deactivation :: "u16 \<Rightarrow> u16 \<Rightarrow> u16 \<Rightarrow> cec_stmt" where
  "cec_msg_cdc_hec_request_deactivation phys_addr1 phys_addr2 phys_addr3 = exec [
     set_len 11,
     or_broadcast,
     wr 1 CEC_MSG_CDC_MESSAGE,
     wr 4 CEC_MSG_CDC_HEC_REQUEST_DEACTIVATION,
     wr 5 (hi8 phys_addr1),
     wr 6 (lo8 phys_addr1),
     wr 7 (hi8 phys_addr2),
     wr 8 (lo8 phys_addr2),
     wr 9 (hi8 phys_addr3),
     wr 10 (lo8 phys_addr3)]"

definition cec_ops_cdc_hec_request_deactivation :: "cec_msg \<Rightarrow> (u16 \<times> u16 \<times> u16 \<times> u16) option" where
  "cec_ops_cdc_hec_request_deactivation m = do {
     phys_addr \<leftarrow> rd_be16 m 2 3;
     phys_addr1 \<leftarrow> rd_be16 m 5 6;
     phys_addr2 \<leftarrow> rd_be16 m 7 8;
     phys_addr3 \<leftarrow> rd_be16 m 9 10;
     Some (phys_addr, phys_addr1, phys_addr2, phys_addr3) }"

definition cec_msg_cdc_hec_notify_alive :: "cec_stmt" where
  "cec_msg_cdc_hec_notify_alive = exec [
     set_len 5,
     or_broadcast,
     wr 1 CEC_MSG_CDC_MESSAGE,
     wr 4 CEC_MSG_CDC_HEC_NOTIFY_ALIVE]"

definition cec_ops_cdc_hec_notify_alive :: "cec_msg \<Rightarrow> (u16) option" where
  "cec_ops_cdc_hec_notify_alive m = do {
     phys_addr \<leftarrow> rd_be16 m 2 3;
     Some (phys_addr) }"

definition cec_msg_cdc_hec_discover :: "cec_stmt" where
  "cec_msg_cdc_hec_discover = exec [
     set_len 5,
     or_broadcast,
     wr 1 CEC_MSG_CDC_MESSAGE,
     wr 4 CEC_MSG_CDC_HEC_DISCOVER]"

definition cec_ops_cdc_hec_discover :: "cec_msg \<Rightarrow> (u16) option" where
  "cec_ops_cdc_hec_discover m = do {
     phys_addr \<leftarrow> rd_be16 m 2 3;
     Some (phys_addr) }"

section \<open>Hot Plug Detect\<close>

text \<open>\<open>(input_port << 4) | hpd_state\<close> and \<open>(hpd_state << 4) | hpd_error\<close>.\<close>

definition nibbles :: "u8 \<Rightarrow> u8 \<Rightarrow> u8" where
  "nibbles hi lo = to_u8 (push_bit 4 (promote hi) OR promote lo)"

definition rd_nibbles :: "cec_msg \<Rightarrow> nat \<Rightarrow> (u8 \<times> u8) option" where
  "rd_nibbles m i = do {
     b \<leftarrow> rd m i;
     Some (to_u8 (drop_bit 4 (promote b)), to_u8 (promote b AND 0xf)) }"

definition cec_msg_cdc_hpd_set_state :: "u8 \<Rightarrow> u8 \<Rightarrow> cec_stmt" where
  "cec_msg_cdc_hpd_set_state input_port hpd_state = exec [
     set_len 6,
     or_broadcast,
     wr 1 CEC_MSG_CDC_MESSAGE,
     wr 4 CEC_MSG_CDC_HPD_SET_STATE,
     wr 5 (nibbles input_port hpd_state)]"

definition cec_ops_cdc_hpd_set_state :: "cec_msg \<Rightarrow> (u16 \<times> u8 \<times> u8) option" where
  "cec_ops_cdc_hpd_set_state m = do {
     phys_addr \<leftarrow> rd_be16 m 2 3;
     (input_port, hpd_state) \<leftarrow> rd_nibbles m 5;
     Some (phys_addr, input_port, hpd_state) }"

definition cec_msg_cdc_hpd_report_state :: "u8 \<Rightarrow> u8 \<Rightarrow> cec_stmt" where
  "cec_msg_cdc_hpd_report_state hpd_state hpd_error = exec [
     set_len 6,
     or_broadcast,
     wr 1 CEC_MSG_CDC_MESSAGE,
     wr 4 CEC_MSG_CDC_HPD_REPORT_STATE,
     wr 5 (nibbles hpd_state hpd_error)]"

definition cec_ops_cdc_hpd_report_state :: "cec_msg \<Rightarrow> (u16 \<times> u8 \<times> u8) option" where
  "cec_ops_cdc_hpd_report_state m = do {
     phys_addr \<leftarrow> rd_be16 m 2 3;
     (hpd_state, hpd_error) \<leftarrow> rd_nibbles m 5;
     Some (phys_addr, hpd_state, hpd_error) }"

section \<open>Contracts\<close>

text \<open>
  The framework's part: the physical address of the sender in bytes 2 and 3.
  A CDC function followed by \<open>cdc_fill\<close> is a codec.
\<close>

definition cdc_fill :: "u16 \<Rightarrow> cec_stmt" where
  "cdc_fill phys_addr = exec [wr 2 (hi8 phys_addr), wr 3 (lo8 phys_addr)]"

text \<open>The CDC opcode of a message.\<close>

definition cdc_opcode :: "cec_msg \<Rightarrow> u8" where
  "cdc_opcode m = byte m 4"

lemmas cdc_simps = cec_simps cdc_fill_def wire_def

lemma nibbles_fields:
  assumes "lo < (16::u8)" and "hi < 16"
  shows "to_u8 (drop_bit 4 (promote (nibbles hi lo))) = (hi::u8)"
    and "to_u8 (promote (nibbles hi lo) AND 0xf) = lo"
  using assms by (simp_all add: nibbles_def below_pow2 bits8)

lemma hec_state_fields:
  assumes "hec < 4" and "host < 4" and "enc < 4" and "err < (4::u8)"
  shows "to_u8 (drop_bit 6 (promote (hec_state_byte hec host enc err))) = (hec::u8)"
    and "to_u8 (drop_bit 4 (promote (hec_state_byte hec host enc err)) AND 3) = (host::u8)"
    and "to_u8 (promote (hec_state_byte hec host enc err) AND 3) = err"
  using assms by (simp_all add: hec_state_byte_def below_pow2 bits8)

interpretation cdc_hec_inquire_state: cec_codec
  "\<lambda>(phys_addr, phys_addr1, phys_addr2). exec [cec_msg_cdc_hec_inquire_state phys_addr1
      phys_addr2, cdc_fill phys_addr]"
  CEC_MSG_CDC_MESSAGE True "\<lambda>_. 9"
  cec_ops_cdc_hec_inquire_state "\<lambda>a. a" "\<lambda>_. True"
  by unfold_locales (auto simp: cec_msg_cdc_hec_inquire_state_def
      cec_ops_cdc_hec_inquire_state_def cdc_simps)

definition hec_report_valid :: "u16 \<times> u16 \<times> u8 \<times> u8 \<times> u8 \<times> u8 \<times> u8 \<times> u16 \<Rightarrow> bool" where
  "hec_report_valid = (\<lambda>(_, _, hec, host, enc, err, _, _). hec < 4 \<and> host < 4 \<and> enc < 4 \<and> err < 4)"

text \<open>
  What the receiver of a HEC state report sees: the state of the host functionality where
  the state of the Ethernet network connection functionality (\<open>enc\<close>) is expected.
\<close>

definition hec_report_view ::
  "u16 \<times> u16 \<times> u8 \<times> u8 \<times> u8 \<times> u8 \<times> u8 \<times> u16 \<Rightarrow> u16 \<times> u16 \<times> u8 \<times> u8 \<times> u8 \<times> u8 \<times> u8 \<times> u16" where
  "hec_report_view = (\<lambda>(phys, target, hec, host, enc, err, has_field, field).
     (phys, target, hec, host, host, err, if has_field \<noteq> 0 then 1 else 0,
      if has_field \<noteq> 0 then field else 0))"

interpretation cdc_hec_report_state: cec_codec
  "\<lambda>(phys_addr, target, hec, host, enc, err, has_field, field). exec [cec_msg_cdc_hec_report_state
      target hec host enc err has_field field, cdc_fill phys_addr]"
  CEC_MSG_CDC_MESSAGE True "\<lambda>(phys_addr, target, hec, host, enc, err, has_field, field). if
      has_field \<noteq> 0 then 10 else 8"
  cec_ops_cdc_hec_report_state hec_report_view hec_report_valid
  by unfold_locales (auto simp: cec_msg_cdc_hec_report_state_def cec_ops_cdc_hec_report_state_def
      cdc_simps
      hec_report_valid_def hec_report_view_def hec_state_fields Let_def split: if_splits)

text \<open>
  The optional addresses of a HEC set-state message are a prefix: an absent address hides
  the ones after it.
\<close>

definition hec_set_len :: "u16 \<Rightarrow> u16 \<Rightarrow> u16 \<Rightarrow> nat" where
  "hec_set_len p3 p4 p5 =
     (if p3 = CEC_PHYS_ADDR_INVALID then 10 else if p4 = CEC_PHYS_ADDR_INVALID then 12
      else if p5 = CEC_PHYS_ADDR_INVALID then 14 else 16)"

definition hec_set_view :: "u16 \<times> u16 \<times> u16 \<times> u8 \<times> u16 \<times> u16 \<times> u16 \<Rightarrow>
    u16 \<times> u16 \<times> u16 \<times> u8 \<times> u16 \<times> u16 \<times> u16" where
  "hec_set_view = (\<lambda>(phys, p1, p2, st, p3, p4, p5).
     let p4' = (if p3 = CEC_PHYS_ADDR_INVALID then CEC_PHYS_ADDR_INVALID else p4) in
     (phys, p1, p2, st, p3, p4', if p4' = CEC_PHYS_ADDR_INVALID then CEC_PHYS_ADDR_INVALID else
         p5))"

interpretation cdc_hec_set_state: cec_codec
  "\<lambda>(phys_addr, p1, p2, st, p3, p4, p5). exec [cec_msg_cdc_hec_set_state p1 p2 st p3 p4 p5,
      cdc_fill phys_addr]"
  CEC_MSG_CDC_MESSAGE True "\<lambda>(phys_addr, p1, p2, st, p3, p4, p5). hec_set_len p3 p4 p5"
  cec_ops_cdc_hec_set_state hec_set_view "\<lambda>_. True"
  by unfold_locales (auto simp: cec_msg_cdc_hec_set_state_def cec_ops_cdc_hec_set_state_def
      cdc_simps
      hec_set_len_def hec_set_view_def Let_def split: if_splits)

interpretation cdc_hec_set_state_adjacent: cec_codec
  "\<lambda>(phys_addr, phys_addr1, hec_set_state). exec [cec_msg_cdc_hec_set_state_adjacent phys_addr1
      hec_set_state, cdc_fill phys_addr]"
  CEC_MSG_CDC_MESSAGE True "\<lambda>_. 8"
  cec_ops_cdc_hec_set_state_adjacent "\<lambda>a. a" "\<lambda>_. True"
  by unfold_locales (auto simp: cec_msg_cdc_hec_set_state_adjacent_def
      cec_ops_cdc_hec_set_state_adjacent_def cdc_simps)

interpretation cdc_hec_request_deactivation: cec_codec
  "\<lambda>(phys_addr, phys_addr1, phys_addr2, phys_addr3). exec [cec_msg_cdc_hec_request_deactivation
      phys_addr1 phys_addr2 phys_addr3, cdc_fill phys_addr]"
  CEC_MSG_CDC_MESSAGE True "\<lambda>_. 11"
  cec_ops_cdc_hec_request_deactivation "\<lambda>a. a" "\<lambda>_. True"
  by unfold_locales (auto simp: cec_msg_cdc_hec_request_deactivation_def
      cec_ops_cdc_hec_request_deactivation_def cdc_simps)

interpretation cdc_hec_notify_alive: cec_codec
  "\<lambda>phys_addr. exec [cec_msg_cdc_hec_notify_alive, cdc_fill phys_addr]"
  CEC_MSG_CDC_MESSAGE True "\<lambda>_. 5"
  cec_ops_cdc_hec_notify_alive "\<lambda>a. a" "\<lambda>_. True"
  by unfold_locales (auto simp: cec_msg_cdc_hec_notify_alive_def cec_ops_cdc_hec_notify_alive_def
      cdc_simps)

interpretation cdc_hec_discover: cec_codec
  "\<lambda>phys_addr. exec [cec_msg_cdc_hec_discover, cdc_fill phys_addr]"
  CEC_MSG_CDC_MESSAGE True "\<lambda>_. 5"
  cec_ops_cdc_hec_discover "\<lambda>a. a" "\<lambda>_. True"
  by unfold_locales (auto simp: cec_msg_cdc_hec_discover_def cec_ops_cdc_hec_discover_def cdc_simps)

interpretation cdc_hpd_set_state: cec_codec
  "\<lambda>(phys_addr, input_port, hpd_state). exec [cec_msg_cdc_hpd_set_state input_port hpd_state,
      cdc_fill phys_addr]"
  CEC_MSG_CDC_MESSAGE True "\<lambda>_. 6"
  cec_ops_cdc_hpd_set_state "\<lambda>a. a" "\<lambda>(_, input_port, hpd_state). input_port < 16 \<and> hpd_state < 16"
  by unfold_locales (auto simp: cec_msg_cdc_hpd_set_state_def cec_ops_cdc_hpd_set_state_def
      cdc_simps
      rd_nibbles_def nibbles_fields)

interpretation cdc_hpd_report_state: cec_codec
  "\<lambda>(phys_addr, hpd_state, hpd_error). exec [cec_msg_cdc_hpd_report_state hpd_state hpd_error,
      cdc_fill phys_addr]"
  CEC_MSG_CDC_MESSAGE True "\<lambda>_. 6"
  cec_ops_cdc_hpd_report_state "\<lambda>a. a" "\<lambda>(_, hpd_state, hpd_error). hpd_state < 16 \<and> hpd_error < 16"
  by unfold_locales (auto simp: cec_msg_cdc_hpd_report_state_def cec_ops_cdc_hpd_report_state_def
      cdc_simps
      rd_nibbles_def nibbles_fields)

text \<open>
  The CDC opcode that each function leaves in byte 4.
\<close>

lemma cdc_opcodes_written:
  assumes "cec_wf m"
  shows "map_option cdc_opcode (cec_msg_cdc_hec_inquire_state p1 p2 m) =
      Some CEC_MSG_CDC_HEC_INQUIRE_STATE"
    and "map_option cdc_opcode (cec_msg_cdc_hec_report_state t a b c d h f m) =
      Some CEC_MSG_CDC_HEC_REPORT_STATE"
    and "map_option cdc_opcode (cec_msg_cdc_hec_set_state p1 p2 s p3 p4 p5 m) =
      Some CEC_MSG_CDC_HEC_INQUIRE_STATE"
    and "map_option cdc_opcode (cec_msg_cdc_hec_set_state_adjacent p1 s m) =
      Some CEC_MSG_CDC_HEC_SET_STATE_ADJACENT"
    and "map_option cdc_opcode (cec_msg_cdc_hec_request_deactivation p1 p2 p3 m) =
      Some CEC_MSG_CDC_HEC_REQUEST_DEACTIVATION"
    and "map_option cdc_opcode (cec_msg_cdc_hec_notify_alive m) =
      Some CEC_MSG_CDC_HEC_NOTIFY_ALIVE"
    and "map_option cdc_opcode (cec_msg_cdc_hec_discover m) = Some CEC_MSG_CDC_HEC_DISCOVER"
    and "map_option cdc_opcode (cec_msg_cdc_hpd_set_state i s m) = Some CEC_MSG_CDC_HPD_SET_STATE"
    and "map_option cdc_opcode (cec_msg_cdc_hpd_report_state s e m) =
      Some CEC_MSG_CDC_HPD_REPORT_STATE"
  using assms
  by (simp_all add: cdc_opcode_def cec_simps cec_msg_cdc_hec_inquire_state_def
      cec_msg_cdc_hec_report_state_def cec_msg_cdc_hec_set_state_def
      cec_msg_cdc_hec_set_state_adjacent_def cec_msg_cdc_hec_request_deactivation_def
      cec_msg_cdc_hec_notify_alive_def cec_msg_cdc_hec_discover_def
      cec_msg_cdc_hpd_set_state_def cec_msg_cdc_hpd_report_state_def)

section \<open>Properties\<close>

text \<open>
  C35. What the receiver of a HEC state report gets, for state fields and an error code of two
  bits each: every field as sent, except that \<open>enc_func_state\<close> is the host
  functionality state again, because the parser takes both from the same two bits.
\<close>

theorem hec_report_received:
  assumes "cec_wf m" and "hec < 4" and "host < 4" and "enc < 4" and "err < 4"
    and "exec [cec_msg_cdc_hec_report_state target hec host enc err has_field field,
      cdc_fill phys_addr] m = Some m'"
    and "wire m' rx"
  shows "cec_ops_cdc_hec_report_state rx = Some (phys_addr, target, hec, host, host, err,
    if has_field \<noteq> 0 then 1 else 0, if has_field \<noteq> 0 then field else 0)"
  using cdc_hec_report_state.parse_wire
      [of m "(phys_addr, target, hec, host, enc, err, has_field, field)" m' rx] assms
  by (simp add: hec_report_valid_def hec_report_view_def)

theorem hec_report_received_witness:
  "\<exists>m'. exec [cec_msg_cdc_hec_report_state 0x1000 1 2 3 0 0 0, cdc_fill 0x2000] blank_msg = Some m' \<and>
     cec_ops_cdc_hec_report_state m' = Some (0x2000, 0x1000, 1, 2, 2, 0, 0, 0)"
proof -
  let ?a = "(0x2000, 0x1000, 1, 2, 3, 0, 0, 0) :: u16 \<times> u16 \<times> u8 \<times> u8 \<times> u8 \<times> u8 \<times> u8 \<times> u16"
  obtain m' where b: "exec [cec_msg_cdc_hec_report_state 0x1000 1 2 3 0 0 0, cdc_fill 0x2000]
      blank_msg = Some m'"
    using cdc_hec_report_state.build_total [OF blank_wf, of ?a] by auto
  have "wire m' m'"
    using cdc_hec_report_state.build_effect [OF blank_wf, of ?a] b by (auto intro: wire_refl)
  with hec_report_received [OF blank_wf _ _ _ _ b] b show ?thesis
    by simp
qed

text \<open>
  C36. The message of \<open>cec_msg_cdc_hec_set_state\<close>: its operands survive the wire
  (the optional addresses up to the first invalid one), but its CDC opcode is the one of Inquire
  State, never \<open>CEC_MSG_CDC_HEC_SET_STATE\<close>, so a receiver that dispatches on the
  opcode does not run this parser.
\<close>

theorem hec_set_state_message:
  assumes "cec_wf m" and "exec [cec_msg_cdc_hec_set_state p1 p2 st p3 p4 p5, cdc_fill phys_addr] m = Some m'"
    and "wire m' rx"
  shows "cdc_opcode rx = CEC_MSG_CDC_HEC_INQUIRE_STATE \<and>
    CEC_MSG_CDC_HEC_INQUIRE_STATE \<noteq> (CEC_MSG_CDC_HEC_SET_STATE :: u8) \<and>
    cec_ops_cdc_hec_set_state rx = Some (hec_set_view (phys_addr, p1, p2, st, p3, p4, p5))"
proof -
  let ?a = "(phys_addr, p1, p2, st, p3, p4, p5)"
  have "cec_ops_cdc_hec_set_state rx = Some (hec_set_view ?a)"
    using cdc_hec_set_state.parse_wire [of m ?a m' rx] assms by simp
  moreover have "cdc_opcode rx = CEC_MSG_CDC_HEC_INQUIRE_STATE"
    using assms
    by (auto simp: cec_msg_cdc_hec_set_state_def cdc_simps cdc_opcode_def split: if_splits)
  ultimately show ?thesis
    by simp
qed

theorem hec_set_state_message_witness:
  "\<exists>m'. exec [cec_msg_cdc_hec_set_state 0x1000 0x2000 1 0x3000 0xffff 0x4000, cdc_fill 0] blank_msg = Some m' \<and>
     cec_ops_cdc_hec_set_state m' = Some (0, 0x1000, 0x2000, 1, 0x3000, 0xffff, 0xffff)"
proof -
  let ?a = "(0, 0x1000, 0x2000, 1, 0x3000, 0xffff, 0x4000) :: u16 \<times> u16 \<times> u16 \<times> u8 \<times> u16 \<times> u16 \<times> u16"
  obtain m' where b: "exec [cec_msg_cdc_hec_set_state 0x1000 0x2000 1 0x3000 0xffff 0x4000,
      cdc_fill 0] blank_msg = Some m'"
    using cdc_hec_set_state.build_total [OF blank_wf, of ?a] by auto
  have "wire m' m'"
    using cdc_hec_set_state.build_effect [OF blank_wf, of ?a] b by (auto intro: wire_refl)
  with hec_set_state_message [OF blank_wf b] b show ?thesis
    by (simp add: hec_set_view_def)
qed

end
