(* ===== verification/Cec_Api.thy ===== *)
theory Cec_Api
  imports Cec_Routing Cec_Record Cec_Timer Cec_System Cec_Tuner Cec_Vendor Cec_Menu Cec_Audio
    Cec_Cdc
begin

text \<open>
  The message functions of \<^verbatim>\<open>linux/cec-funcs.h\<close> as one interface. \<open>cec_function op f\<close> has one
  rule per \<open>cec_msg_*\<close> function: \<open>f\<close> is that function applied to its arguments and \<open>op\<close> its
  opcode. The functions that read an array of the caller have the caller's obligation as a
  premise (a size that the array really has, a string with its terminator); nothing is
  assumed about the outcome of the call. \<open>cec_session\<close> are the outcomes a program can see that
  starts with \<open>cec_msg_init\<close> and calls message functions in any order, the functions that
  may leave the opcode alone (\<open>cec_msg_record_on\<close> with an unknown source type) or turn a
  message into a reply (\<open>cec_msg_reply_feature_abort\<close>, \<open>cec_msg_set_reply_to\<close>) included.

  The parsers are total: whatever bytes and whatever length a received message has, no
  \<open>cec_ops_*\<close> function accesses an array outside its bounds, the payload array and the
  caller's output arrays alike.
\<close>

section \<open>The message functions\<close>

definition record_src_types :: "u8 list" where
  "record_src_types = [CEC_OP_RECORD_SRC_OWN, CEC_OP_RECORD_SRC_DIGITAL, CEC_OP_RECORD_SRC_ANALOG,
     CEC_OP_RECORD_SRC_EXT_PLUG, CEC_OP_RECORD_SRC_EXT_PHYS_ADDR]"

inductive cec_function :: "u8 \<Rightarrow> cec_stmt \<Rightarrow> bool" where
  fn_active_source:
    "cec_function CEC_MSG_ACTIVE_SOURCE (cec_msg_active_source x_phys_addr)"
| fn_image_view_on:
    "cec_function CEC_MSG_IMAGE_VIEW_ON cec_msg_image_view_on"
| fn_text_view_on:
    "cec_function CEC_MSG_TEXT_VIEW_ON cec_msg_text_view_on"
| fn_inactive_source:
    "cec_function CEC_MSG_INACTIVE_SOURCE (cec_msg_inactive_source x_phys_addr)"
| fn_request_active_source:
    "cec_function CEC_MSG_REQUEST_ACTIVE_SOURCE (cec_msg_request_active_source r)"
| fn_routing_information:
    "cec_function CEC_MSG_ROUTING_INFORMATION (cec_msg_routing_information x_phys_addr)"
| fn_routing_change:
    "cec_function CEC_MSG_ROUTING_CHANGE (cec_msg_routing_change r x_orig_phys_addr
      x_new_phys_addr)"
| fn_set_stream_path:
    "cec_function CEC_MSG_SET_STREAM_PATH (cec_msg_set_stream_path x_phys_addr)"
| fn_standby:
    "cec_function CEC_MSG_STANDBY cec_msg_standby"
| fn_record_off:
    "cec_function CEC_MSG_RECORD_OFF (cec_msg_record_off r)"
| fn_record_on_own:
    "cec_function CEC_MSG_RECORD_ON cec_msg_record_on_own"
| fn_record_on_digital:
    "cec_function CEC_MSG_RECORD_ON (cec_msg_record_on_digital x_digital)"
| fn_record_on_analog:
    "cec_function CEC_MSG_RECORD_ON (cec_msg_record_on_analog x_ana_bcast_type x_ana_freq
      x_bcast_system)"
| fn_record_on_plug:
    "cec_function CEC_MSG_RECORD_ON (cec_msg_record_on_plug x_plug)"
| fn_record_on_phys_addr:
    "cec_function CEC_MSG_RECORD_ON (cec_msg_record_on_phys_addr x_phys_addr)"
| fn_record_on:
    "src_type src \<in> set record_src_types \<Longrightarrow> cec_function CEC_MSG_RECORD_ON (cec_msg_record_on r src)"
| fn_record_status:
    "cec_function CEC_MSG_RECORD_STATUS (cec_msg_record_status x_rec_status)"
| fn_record_tv_screen:
    "cec_function CEC_MSG_RECORD_TV_SCREEN (cec_msg_record_tv_screen r)"
| fn_timer_status:
    "cec_function CEC_MSG_TIMER_STATUS (cec_msg_timer_status x_timer_overlap_warning
      x_media_info x_prog_info x_prog_error x_duration_hr x_duration_min)"
| fn_timer_cleared_status:
    "cec_function CEC_MSG_TIMER_CLEARED_STATUS (cec_msg_timer_cleared_status
      x_timer_cleared_status)"
| fn_clear_analogue_timer:
    "cec_function CEC_MSG_CLEAR_ANALOGUE_TIMER (cec_msg_clear_analogue_timer r x_day x_month
      x_start_hr x_start_min x_duration_hr x_duration_min x_recording_seq x_ana_bcast_type
      x_ana_freq x_bcast_system)"
| fn_clear_digital_timer:
    "cec_function CEC_MSG_CLEAR_DIGITAL_TIMER (cec_msg_clear_digital_timer r x_day x_month
      x_start_hr x_start_min x_duration_hr x_duration_min x_recording_seq x_digital)"
| fn_clear_ext_timer:
    "cec_function CEC_MSG_CLEAR_EXT_TIMER (cec_msg_clear_ext_timer r x_day x_month x_start_hr
      x_start_min x_duration_hr x_duration_min x_recording_seq x_ext_src_spec x_plug
      x_phys_addr)"
| fn_set_analogue_timer:
    "cec_function CEC_MSG_SET_ANALOGUE_TIMER (cec_msg_set_analogue_timer r x_day x_month
      x_start_hr x_start_min x_duration_hr x_duration_min x_recording_seq x_ana_bcast_type
      x_ana_freq x_bcast_system)"
| fn_set_digital_timer:
    "cec_function CEC_MSG_SET_DIGITAL_TIMER (cec_msg_set_digital_timer r x_day x_month
      x_start_hr x_start_min x_duration_hr x_duration_min x_recording_seq x_digital)"
| fn_set_ext_timer:
    "cec_function CEC_MSG_SET_EXT_TIMER (cec_msg_set_ext_timer r x_day x_month x_start_hr
      x_start_min x_duration_hr x_duration_min x_recording_seq x_ext_src_spec x_plug
      x_phys_addr)"
| fn_set_timer_program_title:
    "0 \<in> set x_prog_title \<Longrightarrow>
     cec_function CEC_MSG_SET_TIMER_PROGRAM_TITLE (cec_msg_set_timer_program_title
      x_prog_title)"
| fn_cec_version:
    "cec_function CEC_MSG_CEC_VERSION (cec_msg_cec_version x_cec_version)"
| fn_get_cec_version:
    "cec_function CEC_MSG_GET_CEC_VERSION (cec_msg_get_cec_version r)"
| fn_report_physical_addr:
    "cec_function CEC_MSG_REPORT_PHYSICAL_ADDR (cec_msg_report_physical_addr x_phys_addr
      x_prim_devtype)"
| fn_give_physical_addr:
    "cec_function CEC_MSG_GIVE_PHYSICAL_ADDR (cec_msg_give_physical_addr r)"
| fn_set_menu_language:
    "3 \<le> length x_language \<Longrightarrow>
     cec_function CEC_MSG_SET_MENU_LANGUAGE (cec_msg_set_menu_language x_language)"
| fn_get_menu_language:
    "cec_function CEC_MSG_GET_MENU_LANGUAGE (cec_msg_get_menu_language r)"
| fn_report_features:
    "cec_function CEC_MSG_REPORT_FEATURES (cec_msg_report_features x_cec_version
      x_all_device_types x_rc_profile x_dev_features)"
| fn_give_features:
    "cec_function CEC_MSG_GIVE_FEATURES (cec_msg_give_features r)"
| fn_deck_control:
    "cec_function CEC_MSG_DECK_CONTROL (cec_msg_deck_control x_deck_control_mode)"
| fn_deck_status:
    "cec_function CEC_MSG_DECK_STATUS (cec_msg_deck_status x_deck_info)"
| fn_give_deck_status:
    "cec_function CEC_MSG_GIVE_DECK_STATUS (cec_msg_give_deck_status r x_status_req)"
| fn_play:
    "cec_function CEC_MSG_PLAY (cec_msg_play x_play_mode)"
| fn_tuner_device_status_analog:
    "cec_function CEC_MSG_TUNER_DEVICE_STATUS (cec_msg_tuner_device_status_analog x_rec_flag
      x_tuner_display_info x_ana_bcast_type x_ana_freq x_bcast_system)"
| fn_tuner_device_status_digital:
    "cec_function CEC_MSG_TUNER_DEVICE_STATUS (cec_msg_tuner_device_status_digital x_rec_flag
      x_tuner_display_info x_digital)"
| fn_tuner_device_status:
    "cec_function CEC_MSG_TUNER_DEVICE_STATUS (cec_msg_tuner_device_status x_tuner_dev_info)"
| fn_give_tuner_device_status:
    "cec_function CEC_MSG_GIVE_TUNER_DEVICE_STATUS (cec_msg_give_tuner_device_status r
      x_status_req)"
| fn_select_analogue_service:
    "cec_function CEC_MSG_SELECT_ANALOGUE_SERVICE (cec_msg_select_analogue_service
      x_ana_bcast_type x_ana_freq x_bcast_system)"
| fn_select_digital_service:
    "cec_function CEC_MSG_SELECT_DIGITAL_SERVICE (cec_msg_select_digital_service x_digital)"
| fn_tuner_step_decrement:
    "cec_function CEC_MSG_TUNER_STEP_DECREMENT cec_msg_tuner_step_decrement"
| fn_tuner_step_increment:
    "cec_function CEC_MSG_TUNER_STEP_INCREMENT cec_msg_tuner_step_increment"
| fn_device_vendor_id:
    "cec_function CEC_MSG_DEVICE_VENDOR_ID (cec_msg_device_vendor_id x_vendor_id)"
| fn_give_device_vendor_id:
    "cec_function CEC_MSG_GIVE_DEVICE_VENDOR_ID (cec_msg_give_device_vendor_id r)"
| fn_vendor_command:
    "unat sz \<le> length x_vendor_cmd \<Longrightarrow>
     cec_function CEC_MSG_VENDOR_COMMAND (cec_msg_vendor_command sz x_vendor_cmd)"
| fn_vendor_command_with_id:
    "unat sz \<le> length x_vendor_cmd \<Longrightarrow>
     cec_function CEC_MSG_VENDOR_COMMAND_WITH_ID (cec_msg_vendor_command_with_id x_vendor_id sz
      x_vendor_cmd)"
| fn_vendor_remote_button_down:
    "unat sz \<le> length x_rc_code \<Longrightarrow>
     cec_function CEC_MSG_VENDOR_REMOTE_BUTTON_DOWN (cec_msg_vendor_remote_button_down sz
      x_rc_code)"
| fn_vendor_remote_button_up:
    "cec_function CEC_MSG_VENDOR_REMOTE_BUTTON_UP cec_msg_vendor_remote_button_up"
| fn_set_osd_string:
    "0 \<in> set osd \<Longrightarrow>
     cec_function CEC_MSG_SET_OSD_STRING (cec_msg_set_osd_string x_disp_ctl osd)"
| fn_set_osd_name:
    "0 \<in> set nm \<Longrightarrow>
     cec_function CEC_MSG_SET_OSD_NAME (cec_msg_set_osd_name nm)"
| fn_give_osd_name:
    "cec_function CEC_MSG_GIVE_OSD_NAME (cec_msg_give_osd_name r)"
| fn_menu_status:
    "cec_function CEC_MSG_MENU_STATUS (cec_msg_menu_status x_menu_state)"
| fn_menu_request:
    "cec_function CEC_MSG_MENU_REQUEST (cec_msg_menu_request r x_menu_req)"
| fn_user_control_pressed:
    "cec_function CEC_MSG_USER_CONTROL_PRESSED (cec_msg_user_control_pressed x_ui_cmd)"
| fn_user_control_released:
    "cec_function CEC_MSG_USER_CONTROL_RELEASED cec_msg_user_control_released"
| fn_report_power_status:
    "cec_function CEC_MSG_REPORT_POWER_STATUS (cec_msg_report_power_status x_pwr_state)"
| fn_give_device_power_status:
    "cec_function CEC_MSG_GIVE_DEVICE_POWER_STATUS (cec_msg_give_device_power_status r)"
| fn_feature_abort:
    "cec_function CEC_MSG_FEATURE_ABORT (cec_msg_feature_abort x_abort_msg x_reason)"
| fn_abort:
    "cec_function CEC_MSG_ABORT cec_msg_abort"
| fn_report_audio_status:
    "cec_function CEC_MSG_REPORT_AUDIO_STATUS (cec_msg_report_audio_status x_aud_mute_status
      x_aud_vol_status)"
| fn_give_audio_status:
    "cec_function CEC_MSG_GIVE_AUDIO_STATUS (cec_msg_give_audio_status r)"
| fn_set_system_audio_mode:
    "cec_function CEC_MSG_SET_SYSTEM_AUDIO_MODE (cec_msg_set_system_audio_mode
      x_sys_aud_status)"
| fn_system_audio_mode_request:
    "cec_function CEC_MSG_SYSTEM_AUDIO_MODE_REQUEST (cec_msg_system_audio_mode_request r
      x_phys_addr)"
| fn_system_audio_mode_status:
    "cec_function CEC_MSG_SYSTEM_AUDIO_MODE_STATUS (cec_msg_system_audio_mode_status
      x_sys_aud_status)"
| fn_give_system_audio_mode_status:
    "cec_function CEC_MSG_GIVE_SYSTEM_AUDIO_MODE_STATUS (cec_msg_give_system_audio_mode_status
      r)"
| fn_report_short_audio_descriptor:
    "unat x_num_descriptors \<le> length x_descriptors \<Longrightarrow>
     cec_function CEC_MSG_REPORT_SHORT_AUDIO_DESCRIPTOR (cec_msg_report_short_audio_descriptor
      x_num_descriptors x_descriptors)"
| fn_request_short_audio_descriptor:
    "unat x_num_descriptors \<le> length x_audio_format_id \<Longrightarrow>
     unat x_num_descriptors \<le> length x_audio_format_code \<Longrightarrow>
     cec_function CEC_MSG_REQUEST_SHORT_AUDIO_DESCRIPTOR
      (cec_msg_request_short_audio_descriptor r x_num_descriptors x_audio_format_id
      x_audio_format_code)"
| fn_set_audio_rate:
    "cec_function CEC_MSG_SET_AUDIO_RATE (cec_msg_set_audio_rate x_audio_rate)"
| fn_report_arc_initiated:
    "cec_function CEC_MSG_REPORT_ARC_INITIATED cec_msg_report_arc_initiated"
| fn_initiate_arc:
    "cec_function CEC_MSG_INITIATE_ARC (cec_msg_initiate_arc r)"
| fn_request_arc_initiation:
    "cec_function CEC_MSG_REQUEST_ARC_INITIATION (cec_msg_request_arc_initiation r)"
| fn_report_arc_terminated:
    "cec_function CEC_MSG_REPORT_ARC_TERMINATED cec_msg_report_arc_terminated"
| fn_terminate_arc:
    "cec_function CEC_MSG_TERMINATE_ARC (cec_msg_terminate_arc r)"
| fn_request_arc_termination:
    "cec_function CEC_MSG_REQUEST_ARC_TERMINATION (cec_msg_request_arc_termination r)"
| fn_report_current_latency:
    "cec_function CEC_MSG_REPORT_CURRENT_LATENCY (cec_msg_report_current_latency x_phys_addr
      x_video_latency x_low_latency_mode x_audio_out_compensated x_audio_out_delay)"
| fn_request_current_latency:
    "cec_function CEC_MSG_REQUEST_CURRENT_LATENCY (cec_msg_request_current_latency r
      x_phys_addr)"
| fn_cdc_hec_inquire_state:
    "cec_function CEC_MSG_CDC_MESSAGE (cec_msg_cdc_hec_inquire_state x_phys_addr1 x_phys_addr2)"
| fn_cdc_hec_report_state:
    "cec_function CEC_MSG_CDC_MESSAGE (cec_msg_cdc_hec_report_state x_target_phys_addr
      x_hec_func_state x_host_func_state x_enc_func_state x_cdc_errcode x_has_field x_hec_field)"
| fn_cdc_hec_set_state:
    "cec_function CEC_MSG_CDC_MESSAGE (cec_msg_cdc_hec_set_state x_phys_addr1 x_phys_addr2
      x_hec_set_state x_phys_addr3 x_phys_addr4 x_phys_addr5)"
| fn_cdc_hec_set_state_adjacent:
    "cec_function CEC_MSG_CDC_MESSAGE (cec_msg_cdc_hec_set_state_adjacent x_phys_addr1
      x_hec_set_state)"
| fn_cdc_hec_request_deactivation:
    "cec_function CEC_MSG_CDC_MESSAGE (cec_msg_cdc_hec_request_deactivation x_phys_addr1
      x_phys_addr2 x_phys_addr3)"
| fn_cdc_hec_notify_alive:
    "cec_function CEC_MSG_CDC_MESSAGE cec_msg_cdc_hec_notify_alive"
| fn_cdc_hec_discover:
    "cec_function CEC_MSG_CDC_MESSAGE cec_msg_cdc_hec_discover"
| fn_cdc_hpd_set_state:
    "cec_function CEC_MSG_CDC_MESSAGE (cec_msg_cdc_hpd_set_state x_input_port x_hpd_state)"
| fn_cdc_hpd_report_state:
    "cec_function CEC_MSG_CDC_MESSAGE (cec_msg_cdc_hpd_report_state x_hpd_state x_hpd_error)"

text \<open>
  A session is the outcome of the calls so far: \<open>Some m\<close> when all of them stayed inside their
  arrays, \<open>None\<close> when one did not.
\<close>

inductive cec_session :: "u8 \<Rightarrow> u8 \<Rightarrow> cec_msg option \<Rightarrow> bool" for i d where
  start: "cec_session i d (cec_msg_init i d m0)"
| call: "cec_session i d (Some m) \<Longrightarrow> cec_function op f \<Longrightarrow> cec_session i d (f m)"
| rec_on: "cec_session i d (Some m) \<Longrightarrow> cec_session i d (cec_msg_record_on r src m)"
| reply_abort: "cec_session i d (Some m) \<Longrightarrow> cec_session i d (cec_msg_reply_feature_abort why m)"
| reply_to: "cec_session i d (Some m) \<Longrightarrow> cec_wf orig \<Longrightarrow>
    cec_session i d (cec_msg_set_reply_to orig m)"

section \<open>The contract of a message function\<close>

definition builds :: "cec_msg \<Rightarrow> u8 \<Rightarrow> cec_msg \<Rightarrow> bool" where
  "builds m op m' \<longleftrightarrow> cec_wf m' \<and> 2 \<le> unat (len m') \<and> unat (len m') \<le> CEC_MAX_MSG_SIZE \<and>
     byte m' 1 = op \<and> (byte m' 0 = byte m 0 \<or> byte m' 0 = byte m 0 OR 0xf)"

definition fulfils :: "u8 \<Rightarrow> cec_stmt \<Rightarrow> bool" where
  "fulfils op f \<longleftrightarrow> (\<forall>m. cec_wf m \<longrightarrow> (\<exists>m'. f m = Some m' \<and> builds m op m'))"

lemma fulfilsI: "(\<And>m. cec_wf m \<Longrightarrow> \<exists>m'. f m = Some m' \<and> builds m op m') \<Longrightarrow> fulfils op f"
  by (simp add: fulfils_def)

lemma fulfilsE:
  assumes "fulfils op f" and "cec_wf m"
  obtains m' where "f m = Some m'" and "builds m op m'"
  using assms by (auto simp: fulfils_def)

context cec_builder
begin

lemma build_fulfils: "fulfils opcode (build a)"
proof (rule fulfilsI)
  fix m
  assume wf: "cec_wf m"
  then obtain m' where m': "build a m = Some m'"
    using build_total by blast
  then have "builds m opcode m'"
    using build_effect [OF wf m'] build_len [OF wf m'] size_range [of a]
    by (auto simp: builds_def)
  with m' show "\<exists>m'. build a m = Some m' \<and> builds m opcode m'"
    by blast
qed

end

text \<open>
  The functions that copy a caller's array have no interpretation of \<open>cec_builder\<close>: they
  are undefined when the array is too short. With an array of the size the caller states,
  the cut of the size keeps the copy inside the payload.
\<close>

lemma cut_bound:
  "unat (if sz > 14 then 14 else sz :: u8) \<le> 14" "unat (if sz > 11 then 11 else sz :: u8) \<le> 11"
  "unat (if sz > 14 then 14 else sz :: u8) \<le> unat sz"
  "unat (if sz > 11 then 11 else sz :: u8) \<le> unat sz"
  by (auto simp: word_less_nat_alt)

lemma unat_cut_len:
  "k \<le> unat s \<Longrightarrow> unat s \<le> 14 \<Longrightarrow> off + unat s \<le> 16 \<Longrightarrow>
     unat (of_nat off + promote (s::u8)) = off + unat s"
  by (simp add: unat_word_ariths unat_of_nat unsigned_ucast_eq take_bit_nat_eq_self)

lemmas interpreted_fulfils =
  active_source.build_fulfils
  image_view_on.build_fulfils
  text_view_on.build_fulfils
  inactive_source.build_fulfils
  request_active_source.build_fulfils
  routing_information.build_fulfils
  routing_change.build_fulfils [where a = "(x_orig_phys_addr, x_new_phys_addr)" for x_orig_phys_addr x_new_phys_addr, unfolded prod.case]
  set_stream_path.build_fulfils
  standby.build_fulfils
  record_off.build_fulfils
  record_on_own.build_fulfils
  record_on_digital.build_fulfils
  record_on_analog.build_fulfils [where a = "(x_ana_bcast_type, x_ana_freq, x_bcast_system)" for x_ana_bcast_type x_ana_freq x_bcast_system, unfolded prod.case]
  record_on_plug.build_fulfils
  record_on_phys_addr.build_fulfils
  record_status.build_fulfils
  record_tv_screen.build_fulfils
  timer_status.build_fulfils [where a = "(x_timer_overlap_warning, x_media_info, x_prog_info, x_prog_error, x_duration_hr, x_duration_min)" for x_timer_overlap_warning x_media_info x_prog_info x_prog_error x_duration_hr x_duration_min, unfolded prod.case]
  timer_cleared_status.build_fulfils
  clear_analogue_timer.build_fulfils [where a = "(x_day, x_month, x_start_hr, x_start_min, x_duration_hr, x_duration_min, x_recording_seq, x_ana_bcast_type, x_ana_freq, x_bcast_system)" for x_day x_month x_start_hr x_start_min x_duration_hr x_duration_min x_recording_seq x_ana_bcast_type x_ana_freq x_bcast_system, unfolded prod.case]
  clear_digital_timer.build_fulfils [where a = "(x_day, x_month, x_start_hr, x_start_min, x_duration_hr, x_duration_min, x_recording_seq, x_digital)" for x_day x_month x_start_hr x_start_min x_duration_hr x_duration_min x_recording_seq x_digital, unfolded prod.case]
  clear_ext_timer.build_fulfils [where a = "(x_day, x_month, x_start_hr, x_start_min, x_duration_hr, x_duration_min, x_recording_seq, x_ext_src_spec, x_plug, x_phys_addr)" for x_day x_month x_start_hr x_start_min x_duration_hr x_duration_min x_recording_seq x_ext_src_spec x_plug x_phys_addr, unfolded prod.case]
  set_analogue_timer.build_fulfils [where a = "(x_day, x_month, x_start_hr, x_start_min, x_duration_hr, x_duration_min, x_recording_seq, x_ana_bcast_type, x_ana_freq, x_bcast_system)" for x_day x_month x_start_hr x_start_min x_duration_hr x_duration_min x_recording_seq x_ana_bcast_type x_ana_freq x_bcast_system, unfolded prod.case]
  set_digital_timer.build_fulfils [where a = "(x_day, x_month, x_start_hr, x_start_min, x_duration_hr, x_duration_min, x_recording_seq, x_digital)" for x_day x_month x_start_hr x_start_min x_duration_hr x_duration_min x_recording_seq x_digital, unfolded prod.case]
  set_ext_timer.build_fulfils [where a = "(x_day, x_month, x_start_hr, x_start_min, x_duration_hr, x_duration_min, x_recording_seq, x_ext_src_spec, x_plug, x_phys_addr)" for x_day x_month x_start_hr x_start_min x_duration_hr x_duration_min x_recording_seq x_ext_src_spec x_plug x_phys_addr, unfolded prod.case]
  cec_version.build_fulfils
  get_cec_version.build_fulfils
  report_physical_addr.build_fulfils [where a = "(x_phys_addr, x_prim_devtype)" for x_phys_addr x_prim_devtype, unfolded prod.case]
  give_physical_addr.build_fulfils
  get_menu_language.build_fulfils
  report_features.build_fulfils [where a = "(x_cec_version, x_all_device_types, x_rc_profile, x_dev_features)" for x_cec_version x_all_device_types x_rc_profile x_dev_features, unfolded prod.case]
  give_features.build_fulfils
  deck_control.build_fulfils
  deck_status.build_fulfils
  give_deck_status.build_fulfils
  play.build_fulfils
  tuner_device_status.build_fulfils
  give_tuner_device_status.build_fulfils
  select_analogue_service.build_fulfils [where a = "(x_ana_bcast_type, x_ana_freq, x_bcast_system)" for x_ana_bcast_type x_ana_freq x_bcast_system, unfolded prod.case]
  select_digital_service.build_fulfils
  tuner_step_decrement.build_fulfils
  tuner_step_increment.build_fulfils
  device_vendor_id.build_fulfils
  give_device_vendor_id.build_fulfils
  vendor_remote_button_up.build_fulfils
  give_osd_name.build_fulfils
  menu_status.build_fulfils
  menu_request.build_fulfils
  user_control_pressed.build_fulfils
  user_control_released.build_fulfils
  report_power_status.build_fulfils
  give_device_power_status.build_fulfils
  feature_abort.build_fulfils [where a = "(x_abort_msg, x_reason)" for x_abort_msg x_reason, unfolded prod.case]
  abort.build_fulfils
  report_audio_status.build_fulfils [where a = "(x_aud_mute_status, x_aud_vol_status)" for x_aud_mute_status x_aud_vol_status, unfolded prod.case]
  give_audio_status.build_fulfils
  set_system_audio_mode.build_fulfils
  system_audio_mode_request.build_fulfils
  system_audio_mode_status.build_fulfils
  give_system_audio_mode_status.build_fulfils
  set_audio_rate.build_fulfils
  report_arc_initiated.build_fulfils
  initiate_arc.build_fulfils
  request_arc_initiation.build_fulfils
  report_arc_terminated.build_fulfils
  terminate_arc.build_fulfils
  request_arc_termination.build_fulfils
  report_current_latency.build_fulfils [where a = "(x_phys_addr, x_video_latency, x_low_latency_mode, x_audio_out_compensated, x_audio_out_delay)" for x_phys_addr x_video_latency x_low_latency_mode x_audio_out_compensated x_audio_out_delay, unfolded prod.case]
  request_current_latency.build_fulfils

lemma direct_fulfils:
  shows "fulfils CEC_MSG_TUNER_DEVICE_STATUS (cec_msg_tuner_device_status_analog x_rec_flag
        x_tuner_display_info x_ana_bcast_type x_ana_freq x_bcast_system)"
    and "fulfils CEC_MSG_TUNER_DEVICE_STATUS (cec_msg_tuner_device_status_digital x_rec_flag
        x_tuner_display_info x_digital)"
    and "fulfils CEC_MSG_CDC_MESSAGE (cec_msg_cdc_hec_inquire_state x_phys_addr1 x_phys_addr2)"
    and "fulfils CEC_MSG_CDC_MESSAGE (cec_msg_cdc_hec_report_state x_target_phys_addr
        x_hec_func_state x_host_func_state x_enc_func_state x_cdc_errcode x_has_field
        x_hec_field)"
    and "fulfils CEC_MSG_CDC_MESSAGE (cec_msg_cdc_hec_set_state x_phys_addr1 x_phys_addr2
        x_hec_set_state x_phys_addr3 x_phys_addr4 x_phys_addr5)"
    and "fulfils CEC_MSG_CDC_MESSAGE (cec_msg_cdc_hec_set_state_adjacent x_phys_addr1
        x_hec_set_state)"
    and "fulfils CEC_MSG_CDC_MESSAGE (cec_msg_cdc_hec_request_deactivation x_phys_addr1
        x_phys_addr2 x_phys_addr3)"
    and "fulfils CEC_MSG_CDC_MESSAGE cec_msg_cdc_hec_notify_alive"
    and "fulfils CEC_MSG_CDC_MESSAGE cec_msg_cdc_hec_discover"
    and "fulfils CEC_MSG_CDC_MESSAGE (cec_msg_cdc_hpd_set_state x_input_port x_hpd_state)"
    and "fulfils CEC_MSG_CDC_MESSAGE (cec_msg_cdc_hpd_report_state x_hpd_state x_hpd_error)"
  by (auto intro!: fulfilsI simp: builds_def cec_simps
      cec_msg_tuner_device_status_analog_def cec_msg_tuner_device_status_digital_def
      cec_msg_cdc_hec_inquire_state_def cec_msg_cdc_hec_report_state_def
      cec_msg_cdc_hec_set_state_def cec_msg_cdc_hec_set_state_adjacent_def
      cec_msg_cdc_hec_request_deactivation_def cec_msg_cdc_hec_notify_alive_def
      cec_msg_cdc_hec_discover_def cec_msg_cdc_hpd_set_state_def
      cec_msg_cdc_hpd_report_state_def)

lemma string_length:
  assumes "off + cap \<le> 16"
  shows "unat (of_nat (off + clip cap l) :: u32) = off + clip cap l"
proof -
  have "off + clip cap l \<le> 16"
    using assms clip_le(1) [of cap l] by linarith
  then show ?thesis
    by (intro unat_of_nat_small) simp
qed

lemma string_fulfils:
  assumes "0 \<in> set s"
  shows "fulfils CEC_MSG_SET_TIMER_PROGRAM_TITLE (cec_msg_set_timer_program_title s)"
    and "fulfils CEC_MSG_SET_OSD_STRING (cec_msg_set_osd_string disp s)"
    and "fulfils CEC_MSG_SET_OSD_NAME (cec_msg_set_osd_name s)"
  using assms string_length [of 2 14 "length (c_string s)"] string_length [of 3 13 "length (c_string s)"]
  by (auto intro!: fulfilsI simp: cec_msg_set_timer_program_title_def cec_msg_set_osd_string_def
      cec_msg_set_osd_name_def c_strlen_c_string Let_def builds_def cec_simps)

lemma menu_language_fulfils:
  "3 \<le> length s \<Longrightarrow> fulfils CEC_MSG_SET_MENU_LANGUAGE (cec_msg_set_menu_language s)"
  by (rule fulfilsI) (simp add: cec_msg_set_menu_language_def builds_def cec_simps)

lemma vendor_fulfils:
  assumes "unat sz \<le> length bs"
  shows "fulfils CEC_MSG_VENDOR_COMMAND (cec_msg_vendor_command sz bs)"
    and "fulfils CEC_MSG_VENDOR_COMMAND_WITH_ID (cec_msg_vendor_command_with_id vid sz bs)"
    and "fulfils CEC_MSG_VENDOR_REMOTE_BUTTON_DOWN (cec_msg_vendor_remote_button_down sz bs)"
proof -
  define s14 where "s14 = (if sz > 14 then 14 else sz)"
  define s11 where "s11 = (if sz > 11 then 11 else sz)"
  have s: "unat s14 \<le> 14" "unat s11 \<le> 11" "unat s14 \<le> length bs" "unat s11 \<le> length bs"
    unfolding s14_def s11_def using cut_bound [of sz] assms by linarith+
  have len: "unat (2 + promote s14) = 2 + unat s14" "unat (5 + promote s11) = 5 + unat s11"
    using s unat_cut_len [of 0 s14 2] unat_cut_len [of 0 s11 5] by simp_all
  show "fulfils CEC_MSG_VENDOR_COMMAND (cec_msg_vendor_command sz bs)"
    by (rule fulfilsI) (use len s in \<open>simp add: cec_msg_vendor_command_def builds_def cec_simps
        flip: s14_def\<close>)
  show "fulfils CEC_MSG_VENDOR_COMMAND_WITH_ID (cec_msg_vendor_command_with_id vid sz bs)"
    by (rule fulfilsI) (use len s in \<open>simp add: cec_msg_vendor_command_with_id_def builds_def
        cec_simps flip: s11_def\<close>)
  show "fulfils CEC_MSG_VENDOR_REMOTE_BUTTON_DOWN (cec_msg_vendor_remote_button_down sz bs)"
    by (rule fulfilsI) (use len s in \<open>simp add: cec_msg_vendor_remote_button_down_def builds_def
        cec_simps flip: s14_def\<close>)
qed

lemma put_formats_zip:
  "i + n \<le> length ids \<Longrightarrow> i + n \<le> length codes \<Longrightarrow>
     put_formats n i ids codes m =
       put_formats n i (map fst (zip ids codes)) (map snd (zip ids codes)) m"
proof (induction n arbitrary: i m)
  case 0
  then show ?case by simp
next
  case (Suc n)
  then show ?case
    by (cases "wr (2 + i) (audio_format_byte (ids ! i) (codes ! i)) m") simp_all
qed

lemma put_formats_ok:
  assumes "cec_wf m" and "k \<le> 4" and "k \<le> length ids" and "k \<le> length codes"
  shows "put_formats k 0 ids codes m =
    Some (puts 2 (map (case_prod audio_format_byte) (take k (zip ids codes))) m)"
  using put_formats_zip [of 0 k ids codes m] put_formats_puts [of m 0 k "zip ids codes"] assms
  by simp

lemma descriptor_fulfils:
  assumes "unat k \<le> length ds"
  shows "fulfils CEC_MSG_REPORT_SHORT_AUDIO_DESCRIPTOR (cec_msg_report_short_audio_descriptor k ds)"
proof -
  define k4 where "k4 = (if k > 4 then 4 else k)"
  have k: "unat k4 \<le> 4" "unat k4 \<le> length ds"
    using assms by (auto simp: k4_def word_less_nat_alt)
  have "2 + promote k4 * 3 = of_nat (2 + 3 * unat k4)"
    by simp
  then have len: "unat (2 + promote k4 * 3) = 2 + 3 * unat k4"
    using unat_small_len [of "3 * unat k4"] k by (simp add: mult.commute)
  show ?thesis
    by (rule fulfilsI) (use len k in \<open>simp add: cec_msg_report_short_audio_descriptor_def builds_def
        cec_simps put_descriptors_puts flip: k4_def\<close>)
qed

lemma format_fulfils:
  assumes "unat k \<le> length ids" and "unat k \<le> length codes"
  shows "fulfils CEC_MSG_REQUEST_SHORT_AUDIO_DESCRIPTOR
    (cec_msg_request_short_audio_descriptor r k ids codes)"
proof -
  define k4 where "k4 = (if k > 4 then 4 else k)"
  have k: "unat k4 \<le> 4" "unat k4 \<le> length ids" "unat k4 \<le> length codes"
    using assms by (auto simp: k4_def word_less_nat_alt)
  have len: "unat (2 + promote k4) = 2 + unat k4"
    using unat_cut_len [of 0 k4 2] k by simp
  show ?thesis
    by (rule fulfilsI) (use len k in \<open>simp add: cec_msg_request_short_audio_descriptor_def builds_def
        cec_simps put_formats_ok flip: k4_def\<close>)
qed

lemma set_reply_fulfils: "fulfils op f \<Longrightarrow> fulfils op (exec [f, set_reply w])"
  by (fastforce simp: fulfils_def builds_def cec_simps)

lemma record_on_fulfils:
  "src_type src \<in> set record_src_types \<Longrightarrow> fulfils CEC_MSG_RECORD_ON (cec_msg_record_on r src)"
  by (auto simp: record_src_types_def cec_msg_record_on_def
      intro!: set_reply_fulfils interpreted_fulfils)

lemma record_on_unknown:
  "src_type src \<notin> set record_src_types \<Longrightarrow>
     cec_msg_record_on r src m = Some (m\<lparr>reply := reply_op r CEC_MSG_RECORD_STATUS\<rparr>)"
  by (simp add: record_src_types_def cec_msg_record_on_def cec_simps)

lemma cec_function_fulfils: "cec_function op f \<Longrightarrow> fulfils op f"
  by (induction rule: cec_function.induct)
    (simp_all add: interpreted_fulfils direct_fulfils string_fulfils menu_language_fulfils
      vendor_fulfils descriptor_fulfils format_fulfils record_on_fulfils)

lemma cec_function_opcode: "cec_function op f \<Longrightarrow> op \<in> set cec_opcodes"
  by (induction rule: cec_function.induct) (simp_all add: cec_opcodes_def)

section \<open>Sessions\<close>

definition cec_msg_inv :: "cec_msg \<Rightarrow> bool" where
  "cec_msg_inv m \<longleftrightarrow> cec_wf m \<and> 1 \<le> unat (len m) \<and> unat (len m) \<le> CEC_MAX_MSG_SIZE \<and>
     (len m = 1 \<or> byte m 1 \<in> set cec_opcodes)"

definition returns_inv :: "cec_msg option \<Rightarrow> bool" where
  "returns_inv r \<longleftrightarrow> (\<exists>m. r = Some m \<and> cec_msg_inv m)"

lemma function_inv: "cec_function op f \<Longrightarrow> cec_msg_inv m \<Longrightarrow> returns_inv (f m)"
  using cec_function_opcode [of op f]
  by (auto simp: returns_inv_def cec_msg_inv_def builds_def
      elim!: fulfilsE [OF cec_function_fulfils, of op f m])

lemma record_on_inv: "cec_msg_inv m \<Longrightarrow> returns_inv (cec_msg_record_on r src m)"
  using function_inv [OF fn_record_on, of src m r] record_on_unknown [of src r m]
  by (cases "src_type src \<in> set record_src_types")
    (auto simp: returns_inv_def cec_msg_inv_def cec_simps)

lemma set_reply_to_inv:
  "cec_msg_inv m \<Longrightarrow> cec_wf orig \<Longrightarrow> returns_inv (cec_msg_set_reply_to orig m)"
  by (auto simp: returns_inv_def cec_msg_inv_def cec_msg_set_reply_to_def cec_msg_destination_def
      cec_msg_initiator_def cec_simps)

lemma reply_abort_inv: "cec_wf m \<Longrightarrow> returns_inv (cec_msg_reply_feature_abort why m)"
  by (simp add: returns_inv_def cec_msg_inv_def reply_feature_abort_ok cec_simps cec_opcodes_def)

lemma init_inv: "returns_inv (cec_msg_init i d m0)"
  by (simp add: returns_inv_def cec_msg_init_def cec_msg_inv_def wr_def set_len_def cec_wf_def)

lemma cec_session_inv: "cec_session i d r \<Longrightarrow> returns_inv r"
proof (induction rule: cec_session.induct)
  case (start m0)
  then show ?case by (rule init_inv)
next
  case (call m op f)
  then show ?case
    using function_inv by (auto simp: returns_inv_def [of "Some m"])
next
  case (rec_on m r src)
  then show ?case
    using record_on_inv by (auto simp: returns_inv_def [of "Some m"])
next
  case (reply_abort m why)
  then show ?case
    using reply_abort_inv by (auto simp: returns_inv_def [of "Some m"] cec_msg_inv_def)
next
  case (reply_to m orig)
  then show ?case
    using set_reply_to_inv by (auto simp: returns_inv_def [of "Some m"])
qed

lemma builds_header:
  assumes "cec_wf m" and "builds m op m'"
  shows "cec_msg_opcode m' = Some (uint op)"
    and "cec_msg_initiator m' = cec_msg_initiator m"
    and "cec_msg_destination m' = cec_msg_destination m \<or> cec_msg_destination m' = Some 0xf"
proof -
  have "len m' > 1"
    using assms(2) by (simp add: builds_def word_less_nat_alt)
  then show "cec_msg_opcode m' = Some (uint op)"
    using assms by (simp add: cec_msg_opcode_def builds_def cec_simps)
  have "to_u8 (drop_bit 4 (promote (b OR 0xf))) = to_u8 (drop_bit 4 (promote b))"
      "to_u8 (promote (b OR 0xf) AND 0xf) = 0xf" for b :: u8
    by (simp_all add: bits8)
  then show "cec_msg_initiator m' = cec_msg_initiator m"
    "cec_msg_destination m' = cec_msg_destination m \<or> cec_msg_destination m' = Some 0xf"
    using assms
    by (auto simp: builds_def cec_msg_initiator_def cec_msg_destination_def cec_simps)
qed

lemma reply_abort_answers:
  assumes "cec_wf m"
  shows "\<exists>m'. cec_msg_reply_feature_abort reason m = Some m' \<and> cec_wf m' \<and> len m' = 4 \<and>
    cec_msg_initiator m' = cec_msg_destination m \<and> cec_msg_destination m' = cec_msg_initiator m \<and>
    byte m' 1 = CEC_MSG_FEATURE_ABORT \<and> byte m' 2 = byte m 1 \<and> byte m' 3 = reason"
proof -
  have "to_u8 (drop_bit 4 (promote (swap_addr b))) = to_u8 (promote b AND 0xf)"
      "to_u8 (promote (swap_addr b) AND 0xf) = to_u8 (drop_bit 4 (promote b))" for b
    by (simp_all add: bits8 swap_addr_def)
  with assms show ?thesis
    by (simp add: reply_feature_abort_ok cec_msg_initiator_def cec_msg_destination_def cec_simps)
qed

section \<open>Parsers\<close>

lemmas parser_defs =
  cec_ops_active_source_def cec_ops_inactive_source_def cec_ops_routing_information_def
  cec_ops_routing_change_def cec_ops_set_stream_path_def cec_ops_record_status_def
  cec_ops_timer_status_def cec_ops_timer_cleared_status_def cec_ops_clear_analogue_timer_def
  cec_ops_clear_ext_timer_def cec_ops_set_analogue_timer_def cec_ops_set_ext_timer_def
  cec_ops_cec_version_def cec_ops_report_physical_addr_def cec_ops_deck_control_def
  cec_ops_deck_status_def cec_ops_give_deck_status_def cec_ops_play_def
  cec_ops_give_tuner_device_status_def cec_ops_select_analogue_service_def
  cec_ops_device_vendor_id_def cec_ops_vendor_command_def cec_ops_vendor_command_with_id_def
  cec_ops_vendor_remote_button_down_def cec_ops_menu_status_def cec_ops_menu_request_def
  cec_ops_report_power_status_def cec_ops_feature_abort_def cec_ops_report_audio_status_def
  cec_ops_set_system_audio_mode_def cec_ops_system_audio_mode_request_def
  cec_ops_system_audio_mode_status_def cec_ops_set_audio_rate_def
  cec_ops_report_current_latency_def cec_ops_request_current_latency_def
  cec_ops_cdc_hec_inquire_state_def cec_ops_cdc_hec_report_state_def
  cec_ops_cdc_hec_set_state_def cec_ops_cdc_hec_set_state_adjacent_def
  cec_ops_cdc_hec_request_deactivation_def cec_ops_cdc_hec_notify_alive_def
  cec_ops_cdc_hec_discover_def cec_ops_cdc_hpd_set_state_def cec_ops_cdc_hpd_report_state_def
  cec_ops_user_control_pressed_def cec_ops_record_on_def cec_ops_clear_digital_timer_def
  cec_ops_set_digital_timer_def cec_ops_tuner_device_status_def
  cec_ops_select_digital_service_def

lemma option_bind_None: "Option.bind x (\<lambda>v. Some (f v)) = None \<longleftrightarrow> x = None"
  by (cases x) simp_all

lemma get_digital_total: "cec_wf m \<Longrightarrow> off + 7 \<le> 16 \<Longrightarrow>
  cec_get_digital_service_id m off d \<noteq> None"
  by (auto simp: cec_get_digital_service_id_def cec_simps Let_def)

lemma get_descriptors_total:
  "cec_wf m \<Longrightarrow> i + k \<le> 4 \<Longrightarrow> 4 \<le> length ds \<Longrightarrow> get_descriptors k i m ds \<noteq> None"
  by (induction k arbitrary: i ds) (simp_all add: cec_simps store_descriptor_def)

lemma get_formats_total:
  "cec_wf m \<Longrightarrow> i + k \<le> 4 \<Longrightarrow> 4 \<le> length ids \<Longrightarrow> 4 \<le> length codes \<Longrightarrow>
     get_formats k i m ids codes \<noteq> None"
  by (induction k arbitrary: i ids codes) (simp_all add: cec_simps store_byte_def)

lemma scan_ext_total:
  "cec_wf m \<Longrightarrow> p \<le> lim \<Longrightarrow> lim < 16 \<Longrightarrow> \<exists>q. scan_ext m lim p = Some q \<and> p \<le> q \<and> q \<le> lim"
proof (induction m lim p rule: scan_ext.induct)
  case (1 m lim p)
  then show ?case
    by (subst scan_ext.simps) (auto simp: cec_simps intro: Suc_leD)
qed

lemma cut4: "unat (if (x::u8) > 4 then 4 else x) \<le> 4"
  by (auto simp: word_less_nat_alt)

lemma parsers_total:
  assumes "cec_wf m"
  shows "cec_ops_active_source m \<noteq> None"
    and "cec_ops_inactive_source m \<noteq> None"
    and "cec_ops_routing_information m \<noteq> None"
    and "cec_ops_routing_change m \<noteq> None"
    and "cec_ops_set_stream_path m \<noteq> None"
    and "cec_ops_record_status m \<noteq> None"
    and "cec_ops_timer_status m \<noteq> None"
    and "cec_ops_timer_cleared_status m \<noteq> None"
    and "cec_ops_clear_analogue_timer m \<noteq> None"
    and "cec_ops_clear_ext_timer m \<noteq> None"
    and "cec_ops_set_analogue_timer m \<noteq> None"
    and "cec_ops_set_ext_timer m \<noteq> None"
    and "cec_ops_cec_version m \<noteq> None"
    and "cec_ops_report_physical_addr m \<noteq> None"
    and "cec_ops_deck_control m \<noteq> None"
    and "cec_ops_deck_status m \<noteq> None"
    and "cec_ops_give_deck_status m \<noteq> None"
    and "cec_ops_play m \<noteq> None"
    and "cec_ops_give_tuner_device_status m \<noteq> None"
    and "cec_ops_select_analogue_service m \<noteq> None"
    and "cec_ops_device_vendor_id m \<noteq> None"
    and "cec_ops_menu_status m \<noteq> None"
    and "cec_ops_menu_request m \<noteq> None"
    and "cec_ops_report_power_status m \<noteq> None"
    and "cec_ops_feature_abort m \<noteq> None"
    and "cec_ops_report_audio_status m \<noteq> None"
    and "cec_ops_set_system_audio_mode m \<noteq> None"
    and "cec_ops_system_audio_mode_request m \<noteq> None"
    and "cec_ops_system_audio_mode_status m \<noteq> None"
    and "cec_ops_set_audio_rate m \<noteq> None"
    and "cec_ops_report_current_latency m \<noteq> None"
    and "cec_ops_request_current_latency m \<noteq> None"
    and "cec_ops_cdc_hec_inquire_state m \<noteq> None"
    and "cec_ops_cdc_hec_report_state m \<noteq> None"
    and "cec_ops_cdc_hec_set_state m \<noteq> None"
    and "cec_ops_cdc_hec_set_state_adjacent m \<noteq> None"
    and "cec_ops_cdc_hec_request_deactivation m \<noteq> None"
    and "cec_ops_cdc_hec_notify_alive m \<noteq> None"
    and "cec_ops_cdc_hec_discover m \<noteq> None"
    and "cec_ops_cdc_hpd_set_state m \<noteq> None"
    and "cec_ops_cdc_hpd_report_state m \<noteq> None"
  using assms by (simp_all add: parser_defs cec_simps rd_nibbles_def Let_def)

lemma struct_parsers_total:
  assumes "cec_wf m"
  shows "cec_ops_user_control_pressed m c \<noteq> None"
    and "cec_ops_record_on m src \<noteq> None"
    and "cec_ops_tuner_device_status m info \<noteq> None"
    and "cec_ops_clear_digital_timer m d \<noteq> None"
    and "cec_ops_set_digital_timer m d \<noteq> None"
    and "cec_ops_select_digital_service m d \<noteq> None"
  using assms get_digital_total [OF assms]
  by (simp_all add: parser_defs cec_simps Let_def option_bind_None)

lemma loop_parsers_total:
  assumes "cec_wf m" and "4 \<le> length ds" and "4 \<le> length ids" and "4 \<le> length codes"
  shows "cec_ops_report_short_audio_descriptor m ds \<noteq> None"
    and "cec_ops_request_short_audio_descriptor m ids codes \<noteq> None"
proof -
  show "cec_ops_report_short_audio_descriptor m ds \<noteq> None"
    using get_descriptors_total [OF assms(1) _ assms(2), of 0] cut4
    by (simp add: cec_ops_report_short_audio_descriptor_def Let_def option_bind_None)
  define k where "k = (if to_u8 (len m - 2) > 4 then 4 else to_u8 (len m - 2))"
  obtain out where "get_formats (unat k) 0 m ids codes = Some out"
    using get_formats_total [OF assms(1) _ assms(3,4), of 0 "unat k"] cut4 by (auto simp: k_def)
  then show "cec_ops_request_short_audio_descriptor m ids codes \<noteq> None"
    by (cases out) (simp add: cec_ops_request_short_audio_descriptor_def flip: k_def)
qed

text \<open>The parsers that return pointers into the payload: what they point at lies inside it.\<close>

lemma report_features_total:
  assumes "cec_wf m"
  shows "\<exists>v t rc dev. cec_ops_report_features m = Some (v, t, rc, dev) \<and>
    pred_option (\<lambda>p. p < 16) rc \<and> pred_option (\<lambda>p. p < 16) dev"
proof -
  obtain p where p: "scan_ext m 14 4 = Some p" "4 \<le> p" "p \<le> 14"
    using scan_ext_total [OF assms, of 4 14] by auto
  obtain q where q: "scan_ext m 15 p = Some q" "q \<le> 15"
    using scan_ext_total [OF assms, of p 15] p by auto
  from p q show ?thesis
    using assms by (simp add: cec_ops_report_features_def cec_simps Let_def)
qed

lemma vendor_parsers_total:
  assumes "cec_wf m"
  shows "\<exists>sz off. cec_ops_vendor_command m = Some (sz, off) \<and> off + unat sz \<le> 16"
    and "\<exists>vid sz off. cec_ops_vendor_command_with_id m = Some (vid, sz, off) \<and> off + unat sz \<le> 16"
    and "\<exists>sz off. cec_ops_vendor_remote_button_down m = Some (sz, off) \<and> off + unat sz \<le> 16"
  using assms
  by (simp_all add: cec_ops_vendor_command_def cec_ops_vendor_command_with_id_def
      cec_ops_vendor_remote_button_down_def Let_def cec_simps word_less_nat_alt)

lemma string_parsers_total:
  assumes "cec_wf m" and "15 \<le> length buf"
  shows "cec_ops_set_timer_program_title m buf \<noteq> None"
    and "cec_ops_set_osd_string m buf \<noteq> None"
    and "cec_ops_set_osd_name m buf \<noteq> None"
    and "cec_ops_set_menu_language m buf \<noteq> None"
proof -
  have l: "unat (payload_len 2 14 m) \<le> 14" "unat (payload_len 3 13 m) \<le> 13"
    by (auto simp: payload_len_def Let_def word_less_nat_alt)
  note out = copy_out_string [OF assms(1)]
  show "cec_ops_set_timer_program_title m buf \<noteq> None"
    using out [of 2 "unat (payload_len 2 14 m)" buf] l assms(2)
    by (simp add: cec_ops_set_timer_program_title_def Let_def)
  show "cec_ops_set_osd_string m buf \<noteq> None"
    using out [of 3 "unat (payload_len 3 13 m)" buf] l assms
    by (simp add: cec_ops_set_osd_string_def Let_def cec_simps)
  show "cec_ops_set_osd_name m buf \<noteq> None"
    using out [of 2 "unat (payload_len 2 14 m)" buf] l assms(2)
    by (simp add: cec_ops_set_osd_name_def Let_def)
  show "cec_ops_set_menu_language m buf \<noteq> None"
    using out [of 2 3 buf] assms(2)
    by (simp add: cec_ops_set_menu_language_def)
qed

section \<open>Properties\<close>

text \<open>
  C1. Every \<open>cec_msg_*\<close> function, applied to any arguments and run on any message
  with a 16-byte payload array, returns without an access outside an array. The caller only has
  to own the arrays it passes: a size that its array has, a string with its terminator, three
  bytes of language. The message has then a length between 2 and
  \<open>CEC_MAX_MSG_SIZE\<close>, the opcode of that function (one of the header's opcodes),
  the initiator it had before, and its destination or broadcast. For
  \<open>cec_msg_record_on\<close> this needs a source type of the header: with any other type
  only the reply field changes. \<open>cec_msg_reply_feature_abort\<close> answers the message
  in place: initiator and destination exchanged, length 4, the feature abort opcode, the opcode
  that is refused and the reason.
\<close>

theorem message_function_contract:
  assumes "cec_wf m"
  shows "(cec_function op f \<longrightarrow> (\<exists>m'. f m = Some m' \<and>
      cec_wf m' \<and> 2 \<le> unat (len m') \<and> unat (len m') \<le> CEC_MAX_MSG_SIZE \<and>
      op \<in> set cec_opcodes \<and> cec_msg_opcode m' = Some (uint op) \<and>
      cec_msg_initiator m' = cec_msg_initiator m \<and>
      (cec_msg_destination m' = cec_msg_destination m \<or> cec_msg_destination m' = Some 0xf))) \<and>
    (src_type src \<notin> set record_src_types \<longrightarrow>
      cec_msg_record_on r src m = Some (m\<lparr>reply := reply_op r CEC_MSG_RECORD_STATUS\<rparr>)) \<and>
    (\<exists>m'. cec_msg_reply_feature_abort reason m = Some m' \<and> cec_wf m' \<and> len m' = 4 \<and>
      cec_msg_initiator m' = cec_msg_destination m \<and>
      cec_msg_destination m' = cec_msg_initiator m \<and>
      byte m' 1 = CEC_MSG_FEATURE_ABORT \<and> byte m' 2 = byte m 1 \<and> byte m' 3 = reason)"
proof (intro conjI impI)
  assume f: "cec_function op f"
  from cec_function_fulfils [OF f] assms obtain m' where "f m = Some m'" and "builds m op m'"
    by (rule fulfilsE)
  with builds_header [OF assms this(2)] cec_function_opcode [OF f]
  show "\<exists>m'. f m = Some m' \<and> cec_wf m' \<and> 2 \<le> unat (len m') \<and> unat (len m') \<le> CEC_MAX_MSG_SIZE \<and>
      op \<in> set cec_opcodes \<and> cec_msg_opcode m' = Some (uint op) \<and>
      cec_msg_initiator m' = cec_msg_initiator m \<and>
      (cec_msg_destination m' = cec_msg_destination m \<or> cec_msg_destination m' = Some 0xf)"
    by (simp add: builds_def)
qed (use record_on_unknown reply_abort_answers [OF assms] in simp_all)

theorem message_function_contract_witness:
  "\<exists>m'. cec_msg_vendor_command 200 (replicate 200 7) blank_msg = Some m' \<and>
     unat (len m') \<le> 16 \<and> cec_msg_opcode m' = Some 0x89"
proof -
  have f: "cec_function CEC_MSG_VENDOR_COMMAND (cec_msg_vendor_command 200 (replicate 200 7))"
    by (rule fn_vendor_command) simp
  show ?thesis
    using message_function_contract [OF blank_wf, THEN conjunct1, THEN mp, OF f] by auto
qed

text \<open>
  C2. Whatever message functions a program calls after \<open>cec_msg_init\<close>, in whatever
  order and with whatever arguments (arrays of the size it states),
  \<open>cec_msg_record_on\<close> with an unknown source type and the functions that turn a
  message into a reply included: no call accesses an array outside its bounds, the length stays
  between 1 and 16, and a message that is longer than the header has one of the header's opcodes
  in its second byte.
\<close>

theorem session_invariant:
  assumes "cec_session i d r"
  shows "\<exists>m. r = Some m \<and> length (msg m) = CEC_MAX_MSG_SIZE \<and>
    1 \<le> unat (len m) \<and> unat (len m) \<le> CEC_MAX_MSG_SIZE \<and>
    (len m = 1 \<or> byte m 1 \<in> set cec_opcodes)"
  using cec_session_inv [OF assms] by (auto simp: returns_inv_def cec_msg_inv_def cec_wf_def)

theorem session_invariant_witness:
  "\<exists>m0 m1 m2. cec_msg_init 4 0 blank_msg = Some m0 \<and>
     cec_msg_vendor_command 200 (replicate 200 7) m0 = Some m1 \<and>
     cec_msg_reply_feature_abort 2 m1 = Some m2 \<and> unat (len m2) \<le> 16"
proof -
  have 0: "cec_session 4 0 (cec_msg_init 4 0 blank_msg)"
    by (rule cec_session.start)
  then obtain m0 where m0: "cec_msg_init 4 0 blank_msg = Some m0"
    using session_invariant [OF 0] by blast
  have "cec_function CEC_MSG_VENDOR_COMMAND (cec_msg_vendor_command 200 (replicate 200 7))"
    by (rule fn_vendor_command) simp
  with 0 m0 have 1: "cec_session 4 0 (cec_msg_vendor_command 200 (replicate 200 7) m0)"
    by (metis cec_session.call)
  then obtain m1 where m1: "cec_msg_vendor_command 200 (replicate 200 7) m0 = Some m1"
    using session_invariant [OF 1] by blast
  with 1 have 2: "cec_session 4 0 (cec_msg_reply_feature_abort 2 m1)"
    by (metis cec_session.reply_abort)
  from session_invariant [OF 2] m0 m1 show ?thesis
    by auto
qed

text \<open>
  C3. No \<open>cec_ops_*\<close> function reads or writes outside an array, whatever bytes and
  whatever length a received message has: every parser returns, given string buffers of at least
  15 bytes and arrays of at least four audio descriptors, format identifiers and format codes
  (the header states no sizes; with these the clamps keep every store inside). The vendor
  command parsers return an offset and a size that lie inside the payload, and
  \<open>cec_ops_report_features\<close> returns NULL or offsets inside the payload.
\<close>

theorem parsers_in_bounds:
  assumes "cec_wf m" and "15 \<le> length buf" and "4 \<le> length ds" and "4 \<le> length ids"
    and "4 \<le> length codes"
  shows "cec_ops_active_source m \<noteq> None \<and>
    cec_ops_inactive_source m \<noteq> None \<and>
    cec_ops_routing_information m \<noteq> None \<and>
    cec_ops_routing_change m \<noteq> None \<and>
    cec_ops_set_stream_path m \<noteq> None \<and>
    cec_ops_record_status m \<noteq> None \<and>
    cec_ops_timer_status m \<noteq> None \<and>
    cec_ops_timer_cleared_status m \<noteq> None \<and>
    cec_ops_clear_analogue_timer m \<noteq> None \<and>
    cec_ops_clear_ext_timer m \<noteq> None \<and>
    cec_ops_set_analogue_timer m \<noteq> None \<and>
    cec_ops_set_ext_timer m \<noteq> None \<and>
    cec_ops_cec_version m \<noteq> None \<and>
    cec_ops_report_physical_addr m \<noteq> None \<and>
    cec_ops_deck_control m \<noteq> None \<and>
    cec_ops_deck_status m \<noteq> None \<and>
    cec_ops_give_deck_status m \<noteq> None \<and>
    cec_ops_play m \<noteq> None \<and>
    cec_ops_give_tuner_device_status m \<noteq> None \<and>
    cec_ops_select_analogue_service m \<noteq> None \<and>
    cec_ops_device_vendor_id m \<noteq> None \<and>
    cec_ops_menu_status m \<noteq> None \<and>
    cec_ops_menu_request m \<noteq> None \<and>
    cec_ops_report_power_status m \<noteq> None \<and>
    cec_ops_feature_abort m \<noteq> None \<and>
    cec_ops_report_audio_status m \<noteq> None \<and>
    cec_ops_set_system_audio_mode m \<noteq> None \<and>
    cec_ops_system_audio_mode_request m \<noteq> None \<and>
    cec_ops_system_audio_mode_status m \<noteq> None \<and>
    cec_ops_set_audio_rate m \<noteq> None \<and>
    cec_ops_report_current_latency m \<noteq> None \<and>
    cec_ops_request_current_latency m \<noteq> None \<and>
    cec_ops_cdc_hec_inquire_state m \<noteq> None \<and>
    cec_ops_cdc_hec_report_state m \<noteq> None \<and>
    cec_ops_cdc_hec_set_state m \<noteq> None \<and>
    cec_ops_cdc_hec_set_state_adjacent m \<noteq> None \<and>
    cec_ops_cdc_hec_request_deactivation m \<noteq> None \<and>
    cec_ops_cdc_hec_notify_alive m \<noteq> None \<and>
    cec_ops_cdc_hec_discover m \<noteq> None \<and>
    cec_ops_cdc_hpd_set_state m \<noteq> None \<and>
    cec_ops_cdc_hpd_report_state m \<noteq> None \<and>
    cec_ops_user_control_pressed m c \<noteq> None \<and>
    cec_ops_record_on m src \<noteq> None \<and>
    cec_ops_tuner_device_status m info \<noteq> None \<and>
    cec_ops_clear_digital_timer m d \<noteq> None \<and>
    cec_ops_set_digital_timer m d \<noteq> None \<and>
    cec_ops_select_digital_service m d \<noteq> None \<and>
    cec_ops_report_short_audio_descriptor m ds \<noteq> None \<and>
    cec_ops_request_short_audio_descriptor m ids codes \<noteq> None \<and>
    cec_ops_set_timer_program_title m buf \<noteq> None \<and>
    cec_ops_set_osd_string m buf \<noteq> None \<and>
    cec_ops_set_osd_name m buf \<noteq> None \<and>
    cec_ops_set_menu_language m buf \<noteq> None \<and>
    (\<exists>sz off. cec_ops_vendor_command m = Some (sz, off) \<and> off + unat sz \<le> 16) \<and>
    (\<exists>vid sz off. cec_ops_vendor_command_with_id m = Some (vid, sz, off) \<and> off + unat sz \<le> 16) \<and>
    (\<exists>sz off. cec_ops_vendor_remote_button_down m = Some (sz, off) \<and> off + unat sz \<le> 16) \<and>
    (\<exists>v t rc dev. cec_ops_report_features m = Some (v, t, rc, dev) \<and>
      pred_option (\<lambda>p. p < 16) rc \<and> pred_option (\<lambda>p. p < 16) dev)"
  by (intro conjI parsers_total [OF assms(1)] struct_parsers_total [OF assms(1)]
      loop_parsers_total [OF assms(1,3-5)] string_parsers_total [OF assms(1,2)]
      vendor_parsers_total [OF assms(1)] report_features_total [OF assms(1)])

theorem parsers_in_bounds_witness:
  "\<exists>out. cec_ops_request_short_audio_descriptor (blank_msg\<lparr>len := 0\<rparr>) [9, 9, 9, 9] [8, 8, 8, 8] = Some out"
  using parsers_in_bounds [of "blank_msg\<lparr>len := 0\<rparr>" "replicate 15 0" "[0, 0, 0, 0]" "[9, 9, 9, 9]"
      "[8, 8, 8, 8]"]
  by (simp add: cec_simps blank_wf)

end
