(* ===== verification/C_Layout.thy ===== *)
theory C_Layout
  imports Prelude
begin

text \<open>
  Layout of data in memory: the size of a C structure from its members, rounding up to an
  alignment, and the expression \<open>(x + a - 1) & ~(a - 1)\<close> by which the headers round up.
\<close>

section \<open>Structure layout\<close>

text \<open>
  The layout rules of the C ABI: a member is placed at the next multiple of its alignment,
  and the size of the structure is rounded up to its largest alignment. A member is given
  as \<open>(size, alignment)\<close>; the size 8 integer has alignment 8 (ARM EABI).
\<close>

definition round_up :: "nat \<Rightarrow> nat \<Rightarrow> nat" where
  "round_up a n = ((n + a - 1) div a) * a"

fun layout_end :: "nat \<Rightarrow> (nat \<times> nat) list \<Rightarrow> nat" where
  "layout_end off [] = off"
| "layout_end off ((sz, al) # fs) = layout_end (round_up al off + sz) fs"

definition struct_align :: "(nat \<times> nat) list \<Rightarrow> nat" where
  "struct_align fs = foldr (\<lambda>(_, al) a. max al a) fs 1"

definition struct_size :: "(nat \<times> nat) list \<Rightarrow> nat" where
  "struct_size fs = round_up (struct_align fs) (layout_end 0 fs)"

section \<open>Rounding up\<close>

lemma round_up_ge: "0 < a \<Longrightarrow> n \<le> round_up a n"
proof -
  assume "0 < a"
  then have "(n + a - 1) mod a < a"
    by simp
  moreover have "(n + a - 1) div a * a + (n + a - 1) mod a = n + a - 1"
    by simp
  ultimately show ?thesis
    unfolding round_up_def using \<open>0 < a\<close> by linarith
qed

lemma round_up_less: "0 < a \<Longrightarrow> round_up a n < n + a"
proof -
  assume "0 < a"
  have "(n + a - 1) div a * a \<le> n + a - 1"
    by simp
  with \<open>0 < a\<close> show ?thesis
    unfolding round_up_def by linarith
qed

lemma dvd_round_up: "a dvd round_up a n"
  by (simp add: round_up_def)

lemma and_not_mask: "(x :: 'a::len word) AND NOT (2 ^ k - 1) = push_bit k (drop_bit k x)"
proof (rule bit_word_eqI)
  fix n assume "n < LENGTH('a)"
  have "2 ^ k - 1 = (Bit_Operations.mask k :: 'a word)"
    by (simp add: mask_eq_exp_minus_1)
  with \<open>n < LENGTH('a)\<close>
  show "bit (x AND NOT (2 ^ k - 1)) n = bit (push_bit k (drop_bit k x)) n"
    by (auto simp: bit_simps)
qed

lemma unat_align_down:
  "unat ((x :: 'a::len word) AND NOT (2 ^ k - 1)) = (unat x div 2 ^ k) * 2 ^ k"
proof -
  have "push_bit k (unat x div 2 ^ k) \<le> unat x"
    by (simp add: push_bit_nat_def)
  then have "push_bit k (unat x div 2 ^ k) < 2 ^ LENGTH('a)"
    using unsigned_less [of x] le_less_trans by blast
  then show ?thesis
    by (simp add: and_not_mask unsigned_push_bit_eq unsigned_drop_bit_eq drop_bit_nat_def
        push_bit_nat_def take_bit_nat_eq_self)
qed

lemma unat_align_up:
  assumes "unat x + 2 ^ k \<le> 2 ^ LENGTH('a)"
  shows "unat (((x :: 'a::len word) + 2 ^ k - 1) AND NOT (2 ^ k - 1)) = round_up (2 ^ k) (unat x)"
proof -
  have pos: "1 \<le> unat x + 2 ^ k"
    using one_le_power [of "2::nat" k] by linarith
  have "x + 2 ^ k - 1 = of_nat (unat x + 2 ^ k - 1)"
    using pos by (simp add: of_nat_diff del: One_nat_def)
  moreover have "unat x + 2 ^ k - 1 < 2 ^ LENGTH('a)"
    using assms pos by linarith
  ultimately have "unat (x + 2 ^ k - 1) = unat x + 2 ^ k - 1"
    by (simp only: unat_of_nat mod_less)
  then show ?thesis
    by (simp add: unat_align_down round_up_def)
qed

lemma round_up_add: "0 < a \<Longrightarrow> a dvd p \<Longrightarrow> round_up a (p + n) = p + round_up a n"
proof -
  assume "0 < a" and "a dvd p"
  then obtain q where "p = a * q"
    by blast
  with \<open>0 < a\<close> have "(p + n + a - 1) div a = q + (n + a - 1) div a"
    using div_mult_self2 [of a "n + a - 1" q] by (simp add: algebra_simps)
  then show ?thesis
    by (simp add: round_up_def \<open>p = a * q\<close> algebra_simps)
qed

end
