(* ===== verification/C_Ioctl.thy ===== *)
theory C_Ioctl
  imports C_Layout
begin

text \<open>
  The ioctl request numbers of \<^verbatim>\<open>asm-generic/ioctl.h\<close> (which \<^verbatim>\<open>asm/ioctl.h\<close> includes on this
  target without overriding a field width). The \<open>sizeof\<close> of the argument that a
  request number carries comes from \<open>C_Layout\<close>.

  The macros become functions on 32-bit words: every operand is an \<open>int\<close>, an
  \<open>unsigned int\<close> or a \<open>size_t\<close>, all of 32 bits here. A leading underscore of a macro
  name is dropped (\<open>_IOC\<close> is \<open>IOC\<close>).
\<close>

section \<open>Field widths\<close>

abbreviation (input) IOC_NRBITS :: nat where "IOC_NRBITS \<equiv> 8"
abbreviation (input) IOC_TYPEBITS :: nat where "IOC_TYPEBITS \<equiv> 8"
abbreviation (input) IOC_SIZEBITS :: nat where "IOC_SIZEBITS \<equiv> 14"
abbreviation (input) IOC_DIRBITS :: nat where "IOC_DIRBITS \<equiv> 2"

definition IOC_NRMASK :: u32 where "IOC_NRMASK = push_bit IOC_NRBITS 1 - 1"
definition IOC_TYPEMASK :: u32 where "IOC_TYPEMASK = push_bit IOC_TYPEBITS 1 - 1"
definition IOC_SIZEMASK :: u32 where "IOC_SIZEMASK = push_bit IOC_SIZEBITS 1 - 1"
definition IOC_DIRMASK :: u32 where "IOC_DIRMASK = push_bit IOC_DIRBITS 1 - 1"

definition IOC_NRSHIFT :: nat where "IOC_NRSHIFT = 0"
definition IOC_TYPESHIFT :: nat where "IOC_TYPESHIFT = IOC_NRSHIFT + IOC_NRBITS"
definition IOC_SIZESHIFT :: nat where "IOC_SIZESHIFT = IOC_TYPESHIFT + IOC_TYPEBITS"
definition IOC_DIRSHIFT :: nat where "IOC_DIRSHIFT = IOC_SIZESHIFT + IOC_SIZEBITS"

abbreviation (input) IOC_NONE :: u32 where "IOC_NONE \<equiv> 0"
abbreviation (input) IOC_WRITE :: u32 where "IOC_WRITE \<equiv> 1"
abbreviation (input) IOC_READ :: u32 where "IOC_READ \<equiv> 2"

section \<open>Encoding and decoding\<close>

definition IOC :: "u32 \<Rightarrow> u32 \<Rightarrow> u32 \<Rightarrow> u32 \<Rightarrow> u32" where
  "IOC dir ty nr sz =
     push_bit IOC_DIRSHIFT dir OR push_bit IOC_TYPESHIFT ty OR push_bit IOC_NRSHIFT nr OR
     push_bit IOC_SIZESHIFT sz"

definition IO :: "u32 \<Rightarrow> u32 \<Rightarrow> u32" where
  "IO ty nr = IOC IOC_NONE ty nr 0"

definition IOR :: "u32 \<Rightarrow> u32 \<Rightarrow> u32 \<Rightarrow> u32" where
  "IOR ty nr sz = IOC IOC_READ ty nr sz"

definition IOW :: "u32 \<Rightarrow> u32 \<Rightarrow> u32 \<Rightarrow> u32" where
  "IOW ty nr sz = IOC IOC_WRITE ty nr sz"

definition IOWR :: "u32 \<Rightarrow> u32 \<Rightarrow> u32 \<Rightarrow> u32" where
  "IOWR ty nr sz = IOC (IOC_READ OR IOC_WRITE) ty nr sz"

definition IOC_DIR :: "u32 \<Rightarrow> u32" where
  "IOC_DIR nr = drop_bit IOC_DIRSHIFT nr AND IOC_DIRMASK"

definition IOC_TYPE :: "u32 \<Rightarrow> u32" where
  "IOC_TYPE nr = drop_bit IOC_TYPESHIFT nr AND IOC_TYPEMASK"

definition IOC_NR :: "u32 \<Rightarrow> u32" where
  "IOC_NR nr = drop_bit IOC_NRSHIFT nr AND IOC_NRMASK"

definition IOC_SIZE :: "u32 \<Rightarrow> u32" where
  "IOC_SIZE nr = drop_bit IOC_SIZESHIFT nr AND IOC_SIZEMASK"

definition IOC_IN :: u32 where "IOC_IN = push_bit IOC_DIRSHIFT IOC_WRITE"
definition IOC_OUT :: u32 where "IOC_OUT = push_bit IOC_DIRSHIFT IOC_READ"
definition IOC_INOUT :: u32 where "IOC_INOUT = push_bit IOC_DIRSHIFT (IOC_WRITE OR IOC_READ)"
definition IOCSIZE_MASK :: u32 where "IOCSIZE_MASK = push_bit IOC_SIZESHIFT IOC_SIZEMASK"
definition IOCSIZE_SHIFT :: nat where "IOCSIZE_SHIFT = IOC_SIZESHIFT"

lemmas ioc_shifts = IOC_NRSHIFT_def IOC_TYPESHIFT_def IOC_SIZESHIFT_def IOC_DIRSHIFT_def
lemmas ioc_masks = IOC_NRMASK_def IOC_TYPEMASK_def IOC_SIZEMASK_def IOC_DIRMASK_def
lemmas ioc_decoders = IOC_DIR_def IOC_TYPE_def IOC_NR_def IOC_SIZE_def

section \<open>Correctness\<close>

lemma u32_below_take_bit:
  "(x::u32) < 4 \<longleftrightarrow> take_bit 2 x = x"
  "(x::u32) < 0x100 \<longleftrightarrow> take_bit 8 x = x"
  "(x::u32) < 0x4000 \<longleftrightarrow> take_bit 14 x = x"
  by (simp_all add: word_less_nat_alt word_unat_eq_iff unsigned_take_bit_eq
      take_bit_nat_eq_self_iff)

lemma ioc_fields:
  assumes "dir < 4" and "ty < 0x100" and "nr < 0x100" and "sz < 0x4000"
  shows "IOC_DIR (IOC dir ty nr sz) = dir" and "IOC_TYPE (IOC dir ty nr sz) = ty"
    and "IOC_NR (IOC dir ty nr sz) = nr" and "IOC_SIZE (IOC dir ty nr sz) = sz"
  using assms unfolding u32_below_take_bit
  by (simp_all add: IOC_def ioc_decoders ioc_shifts ioc_masks bits32)

lemma ioc_rebuild: "IOC (IOC_DIR r) (IOC_TYPE r) (IOC_NR r) (IOC_SIZE r) = r"
  by (simp add: IOC_def ioc_decoders ioc_shifts ioc_masks bits32)

text \<open>
  A request number is its four fields: encoding and decoding are inverse to each other on
  fields within their widths, and every 32-bit number is the encoding of its fields.
\<close>

locale field_code =
  fixes encode :: "'f \<Rightarrow> 'w" and decode :: "'w \<Rightarrow> 'f" and fits :: "'f \<Rightarrow> bool"
  assumes decode_encode: "fits f \<Longrightarrow> decode (encode f) = f"
    and encode_decode: "encode (decode w) = w"
    and decode_fits: "fits (decode w)"
begin

lemma encode_inj: "fits f \<Longrightarrow> fits g \<Longrightarrow> encode f = encode g \<longleftrightarrow> f = g"
  using decode_encode by metis

lemma encode_bij: "bij_betw encode {f. fits f} UNIV"
  by (rule bij_betw_byWitness [where f' = decode])
    (auto simp: decode_encode encode_decode decode_fits)

end

definition ioc_encode :: "u32 \<times> u32 \<times> u32 \<times> u32 \<Rightarrow> u32" where
  "ioc_encode = (\<lambda>(dir, ty, nr, sz). IOC dir ty nr sz)"

definition ioc_decode :: "u32 \<Rightarrow> u32 \<times> u32 \<times> u32 \<times> u32" where
  "ioc_decode r = (IOC_DIR r, IOC_TYPE r, IOC_NR r, IOC_SIZE r)"

definition ioc_fits :: "u32 \<times> u32 \<times> u32 \<times> u32 \<Rightarrow> bool" where
  "ioc_fits = (\<lambda>(dir, ty, nr, sz). dir < 4 \<and> ty < 0x100 \<and> nr < 0x100 \<and> sz < 0x4000)"

interpretation ioc_code: field_code ioc_encode ioc_decode ioc_fits
proof unfold_locales
  show "ioc_fits f \<Longrightarrow> ioc_decode (ioc_encode f) = f" for f
    by (auto simp: ioc_fits_def ioc_decode_def ioc_encode_def ioc_fields)
  show "ioc_encode (ioc_decode w) = w" for w
    by (simp add: ioc_encode_def ioc_decode_def ioc_rebuild)
  have "IOC_DIR w < 4" "IOC_TYPE w < 0x100" "IOC_NR w < 0x100" "IOC_SIZE w < 0x4000"
    for w
    unfolding u32_below_take_bit
    by (simp_all add: ioc_decoders ioc_shifts ioc_masks bits32)
  then show "ioc_fits (ioc_decode w)" for w
    by (simp add: ioc_fits_def ioc_decode_def)
qed

section \<open>Further theorems\<close>

text \<open>
  The macros \<open>_IOC_DIR\<close>, \<open>_IOC_TYPE\<close>, \<open>_IOC_NR\<close> and
  \<open>_IOC_SIZE\<close> recover the four fields that _IOC packed, for fields within their
  widths, and packing the fields of any 32-bit number gives the number back.
\<close>

theorem request_number_code:
  "(dir < 4 \<and> ty < 0x100 \<and> nr < 0x100 \<and> sz < 0x4000 \<longrightarrow>
     IOC_DIR (IOC dir ty nr sz) = dir \<and> IOC_TYPE (IOC dir ty nr sz) = ty \<and>
     IOC_NR (IOC dir ty nr sz) = nr \<and> IOC_SIZE (IOC dir ty nr sz) = sz) \<and>
   IOC (IOC_DIR r) (IOC_TYPE r) (IOC_NR r) (IOC_SIZE r) = r"
  using ioc_fields ioc_rebuild by blast

end
