(* ===== verification/Cec_Devices.thy ===== *)
theory Cec_Devices
  imports Cec_Message Cec_Opcodes C_Ioctl
begin

text \<open>
  The adapter interface of \<^verbatim>\<open>linux/cec.h\<close>: the logical address masks and the \<open>cec_has_*\<close>
  tests on them, the structures of the ioctl interface with their sizes, the ioctl request
  numbers, the message handling modes, and the functions that identify the special devices
  from a \<open>struct cec_log_addrs\<close>.
\<close>

section \<open>Logical addresses and their masks\<close>

abbreviation (input) CEC_MAX_LOG_ADDRS :: nat where "CEC_MAX_LOG_ADDRS \<equiv> 4"

abbreviation (input) CEC_LOG_ADDR_TV :: nat where "CEC_LOG_ADDR_TV \<equiv> 0"
abbreviation (input) CEC_LOG_ADDR_RECORD_1 :: nat where "CEC_LOG_ADDR_RECORD_1 \<equiv> 1"
abbreviation (input) CEC_LOG_ADDR_RECORD_2 :: nat where "CEC_LOG_ADDR_RECORD_2 \<equiv> 2"
abbreviation (input) CEC_LOG_ADDR_TUNER_1 :: nat where "CEC_LOG_ADDR_TUNER_1 \<equiv> 3"
abbreviation (input) CEC_LOG_ADDR_PLAYBACK_1 :: nat where "CEC_LOG_ADDR_PLAYBACK_1 \<equiv> 4"
abbreviation (input) CEC_LOG_ADDR_AUDIOSYSTEM :: nat where "CEC_LOG_ADDR_AUDIOSYSTEM \<equiv> 5"
abbreviation (input) CEC_LOG_ADDR_TUNER_2 :: nat where "CEC_LOG_ADDR_TUNER_2 \<equiv> 6"
abbreviation (input) CEC_LOG_ADDR_TUNER_3 :: nat where "CEC_LOG_ADDR_TUNER_3 \<equiv> 7"
abbreviation (input) CEC_LOG_ADDR_PLAYBACK_2 :: nat where "CEC_LOG_ADDR_PLAYBACK_2 \<equiv> 8"
abbreviation (input) CEC_LOG_ADDR_RECORD_3 :: nat where "CEC_LOG_ADDR_RECORD_3 \<equiv> 9"
abbreviation (input) CEC_LOG_ADDR_TUNER_4 :: nat where "CEC_LOG_ADDR_TUNER_4 \<equiv> 10"
abbreviation (input) CEC_LOG_ADDR_PLAYBACK_3 :: nat where "CEC_LOG_ADDR_PLAYBACK_3 \<equiv> 11"
abbreviation (input) CEC_LOG_ADDR_BACKUP_1 :: nat where "CEC_LOG_ADDR_BACKUP_1 \<equiv> 12"
abbreviation (input) CEC_LOG_ADDR_BACKUP_2 :: nat where "CEC_LOG_ADDR_BACKUP_2 \<equiv> 13"
abbreviation (input) CEC_LOG_ADDR_SPECIFIC :: nat where "CEC_LOG_ADDR_SPECIFIC \<equiv> 14"
abbreviation (input) CEC_LOG_ADDR_UNREGISTERED :: nat where "CEC_LOG_ADDR_UNREGISTERED \<equiv> 15"
abbreviation (input) CEC_LOG_ADDR_BROADCAST :: nat where "CEC_LOG_ADDR_BROADCAST \<equiv> 15"

abbreviation (input) CEC_LOG_ADDR_TYPE_TV :: u8 where "CEC_LOG_ADDR_TYPE_TV \<equiv> 0"
abbreviation (input) CEC_LOG_ADDR_TYPE_RECORD :: u8 where "CEC_LOG_ADDR_TYPE_RECORD \<equiv> 1"
abbreviation (input) CEC_LOG_ADDR_TYPE_TUNER :: u8 where "CEC_LOG_ADDR_TYPE_TUNER \<equiv> 2"
abbreviation (input) CEC_LOG_ADDR_TYPE_PLAYBACK :: u8 where "CEC_LOG_ADDR_TYPE_PLAYBACK \<equiv> 3"
abbreviation (input) CEC_LOG_ADDR_TYPE_AUDIOSYSTEM :: u8 where "CEC_LOG_ADDR_TYPE_AUDIOSYSTEM \<equiv> 4"
abbreviation (input) CEC_LOG_ADDR_TYPE_SPECIFIC :: u8 where "CEC_LOG_ADDR_TYPE_SPECIFIC \<equiv> 5"
abbreviation (input) CEC_LOG_ADDR_TYPE_UNREGISTERED :: u8 where "CEC_LOG_ADDR_TYPE_UNREGISTERED \<equiv> 6"

definition CEC_LOG_ADDR_MASK_TV :: u32 where
  "CEC_LOG_ADDR_MASK_TV = push_bit CEC_LOG_ADDR_TV 1"

definition CEC_LOG_ADDR_MASK_RECORD :: u32 where
  "CEC_LOG_ADDR_MASK_RECORD = push_bit CEC_LOG_ADDR_RECORD_1 1 OR
     push_bit CEC_LOG_ADDR_RECORD_2 1 OR push_bit CEC_LOG_ADDR_RECORD_3 1"

definition CEC_LOG_ADDR_MASK_TUNER :: u32 where
  "CEC_LOG_ADDR_MASK_TUNER = push_bit CEC_LOG_ADDR_TUNER_1 1 OR
     push_bit CEC_LOG_ADDR_TUNER_2 1 OR push_bit CEC_LOG_ADDR_TUNER_3 1 OR
     push_bit CEC_LOG_ADDR_TUNER_4 1"

definition CEC_LOG_ADDR_MASK_PLAYBACK :: u32 where
  "CEC_LOG_ADDR_MASK_PLAYBACK = push_bit CEC_LOG_ADDR_PLAYBACK_1 1 OR
     push_bit CEC_LOG_ADDR_PLAYBACK_2 1 OR push_bit CEC_LOG_ADDR_PLAYBACK_3 1"

definition CEC_LOG_ADDR_MASK_AUDIOSYSTEM :: u32 where
  "CEC_LOG_ADDR_MASK_AUDIOSYSTEM = push_bit CEC_LOG_ADDR_AUDIOSYSTEM 1"

definition CEC_LOG_ADDR_MASK_BACKUP :: u32 where
  "CEC_LOG_ADDR_MASK_BACKUP = push_bit CEC_LOG_ADDR_BACKUP_1 1 OR push_bit CEC_LOG_ADDR_BACKUP_2 1"

definition CEC_LOG_ADDR_MASK_SPECIFIC :: u32 where
  "CEC_LOG_ADDR_MASK_SPECIFIC = push_bit CEC_LOG_ADDR_SPECIFIC 1"

definition CEC_LOG_ADDR_MASK_UNREGISTERED :: u32 where
  "CEC_LOG_ADDR_MASK_UNREGISTERED = push_bit CEC_LOG_ADDR_UNREGISTERED 1"

definition cec_has_tv :: "u16 \<Rightarrow> u32" where
  "cec_has_tv log_addr_mask = promote log_addr_mask AND CEC_LOG_ADDR_MASK_TV"

definition cec_has_record :: "u16 \<Rightarrow> u32" where
  "cec_has_record log_addr_mask = promote log_addr_mask AND CEC_LOG_ADDR_MASK_RECORD"

definition cec_has_tuner :: "u16 \<Rightarrow> u32" where
  "cec_has_tuner log_addr_mask = promote log_addr_mask AND CEC_LOG_ADDR_MASK_TUNER"

definition cec_has_playback :: "u16 \<Rightarrow> u32" where
  "cec_has_playback log_addr_mask = promote log_addr_mask AND CEC_LOG_ADDR_MASK_PLAYBACK"

definition cec_has_audiosystem :: "u16 \<Rightarrow> u32" where
  "cec_has_audiosystem log_addr_mask = promote log_addr_mask AND CEC_LOG_ADDR_MASK_AUDIOSYSTEM"

definition cec_has_backup :: "u16 \<Rightarrow> u32" where
  "cec_has_backup log_addr_mask = promote log_addr_mask AND CEC_LOG_ADDR_MASK_BACKUP"

definition cec_has_specific :: "u16 \<Rightarrow> u32" where
  "cec_has_specific log_addr_mask = promote log_addr_mask AND CEC_LOG_ADDR_MASK_SPECIFIC"

definition cec_is_unregistered :: "u16 \<Rightarrow> u32" where
  "cec_is_unregistered log_addr_mask = promote log_addr_mask AND CEC_LOG_ADDR_MASK_UNREGISTERED"

definition cec_is_unconfigured :: "u16 \<Rightarrow> bool" where
  "cec_is_unconfigured log_addr_mask \<longleftrightarrow> promote log_addr_mask = 0"

section \<open>Modes, capabilities and flags\<close>

abbreviation (input) CEC_MODE_NO_INITIATOR :: u32 where "CEC_MODE_NO_INITIATOR \<equiv> push_bit 0 0x0"
abbreviation (input) CEC_MODE_INITIATOR :: u32 where "CEC_MODE_INITIATOR \<equiv> push_bit 0 0x1"
abbreviation (input) CEC_MODE_EXCL_INITIATOR :: u32 where "CEC_MODE_EXCL_INITIATOR \<equiv> push_bit 0 0x2"
abbreviation (input) CEC_MODE_INITIATOR_MSK :: u32 where "CEC_MODE_INITIATOR_MSK \<equiv> 0x0f"
abbreviation (input) CEC_MODE_NO_FOLLOWER :: u32 where "CEC_MODE_NO_FOLLOWER \<equiv> push_bit 4 0x0"
abbreviation (input) CEC_MODE_FOLLOWER :: u32 where "CEC_MODE_FOLLOWER \<equiv> push_bit 4 0x1"
abbreviation (input) CEC_MODE_EXCL_FOLLOWER :: u32 where "CEC_MODE_EXCL_FOLLOWER \<equiv> push_bit 4 0x2"
abbreviation (input) CEC_MODE_EXCL_FOLLOWER_PASSTHRU :: u32 where "CEC_MODE_EXCL_FOLLOWER_PASSTHRU \<equiv> push_bit 4 0x3"
abbreviation (input) CEC_MODE_MONITOR_PIN :: u32 where "CEC_MODE_MONITOR_PIN \<equiv> push_bit 4 0xd"
abbreviation (input) CEC_MODE_MONITOR :: u32 where "CEC_MODE_MONITOR \<equiv> push_bit 4 0xe"
abbreviation (input) CEC_MODE_MONITOR_ALL :: u32 where "CEC_MODE_MONITOR_ALL \<equiv> push_bit 4 0xf"
abbreviation (input) CEC_MODE_FOLLOWER_MSK :: u32 where "CEC_MODE_FOLLOWER_MSK \<equiv> 0xf0"

abbreviation (input) CEC_CAP_PHYS_ADDR :: u32 where "CEC_CAP_PHYS_ADDR \<equiv> push_bit 0 1"
abbreviation (input) CEC_CAP_LOG_ADDRS :: u32 where "CEC_CAP_LOG_ADDRS \<equiv> push_bit 1 1"
abbreviation (input) CEC_CAP_TRANSMIT :: u32 where "CEC_CAP_TRANSMIT \<equiv> push_bit 2 1"
abbreviation (input) CEC_CAP_PASSTHROUGH :: u32 where "CEC_CAP_PASSTHROUGH \<equiv> push_bit 3 1"
abbreviation (input) CEC_CAP_RC :: u32 where "CEC_CAP_RC \<equiv> push_bit 4 1"
abbreviation (input) CEC_CAP_MONITOR_ALL :: u32 where "CEC_CAP_MONITOR_ALL \<equiv> push_bit 5 1"
abbreviation (input) CEC_CAP_NEEDS_HPD :: u32 where "CEC_CAP_NEEDS_HPD \<equiv> push_bit 6 1"
abbreviation (input) CEC_CAP_MONITOR_PIN :: u32 where "CEC_CAP_MONITOR_PIN \<equiv> push_bit 7 1"
abbreviation (input) CEC_LOG_ADDRS_FL_ALLOW_UNREG_FALLBACK :: u32 where "CEC_LOG_ADDRS_FL_ALLOW_UNREG_FALLBACK \<equiv> push_bit 0 1"
abbreviation (input) CEC_LOG_ADDRS_FL_ALLOW_RC_PASSTHRU :: u32 where "CEC_LOG_ADDRS_FL_ALLOW_RC_PASSTHRU \<equiv> push_bit 1 1"
abbreviation (input) CEC_LOG_ADDRS_FL_CDC_ONLY :: u32 where "CEC_LOG_ADDRS_FL_CDC_ONLY \<equiv> push_bit 2 1"
abbreviation (input) CEC_EVENT_STATE_CHANGE :: u32 where "CEC_EVENT_STATE_CHANGE \<equiv> 1"
abbreviation (input) CEC_EVENT_LOST_MSGS :: u32 where "CEC_EVENT_LOST_MSGS \<equiv> 2"
abbreviation (input) CEC_EVENT_PIN_CEC_LOW :: u32 where "CEC_EVENT_PIN_CEC_LOW \<equiv> 3"
abbreviation (input) CEC_EVENT_PIN_CEC_HIGH :: u32 where "CEC_EVENT_PIN_CEC_HIGH \<equiv> 4"
abbreviation (input) CEC_EVENT_PIN_HPD_LOW :: u32 where "CEC_EVENT_PIN_HPD_LOW \<equiv> 5"
abbreviation (input) CEC_EVENT_PIN_HPD_HIGH :: u32 where "CEC_EVENT_PIN_HPD_HIGH \<equiv> 6"
abbreviation (input) CEC_EVENT_FL_INITIAL_STATE :: u32 where "CEC_EVENT_FL_INITIAL_STATE \<equiv> push_bit 0 1"
abbreviation (input) CEC_EVENT_FL_DROPPED_EVENTS :: u32 where "CEC_EVENT_FL_DROPPED_EVENTS \<equiv> push_bit 1 1"

section \<open>The structures of the ioctl interface\<close>

text \<open>
  \<open>struct cec_caps\<close> and \<open>struct cec_log_addrs\<close>; the arrays are lists whose lengths
  \<open>caps_wf\<close> and \<open>las_wf\<close> fix. The field names that \<open>struct cec_msg\<close> has too carry a prefix.
\<close>

record cec_caps =
  driver :: "u8 list"
  name :: "u8 list"
  available_log_addrs :: u32
  capabilities :: u32
  version :: u32

record cec_log_addrs =
  log_addr :: "u8 list"
  log_addr_mask :: u16
  cec_version :: u8
  num_log_addrs :: u8
  vendor_id :: u32
  las_flags :: u32
  osd_name :: "u8 list"
  primary_device_type :: "u8 list"
  log_addr_type :: "u8 list"
  all_device_types :: "u8 list"
  features :: "u8 list list"

definition las_wf :: "cec_log_addrs \<Rightarrow> bool" where
  "las_wf las \<longleftrightarrow> length (log_addr las) = CEC_MAX_LOG_ADDRS \<and> length (osd_name las) = 15 \<and>
     length (primary_device_type las) = CEC_MAX_LOG_ADDRS \<and>
     length (log_addr_type las) = CEC_MAX_LOG_ADDRS \<and>
     length (all_device_types las) = CEC_MAX_LOG_ADDRS \<and>
     length (features las) = CEC_MAX_LOG_ADDRS \<and> list_all (\<lambda>f. length f = 12) (features las)"

text \<open>
  \<open>struct cec_event\<close>: its union is the array \<open>raw\<close> of 16 words; the other two members are
  views of \<open>raw[0]\<close>, whose low half is the first \<open>__u16\<close> on this little-endian target.
\<close>

record cec_event =
  ts :: u64
  event :: u32
  event_flags :: u32
  raw :: "u32 list"

definition get_state_change :: "cec_event \<Rightarrow> u16 \<times> u16" where
  "get_state_change e = (to_u16 (raw e ! 0), to_u16 (drop_bit 16 (raw e ! 0)))"

definition set_state_change :: "u16 \<times> u16 \<Rightarrow> cec_event \<Rightarrow> cec_event" where
  "set_state_change = (\<lambda>(phys_addr, mask) e.
     e\<lparr>raw := (raw e)[0 := promote phys_addr OR push_bit 16 (promote mask)]\<rparr>)"

definition get_lost_msgs :: "cec_event \<Rightarrow> u32" where
  "get_lost_msgs e = raw e ! 0"

definition set_lost_msgs :: "u32 \<Rightarrow> cec_event \<Rightarrow> cec_event" where
  "set_lost_msgs n e = e\<lparr>raw := (raw e)[0 := n]\<rparr>"

subsection \<open>Sizes and request numbers\<close>

definition cec_caps_size :: nat where
  "cec_caps_size = struct_size [(32, 1), (32, 1), (4, 4), (4, 4), (4, 4)]"

definition cec_log_addrs_size :: nat where
  "cec_log_addrs_size = struct_size [(CEC_MAX_LOG_ADDRS, 1), (2, 2), (1, 1), (1, 1), (4, 4), (4, 4),
     (15, 1), (CEC_MAX_LOG_ADDRS, 1), (CEC_MAX_LOG_ADDRS, 1), (CEC_MAX_LOG_ADDRS, 1),
     (CEC_MAX_LOG_ADDRS * 12, 1)]"

definition cec_msg_size :: nat where
  "cec_msg_size = struct_size [(8, 8), (8, 8), (4, 4), (4, 4), (4, 4), (4, 4),
     (CEC_MAX_MSG_SIZE, 1), (1, 1), (1, 1), (1, 1), (1, 1), (1, 1), (1, 1), (1, 1)]"

definition cec_event_size :: nat where
  "cec_event_size = struct_size [(8, 8), (4, 4), (4, 4), (16 * 4, 4)]"

text \<open>The type character \<open>'a'\<close> is 0x61.\<close>

definition CEC_ADAP_G_CAPS :: u32 where
  "CEC_ADAP_G_CAPS = IOWR 0x61 0 (of_nat cec_caps_size)"

definition CEC_ADAP_G_PHYS_ADDR :: u32 where
  "CEC_ADAP_G_PHYS_ADDR = IOR 0x61 1 2"

definition CEC_ADAP_S_PHYS_ADDR :: u32 where
  "CEC_ADAP_S_PHYS_ADDR = IOW 0x61 2 2"

definition CEC_ADAP_G_LOG_ADDRS :: u32 where
  "CEC_ADAP_G_LOG_ADDRS = IOR 0x61 3 (of_nat cec_log_addrs_size)"

definition CEC_ADAP_S_LOG_ADDRS :: u32 where
  "CEC_ADAP_S_LOG_ADDRS = IOWR 0x61 4 (of_nat cec_log_addrs_size)"

definition CEC_TRANSMIT :: u32 where
  "CEC_TRANSMIT = IOWR 0x61 5 (of_nat cec_msg_size)"

definition CEC_RECEIVE :: u32 where
  "CEC_RECEIVE = IOWR 0x61 6 (of_nat cec_msg_size)"

definition CEC_DQEVENT :: u32 where
  "CEC_DQEVENT = IOWR 0x61 7 (of_nat cec_event_size)"

definition CEC_G_MODE :: u32 where
  "CEC_G_MODE = IOR 0x61 8 4"

definition CEC_S_MODE :: u32 where
  "CEC_S_MODE = IOW 0x61 9 4"

section \<open>Special devices\<close>

definition cec_is_2nd_tv :: "cec_log_addrs \<Rightarrow> bool" where
  "cec_is_2nd_tv las \<longleftrightarrow> num_log_addrs las \<noteq> 0 \<and>
     unat (log_addr las ! 0) \<ge> CEC_LOG_ADDR_SPECIFIC \<and>
     primary_device_type las ! 0 = CEC_OP_PRIM_DEVTYPE_TV"

definition cec_is_processor :: "cec_log_addrs \<Rightarrow> bool" where
  "cec_is_processor las \<longleftrightarrow> num_log_addrs las \<noteq> 0 \<and>
     unat (log_addr las ! 0) \<ge> CEC_LOG_ADDR_BACKUP_1 \<and>
     primary_device_type las ! 0 = CEC_OP_PRIM_DEVTYPE_PROCESSOR"

definition cec_is_switch :: "cec_log_addrs \<Rightarrow> bool" where
  "cec_is_switch las \<longleftrightarrow> num_log_addrs las = 1 \<and>
     unat (log_addr las ! 0) = CEC_LOG_ADDR_UNREGISTERED \<and>
     primary_device_type las ! 0 = CEC_OP_PRIM_DEVTYPE_SWITCH \<and>
     las_flags las AND CEC_LOG_ADDRS_FL_CDC_ONLY = 0"

definition cec_is_cdc_only :: "cec_log_addrs \<Rightarrow> bool" where
  "cec_is_cdc_only las \<longleftrightarrow> num_log_addrs las = 1 \<and>
     unat (log_addr las ! 0) = CEC_LOG_ADDR_UNREGISTERED \<and>
     primary_device_type las ! 0 = CEC_OP_PRIM_DEVTYPE_SWITCH \<and>
     las_flags las AND CEC_LOG_ADDRS_FL_CDC_ONLY \<noteq> 0"

section \<open>Correctness\<close>

lemmas log_addr_masks = CEC_LOG_ADDR_MASK_TV_def CEC_LOG_ADDR_MASK_RECORD_def
  CEC_LOG_ADDR_MASK_TUNER_def CEC_LOG_ADDR_MASK_PLAYBACK_def CEC_LOG_ADDR_MASK_AUDIOSYSTEM_def
  CEC_LOG_ADDR_MASK_BACKUP_def CEC_LOG_ADDR_MASK_SPECIFIC_def CEC_LOG_ADDR_MASK_UNREGISTERED_def

lemmas log_addr_tests = cec_has_tv_def cec_has_record_def cec_has_tuner_def cec_has_playback_def
  cec_has_audiosystem_def cec_has_backup_def cec_has_specific_def cec_is_unregistered_def

text \<open>
  The eight tests, in the order of the header, and the logical addresses each stands for.
  The masks split the 16 logical addresses into disjoint classes.
\<close>

definition log_addr_classes :: "((u16 \<Rightarrow> u32) \<times> nat list) list" where
  "log_addr_classes = [
     (cec_has_tv, [CEC_LOG_ADDR_TV]),
     (cec_has_record, [CEC_LOG_ADDR_RECORD_1, CEC_LOG_ADDR_RECORD_2, CEC_LOG_ADDR_RECORD_3]),
     (cec_has_tuner, [CEC_LOG_ADDR_TUNER_1, CEC_LOG_ADDR_TUNER_2, CEC_LOG_ADDR_TUNER_3,
        CEC_LOG_ADDR_TUNER_4]),
     (cec_has_playback, [CEC_LOG_ADDR_PLAYBACK_1, CEC_LOG_ADDR_PLAYBACK_2, CEC_LOG_ADDR_PLAYBACK_3]),
     (cec_has_audiosystem, [CEC_LOG_ADDR_AUDIOSYSTEM]),
     (cec_has_backup, [CEC_LOG_ADDR_BACKUP_1, CEC_LOG_ADDR_BACKUP_2]),
     (cec_has_specific, [CEC_LOG_ADDR_SPECIFIC]),
     (cec_is_unregistered, [CEC_LOG_ADDR_UNREGISTERED])]"

lemma log_addr_class_sound:
  assumes "(test, addrs) \<in> set log_addr_classes"
  shows "test claimed \<noteq> 0 \<longleftrightarrow> (\<exists>a \<in> set addrs. bit claimed a)"
  using assms
  by (auto simp: log_addr_classes_def log_addr_tests log_addr_masks bits32)

lemma log_addr_classes_partition:
  "sort (concat (map snd log_addr_classes)) = [0..<16]"
  by (simp add: log_addr_classes_def upt_rec)

lemma unconfigured_iff:
  "cec_is_unconfigured claimed \<longleftrightarrow> (\<forall>(test, _) \<in> set log_addr_classes. test claimed = 0)"
  by (auto simp: cec_is_unconfigured_def log_addr_classes_def log_addr_tests log_addr_masks bits32)

lemma state_change_views:
  assumes "raw e \<noteq> []"
  shows "get_state_change (set_state_change (phys_addr, claimed) e) = (phys_addr, claimed)"
    and "get_lost_msgs (set_lost_msgs n e) = n"
    and "set_state_change (get_state_change e) e = e"
proof -
  show "get_state_change (set_state_change (phys_addr, claimed) e) = (phys_addr, claimed)"
    using assms by (simp add: get_state_change_def set_state_change_def bits16)
  show "get_lost_msgs (set_lost_msgs n e) = n"
    using assms by (simp add: get_lost_msgs_def set_lost_msgs_def)
  have "promote (to_u16 w) OR push_bit 16 (promote (to_u16 (drop_bit 16 w))) = w" for w :: u32
    by (simp add: bits32)
  then show "set_state_change (get_state_change e) e = e"
    by (simp add: get_state_change_def set_state_change_def)
qed

definition cec_ioctls :: "u32 list" where
  "cec_ioctls = [CEC_ADAP_G_CAPS, CEC_ADAP_G_PHYS_ADDR, CEC_ADAP_S_PHYS_ADDR,
     CEC_ADAP_G_LOG_ADDRS, CEC_ADAP_S_LOG_ADDRS, CEC_TRANSMIT, CEC_RECEIVE, CEC_DQEVENT,
     CEC_G_MODE, CEC_S_MODE]"

lemma cec_struct_sizes:
  "cec_caps_size = 76" "cec_log_addrs_size = 92" "cec_msg_size = 56" "cec_event_size = 80"
  by code_simp+

lemma cec_ioctl_numbers:
  "map IOC_NR cec_ioctls = map of_nat [0..<10]"
  "\<forall>r \<in> set cec_ioctls. IOC_TYPE r = 0x61"
  "map IOC_SIZE cec_ioctls = [76, 2, 2, 92, 92, 56, 56, 80, 4, 4]"
  by code_simp+

lemma special_devices_exclusive:
  "(cec_is_2nd_tv las \<longrightarrow> \<not> cec_is_processor las \<and> \<not> cec_is_switch las \<and> \<not> cec_is_cdc_only las) \<and>
   (cec_is_processor las \<longrightarrow> \<not> cec_is_switch las \<and> \<not> cec_is_cdc_only las) \<and>
   (cec_is_switch las \<longrightarrow> \<not> cec_is_cdc_only las)"
  by (auto simp: cec_is_2nd_tv_def cec_is_processor_def cec_is_switch_def cec_is_cdc_only_def)

text \<open>
  The initiator and follower parts of a mode do not overlap, so that a mode is an
  initiator mode or-ed with a follower mode, and the masks take it apart.
\<close>

definition initiator_modes :: "u32 list" where
  "initiator_modes = [CEC_MODE_NO_INITIATOR, CEC_MODE_INITIATOR, CEC_MODE_EXCL_INITIATOR]"

definition follower_modes :: "u32 list" where
  "follower_modes = [CEC_MODE_NO_FOLLOWER, CEC_MODE_FOLLOWER, CEC_MODE_EXCL_FOLLOWER,
     CEC_MODE_EXCL_FOLLOWER_PASSTHRU, CEC_MODE_MONITOR_PIN, CEC_MODE_MONITOR, CEC_MODE_MONITOR_ALL]"

lemma modes_split:
  "\<forall>i \<in> set initiator_modes. \<forall>f \<in> set follower_modes.
     (i OR f) AND CEC_MODE_INITIATOR_MSK = i \<and> (i OR f) AND CEC_MODE_FOLLOWER_MSK = f"
  by code_simp

section \<open>Further theorems\<close>

text \<open>
  The \<open>cec_has_*\<close> tests look at the logical addresses of their class: each is
  non-zero exactly when an address of its class is in the mask, the classes split the 16
  addresses without overlap, and \<open>cec_is_unconfigured\<close> holds exactly when every
  test fails.
\<close>

theorem address_classes:
  "(\<forall>(test, addrs) \<in> set log_addr_classes. test claimed \<noteq> 0 \<longleftrightarrow> (\<exists>a \<in> set addrs. bit claimed a)) \<and>
   sort (concat (map snd log_addr_classes)) = [0..<16] \<and>
   (cec_is_unconfigured claimed \<longleftrightarrow> (\<forall>(test, _) \<in> set log_addr_classes. test claimed = 0))"
  using log_addr_class_sound log_addr_classes_partition unconfigured_iff by auto

text \<open>
  A device is at most one of second TV, processor, switch and CDC-only device; a single
  unregistered switch is a switch or a CDC-only device, as its flag says.
\<close>

theorem special_device_kinds:
  "length (filter id [cec_is_2nd_tv las, cec_is_processor las, cec_is_switch las, cec_is_cdc_only las]) \<le> 1 \<and>
   (cec_is_switch las \<or> cec_is_cdc_only las \<longleftrightarrow>
      num_log_addrs las = 1 \<and> log_addr las ! 0 = 15 \<and> primary_device_type las ! 0 = CEC_OP_PRIM_DEVTYPE_SWITCH)"
proof -
  have "unat b = 15 \<longleftrightarrow> b = 15" for b :: u8
    by (simp add: word_unat_eq_iff)
  then show ?thesis
    using special_devices_exclusive [of las]
    by (auto simp: cec_is_switch_def cec_is_cdc_only_def)
qed

text \<open>
  The request numbers of the CEC interface: all of type character a, numbered 0 to 9 in the
  order of the header (hence distinct), each carrying the size of its argument on this target
  (76 bytes for \<open>cec_caps\<close>, 92 for \<open>cec_log_addrs\<close>, 56 for
  \<open>cec_msg\<close>, 80 for \<open>cec_event\<close>).
\<close>

theorem cec_ioctl_table:
  "map ioc_decode cec_ioctls =
     [(3, 0x61, 0, 76), (2, 0x61, 1, 2), (1, 0x61, 2, 2), (2, 0x61, 3, 92), (3, 0x61, 4, 92),
      (3, 0x61, 5, 56), (3, 0x61, 6, 56), (3, 0x61, 7, 80), (2, 0x61, 8, 4), (1, 0x61, 9, 4)]"
  by code_simp

end
