(* ===== verification/Swab.thy ===== *)
theory Swab
  imports Prelude
begin

text \<open>
  Byte swapping: \<^verbatim>\<open>linux/swab.h\<close> and the ARM routine of \<^verbatim>\<open>asm/swab-32.h\<close>. The leading
  underscores of the names are dropped.

  \<open>__builtin_constant_p\<close> is the compiler's choice, so it is the argument \<open>const\<close> of the
  definitions whose result could depend on it, and \<open>thumb\<close> says whether \<open>__thumb__\<close> is
  defined. \<open>__SWAB_64_THRU_32__\<close> is defined unless \<open>__STRICT_ANSI__\<close> is (\<open>strict\<close>). The lemmas
  show that none of these choices matters. Neither \<open>__HAVE_BUILTIN_BSWAP*__\<close> nor another
  \<open>__arch_*\<close> macro is defined by the headers of this system.

  Pointers are keys of a store (\<open>'w store\<close>); reading outside the store is \<open>None\<close>.

  The specification is the list of bytes of a word, least significant first (\<open>bytes_of\<close>).
\<close>

section \<open>Constant expressions\<close>

definition constant_swab16 :: "u16 \<Rightarrow> u16" where
  "constant_swab16 x = push_bit 8 (x AND 0x00ff) OR drop_bit 8 (x AND 0xff00)"

definition constant_swab32 :: "u32 \<Rightarrow> u32" where
  "constant_swab32 x =
     push_bit 24 (x AND 0x000000ff) OR push_bit 8 (x AND 0x0000ff00) OR
     drop_bit 8 (x AND 0x00ff0000) OR drop_bit 24 (x AND 0xff000000)"

definition constant_swab64 :: "u64 \<Rightarrow> u64" where
  "constant_swab64 x =
     push_bit 56 (x AND 0x00000000000000ff) OR push_bit 40 (x AND 0x000000000000ff00) OR
     push_bit 24 (x AND 0x0000000000ff0000) OR push_bit 8 (x AND 0x00000000ff000000) OR
     drop_bit 8 (x AND 0x000000ff00000000) OR drop_bit 24 (x AND 0x0000ff0000000000) OR
     drop_bit 40 (x AND 0x00ff000000000000) OR drop_bit 56 (x AND 0xff00000000000000)"

definition constant_swahw32 :: "u32 \<Rightarrow> u32" where
  "constant_swahw32 x = push_bit 16 (x AND 0x0000ffff) OR drop_bit 16 (x AND 0xffff0000)"

definition constant_swahb32 :: "u32 \<Rightarrow> u32" where
  "constant_swahb32 x = push_bit 8 (x AND 0x00ff00ff) OR drop_bit 8 (x AND 0xff00ff00)"

section \<open>The ARM routine\<close>

text \<open>
  The assembly line \<open>eor t, x, x, ror #16\<close> is the exclusive or of \<open>x\<close> with \<open>x\<close> rotated
  right by 16; the other branch writes the rotation with two shifts.
\<close>

definition ror32 :: "nat \<Rightarrow> u32 \<Rightarrow> u32" where
  "ror32 n x = word_rotr n x"

definition arch_swab32 :: "bool \<Rightarrow> bool \<Rightarrow> u32 \<Rightarrow> u32" where
  "arch_swab32 thumb const x =
     (let t = (if \<not> thumb \<and> \<not> const then x XOR ror32 16 x
               else x XOR (push_bit 16 x OR drop_bit 16 x));
          x = push_bit 24 x OR drop_bit 8 x;
          t = t AND NOT 0x00FF0000
      in x XOR drop_bit 8 t)"

section \<open>Functions\<close>

definition fswab16 :: "u16 \<Rightarrow> u16" where
  "fswab16 val = constant_swab16 val"

definition fswab32 :: "bool \<Rightarrow> bool \<Rightarrow> u32 \<Rightarrow> u32" where
  "fswab32 thumb const val = arch_swab32 thumb const val"

definition fswab64 :: "bool \<Rightarrow> bool \<Rightarrow> bool \<Rightarrow> u64 \<Rightarrow> u64" where
  "fswab64 strict thumb const val =
     (if \<not> strict then
        let h = ucast (drop_bit 32 val) :: u32;
            l = ucast (val AND (push_bit 32 1 - 1)) :: u32
        in push_bit 32 (ucast (fswab32 thumb const l)) OR ucast (fswab32 thumb const h)
      else constant_swab64 val)"

definition fswahw32 :: "u32 \<Rightarrow> u32" where
  "fswahw32 val = constant_swahw32 val"

definition fswahb32 :: "u32 \<Rightarrow> u32" where
  "fswahb32 val = constant_swahb32 val"

definition swab16 :: "bool \<Rightarrow> u16 \<Rightarrow> u16" where
  "swab16 const x = (if const then constant_swab16 x else fswab16 x)"

definition swab32 :: "bool \<Rightarrow> bool \<Rightarrow> u32 \<Rightarrow> u32" where
  "swab32 thumb const x = (if const then constant_swab32 x else fswab32 thumb const x)"

definition swab64 :: "bool \<Rightarrow> bool \<Rightarrow> bool \<Rightarrow> u64 \<Rightarrow> u64" where
  "swab64 strict thumb const x =
     (if const then constant_swab64 x else fswab64 strict thumb const x)"

definition swahw32 :: "bool \<Rightarrow> u32 \<Rightarrow> u32" where
  "swahw32 const x = (if const then constant_swahw32 x else fswahw32 x)"

definition swahb32 :: "bool \<Rightarrow> u32 \<Rightarrow> u32" where
  "swahb32 const x = (if const then constant_swahb32 x else fswahb32 x)"

subsection \<open>Through a pointer, and in place\<close>

type_synonym 'w store = "nat \<rightharpoonup> 'w"

definition swab16p :: "u16 store \<Rightarrow> nat \<Rightarrow> u16 option" where
  "swab16p s p = do { v \<leftarrow> s p; Some (swab16 False v) }"

definition swab32p :: "bool \<Rightarrow> u32 store \<Rightarrow> nat \<Rightarrow> u32 option" where
  "swab32p thumb s p = do { v \<leftarrow> s p; Some (swab32 thumb False v) }"

definition swab64p :: "bool \<Rightarrow> bool \<Rightarrow> u64 store \<Rightarrow> nat \<Rightarrow> u64 option" where
  "swab64p strict thumb s p = do { v \<leftarrow> s p; Some (swab64 strict thumb False v) }"

definition swahw32p :: "u32 store \<Rightarrow> nat \<Rightarrow> u32 option" where
  "swahw32p s p = do { v \<leftarrow> s p; Some (swahw32 False v) }"

definition swahb32p :: "u32 store \<Rightarrow> nat \<Rightarrow> u32 option" where
  "swahb32p s p = do { v \<leftarrow> s p; Some (swahb32 False v) }"

definition swab16s :: "nat \<Rightarrow> u16 store \<Rightarrow> u16 store option" where
  "swab16s p s = do { v \<leftarrow> swab16p s p; Some (s(p \<mapsto> v)) }"

definition swab32s :: "bool \<Rightarrow> nat \<Rightarrow> u32 store \<Rightarrow> u32 store option" where
  "swab32s thumb p s = do { v \<leftarrow> swab32p thumb s p; Some (s(p \<mapsto> v)) }"

definition swab64s :: "bool \<Rightarrow> bool \<Rightarrow> nat \<Rightarrow> u64 store \<Rightarrow> u64 store option" where
  "swab64s strict thumb p s = do { v \<leftarrow> swab64p strict thumb s p; Some (s(p \<mapsto> v)) }"

definition swahw32s :: "nat \<Rightarrow> u32 store \<Rightarrow> u32 store option" where
  "swahw32s p s = do { v \<leftarrow> swahw32p s p; Some (s(p \<mapsto> v)) }"

definition swahb32s :: "nat \<Rightarrow> u32 store \<Rightarrow> u32 store option" where
  "swahb32s p s = do { v \<leftarrow> swahb32p s p; Some (s(p \<mapsto> v)) }"

section \<open>Specification and correctness\<close>

definition bytes_of :: "nat \<Rightarrow> 'a::len word \<Rightarrow> u8 list" where
  "bytes_of n x = map (\<lambda>i. to_u8 (drop_bit (8 * i) x)) [0..<n]"

lemma word_eq_bits64: "(a::u64) = b \<longleftrightarrow> (\<forall>n<64. bit a n = bit b n)"
  using bit_word_eqI [of a b] by auto

lemma bit_u64_beyond [simp]: "64 \<le> n \<Longrightarrow> bit (b::u64) n = False"
  by (auto dest: bit_imp_le_length)

lemma all_less_split: "(\<forall>i < m + n. P i) \<longleftrightarrow> (\<forall>i < m. P i) \<and> (\<forall>i < n. P (m + i))" for m n :: nat
  by (metis add_less_cancel_left le_add_diff_inverse not_le_imp_less trans_less_add1)

lemma all_less_64: "(\<forall>n<64::nat. P n) \<longleftrightarrow> (\<forall>n<32. P n) \<and> (\<forall>n<32. P (32 + n))"
  using all_less_split [of 32 32 P] by simp

lemmas bits64 = word_eq_bits64 all_less_64 all_less_32 bit_simps numeral_2_eq_2 [symmetric]

lemma iff_cancel: "(a = (a = b)) = (b :: bool)"
  by blast

lemma arch_swab32_correct: "arch_swab32 thumb const x = constant_swab32 x"
proof -
  have "ror32 16 x = push_bit 16 x OR drop_bit 16 x"
    by (simp add: ror32_def bits32)
  then have "arch_swab32 thumb const x = arch_swab32 True True x"
    by (simp add: arch_swab32_def Let_def)
  also have "\<dots> = constant_swab32 x"
    by (simp add: arch_swab32_def Let_def constant_swab32_def bits32 iff_cancel)
  finally show ?thesis .
qed

lemma fswab64_correct: "fswab64 strict thumb const x = constant_swab64 x"
  by (simp add: fswab64_def fswab32_def arch_swab32_correct constant_swab32_def
      constant_swab64_def Let_def bits64)

lemma swab_choices:
  "swab16 const x16 = constant_swab16 x16"
  "swab32 thumb const x32 = constant_swab32 x32"
  "swab64 strict thumb const x64 = constant_swab64 x64"
  "swahw32 const x32 = constant_swahw32 x32"
  "swahb32 const x32 = constant_swahb32 x32"
  by (simp_all add: swab16_def fswab16_def swab32_def fswab32_def arch_swab32_correct swab64_def
      fswab64_correct swahw32_def fswahw32_def swahb32_def fswahb32_def)

lemma swab_bytes:
  "bytes_of 2 (constant_swab16 x16) = rev (bytes_of 2 x16)"
  "bytes_of 4 (constant_swab32 x32) = rev (bytes_of 4 x32)"
  "bytes_of 8 (constant_swab64 x64) = rev (bytes_of 8 x64)"
  by (simp_all add: bytes_of_def upt_rec constant_swab16_def constant_swab32_def
      constant_swab64_def bits8)

lemma swah_bytes:
  "bytes_of 4 (constant_swahw32 x) =
     (let b = bytes_of 4 x in [b ! 2, b ! 3, b ! 0, b ! 1])"
  "bytes_of 4 (constant_swahb32 x) =
     (let b = bytes_of 4 x in [b ! 1, b ! 0, b ! 3, b ! 2])"
  by (simp_all add: bytes_of_def upt_rec Let_def constant_swahw32_def constant_swahb32_def bits8)

text \<open>
  A swap is an involution that the pointer and in-place variants apply to one cell of the
  store.
\<close>

locale cell_swap =
  fixes swap :: "'w \<Rightarrow> 'w" and through :: "'w store \<Rightarrow> nat \<Rightarrow> 'w option"
    and in_place :: "nat \<Rightarrow> 'w store \<Rightarrow> 'w store option"
  assumes swap_swap: "swap (swap x) = x"
    and through_swap: "through s p = map_option swap (s p)"
    and in_place_swap: "in_place p s = map_option (\<lambda>v. s(p \<mapsto> swap v)) (s p)"
begin

lemma in_place_defined: "in_place p s \<noteq> None \<longleftrightarrow> p \<in> dom s"
  by (auto simp: in_place_swap)

lemma in_place_frame: "in_place p s = Some s' \<Longrightarrow> q \<noteq> p \<Longrightarrow> s' q = s q"
  by (auto simp: in_place_swap)

lemma in_place_twice: "p \<in> dom s \<Longrightarrow> Option.bind (in_place p s) (in_place p) = Some s"
  by (auto simp: in_place_swap swap_swap fun_upd_idem_iff)

lemma in_place_through: "in_place p s = Some s' \<Longrightarrow> s' p = through s p"
  by (auto simp: in_place_swap through_swap)

end

lemmas swab_ptr_defs = swab16p_def swab32p_def swab64p_def swahw32p_def swahb32p_def
  swab16s_def swab32s_def swab64s_def swahw32s_def swahb32s_def

lemma option_bind_map: "Option.bind x (\<lambda>v. Some (f v)) = map_option f x"
  by (cases x) simp_all

lemma swab_involutions:
  "constant_swab16 (constant_swab16 x16) = x16"
  "constant_swab32 (constant_swab32 x32) = x32"
  "constant_swab64 (constant_swab64 x64) = x64"
  "constant_swahw32 (constant_swahw32 x32) = x32"
  "constant_swahb32 (constant_swahb32 x32) = x32"
  by (simp_all add: constant_swab16_def constant_swab32_def constant_swab64_def
      constant_swahw32_def constant_swahb32_def bits16 bits32 bits64)

lemmas swab_cell = swab_involutions swab_ptr_defs swab_choices option_bind_map
  option.map_comp comp_def

interpretation swab16: cell_swap constant_swab16 swab16p swab16s
  by unfold_locales (simp_all add: swab_cell)

interpretation swab32: cell_swap constant_swab32 "swab32p thumb" "swab32s thumb" for thumb
  by unfold_locales (simp_all add: swab_cell)

interpretation swab64: cell_swap constant_swab64 "swab64p strict thumb" "swab64s strict thumb"
  for strict thumb
  by unfold_locales (simp_all add: swab_cell)

interpretation swahw32: cell_swap constant_swahw32 swahw32p swahw32s
  by unfold_locales (simp_all add: swab_cell)

interpretation swahb32: cell_swap constant_swahb32 swahb32p swahb32s
  by unfold_locales (simp_all add: swab_cell)

section \<open>Further theorems\<close>

text \<open>
  The half-word swap exchanges the two halves of a word and the high-and-low byte swap the two
  bytes of each half; both are their own inverse.
\<close>

theorem half_word_swaps:
  "(let b = bytes_of 4 x in
     bytes_of 4 (swahw32 const x) = [b ! 2, b ! 3, b ! 0, b ! 1] \<and>
     bytes_of 4 (swahb32 const x) = [b ! 1, b ! 0, b ! 3, b ! 2]) \<and>
   swahw32 const (swahw32 const x) = x \<and> swahb32 const (swahb32 const x) = x"
  using swah_bytes [of x] by (simp add: swab_choices swab_involutions Let_def)

text \<open>
  Swapping a 32-bit cell in place stores what the pointer variant returns, changes no other
  cell, and done twice restores the store; on a dangling pointer it is undefined.
\<close>

theorem in_place_swap:
  "(p \<in> dom s \<longrightarrow> (\<exists>s'. swab32s thumb p s = Some s' \<and> s' p = swab32p thumb s p \<and>
      (\<forall>q. q \<noteq> p \<longrightarrow> s' q = s q) \<and> swab32s thumb p s' = Some s)) \<and>
   (p \<notin> dom s \<longrightarrow> swab32s thumb p s = None)"
proof -
  have "\<exists>s'. swab32s thumb p s = Some s' \<and> s' p = swab32p thumb s p \<and>
      (\<forall>q. q \<noteq> p \<longrightarrow> s' q = s q) \<and> swab32s thumb p s' = Some s" if "p \<in> dom s"
    using swab32.in_place_defined [of thumb p s] swab32.in_place_through [of thumb p s]
      swab32.in_place_frame [of thumb p s] swab32.in_place_twice [OF that, of thumb] that
    by (cases "swab32s thumb p s") auto
  then show ?thesis
    using swab32.in_place_defined [of thumb p s] by auto
qed

section \<open>Properties\<close>

text \<open>
  C37. Byte swapping is byte reversal, whichever implementation the compiler picks: the
  exclusive-or routine for ARM (inline assembly or C), the 64-bit swap through two 32-bit swaps
  and the constant expressions all return the word whose bytes are those of the argument in
  reverse.
\<close>

theorem swab_reverses_bytes:
  "bytes_of 2 (swab16 const x16) = rev (bytes_of 2 x16) \<and>
   bytes_of 4 (swab32 thumb const x32) = rev (bytes_of 4 x32) \<and>
   bytes_of 8 (swab64 strict thumb const x64) = rev (bytes_of 8 x64) \<and>
   arch_swab32 thumb const x32 = constant_swab32 x32 \<and>
   fswab64 strict thumb const x64 = constant_swab64 x64"
  by (simp add: swab_choices swab_bytes arch_swab32_correct fswab64_correct)

end
