(* ===== verification/Byteorder.thy ===== *)
theory Byteorder
  imports Swab
begin

text \<open>
  The byte order conversions of \<^verbatim>\<open>linux/byteorder/little_endian.h\<close>, which
  \<^verbatim>\<open>asm/byteorder-32.h\<close> includes on this little-endian target, and those of
  \<^verbatim>\<open>linux/byteorder/big_endian.h\<close>, which it includes for \<open>__ARMEB__\<close>; the latter carry the
  suffix \<open>_eb\<close>. The leading underscores of the names are dropped. The arguments \<open>const\<close>,
  \<open>thumb\<close> and \<open>strict\<close> are the compiler's choices (see \<open>Swab\<close>).

  The contract (\<open>wire_order\<close>): the conversions to and from a byte order are inverse to each
  other, and the memory image of a converted value is the value's byte string in that
  order. It is interpreted for both orders, all widths and both targets.
\<close>

section \<open>Little-endian target\<close>

definition constant_htonl :: "u32 \<Rightarrow> u32" where
  "constant_htonl x = constant_swab32 x"

definition constant_ntohl :: "u32 \<Rightarrow> u32" where
  "constant_ntohl x = constant_swab32 x"

definition constant_htons :: "u16 \<Rightarrow> u16" where
  "constant_htons x = constant_swab16 x"

definition constant_ntohs :: "u16 \<Rightarrow> u16" where
  "constant_ntohs x = constant_swab16 x"

definition constant_cpu_to_le64 :: "u64 \<Rightarrow> u64" where
  "constant_cpu_to_le64 x = x"

definition constant_le64_to_cpu :: "u64 \<Rightarrow> u64" where
  "constant_le64_to_cpu x = x"

definition constant_cpu_to_le32 :: "u32 \<Rightarrow> u32" where
  "constant_cpu_to_le32 x = x"

definition constant_le32_to_cpu :: "u32 \<Rightarrow> u32" where
  "constant_le32_to_cpu x = x"

definition constant_cpu_to_le16 :: "u16 \<Rightarrow> u16" where
  "constant_cpu_to_le16 x = x"

definition constant_le16_to_cpu :: "u16 \<Rightarrow> u16" where
  "constant_le16_to_cpu x = x"

definition constant_cpu_to_be64 :: "u64 \<Rightarrow> u64" where
  "constant_cpu_to_be64 x = constant_swab64 x"

definition constant_be64_to_cpu :: "u64 \<Rightarrow> u64" where
  "constant_be64_to_cpu x = constant_swab64 x"

definition constant_cpu_to_be32 :: "u32 \<Rightarrow> u32" where
  "constant_cpu_to_be32 x = constant_swab32 x"

definition constant_be32_to_cpu :: "u32 \<Rightarrow> u32" where
  "constant_be32_to_cpu x = constant_swab32 x"

definition constant_cpu_to_be16 :: "u16 \<Rightarrow> u16" where
  "constant_cpu_to_be16 x = constant_swab16 x"

definition constant_be16_to_cpu :: "u16 \<Rightarrow> u16" where
  "constant_be16_to_cpu x = constant_swab16 x"

definition cpu_to_le64 :: "u64 \<Rightarrow> u64" where
  "cpu_to_le64 x = x"

definition le64_to_cpu :: "u64 \<Rightarrow> u64" where
  "le64_to_cpu x = x"

definition cpu_to_le32 :: "u32 \<Rightarrow> u32" where
  "cpu_to_le32 x = x"

definition le32_to_cpu :: "u32 \<Rightarrow> u32" where
  "le32_to_cpu x = x"

definition cpu_to_le16 :: "u16 \<Rightarrow> u16" where
  "cpu_to_le16 x = x"

definition le16_to_cpu :: "u16 \<Rightarrow> u16" where
  "le16_to_cpu x = x"

definition cpu_to_be64 :: "bool \<Rightarrow> bool \<Rightarrow> bool \<Rightarrow> u64 \<Rightarrow> u64" where
  "cpu_to_be64 strict thumb const x = swab64 strict thumb const x"

definition be64_to_cpu :: "bool \<Rightarrow> bool \<Rightarrow> bool \<Rightarrow> u64 \<Rightarrow> u64" where
  "be64_to_cpu strict thumb const x = swab64 strict thumb const x"

definition cpu_to_be32 :: "bool \<Rightarrow> bool \<Rightarrow> u32 \<Rightarrow> u32" where
  "cpu_to_be32 thumb const x = swab32 thumb const x"

definition be32_to_cpu :: "bool \<Rightarrow> bool \<Rightarrow> u32 \<Rightarrow> u32" where
  "be32_to_cpu thumb const x = swab32 thumb const x"

definition cpu_to_be16 :: "bool \<Rightarrow> u16 \<Rightarrow> u16" where
  "cpu_to_be16 const x = swab16 const x"

definition be16_to_cpu :: "bool \<Rightarrow> u16 \<Rightarrow> u16" where
  "be16_to_cpu const x = swab16 const x"

definition cpu_to_le64p :: "u64 store \<Rightarrow> nat \<Rightarrow> u64 option" where
  "cpu_to_le64p s p = s p"

definition le64_to_cpup :: "u64 store \<Rightarrow> nat \<Rightarrow> u64 option" where
  "le64_to_cpup s p = s p"

definition cpu_to_le32p :: "u32 store \<Rightarrow> nat \<Rightarrow> u32 option" where
  "cpu_to_le32p s p = s p"

definition le32_to_cpup :: "u32 store \<Rightarrow> nat \<Rightarrow> u32 option" where
  "le32_to_cpup s p = s p"

definition cpu_to_le16p :: "u16 store \<Rightarrow> nat \<Rightarrow> u16 option" where
  "cpu_to_le16p s p = s p"

definition le16_to_cpup :: "u16 store \<Rightarrow> nat \<Rightarrow> u16 option" where
  "le16_to_cpup s p = s p"

definition cpu_to_be64p :: "bool \<Rightarrow> bool \<Rightarrow> u64 store \<Rightarrow> nat \<Rightarrow> u64 option" where
  "cpu_to_be64p strict thumb s p = swab64p strict thumb s p"

definition be64_to_cpup :: "bool \<Rightarrow> bool \<Rightarrow> u64 store \<Rightarrow> nat \<Rightarrow> u64 option" where
  "be64_to_cpup strict thumb s p = swab64p strict thumb s p"

definition cpu_to_be32p :: "bool \<Rightarrow> u32 store \<Rightarrow> nat \<Rightarrow> u32 option" where
  "cpu_to_be32p thumb s p = swab32p thumb s p"

definition be32_to_cpup :: "bool \<Rightarrow> u32 store \<Rightarrow> nat \<Rightarrow> u32 option" where
  "be32_to_cpup thumb s p = swab32p thumb s p"

definition cpu_to_be16p :: "u16 store \<Rightarrow> nat \<Rightarrow> u16 option" where
  "cpu_to_be16p s p = swab16p s p"

definition be16_to_cpup :: "u16 store \<Rightarrow> nat \<Rightarrow> u16 option" where
  "be16_to_cpup s p = swab16p s p"

definition cpu_to_le64s :: "nat \<Rightarrow> u64 store \<Rightarrow> u64 store option" where
  "cpu_to_le64s p s = Some s"

definition le64_to_cpus :: "nat \<Rightarrow> u64 store \<Rightarrow> u64 store option" where
  "le64_to_cpus p s = Some s"

definition cpu_to_le32s :: "nat \<Rightarrow> u32 store \<Rightarrow> u32 store option" where
  "cpu_to_le32s p s = Some s"

definition le32_to_cpus :: "nat \<Rightarrow> u32 store \<Rightarrow> u32 store option" where
  "le32_to_cpus p s = Some s"

definition cpu_to_le16s :: "nat \<Rightarrow> u16 store \<Rightarrow> u16 store option" where
  "cpu_to_le16s p s = Some s"

definition le16_to_cpus :: "nat \<Rightarrow> u16 store \<Rightarrow> u16 store option" where
  "le16_to_cpus p s = Some s"

definition cpu_to_be64s :: "bool \<Rightarrow> bool \<Rightarrow> nat \<Rightarrow> u64 store \<Rightarrow> u64 store option" where
  "cpu_to_be64s strict thumb p s = swab64s strict thumb p s"

definition be64_to_cpus :: "bool \<Rightarrow> bool \<Rightarrow> nat \<Rightarrow> u64 store \<Rightarrow> u64 store option" where
  "be64_to_cpus strict thumb p s = swab64s strict thumb p s"

definition cpu_to_be32s :: "bool \<Rightarrow> nat \<Rightarrow> u32 store \<Rightarrow> u32 store option" where
  "cpu_to_be32s thumb p s = swab32s thumb p s"

definition be32_to_cpus :: "bool \<Rightarrow> nat \<Rightarrow> u32 store \<Rightarrow> u32 store option" where
  "be32_to_cpus thumb p s = swab32s thumb p s"

definition cpu_to_be16s :: "nat \<Rightarrow> u16 store \<Rightarrow> u16 store option" where
  "cpu_to_be16s p s = swab16s p s"

definition be16_to_cpus :: "nat \<Rightarrow> u16 store \<Rightarrow> u16 store option" where
  "be16_to_cpus p s = swab16s p s"

section \<open>Big-endian target\<close>

definition constant_htonl_eb :: "u32 \<Rightarrow> u32" where
  "constant_htonl_eb x = x"

definition constant_ntohl_eb :: "u32 \<Rightarrow> u32" where
  "constant_ntohl_eb x = x"

definition constant_htons_eb :: "u16 \<Rightarrow> u16" where
  "constant_htons_eb x = x"

definition constant_ntohs_eb :: "u16 \<Rightarrow> u16" where
  "constant_ntohs_eb x = x"

definition constant_cpu_to_le64_eb :: "u64 \<Rightarrow> u64" where
  "constant_cpu_to_le64_eb x = constant_swab64 x"

definition constant_le64_to_cpu_eb :: "u64 \<Rightarrow> u64" where
  "constant_le64_to_cpu_eb x = constant_swab64 x"

definition constant_cpu_to_le32_eb :: "u32 \<Rightarrow> u32" where
  "constant_cpu_to_le32_eb x = constant_swab32 x"

definition constant_le32_to_cpu_eb :: "u32 \<Rightarrow> u32" where
  "constant_le32_to_cpu_eb x = constant_swab32 x"

definition constant_cpu_to_le16_eb :: "u16 \<Rightarrow> u16" where
  "constant_cpu_to_le16_eb x = constant_swab16 x"

definition constant_le16_to_cpu_eb :: "u16 \<Rightarrow> u16" where
  "constant_le16_to_cpu_eb x = constant_swab16 x"

definition constant_cpu_to_be64_eb :: "u64 \<Rightarrow> u64" where
  "constant_cpu_to_be64_eb x = x"

definition constant_be64_to_cpu_eb :: "u64 \<Rightarrow> u64" where
  "constant_be64_to_cpu_eb x = x"

definition constant_cpu_to_be32_eb :: "u32 \<Rightarrow> u32" where
  "constant_cpu_to_be32_eb x = x"

definition constant_be32_to_cpu_eb :: "u32 \<Rightarrow> u32" where
  "constant_be32_to_cpu_eb x = x"

definition constant_cpu_to_be16_eb :: "u16 \<Rightarrow> u16" where
  "constant_cpu_to_be16_eb x = x"

definition constant_be16_to_cpu_eb :: "u16 \<Rightarrow> u16" where
  "constant_be16_to_cpu_eb x = x"

definition cpu_to_le64_eb :: "bool \<Rightarrow> bool \<Rightarrow> bool \<Rightarrow> u64 \<Rightarrow> u64" where
  "cpu_to_le64_eb strict thumb const x = swab64 strict thumb const x"

definition le64_to_cpu_eb :: "bool \<Rightarrow> bool \<Rightarrow> bool \<Rightarrow> u64 \<Rightarrow> u64" where
  "le64_to_cpu_eb strict thumb const x = swab64 strict thumb const x"

definition cpu_to_le32_eb :: "bool \<Rightarrow> bool \<Rightarrow> u32 \<Rightarrow> u32" where
  "cpu_to_le32_eb thumb const x = swab32 thumb const x"

definition le32_to_cpu_eb :: "bool \<Rightarrow> bool \<Rightarrow> u32 \<Rightarrow> u32" where
  "le32_to_cpu_eb thumb const x = swab32 thumb const x"

definition cpu_to_le16_eb :: "bool \<Rightarrow> u16 \<Rightarrow> u16" where
  "cpu_to_le16_eb const x = swab16 const x"

definition le16_to_cpu_eb :: "bool \<Rightarrow> u16 \<Rightarrow> u16" where
  "le16_to_cpu_eb const x = swab16 const x"

definition cpu_to_be64_eb :: "u64 \<Rightarrow> u64" where
  "cpu_to_be64_eb x = x"

definition be64_to_cpu_eb :: "u64 \<Rightarrow> u64" where
  "be64_to_cpu_eb x = x"

definition cpu_to_be32_eb :: "u32 \<Rightarrow> u32" where
  "cpu_to_be32_eb x = x"

definition be32_to_cpu_eb :: "u32 \<Rightarrow> u32" where
  "be32_to_cpu_eb x = x"

definition cpu_to_be16_eb :: "u16 \<Rightarrow> u16" where
  "cpu_to_be16_eb x = x"

definition be16_to_cpu_eb :: "u16 \<Rightarrow> u16" where
  "be16_to_cpu_eb x = x"

definition cpu_to_le64p_eb :: "bool \<Rightarrow> bool \<Rightarrow> u64 store \<Rightarrow> nat \<Rightarrow> u64 option" where
  "cpu_to_le64p_eb strict thumb s p = swab64p strict thumb s p"

definition le64_to_cpup_eb :: "bool \<Rightarrow> bool \<Rightarrow> u64 store \<Rightarrow> nat \<Rightarrow> u64 option" where
  "le64_to_cpup_eb strict thumb s p = swab64p strict thumb s p"

definition cpu_to_le32p_eb :: "bool \<Rightarrow> u32 store \<Rightarrow> nat \<Rightarrow> u32 option" where
  "cpu_to_le32p_eb thumb s p = swab32p thumb s p"

definition le32_to_cpup_eb :: "bool \<Rightarrow> u32 store \<Rightarrow> nat \<Rightarrow> u32 option" where
  "le32_to_cpup_eb thumb s p = swab32p thumb s p"

definition cpu_to_le16p_eb :: "u16 store \<Rightarrow> nat \<Rightarrow> u16 option" where
  "cpu_to_le16p_eb s p = swab16p s p"

definition le16_to_cpup_eb :: "u16 store \<Rightarrow> nat \<Rightarrow> u16 option" where
  "le16_to_cpup_eb s p = swab16p s p"

definition cpu_to_be64p_eb :: "u64 store \<Rightarrow> nat \<Rightarrow> u64 option" where
  "cpu_to_be64p_eb s p = s p"

definition be64_to_cpup_eb :: "u64 store \<Rightarrow> nat \<Rightarrow> u64 option" where
  "be64_to_cpup_eb s p = s p"

definition cpu_to_be32p_eb :: "u32 store \<Rightarrow> nat \<Rightarrow> u32 option" where
  "cpu_to_be32p_eb s p = s p"

definition be32_to_cpup_eb :: "u32 store \<Rightarrow> nat \<Rightarrow> u32 option" where
  "be32_to_cpup_eb s p = s p"

definition cpu_to_be16p_eb :: "u16 store \<Rightarrow> nat \<Rightarrow> u16 option" where
  "cpu_to_be16p_eb s p = s p"

definition be16_to_cpup_eb :: "u16 store \<Rightarrow> nat \<Rightarrow> u16 option" where
  "be16_to_cpup_eb s p = s p"

definition cpu_to_le64s_eb :: "bool \<Rightarrow> bool \<Rightarrow> nat \<Rightarrow> u64 store \<Rightarrow> u64 store option" where
  "cpu_to_le64s_eb strict thumb p s = swab64s strict thumb p s"

definition le64_to_cpus_eb :: "bool \<Rightarrow> bool \<Rightarrow> nat \<Rightarrow> u64 store \<Rightarrow> u64 store option" where
  "le64_to_cpus_eb strict thumb p s = swab64s strict thumb p s"

definition cpu_to_le32s_eb :: "bool \<Rightarrow> nat \<Rightarrow> u32 store \<Rightarrow> u32 store option" where
  "cpu_to_le32s_eb thumb p s = swab32s thumb p s"

definition le32_to_cpus_eb :: "bool \<Rightarrow> nat \<Rightarrow> u32 store \<Rightarrow> u32 store option" where
  "le32_to_cpus_eb thumb p s = swab32s thumb p s"

definition cpu_to_le16s_eb :: "nat \<Rightarrow> u16 store \<Rightarrow> u16 store option" where
  "cpu_to_le16s_eb p s = swab16s p s"

definition le16_to_cpus_eb :: "nat \<Rightarrow> u16 store \<Rightarrow> u16 store option" where
  "le16_to_cpus_eb p s = swab16s p s"

definition cpu_to_be64s_eb :: "nat \<Rightarrow> u64 store \<Rightarrow> u64 store option" where
  "cpu_to_be64s_eb p s = Some s"

definition be64_to_cpus_eb :: "nat \<Rightarrow> u64 store \<Rightarrow> u64 store option" where
  "be64_to_cpus_eb p s = Some s"

definition cpu_to_be32s_eb :: "nat \<Rightarrow> u32 store \<Rightarrow> u32 store option" where
  "cpu_to_be32s_eb p s = Some s"

definition be32_to_cpus_eb :: "nat \<Rightarrow> u32 store \<Rightarrow> u32 store option" where
  "be32_to_cpus_eb p s = Some s"

definition cpu_to_be16s_eb :: "nat \<Rightarrow> u16 store \<Rightarrow> u16 store option" where
  "cpu_to_be16s_eb p s = Some s"

definition be16_to_cpus_eb :: "nat \<Rightarrow> u16 store \<Rightarrow> u16 store option" where
  "be16_to_cpus_eb p s = Some s"

section \<open>The contract\<close>

text \<open>
  The image of a word of \<open>n\<close> bytes in the memory of a little-endian and of a big-endian
  machine; \<open>order_bytes\<close> is the byte string of a value in a byte order.
\<close>

datatype byte_order = Little | Big

fun order_bytes :: "byte_order \<Rightarrow> nat \<Rightarrow> 'a::len word \<Rightarrow> u8 list" where
  "order_bytes Little n x = bytes_of n x"
| "order_bytes Big n x = rev (bytes_of n x)"

locale wire_order =
  fixes target order :: byte_order and width :: nat
    and to_order from_order :: "'a::len word \<Rightarrow> 'a word"
  assumes from_to: "from_order (to_order x) = x"
    and to_from: "to_order (from_order y) = y"
    and image_to: "order_bytes target width (to_order x) = order_bytes order width x"
begin

lemma image_from: "order_bytes order width (from_order y) = order_bytes target width y"
  using image_to [of "from_order y"] by (simp add: to_from)

lemma to_order_inject: "to_order x = to_order y \<longleftrightarrow> x = y"
  using from_to by metis

end

lemmas byteorder_defs =
  constant_htonl_def constant_ntohl_def constant_htons_def constant_ntohs_def
  constant_cpu_to_le64_def constant_le64_to_cpu_def constant_cpu_to_le32_def
  constant_le32_to_cpu_def constant_cpu_to_le16_def constant_le16_to_cpu_def
  constant_cpu_to_be64_def constant_be64_to_cpu_def constant_cpu_to_be32_def
  constant_be32_to_cpu_def constant_cpu_to_be16_def constant_be16_to_cpu_def cpu_to_le64_def
  le64_to_cpu_def cpu_to_le32_def le32_to_cpu_def cpu_to_le16_def le16_to_cpu_def
  cpu_to_be64_def be64_to_cpu_def cpu_to_be32_def be32_to_cpu_def cpu_to_be16_def
  be16_to_cpu_def cpu_to_le64p_def le64_to_cpup_def cpu_to_le32p_def le32_to_cpup_def
  cpu_to_le16p_def le16_to_cpup_def cpu_to_be64p_def be64_to_cpup_def cpu_to_be32p_def
  be32_to_cpup_def cpu_to_be16p_def be16_to_cpup_def cpu_to_le64s_def le64_to_cpus_def
  cpu_to_le32s_def le32_to_cpus_def cpu_to_le16s_def le16_to_cpus_def cpu_to_be64s_def
  be64_to_cpus_def cpu_to_be32s_def be32_to_cpus_def cpu_to_be16s_def be16_to_cpus_def

lemmas byteorder_eb_defs =
  constant_htonl_eb_def constant_ntohl_eb_def constant_htons_eb_def constant_ntohs_eb_def
  constant_cpu_to_le64_eb_def constant_le64_to_cpu_eb_def constant_cpu_to_le32_eb_def
  constant_le32_to_cpu_eb_def constant_cpu_to_le16_eb_def constant_le16_to_cpu_eb_def
  constant_cpu_to_be64_eb_def constant_be64_to_cpu_eb_def constant_cpu_to_be32_eb_def
  constant_be32_to_cpu_eb_def constant_cpu_to_be16_eb_def constant_be16_to_cpu_eb_def
  cpu_to_le64_eb_def le64_to_cpu_eb_def cpu_to_le32_eb_def le32_to_cpu_eb_def
  cpu_to_le16_eb_def le16_to_cpu_eb_def cpu_to_be64_eb_def be64_to_cpu_eb_def
  cpu_to_be32_eb_def be32_to_cpu_eb_def cpu_to_be16_eb_def be16_to_cpu_eb_def
  cpu_to_le64p_eb_def le64_to_cpup_eb_def cpu_to_le32p_eb_def le32_to_cpup_eb_def
  cpu_to_le16p_eb_def le16_to_cpup_eb_def cpu_to_be64p_eb_def be64_to_cpup_eb_def
  cpu_to_be32p_eb_def be32_to_cpup_eb_def cpu_to_be16p_eb_def be16_to_cpup_eb_def
  cpu_to_le64s_eb_def le64_to_cpus_eb_def cpu_to_le32s_eb_def le32_to_cpus_eb_def
  cpu_to_le16s_eb_def le16_to_cpus_eb_def cpu_to_be64s_eb_def be64_to_cpus_eb_def
  cpu_to_be32s_eb_def be32_to_cpus_eb_def cpu_to_be16s_eb_def be16_to_cpus_eb_def

lemmas order_laws = byteorder_defs byteorder_eb_defs swab_choices swab_involutions swab_bytes

interpretation le16_on_little: wire_order Little Little 2 "cpu_to_le16" "le16_to_cpu"
  by unfold_locales (simp_all add: order_laws)

interpretation le32_on_little: wire_order Little Little 4 "cpu_to_le32" "le32_to_cpu"
  by unfold_locales (simp_all add: order_laws)

interpretation le64_on_little: wire_order Little Little 8 "cpu_to_le64" "le64_to_cpu"
  by unfold_locales (simp_all add: order_laws)

interpretation be16_on_little: wire_order Little Big 2 "cpu_to_be16 const" "be16_to_cpu const" for const
  by unfold_locales (simp_all add: order_laws)

interpretation be32_on_little: wire_order Little Big 4 "cpu_to_be32 thumb const" "be32_to_cpu thumb const" for thumb const
  by unfold_locales (simp_all add: order_laws)

interpretation be64_on_little: wire_order Little Big 8 "cpu_to_be64 strict thumb const" "be64_to_cpu strict thumb const" for strict thumb const
  by unfold_locales (simp_all add: order_laws)

interpretation le16_on_big: wire_order Big Little 2 "cpu_to_le16_eb const" "le16_to_cpu_eb const" for const
  by unfold_locales (simp_all add: order_laws)

interpretation le32_on_big: wire_order Big Little 4 "cpu_to_le32_eb thumb const" "le32_to_cpu_eb thumb const" for thumb const
  by unfold_locales (simp_all add: order_laws)

interpretation le64_on_big: wire_order Big Little 8 "cpu_to_le64_eb strict thumb const" "le64_to_cpu_eb strict thumb const" for strict thumb const
  by unfold_locales (simp_all add: order_laws)

interpretation be16_on_big: wire_order Big Big 2 "cpu_to_be16_eb" "be16_to_cpu_eb"
  by unfold_locales (simp_all add: order_laws)

interpretation be32_on_big: wire_order Big Big 4 "cpu_to_be32_eb" "be32_to_cpu_eb"
  by unfold_locales (simp_all add: order_laws)

interpretation be64_on_big: wire_order Big Big 8 "cpu_to_be64_eb" "be64_to_cpu_eb"
  by unfold_locales (simp_all add: order_laws)

lemma constant_conversions:
  "constant_htonl x32 = cpu_to_be32 thumb const x32" "constant_ntohl x32 = be32_to_cpu thumb const x32"
  "constant_htons x16 = cpu_to_be16 const x16" "constant_ntohs x16 = be16_to_cpu const x16"
  "constant_cpu_to_be64 x64 = cpu_to_be64 strict thumb const x64"
  "constant_be64_to_cpu x64 = be64_to_cpu strict thumb const x64"
  by (simp_all add: order_laws)

section \<open>Further theorems\<close>

text \<open>
  A value converted to big-endian order has the same bytes in memory on a little-endian and on a
  big-endian machine, the bytes of the value from most to least significant, and the conversion
  back recovers the value on both.
\<close>

theorem network_order_portable:
  "bytes_of 2 (cpu_to_be16 const x16) = rev (bytes_of 2 x16) \<and>
   rev (bytes_of 2 (cpu_to_be16_eb x16)) = rev (bytes_of 2 x16) \<and>
   bytes_of 4 (cpu_to_be32 thumb const x32) = rev (bytes_of 4 x32) \<and>
   rev (bytes_of 4 (cpu_to_be32_eb x32)) = rev (bytes_of 4 x32) \<and>
   bytes_of 8 (cpu_to_be64 strict thumb const x64) = rev (bytes_of 8 x64) \<and>
   rev (bytes_of 8 (cpu_to_be64_eb x64)) = rev (bytes_of 8 x64) \<and>
   be32_to_cpu thumb const (cpu_to_be32 thumb const x32) = x32 \<and>
   be32_to_cpu_eb (cpu_to_be32_eb x32) = x32"
  using be16_on_little.image_to [of const x16] be16_on_big.image_to [of x16]
    be32_on_little.image_to [of thumb const x32] be32_on_big.image_to [of x32]
    be64_on_little.image_to [of strict thumb const x64] be64_on_big.image_to [of x64]
  by (simp add: be32_on_little.from_to be32_on_big.from_to)

end
