(* ===== verification/Vring.thy ===== *)
theory Vring
  imports Prelude C_Ioctl
begin

text \<open>
  The virtio ring of \<^verbatim>\<open>linux/virtio_ring.h\<close>: the layout of a ring in one chunk of memory
  (\<open>vring_init\<close>, \<open>vring_size\<close>) and the notification test \<open>vring_need_event\<close>. Pointers,
  \<open>unsigned int\<close> and \<open>unsigned long\<close> are 32-bit words, and all address arithmetic wraps.

  The specification of the layout is in natural numbers: four adjacent regions, the used
  ring at the next multiple of \<open>align\<close>. The specification of the test is the window of
  indices from \<open>old\<close> up to, but not including, \<open>new_idx\<close>, modulo \<open>2 ^ 16\<close>.
\<close>

section \<open>Structures\<close>

record vring_desc =
  desc_addr :: u64
  desc_len :: u32
  desc_flags :: u16
  desc_next :: u16

record vring_avail =
  avail_flags :: u16
  avail_idx :: u16
  avail_ring :: "u16 list"

record vring_used_elem =
  used_id :: u32
  used_len :: u32

record vring_used =
  used_flags :: u16
  used_idx :: u16
  used_ring :: "vring_used_elem list"

text \<open>\<open>struct vring\<close>: the three pointers are addresses.\<close>

record vring =
  num :: u32
  desc :: u32
  avail :: u32
  used :: u32

definition sizeof_vring_desc :: nat where
  "sizeof_vring_desc = struct_size [(8, 8), (4, 4), (2, 2), (2, 2)]"

definition sizeof_vring_used_elem :: nat where
  "sizeof_vring_used_elem = struct_size [(4, 4), (4, 4)]"

text \<open>The offset of the flexible array \<open>ring\<close> in \<open>struct vring_avail\<close> and \<open>struct vring_used\<close>.\<close>

definition avail_ring_offset :: nat where
  "avail_ring_offset = round_up 2 (layout_end 0 [(2, 2), (2, 2)])"

definition used_ring_offset :: nat where
  "used_ring_offset = round_up 4 (layout_end 0 [(2, 2), (2, 2)])"

abbreviation (input) VRING_AVAIL_ALIGN_SIZE :: nat where "VRING_AVAIL_ALIGN_SIZE \<equiv> 2"
abbreviation (input) VRING_USED_ALIGN_SIZE :: nat where "VRING_USED_ALIGN_SIZE \<equiv> 4"
abbreviation (input) VRING_DESC_ALIGN_SIZE :: nat where "VRING_DESC_ALIGN_SIZE \<equiv> 16"

section \<open>Operations\<close>

text \<open>The addresses of the two event index cells at the ends of the rings.\<close>

definition vring_used_event :: "vring \<Rightarrow> u32" where
  "vring_used_event vr = avail vr + of_nat avail_ring_offset + num vr * 2"

definition vring_avail_event :: "vring \<Rightarrow> u32" where
  "vring_avail_event vr =
     used vr + of_nat used_ring_offset + num vr * of_nat sizeof_vring_used_elem"

definition vring_init :: "u32 \<Rightarrow> u32 \<Rightarrow> u32 \<Rightarrow> vring \<Rightarrow> vring" where
  "vring_init n p align vr =
     (let vr = vr\<lparr>num := n\<rparr>;
          vr = vr\<lparr>desc := p\<rparr>;
          vr = vr\<lparr>avail := p + n * of_nat sizeof_vring_desc\<rparr>;
          ring_num = avail vr + of_nat avail_ring_offset + n * 2
      in vr\<lparr>used := (ring_num + 2 + align - 1) AND NOT (align - 1)\<rparr>)"

definition vring_size :: "u32 \<Rightarrow> u32 \<Rightarrow> u32" where
  "vring_size n align =
     ((of_nat sizeof_vring_desc * n + 2 * (3 + n) + align - 1) AND NOT (align - 1)) +
     2 * 3 + of_nat sizeof_vring_used_elem * n"

definition vring_need_event :: "u16 \<Rightarrow> u16 \<Rightarrow> u16 \<Rightarrow> bool" where
  "vring_need_event event_idx new_idx old \<longleftrightarrow> new_idx - event_idx - 1 < new_idx - old"

section \<open>Correctness\<close>

lemma vring_sizes:
  "sizeof_vring_desc = 16" "sizeof_vring_used_elem = 8" "avail_ring_offset = 4" "used_ring_offset = 4"
  by code_simp+

lemma unat_of_nat_u32: "n < 2 ^ 32 \<Longrightarrow> unat (of_nat n :: u32) = n"
  by (simp add: unat_of_nat)

text \<open>
  The layout in natural numbers: the descriptor table, the available ring with the used
  event index, padding, the used ring with the available event index.
\<close>

definition ring_end :: "nat \<Rightarrow> nat" where
  "ring_end n = 16 * n + 2 * (3 + n)"

definition spec_size :: "nat \<Rightarrow> nat \<Rightarrow> nat" where
  "spec_size n al = round_up al (ring_end n) + 6 + 8 * n"

lemma unat_ring_end:
  assumes "18 * unat n + 6 < 2 ^ 32"
  shows "unat (of_nat sizeof_vring_desc * n + 2 * (3 + n) :: u32) = ring_end (unat n)"
proof -
  have "of_nat sizeof_vring_desc * n + 2 * (3 + n) = (of_nat (ring_end (unat n)) :: u32)"
    by (simp add: vring_sizes ring_end_def)
  moreover have "ring_end (unat n) < 2 ^ 32"
    using assms by (simp add: ring_end_def)
  ultimately show ?thesis
    by (simp only: unat_of_nat_u32)
qed

lemma vring_size_spec:
  assumes "spec_size (unat n) (2 ^ k) + 2 ^ k \<le> 2 ^ 32" and "k < 32"
  shows "unat (vring_size n (2 ^ k)) = spec_size (unat n) (2 ^ k)"
proof -
  let ?x = "of_nat sizeof_vring_desc * n + 2 * (3 + n) :: u32"
  have up: "ring_end (unat n) \<le> round_up (2 ^ k) (ring_end (unat n))"
    by (rule round_up_ge) simp
  with assms have "18 * unat n + 6 < 2 ^ 32"
    by (simp add: spec_size_def ring_end_def)
  note x = unat_ring_end [OF this]
  have al: "unat ((?x + 2 ^ k - 1) AND NOT (2 ^ k - 1)) = round_up (2 ^ k) (ring_end (unat n))"
    using unat_align_up [of ?x k] up assms(1) unfolding x spec_size_def by simp
  have "vring_size n (2 ^ k) = of_nat (round_up (2 ^ k) (ring_end (unat n))) + 6 + 8 * n"
    by (simp add: vring_size_def flip: al) (simp add: vring_sizes)
  then have "vring_size n (2 ^ k) = of_nat (spec_size (unat n) (2 ^ k))"
    by (simp add: spec_size_def)
  moreover have "spec_size (unat n) (2 ^ k) < 2 ^ 32"
    using assms(1) zero_less_power [of "2::nat" k] by linarith
  ultimately show ?thesis
    by (simp only: unat_of_nat_u32)
qed

lemma vring_init_spec:
  fixes v :: vring
  assumes fits: "unat p + spec_size (unat n) (2 ^ k) + 2 ^ k \<le> 2 ^ 32" and "k < 32"
    and aligned: "2 ^ k dvd unat p"
  defines "vr \<equiv> vring_init n p (2 ^ k) v"
  shows "num vr = n" and "desc vr = p"
    and "unat (avail vr) = unat p + 16 * unat n"
    and "unat (vring_used_event vr) = unat p + 16 * unat n + 4 + 2 * unat n"
    and "unat (used vr) = unat p + round_up (2 ^ k) (ring_end (unat n))"
    and "unat (vring_avail_event vr) + 2 = unat p + unat (vring_size n (2 ^ k))"
proof -
  let ?n = "unat n" and ?p = "unat p"
  have up: "ring_end ?n \<le> round_up (2 ^ k) (ring_end ?n)"
    by (rule round_up_ge) simp
  have pos: "0 < (2::nat) ^ k"
    by simp
  have bound: "?p + ring_end ?n + 2 ^ k \<le> 2 ^ 32"
    and total: "?p + spec_size ?n (2 ^ k) < 2 ^ 32"
    using fits up pos unfolding spec_size_def by linarith+
  show "num vr = n" and "desc vr = p"
    by (simp_all add: vr_def vring_init_def Let_def)
  have "avail vr = of_nat (?p + 16 * ?n)"
    by (simp add: vr_def vring_init_def Let_def vring_sizes)
  moreover have "?p + 16 * ?n < 2 ^ 32"
    using bound by (simp add: ring_end_def)
  ultimately show "unat (avail vr) = ?p + 16 * ?n"
    by (simp only: unat_of_nat_u32)
  have "vring_used_event vr = of_nat (?p + 16 * ?n + 4 + 2 * ?n)"
    by (simp add: vring_used_event_def vr_def vring_init_def Let_def vring_sizes)
  moreover have "?p + 16 * ?n + 4 + 2 * ?n < 2 ^ 32"
    using bound by (simp add: ring_end_def)
  ultimately show "unat (vring_used_event vr) = ?p + 16 * ?n + 4 + 2 * ?n"
    by (simp only: unat_of_nat_u32)
  have x: "unat (of_nat (?p + ring_end ?n) :: u32) = ?p + ring_end ?n"
    using bound pos by (intro unat_of_nat_u32) linarith
  have "used vr = (of_nat (?p + ring_end ?n) + 2 ^ k - 1) AND NOT (2 ^ k - 1)"
    by (simp add: vr_def vring_init_def Let_def vring_sizes ring_end_def algebra_simps)
  then have "unat (used vr) = round_up (2 ^ k) (?p + ring_end ?n)"
    using unat_align_up [of "of_nat (?p + ring_end ?n) :: u32" k] bound unfolding x by simp
  also have "\<dots> = ?p + round_up (2 ^ k) (ring_end ?n)"
    using aligned by (intro round_up_add) simp_all
  finally show used: "unat (used vr) = ?p + round_up (2 ^ k) (ring_end ?n)" .
  have "vring_avail_event vr = of_nat (unat (used vr)) + 4 + of_nat ?n * 8"
    by (simp add: vring_avail_event_def vring_sizes vr_def vring_init_def Let_def)
  also have "\<dots> = of_nat (?p + spec_size ?n (2 ^ k) - 2)"
    unfolding used spec_size_def by simp
  finally have "unat (vring_avail_event vr) = ?p + spec_size ?n (2 ^ k) - 2"
    using total by (simp add: unat_of_nat_u32)
  moreover have "unat (vring_size n (2 ^ k)) = spec_size ?n (2 ^ k)"
    using fits assms(2) by (intro vring_size_spec) simp_all
  ultimately show "unat (vring_avail_event vr) + 2 = ?p + unat (vring_size n (2 ^ k))"
    by (simp add: spec_size_def)
qed

text \<open>
  The test: \<open>event_idx\<close> is one of the indices that were passed when the index moved from
  \<open>old\<close> to \<open>new_idx\<close>.
\<close>

definition passed :: "u16 \<Rightarrow> u16 \<Rightarrow> u16 set" where
  "passed old new_idx = (\<lambda>k. old + of_nat k) ` {..<unat (new_idx - old)}"

lemma mod_window:
  fixes d e :: int
  assumes "0 \<le> d" "d < 65536" "0 \<le> e" "e < 65536"
  shows "(d - e - 1) mod 65536 < d \<longleftrightarrow> e < d"
proof (cases "e < d")
  case True
  then have "(d - e - 1) mod 65536 = d - e - 1"
    using assms by (intro mod_pos_pos_trivial) linarith+
  then show ?thesis
    using True assms by linarith
next
  case False
  have "(d - e - 1) mod 65536 = (d - e - 1 + 65536) mod 65536"
    by (rule mod_add_self2 [symmetric])
  also have "\<dots> = d - e - 1 + 65536"
    using False assms by (intro mod_pos_pos_trivial) linarith+
  finally show ?thesis
    using False assms by linarith
qed

lemma word_window: "d - e - 1 < d \<longleftrightarrow> e < d" for d e :: u16
proof -
  have "uint (d - e - 1) = (uint d - uint e - 1) mod 65536"
    by (simp add: uint_word_ariths mod_simps)
  then show ?thesis
    using mod_window [of "uint d" "uint e"] unsigned_less [where 'a = int, of d]
      unsigned_less [where 'a = int, of e]
    by (simp add: word_less_def)
qed

lemma need_event_passed:
  "vring_need_event event_idx new_idx old \<longleftrightarrow> event_idx \<in> passed old new_idx"
proof -
  let ?d = "new_idx - old" and ?e = "event_idx - old"
  have "vring_need_event event_idx new_idx old \<longleftrightarrow> ?d - ?e - 1 < ?d"
    by (simp add: vring_need_event_def)
  also have "\<dots> \<longleftrightarrow> ?e < ?d"
    by (rule word_window)
  also have "\<dots> \<longleftrightarrow> event_idx \<in> passed old new_idx"
  proof
    assume "?e < ?d"
    then show "event_idx \<in> passed old new_idx"
      unfolding passed_def by (intro image_eqI [of _ _ "unat ?e"]) (auto simp: word_less_nat_alt)
  next
    assume "event_idx \<in> passed old new_idx"
    then obtain k where "k < unat ?d" and "event_idx = old + of_nat k"
      by (auto simp: passed_def)
    then show "?e < ?d"
      using le_less_trans [OF mod_less_eq_dividend [of k]] by (simp add: word_less_nat_alt unat_of_nat)
  qed
  finally show ?thesis .
qed

section \<open>Further theorems\<close>

text \<open>
  The layout that \<open>vring_init\<close> computes: for a power-of-two alignment, a base
  address aligned to it and no wrap-around, the descriptor table starts at the base, the
  available ring follows it, the used ring is at the next multiple of the alignment after the
  used event index, the regions do not overlap, and everything up to the end of the available
  event index fits exactly in \<open>vring_size\<close> bytes.
\<close>

theorem ring_layout:
  fixes v :: vring
  assumes "unat p + spec_size (unat n) (2 ^ k) + 2 ^ k \<le> 2 ^ 32" and "k < 32" and "2 ^ k dvd unat p"
  shows "let vr = vring_init n p (2 ^ k) v in
    num vr = n \<and> desc vr = p \<and> unat (avail vr) = unat (desc vr) + 16 * unat n \<and>
    unat (vring_used_event vr) = unat (avail vr) + 4 + 2 * unat n \<and>
    unat (vring_used_event vr) + 2 \<le> unat (used vr) \<and>
    unat (used vr) < unat (vring_used_event vr) + 2 + 2 ^ k \<and> 2 ^ k dvd unat (used vr) \<and>
    unat (vring_avail_event vr) + 2 = unat p + unat (vring_size n (2 ^ k))"
proof -
  have up: "ring_end (unat n) \<le> round_up (2 ^ k) (ring_end (unat n))"
    "round_up (2 ^ k) (ring_end (unat n)) < ring_end (unat n) + 2 ^ k"
    by (simp_all add: round_up_ge round_up_less)
  show ?thesis
    using vring_init_spec [OF assms, of v] up assms(3)
    by (simp add: Let_def ring_end_def dvd_round_up dvd_add)
qed

section \<open>Properties\<close>

text \<open>
  C38. \<open>vring_need_event\<close> asks for a notification exactly when the event index is
  one of the indices passed on the way from old to \<open>new_idx\<close>, counted modulo 2 to
  the 16, so the test is right across the wrap-around of the index.
\<close>

theorem need_event_window:
  "vring_need_event event_idx new_idx old \<longleftrightarrow>
     (\<exists>k < unat (new_idx - old). event_idx = old + of_nat k)"
  unfolding need_event_passed passed_def by auto

theorem need_event_window_witness: "vring_need_event 0xffff 2 0xfffe"
  using need_event_window [of "0xffff" 2 "0xfffe"] by (auto intro: exI [of _ 1])

end
