(* ===== verification/Queue_Heap.thy ===== *)
theory Queue_Heap
  imports Prelude
begin

text \<open>
  The store of the queues of \<^verbatim>\<open>sys/queue.h\<close>. An element is a number, a pointer to an element
  is \<open>nat option\<close> with \<open>None\<close> for \<open>NULL\<close>. The macros also keep addresses of pointer fields
  (\<open>struct type **\<close>): a \<open>slot\<close> is such an address, the first word of a head or of the queue
  entry of an element.

  Heads and entries are laid out alike: the first word is the pointer to the first or the
  next element, the second word the address \<open>tqh_last\<close>, \<open>le_prev\<close> or \<open>tqe_prev\<close>. So the store
  has two maps from slots, \<open>fst_word\<close> for the pointers and \<open>snd_word\<close> for the words behind
  them. This is what \<open>TAILQ_LAST\<close> and \<open>TAILQ_PREV\<close> rely on, which cast the address of a
  pointer field to a head and read its second word.

  The abstraction: \<open>chain H s xs t\<close> says that the pointers lead from slot \<open>s\<close> through the
  elements \<open>xs\<close> and that \<open>t\<close> is the last pointer field on the way; \<open>backs\<close> says the same of
  the addresses of the previous pointer fields. The locales \<open>elem_list\<close>, \<open>elem_queue\<close> and
  \<open>elem_deque\<close> are the contracts of the list types, over any representation.
\<close>

section \<open>The store\<close>

datatype slot = Head nat | Entry nat

record qheap =
  fst_word :: "slot \<Rightarrow> nat option"
  snd_word :: "slot \<Rightarrow> slot"

definition set_fst :: "slot \<Rightarrow> nat option \<Rightarrow> qheap \<Rightarrow> qheap" where
  "set_fst s p H = H\<lparr>fst_word := (fst_word H)(s := p)\<rparr>"

definition set_snd :: "slot \<Rightarrow> slot \<Rightarrow> qheap \<Rightarrow> qheap" where
  "set_snd s a H = H\<lparr>snd_word := (snd_word H)(s := a)\<rparr>"

text \<open>
  A loop that visits the elements from \<open>p\<close> on, following \<open>nxt\<close> until \<open>NULL\<close>; it returns the
  elements in the order of the visits, \<open>None\<close> if it does not end.
\<close>

partial_function (option) walk :: "(nat \<Rightarrow> nat option) \<Rightarrow> nat option \<Rightarrow> nat list option" where
  "walk nxt p = (case p of
       None \<Rightarrow> Some []
     | Some e \<Rightarrow> Option.bind (walk nxt (nxt e)) (\<lambda>es. Some (e # es)))"

text \<open>
  \<open>while (curelm->next != elm) curelm = curelm->next;\<close>: \<open>None\<close> when \<open>NULL\<close> is dereferenced
  or the loop does not end.
\<close>

partial_function (option) find_before :: "qheap \<Rightarrow> nat \<Rightarrow> nat option \<Rightarrow> nat option" where
  "find_before H elm cur = (case cur of
       None \<Rightarrow> None
     | Some c \<Rightarrow> if fst_word H (Entry c) = Some elm then Some c
                 else find_before H elm (fst_word H (Entry c)))"

section \<open>Chains\<close>

fun chain :: "qheap \<Rightarrow> slot \<Rightarrow> nat list \<Rightarrow> slot \<Rightarrow> bool" where
  "chain H s [] t \<longleftrightarrow> s = t"
| "chain H s (x # xs) t \<longleftrightarrow> fst_word H s = Some x \<and> chain H (Entry x) xs t"

fun backs :: "qheap \<Rightarrow> slot \<Rightarrow> nat list \<Rightarrow> bool" where
  "backs H s [] \<longleftrightarrow> True"
| "backs H s (x # xs) \<longleftrightarrow> snd_word H (Entry x) = s \<and> backs H (Entry x) xs"

fun end_slot :: "slot \<Rightarrow> nat list \<Rightarrow> slot" where
  "end_slot s [] = s"
| "end_slot s (x # xs) = end_slot (Entry x) xs"

text \<open>The slots whose pointers a chain reads.\<close>

fun reads :: "slot \<Rightarrow> nat list \<Rightarrow> slot set" where
  "reads s [] = {}"
| "reads s (x # xs) = insert s (reads (Entry x) xs)"

lemma heap_words [simp]:
  "fst_word (set_fst s p H) = (fst_word H)(s := p)" "snd_word (set_fst s p H) = snd_word H"
  "fst_word (set_snd s a H) = fst_word H" "snd_word (set_snd s a H) = (snd_word H)(s := a)"
  by (simp_all add: set_fst_def set_snd_def)

lemma end_slot_append [simp]: "end_slot s (xs @ ys) = end_slot (end_slot s xs) ys"
  by (induction xs arbitrary: s) auto

lemma end_slot_in: "end_slot s xs \<in> insert s (Entry ` set xs)"
  by (induction xs arbitrary: s) auto

lemma chain_end: "chain H s xs t \<Longrightarrow> t = end_slot s xs"
  by (induction xs arbitrary: s) auto

lemma chain_append [simp]:
  "chain H s (xs @ ys) t \<longleftrightarrow> chain H s xs (end_slot s xs) \<and> chain H (end_slot s xs) ys t"
  by (induction xs arbitrary: s) auto

lemma backs_append [simp]: "backs H s (xs @ ys) \<longleftrightarrow> backs H s xs \<and> backs H (end_slot s xs) ys"
  by (induction xs arbitrary: s) auto

lemma reads_subset: "reads s xs \<subseteq> insert s (Entry ` set xs)"
proof (induction xs arbitrary: s)
  case (Cons x xs)
  then show ?case
    using Cons.IH [of "Entry x"] by auto
qed simp

lemma end_slot_notin_reads:
  "distinct xs \<Longrightarrow> s \<notin> Entry ` set xs \<Longrightarrow> end_slot s xs \<notin> reads s xs"
proof (induction xs arbitrary: s)
  case (Cons x xs)
  then show ?case
    using end_slot_in [of "Entry x" xs] by auto
qed simp

lemma chain_frame:
  "chain H s xs t \<Longrightarrow> \<forall>u \<in> reads s xs. fst_word H' u = fst_word H u \<Longrightarrow> chain H' s xs t"
  by (induction xs arbitrary: s) auto

lemma backs_frame:
  "backs H s xs \<Longrightarrow> \<forall>x \<in> set xs. snd_word H' (Entry x) = snd_word H (Entry x) \<Longrightarrow> backs H' s xs"
  by (induction xs arbitrary: s) auto

lemma walk_chain:
  "chain H s xs t \<Longrightarrow> fst_word H t = None \<Longrightarrow>
     walk (\<lambda>e. fst_word H (Entry e)) (fst_word H s) = Some xs"
proof (induction xs arbitrary: s)
  case Nil
  then show ?case by (simp add: walk.simps)
next
  case (Cons x xs)
  then show ?case by (simp add: walk.simps [of _ "Some x"])
qed

lemma find_before_chain:
  assumes "chain H s (xs @ c # e # ys) t" and "distinct (xs @ c # e # ys)"
  shows "find_before H e (fst_word H s) = Some c"
  using assms
proof (induction xs arbitrary: s)
  case Nil
  then show ?case by (simp add: find_before.simps)
next
  case (Cons x xs)
  have "fst_word H (Entry x) \<noteq> Some e"
    using Cons.prems by (cases xs) auto
  with Cons show ?case
    by (simp add: find_before.simps [of H e "Some x"])
qed

subsection \<open>Inserting and removing one element\<close>

lemma chain_insert:
  assumes "chain H s0 as s" and "chain H s bs t" and "distinct (as @ bs)" and "e \<notin> set (as @ bs)"
    and "s0 \<notin> Entry ` set (e # as @ bs)"
    and F: "fst_word H' = (fst_word H)(s := Some e, Entry e := fst_word H s)"
  shows "chain H' s0 (as @ e # bs) (if bs = [] then Entry e else t)"
proof -
  have s: "s = end_slot s0 as"
    using assms(1) by (rule chain_end)
  have s_in: "s \<in> insert s0 (Entry ` set as)"
    unfolding s by (rule end_slot_in)
  have "s \<notin> reads s0 as"
    unfolding s using assms(3,5) by (intro end_slot_notin_reads) auto
  moreover have "Entry e \<notin> reads s0 as"
    using reads_subset [of s0 as] assms(4,5) by auto
  ultimately have "chain H' s0 as s"
    using assms(1) by - (rule chain_frame [of H], auto simp: F)
  moreover have "fst_word H' s = Some e"
    using s_in assms(4,5) by (auto simp: F)
  moreover have "chain H' (Entry e) bs (if bs = [] then Entry e else t)"
  proof (cases bs)
    case Nil
    then show ?thesis by simp
  next
    case (Cons b bs')
    have "s \<notin> reads (Entry b) bs'" "Entry e \<notin> reads (Entry b) bs'"
      using reads_subset [of "Entry b" bs'] s_in assms(3-5) Cons by auto
    then have "chain H' (Entry b) bs' t"
      using assms(2) Cons by - (rule chain_frame [of H], auto simp: F)
    then show ?thesis
      using assms(2) Cons by (simp add: F)
  qed
  ultimately show ?thesis
    by (simp add: s)
qed

lemma chain_remove:
  assumes "chain H s0 (as @ e # bs) t" and "distinct (as @ e # bs)"
    and "s0 \<notin> Entry ` set (as @ e # bs)"
    and F: "fst_word H' = (fst_word H)(end_slot s0 as := fst_word H (Entry e))"
  shows "chain H' s0 (as @ bs) (if bs = [] then end_slot s0 as else t)"
proof -
  let ?s = "end_slot s0 as"
  have s_in: "?s \<in> insert s0 (Entry ` set as)"
    by (rule end_slot_in)
  have "?s \<notin> reads s0 as"
    using assms(2,3) by (intro end_slot_notin_reads) auto
  then have "chain H' s0 as ?s"
    using assms(1) by - (rule chain_frame [of H], auto simp: F)
  moreover have "chain H' ?s bs (if bs = [] then ?s else t)"
  proof (cases bs)
    case Nil
    then show ?thesis by simp
  next
    case (Cons b bs')
    have "?s \<notin> reads (Entry b) bs'"
      using reads_subset [of "Entry b" bs'] s_in assms(2,3) Cons by auto
    then have "chain H' (Entry b) bs' t"
      using assms(1) Cons by - (rule chain_frame [of H], auto simp: F)
    then show ?thesis
      using assms(1) Cons by (simp add: F)
  qed
  ultimately show ?thesis
    by simp
qed

lemma backs_insert:
  assumes "backs H s0 (as @ bs)" and "distinct (as @ bs)" and "e \<notin> set (as @ bs)"
    and B: "\<forall>x \<in> set (as @ e # bs). snd_word H' (Entry x) =
      (if x = e then end_slot s0 as else if bs \<noteq> [] \<and> x = hd bs then Entry e
       else snd_word H (Entry x))"
  shows "backs H' s0 (as @ e # bs)"
proof -
  have "backs H' s0 as"
    by (rule backs_frame [of H]) (use assms in \<open>auto simp: hd_in_set\<close>)
  moreover have "backs H' (Entry e) bs"
  proof (cases bs)
    case (Cons b bs')
    moreover have "backs H' (Entry b) bs'"
      by (rule backs_frame [of H]) (use assms Cons in auto)
    ultimately show ?thesis
      using B assms(3) by auto
  qed simp
  ultimately show ?thesis
    using B by simp
qed

lemma backs_remove:
  assumes "backs H s0 (as @ e # bs)" and "distinct (as @ e # bs)"
    and B: "\<forall>x \<in> set (as @ bs). snd_word H' (Entry x) =
      (if bs \<noteq> [] \<and> x = hd bs then snd_word H (Entry e) else snd_word H (Entry x))"
  shows "backs H' s0 (as @ bs)"
proof -
  have "backs H' s0 as"
    by (rule backs_frame [of H]) (use assms in \<open>auto simp: hd_in_set\<close>)
  moreover have "backs H' (end_slot s0 as) bs"
  proof (cases bs)
    case (Cons b bs')
    moreover have "backs H' (Entry b) bs'"
      by (rule backs_frame [of H]) (use assms Cons in auto)
    ultimately show ?thesis
      using B assms(1) by auto
  qed simp
  ultimately show ?thesis
    by simp
qed

section \<open>The contracts of the list types\<close>

text \<open>
  \<open>rep H h xs\<close>: the list with head \<open>h\<close> holds \<open>xs\<close> in store \<open>H\<close>. The operations return the new
  store, \<open>None\<close> where they are undefined. \<open>run_all\<close> runs an operation for each item of a list
  in turn.
\<close>

primrec run_all :: "('a \<Rightarrow> 'h \<Rightarrow> 'h option) \<Rightarrow> 'a list \<Rightarrow> 'h \<Rightarrow> 'h option" where
  "run_all f [] H = Some H"
| "run_all f (e # es) H = Option.bind (f e H) (run_all f es)"

locale elem_list =
  fixes rep :: "'h \<Rightarrow> nat \<Rightarrow> nat list \<Rightarrow> bool"
    and init :: "nat \<Rightarrow> 'h \<Rightarrow> 'h"
    and insert_head :: "nat \<Rightarrow> nat \<Rightarrow> 'h \<Rightarrow> 'h option"
    and remove :: "nat \<Rightarrow> nat \<Rightarrow> 'h \<Rightarrow> 'h option"
    and visited :: "nat \<Rightarrow> 'h \<Rightarrow> nat list option"
  assumes rep_init: "rep (init h H) h []"
    and rep_insert_head: "rep H h xs \<Longrightarrow> e \<notin> set xs \<Longrightarrow>
      \<exists>H'. insert_head h e H = Some H' \<and> rep H' h (e # xs)"
    and rep_remove: "rep H h xs \<Longrightarrow> e \<in> set xs \<Longrightarrow>
      \<exists>H'. remove h e H = Some H' \<and> rep H' h (remove1 e xs)"
    and rep_visited: "rep H h xs \<Longrightarrow> visited h H = Some xs"
begin

lemma rep_unique: "rep H h xs \<Longrightarrow> rep H h ys \<Longrightarrow> xs = ys"
  using rep_visited [of H h xs] rep_visited [of H h ys] by simp

text \<open>Pushing elements one by one and visiting them: last in, first out.\<close>

lemma rep_push_all:
  "rep H h xs \<Longrightarrow> distinct es \<Longrightarrow> set es \<inter> set xs = {} \<Longrightarrow>
     \<exists>H'. run_all (insert_head h) es H = Some H' \<and> rep H' h (rev es @ xs)"
proof (induction es arbitrary: H xs)
  case (Cons e es)
  then obtain H1 where "insert_head h e H = Some H1" "rep H1 h (e # xs)"
    using rep_insert_head [of H h xs e] by auto
  with Cons.IH [of H1 "e # xs"] Cons.prems show ?case
    by auto
qed simp

lemma lifo:
  "distinct es \<Longrightarrow> \<exists>H'. run_all (insert_head h) es (init h H) = Some H' \<and> visited h H' = Some (rev es)"
  using rep_push_all [OF rep_init, of es h H] rep_visited by fastforce

lemma insert_remove:
  "rep H h xs \<Longrightarrow> e \<notin> set xs \<Longrightarrow>
     \<exists>H'. Option.bind (insert_head h e H) (remove h e) = Some H' \<and> rep H' h xs"
  using rep_insert_head [of H h xs e] rep_remove [of _ h "e # xs" e] by fastforce

lemma remove_all:
  "rep H h xs \<Longrightarrow> distinct xs \<Longrightarrow> \<exists>H'. run_all (remove h) xs H = Some H' \<and> rep H' h []"
proof (induction xs arbitrary: H)
  case (Cons x xs)
  then obtain H1 where "remove h x H = Some H1" "rep H1 h xs"
    using rep_remove [of H h "x # xs" x] by auto
  with Cons.IH [of H1] Cons.prems show ?case
    by auto
qed simp

end

locale elem_queue = elem_list rep init insert_head remove visited
  for rep :: "'h \<Rightarrow> nat \<Rightarrow> nat list \<Rightarrow> bool" and init insert_head remove visited +
  fixes insert_tail :: "nat \<Rightarrow> nat \<Rightarrow> 'h \<Rightarrow> 'h option"
  assumes rep_insert_tail: "rep H h xs \<Longrightarrow> e \<notin> set xs \<Longrightarrow>
    \<exists>H'. insert_tail h e H = Some H' \<and> rep H' h (xs @ [e])"
begin

lemma rep_append_all:
  "rep H h xs \<Longrightarrow> distinct es \<Longrightarrow> set es \<inter> set xs = {} \<Longrightarrow>
     \<exists>H'. run_all (insert_tail h) es H = Some H' \<and> rep H' h (xs @ es)"
proof (induction es arbitrary: H xs)
  case (Cons e es)
  then obtain H1 where "insert_tail h e H = Some H1" "rep H1 h (xs @ [e])"
    using rep_insert_tail [of H h xs e] by auto
  with Cons.IH [of H1 "xs @ [e]"] Cons.prems show ?case
    by auto
qed simp

lemma fifo:
  "distinct es \<Longrightarrow> \<exists>H'. run_all (insert_tail h) es (init h H) = Some H' \<and> visited h H' = Some es"
  using rep_append_all [OF rep_init, of es h H] rep_visited by fastforce

end

text \<open>
  The doubly linked queues promise five operations. \<open>qop\<close> names them and \<open>spec_op\<close> is what they
  do to the sequence of elements, \<open>None\<close> where the caller breaks the contract: an element that
  is inserted must not be in the queue, one that is removed or inserted at has to be.
\<close>

datatype qop =
    Insert_head nat
  | Insert_tail nat
  | Insert_after nat nat
  | Insert_before nat nat
  | Remove nat

fun ins_after :: "nat \<Rightarrow> nat \<Rightarrow> nat list \<Rightarrow> nat list" where
  "ins_after le e [] = []"
| "ins_after le e (x # xs) = (if x = le then x # e # xs else x # ins_after le e xs)"

fun ins_before :: "nat \<Rightarrow> nat \<Rightarrow> nat list \<Rightarrow> nat list" where
  "ins_before le e [] = []"
| "ins_before le e (x # xs) = (if x = le then e # x # xs else x # ins_before le e xs)"

fun spec_op :: "qop \<Rightarrow> nat list \<Rightarrow> nat list option" where
  "spec_op (Insert_head e) xs = (if e \<in> set xs then None else Some (e # xs))"
| "spec_op (Insert_tail e) xs = (if e \<in> set xs then None else Some (xs @ [e]))"
| "spec_op (Insert_after le e) xs =
     (if le \<in> set xs \<and> e \<notin> set xs then Some (ins_after le e xs) else None)"
| "spec_op (Insert_before le e) xs =
     (if le \<in> set xs \<and> e \<notin> set xs then Some (ins_before le e xs) else None)"
| "spec_op (Remove e) xs = (if e \<in> set xs then Some (remove1 e xs) else None)"

lemma ins_after_append: "le \<notin> set as \<Longrightarrow> ins_after le e (as @ le # bs) = as @ le # e # bs"
  by (induction as) auto

lemma ins_before_append: "le \<notin> set as \<Longrightarrow> ins_before le e (as @ le # bs) = as @ e # le # bs"
  by (induction as) auto

text \<open>A legal operation at an element, seen from the place of the element.\<close>

lemma spec_op_cases:
  assumes "spec_op op xs = Some ys"
  obtains
    (at_head) e where "op = Insert_head e" "e \<notin> set xs" "ys = e # xs"
  | (at_tail) e where "op = Insert_tail e" "e \<notin> set xs" "ys = xs @ [e]"
  | (after) le e as bs where "op = Insert_after le e" "xs = as @ le # bs" "e \<notin> set xs"
      "ys = as @ le # e # bs"
  | (before) le e as bs where "op = Insert_before le e" "xs = as @ le # bs" "e \<notin> set xs"
      "ys = as @ e # le # bs"
  | (out) e as bs where "op = Remove e" "xs = as @ e # bs" "ys = as @ bs"
proof (cases op)
  case (Insert_after le e)
  with assms obtain as bs where "xs = as @ le # bs" "le \<notin> set as"
    using split_list_first [of le xs] by (auto split: if_splits)
  with assms Insert_after after show thesis
    by (auto simp: ins_after_append split: if_splits)
next
  case (Insert_before le e)
  with assms obtain as bs where "xs = as @ le # bs" "le \<notin> set as"
    using split_list_first [of le xs] by (auto split: if_splits)
  with assms Insert_before before show thesis
    by (auto simp: ins_before_append split: if_splits)
next
  case (Remove e)
  with assms obtain as bs where "xs = as @ e # bs" "e \<notin> set as"
    using split_list_first [of e xs] by (auto split: if_splits)
  with assms Remove out show thesis
    by (auto simp: remove1_append split: if_splits)
qed (use assms at_head at_tail in \<open>auto split: if_splits\<close>)

locale elem_deque =
  fixes rep :: "'h \<Rightarrow> nat \<Rightarrow> nat list \<Rightarrow> bool"
    and init :: "nat \<Rightarrow> 'h \<Rightarrow> 'h"
    and step :: "nat \<Rightarrow> qop \<Rightarrow> 'h \<Rightarrow> 'h option"
    and visited visited_back :: "nat \<Rightarrow> 'h \<Rightarrow> nat list option"
  assumes deque_init: "rep (init h H) h []"
    and deque_step: "rep H h xs \<Longrightarrow> spec_op op xs = Some ys \<Longrightarrow>
      \<exists>H'. step h op H = Some H' \<and> rep H' h ys"
    and deque_visited: "rep H h xs \<Longrightarrow> visited h H = Some xs"
    and deque_visited_back: "rep H h xs \<Longrightarrow> visited_back h H = Some (rev xs)"
begin

lemma deque_run:
  "rep H h xs \<Longrightarrow> run_all spec_op ops xs = Some ys \<Longrightarrow>
     \<exists>H'. run_all (step h) ops H = Some H' \<and> rep H' h ys"
proof (induction ops arbitrary: H xs)
  case (Cons op ops)
  then obtain zs where "spec_op op xs = Some zs" "run_all spec_op ops zs = Some ys"
    by (auto simp: bind_eq_Some_conv)
  with Cons.IH Cons.prems(1) deque_step show ?case
    by fastforce
qed simp

text \<open>Legal operations on a new queue never fail, and both traversals end with the sequence.\<close>

lemma deque_session:
  "run_all spec_op ops [] = Some xs \<Longrightarrow>
     \<exists>H'. run_all (step h) ops (init h H) = Some H' \<and> rep H' h xs \<and>
       visited h H' = Some xs \<and> visited_back h H' = Some (rev xs)"
  using deque_run [OF deque_init] deque_visited deque_visited_back by blast

end

text \<open>The contract with all five operations gives the one of a queue.\<close>

sublocale elem_deque \<subseteq> plain: elem_queue rep init "\<lambda>h e. step h (Insert_head e)"
  "\<lambda>h e. step h (Remove e)" visited "\<lambda>h e. step h (Insert_tail e)"
proof unfold_locales
  fix H h xs e
  assume "rep H h xs"
  then show "e \<notin> set xs \<Longrightarrow> \<exists>H'. step h (Insert_head e) H = Some H' \<and> rep H' h (e # xs)"
    and "e \<in> set xs \<Longrightarrow> \<exists>H'. step h (Remove e) H = Some H' \<and> rep H' h (remove1 e xs)"
    and "e \<notin> set xs \<Longrightarrow> \<exists>H'. step h (Insert_tail e) H = Some H' \<and> rep H' h (xs @ [e])"
    using deque_step [of H h xs] by simp_all
qed (fact deque_init deque_visited)+

end
