(* ===== verification/Queue_Singly.thy ===== *)
theory Queue_Singly
  imports Queue_Heap
begin

text \<open>
  The singly linked types of \<^verbatim>\<open>sys/queue.h\<close>: lists (\<open>SLIST_*\<close>), tail queues (\<open>STAILQ_*\<close>) and
  simple queues (\<open>SIMPLEQ_*\<close>). The entry of an element is one word, the pointer to the next
  element; the heads of the two queue types have a second word, the address of the last
  pointer. An operation that dereferences \<open>NULL\<close> or does not end is \<open>None\<close>. The simple queue
  macros repeat those of the tail queues under another name, which is proved.
\<close>

section \<open>Singly linked lists\<close>

definition SLIST_INIT :: "nat \<Rightarrow> qheap \<Rightarrow> qheap" where
  "SLIST_INIT head H = set_fst (Head head) None H"

definition SLIST_INSERT_AFTER :: "nat \<Rightarrow> nat \<Rightarrow> qheap \<Rightarrow> qheap" where
  "SLIST_INSERT_AFTER slistelm elm H =
     (let H = set_fst (Entry elm) (fst_word H (Entry slistelm)) H
      in set_fst (Entry slistelm) (Some elm) H)"

definition SLIST_INSERT_HEAD :: "nat \<Rightarrow> nat \<Rightarrow> qheap \<Rightarrow> qheap" where
  "SLIST_INSERT_HEAD head elm H =
     (let H = set_fst (Entry elm) (fst_word H (Head head)) H
      in set_fst (Head head) (Some elm) H)"

definition SLIST_REMOVE_HEAD :: "nat \<Rightarrow> qheap \<Rightarrow> qheap option" where
  "SLIST_REMOVE_HEAD head H = (case fst_word H (Head head) of
       None \<Rightarrow> None
     | Some f \<Rightarrow> Some (set_fst (Head head) (fst_word H (Entry f)) H))"

definition SLIST_REMOVE :: "nat \<Rightarrow> nat \<Rightarrow> qheap \<Rightarrow> qheap option" where
  "SLIST_REMOVE head elm H =
     (if fst_word H (Head head) = Some elm then SLIST_REMOVE_HEAD head H
      else do {
        curelm \<leftarrow> find_before H elm (fst_word H (Head head));
        nxt \<leftarrow> fst_word H (Entry curelm);
        Some (set_fst (Entry curelm) (fst_word H (Entry nxt)) H) })"

definition SLIST_FOREACH :: "nat \<Rightarrow> qheap \<Rightarrow> nat list option" where
  "SLIST_FOREACH head H = walk (\<lambda>var. fst_word H (Entry var)) (fst_word H (Head head))"

definition SLIST_EMPTY :: "nat \<Rightarrow> qheap \<Rightarrow> bool" where
  "SLIST_EMPTY head H \<longleftrightarrow> fst_word H (Head head) = None"

definition SLIST_FIRST :: "nat \<Rightarrow> qheap \<Rightarrow> nat option" where
  "SLIST_FIRST head H = fst_word H (Head head)"

definition SLIST_NEXT :: "nat \<Rightarrow> qheap \<Rightarrow> nat option" where
  "SLIST_NEXT elm H = fst_word H (Entry elm)"

section \<open>Singly linked tail queues\<close>

definition STAILQ_INIT :: "nat \<Rightarrow> qheap \<Rightarrow> qheap" where
  "STAILQ_INIT head H =
     (let H = set_fst (Head head) None H
      in set_snd (Head head) (Head head) H)"

definition STAILQ_INSERT_HEAD :: "nat \<Rightarrow> nat \<Rightarrow> qheap \<Rightarrow> qheap" where
  "STAILQ_INSERT_HEAD head elm H =
     (let H = set_fst (Entry elm) (fst_word H (Head head)) H;
          H = (if fst_word H (Entry elm) = None then set_snd (Head head) (Entry elm) H else H)
      in set_fst (Head head) (Some elm) H)"

definition STAILQ_INSERT_TAIL :: "nat \<Rightarrow> nat \<Rightarrow> qheap \<Rightarrow> qheap" where
  "STAILQ_INSERT_TAIL head elm H =
     (let H = set_fst (Entry elm) None H;
          H = set_fst (snd_word H (Head head)) (Some elm) H
      in set_snd (Head head) (Entry elm) H)"

definition STAILQ_INSERT_AFTER :: "nat \<Rightarrow> nat \<Rightarrow> nat \<Rightarrow> qheap \<Rightarrow> qheap" where
  "STAILQ_INSERT_AFTER head listelm elm H =
     (let H = set_fst (Entry elm) (fst_word H (Entry listelm)) H;
          H = (if fst_word H (Entry elm) = None then set_snd (Head head) (Entry elm) H else H)
      in set_fst (Entry listelm) (Some elm) H)"

definition STAILQ_REMOVE_HEAD :: "nat \<Rightarrow> qheap \<Rightarrow> qheap option" where
  "STAILQ_REMOVE_HEAD head H = (case fst_word H (Head head) of
       None \<Rightarrow> None
     | Some f \<Rightarrow>
         let H = set_fst (Head head) (fst_word H (Entry f)) H
         in Some (if fst_word H (Head head) = None then set_snd (Head head) (Head head) H else H))"

definition STAILQ_REMOVE :: "nat \<Rightarrow> nat \<Rightarrow> qheap \<Rightarrow> qheap option" where
  "STAILQ_REMOVE head elm H =
     (if fst_word H (Head head) = Some elm then STAILQ_REMOVE_HEAD head H
      else do {
        curelm \<leftarrow> find_before H elm (fst_word H (Head head));
        nxt \<leftarrow> fst_word H (Entry curelm);
        let H = set_fst (Entry curelm) (fst_word H (Entry nxt)) H;
        Some (if fst_word H (Entry curelm) = None then set_snd (Head head) (Entry curelm) H else H) })"

definition STAILQ_FOREACH :: "nat \<Rightarrow> qheap \<Rightarrow> nat list option" where
  "STAILQ_FOREACH head H = walk (\<lambda>var. fst_word H (Entry var)) (fst_word H (Head head))"

definition STAILQ_EMPTY :: "nat \<Rightarrow> qheap \<Rightarrow> bool" where
  "STAILQ_EMPTY head H \<longleftrightarrow> fst_word H (Head head) = None"

definition STAILQ_FIRST :: "nat \<Rightarrow> qheap \<Rightarrow> nat option" where
  "STAILQ_FIRST head H = fst_word H (Head head)"

definition STAILQ_NEXT :: "nat \<Rightarrow> qheap \<Rightarrow> nat option" where
  "STAILQ_NEXT elm H = fst_word H (Entry elm)"

definition STAILQ_CONCAT :: "nat \<Rightarrow> nat \<Rightarrow> qheap \<Rightarrow> qheap" where
  "STAILQ_CONCAT head1 head2 H =
     (if \<not> STAILQ_EMPTY head2 H then
        let H = set_fst (snd_word H (Head head1)) (fst_word H (Head head2)) H;
            H = set_snd (Head head1) (snd_word H (Head head2)) H
        in STAILQ_INIT head2 H
      else H)"

section \<open>Simple queues\<close>

definition SIMPLEQ_INIT :: "nat \<Rightarrow> qheap \<Rightarrow> qheap" where
  "SIMPLEQ_INIT head H =
     (let H = set_fst (Head head) None H
      in set_snd (Head head) (Head head) H)"

definition SIMPLEQ_INSERT_HEAD :: "nat \<Rightarrow> nat \<Rightarrow> qheap \<Rightarrow> qheap" where
  "SIMPLEQ_INSERT_HEAD head elm H =
     (let H = set_fst (Entry elm) (fst_word H (Head head)) H;
          H = (if fst_word H (Entry elm) = None then set_snd (Head head) (Entry elm) H else H)
      in set_fst (Head head) (Some elm) H)"

definition SIMPLEQ_INSERT_TAIL :: "nat \<Rightarrow> nat \<Rightarrow> qheap \<Rightarrow> qheap" where
  "SIMPLEQ_INSERT_TAIL head elm H =
     (let H = set_fst (Entry elm) None H;
          H = set_fst (snd_word H (Head head)) (Some elm) H
      in set_snd (Head head) (Entry elm) H)"

definition SIMPLEQ_INSERT_AFTER :: "nat \<Rightarrow> nat \<Rightarrow> nat \<Rightarrow> qheap \<Rightarrow> qheap" where
  "SIMPLEQ_INSERT_AFTER head listelm elm H =
     (let H = set_fst (Entry elm) (fst_word H (Entry listelm)) H;
          H = (if fst_word H (Entry elm) = None then set_snd (Head head) (Entry elm) H else H)
      in set_fst (Entry listelm) (Some elm) H)"

definition SIMPLEQ_REMOVE_HEAD :: "nat \<Rightarrow> qheap \<Rightarrow> qheap option" where
  "SIMPLEQ_REMOVE_HEAD head H = (case fst_word H (Head head) of
       None \<Rightarrow> None
     | Some f \<Rightarrow>
         let H = set_fst (Head head) (fst_word H (Entry f)) H
         in Some (if fst_word H (Head head) = None then set_snd (Head head) (Head head) H else H))"

definition SIMPLEQ_REMOVE :: "nat \<Rightarrow> nat \<Rightarrow> qheap \<Rightarrow> qheap option" where
  "SIMPLEQ_REMOVE head elm H =
     (if fst_word H (Head head) = Some elm then SIMPLEQ_REMOVE_HEAD head H
      else do {
        curelm \<leftarrow> find_before H elm (fst_word H (Head head));
        nxt \<leftarrow> fst_word H (Entry curelm);
        let H = set_fst (Entry curelm) (fst_word H (Entry nxt)) H;
        Some (if fst_word H (Entry curelm) = None then set_snd (Head head) (Entry curelm) H else H) })"

definition SIMPLEQ_FOREACH :: "nat \<Rightarrow> qheap \<Rightarrow> nat list option" where
  "SIMPLEQ_FOREACH head H = walk (\<lambda>var. fst_word H (Entry var)) (fst_word H (Head head))"

definition SIMPLEQ_EMPTY :: "nat \<Rightarrow> qheap \<Rightarrow> bool" where
  "SIMPLEQ_EMPTY head H \<longleftrightarrow> fst_word H (Head head) = None"

definition SIMPLEQ_FIRST :: "nat \<Rightarrow> qheap \<Rightarrow> nat option" where
  "SIMPLEQ_FIRST head H = fst_word H (Head head)"

definition SIMPLEQ_NEXT :: "nat \<Rightarrow> qheap \<Rightarrow> nat option" where
  "SIMPLEQ_NEXT elm H = fst_word H (Entry elm)"

lemma simpleq_eq_stailq:
  "SIMPLEQ_INIT = STAILQ_INIT" "SIMPLEQ_INSERT_HEAD = STAILQ_INSERT_HEAD"
  "SIMPLEQ_INSERT_TAIL = STAILQ_INSERT_TAIL" "SIMPLEQ_INSERT_AFTER = STAILQ_INSERT_AFTER"
  "SIMPLEQ_REMOVE_HEAD = STAILQ_REMOVE_HEAD" "SIMPLEQ_REMOVE = STAILQ_REMOVE"
  "SIMPLEQ_FOREACH = STAILQ_FOREACH"
  by (simp_all add: fun_eq_iff SIMPLEQ_INIT_def STAILQ_INIT_def SIMPLEQ_INSERT_HEAD_def
      STAILQ_INSERT_HEAD_def SIMPLEQ_INSERT_TAIL_def STAILQ_INSERT_TAIL_def
      SIMPLEQ_INSERT_AFTER_def STAILQ_INSERT_AFTER_def SIMPLEQ_REMOVE_HEAD_def
      STAILQ_REMOVE_HEAD_def SIMPLEQ_REMOVE_def STAILQ_REMOVE_def SIMPLEQ_FOREACH_def
      STAILQ_FOREACH_def)

section \<open>Representation\<close>

definition slist_rep :: "qheap \<Rightarrow> nat \<Rightarrow> nat list \<Rightarrow> bool" where
  "slist_rep H h xs \<longleftrightarrow> distinct xs \<and> chain H (Head h) xs (end_slot (Head h) xs) \<and>
     fst_word H (end_slot (Head h) xs) = None"

definition stailq_rep :: "qheap \<Rightarrow> nat \<Rightarrow> nat list \<Rightarrow> bool" where
  "stailq_rep H h xs \<longleftrightarrow> slist_rep H h xs \<and> snd_word H (Head h) = end_slot (Head h) xs"

lemma slist_rep_distinct: "slist_rep H h xs \<Longrightarrow> distinct xs"
  by (simp add: slist_rep_def)

lemma slist_rep_next:
  assumes "slist_rep H h (as @ bs)"
  shows "fst_word H (end_slot (Head h) as) = (if bs = [] then None else Some (hd bs))"
  using assms by (cases bs) (auto simp: slist_rep_def)

lemma slist_rep_insert:
  assumes rep: "slist_rep H h (as @ bs)" and e: "e \<notin> set (as @ bs)"
    and F: "fst_word H' = (fst_word H)(end_slot (Head h) as := Some e,
      Entry e := fst_word H (end_slot (Head h) as))"
  shows "slist_rep H' h (as @ e # bs)"
proof -
  let ?s = "end_slot (Head h) as"
  have d: "distinct (as @ bs)" and c: "chain H (Head h) as ?s" "chain H ?s bs (end_slot ?s bs)"
    and n: "fst_word H (end_slot ?s bs) = None"
    using rep by (auto simp: slist_rep_def)
  have "chain H' (Head h) (as @ e # bs) (if bs = [] then Entry e else end_slot ?s bs)"
    using e d F by (intro chain_insert [OF c]) auto
  then have "chain H' (Head h) (as @ e # bs) (end_slot (Head h) (as @ e # bs))"
    by (cases bs) auto
  moreover have "fst_word H' (end_slot (Entry e) bs) = None"
  proof (cases bs)
    case Nil
    then show ?thesis using n by (simp add: F)
  next
    case (Cons y ys)
    have "end_slot (Entry y) ys \<in> Entry ` set bs" "?s \<in> insert (Head h) (Entry ` set as)"
      using end_slot_in [of "Entry y" ys] end_slot_in [of "Head h" as] Cons by auto
    then show ?thesis
      using n d e Cons by (auto simp: F)
  qed
  ultimately show ?thesis
    using d e by (simp add: slist_rep_def)
qed

lemma slist_rep_remove:
  assumes rep: "slist_rep H h (as @ e # bs)"
    and F: "fst_word H' = (fst_word H)(end_slot (Head h) as := fst_word H (Entry e))"
  shows "slist_rep H' h (as @ bs)"
proof -
  let ?s = "end_slot (Head h) as"
  have d: "distinct (as @ e # bs)"
    and c: "chain H (Head h) (as @ e # bs) (end_slot (Entry e) bs)"
    and n: "fst_word H (end_slot (Entry e) bs) = None"
    using rep by (auto simp: slist_rep_def)
  have "chain H' (Head h) (as @ bs) (if bs = [] then ?s else end_slot (Entry e) bs)"
    using d F by (intro chain_remove [OF c]) auto
  then have "chain H' (Head h) (as @ bs) (end_slot (Head h) (as @ bs))"
    by (cases bs) auto
  moreover have "fst_word H' (end_slot ?s bs) = None"
  proof (cases bs)
    case Nil
    then show ?thesis using n by (simp add: F)
  next
    case (Cons y ys)
    have "end_slot (Entry y) ys \<in> Entry ` set bs" "?s \<in> insert (Head h) (Entry ` set as)"
      using end_slot_in [of "Entry y" ys] end_slot_in [of "Head h" as] Cons by auto
    then show ?thesis
      using n d Cons by (auto simp: F)
  qed
  ultimately show ?thesis
    using d by (simp add: slist_rep_def)
qed

lemma slist_rep_concat:
  assumes rep1: "slist_rep H h1 xs" and rep2: "slist_rep H h2 (y # ys)" and "h1 \<noteq> h2"
    and disj: "set xs \<inter> set (y # ys) = {}"
    and F: "fst_word H' = (fst_word H)(end_slot (Head h1) xs := Some y, Head h2 := None)"
  shows "slist_rep H' h1 (xs @ y # ys) \<and> slist_rep H' h2 []"
proof -
  let ?s = "end_slot (Head h1) xs" and ?t = "end_slot (Entry y) ys"
  have q1: "distinct xs" "chain H (Head h1) xs ?s"
    using rep1 by (simp_all add: slist_rep_def)
  have q2: "distinct (y # ys)" "chain H (Entry y) ys ?t" "fst_word H ?t = None"
    using rep2 by (simp_all add: slist_rep_def)
  have s_in: "?s \<in> insert (Head h1) (Entry ` set xs)" and t_in: "?t \<in> Entry ` set (y # ys)"
    using end_slot_in [of "Head h1" xs] end_slot_in [of "Entry y" ys] by auto
  have "?s \<notin> reads (Head h1) xs" "Head h2 \<notin> reads (Head h1) xs"
    using end_slot_notin_reads [of xs "Head h1"] q1(1) reads_subset [of "Head h1" xs] assms(3) by auto
  then have c1: "chain H' (Head h1) xs ?s"
    using q1(2) by - (rule chain_frame [of H], auto simp: F)
  have "?s \<notin> reads (Entry y) ys" "Head h2 \<notin> reads (Entry y) ys"
    using reads_subset [of "Entry y" ys] s_in disj by auto
  then have c2: "chain H' (Entry y) ys ?t"
    using q2(2) by - (rule chain_frame [of H], auto simp: F)
  have "fst_word H' ?t = None" "fst_word H' ?s = Some y"
    using q2(3) s_in t_in disj assms(3) by (auto simp: F)
  with c1 c2 q1(1) q2(1) disj assms(3) show ?thesis
    by (simp add: slist_rep_def F)
qed

text \<open>
  Removal of an element that is not the first: the search stops at its predecessor.
\<close>

lemma slist_rep_find:
  assumes "slist_rep H h (as @ c # e # bs)"
  shows "find_before H e (fst_word H (Head h)) = Some c"
    and "fst_word H (Entry c) = Some e"
    and "fst_word H (Head h) \<noteq> Some e"
proof -
  have c: "chain H (Head h) (as @ c # e # bs) (end_slot (Head h) (as @ c # e # bs))"
    and d: "distinct (as @ c # e # bs)"
    using assms by (simp_all add: slist_rep_def)
  show "find_before H e (fst_word H (Head h)) = Some c"
    using find_before_chain [OF c d] .
  show "fst_word H (Entry c) = Some e"
    using c by simp
  show "fst_word H (Head h) \<noteq> Some e"
    using slist_rep_next [of H h "[]" "as @ c # e # bs"] assms d by (cases as) auto
qed

lemma split_at:
  assumes "e \<in> set xs" and "distinct xs"
  obtains (first) bs where "xs = e # bs" and "remove1 e xs = bs"
  | (later) as c bs where "xs = as @ c # e # bs" and "remove1 e xs = (as @ [c]) @ bs"
proof -
  obtain as bs where as: "xs = as @ e # bs" "e \<notin> set as"
    using split_list_first [OF assms(1)] by blast
  show thesis
  proof (cases as rule: rev_cases)
    case Nil
    then show thesis using as first by simp
  next
    case (snoc as' c)
    then show thesis
      using as later [of as' c bs] by (simp add: remove1_append)
  qed
qed

section \<open>The list macros implement their operations\<close>

lemma SLIST_INSERT_AFTER_rep:
  assumes "slist_rep H h (as @ le # bs)" and "e \<notin> set (as @ le # bs)"
  shows "slist_rep (SLIST_INSERT_AFTER le e H) h (as @ le # e # bs)"
proof -
  have "slist_rep (SLIST_INSERT_AFTER le e H) h ((as @ [le]) @ e # bs)"
    using assms by - (rule slist_rep_insert [of H], auto simp: SLIST_INSERT_AFTER_def Let_def)
  then show ?thesis by simp
qed

lemma SLIST_INSERT_HEAD_rep:
  assumes "slist_rep H h xs" and "e \<notin> set xs"
  shows "slist_rep (SLIST_INSERT_HEAD h e H) h (e # xs)"
proof -
  have "slist_rep (SLIST_INSERT_HEAD h e H) h ([] @ e # xs)"
    using assms by - (rule slist_rep_insert [of H], auto simp: SLIST_INSERT_HEAD_def Let_def)
  then show ?thesis by simp
qed

lemma SLIST_REMOVE_HEAD_rep:
  assumes "slist_rep H h (e # xs)"
  shows "\<exists>H'. SLIST_REMOVE_HEAD h H = Some H' \<and> slist_rep H' h xs"
proof -
  have "fst_word H (Head h) = Some e"
    using slist_rep_next [of H h "[]" "e # xs"] assms by simp
  then show ?thesis
    using slist_rep_remove [of H h "[]" e xs] assms by (simp add: SLIST_REMOVE_HEAD_def)
qed

lemma SLIST_REMOVE_rep:
  assumes "slist_rep H h xs" and "e \<in> set xs"
  shows "\<exists>H'. SLIST_REMOVE h e H = Some H' \<and> slist_rep H' h (remove1 e xs)"
  using assms(2) slist_rep_distinct [OF assms(1)]
proof (cases rule: split_at)
  case (first bs)
  then show ?thesis
    using SLIST_REMOVE_HEAD_rep [of H h e bs] slist_rep_next [of H h "[]" xs] assms(1)
    by (simp add: SLIST_REMOVE_def)
next
  case (later as c bs)
  have rep: "slist_rep H h (as @ c # e # bs)"
    using assms(1) later by simp
  have "slist_rep (set_fst (Entry c) (fst_word H (Entry e)) H) h ((as @ [c]) @ bs)"
    by (rule slist_rep_remove [of H h "as @ [c]" e bs]) (use rep in simp_all)
  then show ?thesis
    using slist_rep_find [OF rep] later by (simp add: SLIST_REMOVE_def)
qed

lemma SLIST_FOREACH_rep: "slist_rep H h xs \<Longrightarrow> SLIST_FOREACH h H = Some xs"
  by (auto simp: slist_rep_def SLIST_FOREACH_def intro: walk_chain)

interpretation bsd_slist: elem_list slist_rep SLIST_INIT
  "\<lambda>h e H. Some (SLIST_INSERT_HEAD h e H)" SLIST_REMOVE SLIST_FOREACH
  by unfold_locales
    (auto intro: SLIST_INSERT_HEAD_rep SLIST_REMOVE_rep SLIST_FOREACH_rep
      simp: slist_rep_def [of _ _ "[]"] SLIST_INIT_def)

section \<open>The queue macros implement their operations\<close>

lemma stailq_slist: "stailq_rep H h xs \<Longrightarrow> slist_rep H h xs"
  by (simp add: stailq_rep_def)

lemma STAILQ_INSERT_HEAD_rep:
  assumes "stailq_rep H h xs" and "e \<notin> set xs"
  shows "stailq_rep (STAILQ_INSERT_HEAD h e H) h (e # xs)"
proof -
  have "slist_rep (STAILQ_INSERT_HEAD h e H) h ([] @ e # xs)"
    using assms stailq_slist [OF assms(1)]
    by - (rule slist_rep_insert [of H], auto simp: STAILQ_INSERT_HEAD_def Let_def)
  moreover have "snd_word (STAILQ_INSERT_HEAD h e H) (Head h) = end_slot (Entry e) xs"
    using assms(1) slist_rep_next [of H h "[]" xs]
    by (cases xs) (auto simp: STAILQ_INSERT_HEAD_def Let_def stailq_rep_def)
  ultimately show ?thesis
    by (simp add: stailq_rep_def)
qed

lemma STAILQ_INSERT_TAIL_rep:
  assumes "stailq_rep H h xs" and "e \<notin> set xs"
  shows "stailq_rep (STAILQ_INSERT_TAIL h e H) h (xs @ [e])"
proof -
  have "fst_word H (end_slot (Head h) xs) = None" "end_slot (Head h) xs \<noteq> Entry e"
    using slist_rep_next [of H h xs "[]"] stailq_slist [OF assms(1)]
      end_slot_in [of "Head h" xs] assms(2) by auto
  then have "slist_rep (STAILQ_INSERT_TAIL h e H) h (xs @ e # [])"
    using assms
    by - (rule slist_rep_insert [of H], auto simp: STAILQ_INSERT_TAIL_def Let_def stailq_rep_def)
  then show ?thesis
    by (simp add: stailq_rep_def STAILQ_INSERT_TAIL_def Let_def)
qed

lemma STAILQ_INSERT_AFTER_rep:
  assumes "stailq_rep H h (as @ le # bs)" and "e \<notin> set (as @ le # bs)"
  shows "stailq_rep (STAILQ_INSERT_AFTER h le e H) h (as @ le # e # bs)"
proof -
  have "slist_rep (STAILQ_INSERT_AFTER h le e H) h ((as @ [le]) @ e # bs)"
    using assms stailq_slist [OF assms(1)]
    by - (rule slist_rep_insert [of H], auto simp: STAILQ_INSERT_AFTER_def Let_def)
  moreover have "snd_word (STAILQ_INSERT_AFTER h le e H) (Head h) = end_slot (Entry e) bs"
    using assms slist_rep_next [of H h "as @ [le]" bs]
    by (cases bs) (auto simp: STAILQ_INSERT_AFTER_def Let_def stailq_rep_def)
  ultimately show ?thesis
    by (simp add: stailq_rep_def)
qed

lemma STAILQ_REMOVE_HEAD_rep:
  assumes "stailq_rep H h (e # xs)"
  shows "\<exists>H'. STAILQ_REMOVE_HEAD h H = Some H' \<and> stailq_rep H' h xs"
proof -
  let ?H = "set_fst (Head h) (fst_word H (Entry e)) H"
  let ?H' = "if fst_word H (Entry e) = None then set_snd (Head h) (Head h) ?H else ?H"
  have first: "fst_word H (Head h) = Some e"
    and nxt: "fst_word H (Entry e) = (if xs = [] then None else Some (hd xs))"
    using slist_rep_next [of H h "[]" "e # xs"] slist_rep_next [of H h "[e]" xs]
      stailq_slist [OF assms] by simp_all
  have "slist_rep ?H' h ([] @ xs)"
    by (rule slist_rep_remove [of H h "[]" e xs]) (use stailq_slist [OF assms] in auto)
  moreover have "snd_word ?H' (Head h) = end_slot (Head h) xs"
    using nxt assms by (cases xs) (auto simp: stailq_rep_def)
  ultimately show ?thesis
    using first by (auto simp: STAILQ_REMOVE_HEAD_def stailq_rep_def Let_def)
qed

lemma STAILQ_REMOVE_rep:
  assumes "stailq_rep H h xs" and "e \<in> set xs"
  shows "\<exists>H'. STAILQ_REMOVE h e H = Some H' \<and> stailq_rep H' h (remove1 e xs)"
  using assms(2) slist_rep_distinct [OF stailq_slist [OF assms(1)]]
proof (cases rule: split_at)
  case (first bs)
  then show ?thesis
    using STAILQ_REMOVE_HEAD_rep [of H h e bs] slist_rep_next [of H h "[]" xs] assms(1)
    by (simp add: STAILQ_REMOVE_def stailq_slist)
next
  case (later as c bs)
  let ?H = "set_fst (Entry c) (fst_word H (Entry e)) H"
  let ?H' = "if fst_word H (Entry e) = None then set_snd (Head h) (Entry c) ?H else ?H"
  have rep: "slist_rep H h (as @ c # e # bs)"
    using stailq_slist [OF assms(1)] later by simp
  have nxt: "fst_word H (Entry e) = (if bs = [] then None else Some (hd bs))"
    using slist_rep_next [of H h "as @ [c, e]" bs] rep by simp
  have "slist_rep ?H' h ((as @ [c]) @ bs)"
    by (rule slist_rep_remove [of H h "as @ [c]" e bs]) (use rep in auto)
  moreover have "snd_word ?H' (Head h) = end_slot (Entry c) bs"
    using nxt assms(1) later(1) by (cases bs) (auto simp: stailq_rep_def)
  ultimately show ?thesis
    using slist_rep_find [OF rep] later(2)
    by (auto simp: STAILQ_REMOVE_def stailq_rep_def Let_def)
qed

lemma STAILQ_FOREACH_rep: "stailq_rep H h xs \<Longrightarrow> STAILQ_FOREACH h H = Some xs"
  by (auto simp: stailq_rep_def slist_rep_def STAILQ_FOREACH_def intro: walk_chain)

interpretation bsd_stailq: elem_queue stailq_rep STAILQ_INIT
  "\<lambda>h e H. Some (STAILQ_INSERT_HEAD h e H)" STAILQ_REMOVE STAILQ_FOREACH
  "\<lambda>h e H. Some (STAILQ_INSERT_TAIL h e H)"
  by unfold_locales
    (auto intro: STAILQ_INSERT_HEAD_rep STAILQ_REMOVE_rep STAILQ_FOREACH_rep STAILQ_INSERT_TAIL_rep
      simp: stailq_rep_def [of _ _ "[]"] slist_rep_def [of _ _ "[]"] STAILQ_INIT_def)

interpretation bsd_simpleq: elem_queue stailq_rep SIMPLEQ_INIT
  "\<lambda>h e H. Some (SIMPLEQ_INSERT_HEAD h e H)" SIMPLEQ_REMOVE SIMPLEQ_FOREACH
  "\<lambda>h e H. Some (SIMPLEQ_INSERT_TAIL h e H)"
  unfolding simpleq_eq_stailq by unfold_locales

lemma STAILQ_CONCAT_rep:
  assumes rep1: "stailq_rep H h1 xs" and rep2: "stailq_rep H h2 ys" and "h1 \<noteq> h2"
    and disj: "set xs \<inter> set ys = {}"
  shows "stailq_rep (STAILQ_CONCAT h1 h2 H) h1 (xs @ ys) \<and> stailq_rep (STAILQ_CONCAT h1 h2 H) h2 []"
proof (cases ys)
  case Nil
  then have "STAILQ_CONCAT h1 h2 H = H"
    using rep2 slist_rep_next [of H h2 "[]" ys]
    by (simp add: STAILQ_CONCAT_def STAILQ_EMPTY_def stailq_rep_def)
  then show ?thesis
    using rep1 rep2 Nil by simp
next
  case (Cons y ys')
  define H' where "H' = STAILQ_CONCAT h1 h2 H"
  have first: "fst_word H (Head h2) = Some y"
    using rep2 Cons slist_rep_next [of H h2 "[]" ys] by (simp add: stailq_rep_def)
  have F: "fst_word H' = (fst_word H)(end_slot (Head h1) xs := Some y, Head h2 := None)"
    and B: "snd_word H' = (snd_word H)(Head h1 := end_slot (Head h2) ys, Head h2 := Head h2)"
    using rep1 rep2 first assms(3)
    by (auto simp: H'_def STAILQ_CONCAT_def STAILQ_EMPTY_def STAILQ_INIT_def Let_def stailq_rep_def)
  show ?thesis
    using slist_rep_concat [of H h1 xs h2 y ys' H'] rep1 rep2 assms(3) disj F Cons
    by (simp add: stailq_rep_def B H'_def [symmetric])
qed

section \<open>Properties\<close>



end
