(* ===== verification/Queue_Doubly.thy ===== *)
theory Queue_Doubly
  imports Queue_Singly
begin

text \<open>
  The doubly linked types of \<^verbatim>\<open>sys/queue.h\<close>: lists (\<open>LIST_*\<close>) and tail queues (\<open>TAILQ_*\<close>).
  Each macro is a function on the store, its assignments in the order of the macro; the
  value of \<open>(x = y)\<close> in a condition is the value assigned. \<open>list_rep\<close> and \<open>tailq_rep\<close> are
  their representation invariants, and every macro is shown to implement the operation on
  sequences that its comment in the header describes.
\<close>

section \<open>Lists\<close>

definition LIST_INIT :: "nat \<Rightarrow> qheap \<Rightarrow> qheap" where
  "LIST_INIT head H = set_fst (Head head) None H"

definition LIST_INSERT_AFTER :: "nat \<Rightarrow> nat \<Rightarrow> qheap \<Rightarrow> qheap" where
  "LIST_INSERT_AFTER listelm elm H =
     (let H = set_fst (Entry elm) (fst_word H (Entry listelm)) H;
          H = (case fst_word H (Entry listelm) of
                 None \<Rightarrow> H | Some n \<Rightarrow> set_snd (Entry n) (Entry elm) H);
          H = set_fst (Entry listelm) (Some elm) H
      in set_snd (Entry elm) (Entry listelm) H)"

definition LIST_INSERT_BEFORE :: "nat \<Rightarrow> nat \<Rightarrow> qheap \<Rightarrow> qheap" where
  "LIST_INSERT_BEFORE listelm elm H =
     (let H = set_snd (Entry elm) (snd_word H (Entry listelm)) H;
          H = set_fst (Entry elm) (Some listelm) H;
          H = set_fst (snd_word H (Entry listelm)) (Some elm) H
      in set_snd (Entry listelm) (Entry elm) H)"

definition LIST_INSERT_HEAD :: "nat \<Rightarrow> nat \<Rightarrow> qheap \<Rightarrow> qheap" where
  "LIST_INSERT_HEAD head elm H =
     (let H = set_fst (Entry elm) (fst_word H (Head head)) H;
          H = (case fst_word H (Head head) of
                 None \<Rightarrow> H | Some n \<Rightarrow> set_snd (Entry n) (Entry elm) H);
          H = set_fst (Head head) (Some elm) H
      in set_snd (Entry elm) (Head head) H)"

definition LIST_REMOVE :: "nat \<Rightarrow> qheap \<Rightarrow> qheap" where
  "LIST_REMOVE elm H =
     (let H = (case fst_word H (Entry elm) of
                 None \<Rightarrow> H | Some n \<Rightarrow> set_snd (Entry n) (snd_word H (Entry elm)) H)
      in set_fst (snd_word H (Entry elm)) (fst_word H (Entry elm)) H)"

definition LIST_EMPTY :: "nat \<Rightarrow> qheap \<Rightarrow> bool" where
  "LIST_EMPTY head H \<longleftrightarrow> fst_word H (Head head) = None"

definition LIST_FIRST :: "nat \<Rightarrow> qheap \<Rightarrow> nat option" where
  "LIST_FIRST head H = fst_word H (Head head)"

definition LIST_NEXT :: "nat \<Rightarrow> qheap \<Rightarrow> nat option" where
  "LIST_NEXT elm H = fst_word H (Entry elm)"

text \<open>The elements that a loop visits, in order.\<close>

definition LIST_FOREACH :: "nat \<Rightarrow> qheap \<Rightarrow> nat list option" where
  "LIST_FOREACH head H = walk (\<lambda>var. fst_word H (Entry var)) (fst_word H (Head head))"

section \<open>Tail queues\<close>

definition TAILQ_INIT :: "nat \<Rightarrow> qheap \<Rightarrow> qheap" where
  "TAILQ_INIT head H =
     (let H = set_fst (Head head) None H
      in set_snd (Head head) (Head head) H)"

definition TAILQ_INSERT_HEAD :: "nat \<Rightarrow> nat \<Rightarrow> qheap \<Rightarrow> qheap" where
  "TAILQ_INSERT_HEAD head elm H =
     (let H = set_fst (Entry elm) (fst_word H (Head head)) H;
          H = (case fst_word H (Head head) of
                 Some n \<Rightarrow> set_snd (Entry n) (Entry elm) H
               | None \<Rightarrow> set_snd (Head head) (Entry elm) H);
          H = set_fst (Head head) (Some elm) H
      in set_snd (Entry elm) (Head head) H)"

definition TAILQ_INSERT_TAIL :: "nat \<Rightarrow> nat \<Rightarrow> qheap \<Rightarrow> qheap" where
  "TAILQ_INSERT_TAIL head elm H =
     (let H = set_fst (Entry elm) None H;
          H = set_snd (Entry elm) (snd_word H (Head head)) H;
          H = set_fst (snd_word H (Head head)) (Some elm) H
      in set_snd (Head head) (Entry elm) H)"

definition TAILQ_INSERT_AFTER :: "nat \<Rightarrow> nat \<Rightarrow> nat \<Rightarrow> qheap \<Rightarrow> qheap" where
  "TAILQ_INSERT_AFTER head listelm elm H =
     (let H = set_fst (Entry elm) (fst_word H (Entry listelm)) H;
          H = (case fst_word H (Entry elm) of
                 Some n \<Rightarrow> set_snd (Entry n) (Entry elm) H
               | None \<Rightarrow> set_snd (Head head) (Entry elm) H);
          H = set_fst (Entry listelm) (Some elm) H
      in set_snd (Entry elm) (Entry listelm) H)"

definition TAILQ_INSERT_BEFORE :: "nat \<Rightarrow> nat \<Rightarrow> qheap \<Rightarrow> qheap" where
  "TAILQ_INSERT_BEFORE listelm elm H =
     (let H = set_snd (Entry elm) (snd_word H (Entry listelm)) H;
          H = set_fst (Entry elm) (Some listelm) H;
          H = set_fst (snd_word H (Entry listelm)) (Some elm) H
      in set_snd (Entry listelm) (Entry elm) H)"

definition TAILQ_REMOVE :: "nat \<Rightarrow> nat \<Rightarrow> qheap \<Rightarrow> qheap" where
  "TAILQ_REMOVE head elm H =
     (let H = (case fst_word H (Entry elm) of
                 Some n \<Rightarrow> set_snd (Entry n) (snd_word H (Entry elm)) H
               | None \<Rightarrow> set_snd (Head head) (snd_word H (Entry elm)) H)
      in set_fst (snd_word H (Entry elm)) (fst_word H (Entry elm)) H)"

definition TAILQ_EMPTY :: "nat \<Rightarrow> qheap \<Rightarrow> bool" where
  "TAILQ_EMPTY head H \<longleftrightarrow> fst_word H (Head head) = None"

definition TAILQ_FIRST :: "nat \<Rightarrow> qheap \<Rightarrow> nat option" where
  "TAILQ_FIRST head H = fst_word H (Head head)"

definition TAILQ_NEXT :: "nat \<Rightarrow> qheap \<Rightarrow> nat option" where
  "TAILQ_NEXT elm H = fst_word H (Entry elm)"

text \<open>
  \<open>(*(((struct headname *)((head)->tqh_last))->tqh_last))\<close>: the second word behind the slot
  \<open>tqh_last\<close>, and the pointer at the address it holds.
\<close>

definition TAILQ_LAST :: "nat \<Rightarrow> qheap \<Rightarrow> nat option" where
  "TAILQ_LAST head H = fst_word H (snd_word H (snd_word H (Head head)))"

definition TAILQ_PREV :: "nat \<Rightarrow> qheap \<Rightarrow> nat option" where
  "TAILQ_PREV elm H = fst_word H (snd_word H (snd_word H (Entry elm)))"

definition TAILQ_FOREACH :: "nat \<Rightarrow> qheap \<Rightarrow> nat list option" where
  "TAILQ_FOREACH head H = walk (\<lambda>var. fst_word H (Entry var)) (fst_word H (Head head))"

definition TAILQ_FOREACH_REVERSE :: "nat \<Rightarrow> qheap \<Rightarrow> nat list option" where
  "TAILQ_FOREACH_REVERSE head H =
     walk (\<lambda>var. fst_word H (snd_word H (snd_word H (Entry var))))
       (fst_word H (snd_word H (snd_word H (Head head))))"

text \<open>\<open>None\<close> is unreachable: the condition says that the first element exists.\<close>

definition TAILQ_CONCAT :: "nat \<Rightarrow> nat \<Rightarrow> qheap \<Rightarrow> qheap" where
  "TAILQ_CONCAT head1 head2 H =
     (if \<not> TAILQ_EMPTY head2 H then
        let H = set_fst (snd_word H (Head head1)) (fst_word H (Head head2)) H;
            H = (case fst_word H (Head head2) of
                   Some n \<Rightarrow> set_snd (Entry n) (snd_word H (Head head1)) H
                 | None \<Rightarrow> H);
            H = set_snd (Head head1) (snd_word H (Head head2)) H
        in TAILQ_INIT head2 H
      else H)"

text \<open>One operation of a program that uses a tail queue.\<close>

fun tailq_step :: "nat \<Rightarrow> qop \<Rightarrow> qheap \<Rightarrow> qheap option" where
  "tailq_step head (Insert_head elm) H = Some (TAILQ_INSERT_HEAD head elm H)"
| "tailq_step head (Insert_tail elm) H = Some (TAILQ_INSERT_TAIL head elm H)"
| "tailq_step head (Insert_after listelm elm) H = Some (TAILQ_INSERT_AFTER head listelm elm H)"
| "tailq_step head (Insert_before listelm elm) H = Some (TAILQ_INSERT_BEFORE listelm elm H)"
| "tailq_step head (Remove elm) H = Some (TAILQ_REMOVE head elm H)"

section \<open>Representation\<close>

definition list_rep :: "qheap \<Rightarrow> nat \<Rightarrow> nat list \<Rightarrow> bool" where
  "list_rep H h xs \<longleftrightarrow> slist_rep H h xs \<and> backs H (Head h) xs"

definition tailq_rep :: "qheap \<Rightarrow> nat \<Rightarrow> nat list \<Rightarrow> bool" where
  "tailq_rep H h xs \<longleftrightarrow> list_rep H h xs \<and> snd_word H (Head h) = end_slot (Head h) xs"

lemma list_rep_next:
  assumes "list_rep H h (as @ bs)"
  shows "fst_word H (end_slot (Head h) as) = (if bs = [] then None else Some (hd bs))"
  using assms slist_rep_next by (simp add: list_rep_def)

lemma list_rep_prev:
  "list_rep H h (as @ e # bs) \<Longrightarrow> snd_word H (Entry e) = end_slot (Head h) as"
  by (auto simp: list_rep_def)

lemma list_rep_insert:
  assumes "list_rep H h (as @ bs)" and "e \<notin> set (as @ bs)"
    and "fst_word H' = (fst_word H)(end_slot (Head h) as := Some e,
      Entry e := fst_word H (end_slot (Head h) as))"
    and "\<forall>x \<in> set (as @ e # bs). snd_word H' (Entry x) =
      (if x = e then end_slot (Head h) as else if bs \<noteq> [] \<and> x = hd bs then Entry e
       else snd_word H (Entry x))"
  shows "list_rep H' h (as @ e # bs)"
  using slist_rep_insert [OF _ assms(2,3)] backs_insert [OF _ _ assms(2,4)] assms(1)
    slist_rep_distinct [of H h "as @ bs"]
  by (simp add: list_rep_def)

lemma list_rep_remove:
  assumes "list_rep H h (as @ e # bs)"
    and "fst_word H' = (fst_word H)(end_slot (Head h) as := fst_word H (Entry e))"
    and "\<forall>x \<in> set (as @ bs). snd_word H' (Entry x) =
      (if bs \<noteq> [] \<and> x = hd bs then snd_word H (Entry e) else snd_word H (Entry x))"
  shows "list_rep H' h (as @ bs)"
  using slist_rep_remove [OF _ assms(2)] backs_remove [OF _ _ assms(3)] assms(1)
    slist_rep_distinct [of H h "as @ e # bs"]
  by (simp add: list_rep_def)

section \<open>The list macros implement their operations\<close>

lemma list_rep_distinct: "list_rep H h xs \<Longrightarrow> distinct xs"
  using slist_rep_distinct by (auto simp: list_rep_def)

lemma split_elem: "e \<in> set xs \<Longrightarrow> distinct xs \<Longrightarrow> \<exists>as bs. xs = as @ e # bs \<and> remove1 e xs = as @ bs"
proof -
  assume "e \<in> set xs" and "distinct xs"
  then obtain as bs where "xs = as @ e # bs" and "e \<notin> set as"
    using split_list_first [of e xs] by blast
  then show ?thesis
    by (intro exI [of _ as] exI [of _ bs]) (simp add: remove1_append)
qed

lemma LIST_INIT_rep: "list_rep (LIST_INIT h H) h []"
  by (simp add: list_rep_def slist_rep_def LIST_INIT_def)

lemma LIST_INSERT_HEAD_rep:
  assumes "list_rep H h xs" and "e \<notin> set xs"
  shows "list_rep (LIST_INSERT_HEAD h e H) h (e # xs)"
proof -
  have "list_rep (LIST_INSERT_HEAD h e H) h ([] @ e # xs)"
    using assms list_rep_next [of H h "[]" xs]
    by (intro list_rep_insert [of H]) (auto simp: LIST_INSERT_HEAD_def Let_def)
  then show ?thesis by simp
qed

lemma LIST_INSERT_AFTER_rep:
  assumes "list_rep H h (as @ le # bs)" and "e \<notin> set (as @ le # bs)"
  shows "list_rep (LIST_INSERT_AFTER le e H) h (as @ le # e # bs)"
proof -
  have "list_rep (LIST_INSERT_AFTER le e H) h ((as @ [le]) @ e # bs)"
    using assms list_rep_next [of H h "as @ [le]" bs] list_rep_distinct [OF assms(1)]
    by (intro list_rep_insert [of H]) (auto simp: LIST_INSERT_AFTER_def Let_def)
  then show ?thesis by simp
qed

lemma LIST_INSERT_BEFORE_rep:
  assumes "list_rep H h (as @ le # bs)" and "e \<notin> set (as @ le # bs)"
  shows "list_rep (LIST_INSERT_BEFORE le e H) h (as @ e # le # bs)"
proof -
  have "end_slot (Head h) as \<noteq> Entry e"
    using end_slot_in [of "Head h" as] assms(2) by auto
  then show ?thesis
    using assms list_rep_next [of H h as "le # bs"] list_rep_distinct [OF assms(1)]
      list_rep_prev [OF assms(1)]
    by - (rule list_rep_insert [of H h as "le # bs" e], auto simp: LIST_INSERT_BEFORE_def Let_def)
qed

lemma LIST_REMOVE_rep:
  assumes "list_rep H h (as @ e # bs)"
  shows "list_rep (LIST_REMOVE e H) h (as @ bs)"
proof -
  have "fst_word H (Entry e) = (if bs = [] then None else Some (hd bs))"
    using list_rep_next [of H h "as @ [e]" bs] assms by simp
  moreover have "bs \<noteq> [] \<Longrightarrow> hd bs \<noteq> e"
    using list_rep_distinct [OF assms] by (cases bs) auto
  ultimately show ?thesis
    using assms list_rep_prev [OF assms] list_rep_distinct [OF assms]
    by - (rule list_rep_remove [OF assms], auto simp: LIST_REMOVE_def)
qed

lemma LIST_FOREACH_rep: "list_rep H h xs \<Longrightarrow> LIST_FOREACH h H = Some xs"
  by (auto simp: list_rep_def slist_rep_def LIST_FOREACH_def intro: walk_chain)

lemma LIST_access_rep:
  assumes "list_rep H h (as @ bs)"
  shows "LIST_EMPTY h H \<longleftrightarrow> as @ bs = []"
    and "LIST_FIRST h H = (if as @ bs = [] then None else Some (hd (as @ bs)))"
    and "as \<noteq> [] \<Longrightarrow> LIST_NEXT (last as) H = (if bs = [] then None else Some (hd bs))"
proof -
  show "LIST_EMPTY h H \<longleftrightarrow> as @ bs = []"
    and "LIST_FIRST h H = (if as @ bs = [] then None else Some (hd (as @ bs)))"
    using list_rep_next [of H h "[]" "as @ bs"] assms by (auto simp: LIST_EMPTY_def LIST_FIRST_def)
  assume "as \<noteq> []"
  then have "end_slot (Head h) as = Entry (last as)"
    by (metis append_butlast_last_id end_slot.simps end_slot_append)
  then show "LIST_NEXT (last as) H = (if bs = [] then None else Some (hd bs))"
    using list_rep_next [OF assms] by (simp add: LIST_NEXT_def)
qed

interpretation bsd_list: elem_list list_rep LIST_INIT "\<lambda>h e H. Some (LIST_INSERT_HEAD h e H)"
  "\<lambda>h e H. Some (LIST_REMOVE e H)" LIST_FOREACH
proof unfold_locales
  fix H :: qheap and h e xs
  assume "list_rep H h xs" and "e \<in> set xs"
  then show "\<exists>H'. Some (LIST_REMOVE e H) = Some H' \<and> list_rep H' h (remove1 e xs)"
    using split_elem [of e xs] list_rep_distinct LIST_REMOVE_rep by metis
qed (auto intro: LIST_INIT_rep LIST_INSERT_HEAD_rep LIST_FOREACH_rep)

section \<open>The tail queue macros implement their operations\<close>

lemma tailq_rep_list: "tailq_rep H h xs \<Longrightarrow> list_rep H h xs"
  by (simp add: tailq_rep_def)

lemma TAILQ_INIT_rep: "tailq_rep (TAILQ_INIT h H) h []"
  by (simp add: tailq_rep_def list_rep_def slist_rep_def TAILQ_INIT_def)

lemma TAILQ_INSERT_HEAD_rep:
  assumes "tailq_rep H h xs" and "e \<notin> set xs"
  shows "tailq_rep (TAILQ_INSERT_HEAD h e H) h (e # xs)"
proof -
  have first: "fst_word H (Head h) = (if xs = [] then None else Some (hd xs))"
    using list_rep_next [of H h "[]" xs] tailq_rep_list [OF assms(1)] by simp
  have "list_rep (TAILQ_INSERT_HEAD h e H) h ([] @ e # xs)"
    using assms first tailq_rep_list [OF assms(1)]
    by (intro list_rep_insert [of H]) (auto simp: TAILQ_INSERT_HEAD_def Let_def)
  moreover have "snd_word (TAILQ_INSERT_HEAD h e H) (Head h) = end_slot (Entry e) xs"
    using assms(1) first by (cases xs) (auto simp: TAILQ_INSERT_HEAD_def Let_def tailq_rep_def)
  ultimately show ?thesis
    by (simp add: tailq_rep_def)
qed

lemma TAILQ_INSERT_TAIL_rep:
  assumes "tailq_rep H h xs" and "e \<notin> set xs"
  shows "tailq_rep (TAILQ_INSERT_TAIL h e H) h (xs @ [e])"
proof -
  have tail: "snd_word H (Head h) = end_slot (Head h) xs"
    using assms(1) by (simp add: tailq_rep_def)
  have last: "fst_word H (end_slot (Head h) xs) = None" "end_slot (Head h) xs \<noteq> Entry e"
    using list_rep_next [of H h xs "[]"] tailq_rep_list [OF assms(1)]
      end_slot_in [of "Head h" xs] assms(2) by auto
  have "list_rep (TAILQ_INSERT_TAIL h e H) h (xs @ e # [])"
    using assms(2) tail last tailq_rep_list [OF assms(1)]
    by (intro list_rep_insert [of H]) (auto simp: TAILQ_INSERT_TAIL_def Let_def)
  then show ?thesis
    by (simp add: tailq_rep_def TAILQ_INSERT_TAIL_def Let_def)
qed

lemma TAILQ_INSERT_AFTER_rep:
  assumes "tailq_rep H h (as @ le # bs)" and "e \<notin> set (as @ le # bs)"
  shows "tailq_rep (TAILQ_INSERT_AFTER h le e H) h (as @ le # e # bs)"
proof -
  note rep = tailq_rep_list [OF assms(1)]
  have "next": "fst_word H (Entry le) = (if bs = [] then None else Some (hd bs))"
    using list_rep_next [of H h "as @ [le]" bs] rep by simp
  have "list_rep (TAILQ_INSERT_AFTER h le e H) h ((as @ [le]) @ e # bs)"
    using assms(2) rep "next" list_rep_distinct [OF rep]
    by (intro list_rep_insert [of H]) (auto simp: TAILQ_INSERT_AFTER_def Let_def)
  moreover have "snd_word (TAILQ_INSERT_AFTER h le e H) (Head h) = end_slot (Entry e) bs"
    using assms "next" by (cases bs) (auto simp: TAILQ_INSERT_AFTER_def Let_def tailq_rep_def)
  ultimately show ?thesis
    by (simp add: tailq_rep_def)
qed

lemma TAILQ_INSERT_BEFORE_rep:
  assumes "tailq_rep H h (as @ le # bs)" and "e \<notin> set (as @ le # bs)"
  shows "tailq_rep (TAILQ_INSERT_BEFORE le e H) h (as @ e # le # bs)"
proof -
  have "TAILQ_INSERT_BEFORE le e H = LIST_INSERT_BEFORE le e H"
    by (simp add: TAILQ_INSERT_BEFORE_def LIST_INSERT_BEFORE_def)
  then show ?thesis
    using LIST_INSERT_BEFORE_rep [OF tailq_rep_list [OF assms(1)] assms(2)] assms(1)
    by (simp add: tailq_rep_def LIST_INSERT_BEFORE_def Let_def)
qed

lemma TAILQ_REMOVE_rep:
  assumes "tailq_rep H h (as @ e # bs)"
  shows "tailq_rep (TAILQ_REMOVE h e H) h (as @ bs)"
proof -
  note rep = tailq_rep_list [OF assms]
  have "next": "fst_word H (Entry e) = (if bs = [] then None else Some (hd bs))"
    using list_rep_next [of H h "as @ [e]" bs] rep by simp
  have ne: "bs \<noteq> [] \<Longrightarrow> hd bs \<noteq> e"
    using list_rep_distinct [OF rep] by (cases bs) auto
  have "list_rep (TAILQ_REMOVE h e H) h (as @ bs)"
    using rep "next" ne list_rep_prev [OF rep] list_rep_distinct [OF rep]
    by - (rule list_rep_remove [OF rep], auto simp: TAILQ_REMOVE_def)
  moreover have "snd_word (TAILQ_REMOVE h e H) (Head h) = end_slot (end_slot (Head h) as) bs"
    using assms "next" list_rep_prev [OF rep]
    by (cases bs) (auto simp: TAILQ_REMOVE_def Let_def tailq_rep_def)
  ultimately show ?thesis
    by (simp add: tailq_rep_def)
qed

lemma TAILQ_FOREACH_rep: "tailq_rep H h xs \<Longrightarrow> TAILQ_FOREACH h H = Some xs"
  by (auto simp: tailq_rep_def list_rep_def slist_rep_def TAILQ_FOREACH_def intro: walk_chain)

subsection \<open>Walking backwards\<close>

text \<open>
  The second word behind the slot of an element is the slot before it; behind the slot of
  the head it is the slot of the last element, whose pointer is \<open>NULL\<close>.
\<close>

lemma TAILQ_PREV_rep:
  assumes "tailq_rep H h (as @ e # bs)"
  shows "TAILQ_PREV e H = (if as = [] then None else Some (last as))"
proof (cases as rule: rev_cases)
  case Nil
  then show ?thesis
    using assms list_rep_next [of H h "e # bs" "[]"]
      list_rep_prev [of H h "[]" e bs]
    by (simp add: TAILQ_PREV_def tailq_rep_def)
next
  case (snoc as' y)
  have rep: "list_rep H h (as' @ y # e # bs)"
    using assms snoc by (simp add: tailq_rep_def)
  have "snd_word H (Entry e) = Entry y" "snd_word H (Entry y) = end_slot (Head h) as'"
    using list_rep_prev [OF rep] list_rep_prev [of H h "as' @ [y]" e bs] rep by simp_all
  then show ?thesis
    using list_rep_next [of H h as' "y # e # bs"] rep snoc by (simp add: TAILQ_PREV_def)
qed

lemma TAILQ_LAST_rep:
  assumes "tailq_rep H h xs"
  shows "TAILQ_LAST h H = (if xs = [] then None else Some (last xs))"
proof (cases xs rule: rev_cases)
  case Nil
  then show ?thesis
    using assms list_rep_next [of H h "[]" "[]"] by (simp add: TAILQ_LAST_def tailq_rep_def)
next
  case (snoc ys y)
  then have rep: "list_rep H h (ys @ y # [])" and "snd_word H (Head h) = Entry y"
    using assms by (simp_all add: tailq_rep_def)
  then show ?thesis
    using list_rep_prev [OF rep] list_rep_next [of H h ys "[y]"] snoc by (simp add: TAILQ_LAST_def)
qed

lemma walk_reverse:
  "tailq_rep H h (as @ bs) \<Longrightarrow>
     walk (\<lambda>e. TAILQ_PREV e H) (if as = [] then None else Some (last as)) = Some (rev as)"
proof (induction as arbitrary: bs rule: rev_induct)
  case Nil
  then show ?case by (simp add: walk.simps)
next
  case (snoc y ys)
  then have "walk (\<lambda>e. TAILQ_PREV e H) (TAILQ_PREV y H) = Some (rev ys)"
    using TAILQ_PREV_rep [of H h ys y bs] snoc.IH [of "y # bs"] by simp
  then show ?case
    by (simp add: walk.simps [of _ "Some y"])
qed

lemma TAILQ_FOREACH_REVERSE_rep:
  assumes "tailq_rep H h xs"
  shows "TAILQ_FOREACH_REVERSE h H = Some (rev xs)"
  using walk_reverse [of H h xs "[]"] TAILQ_LAST_rep [OF assms] assms
  by (simp add: TAILQ_FOREACH_REVERSE_def TAILQ_LAST_def TAILQ_PREV_def)

subsection \<open>The contract\<close>

interpretation bsd_tailq: elem_deque tailq_rep TAILQ_INIT tailq_step TAILQ_FOREACH
  TAILQ_FOREACH_REVERSE
proof unfold_locales
  fix H :: qheap and h op xs ys
  assume rep: "tailq_rep H h xs" and "spec_op op xs = Some ys"
  from this(2) show "\<exists>H'. tailq_step h op H = Some H' \<and> tailq_rep H' h ys"
    using rep
    by (cases rule: spec_op_cases)
      (auto intro: TAILQ_INSERT_HEAD_rep TAILQ_INSERT_TAIL_rep TAILQ_INSERT_AFTER_rep
        TAILQ_INSERT_BEFORE_rep TAILQ_REMOVE_rep)
qed (auto intro: TAILQ_INIT_rep TAILQ_FOREACH_rep TAILQ_FOREACH_REVERSE_rep)

subsection \<open>Concatenation\<close>

lemma TAILQ_CONCAT_rep:
  assumes rep1: "tailq_rep H h1 xs" and rep2: "tailq_rep H h2 ys" and "h1 \<noteq> h2"
    and disj: "set xs \<inter> set ys = {}"
  shows "tailq_rep (TAILQ_CONCAT h1 h2 H) h1 (xs @ ys) \<and> tailq_rep (TAILQ_CONCAT h1 h2 H) h2 []"
proof (cases ys)
  case Nil
  then have "TAILQ_CONCAT h1 h2 H = H"
    using rep2 list_rep_next [of H h2 "[]" ys]
    by (simp add: TAILQ_CONCAT_def TAILQ_EMPTY_def tailq_rep_def)
  then show ?thesis
    using rep1 rep2 Nil by simp
next
  case (Cons y ys')
  let ?s = "end_slot (Head h1) xs"
  define H' where "H' = TAILQ_CONCAT h1 h2 H"
  have "fst_word H (Head h2) = Some y"
    using rep2 Cons list_rep_next [of H h2 "[]" ys] by (simp add: tailq_rep_def)
  moreover have "?s \<noteq> Head h2"
    using end_slot_in [of "Head h1" xs] assms(3) by auto
  ultimately have F: "fst_word H' = (fst_word H)(?s := Some y, Head h2 := None)"
    and B: "snd_word H' =
      (snd_word H)(Entry y := ?s, Head h1 := end_slot (Head h2) ys, Head h2 := Head h2)"
    using rep1 rep2 assms(3)
    by (auto simp: H'_def TAILQ_CONCAT_def TAILQ_EMPTY_def TAILQ_INIT_def Let_def tailq_rep_def)
  have "backs H' (Head h1) xs" "backs H' (Entry y) ys'"
    using rep1 rep2 disj Cons list_rep_distinct [OF tailq_rep_list [OF rep2]]
    by (auto simp: tailq_rep_def list_rep_def B intro: backs_frame [of H])
  then show ?thesis
    using slist_rep_concat [of H h1 xs h2 y ys' H'] rep1 rep2 assms(3) disj F Cons
    by (simp add: tailq_rep_def list_rep_def B H'_def [symmetric])
qed

subsection \<open>Queues that share a store\<close>

text \<open>
  A queue depends only on the words of its head and of the entries of its elements, and the
  operations write only such words, so an operation on one queue leaves every other queue
  alone.
\<close>

definition words_of :: "nat \<Rightarrow> nat list \<Rightarrow> slot set" where
  "words_of h xs = insert (Head h) (Entry ` set xs)"

lemma tailq_rep_frame:
  assumes "tailq_rep H h xs"
    and same: "\<forall>s \<in> words_of h xs. fst_word H' s = fst_word H s \<and> snd_word H' s = snd_word H s"
  shows "tailq_rep H' h xs"
proof -
  have "reads (Head h) xs \<subseteq> words_of h xs" "end_slot (Head h) xs \<in> words_of h xs"
    using reads_subset [of "Head h" xs] end_slot_in [of "Head h" xs] by (auto simp: words_of_def)
  with assms show ?thesis
    by (auto simp: tailq_rep_def list_rep_def slist_rep_def words_of_def
        intro: chain_frame [of H] backs_frame [of H])
qed

lemma tailq_words_closed:
  assumes "tailq_rep H h xs"
  shows "s \<in> words_of h xs \<Longrightarrow> fst_word H s = Some n \<Longrightarrow> n \<in> set xs"
    and "s \<in> words_of h xs \<Longrightarrow> snd_word H s \<in> words_of h xs"
proof -
  note rep = tailq_rep_list [OF assms]
  show "n \<in> set xs" if "s \<in> words_of h xs" and n: "fst_word H s = Some n"
  proof -
    from that(1) obtain as bs where "xs = as @ bs" "s = end_slot (Head h) as"
    proof (cases "s = Head h")
      case True
      then show thesis using that [of "[]" xs] by simp
    next
      case False
      then obtain x where x: "x \<in> set xs" "s = Entry x"
        using \<open>s \<in> words_of h xs\<close> by (auto simp: words_of_def)
      from split_list [OF x(1)] obtain as bs where "xs = as @ x # bs"
        by blast
      with x(2) show thesis using that [of "as @ [x]" bs] by simp
    qed
    then show ?thesis
      using list_rep_next [of H h as bs] rep n by (auto simp: hd_in_set split: if_splits)
  qed
  show "snd_word H s \<in> words_of h xs" if s: "s \<in> words_of h xs"
  proof (cases "s = Head h")
    case True
    then show ?thesis
      using assms end_slot_in [of "Head h" xs] by (auto simp: tailq_rep_def words_of_def)
  next
    case False
    then obtain x where x: "x \<in> set xs" "s = Entry x"
      using s by (auto simp: words_of_def)
    from split_list [OF x(1)] obtain as bs where "xs = as @ x # bs"
      by blast
    with x(2) show ?thesis
      using list_rep_prev [of H h as x bs] rep end_slot_in [of "Head h" as]
      by (auto simp: words_of_def)
  qed
qed

lemma tailq_step_footprint:
  assumes rep: "tailq_rep H h xs" and "spec_op op xs = Some ys" and step: "tailq_step h op H = Some H'"
    and s: "s \<notin> words_of h xs" "s \<notin> words_of h ys"
  shows "fst_word H' s = fst_word H s \<and> snd_word H' s = snd_word H s"
proof -
  have next_in: "Entry n \<in> words_of h xs" if "t \<in> words_of h xs" "fst_word H t = Some n" for t n
    using tailq_words_closed(1) [OF rep that] by (simp add: words_of_def)
  note prev_in = tailq_words_closed(2) [OF rep]
  from assms(2) show ?thesis
  proof (cases rule: spec_op_cases)
    case (at_head e)
    then have "s \<noteq> Entry e" "s \<noteq> Head h" "\<And>n. fst_word H (Head h) = Some n \<Longrightarrow> s \<noteq> Entry n"
      using s next_in [of "Head h"] by (auto simp: words_of_def)
    then show ?thesis
      using step at_head(1) by (auto simp: TAILQ_INSERT_HEAD_def Let_def split: option.splits)
  next
    case (at_tail e)
    then have "s \<noteq> Entry e" "s \<noteq> Head h" "s \<noteq> snd_word H (Head h)"
      using s prev_in [of "Head h"] by (auto simp: words_of_def)
    then show ?thesis
      using step at_tail(1) by (auto simp: TAILQ_INSERT_TAIL_def Let_def)
  next
    case (after le e as bs)
    then have "s \<noteq> Entry e" "s \<noteq> Head h" "s \<noteq> Entry le"
      "\<And>n. fst_word H (Entry le) = Some n \<Longrightarrow> s \<noteq> Entry n"
      using s next_in [of "Entry le"] by (auto simp: words_of_def)
    then show ?thesis
      using step after(1) by (auto simp: TAILQ_INSERT_AFTER_def Let_def split: option.splits)
  next
    case (before le e as bs)
    then have "s \<noteq> Entry e" "s \<noteq> Entry le" "le \<noteq> e" "s \<noteq> snd_word H (Entry le)"
      using s prev_in [of "Entry le"] by (auto simp: words_of_def)
    then show ?thesis
      using step before(1) by (auto simp: TAILQ_INSERT_BEFORE_def Let_def)
  next
    case (out e as bs)
    have in_xs: "Entry e \<in> words_of h xs" "Head h \<in> words_of h xs"
      using out by (simp_all add: words_of_def)
    have "fst_word H (Entry e) \<noteq> Some e"
      using list_rep_next [of H h "as @ [e]" bs] list_rep_distinct [OF tailq_rep_list [OF rep]]
        tailq_rep_list [OF rep] out(2)
      by (cases bs) auto
    moreover have "s \<noteq> Head h" "s \<noteq> snd_word H (Entry e)"
      "\<And>n. fst_word H (Entry e) = Some n \<Longrightarrow> s \<noteq> Entry n"
      using s(1) in_xs prev_in [OF in_xs(1)] next_in [OF in_xs(1)] by auto
    ultimately show ?thesis
      using step out(1) by (auto simp: TAILQ_REMOVE_def Let_def split: option.splits)
  qed
qed

section \<open>Further theorems\<close>

text \<open>
  Several tail queues share the memory of the elements: an operation on one of them, legal for
  its sequence and with no element of the other queue, does what it should to the first and
  leaves the second as it was, although \<open>TAILQ_INSERT_BEFORE\<close> and
  \<open>TAILQ_REMOVE\<close> write through stored addresses of pointer fields.
\<close>

theorem tailq_step_keeps_others:
  assumes "tailq_rep H h xs" and "tailq_rep H h' zs" and "h \<noteq> h'"
    and "spec_op op xs = Some ys" and "set xs \<inter> set zs = {}" and "set ys \<inter> set zs = {}"
  shows "\<exists>H'. tailq_step h op H = Some H' \<and> tailq_rep H' h ys \<and> tailq_rep H' h' zs"
proof -
  obtain H' where H': "tailq_step h op H = Some H'" "tailq_rep H' h ys"
    using bsd_tailq.deque_step [OF assms(1,4)] by blast
  have "\<forall>s \<in> words_of h' zs. fst_word H' s = fst_word H s \<and> snd_word H' s = snd_word H s"
  proof
    fix s
    assume "s \<in> words_of h' zs"
    then have "s \<notin> words_of h xs" "s \<notin> words_of h ys"
      using assms(3,5,6) by (auto simp: words_of_def)
    then show "fst_word H' s = fst_word H s \<and> snd_word H' s = snd_word H s"
      by (rule tailq_step_footprint [OF assms(1,4) H'(1)])
  qed
  then show ?thesis
    using tailq_rep_frame [OF assms(2)] H' by blast
qed

text \<open>
  \<open>TAILQ_CONCAT\<close> of two tail queues with different heads and no common element
  appends the second to the first, for both directions of traversal, and leaves the second
  empty; the empty second queue is the branch that changes nothing.
\<close>

theorem tailq_concatenation:
  assumes "tailq_rep H h1 xs" and "tailq_rep H h2 ys" and "h1 \<noteq> h2" and "set xs \<inter> set ys = {}"
  shows "tailq_rep (TAILQ_CONCAT h1 h2 H) h1 (xs @ ys) \<and>
    TAILQ_FOREACH h1 (TAILQ_CONCAT h1 h2 H) = Some (xs @ ys) \<and>
    TAILQ_FOREACH_REVERSE h1 (TAILQ_CONCAT h1 h2 H) = Some (rev ys @ rev xs) \<and>
    TAILQ_FOREACH h2 (TAILQ_CONCAT h1 h2 H) = Some []"
  using TAILQ_CONCAT_rep [OF assms] TAILQ_FOREACH_rep [of "TAILQ_CONCAT h1 h2 H"]
    TAILQ_FOREACH_REVERSE_rep [of "TAILQ_CONCAT h1 h2 H" h1 "xs @ ys"] by auto

text \<open>
  On a doubly linked list \<open>LIST_INSERT_AFTER\<close>, \<open>LIST_INSERT_BEFORE\<close>
  and \<open>LIST_REMOVE\<close> edit the list at a given element without the head: wherever the
  element is, also first or last, the new sequence is what \<open>LIST_FOREACH\<close> visits.
\<close>

theorem list_edits:
  assumes "list_rep H h (as @ le # bs)" and "e \<notin> set (as @ le # bs)"
  shows "list_rep (LIST_INSERT_AFTER le e H) h (as @ le # e # bs) \<and>
    list_rep (LIST_INSERT_BEFORE le e H) h (as @ e # le # bs) \<and>
    list_rep (LIST_REMOVE le H) h (as @ bs) \<and>
    LIST_FOREACH h (LIST_INSERT_AFTER le e H) = Some (as @ le # e # bs) \<and>
    LIST_FOREACH h (LIST_INSERT_BEFORE le e H) = Some (as @ e # le # bs) \<and>
    LIST_FOREACH h (LIST_REMOVE le H) = Some (as @ bs)"
  using LIST_INSERT_AFTER_rep [OF assms] LIST_INSERT_BEFORE_rep [OF assms] LIST_REMOVE_rep [OF assms(1)]
    bsd_list.rep_visited by blast

section \<open>Properties\<close>

text \<open>
  C9. A tail queue after \<open>TAILQ_INIT\<close> and any sequence of insertions at the head,
  at the tail, after and before an element and of removals, legal for the sequence of elements
  it stands for, holds exactly that sequence: \<open>TAILQ_FOREACH\<close> ends having visited
  it, \<open>TAILQ_FOREACH_REVERSE\<close> ends having visited it backwards, and
  \<open>TAILQ_EMPTY\<close>, \<open>TAILQ_FIRST\<close> and \<open>TAILQ_LAST\<close> answer
  for it.
\<close>

theorem tailq_refines_sequences:
  assumes "run_all spec_op ops [] = Some xs"
  shows "\<exists>H'. run_all (tailq_step h) ops (TAILQ_INIT h H) = Some H' \<and>
    TAILQ_FOREACH h H' = Some xs \<and> TAILQ_FOREACH_REVERSE h H' = Some (rev xs) \<and>
    (TAILQ_EMPTY h H' \<longleftrightarrow> xs = []) \<and>
    TAILQ_FIRST h H' = (if xs = [] then None else Some (hd xs)) \<and>
    TAILQ_LAST h H' = (if xs = [] then None else Some (last xs))"
proof -
  obtain H' where H': "run_all (tailq_step h) ops (TAILQ_INIT h H) = Some H'" "tailq_rep H' h xs"
    using bsd_tailq.deque_session [OF assms] by blast
  then show ?thesis
    using bsd_tailq.deque_session [OF assms, of h H] TAILQ_LAST_rep [OF H'(2)]
      list_rep_next [of H' h "[]" xs] tailq_rep_list [OF H'(2)]
    by (auto simp: TAILQ_EMPTY_def TAILQ_FIRST_def)
qed

theorem tailq_refines_sequences_witness:
  "\<exists>H'. run_all (tailq_step 0) [Insert_tail 1, Insert_head 2, Insert_after 1 3, Insert_before 1 4, Remove 2]
      (TAILQ_INIT 0 \<lparr>fst_word = (\<lambda>_. Some 7), snd_word = (\<lambda>_. Head 9)\<rparr>) = Some H' \<and>
    TAILQ_FOREACH 0 H' = Some [4, 1, 3] \<and> TAILQ_FOREACH_REVERSE 0 H' = Some [3, 1, 4] \<and>
    TAILQ_LAST 0 H' = Some 3"
  using tailq_refines_sequences
    [of "[Insert_tail 1, Insert_head 2, Insert_after 1 3, Insert_before 1 4, Remove 2]" "[4, 1, 3]" 0
      "\<lparr>fst_word = (\<lambda>_. Some 7), snd_word = (\<lambda>_. Head 9)\<rparr>"]
  by auto

end
