(* ===== verification/Queue_Circ.thy ===== *)
theory Queue_Circ
  imports Queue_Heap
begin

text \<open>
  The circular queues of \<^verbatim>\<open>sys/queue.h\<close> (\<open>CIRCLEQ_*\<close>). The pointers of a circular queue lead
  to elements or, cast to \<open>void *\<close>, back to the head, so a pointer is a \<open>node\<close>. Using a
  pointer as an element when it is a head is undefined (\<open>None\<close>).

  The invariant \<open>circ_rep\<close> is symmetric: the next pointers lead through the elements back to
  the head, and the previous pointers through the reversed elements. Both directions share
  the chain lemmas.
\<close>

section \<open>The store and the macros\<close>

datatype node = Elem nat | CHead nat

record cheap =
  cqh_first :: "nat \<Rightarrow> node"
  cqh_last :: "nat \<Rightarrow> node"
  cqe_next :: "nat \<Rightarrow> node"
  cqe_prev :: "nat \<Rightarrow> node"

definition set_cqh_first :: "nat \<Rightarrow> node \<Rightarrow> cheap \<Rightarrow> cheap" where
  "set_cqh_first h n C = C\<lparr>cqh_first := (cqh_first C)(h := n)\<rparr>"

definition set_cqh_last :: "nat \<Rightarrow> node \<Rightarrow> cheap \<Rightarrow> cheap" where
  "set_cqh_last h n C = C\<lparr>cqh_last := (cqh_last C)(h := n)\<rparr>"

definition set_cqe_next :: "nat \<Rightarrow> node \<Rightarrow> cheap \<Rightarrow> cheap" where
  "set_cqe_next e n C = C\<lparr>cqe_next := (cqe_next C)(e := n)\<rparr>"

definition set_cqe_prev :: "nat \<Rightarrow> node \<Rightarrow> cheap \<Rightarrow> cheap" where
  "set_cqe_prev e n C = C\<lparr>cqe_prev := (cqe_prev C)(e := n)\<rparr>"

text \<open>\<open>p->field\<close> for a pointer \<open>p\<close> that has to be an element.\<close>

fun as_elem :: "node \<Rightarrow> nat option" where
  "as_elem (Elem e) = Some e"
| "as_elem (CHead h) = None"

definition CIRCLEQ_INIT :: "nat \<Rightarrow> cheap \<Rightarrow> cheap" where
  "CIRCLEQ_INIT head C =
     (let C = set_cqh_first head (CHead head) C
      in set_cqh_last head (CHead head) C)"

definition CIRCLEQ_INSERT_AFTER :: "nat \<Rightarrow> nat \<Rightarrow> nat \<Rightarrow> cheap \<Rightarrow> cheap option" where
  "CIRCLEQ_INSERT_AFTER head listelm elm C = do {
     let C = set_cqe_next elm (cqe_next C listelm) C;
     let C = set_cqe_prev elm (Elem listelm) C;
     C \<leftarrow> (if cqe_next C listelm = CHead head then Some (set_cqh_last head (Elem elm) C)
           else do { n \<leftarrow> as_elem (cqe_next C listelm); Some (set_cqe_prev n (Elem elm) C) });
     Some (set_cqe_next listelm (Elem elm) C) }"

definition CIRCLEQ_INSERT_BEFORE :: "nat \<Rightarrow> nat \<Rightarrow> nat \<Rightarrow> cheap \<Rightarrow> cheap option" where
  "CIRCLEQ_INSERT_BEFORE head listelm elm C = do {
     let C = set_cqe_next elm (Elem listelm) C;
     let C = set_cqe_prev elm (cqe_prev C listelm) C;
     C \<leftarrow> (if cqe_prev C listelm = CHead head then Some (set_cqh_first head (Elem elm) C)
           else do { n \<leftarrow> as_elem (cqe_prev C listelm); Some (set_cqe_next n (Elem elm) C) });
     Some (set_cqe_prev listelm (Elem elm) C) }"

definition CIRCLEQ_INSERT_HEAD :: "nat \<Rightarrow> nat \<Rightarrow> cheap \<Rightarrow> cheap option" where
  "CIRCLEQ_INSERT_HEAD head elm C = do {
     let C = set_cqe_next elm (cqh_first C head) C;
     let C = set_cqe_prev elm (CHead head) C;
     C \<leftarrow> (if cqh_last C head = CHead head then Some (set_cqh_last head (Elem elm) C)
           else do { n \<leftarrow> as_elem (cqh_first C head); Some (set_cqe_prev n (Elem elm) C) });
     Some (set_cqh_first head (Elem elm) C) }"

definition CIRCLEQ_INSERT_TAIL :: "nat \<Rightarrow> nat \<Rightarrow> cheap \<Rightarrow> cheap option" where
  "CIRCLEQ_INSERT_TAIL head elm C = do {
     let C = set_cqe_next elm (CHead head) C;
     let C = set_cqe_prev elm (cqh_last C head) C;
     C \<leftarrow> (if cqh_first C head = CHead head then Some (set_cqh_first head (Elem elm) C)
           else do { n \<leftarrow> as_elem (cqh_last C head); Some (set_cqe_next n (Elem elm) C) });
     Some (set_cqh_last head (Elem elm) C) }"

definition CIRCLEQ_REMOVE :: "nat \<Rightarrow> nat \<Rightarrow> cheap \<Rightarrow> cheap option" where
  "CIRCLEQ_REMOVE head elm C = do {
     C \<leftarrow> (if cqe_next C elm = CHead head then Some (set_cqh_last head (cqe_prev C elm) C)
           else do { n \<leftarrow> as_elem (cqe_next C elm); Some (set_cqe_prev n (cqe_prev C elm) C) });
     (if cqe_prev C elm = CHead head then Some (set_cqh_first head (cqe_next C elm) C)
      else do { n \<leftarrow> as_elem (cqe_prev C elm); Some (set_cqe_next n (cqe_next C elm) C) }) }"

text \<open>The loops run until they meet the head again.\<close>

partial_function (option) circ_walk :: "(nat \<Rightarrow> node) \<Rightarrow> nat \<Rightarrow> node \<Rightarrow> nat list option" where
  "circ_walk step head var =
     (if var = CHead head then Some []
      else Option.bind (as_elem var) (\<lambda>e.
        Option.bind (circ_walk step head (step e)) (\<lambda>es. Some (e # es))))"

definition CIRCLEQ_FOREACH :: "nat \<Rightarrow> cheap \<Rightarrow> nat list option" where
  "CIRCLEQ_FOREACH head C = circ_walk (cqe_next C) head (cqh_first C head)"

definition CIRCLEQ_FOREACH_REVERSE :: "nat \<Rightarrow> cheap \<Rightarrow> nat list option" where
  "CIRCLEQ_FOREACH_REVERSE head C = circ_walk (cqe_prev C) head (cqh_last C head)"

definition CIRCLEQ_EMPTY :: "nat \<Rightarrow> cheap \<Rightarrow> bool" where
  "CIRCLEQ_EMPTY head C \<longleftrightarrow> cqh_first C head = CHead head"

definition CIRCLEQ_FIRST :: "nat \<Rightarrow> cheap \<Rightarrow> node" where
  "CIRCLEQ_FIRST head C = cqh_first C head"

definition CIRCLEQ_LAST :: "nat \<Rightarrow> cheap \<Rightarrow> node" where
  "CIRCLEQ_LAST head C = cqh_last C head"

definition CIRCLEQ_NEXT :: "nat \<Rightarrow> cheap \<Rightarrow> node" where
  "CIRCLEQ_NEXT elm C = cqe_next C elm"

definition CIRCLEQ_PREV :: "nat \<Rightarrow> cheap \<Rightarrow> node" where
  "CIRCLEQ_PREV elm C = cqe_prev C elm"

definition CIRCLEQ_LOOP_NEXT :: "nat \<Rightarrow> nat \<Rightarrow> cheap \<Rightarrow> node" where
  "CIRCLEQ_LOOP_NEXT head elm C =
     (if cqe_next C elm = CHead head then cqh_first C head else cqe_next C elm)"

definition CIRCLEQ_LOOP_PREV :: "nat \<Rightarrow> nat \<Rightarrow> cheap \<Rightarrow> node" where
  "CIRCLEQ_LOOP_PREV head elm C =
     (if cqe_prev C elm = CHead head then cqh_last C head else cqe_prev C elm)"

text \<open>One operation of a program that uses a circular queue.\<close>

fun circleq_step :: "nat \<Rightarrow> qop \<Rightarrow> cheap \<Rightarrow> cheap option" where
  "circleq_step head (Insert_head elm) C = CIRCLEQ_INSERT_HEAD head elm C"
| "circleq_step head (Insert_tail elm) C = CIRCLEQ_INSERT_TAIL head elm C"
| "circleq_step head (Insert_after listelm elm) C = CIRCLEQ_INSERT_AFTER head listelm elm C"
| "circleq_step head (Insert_before listelm elm) C = CIRCLEQ_INSERT_BEFORE head listelm elm C"
| "circleq_step head (Remove elm) C = CIRCLEQ_REMOVE head elm C"

section \<open>Representation\<close>

fun nxt :: "cheap \<Rightarrow> node \<Rightarrow> node" where
  "nxt C (Elem e) = cqe_next C e"
| "nxt C (CHead h) = cqh_first C h"

fun prv :: "cheap \<Rightarrow> node \<Rightarrow> node" where
  "prv C (Elem e) = cqe_prev C e"
| "prv C (CHead h) = cqh_last C h"

fun cchain :: "(node \<Rightarrow> node) \<Rightarrow> node \<Rightarrow> nat list \<Rightarrow> node \<Rightarrow> bool" where
  "cchain f p [] q \<longleftrightarrow> f p = q"
| "cchain f p (x # xs) q \<longleftrightarrow> f p = Elem x \<and> cchain f (Elem x) xs q"

definition end_node :: "node \<Rightarrow> nat list \<Rightarrow> node" where
  "end_node p xs = (if xs = [] then p else Elem (last xs))"

definition circ_rep :: "cheap \<Rightarrow> nat \<Rightarrow> nat list \<Rightarrow> bool" where
  "circ_rep C h xs \<longleftrightarrow> distinct xs \<and> cchain (nxt C) (CHead h) xs (CHead h) \<and>
     cchain (prv C) (CHead h) (rev xs) (CHead h)"

lemma end_node_simps [simp]:
  "end_node p [] = p" "end_node p (xs @ [x]) = Elem x"
  "end_node p (x # xs) = end_node (Elem x) xs"
  by (simp_all add: end_node_def)

lemma end_node_in: "end_node p xs \<in> insert p (Elem ` set xs)"
  by (simp add: end_node_def)

lemma cchain_at: "cchain f p (as @ bs) q \<Longrightarrow> f (end_node p as) = (if bs = [] then q else Elem (hd bs))"
proof (induction as arbitrary: p)
  case Nil
  then show ?case by (cases bs) auto
qed simp

lemma cchain_frame:
  "cchain f p xs q \<Longrightarrow> \<forall>n \<in> insert p (Elem ` set xs). g n = f n \<Longrightarrow> cchain g p xs q"
  by (induction xs arbitrary: p) auto

lemma cchain_insert:
  assumes "cchain f p (as @ bs) q" and "distinct (as @ bs)" and "e \<notin> set (as @ bs)"
    and "p \<notin> Elem ` set (e # as @ bs)"
    and G: "g = f(end_node p as := Elem e, Elem e := f (end_node p as))"
  shows "cchain g p (as @ e # bs) q"
  using assms
proof (induction as arbitrary: p)
  case Nil
  show ?case
  proof (cases bs)
    case (Cons b bs')
    then have "cchain g (Elem b) bs' q"
      by - (rule cchain_frame [of f], use Nil.prems in auto)
    with Nil.prems Cons show ?thesis by auto
  qed (use Nil.prems in auto)
next
  case (Cons a as)
  have "p \<noteq> end_node (Elem a) as"
    using end_node_in [of "Elem a" as] Cons.prems(4) by auto
  then have "g p = f p"
    using Cons.prems(4,5) by auto
  moreover have "cchain g (Elem a) (as @ e # bs) q"
    using Cons.prems by (intro Cons.IH) auto
  ultimately show ?case
    using Cons.prems(1) by simp
qed

lemma cchain_remove:
  assumes "cchain f p (as @ e # bs) q" and "distinct (as @ e # bs)"
    and "p \<notin> Elem ` set (as @ e # bs)"
    and G: "g = f(end_node p as := f (Elem e))"
  shows "cchain g p (as @ bs) q"
  using assms
proof (induction as arbitrary: p)
  case Nil
  show ?case
  proof (cases bs)
    case (Cons b bs')
    then have "cchain g (Elem b) bs' q"
      by - (rule cchain_frame [of f], use Nil.prems in auto)
    with Nil.prems Cons show ?thesis by auto
  qed (use Nil.prems in auto)
next
  case (Cons a as)
  have "p \<noteq> end_node (Elem a) as"
    using end_node_in [of "Elem a" as] Cons.prems(3) by auto
  then have "g p = f p"
    using Cons.prems(4) by auto
  moreover have "cchain g (Elem a) (as @ bs) q"
    using Cons.prems by (intro Cons.IH) auto
  ultimately show ?case
    using Cons.prems(1) by simp
qed

lemma circ_walk_cchain:
  "cchain f p xs (CHead h) \<Longrightarrow> circ_walk (\<lambda>e. f (Elem e)) h (f p) = Some xs"
proof (induction xs arbitrary: p)
  case Nil
  then show ?case by (simp add: circ_walk.simps)
next
  case (Cons x xs)
  then show ?case by (simp add: circ_walk.simps [of _ _ "Elem x"])
qed

text \<open>
  \<open>linked C C' p e q\<close>: between the nodes \<open>p\<close> and \<open>q\<close>, the element \<open>e\<close> was linked in;
  \<open>unlinked\<close>: \<open>p\<close> and \<open>q\<close>, the neighbours of \<open>e\<close>, were joined.
\<close>

definition linked :: "cheap \<Rightarrow> cheap \<Rightarrow> node \<Rightarrow> nat \<Rightarrow> node \<Rightarrow> bool" where
  "linked C C' p e q \<longleftrightarrow>
     (\<forall>n. nxt C' n = (if n = Elem e then q else if n = p then Elem e else nxt C n)) \<and>
     (\<forall>n. prv C' n = (if n = Elem e then p else if n = q then Elem e else prv C n))"

definition unlinked :: "cheap \<Rightarrow> cheap \<Rightarrow> node \<Rightarrow> node \<Rightarrow> bool" where
  "unlinked C C' p q \<longleftrightarrow> (\<forall>n. nxt C' n = (if n = p then q else nxt C n)) \<and>
     (\<forall>n. prv C' n = (if n = q then p else prv C n))"

lemma circ_neighbours:
  assumes "circ_rep C h (as @ bs)"
  shows "nxt C (end_node (CHead h) as) = end_node (CHead h) (rev bs)"
    and "prv C (end_node (CHead h) (rev bs)) = end_node (CHead h) as"
proof -
  have first: "end_node (CHead h) (rev bs) = (if bs = [] then CHead h else Elem (hd bs))"
    by (cases bs) (simp_all add: end_node_def)
  show "nxt C (end_node (CHead h) as) = end_node (CHead h) (rev bs)"
    unfolding first using assms by (intro cchain_at) (simp add: circ_rep_def)
  have "prv C (end_node (CHead h) (rev bs)) = (if rev as = [] then CHead h else Elem (hd (rev as)))"
    using assms by (intro cchain_at) (simp add: circ_rep_def)
  then show "prv C (end_node (CHead h) (rev bs)) = end_node (CHead h) as"
    by (simp add: end_node_def hd_rev)
qed

lemma circ_rep_insert:
  assumes rep: "circ_rep C h (as @ bs)" and "e \<notin> set (as @ bs)"
    and L: "linked C C' (end_node (CHead h) as) e (end_node (CHead h) (rev bs))"
  shows "circ_rep C' h (as @ e # bs)"
proof -
  let ?p = "end_node (CHead h) as" and ?q = "end_node (CHead h) (rev bs)"
  have "nxt C' = (nxt C)(?p := Elem e, Elem e := nxt C ?p)"
    and "prv C' = (prv C)(?q := Elem e, Elem e := prv C ?q)"
    using L circ_neighbours [OF rep] by (auto simp: linked_def fun_eq_iff)
  then have "cchain (nxt C') (CHead h) (as @ e # bs) (CHead h)"
    and "cchain (prv C') (CHead h) (rev bs @ e # rev as) (CHead h)"
    using assms(1,2)
    by - (rule cchain_insert [of "nxt C"], auto simp: circ_rep_def,
        rule cchain_insert [of "prv C"], auto simp: circ_rep_def)
  then show ?thesis
    using assms(1,2) by (simp add: circ_rep_def)
qed

lemma circ_rep_remove:
  assumes rep: "circ_rep C h (as @ e # bs)"
    and U: "unlinked C C' (end_node (CHead h) as) (end_node (CHead h) (rev bs))"
  shows "circ_rep C' h (as @ bs)"
proof -
  let ?p = "end_node (CHead h) as" and ?q = "end_node (CHead h) (rev bs)"
  have "nxt C (Elem e) = ?q" "prv C (Elem e) = ?p"
    using circ_neighbours [of C h "as @ [e]" bs] circ_neighbours [of C h as "e # bs"] rep by simp_all
  then have "nxt C' = (nxt C)(?p := nxt C (Elem e))" and "prv C' = (prv C)(?q := prv C (Elem e))"
    using U by (auto simp: unlinked_def fun_eq_iff)
  then have "cchain (nxt C') (CHead h) (as @ bs) (CHead h)"
    and "cchain (prv C') (CHead h) (rev bs @ rev as) (CHead h)"
    using assms(1)
    by - (rule cchain_remove [of "nxt C" _ _ e], auto simp: circ_rep_def,
        rule cchain_remove [of "prv C" _ _ e], auto simp: circ_rep_def)
  then show ?thesis
    using assms(1) by (simp add: circ_rep_def)
qed

section \<open>The macros implement their operations\<close>

lemma cheap_fields [simp]:
  "nxt (set_cqh_first h n C) = (nxt C)(CHead h := n)" "prv (set_cqh_first h n C) = prv C"
  "nxt (set_cqh_last h n C) = nxt C" "prv (set_cqh_last h n C) = (prv C)(CHead h := n)"
  "nxt (set_cqe_next e n C) = (nxt C)(Elem e := n)" "prv (set_cqe_next e n C) = prv C"
  "nxt (set_cqe_prev e n C) = nxt C" "prv (set_cqe_prev e n C) = (prv C)(Elem e := n)"
  by (rule ext, case_tac x, auto simp: set_cqh_first_def set_cqh_last_def set_cqe_next_def
      set_cqe_prev_def)+

lemma cheap_as_nodes:
  "cqh_first C h = nxt C (CHead h)" "cqh_last C h = prv C (CHead h)"
  "cqe_next C e = nxt C (Elem e)" "cqe_prev C e = prv C (Elem e)"
  by simp_all

lemmas circ_defs = CIRCLEQ_INIT_def CIRCLEQ_INSERT_AFTER_def CIRCLEQ_INSERT_BEFORE_def
  CIRCLEQ_INSERT_HEAD_def CIRCLEQ_INSERT_TAIL_def CIRCLEQ_REMOVE_def

lemma CIRCLEQ_INIT_rep: "circ_rep (CIRCLEQ_INIT h C) h []"
  by (simp add: circ_rep_def CIRCLEQ_INIT_def Let_def del: nxt.simps prv.simps)

text \<open>
  Every insertion puts the element between a node and its successor; \<open>q\<close> is that successor,
  the head or an element.
\<close>

lemma end_node_head: "end_node (CHead h) xs = CHead h \<longleftrightarrow> xs = []"
  by (simp add: end_node_def)

lemma as_elem_end_node: "xs \<noteq> [] \<Longrightarrow> as_elem (end_node p xs) = Some (last xs)"
  by (simp add: end_node_def)

lemma end_node_last: "xs \<noteq> [] \<Longrightarrow> end_node p xs = Elem (last xs)"
  by (simp add: end_node_def)

lemma circ_rep_distinct: "circ_rep C h xs \<Longrightarrow> distinct xs"
  by (simp add: circ_rep_def)

lemma circ_insert_op:
  assumes "circ_rep C h (as @ bs)" and "e \<notin> set (as @ bs)"
    and "\<exists>C'. oper = Some C' \<and> linked C C' (end_node (CHead h) as) e (end_node (CHead h) (rev bs))"
  shows "\<exists>C'. oper = Some C' \<and> circ_rep C' h (as @ e # bs)"
  using assms circ_rep_insert by blast

lemmas circ_op_simps = cheap_as_nodes end_node_head end_node_last linked_def unlinked_def Let_def

lemma CIRCLEQ_INSERT_HEAD_rep:
  assumes rep: "circ_rep C h xs" and e: "e \<notin> set xs"
  shows "\<exists>C'. CIRCLEQ_INSERT_HEAD h e C = Some C' \<and> circ_rep C' h (e # xs)"
proof -
  have "last (rev xs) \<noteq> e" if "xs \<noteq> []"
    using that e last_in_set [of "rev xs"] by auto
  then have "\<exists>C'. CIRCLEQ_INSERT_HEAD h e C = Some C' \<and> linked C C' (end_node (CHead h) []) e
      (end_node (CHead h) (rev xs))"
    using circ_neighbours [of C h "[]" xs] circ_neighbours [of C h xs "[]"] rep
    by (cases "xs = []")
      (auto simp: CIRCLEQ_INSERT_HEAD_def circ_op_simps simp del: nxt.simps prv.simps)
  then show ?thesis
    using circ_insert_op [of C h "[]" xs e] rep e by simp
qed

lemma CIRCLEQ_INSERT_TAIL_rep:
  assumes rep: "circ_rep C h xs" and e: "e \<notin> set xs"
  shows "\<exists>C'. CIRCLEQ_INSERT_TAIL h e C = Some C' \<and> circ_rep C' h (xs @ [e])"
proof -
  have "last xs \<noteq> e" if "xs \<noteq> []"
    using that e last_in_set [of xs] by auto
  then have "\<exists>C'. CIRCLEQ_INSERT_TAIL h e C = Some C' \<and> linked C C' (end_node (CHead h) xs) e
      (end_node (CHead h) (rev []))"
    using circ_neighbours [of C h "[]" xs] circ_neighbours [of C h xs "[]"] rep
    by (cases "xs = []")
      (auto simp: CIRCLEQ_INSERT_TAIL_def circ_op_simps simp del: nxt.simps prv.simps)
  then show ?thesis
    using circ_insert_op [of C h xs "[]" e] rep e by simp
qed

lemma CIRCLEQ_INSERT_AFTER_rep:
  assumes rep: "circ_rep C h (as @ le # bs)" and e: "e \<notin> set (as @ le # bs)"
  shows "\<exists>C'. CIRCLEQ_INSERT_AFTER h le e C = Some C' \<and> circ_rep C' h (as @ le # e # bs)"
proof -
  have "last (rev bs) \<noteq> e" "last (rev bs) \<noteq> le" if "bs \<noteq> []"
    using that e circ_rep_distinct [OF rep] last_in_set [of "rev bs"] by auto
  then have "\<exists>C'. CIRCLEQ_INSERT_AFTER h le e C = Some C' \<and>
      linked C C' (end_node (CHead h) (as @ [le])) e (end_node (CHead h) (rev bs))"
    using circ_neighbours [of C h "as @ [le]" bs] rep e
    by (cases "bs = []")
      (auto simp: CIRCLEQ_INSERT_AFTER_def circ_op_simps simp del: nxt.simps prv.simps)
  then show ?thesis
    using circ_insert_op [of C h "as @ [le]" bs e] rep e by simp
qed

lemma CIRCLEQ_INSERT_BEFORE_rep:
  assumes rep: "circ_rep C h (as @ le # bs)" and e: "e \<notin> set (as @ le # bs)"
  shows "\<exists>C'. CIRCLEQ_INSERT_BEFORE h le e C = Some C' \<and> circ_rep C' h (as @ e # le # bs)"
proof -
  have "last as \<noteq> e" "last as \<noteq> le" if "as \<noteq> []"
    using that e circ_rep_distinct [OF rep] last_in_set [of as] by auto
  then have "\<exists>C'. CIRCLEQ_INSERT_BEFORE h le e C = Some C' \<and>
      linked C C' (end_node (CHead h) as) e (end_node (CHead h) (rev (le # bs)))"
    using circ_neighbours [of C h as "le # bs"] rep e
    by (cases "as = []")
      (auto simp: CIRCLEQ_INSERT_BEFORE_def circ_op_simps simp del: nxt.simps prv.simps)
  then show ?thesis
    using circ_insert_op [of C h as "le # bs" e] rep e by simp
qed

lemma CIRCLEQ_REMOVE_rep:
  assumes rep: "circ_rep C h (as @ e # bs)"
  shows "\<exists>C'. CIRCLEQ_REMOVE h e C = Some C' \<and> circ_rep C' h (as @ bs)"
proof -
  have "last (rev bs) \<noteq> e" if "bs \<noteq> []"
    using that circ_rep_distinct [OF rep] last_in_set [of "rev bs"] by auto
  moreover have "last as \<noteq> e" if "as \<noteq> []"
    using that circ_rep_distinct [OF rep] last_in_set [of as] by auto
  ultimately have "\<exists>C'. CIRCLEQ_REMOVE h e C = Some C' \<and>
      unlinked C C' (end_node (CHead h) as) (end_node (CHead h) (rev bs))"
    using circ_neighbours [of C h "as @ [e]" bs] circ_neighbours [of C h as "e # bs"] rep
    by (cases "as = []"; cases "bs = []")
      (auto simp: CIRCLEQ_REMOVE_def circ_op_simps simp del: nxt.simps prv.simps)
  then show ?thesis
    using circ_rep_remove [OF rep] by blast
qed

lemma CIRCLEQ_FOREACH_rep: "circ_rep C h xs \<Longrightarrow> CIRCLEQ_FOREACH h C = Some xs"
  using circ_walk_cchain [of "nxt C" "CHead h" xs h] by (simp add: circ_rep_def CIRCLEQ_FOREACH_def)

lemma CIRCLEQ_FOREACH_REVERSE_rep:
  "circ_rep C h xs \<Longrightarrow> CIRCLEQ_FOREACH_REVERSE h C = Some (rev xs)"
  using circ_walk_cchain [of "prv C" "CHead h" "rev xs" h]
  by (simp add: circ_rep_def CIRCLEQ_FOREACH_REVERSE_def)

lemma CIRCLEQ_LOOP_rep:
  assumes "circ_rep C h (as @ e # bs)"
  shows "CIRCLEQ_LOOP_NEXT h e C = Elem (hd (bs @ as @ [e]))"
    and "CIRCLEQ_LOOP_PREV h e C = Elem (last (e # bs @ as))"
proof -
  have "nxt C (Elem e) = end_node (CHead h) (rev bs)" "prv C (Elem e) = end_node (CHead h) as"
    "nxt C (CHead h) = end_node (CHead h) (rev (as @ e # bs))"
    "prv C (CHead h) = end_node (CHead h) (as @ e # bs)"
    using circ_neighbours [of C h "as @ [e]" bs] circ_neighbours [of C h as "e # bs"]
      circ_neighbours [of C h "[]" "as @ e # bs"] circ_neighbours [of C h "as @ e # bs" "[]"] assms
    by simp_all
  then show "CIRCLEQ_LOOP_NEXT h e C = Elem (hd (bs @ as @ [e]))"
    and "CIRCLEQ_LOOP_PREV h e C = Elem (last (e # bs @ as))"
    by (auto simp: CIRCLEQ_LOOP_NEXT_def CIRCLEQ_LOOP_PREV_def end_node_def last_rev hd_append)
qed

interpretation bsd_circleq: elem_deque circ_rep CIRCLEQ_INIT circleq_step CIRCLEQ_FOREACH
  CIRCLEQ_FOREACH_REVERSE
proof unfold_locales
  fix C :: cheap and h op xs ys
  assume rep: "circ_rep C h xs" and "spec_op op xs = Some ys"
  from this(2) show "\<exists>C'. circleq_step h op C = Some C' \<and> circ_rep C' h ys"
    using rep
    by (cases rule: spec_op_cases)
      (auto intro: CIRCLEQ_INSERT_HEAD_rep CIRCLEQ_INSERT_TAIL_rep CIRCLEQ_INSERT_AFTER_rep
        CIRCLEQ_INSERT_BEFORE_rep CIRCLEQ_REMOVE_rep)
qed (auto intro: CIRCLEQ_INIT_rep CIRCLEQ_FOREACH_rep CIRCLEQ_FOREACH_REVERSE_rep)

section \<open>Properties\<close>

text \<open>
  C24. A circular queue after \<open>CIRCLEQ_INIT\<close> and any legal sequence of the five
  operations holds the sequence that the operations describe: no operation uses the head as an
  element, and the loops, which stop when they meet the head, end in both directions.
\<close>

theorem circleq_refines_sequences:
  assumes "run_all spec_op ops [] = Some xs"
  shows "\<exists>C'. run_all (circleq_step h) ops (CIRCLEQ_INIT h C) = Some C' \<and>
    CIRCLEQ_FOREACH h C' = Some xs \<and> CIRCLEQ_FOREACH_REVERSE h C' = Some (rev xs) \<and>
    (CIRCLEQ_EMPTY h C' \<longleftrightarrow> xs = []) \<and>
    (\<forall>as e bs. xs = as @ e # bs \<longrightarrow>
       CIRCLEQ_LOOP_NEXT h e C' = Elem (hd (bs @ as @ [e])) \<and>
       CIRCLEQ_LOOP_PREV h e C' = Elem (last (e # bs @ as)))"
proof -
  obtain C' where C': "run_all (circleq_step h) ops (CIRCLEQ_INIT h C) = Some C'" "circ_rep C' h xs"
    "CIRCLEQ_FOREACH h C' = Some xs" "CIRCLEQ_FOREACH_REVERSE h C' = Some (rev xs)"
    using bsd_circleq.deque_session [OF assms] by blast
  moreover have "CIRCLEQ_EMPTY h C' \<longleftrightarrow> xs = []"
    using circ_neighbours [of C' h "[]" xs] C'(2) end_node_head [of h "rev xs"]
    by (auto simp: CIRCLEQ_EMPTY_def)
  moreover have "CIRCLEQ_LOOP_NEXT h e C' = Elem (hd (bs @ as @ [e])) \<and>
      CIRCLEQ_LOOP_PREV h e C' = Elem (last (e # bs @ as))" if "xs = as @ e # bs" for as e bs
    using CIRCLEQ_LOOP_rep [of C' h as e bs] C'(2) that by blast
  ultimately show ?thesis
    by blast
qed

theorem circleq_refines_sequences_witness:
  "\<exists>C'. run_all (circleq_step 0) [Insert_tail 1, Insert_tail 2, Insert_before 1 3, Remove 1]
      (CIRCLEQ_INIT 0 \<lparr>cqh_first = (\<lambda>_. Elem 8), cqh_last = (\<lambda>_. Elem 8),
        cqe_next = (\<lambda>_. Elem 8), cqe_prev = (\<lambda>_. Elem 8)\<rparr>) = Some C' \<and>
    CIRCLEQ_FOREACH 0 C' = Some [3, 2] \<and> CIRCLEQ_FOREACH_REVERSE 0 C' = Some [2, 3]"
  using circleq_refines_sequences [of "[Insert_tail 1, Insert_tail 2, Insert_before 1 3, Remove 1]"
      "[3, 2]" 0 "\<lparr>cqh_first = (\<lambda>_. Elem 8), cqh_last = (\<lambda>_. Elem 8),
        cqe_next = (\<lambda>_. Elem 8), cqe_prev = (\<lambda>_. Elem 8)\<rparr>"]
  by auto

end
