(* ===== verification/C_Stdio.thy ===== *)
theory C_Stdio
  imports Prelude
begin

text \<open>
  The part of the C standard library that the programs at the root of the repository use:
  the \<open>%d\<close> conversions of \<open>scanf\<close> and \<open>printf\<close> on a character stream, with \<open>int\<close> of 32 bits.

  \<open>scan_int\<close> is one \<open>%d\<close> directive: it skips white space, then matches an optional sign and
  a non-empty sequence of decimal digits. Its failures (end of input, no match, a value
  that \<open>int\<close> cannot represent, for which the behaviour is undefined) are values.
  \<open>print_int\<close> is the \<open>%d\<close> conversion of \<open>printf\<close>. Scanning a printed number gives the
  number back (\<open>scan_print_int\<close>).
\<close>

abbreviation INT_MIN :: int where "INT_MIN \<equiv> - (2 ^ 31)"
abbreviation INT_MAX :: int where "INT_MAX \<equiv> 2 ^ 31 - 1"

definition is_int :: "int \<Rightarrow> bool" where
  "is_int n \<longleftrightarrow> INT_MIN \<le> n \<and> n \<le> INT_MAX"

section \<open>Characters\<close>

definition isspace :: "char \<Rightarrow> bool" where
  "isspace c \<longleftrightarrow> c \<in> {CHR 0x20, CHR 0x09, CHR 0x0A, CHR 0x0B, CHR 0x0C, CHR 0x0D}"

definition isdigit :: "char \<Rightarrow> bool" where
  "isdigit c \<longleftrightarrow> 48 \<le> (of_char c :: nat) \<and> (of_char c :: nat) \<le> 57"

definition digit_value :: "char \<Rightarrow> nat" where
  "digit_value c = of_char c - 48"

definition digit_char :: "nat \<Rightarrow> char" where
  "digit_char d = char_of (48 + d)"

section \<open>Scanning\<close>

datatype scan = Matched int string | Match_failure string | Input_failure | Not_representable

definition skip_space :: "string \<Rightarrow> string" where
  "skip_space s = dropWhile isspace s"

definition digits_value :: "string \<Rightarrow> nat" where
  "digits_value ds = foldl (\<lambda>acc c. 10 * acc + digit_value c) 0 ds"

fun split_sign :: "string \<Rightarrow> bool \<times> string" where
  "split_sign (c # s) =
     (if c = CHR ''-'' then (True, s) else if c = CHR ''+'' then (False, s) else (False, c # s))"
| "split_sign [] = (False, [])"

definition scan_int :: "string \<Rightarrow> scan" where
  "scan_int input =
     (let s = skip_space input in
      if s = [] then Input_failure
      else let (neg, s) = split_sign s;
               ds = takeWhile isdigit s;
               v = (if neg then - int (digits_value ds) else int (digits_value ds))
           in if ds = [] then Match_failure s
              else if is_int v then Matched v (dropWhile isdigit s)
              else Not_representable)"

section \<open>Printing\<close>

fun nat_digits :: "nat \<Rightarrow> string" where
  "nat_digits n =
     (if n < 10 then [digit_char n] else nat_digits (n div 10) @ [digit_char (n mod 10)])"

declare nat_digits.simps [simp del]

definition print_int :: "int \<Rightarrow> string" where
  "print_int n = (if n < 0 then CHR ''-'' # nat_digits (nat (- n)) else nat_digits (nat n))"

section \<open>Scanning what was printed\<close>

lemma digit_char_props:
  assumes "d < 10"
  shows "isdigit (digit_char d)" and "digit_value (digit_char d) = d"
proof -
  have "of_char (digit_char d) = 48 + d"
    using assms by (simp add: digit_char_def)
  then show "isdigit (digit_char d)" and "digit_value (digit_char d) = d"
    using assms by (simp_all add: isdigit_def digit_value_def)
qed

lemma nat_digits_isdigit: "\<forall>c \<in> set (nat_digits n). isdigit c"
proof (induction n rule: nat_digits.induct)
  case (1 n)
  then show ?case
    by (simp add: nat_digits.simps [of n] digit_char_props ball_Un)
qed

lemma nat_digits_nonempty [simp]: "nat_digits n \<noteq> []"
  by (simp add: nat_digits.simps [of n])

lemma digits_value_snoc: "digits_value (ds @ [c]) = 10 * digits_value ds + digit_value c"
  by (simp add: digits_value_def)

lemma digits_value_nat_digits [simp]: "digits_value (nat_digits n) = n"
proof (induction n rule: nat_digits.induct)
  case (1 n)
  show ?case
  proof (cases "n < 10")
    case True
    then show ?thesis
      by (simp add: nat_digits.simps [of n] digits_value_def digit_char_props)
  next
    case False
    with 1 show ?thesis
      by (simp add: nat_digits.simps [of n] digits_value_snoc digit_char_props)
  qed
qed

lemma isdigit_not_special: "isdigit c \<Longrightarrow> \<not> isspace c \<and> c \<noteq> CHR ''-'' \<and> c \<noteq> CHR ''+''"
  by (auto simp: isdigit_def isspace_def)

definition ends_number :: "string \<Rightarrow> bool" where
  "ends_number rest \<longleftrightarrow> (case rest of [] \<Rightarrow> True | c # _ \<Rightarrow> \<not> isdigit c)"

lemma takeWhile_digits:
  assumes "\<forall>c \<in> set ds. isdigit c" and "ends_number rest"
  shows "takeWhile isdigit (ds @ rest) = ds" and "dropWhile isdigit (ds @ rest) = rest"
  using assms by (auto simp: ends_number_def takeWhile_append2 dropWhile_append2 split: list.splits)

lemma skip_space_append:
  "list_all isspace sp \<Longrightarrow> skip_space (sp @ s) = skip_space s"
  by (simp add: skip_space_def dropWhile_append2 list_all_iff)

lemma scan_print_int:
  assumes "is_int n" and "ends_number rest" and "list_all isspace sp"
  shows "scan_int (sp @ print_int n @ rest) = Matched n rest"
proof -
  let ?ds = "nat_digits (nat \<bar>n\<bar>)"
  obtain c cs where ds: "?ds = c # cs" and c: "isdigit c"
    using nat_digits_isdigit [of "nat \<bar>n\<bar>"] by (cases ?ds) auto
  note tw = takeWhile_digits [OF nat_digits_isdigit assms(2)]
  show ?thesis
  proof (cases "n < 0")
    case True
    then have "print_int n = CHR ''-'' # ?ds"
      by (simp add: print_int_def)
    with True assms tw show ?thesis
      by (simp add: scan_int_def skip_space_append) (simp add: skip_space_def isspace_def)
  next
    case False
    then have "print_int n = ?ds"
      by (simp add: print_int_def)
    moreover have "split_sign (?ds @ rest) = (False, ?ds @ rest)"
      using c isdigit_not_special by (simp add: ds)
    moreover have "skip_space (?ds @ rest) = ?ds @ rest"
      using c isdigit_not_special by (simp add: ds skip_space_def)
    ultimately show ?thesis
      using False assms tw by (simp add: scan_int_def skip_space_append)
  qed
qed

text \<open>Printing is injective, so a printed number determines the number.\<close>

lemma print_int_inject:
  assumes "is_int m" and "is_int n"
  shows "print_int m = print_int n \<longleftrightarrow> m = n"
proof
  assume "print_int m = print_int n"
  moreover have "scan_int (print_int k) = Matched k []" if "is_int k" for k
    using scan_print_int [of k "[]" "[]"] that by (simp add: ends_number_def)
  ultimately show "m = n"
    using assms by (metis scan.inject(1))
qed simp

end
