(* ===== verification/Programs.thy ===== *)
theory Programs
  imports C_Stdio
begin

text \<open>
  The two programs at the root of the repository: \<^verbatim>\<open>add.c\<close>, which reads two numbers and
  prints their sum, and \<^verbatim>\<open>hello.c\<close>.

  \<open>main_add\<close> is \<open>main\<close> of \<^verbatim>\<open>add.c\<close> as a function from the standard input to its outcome. The
  variables \<open>a\<close> and \<open>b\<close> start indeterminate (\<open>None\<close>), \<open>scanf\<close> stores what it matched and its
  result is not looked at, as in the code; using an indeterminate variable and signed
  overflow are undefined behaviour, a value of the outcome type.

  For \<^verbatim>\<open>hello.c\<close> the model is of the text: the file is one line, whose \<open>\n\<close> is not a line
  break but a backslash and a letter. A line that starts with \<open>#\<close> is a preprocessing
  directive up to the line break, so that nothing of the file is left as program text.
\<close>

section \<open>add.c\<close>

datatype undefined_behaviour = Indeterminate_value | Signed_overflow | Scanned_out_of_range

datatype outcome = Exits int string | Undefined undefined_behaviour

record add_vars =
  var_a :: "int option"
  var_b :: "int option"

text \<open>
  \<open>scanf("%d %d", &a, &b)\<close>: a directive that fails ends the call, and what was stored
  before stays.
\<close>

definition scanf_two :: "string \<Rightarrow> add_vars \<Rightarrow> undefined_behaviour + add_vars" where
  "scanf_two input v = (case scan_int input of
       Matched n rest \<Rightarrow>
         let v = v\<lparr>var_a := Some n\<rparr> in
         (case scan_int (skip_space rest) of
            Matched m _ \<Rightarrow> Inr (v\<lparr>var_b := Some m\<rparr>)
          | Not_representable \<Rightarrow> Inl Scanned_out_of_range
          | _ \<Rightarrow> Inr v)
     | Not_representable \<Rightarrow> Inl Scanned_out_of_range
     | _ \<Rightarrow> Inr v)"

text \<open>\<open>a + b\<close> on \<open>int\<close> operands that may be indeterminate.\<close>

definition int_add :: "int option \<Rightarrow> int option \<Rightarrow> undefined_behaviour + int" where
  "int_add x y = (case (x, y) of
       (Some m, Some n) \<Rightarrow> if is_int (m + n) then Inr (m + n) else Inl Signed_overflow
     | _ \<Rightarrow> Inl Indeterminate_value)"

definition main_add :: "string \<Rightarrow> outcome" where
  "main_add input =
     (let out = ''Enter two numbers: '' in
      case scanf_two input \<lparr>var_a = None, var_b = None\<rparr> of
        Inl u \<Rightarrow> Undefined u
      | Inr v \<Rightarrow>
          (case int_add (var_a v) (var_b v) of
             Inl u \<Rightarrow> Undefined u
           | Inr total_sum \<Rightarrow> Exits 0 (out @ ''Sum: '' @ print_int total_sum @ [CHR 0x0A])))"

section \<open>hello.c\<close>

text \<open>The characters of the file, and the physical lines of a text.\<close>

definition hello_c :: string where
  "hello_c = ''#include <stdio.h>'' @ [CHR 0x5C, CHR ''n''] @ ''int main() { printf('' @
     [CHR 0x22] @ ''Hello, World!'' @ [CHR 0x5C, CHR 0x5C, CHR ''n'', CHR 0x22] @
     ''); return 0; }'' @ [CHR 0x0A]"

fun text_lines :: "string \<Rightarrow> string list" where
  "text_lines [] = []"
| "text_lines (c # s) =
     (if c = CHR 0x0A then [] # text_lines s
      else case text_lines s of [] \<Rightarrow> [[c]] | l # ls \<Rightarrow> (c # l) # ls)"

text \<open>A directive is a line whose first character that is not white space is \<open>#\<close>.\<close>

definition is_directive :: "string \<Rightarrow> bool" where
  "is_directive l \<longleftrightarrow> (case dropWhile isspace l of c # _ \<Rightarrow> c = CHR 0x23 | [] \<Rightarrow> False)"

definition program_text :: "string \<Rightarrow> string list" where
  "program_text s = filter (\<lambda>l. \<not> is_directive l) (text_lines s)"

section \<open>Correctness\<close>

text \<open>\<open>scanf\<close> of two numbers in decimal, of one number, and of no number.\<close>

lemma ends_number_space:
  "list_all isspace sp \<Longrightarrow> sp \<noteq> [] \<Longrightarrow> ends_number (sp @ rest)"
  using isdigit_not_special by (cases sp) (auto simp: ends_number_def)

lemma scan_skip_space: "scan_int (skip_space s) = scan_int s"
  by (simp add: scan_int_def skip_space_def)

lemma scan_space: "list_all isspace sp \<Longrightarrow> scan_int sp = Input_failure"
  using skip_space_append [of sp "[]"] by (simp add: scan_int_def) (simp add: skip_space_def)

lemma scanf_two_numbers:
  assumes "is_int x" and "is_int y"
    and "list_all isspace before" and "list_all isspace between" and "between \<noteq> []"
    and "ends_number after"
  shows "scanf_two (before @ print_int x @ between @ print_int y @ after) v =
    Inr (v\<lparr>var_a := Some x, var_b := Some y\<rparr>)"
  using scan_print_int [OF assms(1) ends_number_space [OF assms(4,5)] assms(3)]
    scan_print_int [OF assms(2,6,4)]
  by (simp add: scanf_two_def scan_skip_space)

lemma scanf_one_number:
  assumes "is_int x" and "list_all isspace before" and "list_all isspace after"
  shows "scanf_two (before @ print_int x @ after) v = Inr (v\<lparr>var_a := Some x\<rparr>)"
proof -
  have "ends_number after"
    using ends_number_space [OF assms(3), of "[]"] by (cases after) (auto simp: ends_number_def)
  from scan_print_int [OF assms(1) this assms(2)] scan_space [OF assms(3)] show ?thesis
    by (simp add: scanf_two_def scan_skip_space)
qed

lemma scanf_no_number:
  assumes "list_all isspace before" and "\<not> isspace c" and "\<not> isdigit c"
    and "c \<noteq> CHR ''-''" and "c \<noteq> CHR ''+''"
  shows "scanf_two (before @ c # rest) v = Inr v"
  using skip_space_append [OF assms(1), of "c # rest"] assms(2-)
  by (simp add: scanf_two_def scan_int_def) (simp add: skip_space_def)

lemma main_add_sum:
  assumes "is_int x" and "is_int y" and "is_int (x + y)"
    and "list_all isspace before" and "list_all isspace between" and "between \<noteq> []"
    and "ends_number after"
  shows "main_add (before @ print_int x @ between @ print_int y @ after) =
    Exits 0 (''Enter two numbers: Sum: '' @ print_int (x + y) @ [CHR 0x0A])"
  using assms(3) scanf_two_numbers [OF assms(1,2,4-)] by (simp add: main_add_def int_add_def)

lemma hello_single_line: "text_lines hello_c = [butlast hello_c]"
  by (simp add: hello_c_def)

lemma hello_empty: "program_text hello_c = []"
  by code_simp

section \<open>Properties\<close>

text \<open>
  C39. Given two numbers separated by white space, whose values and sum an int can represent,
  main of add.c prints the prompt and their sum in decimal, and exits with status 0.
\<close>

theorem add_prints_sum:
  assumes "is_int x" and "is_int y" and "is_int (x + y)"
    and "list_all isspace before" and "list_all isspace between" and "between \<noteq> []"
    and "ends_number after"
  shows "main_add (before @ print_int x @ between @ print_int y @ after) =
    Exits 0 (''Enter two numbers: Sum: '' @ print_int (x + y) @ [CHR 0x0A])"
  using assms by (rule main_add_sum)

theorem add_prints_sum_witness:
  "main_add (print_int 2 @ '' '' @ print_int (- 7)) =
     Exits 0 (''Enter two numbers: Sum: '' @ print_int (- 5) @ [CHR 0x0A])"
  using add_prints_sum [of 2 "- 7" "[]" "'' ''" "[]"]
  by (simp add: is_int_def isspace_def ends_number_def)



end
