(* ===== verification/Gmp_Limbs.thy ===== *)
theory Gmp_Limbs
  imports Prelude
begin

text \<open>
  The limb arithmetic that \<^verbatim>\<open>gmp-32.h\<close> defines inline: the macros \<open>__GMPN_*\<close> and the \<open>mpn_*\<close>
  functions made of them. A limb is an \<open>unsigned long\<close> of 32 bits, there are no nail bits.

  Memory is a partial map from addresses (counted in limbs) to limbs; reading or writing an
  address without a limb is undefined (\<open>None\<close>). A natural number is an array of limbs, least
  significant first (\<open>nval\<close>). The functions work in place or on separate arrays, which the
  comments require (\<open>MPN_SAME_OR_SEPARATE_P\<close>) and \<open>operand\<close> states; both cases are covered by
  the same lemmas. Sizes and indices are integers: they count limbs of one array, so that
  \<open>mp_size_t\<close> cannot overflow.

  \<open>mpn_add_n\<close>, \<open>mpn_sub_n\<close> and \<open>mpn_com\<close> are functions of the library whose code is not here.
  They are parameters, and the predicates \<open>mpn_add_n_spec\<close>, \<open>mpn_sub_n_spec\<close> and
  \<open>mpn_com_spec\<close> are their documented behaviour.
\<close>

section \<open>Memory\<close>

type_synonym limb = u32
type_synonym mem = "int \<rightharpoonup> u32"

definition st :: "int \<Rightarrow> limb \<Rightarrow> mem \<Rightarrow> mem option" where
  "st a v M = (if M a = None then None else Some (M(a \<mapsto> v)))"

definition GMP_NAIL_BITS :: nat where
  "GMP_NAIL_BITS = 0"

definition GMP_NUMB_MASK :: limb where
  "GMP_NUMB_MASK = drop_bit GMP_NAIL_BITS (NOT 0)"

section \<open>The macros\<close>

function GMPN_COPY_REST :: "int \<Rightarrow> int \<Rightarrow> int \<Rightarrow> int \<Rightarrow> mem \<Rightarrow> mem option" where
  "GMPN_COPY_REST dst src sz j M =
     (if j < sz then do {
        x \<leftarrow> M (src + j);
        M \<leftarrow> st (dst + j) x M;
        GMPN_COPY_REST dst src sz (j + 1) M }
      else Some M)"
  by pat_completeness auto
termination
  by (relation "measure (\<lambda>(dst, src, sz, j, M). nat (sz - j))") auto

text \<open>
  \<open>__GMPN_AORS\<close>: the loop after a carry, entered at index \<open>i\<close>. The macro argument \<open>TEST\<close> stores
  \<open>new x\<close> at \<open>wp[i++]\<close> and then tests \<open>test\<close>. \<open>None\<close> is the jump to \<open>__gmp_done\<close>, \<open>Some i\<close> the
  index after the loop.
\<close>

function GMPN_AORS_loop ::
  "(limb \<Rightarrow> limb) \<Rightarrow> (limb \<Rightarrow> limb \<Rightarrow> bool) \<Rightarrow> int \<Rightarrow> int \<Rightarrow> int \<Rightarrow> int \<Rightarrow> mem \<Rightarrow> (int option \<times> mem) option" where
  "GMPN_AORS_loop new test wp xp xsize i M =
     (if i \<ge> xsize then Some (None, M)
      else do {
        x \<leftarrow> M (xp + i);
        M \<leftarrow> st (wp + i) (new x) M;
        if test (new x) x then GMPN_AORS_loop new test wp xp xsize (i + 1) M
        else Some (Some (i + 1), M) })"
  by pat_completeness auto
termination
  by (relation "measure (\<lambda>(new, test, wp, xp, xsize, i, M). nat (xsize - i))") auto

definition GMPN_AORS ::
  "(limb \<Rightarrow> limb) \<Rightarrow> (limb \<Rightarrow> limb \<Rightarrow> bool) \<Rightarrow> (int \<Rightarrow> int \<Rightarrow> int \<Rightarrow> int \<Rightarrow> mem \<Rightarrow> (limb \<times> mem) option) \<Rightarrow>
   int \<Rightarrow> int \<Rightarrow> int \<Rightarrow> int \<Rightarrow> int \<Rightarrow> mem \<Rightarrow> (limb \<times> mem) option" where
  "GMPN_AORS new test func wp xp xsize yp ysize M = do {
     let i = ysize;
     (left, M) \<leftarrow>
       (if i \<noteq> 0 then do {
          (c, M) \<leftarrow> func wp xp yp i M;
          if c \<noteq> 0 then GMPN_AORS_loop new test wp xp xsize i M else Some (Some i, M) }
        else Some (Some i, M));
     (case left of
        None \<Rightarrow> Some (1, M)
      | Some i \<Rightarrow> do {
          M \<leftarrow> (if wp \<noteq> xp then GMPN_COPY_REST wp xp xsize i M else Some M);
          Some (0, M) }) }"

text \<open>\<open>__GMPN_AORS_1\<close>, with the operator \<open>OP\<close> and the carry test \<open>CB\<close> as arguments.\<close>

function GMPN_AORS_1_loop ::
  "(limb \<Rightarrow> limb \<Rightarrow> limb) \<Rightarrow> (limb \<Rightarrow> limb \<Rightarrow> limb \<Rightarrow> bool) \<Rightarrow> int \<Rightarrow> int \<Rightarrow> int \<Rightarrow> int \<Rightarrow> mem \<Rightarrow>
   (limb \<times> mem) option" where
  "GMPN_AORS_1_loop oper cb dst src n i M =
     (if i < n then do {
        x \<leftarrow> M (src + i);
        let r = oper x 1;
        M \<leftarrow> st (dst + i) r M;
        let i = i + 1;
        if \<not> cb r x 1 then do {
          M \<leftarrow> (if src \<noteq> dst then GMPN_COPY_REST dst src n i M else Some M);
          Some (0, M) }
        else GMPN_AORS_1_loop oper cb dst src n i M }
      else Some (1, M))"
  by pat_completeness auto
termination
  by (relation "measure (\<lambda>(oper, cb, dst, src, n, i, M). nat (n - i))") auto

definition GMPN_AORS_1 ::
  "(limb \<Rightarrow> limb \<Rightarrow> limb) \<Rightarrow> (limb \<Rightarrow> limb \<Rightarrow> limb \<Rightarrow> bool) \<Rightarrow> int \<Rightarrow> int \<Rightarrow> int \<Rightarrow> limb \<Rightarrow> mem \<Rightarrow>
   (limb \<times> mem) option" where
  "GMPN_AORS_1 oper cb dst src n v M = do {
     x \<leftarrow> M (src + 0);
     let r = oper x v;
     M \<leftarrow> st (dst + 0) r M;
     if cb r x v then GMPN_AORS_1_loop oper cb dst src n 1 M
     else do {
       M \<leftarrow> (if src \<noteq> dst then GMPN_COPY_REST dst src n 1 M else Some M);
       Some (0, M) } }"

definition GMPN_ADDCB :: "limb \<Rightarrow> limb \<Rightarrow> limb \<Rightarrow> bool" where
  "GMPN_ADDCB r x y \<longleftrightarrow> r < y"

definition GMPN_SUBCB :: "limb \<Rightarrow> limb \<Rightarrow> limb \<Rightarrow> bool" where
  "GMPN_SUBCB r x y \<longleftrightarrow> x < y"

text \<open>\<open>__GMPN_CMP\<close>: the loop decrements the index before it tests it.\<close>

function GMPN_CMP :: "int \<Rightarrow> int \<Rightarrow> int \<Rightarrow> mem \<Rightarrow> int option" where
  "GMPN_CMP xp yp i M =
     (if i - 1 \<ge> 0 then do {
        x \<leftarrow> M (xp + (i - 1));
        y \<leftarrow> M (yp + (i - 1));
        if x \<noteq> y then Some (if x > y then 1 else - 1)
        else GMPN_CMP xp yp (i - 1) M }
      else Some 0)"
  by pat_completeness auto
termination
  by (relation "measure (\<lambda>(xp, yp, i, M). nat i)") auto

declare GMPN_COPY_REST.simps [simp del] GMPN_AORS_loop.simps [simp del]
  GMPN_AORS_1_loop.simps [simp del] GMPN_CMP.simps [simp del]

section \<open>The functions\<close>

definition mpn_add ::
  "(int \<Rightarrow> int \<Rightarrow> int \<Rightarrow> int \<Rightarrow> mem \<Rightarrow> (limb \<times> mem) option) \<Rightarrow>
   int \<Rightarrow> int \<Rightarrow> int \<Rightarrow> int \<Rightarrow> int \<Rightarrow> mem \<Rightarrow> (limb \<times> mem) option" where
  "mpn_add mpn_add_n = GMPN_AORS (\<lambda>x. (x + 1) AND GMP_NUMB_MASK) (\<lambda>r x. r = 0) mpn_add_n"

definition mpn_add_1 :: "int \<Rightarrow> int \<Rightarrow> int \<Rightarrow> limb \<Rightarrow> mem \<Rightarrow> (limb \<times> mem) option" where
  "mpn_add_1 = GMPN_AORS_1 (+) GMPN_ADDCB"

definition mpn_cmp :: "int \<Rightarrow> int \<Rightarrow> int \<Rightarrow> mem \<Rightarrow> int option" where
  "mpn_cmp xp yp sz M = GMPN_CMP xp yp sz M"

partial_function (option) mpn_zero_p :: "int \<Rightarrow> int \<Rightarrow> mem \<Rightarrow> int option" where
  "mpn_zero_p p n M =
     Option.bind (M (p + (n - 1))) (\<lambda>x.
       if x \<noteq> 0 then Some 0
       else if n - 1 \<noteq> 0 then mpn_zero_p p (n - 1) M
       else Some 1)"

definition mpn_sub ::
  "(int \<Rightarrow> int \<Rightarrow> int \<Rightarrow> int \<Rightarrow> mem \<Rightarrow> (limb \<times> mem) option) \<Rightarrow>
   int \<Rightarrow> int \<Rightarrow> int \<Rightarrow> int \<Rightarrow> int \<Rightarrow> mem \<Rightarrow> (limb \<times> mem) option" where
  "mpn_sub mpn_sub_n = GMPN_AORS (\<lambda>x. (x - 1) AND GMP_NUMB_MASK) (\<lambda>r x. x = 0) mpn_sub_n"

definition mpn_sub_1 :: "int \<Rightarrow> int \<Rightarrow> int \<Rightarrow> limb \<Rightarrow> mem \<Rightarrow> (limb \<times> mem) option" where
  "mpn_sub_1 = GMPN_AORS_1 (-) GMPN_SUBCB"

text \<open>\<open>mpn_neg\<close> is one loop over the low zero limbs, then the negated limb and the complements.\<close>

partial_function (option) mpn_neg ::
  "(int \<Rightarrow> int \<Rightarrow> int \<Rightarrow> mem \<Rightarrow> mem option) \<Rightarrow> int \<Rightarrow> int \<Rightarrow> int \<Rightarrow> mem \<Rightarrow> (limb \<times> mem) option" where
  "mpn_neg mpn_com rp up n M =
     Option.bind (M up) (\<lambda>x.
       if x = 0 then
         Option.bind (st rp 0 M) (\<lambda>M.
           if n - 1 = 0 then Some (0, M)
           else mpn_neg mpn_com (rp + 1) (up + 1) (n - 1) M)
       else
         Option.bind (st rp ((- x) AND GMP_NUMB_MASK) M) (\<lambda>M.
           Option.bind (if n - 1 \<noteq> 0 then mpn_com (rp + 1) (up + 1) (n - 1) M else Some M) (\<lambda>M.
             Some (1, M))))"

section \<open>Arrays of limbs\<close>

primrec nval :: "limb list \<Rightarrow> int" where
  "nval [] = 0"
| "nval (x # xs) = uint x + 2 ^ 32 * nval xs"

definition holds :: "mem \<Rightarrow> int \<Rightarrow> limb list \<Rightarrow> bool" where
  "holds M p xs \<longleftrightarrow> (\<forall>i < length xs. M (p + int i) = Some (xs ! i))"

definition room :: "mem \<Rightarrow> int \<Rightarrow> nat \<Rightarrow> bool" where
  "room M p n \<longleftrightarrow> (\<forall>i < n. M (p + int i) \<noteq> None)"

definition put :: "int \<Rightarrow> limb list \<Rightarrow> mem \<Rightarrow> mem" where
  "put p xs M = (\<lambda>a. if p \<le> a \<and> a < p + int (length xs) then Some (xs ! nat (a - p)) else M a)"

definition apart :: "int \<Rightarrow> nat \<Rightarrow> int \<Rightarrow> nat \<Rightarrow> bool" where
  "apart p m q n \<longleftrightarrow> p + int m \<le> q \<or> q + int n \<le> p"

text \<open>The array at \<open>src\<close> holds \<open>xs\<close>, and the result at \<open>dst\<close> has the same place or another one.\<close>

definition operand :: "mem \<Rightarrow> int \<Rightarrow> int \<Rightarrow> limb list \<Rightarrow> bool" where
  "operand M dst src xs \<longleftrightarrow> holds M src xs \<and> room M dst (length xs) \<and>
     (dst = src \<or> apart dst (length xs) src (length xs))"

lemma nval_nonneg [simp]: "0 \<le> nval xs"
  by (induction xs) auto

lemma nval_append [simp]: "nval (xs @ ys) = nval xs + 2 ^ (32 * length xs) * nval ys"
  by (induction xs) (auto simp: algebra_simps power_add)

lemma nval_less: "nval xs < 2 ^ (32 * length xs)"
proof (induction xs)
  case (Cons x xs)
  have "uint x < 2 ^ 32"
    using uint_lt2p [of x] by simp
  moreover have "2 ^ 32 * (nval xs + 1) \<le> 2 ^ 32 * 2 ^ (32 * length xs)"
    using Cons by (intro mult_left_mono) auto
  ultimately show ?case
    by (simp add: power_add algebra_simps)
qed simp

lemma nval_inject: "length xs = length ys \<Longrightarrow> nval xs = nval ys \<longleftrightarrow> xs = ys"
proof (induction xs ys rule: list_induct2)
  case (Cons x xs y ys)
  have "nval (x # xs) mod 2 ^ 32 = uint x" "nval (y # ys) mod 2 ^ 32 = uint y"
    using uint_lt2p [of x] uint_lt2p [of y] by simp_all
  then show ?case
    using Cons.IH by (auto simp: word_uint_eq_iff)
qed simp

lemma nval_eq_0: "nval xs = 0 \<longleftrightarrow> (\<forall>x \<in> set xs. x = 0)"
proof (induction xs)
  case (Cons x xs)
  have "nval (x # xs) = 0 \<longleftrightarrow> uint x = 0 \<and> nval xs = 0"
    using nval_nonneg [of xs] uint_ge_0 [of x] by (auto simp: add_nonneg_eq_0_iff)
  then show ?case
    using Cons by (simp add: uint_0_iff)
qed simp

lemma put_Nil [simp]: "put p [] M = M"
  by (auto simp: put_def fun_eq_iff)

lemma st_put:
  assumes "room M p n" and "length zs < n"
  shows "st (p + int (length zs)) v (put p zs M) = Some (put p (zs @ [v]) M)"
proof -
  have "M (p + int (length zs)) \<noteq> None"
    using assms by (simp add: room_def)
  then show ?thesis
    by (auto simp: st_def put_def fun_eq_iff nth_append)
qed

lemma put_read:
  assumes "operand M dst src xs" and "length zs \<le> i" and "i < length xs"
  shows "put dst zs M (src + int i) = Some (xs ! i)"
  using assms by (auto simp: operand_def put_def holds_def apart_def)

lemma put_rest:
  assumes "holds M p xs" and "length zs \<le> length xs"
  shows "put p (zs @ drop (length zs) xs) M = put p zs M"
proof
  fix a
  show "put p (zs @ drop (length zs) xs) M a = put p zs M a"
  proof (cases "p + int (length zs) \<le> a \<and> a < p + int (length xs)")
    case True
    define i where "i = nat (a - p)"
    have i: "a = p + int i" "i < length xs" "length zs \<le> i"
      using True by (auto simp: i_def)
    then have "M a = Some (xs ! i)"
      using assms(1) by (simp add: holds_def)
    with i show ?thesis
      using assms(2) by (simp add: put_def nth_append)
  next
    case False
    then show ?thesis
      using assms(2) by (auto simp: put_def nth_append)
  qed
qed

lemma copy_rest:
  assumes op: "operand M dst src xs" and "length zs \<le> length xs"
  shows "GMPN_COPY_REST dst src (int (length xs)) (int (length zs)) (put dst zs M) =
    Some (put dst (zs @ drop (length zs) xs) M)"
  using assms(2)
proof (induction "length xs - length zs" arbitrary: zs)
  case 0
  then show ?case
    by (simp add: GMPN_COPY_REST.simps)
next
  case (Suc k)
  then have len: "length zs < length xs"
    by simp
  have "GMPN_COPY_REST dst src (int (length xs)) (int (length (zs @ [xs ! length zs])))
      (put dst (zs @ [xs ! length zs]) M) =
    Some (put dst ((zs @ [xs ! length zs]) @ drop (length (zs @ [xs ! length zs])) xs) M)"
    by (rule Suc.hyps(1)) (use Suc.hyps(2) len in auto)
  moreover have "st (dst + int (length zs)) (xs ! length zs) (put dst zs M) =
      Some (put dst (zs @ [xs ! length zs]) M)"
    by (rule st_put [of M dst "length xs"]) (use op len in \<open>auto simp: operand_def\<close>)
  moreover have "put dst zs M (src + int (length zs)) = Some (xs ! length zs)"
    by (rule put_read [OF op]) (use len in auto)
  ultimately show ?case
    using len Cons_nth_drop_Suc [of "length zs" xs]
    by (simp add: add.commute GMPN_COPY_REST.simps [of dst src "int (length xs)" "int (length zs)"])
qed

text \<open>What follows the part that was computed is copied, or is already there.\<close>

lemma copy_unless_same:
  assumes "operand M dst src xs" and "length zs \<le> length xs"
  shows "(if src \<noteq> dst then GMPN_COPY_REST dst src (int (length xs)) (int (length zs)) (put dst zs M)
      else Some (put dst zs M)) = Some (put dst (zs @ drop (length zs) xs) M)"
    and "(if dst \<noteq> src then GMPN_COPY_REST dst src (int (length xs)) (int (length zs)) (put dst zs M)
      else Some (put dst zs M)) = Some (put dst (zs @ drop (length zs) xs) M)"
  using copy_rest [OF assms] put_rest [of M dst xs zs] assms by (auto simp: operand_def)

section \<open>Carry propagation\<close>

text \<open>
  The specification of the loops: \<open>new\<close> is applied to limbs as long as \<open>test\<close> holds, the rest
  stays; the result is the carry and the new limbs.
\<close>

primrec ripple :: "(limb \<Rightarrow> limb) \<Rightarrow> (limb \<Rightarrow> limb \<Rightarrow> bool) \<Rightarrow> limb list \<Rightarrow> limb \<times> limb list" where
  "ripple new test [] = (1, [])"
| "ripple new test (x # xs) =
     (if test (new x) x then let (c, zs) = ripple new test xs in (c, new x # zs)
      else (0, new x # xs))"

lemma ripple_length: "length (snd (ripple new test xs)) = length xs"
  by (induction xs) (auto split: prod.splits)

lemma ripple_carry: "fst (ripple new test xs) = 0 \<or> fst (ripple new test xs) = 1"
  by (induction xs) (auto split: prod.splits)

lemma uint_add_carry: "uint (x + v) = uint x + uint v - (if x + v < v then 2 ^ 32 else 0)"
  for x v :: limb
  using uint_lt2p [of x] by (simp add: word_less_def uint_plus_if')

lemma uint_sub_borrow: "uint (x - v) = uint x - uint v + (if x < v then 2 ^ 32 else 0)"
  for x v :: limb
  by (simp add: word_less_def uint_sub_if')

lemma ripple_add:
  "nval (snd (ripple (\<lambda>x. x + 1) (\<lambda>r x. r < 1) xs)) +
     2 ^ (32 * length xs) * uint (fst (ripple (\<lambda>x. x + 1) (\<lambda>r x. r < 1) xs)) = nval xs + 1"
proof (induction xs)
  case (Cons x xs)
  then show ?case
    using uint_add_carry [of x 1]
    by (auto simp: power_add algebra_simps split: prod.splits)
qed simp

lemma ripple_sub:
  "nval (snd (ripple (\<lambda>x. x - 1) (\<lambda>r x. x < 1) xs)) -
     2 ^ (32 * length xs) * uint (fst (ripple (\<lambda>x. x - 1) (\<lambda>r x. x < 1) xs)) = nval xs - 1"
proof (induction xs)
  case (Cons x xs)
  then show ?case
    using uint_sub_borrow [of x 1]
    by (auto simp: power_add algebra_simps split: prod.splits)
qed simp

text \<open>The loops compute \<open>ripple\<close> on the limbs that are left.\<close>

lemma AORS_loop_ripple:
  assumes op: "operand M wp xp xs" and "length zs \<le> length xs"
  shows "Option.bind (GMPN_AORS_loop new test wp xp (int (length xs)) (int (length zs)) (put wp zs M))
      (\<lambda>(left, M). case left of None \<Rightarrow> Some (1, M)
        | Some i \<Rightarrow> Option.bind (if wp \<noteq> xp then GMPN_COPY_REST wp xp (int (length xs)) i M else Some M)
            (\<lambda>M. Some (0, M))) =
    (case ripple new test (drop (length zs) xs) of (c, ws) \<Rightarrow> Some (c, put wp (zs @ ws) M))"
  using assms(2)
proof (induction "length xs - length zs" arbitrary: zs)
  case 0
  then show ?case
    by (simp add: GMPN_AORS_loop.simps)
next
  case (Suc k)
  let ?x = "xs ! length zs"
  let ?zs = "zs @ [new ?x]"
  have len: "length zs < length xs"
    using Suc.hyps(2) by simp
  have steps: "put wp zs M (xp + int (length zs)) = Some ?x"
    "st (wp + int (length zs)) (new ?x) (put wp zs M) = Some (put wp ?zs M)"
    by (rule put_read [OF op], use len in auto)
      (rule st_put [of M wp "length xs"], use op len in \<open>auto simp: operand_def\<close>)
  have "length ?zs \<le> length xs"
    using len by simp
  note rest = Suc.hyps(1) [of ?zs] copy_unless_same(2) [OF op this]
  show ?case
    using steps rest Suc.hyps(2) len Cons_nth_drop_Suc [of "length zs" xs, symmetric]
    by (auto simp: GMPN_AORS_loop.simps [of _ _ _ _ "int (length xs)" "int (length zs)"] add.commute
        split: prod.splits)
qed

lemma AORS_1_loop_ripple:
  assumes op: "operand M dst src xs" and "length zs \<le> length xs"
  shows "GMPN_AORS_1_loop oper cb dst src (int (length xs)) (int (length zs)) (put dst zs M) =
    (case ripple (\<lambda>x. oper x 1) (\<lambda>r x. cb r x 1) (drop (length zs) xs) of
       (c, ws) \<Rightarrow> Some (c, put dst (zs @ ws) M))"
  using assms(2)
proof (induction "length xs - length zs" arbitrary: zs)
  case 0
  then show ?case
    by (simp add: GMPN_AORS_1_loop.simps)
next
  case (Suc k)
  let ?x = "xs ! length zs"
  let ?zs = "zs @ [oper ?x 1]"
  have len: "length zs < length xs"
    using Suc.hyps(2) by simp
  have steps: "put dst zs M (src + int (length zs)) = Some ?x"
    "st (dst + int (length zs)) (oper ?x 1) (put dst zs M) = Some (put dst ?zs M)"
    by (rule put_read [OF op], use len in auto)
      (rule st_put [of M dst "length xs"], use op len in \<open>auto simp: operand_def\<close>)
  have "length ?zs \<le> length xs"
    using len by simp
  note rest = Suc.hyps(1) [of ?zs] copy_unless_same(1) [OF op this]
  show ?case
    using steps rest Suc.hyps(2) len Cons_nth_drop_Suc [of "length zs" xs, symmetric]
    by (auto simp: GMPN_AORS_1_loop.simps [of _ _ _ _ "int (length xs)" "int (length zs)"] add.commute
        Let_def split: prod.splits)
qed

section \<open>The library functions that are called\<close>

text \<open>
  The documented behaviour: \<open>mpn_add_n\<close> and \<open>mpn_sub_n\<close> take two arrays of the same size, at
  least one limb, write the sum or difference to the result array and return the carry or
  borrow, 0 or 1; \<open>mpn_com\<close> writes the complement of each limb.
\<close>

definition aors_n_spec :: "int \<Rightarrow> (int \<Rightarrow> int \<Rightarrow> int \<Rightarrow> int \<Rightarrow> mem \<Rightarrow> (limb \<times> mem) option) \<Rightarrow> bool" where
  "aors_n_spec sign f \<longleftrightarrow> (\<forall>wp xp yp M xs ys.
     xs \<noteq> [] \<and> length ys = length xs \<and> operand M wp xp xs \<and> operand M wp yp ys \<longrightarrow>
     (\<exists>c zs. f wp xp yp (int (length xs)) M = Some (c, put wp zs M) \<and>
        length zs = length xs \<and> (c = 0 \<or> c = 1) \<and>
        nval zs + sign * (2 ^ (32 * length xs) * uint c) = nval xs + sign * nval ys))"

definition mpn_add_n_spec :: "(int \<Rightarrow> int \<Rightarrow> int \<Rightarrow> int \<Rightarrow> mem \<Rightarrow> (limb \<times> mem) option) \<Rightarrow> bool" where
  "mpn_add_n_spec add_n \<longleftrightarrow> aors_n_spec 1 add_n"

definition mpn_sub_n_spec :: "(int \<Rightarrow> int \<Rightarrow> int \<Rightarrow> int \<Rightarrow> mem \<Rightarrow> (limb \<times> mem) option) \<Rightarrow> bool" where
  "mpn_sub_n_spec sub_n \<longleftrightarrow> aors_n_spec (- 1) sub_n"

definition mpn_com_spec :: "(int \<Rightarrow> int \<Rightarrow> int \<Rightarrow> mem \<Rightarrow> mem option) \<Rightarrow> bool" where
  "mpn_com_spec com \<longleftrightarrow> (\<forall>rp up M xs. xs \<noteq> [] \<and> operand M rp up xs \<longrightarrow>
     com rp up (int (length xs)) M = Some (put rp (map (\<lambda>x. NOT x) xs) M))"

text \<open>Functions with this behaviour exist: they read the numbers, compute, and write the limbs.\<close>

definition load :: "mem \<Rightarrow> int \<Rightarrow> int \<Rightarrow> limb list" where
  "load M p n = map (\<lambda>i. case M (p + int i) of Some x \<Rightarrow> x | None \<Rightarrow> 0) [0..<nat n]"

primrec to_limbs :: "nat \<Rightarrow> int \<Rightarrow> limb list" where
  "to_limbs 0 v = []"
| "to_limbs (Suc n) v = word_of_int v # to_limbs n (v div 2 ^ 32)"

definition ref_add_n :: "int \<Rightarrow> int \<Rightarrow> int \<Rightarrow> int \<Rightarrow> mem \<Rightarrow> (limb \<times> mem) option" where
  "ref_add_n wp xp yp n M =
     (let v = nval (load M xp n) + nval (load M yp n)
      in Some (if v < 2 ^ (32 * nat n) then 0 else 1, put wp (to_limbs (nat n) v) M))"

definition ref_sub_n :: "int \<Rightarrow> int \<Rightarrow> int \<Rightarrow> int \<Rightarrow> mem \<Rightarrow> (limb \<times> mem) option" where
  "ref_sub_n wp xp yp n M =
     (let v = nval (load M xp n) - nval (load M yp n)
      in Some (if v < 0 then 1 else 0, put wp (to_limbs (nat n) v) M))"

definition ref_com :: "int \<Rightarrow> int \<Rightarrow> int \<Rightarrow> mem \<Rightarrow> mem option" where
  "ref_com rp up n M = Some (put rp (map (\<lambda>x. NOT x) (load M up n)) M)"

lemma load_holds: "holds M p xs \<Longrightarrow> load M p (int (length xs)) = xs"
  by (auto simp: load_def holds_def intro: nth_equalityI)

lemma to_limbs_length [simp]: "length (to_limbs n v) = n"
  by (induction n arbitrary: v) auto

lemma nval_to_limbs: "nval (to_limbs n v) = v mod 2 ^ (32 * n)"
proof (induction n arbitrary: v)
  case (Suc n)
  have "v mod (2 ^ 32 * 2 ^ (32 * n)) = 2 ^ 32 * (v div 2 ^ 32 mod 2 ^ (32 * n)) + v mod 2 ^ 32"
    by (rule zmod_zmult2_eq) simp
  then show ?case
    using Suc by (simp add: uint_word_of_int power_add)
qed simp

lemma to_limbs_carry:
  assumes "length ys = length xs"
  shows "nval (to_limbs (length xs) (nval xs + nval ys)) + 2 ^ (32 * length xs) *
    uint (if nval xs + nval ys < 2 ^ (32 * length xs) then 0 else 1 :: limb) = nval xs + nval ys"
proof -
  let ?v = "nval xs + nval ys" and ?b = "2 ^ (32 * length xs) :: int"
  have "?v < ?b + ?b"
    using nval_less [of xs] nval_less [of ys] assms by simp
  then show ?thesis
    using mod_pos_pos_trivial [of "?v - ?b" ?b] by (auto simp: nval_to_limbs mod_pos_pos_trivial)
qed

lemma to_limbs_borrow:
  assumes "length ys = length xs"
  shows "nval (to_limbs (length xs) (nval xs - nval ys)) - 2 ^ (32 * length xs) *
    uint (if nval xs - nval ys < 0 then 1 else 0 :: limb) = nval xs - nval ys"
proof -
  let ?v = "nval xs - nval ys" and ?b = "2 ^ (32 * length xs) :: int"
  have "nval xs < ?b" "nval ys < ?b"
    using nval_less [of xs] nval_less [of ys] assms by simp_all
  then have "- ?b \<le> ?v" "?v < ?b"
    using nval_nonneg [of xs] nval_nonneg [of ys] by linarith+
  then show ?thesis
    using mod_pos_pos_trivial [of "?v + ?b" ?b] by (auto simp: nval_to_limbs mod_pos_pos_trivial)
qed

lemma ref_loads:
  assumes "operand M wp xp xs" and "operand M wp yp ys" and "length ys = length xs"
  shows "load M xp (int (length xs)) = xs" "load M yp (int (length xs)) = ys"
  using assms load_holds [of M xp xs] load_holds [of M yp ys] by (auto simp: operand_def)

lemma ref_add_n_spec: "mpn_add_n_spec ref_add_n"
  unfolding mpn_add_n_spec_def aors_n_spec_def
proof (intro allI impI exI conjI)
  fix wp xp yp M xs ys
  assume *: "xs \<noteq> [] \<and> length ys = length xs \<and> operand M wp xp xs \<and> operand M wp yp ys"
  then show "ref_add_n wp xp yp (int (length xs)) M =
      Some (if nval xs + nval ys < 2 ^ (32 * length xs) then 0 else 1,
        put wp (to_limbs (length xs) (nval xs + nval ys)) M)"
    using ref_loads [of M wp xp xs yp ys] by (simp add: ref_add_n_def Let_def)
  show "nval (to_limbs (length xs) (nval xs + nval ys)) + 1 * (2 ^ (32 * length xs) *
      uint (if nval xs + nval ys < 2 ^ (32 * length xs) then 0 else 1 :: limb)) =
      nval xs + 1 * nval ys"
    using * to_limbs_carry [of ys xs] by simp
qed simp_all

lemma ref_sub_n_spec: "mpn_sub_n_spec ref_sub_n"
  unfolding mpn_sub_n_spec_def aors_n_spec_def
proof (intro allI impI exI conjI)
  fix wp xp yp M xs ys
  assume *: "xs \<noteq> [] \<and> length ys = length xs \<and> operand M wp xp xs \<and> operand M wp yp ys"
  then show "ref_sub_n wp xp yp (int (length xs)) M =
      Some (if nval xs - nval ys < 0 then 1 else 0,
        put wp (to_limbs (length xs) (nval xs - nval ys)) M)"
    using ref_loads [of M wp xp xs yp ys] by (simp add: ref_sub_n_def Let_def)
  show "nval (to_limbs (length xs) (nval xs - nval ys)) + - 1 * (2 ^ (32 * length xs) *
      uint (if nval xs - nval ys < 0 then 1 else 0 :: limb)) = nval xs + - 1 * nval ys"
    using * to_limbs_borrow [of ys xs] by simp
qed simp_all

lemma ref_com_spec: "mpn_com_spec ref_com"
  by (auto simp: mpn_com_spec_def ref_com_def operand_def load_holds)

section \<open>Addition and subtraction\<close>

lemma numb_mask [simp]: "x AND GMP_NUMB_MASK = x"
  by (simp add: GMP_NUMB_MASK_def GMP_NAIL_BITS_def)

text \<open>The second operand is shorter: it and the low part of the first are operands of one size.\<close>

definition operand2 :: "mem \<Rightarrow> int \<Rightarrow> nat \<Rightarrow> int \<Rightarrow> limb list \<Rightarrow> bool" where
  "operand2 M wp n yp ys \<longleftrightarrow> holds M yp ys \<and> length ys \<le> n \<and> (wp = yp \<or> apart wp n yp (length ys))"

lemma operand_take:
  assumes "operand M wp xp xs" and "n \<le> length xs"
  shows "operand M wp xp (take n xs)"
  using assms by (auto simp: operand_def holds_def room_def apart_def)

lemma operand2_operand:
  assumes "operand M wp xp xs" and "operand2 M wp (length xs) yp ys"
  shows "operand M wp yp ys"
  using assms by (auto simp: operand_def operand2_def room_def apart_def)

lemma AORS_ripple:
  assumes op: "operand M wp xp xs" and len: "length ys \<le> length xs"
    and f: "ys \<noteq> [] \<Longrightarrow> func wp xp yp (int (length ys)) M = Some (c, put wp zs M)"
    and zs: "length zs = length ys" and c: "c = 0 \<or> c = 1" "ys = [] \<Longrightarrow> c = 0"
  shows "GMPN_AORS new test func wp xp (int (length xs)) yp (int (length ys)) M =
    (if c = 0 then Some (0, put wp (zs @ drop (length ys) xs) M)
     else case ripple new test (drop (length ys) xs) of (c', ws) \<Rightarrow> Some (c', put wp (zs @ ws) M))"
proof (cases "ys = []")
  case True
  then show ?thesis
    using copy_unless_same(2) [OF op, of "[]"] zs c by (auto simp: GMPN_AORS_def split: if_splits)
next
  case False
  have "length zs \<le> length xs"
    using len zs by simp
  note loop = AORS_loop_ripple [OF op this, of new test] and copy = copy_unless_same(2) [OF op this]
  show ?thesis
    using False f [OF False] loop copy c(1) zs
    by (auto simp: GMPN_AORS_def Let_def)
qed

lemma AORS_1_ripple:
  assumes op: "operand M dst src (x # xs)"
  shows "GMPN_AORS_1 oper cb dst src (int (length (x # xs))) v M =
    (if cb (oper x v) x v then
       (case ripple (\<lambda>x. oper x 1) (\<lambda>r x. cb r x 1) xs of
          (c, ws) \<Rightarrow> Some (c, put dst (oper x v # ws) M))
     else Some (0, put dst (oper x v # xs) M))"
proof -
  let ?zs = "[oper x v]"
  have "M (src + 0) = Some x" "st (dst + 0) (oper x v) M = Some (put dst ?zs M)"
    using put_read [OF op, of "[]" 0] st_put [of M dst "length (x # xs)" "[]" "oper x v"] op
    by (simp_all add: operand_def)
  then show ?thesis
    using AORS_1_loop_ripple [OF op, of ?zs oper cb] copy_unless_same(1) [OF op, of ?zs]
    by (auto simp: GMPN_AORS_1_def Let_def split: if_splits)
qed

text \<open>
  Addition (\<open>sign = 1\<close>) and subtraction (\<open>sign = - 1\<close>) at once: the carry of the low parts
  ripples through the rest.
\<close>

lemma AORS_value:
  assumes op: "operand M wp xp xs" and op2: "operand2 M wp (length xs) yp ys"
    and f: "aors_n_spec sign f"
    and ripple: "\<And>zs. nval (snd (ripple new test zs)) +
      sign * (2 ^ (32 * length zs) * uint (fst (ripple new test zs))) = nval zs + sign"
  shows "\<exists>c zs. GMPN_AORS new test f wp xp (int (length xs)) yp (int (length ys)) M =
      Some (c, put wp zs M) \<and> length zs = length xs \<and> (c = 0 \<or> c = 1) \<and>
    nval zs + sign * (2 ^ (32 * length xs) * uint c) = nval xs + sign * nval ys"
proof -
  let ?lo = "take (length ys) xs" and ?hi = "drop (length ys) xs"
  let ?b = "2 ^ (32 * length ys) :: int" and ?r = "ripple new test ?hi"
  have len: "length ys \<le> length xs"
    using op2 by (simp add: operand2_def)
  have split: "nval xs = nval ?lo + ?b * nval ?hi" "2 ^ (32 * length xs) = ?b * 2 ^ (32 * length ?hi)"
    using nval_append [of ?lo ?hi] len by (simp_all add: power_add [symmetric])
  obtain c zs where low: "ys \<noteq> [] \<Longrightarrow> f wp xp yp (int (length ys)) M = Some (c, put wp zs M)"
    "length zs = length ys" "c = 0 \<or> c = 1" "ys = [] \<Longrightarrow> c = 0"
    "nval zs + sign * (?b * uint c) = nval ?lo + sign * nval ys"
  proof (cases "ys = []")
    case True
    then show thesis using that [of 0 "[]"] by simp
  next
    case False
    have "operand M wp xp ?lo" "operand M wp yp ys" "length ys = length ?lo" "?lo \<noteq> []"
      using operand_take [OF op len] operand2_operand [OF op op2] len False by auto
    with f [unfolded aors_n_spec_def, rule_format, of ?lo ys M wp xp yp] obtain c zs
      where "f wp xp yp (int (length ?lo)) M = Some (c, put wp zs M)" "length zs = length ?lo"
        "c = 0 \<or> c = 1"
        "nval zs + sign * (2 ^ (32 * length ?lo) * uint c) = nval ?lo + sign * nval ys"
      by blast
    with that [of c zs] False len show thesis
      by simp
  qed
  note run = AORS_ripple [where func = f and yp = yp and c = c and zs = zs, OF op len low(1-4),
      of new test]
  have high: "nval (zs @ snd ?r) + sign * (2 ^ (32 * length xs) * uint (fst ?r)) =
      nval xs + sign * nval ys" if "c = 1"
  proof -
    have "?b * (nval (snd ?r) + sign * (2 ^ (32 * length ?hi) * uint (fst ?r))) = ?b * (nval ?hi + sign)"
      by (simp only: ripple)
    then show ?thesis
      using low(2,5) that split by (simp add: algebra_simps)
  qed
  show ?thesis
  proof (cases "c = 0")
    case True
    then show ?thesis
      using run low(2,5) split len
      by (intro exI [of _ 0] exI [of _ "zs @ ?hi"]) simp
  next
    case False
    then show ?thesis
      using run high low(2,3) len
        ripple_carry [of new test ?hi] ripple_length [of new test ?hi]
      by (intro exI [of _ "fst ?r"] exI [of _ "zs @ snd ?r"]) (simp add: split_beta)
  qed
qed

lemma mpn_add_value_ex:
  assumes "mpn_add_n_spec add_n" and "operand M wp xp xs" and "operand2 M wp (length xs) yp ys"
  shows "\<exists>c zs. mpn_add add_n wp xp (int (length xs)) yp (int (length ys)) M = Some (c, put wp zs M) \<and>
    length zs = length xs \<and> (c = 0 \<or> c = 1) \<and>
    nval zs + 2 ^ (32 * length xs) * uint c = nval xs + nval ys"
  using AORS_value [OF assms(2,3), of 1 add_n "\<lambda>x. x + 1" "\<lambda>r x. r < 1"] assms(1) ripple_add
  by (simp add: mpn_add_def mpn_add_n_spec_def)

lemma mpn_sub_value_ex:
  assumes "mpn_sub_n_spec sub_n" and "operand M wp xp xs" and "operand2 M wp (length xs) yp ys"
  shows "\<exists>c zs. mpn_sub sub_n wp xp (int (length xs)) yp (int (length ys)) M = Some (c, put wp zs M) \<and>
    length zs = length xs \<and> (c = 0 \<or> c = 1) \<and>
    nval zs - 2 ^ (32 * length xs) * uint c = nval xs - nval ys"
  using AORS_value [OF assms(2,3), of "- 1" sub_n "\<lambda>x. x - 1" "\<lambda>r x. x < 1"] assms(1) ripple_sub
  by (simp add: mpn_sub_def mpn_sub_n_spec_def)

lemma AORS_1_value:
  assumes op: "operand M dst src xs" and "xs \<noteq> []"
    and first: "\<And>x v. uint (oper x v) + sign * (2 ^ 32 * (if cb (oper x v) x v then 1 else 0)) =
      uint x + sign * uint v"
    and ripple: "\<And>zs. nval (snd (ripple (\<lambda>x. oper x 1) (\<lambda>r x. cb r x 1) zs)) +
      sign * (2 ^ (32 * length zs) * uint (fst (ripple (\<lambda>x. oper x 1) (\<lambda>r x. cb r x 1) zs))) =
      nval zs + sign"
  shows "\<exists>c zs. GMPN_AORS_1 oper cb dst src (int (length xs)) v M = Some (c, put dst zs M) \<and>
    length zs = length xs \<and> (c = 0 \<or> c = 1) \<and>
    nval zs + sign * (2 ^ (32 * length xs) * uint c) = nval xs + sign * uint v"
proof -
  obtain x ys where xs: "xs = x # ys"
    using assms(2) by (cases xs) auto
  let ?r = "ripple (\<lambda>x. oper x 1) (\<lambda>r x. cb r x 1) ys"
  note run = AORS_1_ripple [OF op [unfolded xs], of oper cb v]
  show ?thesis
  proof (cases "cb (oper x v) x v")
    case True
    have "2 ^ 32 * (nval (snd ?r) + sign * (2 ^ (32 * length ys) * uint (fst ?r))) =
        2 ^ 32 * (nval ys + sign)"
      by (simp only: ripple)
    then have "nval (oper x v # snd ?r) + sign * (2 ^ (32 * length xs) * uint (fst ?r)) =
        nval xs + sign * uint v"
      using first [of x v] True xs by (simp add: power_add algebra_simps)
    then show ?thesis
      using run True xs ripple_carry [of _ _ ys] ripple_length [of _ _ ys]
      by (intro exI [of _ "fst ?r"] exI [of _ "oper x v # snd ?r"]) (simp add: split_beta)
  next
    case False
    then show ?thesis
      using run first [of x v] xs
      by (intro exI [of _ 0] exI [of _ "oper x v # ys"]) simp
  qed
qed

lemma mpn_add_1_value_ex:
  assumes "operand M dst src xs" and "xs \<noteq> []"
  shows "\<exists>c zs. mpn_add_1 dst src (int (length xs)) v M = Some (c, put dst zs M) \<and>
    length zs = length xs \<and> (c = 0 \<or> c = 1) \<and>
    nval zs + 2 ^ (32 * length xs) * uint c = nval xs + uint v"
proof -
  have "uint (x + w) + 1 * (2 ^ 32 * (if GMPN_ADDCB (x + w) x w then 1 else 0)) = uint x + 1 * uint w"
    for x w :: limb
    using uint_add_carry [of x w] by (simp add: GMPN_ADDCB_def)
  from AORS_1_value [where oper = "(+)" and cb = GMPN_ADDCB and sign = 1, OF assms this, of v]
  show ?thesis
    using ripple_add by (simp add: mpn_add_1_def GMPN_ADDCB_def)
qed

lemma mpn_sub_1_value_ex:
  assumes "operand M dst src xs" and "xs \<noteq> []"
  shows "\<exists>c zs. mpn_sub_1 dst src (int (length xs)) v M = Some (c, put dst zs M) \<and>
    length zs = length xs \<and> (c = 0 \<or> c = 1) \<and>
    nval zs - 2 ^ (32 * length xs) * uint c = nval xs - uint v"
proof -
  have "uint (x - w) + - 1 * (2 ^ 32 * (if GMPN_SUBCB (x - w) x w then 1 else 0)) = uint x + - 1 * uint w"
    for x w :: limb
    using uint_sub_borrow [of x w] by (simp add: GMPN_SUBCB_def)
  from AORS_1_value [where oper = "(-)" and cb = GMPN_SUBCB and sign = "- 1", OF assms this, of v]
  show ?thesis
    using ripple_sub by (simp add: mpn_sub_1_def GMPN_SUBCB_def)
qed

section \<open>Comparison, zero test and negation\<close>

lemma nval_top:
  assumes "length xs = length ys"
  shows "sgn (nval (xs @ [x]) - nval (ys @ [y])) =
    (if x = y then sgn (nval xs - nval ys) else if x > y then 1 else - 1)"
proof -
  let ?b = "2 ^ (32 * length xs) :: int"
  have bounds: "nval xs < ?b" "nval ys < ?b" "0 \<le> nval xs" "0 \<le> nval ys"
    using nval_less [of xs] nval_less [of ys] assms by simp_all
  have eq: "nval (xs @ [x]) - nval (ys @ [y]) = nval xs - nval ys + ?b * (uint x - uint y)"
    using assms by (simp add: algebra_simps)
  consider "x = y" | "x > y" "?b \<le> ?b * (uint x - uint y)" | "y > x" "?b * (uint x - uint y) \<le> - ?b"
  proof (cases x y rule: linorder_cases)
    case less
    then show thesis
      using that(3) mult_left_mono [of "uint x - uint y" "- 1" ?b] by (simp add: word_less_def)
  next
    case greater
    then show thesis
      using that(2) mult_left_mono [of 1 "uint x - uint y" ?b] by (simp add: word_less_def)
  qed (use that in simp)
  then show ?thesis
  proof cases
    case 1
    then show ?thesis unfolding eq by simp
  next
    case 2
    then have "0 < nval xs - nval ys + ?b * (uint x - uint y)"
      using bounds by linarith
    then show ?thesis using 2(1) unfolding eq by auto
  next
    case 3
    then have "nval xs - nval ys + ?b * (uint x - uint y) < 0"
      using bounds by linarith
    then show ?thesis using 3(1) unfolding eq by auto
  qed
qed

lemma holds_snoc: "holds M p (xs @ [x]) \<longleftrightarrow> holds M p xs \<and> M (p + int (length xs)) = Some x"
  by (auto simp: holds_def nth_append less_Suc_eq)

lemma mpn_cmp_sgn:
  assumes "length xs = length ys" and "holds M xp xs" and "holds M yp ys"
  shows "mpn_cmp xp yp (int (length xs)) M = Some (sgn (nval xs - nval ys))"
  unfolding mpn_cmp_def using assms
proof (induction xs arbitrary: ys rule: rev_induct)
  case Nil
  then show ?case by (simp add: GMPN_CMP.simps)
next
  case (snoc x xs)
  then obtain ys' y where ys: "ys = ys' @ [y]" "length xs = length ys'"
    by (cases ys rule: rev_cases) auto
  with snoc show ?case
    using nval_top [of xs ys' x y]
    by (subst GMPN_CMP.simps) (simp add: holds_snoc)
qed

lemma mpn_zero_p_value:
  "xs \<noteq> [] \<Longrightarrow> holds M p xs \<Longrightarrow> mpn_zero_p p (int (length xs)) M = Some (if nval xs = 0 then 1 else 0)"
proof (induction xs rule: rev_induct)
  case (snoc x xs)
  then show ?case
    by (subst mpn_zero_p.simps) (auto simp: holds_snoc nval_eq_0 simp del: nval_append)
qed simp

text \<open>The result of \<open>mpn_neg\<close>: low zeros stay, the first other limb is negated, the rest complemented.\<close>

primrec neg_limbs :: "limb list \<Rightarrow> limb list" where
  "neg_limbs [] = []"
| "neg_limbs (x # xs) = (if x = 0 then 0 # neg_limbs xs else (- x) # map (\<lambda>y. NOT y) xs)"

lemma nval_not: "nval (map (\<lambda>y. NOT y) xs) = 2 ^ (32 * length xs) - 1 - nval xs"
proof (induction xs)
  case (Cons x xs)
  have "uint (NOT x) = 2 ^ 32 - 1 - uint x"
  proof -
    have "NOT x = - 1 - x"
      by (simp add: not_eq_complement)
    moreover have "uint (- 1 :: limb) = 2 ^ 32 - 1"
      by (simp add: unsigned_minus_1_eq_mask mask_eq_exp_minus_1)
    ultimately show ?thesis
      using uint_sub_borrow [of "- 1" x] word_order.extremum [of x] by (simp add: not_less [symmetric])
  qed
  then show ?case
    using Cons by (simp add: power_add algebra_simps)
qed simp

lemma neg_limbs_length [simp]: "length (neg_limbs xs) = length xs"
  by (induction xs) auto

lemma nval_neg:
  "nval (neg_limbs xs) = (if nval xs = 0 then 0 else 2 ^ (32 * length xs) - nval xs)"
proof (induction xs)
  case (Cons x xs)
  have "uint (- x) = 2 ^ 32 - uint x" if "x \<noteq> 0"
    using uint_sub_borrow [of 0 x] that by (simp add: word_gt_0)
  moreover have "nval (x # xs) = 0 \<longleftrightarrow> x = 0 \<and> nval xs = 0"
    by (simp add: nval_eq_0 del: nval.simps)
  ultimately show ?case
    using Cons by (auto simp: nval_not power_add algebra_simps)
qed simp

lemma operand_step:
  assumes "operand M dst src (x # xs)"
  shows "M src = Some x"
    and "\<exists>M'. st dst v M = Some M' \<and> M' = put dst [v] M \<and> operand M' (dst + 1) (src + 1) xs"
proof -
  show "M src = Some x"
    using assms by (auto simp: operand_def holds_def)
  have "st dst v M = Some (put dst [v] M)"
    using st_put [of M dst "length (x # xs)" "[]" v] assms by (simp add: operand_def)
  moreover have "put dst [v] M (src + 1 + int i) = Some (xs ! i)" if "i < length xs" for i
    using put_read [OF assms, of "[v]" "Suc i"] that by (simp add: add.assoc)
  moreover have "put dst [v] M (dst + 1 + int i) \<noteq> None" if "i < length xs" for i
    using assms that by (auto simp: operand_def room_def put_def add.assoc dest!: spec [of _ "Suc i"])
  ultimately show "\<exists>M'. st dst v M = Some M' \<and> M' = put dst [v] M \<and> operand M' (dst + 1) (src + 1) xs"
    using assms by (auto simp: operand_def holds_def room_def apart_def)
qed

lemma put_Cons: "put (p + 1) zs (put p [z] M) = put p (z # zs) M"
proof
  fix a
  show "put (p + 1) zs (put p [z] M) a = put p (z # zs) M a"
    by (cases "a = p") (auto simp: put_def nth_Cons' nat_diff_distrib' intro!: arg_cong [of _ _ "nth zs"])
qed

lemma mpn_neg_limbs:
  assumes "mpn_com_spec com"
  shows "xs \<noteq> [] \<Longrightarrow> operand M rp up xs \<Longrightarrow>
    mpn_neg com rp up (int (length xs)) M =
      Some (if nval xs = 0 then 0 else 1, put rp (neg_limbs xs) M)"
proof (induction xs arbitrary: M rp up)
  case (Cons x xs)
  note step = operand_step [OF Cons.prems(2)]
  have zero: "nval (x # xs) = 0 \<longleftrightarrow> x = 0 \<and> nval xs = 0"
    by (simp add: nval_eq_0 del: nval.simps)
  show ?case
  proof (cases "x = 0")
    case True
    obtain M' where M': "st rp 0 M = Some M'" "M' = put rp [0] M" "operand M' (rp + 1) (up + 1) xs"
      using step(2) by blast
    show ?thesis
      using Cons.IH [OF _ M'(3)] M' step(1) True zero
      by (subst mpn_neg.simps) (cases xs; simp add: put_Cons del: nval.simps(2))
  next
    case False
    obtain M' where M': "st rp (- x) M = Some M'" "M' = put rp [- x] M" "operand M' (rp + 1) (up + 1) xs"
      using step(2) by blast
    moreover have "com (rp + 1) (up + 1) (int (length xs)) M' =
        Some (put (rp + 1) (map (\<lambda>y. NOT y) xs) M')" if "xs \<noteq> []"
      using assms M'(3) that by (simp add: mpn_com_spec_def)
    ultimately show ?thesis
      using step(1) False zero
      by (subst mpn_neg.simps) (cases xs; simp add: put_Cons del: nval.simps(2))
  qed
qed simp

section \<open>Subtraction undoes addition\<close>

lemma holds_apart: "holds M q ys \<Longrightarrow> apart p (length zs) q (length ys) \<Longrightarrow> holds (put p zs M) q ys"
  by (auto simp: holds_def apart_def put_def)

lemma operand_put: "operand M p p xs \<Longrightarrow> length zs = length xs \<Longrightarrow> operand (put p zs M) p p zs"
  by (auto simp: operand_def holds_def room_def put_def)

lemma put_back: "holds M p xs \<Longrightarrow> length zs = length xs \<Longrightarrow> put p xs (put p zs M) = M"
  using put_rest [of M p xs "[]"] by (auto simp: put_def fun_eq_iff split: if_splits)

lemma digits_unique:
  fixes x y b c d :: int
  assumes "x + b * c = y + b * d" and "0 \<le> x" "x < b" "0 \<le> y" "y < b"
  shows "x = y"
  using arg_cong [OF assms(1), of "\<lambda>v. v mod b"] assms(2-) by (simp add: mod_pos_pos_trivial)

lemma add_then_sub:
  assumes "mpn_add_n_spec add_n" and "mpn_sub_n_spec sub_n"
    and op: "operand M xp xp xs" and y: "holds M yp ys" "length ys \<le> length xs"
      "apart xp (length xs) yp (length ys)"
  shows "\<exists>c c' M'. mpn_add add_n xp xp (int (length xs)) yp (int (length ys)) M = Some (c, M') \<and>
    mpn_sub sub_n xp xp (int (length xs)) yp (int (length ys)) M' = Some (c', M)"
proof -
  have op2: "operand2 M xp (length xs) yp ys"
    using y by (simp add: operand2_def)
  obtain c zs where add: "mpn_add add_n xp xp (int (length xs)) yp (int (length ys)) M = Some (c, put xp zs M)"
    "length zs = length xs" "nval zs + 2 ^ (32 * length xs) * uint c = nval xs + nval ys"
    using mpn_add_value_ex [OF assms(1) op op2] by blast
  have "operand2 (put xp zs M) xp (length zs) yp ys"
    using y add(2) holds_apart [of M yp ys xp zs] by (simp add: operand2_def)
  then obtain c' ws where sub: "mpn_sub sub_n xp xp (int (length xs)) yp (int (length ys)) (put xp zs M) =
      Some (c', put xp ws (put xp zs M))" "length ws = length xs"
    "nval ws - 2 ^ (32 * length xs) * uint c' = nval zs - nval ys"
    using mpn_sub_value_ex [OF assms(2) operand_put [OF op add(2)], of yp ys] unfolding add(2) by blast
  have "nval ws = nval xs"
    by (rule digits_unique [of _ "2 ^ (32 * length xs)" "uint c" _ "uint c'"])
      (use add(3) sub(2,3) nval_less [of ws] nval_less [of xs] in \<open>simp_all\<close>)
  then have "ws = xs"
    using nval_inject [OF sub(2)] by simp
  then have "put xp ws (put xp zs M) = M"
    using put_back [of M xp xs zs] op add(2) by (simp add: operand_def)
  then show ?thesis
    using add(1) sub(1) by simp
qed

section \<open>Further theorems\<close>

text \<open>
  \<open>mpn_add_1\<close> and \<open>mpn_sub_1\<close> add and subtract one limb, in place or
  into another array, and return the carry or borrow; the early end of the carry loop copies the
  rest of the number when the arrays differ.
\<close>

theorem single_limb_addition:
  assumes "operand M dst src xs" and "xs \<noteq> []"
  shows "(\<exists>c zs. mpn_add_1 dst src (int (length xs)) v M = Some (c, put dst zs M) \<and>
      length zs = length xs \<and> (c = 0 \<or> c = 1) \<and> nval zs + 2 ^ (32 * length xs) * uint c = nval xs + uint v) \<and>
    (\<exists>c zs. mpn_sub_1 dst src (int (length xs)) v M = Some (c, put dst zs M) \<and>
      length zs = length xs \<and> (c = 0 \<or> c = 1) \<and> nval zs - 2 ^ (32 * length xs) * uint c = nval xs - uint v)"
  by (intro conjI mpn_add_1_value_ex [OF assms] mpn_sub_1_value_ex [OF assms])

text \<open>
  \<open>mpn_cmp\<close> is the sign of the difference of the two numbers,
  \<open>mpn_zero_p\<close> tests for zero, and \<open>mpn_neg\<close> writes the two's
  complement and returns whether the number was not zero.
\<close>

theorem limb_comparison:
  assumes "mpn_com_spec com" and "operand M rp xp xs" and "holds M yp ys" and "length xs = length ys" and "xs \<noteq> []"
  shows "mpn_cmp xp yp (int (length xs)) M = Some (sgn (nval xs - nval ys)) \<and>
    mpn_zero_p xp (int (length xs)) M = Some (if nval xs = 0 then 1 else 0) \<and>
    (\<exists>zs. mpn_neg com rp xp (int (length xs)) M = Some (if nval xs = 0 then 0 else 1, put rp zs M) \<and>
      length zs = length xs \<and> nval zs = (if nval xs = 0 then 0 else 2 ^ (32 * length xs) - nval xs))"
proof -
  have "holds M xp xs"
    using assms(2) by (simp add: operand_def)
  then show ?thesis
    using mpn_cmp_sgn [OF assms(4) _ assms(3)] mpn_zero_p_value [OF assms(5)] mpn_neg_limbs [OF assms(1,5,2)]
      nval_neg [of xs] neg_limbs_length [of xs] by blast
qed

section \<open>Properties\<close>

text \<open>
  C8. \<open>mpn_add\<close> and \<open>mpn_sub\<close> on numbers of different lengths, in
  place or on separate arrays: the result array has the low limbs of the sum (difference), the
  returned limb is its carry (borrow), and no other memory changes, given library functions
  \<open>mpn_add_n\<close> and \<open>mpn_sub_n\<close> that do this for equal lengths.
\<close>

theorem limb_addition:
  assumes "mpn_add_n_spec add_n" and "mpn_sub_n_spec sub_n" and "operand M wp xp xs" and "operand2 M wp (length xs) yp ys"
  shows "(\<exists>c zs. mpn_add add_n wp xp (int (length xs)) yp (int (length ys)) M = Some (c, put wp zs M) \<and>
      length zs = length xs \<and> (c = 0 \<or> c = 1) \<and> nval zs + 2 ^ (32 * length xs) * uint c = nval xs + nval ys) \<and>
    (\<exists>c zs. mpn_sub sub_n wp xp (int (length xs)) yp (int (length ys)) M = Some (c, put wp zs M) \<and>
      length zs = length xs \<and> (c = 0 \<or> c = 1) \<and> nval zs - 2 ^ (32 * length xs) * uint c = nval xs - nval ys)"
  by (intro conjI mpn_add_value_ex [OF assms(1,3,4)] mpn_sub_value_ex [OF assms(2,3,4)])

theorem limb_addition_witness:
  "\<exists>c zs. mpn_add ref_add_n 0 0 2 10 1 (\<lambda>_. Some 0xFFFFFFFF) = Some (c, put 0 zs (\<lambda>_. Some 0xFFFFFFFF)) \<and>
     nval zs + 2 ^ 64 * uint c = 2 ^ 64 + 2 ^ 32 - 2"
proof -
  let ?M = "\<lambda>_. Some 0xFFFFFFFF" and ?xs = "[0xFFFFFFFF, 0xFFFFFFFF]" and ?ys = "[0xFFFFFFFF]"
  have "operand ?M 0 0 ?xs" "operand2 ?M 0 (length ?xs) 10 ?ys"
    by (auto simp: operand_def operand2_def holds_def room_def apart_def less_Suc_eq)
  from limb_addition [OF ref_add_n_spec ref_sub_n_spec this] show ?thesis
    by auto
qed

text \<open>
  C22. Adding a number to another in place and subtracting it again restores the memory,
  whatever the carry was.
\<close>

theorem subtraction_undoes_addition:
  assumes "mpn_add_n_spec add_n" and "mpn_sub_n_spec sub_n" and "operand M xp xp xs" and "holds M yp ys"
    and "length ys \<le> length xs" and "apart xp (length xs) yp (length ys)"
  shows "\<exists>c c' M'. mpn_add add_n xp xp (int (length xs)) yp (int (length ys)) M = Some (c, M') \<and>
    mpn_sub sub_n xp xp (int (length xs)) yp (int (length ys)) M' = Some (c', M)"
  by (rule add_then_sub [OF assms])

theorem subtraction_undoes_addition_witness:
  "\<exists>c c' M'. mpn_add ref_add_n 0 0 2 10 1 (\<lambda>_. Some 7) = Some (c, M') \<and>
     mpn_sub ref_sub_n 0 0 2 10 1 M' = Some (c', \<lambda>_. Some 7)"
proof -
  let ?M = "\<lambda>_. Some 7" and ?xs = "[7, 7]" and ?ys = "[7]"
  have "operand ?M 0 0 ?xs" "holds ?M 10 ?ys" "length ?ys \<le> length ?xs" "apart 0 (length ?xs) 10 (length ?ys)"
    by (auto simp: operand_def holds_def room_def apart_def less_Suc_eq)
  from subtraction_undoes_addition [OF ref_add_n_spec ref_sub_n_spec this] show ?thesis
    by auto
qed

end
