(* ===== verification/Gmp_Integers.thy ===== *)
theory Gmp_Integers
  imports Gmp_Limbs
begin

text \<open>
  The inline functions and macros of \<^verbatim>\<open>gmp-32.h\<close> on integers (\<open>mpz_t\<close>) and rationals (\<open>mpq_t\<close>).

  The state has the limbs and the integer variables. A pointer to an integer is a variable
  or the numerator or denominator inside a rational, so that \<open>w != u\<close> compares pointers and
  the in-place calls are covered. An integer is sign and magnitude: the sign of \<open>_mp_size\<close> and
  the limbs at \<open>_mp_d\<close>. \<open>int_at S r v\<close> says that \<open>r\<close> is a well-formed variable with value \<open>v\<close>: at
  least one limb is allocated, and the highest limb that is used is not zero.

  The functions of the library that are called are parameters, and the \<open>_spec\<close> predicates
  are their documented behaviour.
\<close>

section \<open>State\<close>

datatype mpz_ref = Var nat | Num nat | Den nat

record mpz_struct =
  mp_alloc :: int
  mp_size :: int
  mp_d :: int

record gmp =
  limbs :: mem
  ints :: "mpz_ref \<rightharpoonup> mpz_struct"

definition GMP_ABS :: "int \<Rightarrow> int" where
  "GMP_ABS x = (if x \<ge> 0 then x else - x)"

definition mpq_numref :: "nat \<Rightarrow> mpz_ref" where
  "mpq_numref Q = Num Q"

definition mpq_denref :: "nat \<Rightarrow> mpz_ref" where
  "mpq_denref Q = Den Q"

text \<open>\<open>w->_mp_size = f (w->_mp_size)\<close>.\<close>

definition set_size :: "(int \<Rightarrow> int) \<Rightarrow> mpz_ref \<Rightarrow> gmp \<Rightarrow> gmp option" where
  "set_size f w S = do {
     z \<leftarrow> ints S w;
     Some (S\<lparr>ints := (ints S)(w \<mapsto> z\<lparr>mp_size := f (mp_size z)\<rparr>)\<rparr>) }"

section \<open>Integers\<close>

definition mpz_abs :: "(mpz_ref \<Rightarrow> mpz_ref \<Rightarrow> gmp \<Rightarrow> gmp option) \<Rightarrow> mpz_ref \<Rightarrow> mpz_ref \<Rightarrow> gmp \<Rightarrow> gmp option" where
  "mpz_abs mpz_set w u S = do {
     S \<leftarrow> (if w \<noteq> u then mpz_set w u S else Some S);
     set_size GMP_ABS w S }"

definition GMPZ_FITS_UTYPE_P :: "limb \<Rightarrow> mpz_ref \<Rightarrow> gmp \<Rightarrow> int option" where
  "GMPZ_FITS_UTYPE_P maxval r S = do {
     z \<leftarrow> ints S r;
     let n = mp_size z;
     let p = mp_d z;
     if n = 0 then Some 1
     else if n = 1 then do { l \<leftarrow> limbs S (p + 0); Some (if l \<le> maxval then 1 else 0) }
     else Some 0 }"

definition mpz_fits_uint_p :: "mpz_ref \<Rightarrow> gmp \<Rightarrow> int option" where
  "mpz_fits_uint_p = GMPZ_FITS_UTYPE_P 0xFFFFFFFF"

definition mpz_fits_ulong_p :: "mpz_ref \<Rightarrow> gmp \<Rightarrow> int option" where
  "mpz_fits_ulong_p = GMPZ_FITS_UTYPE_P 0xFFFFFFFF"

definition mpz_fits_ushort_p :: "mpz_ref \<Rightarrow> gmp \<Rightarrow> int option" where
  "mpz_fits_ushort_p = GMPZ_FITS_UTYPE_P 0xFFFF"

definition mpz_get_ui :: "mpz_ref \<Rightarrow> gmp \<Rightarrow> u32 option" where
  "mpz_get_ui r S = do {
     z \<leftarrow> ints S r;
     l \<leftarrow> limbs S (mp_d z + 0);
     Some (if mp_size z \<noteq> 0 then l else 0) }"

definition mpz_getlimbn :: "mpz_ref \<Rightarrow> int \<Rightarrow> gmp \<Rightarrow> limb option" where
  "mpz_getlimbn r n S = do {
     z \<leftarrow> ints S r;
     if n \<ge> 0 \<and> n < GMP_ABS (mp_size z) then limbs S (mp_d z + n) else Some 0 }"

definition mpz_neg :: "(mpz_ref \<Rightarrow> mpz_ref \<Rightarrow> gmp \<Rightarrow> gmp option) \<Rightarrow> mpz_ref \<Rightarrow> mpz_ref \<Rightarrow> gmp \<Rightarrow> gmp option" where
  "mpz_neg mpz_set w u S = do {
     S \<leftarrow> (if w \<noteq> u then mpz_set w u S else Some S);
     set_size uminus w S }"

definition mpz_perfect_square_p :: "(int \<Rightarrow> int \<Rightarrow> mem \<Rightarrow> int option) \<Rightarrow> mpz_ref \<Rightarrow> gmp \<Rightarrow> int option" where
  "mpz_perfect_square_p mpn_perfect_square_p a S = do {
     z \<leftarrow> ints S a;
     let asize = mp_size z;
     let result = (if asize \<ge> 0 then 1 else 0);
     if asize > 0 then mpn_perfect_square_p (mp_d z) asize (limbs S) else Some result }"

definition mpz_popcount :: "(int \<Rightarrow> int \<Rightarrow> mem \<Rightarrow> u32 option) \<Rightarrow> mpz_ref \<Rightarrow> gmp \<Rightarrow> u32 option" where
  "mpz_popcount mpn_popcount u S = do {
     z \<leftarrow> ints S u;
     let usize = mp_size z;
     let result = (if usize < 0 then 0xFFFFFFFF else 0);
     if usize > 0 then mpn_popcount (mp_d z) usize (limbs S) else Some result }"

definition mpz_set_q ::
  "(mpz_ref \<Rightarrow> mpz_ref \<Rightarrow> mpz_ref \<Rightarrow> gmp \<Rightarrow> gmp option) \<Rightarrow> mpz_ref \<Rightarrow> nat \<Rightarrow> gmp \<Rightarrow> gmp option" where
  "mpz_set_q mpz_tdiv_q w u S = mpz_tdiv_q w (mpq_numref u) (mpq_denref u) S"

definition mpz_size :: "mpz_ref \<Rightarrow> gmp \<Rightarrow> int option" where
  "mpz_size r S = do { z \<leftarrow> ints S r; Some (GMP_ABS (mp_size z)) }"

definition mpz_sgn :: "mpz_ref \<Rightarrow> gmp \<Rightarrow> int option" where
  "mpz_sgn r S = do {
     z \<leftarrow> ints S r;
     Some (if mp_size z < 0 then - 1 else if mp_size z > 0 then 1 else 0) }"

text \<open>\<open>(size != 0) & (int) _mp_d[0]\<close>: a bitwise and of two \<open>int\<close>s, the first 0 or 1.\<close>

definition mpz_odd_p :: "mpz_ref \<Rightarrow> gmp \<Rightarrow> u32 option" where
  "mpz_odd_p r S = do {
     z \<leftarrow> ints S r;
     l \<leftarrow> limbs S (mp_d z + 0);
     Some ((if mp_size z \<noteq> 0 then 1 else 0) AND l) }"

definition mpz_even_p :: "mpz_ref \<Rightarrow> gmp \<Rightarrow> u32 option" where
  "mpz_even_p r S = do { b \<leftarrow> mpz_odd_p r S; Some (if b = 0 then 1 else 0) }"

section \<open>Rationals\<close>

definition mpq_abs :: "(nat \<Rightarrow> nat \<Rightarrow> gmp \<Rightarrow> gmp option) \<Rightarrow> nat \<Rightarrow> nat \<Rightarrow> gmp \<Rightarrow> gmp option" where
  "mpq_abs mpq_set w u S = do {
     S \<leftarrow> (if w \<noteq> u then mpq_set w u S else Some S);
     set_size GMP_ABS (mpq_numref w) S }"

definition mpq_neg :: "(nat \<Rightarrow> nat \<Rightarrow> gmp \<Rightarrow> gmp option) \<Rightarrow> nat \<Rightarrow> nat \<Rightarrow> gmp \<Rightarrow> gmp option" where
  "mpq_neg mpq_set w u S = do {
     S \<leftarrow> (if w \<noteq> u then mpq_set w u S else Some S);
     set_size uminus (mpq_numref w) S }"

definition mpq_sgn :: "nat \<Rightarrow> gmp \<Rightarrow> int option" where
  "mpq_sgn Q S = mpz_sgn (mpq_numref Q) S"

section \<open>Comparisons\<close>

text \<open>
  The macros look at constant arguments first; \<open>const\<close> says what \<open>__builtin_constant_p\<close>
  answers. \<open>long\<close> arguments are integers in the range of \<open>long\<close>.
\<close>

definition mpz_cmp_ui ::
  "(mpz_ref \<Rightarrow> u32 \<Rightarrow> gmp \<Rightarrow> int option) \<Rightarrow> bool \<Rightarrow> mpz_ref \<Rightarrow> u32 \<Rightarrow> gmp \<Rightarrow> int option" where
  "mpz_cmp_ui cmp_ui const r ui S =
     (if const \<and> ui = 0 then mpz_sgn r S else cmp_ui r ui S)"

definition mpz_cmp_si ::
  "(mpz_ref \<Rightarrow> u32 \<Rightarrow> gmp \<Rightarrow> int option) \<Rightarrow> (mpz_ref \<Rightarrow> int \<Rightarrow> gmp \<Rightarrow> int option) \<Rightarrow>
   bool \<Rightarrow> bool \<Rightarrow> mpz_ref \<Rightarrow> int \<Rightarrow> gmp \<Rightarrow> int option" where
  "mpz_cmp_si cmp_ui cmp_si const_sign const r si S =
     (if const_sign \<and> si \<ge> 0 then mpz_cmp_ui cmp_ui const r (word_of_int si) S
      else cmp_si r si S)"

definition mpq_cmp_ui ::
  "(mpz_ref \<Rightarrow> mpz_ref \<Rightarrow> gmp \<Rightarrow> int option) \<Rightarrow> (nat \<Rightarrow> u32 \<Rightarrow> u32 \<Rightarrow> gmp \<Rightarrow> int option) \<Rightarrow>
   bool \<Rightarrow> bool \<Rightarrow> nat \<Rightarrow> u32 \<Rightarrow> u32 \<Rightarrow> gmp \<Rightarrow> int option" where
  "mpq_cmp_ui mpz_cmp cmp_ui const const_eq Q nui dui S =
     (if const \<and> nui = 0 then mpq_sgn Q S
      else if const_eq \<and> nui = dui then mpz_cmp (mpq_numref Q) (mpq_denref Q) S
      else cmp_ui Q nui dui S)"

definition mpq_cmp_si ::
  "(mpz_ref \<Rightarrow> mpz_ref \<Rightarrow> gmp \<Rightarrow> int option) \<Rightarrow> (nat \<Rightarrow> u32 \<Rightarrow> u32 \<Rightarrow> gmp \<Rightarrow> int option) \<Rightarrow>
   (nat \<Rightarrow> int \<Rightarrow> u32 \<Rightarrow> gmp \<Rightarrow> int option) \<Rightarrow>
   bool \<Rightarrow> bool \<Rightarrow> bool \<Rightarrow> nat \<Rightarrow> int \<Rightarrow> u32 \<Rightarrow> gmp \<Rightarrow> int option" where
  "mpq_cmp_si mpz_cmp cmp_ui cmp_si const_sign const const_eq Q n d S =
     (if const_sign \<and> n \<ge> 0 then mpq_cmp_ui mpz_cmp cmp_ui const const_eq Q (word_of_int n) d S
      else cmp_si Q n d S)"

section \<open>The value of a variable\<close>

definition int_of :: "mem \<Rightarrow> mpz_struct \<Rightarrow> int \<Rightarrow> bool" where
  "int_of M z v \<longleftrightarrow> (\<exists>xs. holds M (mp_d z) xs \<and> int (length xs) = \<bar>mp_size z\<bar> \<and>
     (xs = [] \<or> last xs \<noteq> 0) \<and> 1 \<le> mp_alloc z \<and> \<bar>mp_size z\<bar> \<le> mp_alloc z \<and>
     room M (mp_d z) (nat (mp_alloc z)) \<and> v = sgn (mp_size z) * nval xs)"

definition int_at :: "gmp \<Rightarrow> mpz_ref \<Rightarrow> int \<Rightarrow> bool" where
  "int_at S r v \<longleftrightarrow> (\<exists>z. ints S r = Some z \<and> int_of (limbs S) z v)"

lemma GMP_ABS_abs [simp]: "GMP_ABS x = \<bar>x\<bar>"
  by (simp add: GMP_ABS_def)

lemma int_of_low:
  assumes "int_of M z v"
  obtains l where "M (mp_d z) = Some l" and "mp_size z \<noteq> 0 \<Longrightarrow> uint l = \<bar>v\<bar> mod 2 ^ 32"
    and "mp_size z = 0 \<Longrightarrow> v = 0"
proof -
  from assms obtain xs where xs: "holds M (mp_d z) xs" "int (length xs) = \<bar>mp_size z\<bar>"
    "1 \<le> mp_alloc z" "room M (mp_d z) (nat (mp_alloc z))" "v = sgn (mp_size z) * nval xs"
    unfolding int_of_def by blast
  obtain l where l: "M (mp_d z) = Some l"
    using xs(3,4) by (auto simp: room_def dest!: spec [of _ 0])
  have "uint l = \<bar>v\<bar> mod 2 ^ 32" if nz: "mp_size z \<noteq> 0"
  proof -
    obtain y ys where ys: "xs = y # ys"
      using nz xs(2) by (cases xs) auto
    then have "y = l"
      using xs(1) l by (auto simp: holds_def)
    moreover have "\<bar>v\<bar> = nval xs"
      using nz xs(5) nval_nonneg [of xs] by (simp add: abs_mult abs_sgn_eq)
    ultimately show ?thesis
      using ys uint_lt2p [of l] by simp
  qed
  then show thesis
    using that [OF l] xs(5) by simp
qed

lemma set_size_int_at:
  assumes "int_at S w v" and "\<And>n. \<bar>f n\<bar> = \<bar>n\<bar>" 
    and "\<And>n k. 0 \<le> k \<Longrightarrow> sgn (f n) * k = g (sgn n * k)"
  shows "\<exists>S'. set_size f w S = Some S' \<and> int_at S' w (g v) \<and>
    (\<forall>r x. r \<noteq> w \<longrightarrow> int_at S r x \<longrightarrow> int_at S' r x)"
proof -
  obtain z xs where z: "ints S w = Some z" "holds (limbs S) (mp_d z) xs" "int (length xs) = \<bar>mp_size z\<bar>"
    "xs = [] \<or> last xs \<noteq> 0" "1 \<le> mp_alloc z" "\<bar>mp_size z\<bar> \<le> mp_alloc z"
    "room (limbs S) (mp_d z) (nat (mp_alloc z))" "v = sgn (mp_size z) * nval xs"
    using assms(1) unfolding int_at_def int_of_def by blast
  have "int_of (limbs S) (z\<lparr>mp_size := f (mp_size z)\<rparr>) (g v)"
    unfolding int_of_def using z assms(2,3) by (intro exI [of _ xs]) simp
  then show ?thesis
    using z(1) by (auto simp: set_size_def int_at_def)
qed

lemma nval_digit: "i < length xs \<Longrightarrow> nval xs div 2 ^ (32 * i) mod 2 ^ 32 = uint (xs ! i)"
proof (induction xs arbitrary: i)
  case (Cons x xs)
  show ?case
  proof (cases i)
    case 0
    then show ?thesis using uint_lt2p [of x] by simp
  next
    case (Suc j)
    have "nval (x # xs) div 2 ^ (32 * i) = nval (x # xs) div 2 ^ 32 div 2 ^ (32 * j)"
      unfolding Suc by (simp add: zdiv_zmult2_eq power_add)
    also have "nval (x # xs) div 2 ^ 32 = nval xs"
      using uint_lt2p [of x] by simp
    finally show ?thesis
      using Cons Suc by simp
  qed
qed simp

lemma nval_beyond: "length xs \<le> i \<Longrightarrow> nval xs div 2 ^ (32 * i) = 0"
proof -
  assume "length xs \<le> i"
  then have "(2 :: int) ^ (32 * length xs) \<le> 2 ^ (32 * i)"
    by (intro power_increasing) auto
  then show ?thesis
    using nval_less [of xs] nval_nonneg [of xs] by (intro div_pos_pos_trivial) linarith+
qed

lemma nval_top_limb: "xs \<noteq> [] \<Longrightarrow> last xs \<noteq> 0 \<Longrightarrow> 2 ^ (32 * (length xs - 1)) \<le> nval xs"
proof (induction xs rule: rev_induct)
  case (snoc x xs)
  then have "uint x \<noteq> 0"
    by (simp add: uint_0_iff)
  then have "1 \<le> uint x"
    using uint_ge_0 [of x] by linarith
  then have "2 ^ (32 * length xs) * 1 \<le> 2 ^ (32 * length xs) * uint x"
    by (intro mult_left_mono) auto
  then have "2 ^ (32 * length xs) \<le> nval xs + 2 ^ (32 * length xs) * uint x"
    using nval_nonneg [of xs] by linarith
  then show ?case by simp
qed simp

text \<open>The magnitude behind a value.\<close>

lemma int_of_mag:
  assumes "int_of M z v"
  obtains xs where "holds M (mp_d z) xs" "int (length xs) = \<bar>mp_size z\<bar>" "xs = [] \<or> last xs \<noteq> 0"
    "\<bar>v\<bar> = nval xs" "sgn v = sgn (mp_size z)"
proof -
  obtain xs where xs: "holds M (mp_d z) xs" "int (length xs) = \<bar>mp_size z\<bar>" "xs = [] \<or> last xs \<noteq> 0"
    "v = sgn (mp_size z) * nval xs"
    using assms unfolding int_of_def by blast
  have "0 < nval xs" if "mp_size z \<noteq> 0"
  proof -
    have "xs \<noteq> []"
      using xs(2) that by auto
    then have "2 ^ (32 * (length xs - 1)) \<le> nval xs"
      using xs(3) by (intro nval_top_limb) auto
    then show ?thesis
      using zero_less_power [of "2 :: int" "32 * (length xs - 1)"] by linarith
  qed
  then have "\<bar>v\<bar> = nval xs" "sgn v = sgn (mp_size z)"
    using xs(2,4) by (cases "mp_size z = 0"; simp add: abs_mult abs_sgn_eq sgn_mult)+
  with xs that show thesis
    by blast
qed

section \<open>Reading integers\<close>

lemma mpz_getlimbn_value:
  assumes "int_at S r v" and "0 \<le> n"
  shows "\<exists>l. mpz_getlimbn r n S = Some l \<and> uint l = \<bar>v\<bar> div 2 ^ (32 * nat n) mod 2 ^ 32"
proof -
  obtain z where z: "ints S r = Some z" "int_of (limbs S) z v"
    using assms(1) unfolding int_at_def by blast
  obtain xs where xs: "holds (limbs S) (mp_d z) xs" "int (length xs) = \<bar>mp_size z\<bar>" "\<bar>v\<bar> = nval xs"
    using int_of_mag [OF z(2)] by metis
  show ?thesis
  proof (cases "n < \<bar>mp_size z\<bar>")
    case True
    then have "nat n < length xs"
      using xs(2) assms(2) by linarith
    then show ?thesis
      using True xs assms(2) z(1) nval_digit [of "nat n" xs]
      by (auto simp: mpz_getlimbn_def holds_def dest!: spec [of _ "nat n"])
  next
    case False
    then have "length xs \<le> nat n"
      using xs(2) by linarith
    then show ?thesis
      using False xs(3) z(1) nval_beyond [of xs "nat n"] by (simp add: mpz_getlimbn_def)
  qed
qed

lemma mpz_get_ui_value:
  assumes "int_at S r v"
  shows "\<exists>l. mpz_get_ui r S = Some l \<and> uint l = \<bar>v\<bar> mod 2 ^ 32"
proof -
  obtain z where z: "ints S r = Some z" "int_of (limbs S) z v"
    using assms unfolding int_at_def by blast
  then show ?thesis
    by (elim int_of_low) (auto simp: mpz_get_ui_def)
qed

lemma mpz_size_value:
  assumes "int_at S r v"
  shows "\<exists>n. mpz_size r S = Some (int n) \<and> \<bar>v\<bar> < 2 ^ (32 * n) \<and> (0 < n \<longrightarrow> 2 ^ (32 * (n - 1)) \<le> \<bar>v\<bar>)"
proof -
  obtain z where z: "ints S r = Some z" "int_of (limbs S) z v"
    using assms unfolding int_at_def by blast
  obtain xs where xs: "int (length xs) = \<bar>mp_size z\<bar>" "\<bar>v\<bar> = nval xs" "xs = [] \<or> last xs \<noteq> 0"
    using int_of_mag [OF z(2)] by metis
  then show ?thesis
    using z(1) nval_less [of xs] nval_top_limb [of xs] by (intro exI [of _ "length xs"]) (auto simp: mpz_size_def)
qed

lemma mpz_sgn_value: "int_at S r v \<Longrightarrow> mpz_sgn r S = Some (sgn v)"
proof -
  assume "int_at S r v"
  then obtain z where z: "ints S r = Some z" "int_of (limbs S) z v"
    unfolding int_at_def by blast
  have "sgn v = sgn (mp_size z)"
    using int_of_mag [OF z(2)] by metis
  then show ?thesis
    using z(1) by (auto simp: mpz_sgn_def sgn_if)
qed

lemma fits_utype_value:
  assumes "int_at S r v"
  shows "GMPZ_FITS_UTYPE_P maxval r S = Some (if 0 \<le> v \<and> v \<le> uint maxval then 1 else 0)"
proof -
  obtain z where z: "ints S r = Some z" "int_of (limbs S) z v"
    using assms unfolding int_at_def by blast
  obtain xs where xs: "holds (limbs S) (mp_d z) xs" "int (length xs) = \<bar>mp_size z\<bar>"
    "xs = [] \<or> last xs \<noteq> 0" "\<bar>v\<bar> = nval xs" "sgn v = sgn (mp_size z)"
    using int_of_mag [OF z(2)] by metis
  consider "mp_size z = 0" | "mp_size z = 1" | "mp_size z < 0" | "1 < mp_size z"
    by linarith
  then show ?thesis
  proof cases
    case 2
    then obtain x where "xs = [x]"
      using xs(2) by (cases xs) auto
    then have "limbs S (mp_d z) = Some x" "v = uint x"
      using xs 2 by (auto simp: holds_def sgn_if split: if_splits)
    then show ?thesis
      using z(1) 2 by (simp add: GMPZ_FITS_UTYPE_P_def word_le_def)
  next
    case 4
    then have "0 < v" "length xs \<ge> 2"
      using xs(2,5) by (auto simp: sgn_if split: if_splits)
    moreover have "2 ^ 32 \<le> nval xs"
      using nval_top_limb [of xs] xs(3) calculation(2)
        power_increasing [of 32 "32 * (length xs - 1)" "2 :: int"] by (cases xs) auto
    ultimately show ?thesis
      using z(1) 4 xs(4) uint_lt2p [of maxval] by (simp add: GMPZ_FITS_UTYPE_P_def)
  next
    case 3
    then show ?thesis
      using z(1) xs(5) by (auto simp: GMPZ_FITS_UTYPE_P_def sgn_if split: if_splits)
  next
    case 1
    then show ?thesis
      using z(1) xs(5) by (auto simp: GMPZ_FITS_UTYPE_P_def sgn_if split: if_splits)
  qed
qed

lemma mpz_odd_value:
  assumes "int_at S r v"
  shows "mpz_odd_p r S = Some (if odd v then 1 else 0)" "mpz_even_p r S = Some (if even v then 1 else 0)"
proof -
  obtain z where z: "ints S r = Some z" "int_of (limbs S) z v"
    using assms unfolding int_at_def by blast
  from z(2) obtain l where l: "limbs S (mp_d z) = Some l"
    "mp_size z \<noteq> 0 \<Longrightarrow> uint l = \<bar>v\<bar> mod 2 ^ 32" "mp_size z = 0 \<Longrightarrow> v = 0"
    using int_of_low by metis
  have "even (uint l) \<longleftrightarrow> even v" if "mp_size z \<noteq> 0"
    using l(2) [OF that] by (simp add: dvd_mod_iff)
  then have "1 AND l = (if odd v then 1 else 0)" if "mp_size z \<noteq> 0"
    using that by (simp add: one_and_eq mod_2_eq_odd) (transfer, auto)
  then show "mpz_odd_p r S = Some (if odd v then 1 else 0)"
    using z(1) l by (auto simp: mpz_odd_p_def)
  then show "mpz_even_p r S = Some (if even v then 1 else 0)"
    by (simp add: mpz_even_p_def)
qed

section \<open>The library functions that are called\<close>

text \<open>
  \<open>mpz_set\<close> and \<open>mpq_set\<close>, called for two different variables that share no limbs, copy a value
  and keep the variables that share no limbs with the destination. Nothing is said about a
  call with the destination as the source.
\<close>

definition limb_block :: "gmp \<Rightarrow> mpz_ref \<Rightarrow> int set" where
  "limb_block S r = (case ints S r of None \<Rightarrow> {} | Some z \<Rightarrow> {mp_d z ..< mp_d z + mp_alloc z})"

definition separate :: "gmp \<Rightarrow> mpz_ref \<Rightarrow> mpz_ref \<Rightarrow> bool" where
  "separate S w r \<longleftrightarrow> limb_block S w \<inter> limb_block S r = {}"

definition mpz_set_spec :: "(mpz_ref \<Rightarrow> mpz_ref \<Rightarrow> gmp \<Rightarrow> gmp option) \<Rightarrow> bool" where
  "mpz_set_spec f \<longleftrightarrow> (\<forall>w u S v v'. w \<noteq> u \<and> separate S w u \<and> int_at S u v \<and> int_at S w v' \<longrightarrow>
     (\<exists>S'. f w u S = Some S' \<and> int_at S' w v \<and>
        (\<forall>r x. r \<noteq> w \<and> separate S w r \<longrightarrow> int_at S r x \<longrightarrow> int_at S' r x)))"

text \<open>The limbs of a rational are those of its numerator and of its denominator.\<close>

definition separate_rat :: "gmp \<Rightarrow> nat \<Rightarrow> mpz_ref \<Rightarrow> bool" where
  "separate_rat S w r \<longleftrightarrow> separate S (Num w) r \<and> separate S (Den w) r"

definition mpq_set_spec :: "(nat \<Rightarrow> nat \<Rightarrow> gmp \<Rightarrow> gmp option) \<Rightarrow> bool" where
  "mpq_set_spec f \<longleftrightarrow> (\<forall>w u S a b c d. w \<noteq> u \<and>
     separate_rat S w (Num u) \<and> separate_rat S w (Den u) \<and>
     int_at S (Num u) a \<and> int_at S (Den u) b \<and> int_at S (Num w) c \<and> int_at S (Den w) d \<longrightarrow>
     (\<exists>S'. f w u S = Some S' \<and> int_at S' (Num w) a \<and> int_at S' (Den w) b \<and>
        (\<forall>r x. r \<noteq> Num w \<and> r \<noteq> Den w \<and> separate_rat S w r \<longrightarrow> int_at S r x \<longrightarrow> int_at S' r x)))"

definition mpn_perfect_square_p_spec :: "(int \<Rightarrow> int \<Rightarrow> mem \<Rightarrow> int option) \<Rightarrow> bool" where
  "mpn_perfect_square_p_spec f \<longleftrightarrow> (\<forall>p xs M. xs \<noteq> [] \<and> last xs \<noteq> 0 \<and> holds M p xs \<longrightarrow>
     (\<exists>b. f p (int (length xs)) M = Some b \<and> (b \<noteq> 0 \<longleftrightarrow> (\<exists>k. nval xs = k * k))))"

definition cmp_ui_spec :: "(mpz_ref \<Rightarrow> u32 \<Rightarrow> gmp \<Rightarrow> int option) \<Rightarrow> bool" where
  "cmp_ui_spec f \<longleftrightarrow> (\<forall>r S v ui. int_at S r v \<longrightarrow> (\<exists>c. f r ui S = Some c \<and> sgn c = sgn (v - uint ui)))"

definition cmp_si_spec :: "(mpz_ref \<Rightarrow> int \<Rightarrow> gmp \<Rightarrow> int option) \<Rightarrow> bool" where
  "cmp_si_spec f \<longleftrightarrow> (\<forall>r S v si. int_at S r v \<longrightarrow> (\<exists>c. f r si S = Some c \<and> sgn c = sgn (v - si)))"

text \<open>
  A function with the behaviour of \<open>mpz_set\<close>, sharing the limbs, and comparisons that compute
  the value.
\<close>

definition ref_mpz_set :: "mpz_ref \<Rightarrow> mpz_ref \<Rightarrow> gmp \<Rightarrow> gmp option" where
  "ref_mpz_set w u S = do { z \<leftarrow> ints S u; Some (S\<lparr>ints := (ints S)(w \<mapsto> z)\<rparr>) }"

definition value_of :: "gmp \<Rightarrow> mpz_struct \<Rightarrow> int" where
  "value_of S z = sgn (mp_size z) * nval (load (limbs S) (mp_d z) \<bar>mp_size z\<bar>)"

definition ref_cmp_ui :: "mpz_ref \<Rightarrow> u32 \<Rightarrow> gmp \<Rightarrow> int option" where
  "ref_cmp_ui r ui S = do { z \<leftarrow> ints S r; Some (value_of S z - uint ui) }"

definition ref_cmp_si :: "mpz_ref \<Rightarrow> int \<Rightarrow> gmp \<Rightarrow> int option" where
  "ref_cmp_si r si S = do { z \<leftarrow> ints S r; Some (value_of S z - si) }"

lemma ref_mpz_set_spec: "mpz_set_spec ref_mpz_set"
  by (auto simp: mpz_set_spec_def ref_mpz_set_def int_at_def)

lemma value_of_int: "int_of (limbs S) z v \<Longrightarrow> value_of S z = v"
  by (auto simp: value_of_def int_of_def load_holds dest!: sym [of "int _"])

lemma ref_cmp_specs: "cmp_ui_spec ref_cmp_ui" "cmp_si_spec ref_cmp_si"
  by (auto simp: cmp_ui_spec_def cmp_si_spec_def ref_cmp_ui_def ref_cmp_si_def int_at_def value_of_int)

section \<open>Absolute value, negation and comparison\<close>

text \<open>Copy unless the pointers are equal, then change the sign: both cases at once.\<close>

lemma copy_then_sign:
  assumes "mpz_set_spec mpz_set" and "w = u \<or> separate S w u" and "int_at S u v" and "int_at S w v'"
    and "\<And>n. \<bar>f n\<bar> = \<bar>n\<bar>" and "\<And>n k. 0 \<le> k \<Longrightarrow> sgn (f n) * k = g (sgn n * k)"
  shows "\<exists>S'. Option.bind (if w \<noteq> u then mpz_set w u S else Some S) (set_size f w) = Some S' \<and>
    int_at S' w (g v) \<and> (\<forall>r x. r \<noteq> w \<and> separate S w r \<longrightarrow> int_at S r x \<longrightarrow> int_at S' r x)"
proof -
  obtain S1 where S1: "(if w \<noteq> u then mpz_set w u S else Some S) = Some S1" "int_at S1 w v"
    "\<forall>r x. r \<noteq> w \<and> separate S w r \<longrightarrow> int_at S r x \<longrightarrow> int_at S1 r x"
  proof (cases "w = u")
    case True
    then show thesis using that [of S] assms(3) by simp
  next
    case False
    then obtain S' where "mpz_set w u S = Some S'" "int_at S' w v"
      "\<forall>r x. r \<noteq> w \<and> separate S w r \<longrightarrow> int_at S r x \<longrightarrow> int_at S' r x"
      using assms(1-4) unfolding mpz_set_spec_def by blast
    with False that show thesis by simp
  qed
  then show ?thesis
    using set_size_int_at [where f = f and g = g, OF S1(2) assms(5,6)] by auto
qed

lemma sign_changes:
  "\<bar>GMP_ABS n\<bar> = \<bar>n\<bar>" "0 \<le> k \<Longrightarrow> sgn (GMP_ABS n) * k = \<bar>sgn n * k\<bar>"
  "\<bar>- n\<bar> = \<bar>n\<bar>" "0 \<le> k \<Longrightarrow> sgn (- n) * k = - (sgn n * k)" for n k :: int
  by (auto simp: sgn_if abs_mult)

lemma mpz_abs_value:
  assumes "mpz_set_spec mpz_set" and "w = u \<or> separate S w u" and "int_at S u v" and "int_at S w v'"
  shows "\<exists>S'. mpz_abs mpz_set w u S = Some S' \<and> int_at S' w \<bar>v\<bar> \<and>
    (\<forall>r x. r \<noteq> w \<and> separate S w r \<longrightarrow> int_at S r x \<longrightarrow> int_at S' r x)"
  unfolding mpz_abs_def
  using copy_then_sign [where f = GMP_ABS and g = abs, OF assms sign_changes(1,2)] .

lemma mpz_neg_value:
  assumes "mpz_set_spec mpz_set" and "w = u \<or> separate S w u" and "int_at S u v" and "int_at S w v'"
  shows "\<exists>S'. mpz_neg mpz_set w u S = Some S' \<and> int_at S' w (- v) \<and>
    (\<forall>r x. r \<noteq> w \<and> separate S w r \<longrightarrow> int_at S r x \<longrightarrow> int_at S' r x)"
  unfolding mpz_neg_def
  using copy_then_sign [where f = uminus and g = uminus, OF assms sign_changes(3,4)] .

lemma mpz_perfect_square_value:
  assumes "mpn_perfect_square_p_spec sq" and "int_at S r v"
  shows "\<exists>b. mpz_perfect_square_p sq r S = Some b \<and> (b \<noteq> 0 \<longleftrightarrow> (\<exists>k. v = k * k))"
proof -
  obtain z where z: "ints S r = Some z" "int_of (limbs S) z v"
    using assms(2) unfolding int_at_def by blast
  obtain xs where xs: "holds (limbs S) (mp_d z) xs" "int (length xs) = \<bar>mp_size z\<bar>"
    "xs = [] \<or> last xs \<noteq> 0" "\<bar>v\<bar> = nval xs" "sgn v = sgn (mp_size z)"
    using int_of_mag [OF z(2)] by metis
  show ?thesis
  proof (cases "0 < mp_size z")
    case True
    then have "xs \<noteq> []" "last xs \<noteq> 0" "int (length xs) = mp_size z" "v = nval xs"
      using xs(2-5) by (auto simp: sgn_if split: if_splits)
    then show ?thesis
      using assms(1) xs(1) z(1) True unfolding mpn_perfect_square_p_spec_def
      by (fastforce simp: mpz_perfect_square_p_def)
  next
    case False
    then have "v = 0 \<longleftrightarrow> mp_size z = 0" "v \<le> 0"
      using xs(5) by (auto simp: sgn_if split: if_splits)
    moreover have "(\<exists>k. v = k * k) \<longleftrightarrow> v = 0"
      using zero_le_square [of "k :: int" for k] \<open>v \<le> 0\<close> by (metis antisym mult_zero_left)
    ultimately show ?thesis
      using z(1) False by (simp add: mpz_perfect_square_p_def Let_def)
  qed
qed

lemma mpz_cmp_value:
  assumes "cmp_ui_spec cmp_ui" and "cmp_si_spec cmp_si" and "int_at S r v"
  shows "\<exists>c. mpz_cmp_ui cmp_ui const r ui S = Some c \<and> sgn c = sgn (v - uint ui)"
    and "si < 2 ^ 32 \<Longrightarrow>
      \<exists>c. mpz_cmp_si cmp_ui cmp_si const_sign const r si S = Some c \<and> sgn c = sgn (v - si)"
proof -
  have ui: "\<exists>c. mpz_cmp_ui cmp_ui const r ui S = Some c \<and> sgn c = sgn (v - uint ui)" for ui
    using assms(1,3) mpz_sgn_value [OF assms(3)] by (auto simp: mpz_cmp_ui_def cmp_ui_spec_def)
  then show "\<exists>c. mpz_cmp_ui cmp_ui const r ui S = Some c \<and> sgn c = sgn (v - uint ui)" .
  assume "si < 2 ^ 32"
  then show "\<exists>c. mpz_cmp_si cmp_ui cmp_si const_sign const r si S = Some c \<and> sgn c = sgn (v - si)"
    using ui [of "word_of_int si"] assms(2,3)
    by (auto simp: mpz_cmp_si_def cmp_si_spec_def uint_word_of_int mod_pos_pos_trivial)
qed

text \<open>The same for the numerator of a rational; the denominator is copied.\<close>

lemma mpq_copy_then_sign:
  assumes "mpq_set_spec mpq_set"
    and "w = u \<or> separate_rat S w (Num u) \<and> separate_rat S w (Den u)"
    and "int_at S (Num u) a" "int_at S (Den u) b" "int_at S (Num w) c" "int_at S (Den w) d"
    and "\<And>n. \<bar>f n\<bar> = \<bar>n\<bar>" and "\<And>n k. 0 \<le> k \<Longrightarrow> sgn (f n) * k = g (sgn n * k)"
  shows "\<exists>S'. Option.bind (if w \<noteq> u then mpq_set w u S else Some S) (set_size f (mpq_numref w)) = Some S' \<and>
    int_at S' (Num w) (g a) \<and> int_at S' (Den w) b \<and>
    (\<forall>r x. r \<noteq> Num w \<and> r \<noteq> Den w \<and> separate_rat S w r \<longrightarrow> int_at S r x \<longrightarrow> int_at S' r x)"
proof -
  obtain S1 where S1: "(if w \<noteq> u then mpq_set w u S else Some S) = Some S1" "int_at S1 (Num w) a"
    "int_at S1 (Den w) b" "\<forall>r x. r \<noteq> Num w \<and> r \<noteq> Den w \<and> separate_rat S w r \<longrightarrow> int_at S r x \<longrightarrow> int_at S1 r x"
  proof (cases "w = u")
    case True
    then show thesis using that [of S] assms(3,4) by simp
  next
    case False
    then obtain S' where "mpq_set w u S = Some S'" "int_at S' (Num w) a" "int_at S' (Den w) b"
      "\<forall>r x. r \<noteq> Num w \<and> r \<noteq> Den w \<and> separate_rat S w r \<longrightarrow> int_at S r x \<longrightarrow> int_at S' r x"
      using assms(1-6) unfolding mpq_set_spec_def by blast
    with False that show thesis by simp
  qed
  then show ?thesis
    using set_size_int_at [where f = f and g = g, OF S1(2) assms(7,8)] by (auto simp: mpq_numref_def)
qed

lemma mpq_sign_value:
  assumes "mpq_set_spec mpq_set"
    and "w = u \<or> separate_rat S w (Num u) \<and> separate_rat S w (Den u)"
    and "int_at S (Num u) a" "int_at S (Den u) b" "int_at S (Num w) c" "int_at S (Den w) d"
  shows "\<exists>S'. mpq_abs mpq_set w u S = Some S' \<and> int_at S' (Num w) \<bar>a\<bar> \<and> int_at S' (Den w) b"
    and "\<exists>S'. mpq_neg mpq_set w u S = Some S' \<and> int_at S' (Num w) (- a) \<and> int_at S' (Den w) b"
  using mpq_copy_then_sign [where f = GMP_ABS and g = abs, OF assms sign_changes(1,2)]
    mpq_copy_then_sign [where f = uminus and g = uminus, OF assms sign_changes(3,4)]
  unfolding mpq_abs_def mpq_neg_def by blast+

text \<open>\<open>mpz_popcount\<close>: negative numbers have infinitely many ones in two's complement.\<close>

definition mpn_popcount_spec :: "(int \<Rightarrow> int \<Rightarrow> mem \<Rightarrow> u32 option) \<Rightarrow> bool" where
  "mpn_popcount_spec f \<longleftrightarrow> (\<forall>p xs M. xs \<noteq> [] \<and> holds M p xs \<longrightarrow>
     f p (int (length xs)) M = Some (of_nat (card {i. bit (nval xs) i})))"

lemma mpz_popcount_value:
  assumes "mpn_popcount_spec pop" and "int_at S r v"
  shows "mpz_popcount pop r S = Some (if v < 0 then - 1 else of_nat (card {i. bit v i}))"
proof -
  obtain z where z: "ints S r = Some z" "int_of (limbs S) z v"
    using assms(2) unfolding int_at_def by blast
  obtain xs where xs: "holds (limbs S) (mp_d z) xs" "int (length xs) = \<bar>mp_size z\<bar>"
    "\<bar>v\<bar> = nval xs" "sgn v = sgn (mp_size z)"
    using int_of_mag [OF z(2)] by metis
  have "xs = [] \<Longrightarrow> mp_size z = 0"
    using xs(2) by auto
  then consider "mp_size z < 0" "v < 0" | "mp_size z = 0" "v = 0"
    | "0 < mp_size z" "v = nval xs" "xs \<noteq> []" "int (length xs) = mp_size z"
    using xs by (cases "mp_size z" "0 :: int" rule: linorder_cases) (auto simp: sgn_if split: if_splits)
  then show ?thesis
  proof cases
    case 3
    then have "pop (mp_d z) (mp_size z) (limbs S) = Some (of_nat (card {i. bit (nval xs) i}))"
      using assms(1) xs(1) unfolding mpn_popcount_spec_def by metis
    moreover have "\<not> nval xs < 0"
      by (simp add: not_less)
    ultimately show ?thesis
      using z(1) 3 by (simp add: mpz_popcount_def)
  qed (use z(1) in \<open>simp_all add: mpz_popcount_def bot_fun_def\<close>)
qed

section \<open>Further theorems\<close>

text \<open>
  \<open>mpz_abs\<close> and \<open>mpz_neg\<close> set the destination to the absolute value
  and to the negation of the source, which is the destination itself or a variable that shares
  no limbs with it, and keep every other variable that shares no limbs with the destination. The
  hypothesis on \<open>mpz_set\<close> says nothing about a call with equal arguments: the
  result in place rests on the pointer comparison of the code.
\<close>

theorem integer_signs:
  assumes "mpz_set_spec mpz_set" and "w = u \<or> separate S w u" and "int_at S u v" and "int_at S w v'"
  shows "(\<exists>S'. mpz_abs mpz_set w u S = Some S' \<and> int_at S' w \<bar>v\<bar> \<and>
      (\<forall>r x. r \<noteq> w \<and> separate S w r \<longrightarrow> int_at S r x \<longrightarrow> int_at S' r x)) \<and>
    (\<exists>S'. mpz_neg mpz_set w u S = Some S' \<and> int_at S' w (- v) \<and>
      (\<forall>r x. r \<noteq> w \<and> separate S w r \<longrightarrow> int_at S r x \<longrightarrow> int_at S' r x))"
  by (intro conjI mpz_abs_value [OF assms] mpz_neg_value [OF assms])

text \<open>
  What the reading functions return for a variable with value v: \<open>mpz_get_ui\<close> the
  low 32 bits of its magnitude, \<open>mpz_getlimbn\<close> any limb of it (zero beyond the
  last), \<open>mpz_sgn\<close> the sign, \<open>mpz_odd_p\<close> and \<open>mpz_even_p\<close>
  the parity, also of negative numbers.
\<close>

theorem integer_reads:
  assumes "int_at S r v"
  shows "\<exists>l. mpz_get_ui r S = Some l \<and> uint l = \<bar>v\<bar> mod 2 ^ 32"
    and "0 \<le> n \<Longrightarrow> \<exists>l. mpz_getlimbn r n S = Some l \<and> uint l = \<bar>v\<bar> div 2 ^ (32 * nat n) mod 2 ^ 32"
    and "mpz_sgn r S = Some (sgn v)"
    and "mpz_odd_p r S = Some (if odd v then 1 else 0)" and "mpz_even_p r S = Some (if even v then 1 else 0)"
  using mpz_get_ui_value [OF assms] mpz_getlimbn_value [OF assms] mpz_sgn_value [OF assms] mpz_odd_value [OF assms]
  by blast+

section \<open>Properties\<close>

text \<open>
  C23. The size tests are exact: \<open>mpz_fits_uint_p\<close>, \<open>mpz_fits_ulong_p\<close>
  and \<open>mpz_fits_ushort_p\<close> say whether the value is between zero and the largest
  value of the type, and \<open>mpz_size\<close> is the smallest number of limbs that holds the
  magnitude.
\<close>

theorem integer_bounds:
  assumes "int_at S r v"
  shows "mpz_fits_uint_p r S = Some (if 0 \<le> v \<and> v < 2 ^ 32 then 1 else 0) \<and>
    mpz_fits_ulong_p r S = Some (if 0 \<le> v \<and> v < 2 ^ 32 then 1 else 0) \<and>
    mpz_fits_ushort_p r S = Some (if 0 \<le> v \<and> v < 2 ^ 16 then 1 else 0) \<and>
    (\<exists>n. mpz_size r S = Some (int n) \<and> \<bar>v\<bar> < 2 ^ (32 * n) \<and> (0 < n \<longrightarrow> 2 ^ (32 * (n - 1)) \<le> \<bar>v\<bar>))"
  using fits_utype_value [OF assms] mpz_size_value [OF assms]
  by (auto simp: mpz_fits_uint_p_def mpz_fits_ulong_p_def mpz_fits_ushort_p_def)

theorem integer_bounds_witness:
  "mpz_fits_ushort_p (Var 0) \<lparr>limbs = (\<lambda>_. Some 0x10000), ints = [Var 0 \<mapsto> \<lparr>mp_alloc = 1, mp_size = 1, mp_d = 0\<rparr>]\<rparr> = Some 0"
proof -
  let ?S = "\<lparr>limbs = (\<lambda>_. Some 0x10000), ints = [Var 0 \<mapsto> \<lparr>mp_alloc = 1, mp_size = 1, mp_d = 0\<rparr>]\<rparr>"
  have "int_at ?S (Var 0) 0x10000"
    by (auto simp: int_at_def int_of_def holds_def room_def intro!: exI [of _ "[0x10000]"])
  from integer_bounds [OF this] show ?thesis
    by simp
qed

end
