(* ===== verification/Tlv_Stream.thy ===== *)
theory Tlv_Stream
  imports C_Layout Swab
begin

text \<open>
  Streams of records in a byte buffer: netlink messages, route attributes and TIPC
  configuration values all consist of a header with a length field, the payload, and padding
  to a multiple of four. This theory has the buffer accesses, the walk over such a stream in
  terms of natural numbers, and the contract \<open>record_stream\<close> under which the walk is safe,
  ends, and finds the records that were packed.

  A buffer is a list of bytes; an access outside of it is \<open>None\<close>. The machine is
  little-endian. In the walk the number of remaining bytes is an integer, because the padding
  of the last record may be missing and the macros then count below zero.
\<close>

section \<open>Buffers\<close>

definition buf_rd :: "u8 list \<Rightarrow> nat \<Rightarrow> nat \<Rightarrow> u8 list option" where
  "buf_rd buf off n = (if off + n \<le> length buf then Some (take n (drop off buf)) else None)"

definition buf_wr :: "nat \<Rightarrow> u8 list \<Rightarrow> u8 list \<Rightarrow> u8 list option" where
  "buf_wr off bs buf =
     (if off + length bs \<le> length buf
      then Some (take off buf @ bs @ drop (off + length bs) buf) else None)"

primrec le_word :: "u8 list \<Rightarrow> 'a::len word" where
  "le_word [] = 0"
| "le_word (b # bs) = ucast b OR push_bit 8 (le_word bs)"

definition load16 :: "u8 list \<Rightarrow> nat \<Rightarrow> u16 option" where
  "load16 buf off = map_option le_word (buf_rd buf off 2)"

definition load32 :: "u8 list \<Rightarrow> nat \<Rightarrow> u32 option" where
  "load32 buf off = map_option le_word (buf_rd buf off 4)"

definition store16 :: "nat \<Rightarrow> u16 \<Rightarrow> u8 list \<Rightarrow> u8 list option" where
  "store16 off x = buf_wr off (bytes_of 2 x)"

definition store32 :: "nat \<Rightarrow> u32 \<Rightarrow> u8 list \<Rightarrow> u8 list option" where
  "store32 off x = buf_wr off (bytes_of 4 x)"

lemma bytes_of_length [simp]: "length (bytes_of n x) = n"
  by (simp add: bytes_of_def)

lemma le_word_bytes [simp]: "le_word (bytes_of 2 (x :: u16)) = x" "le_word (bytes_of 4 (y :: u32)) = y"
  by (simp_all add: bytes_of_def upt_rec bits16, simp add: bits32)

lemma unat_promote: "unat (promote (l :: u16)) = unat l"
proof -
  have "unat l < 2 ^ 32"
    using unsigned_less [where 'a = nat, of l] by simp
  then show ?thesis
    by (simp add: unsigned_ucast_eq take_bit_nat_eq_self)
qed

lemma load_defined:
  "off + 2 \<le> length buf \<Longrightarrow> \<exists>x. load16 buf off = Some x"
  "off + 4 \<le> length buf \<Longrightarrow> \<exists>y. load32 buf off = Some y"
  by (simp_all add: load16_def load32_def buf_rd_def)

lemma load_at:
  "load16 (pre @ bytes_of 2 x @ post) (length pre) = Some x"
  "load32 (pre @ bytes_of 4 y @ post) (length pre) = Some y"
  by (simp_all add: load16_def load32_def buf_rd_def)

lemma buf_rd_at: "buf_rd (pre @ bs @ post) (length pre) (length bs) = Some bs"
  by (simp add: buf_rd_def)

lemma buf_wr_at: "length old = length bs \<Longrightarrow> buf_wr (length pre) bs (pre @ old @ post) = Some (pre @ bs @ post)"
  by (simp add: buf_wr_def)

lemma buf_split:
  assumes "off + n \<le> length buf"
  obtains pre bs post where "buf = pre @ bs @ post" "length pre = off" "length bs = n"
proof -
  have "buf = take off buf @ take n (drop off buf) @ drop n (drop off buf)"
    by (simp del: drop_drop)
  then show thesis
    using assms by (intro that [of "take off buf" "take n (drop off buf)" "drop n (drop off buf)"]) auto
qed

section \<open>Walking over a stream\<close>

text \<open>
  The loop that the \<open>_OK\<close> and \<open>_NEXT\<close> macros are made for, in natural numbers: it returns the
  offset and the length of each record it visits.
\<close>

partial_function (option) stream_walk ::
  "nat \<Rightarrow> (u8 list \<Rightarrow> nat \<Rightarrow> nat option) \<Rightarrow> u8 list \<Rightarrow> nat \<Rightarrow> int \<Rightarrow> (nat \<times> nat) list option" where
  "stream_walk hdr len_at buf off n =
     (if n < int hdr then Some []
      else Option.bind (len_at buf off) (\<lambda>l.
        if l < hdr \<or> n < int l then Some []
        else Option.bind (stream_walk hdr len_at buf (off + round_up 4 l) (n - int (round_up 4 l)))
          (\<lambda>rest. Some ((off, l) # rest))))"

definition padded :: "u8 list \<Rightarrow> u8 list" where
  "padded bs = bs @ replicate (round_up 4 (length bs) - length bs) 0"

definition pack :: "('r \<Rightarrow> u8 list) \<Rightarrow> 'r list \<Rightarrow> u8 list" where
  "pack enc rs = concat (map (\<lambda>r. padded (enc r)) rs)"

definition inside :: "nat \<Rightarrow> nat \<Rightarrow> int \<Rightarrow> (nat \<times> nat) list \<Rightarrow> bool" where
  "inside hdr off n rs \<longleftrightarrow>
     list_all (\<lambda>(p, l). off \<le> p \<and> hdr \<le> l \<and> int (p + l) \<le> int off + n) rs \<and>
     sorted_wrt (\<lambda>(p, l) (p', l'). p + l \<le> p') rs"

lemma round_up_4_ge: "n \<le> round_up 4 n"
  by (rule round_up_ge) simp

lemma padded_length [simp]: "length (padded bs) = round_up 4 (length bs)"
  using round_up_4_ge [of "length bs"] by (simp add: padded_def)

lemma inside_Cons:
  assumes "inside hdr (off + round_up 4 l) (n - int (round_up 4 l)) rs" and "hdr \<le> l" and "int l \<le> n"
  shows "inside hdr off n ((off, l) # rs)"
  using assms round_up_4_ge [of l] by (fastforce simp: inside_def list_all_iff)

locale record_stream =
  fixes hdr :: nat
    and len_at :: "u8 list \<Rightarrow> nat \<Rightarrow> nat option"
    and enc :: "'r \<Rightarrow> u8 list"
    and fits :: "'r \<Rightarrow> bool"
  assumes hdr_pos: "0 < hdr"
    and len_at_defined: "off + hdr \<le> length buf \<Longrightarrow> \<exists>l. len_at buf off = Some l"
    and enc_len: "fits r \<Longrightarrow> hdr \<le> length (enc r)"
    and len_at_enc: "fits r \<Longrightarrow> len_at (pre @ enc r @ post) (length pre) = Some (length (enc r))"
begin

text \<open>On any bytes the walk ends, and all it visits lies inside the buffer.\<close>

lemma walk_safe:
  "int off + n \<le> int (length buf) \<Longrightarrow> \<exists>rs. stream_walk hdr len_at buf off n = Some rs \<and> inside hdr off n rs"
proof (induction "nat n" arbitrary: off n rule: less_induct)
  case less
  show ?case
  proof (cases "n < int hdr")
    case True
    then show ?thesis
      by (simp add: stream_walk.simps inside_def)
  next
    case False
    then obtain l where l: "len_at buf off = Some l"
      using len_at_defined [of off buf] less.prems by auto
    show ?thesis
    proof (cases "l < hdr \<or> n < int l")
      case True
      then show ?thesis
        using False l by (simp add: stream_walk.simps [of _ _ _ off] inside_def)
    next
      case stop: False
      then have "nat (n - int (round_up 4 l)) < nat n"
        using round_up_4_ge [of l] hdr_pos by linarith
      from less.hyps [OF this, of "off + round_up 4 l"] less.prems
      obtain rs where "stream_walk hdr len_at buf (off + round_up 4 l) (n - int (round_up 4 l)) = Some rs"
        "inside hdr (off + round_up 4 l) (n - int (round_up 4 l)) rs"
        by auto
      then show ?thesis
        using False stop l inside_Cons [of hdr off l n rs]
        by (simp add: stream_walk.simps [of _ _ _ off])
    qed
  qed
qed

text \<open>On packed records it visits each of them, in order, and nothing else.\<close>

lemma walk_pack:
  "list_all fits rs \<Longrightarrow>
     \<exists>ps. stream_walk hdr len_at (pre @ pack enc rs) (length pre) (int (length (pack enc rs))) = Some ps \<and>
       map (\<lambda>(p, l). buf_rd (pre @ pack enc rs) p l) ps = map (\<lambda>r. Some (enc r)) rs"
proof (induction rs arbitrary: pre)
  case Nil
  then show ?case
    using hdr_pos by (simp add: stream_walk.simps pack_def)
next
  case (Cons r rs)
  let ?l = "length (enc r)" and ?pre = "pre @ padded (enc r)"
  have split: "pack enc (r # rs) = padded (enc r) @ pack enc rs" "fits r" "hdr \<le> ?l"
    using Cons.prems enc_len by (simp_all add: pack_def)
  have buf: "pre @ pack enc (r # rs) =
      pre @ enc r @ replicate (round_up 4 ?l - ?l) 0 @ pack enc rs"
    by (simp add: split(1) padded_def)
  obtain ps where ps: "stream_walk hdr len_at (?pre @ pack enc rs) (length ?pre)
      (int (length (pack enc rs))) = Some ps"
    "map (\<lambda>(p, l). buf_rd (?pre @ pack enc rs) p l) ps = map (\<lambda>r. Some (enc r)) rs"
    using Cons.IH [of ?pre] Cons.prems by auto
  have "len_at (pre @ pack enc (r # rs)) (length pre) = Some ?l"
    unfolding buf by (rule len_at_enc [OF split(2)])
  moreover have "buf_rd (pre @ pack enc (r # rs)) (length pre) ?l = Some (enc r)"
    unfolding buf by (rule buf_rd_at)
  ultimately show ?case
    using ps split round_up_4_ge [of ?l]
    by (subst stream_walk.simps) auto
qed

end

end
