(* ===== verification/Netlink.thy ===== *)
theory Netlink
  imports Tlv_Stream
begin

text \<open>
  The message macros of \<^verbatim>\<open>linux/netlink.h\<close> and the attribute and next hop macros of
  \<^verbatim>\<open>linux/rtnetlink.h\<close>. A pointer to a header is an offset into the buffer, the remaining
  length is an \<open>int\<close> in the representation of its 32 bits: comparisons with it are signed
  (\<open>sint\<close>) or unsigned as the conversions of C make them.

  The macros are used in loops \<open>for (; NLMSG_OK(nlh, len); nlh = NLMSG_NEXT(nlh, len))\<close>; such a
  loop is \<open>nlmsg_walk\<close> and \<open>rta_walk\<close>. Both are shown to be the walk of \<open>Tlv_Stream\<close>, so that the
  contract \<open>record_stream\<close>, interpreted for messages and for attributes, gives their
  properties.
\<close>

section \<open>Netlink messages\<close>

record nlmsghdr =
  nlmsg_len :: u32
  nlmsg_type :: u16
  nlmsg_flags :: u16
  nlmsg_seq :: u32
  nlmsg_pid :: u32

definition sizeof_nlmsghdr :: nat where
  "sizeof_nlmsghdr = struct_size [(4, 4), (2, 2), (2, 2), (4, 4), (4, 4)]"

definition nlmsghdr_bytes :: "nlmsghdr \<Rightarrow> u8 list" where
  "nlmsghdr_bytes h = bytes_of 4 (nlmsg_len h) @ bytes_of 2 (nlmsg_type h) @
     bytes_of 2 (nlmsg_flags h) @ bytes_of 4 (nlmsg_seq h) @ bytes_of 4 (nlmsg_pid h)"

definition NLMSG_ALIGNTO :: u32 where
  "NLMSG_ALIGNTO = 4"

definition NLMSG_ALIGN :: "u32 \<Rightarrow> u32" where
  "NLMSG_ALIGN len = (len + NLMSG_ALIGNTO - 1) AND NOT (NLMSG_ALIGNTO - 1)"

definition NLMSG_HDRLEN :: u32 where
  "NLMSG_HDRLEN = NLMSG_ALIGN (of_nat sizeof_nlmsghdr)"

definition NLMSG_LENGTH :: "u32 \<Rightarrow> u32" where
  "NLMSG_LENGTH len = len + NLMSG_HDRLEN"

definition NLMSG_SPACE :: "u32 \<Rightarrow> u32" where
  "NLMSG_SPACE len = NLMSG_ALIGN (NLMSG_LENGTH len)"

definition NLMSG_DATA :: "nat \<Rightarrow> nat" where
  "NLMSG_DATA nlh = nlh + unat (NLMSG_LENGTH 0)"

definition NLMSG_NEXT :: "u8 list \<Rightarrow> nat \<Rightarrow> u32 \<Rightarrow> (nat \<times> u32) option" where
  "NLMSG_NEXT buf nlh len = do {
     l \<leftarrow> load32 buf nlh;
     Some (nlh + unat (NLMSG_ALIGN l), len - NLMSG_ALIGN l) }"

definition NLMSG_OK :: "u8 list \<Rightarrow> nat \<Rightarrow> u32 \<Rightarrow> bool option" where
  "NLMSG_OK buf nlh len =
     (if sint len \<ge> int sizeof_nlmsghdr then do {
        l \<leftarrow> load32 buf nlh;
        Some (l \<ge> of_nat sizeof_nlmsghdr \<and> l \<le> len) }
      else Some False)"

definition NLMSG_PAYLOAD :: "u8 list \<Rightarrow> nat \<Rightarrow> u32 \<Rightarrow> u32 option" where
  "NLMSG_PAYLOAD buf nlh len = do { l \<leftarrow> load32 buf nlh; Some (l - NLMSG_SPACE len) }"

partial_function (option) nlmsg_walk :: "u8 list \<Rightarrow> nat \<Rightarrow> u32 \<Rightarrow> (nat \<times> nat) list option" where
  "nlmsg_walk buf nlh len =
     Option.bind (NLMSG_OK buf nlh len) (\<lambda>ok.
       if ok then
         Option.bind (load32 buf nlh) (\<lambda>l.
           Option.bind (NLMSG_NEXT buf nlh len) (\<lambda>(nlh', len').
             Option.bind (nlmsg_walk buf nlh' len') (\<lambda>rest. Some ((nlh, unat l) # rest))))
       else Some [])"

section \<open>Netlink attributes\<close>

definition NLA_ALIGN :: "u32 \<Rightarrow> u32" where
  "NLA_ALIGN len = (len + 4 - 1) AND NOT (4 - 1)"

definition sizeof_nlattr :: nat where
  "sizeof_nlattr = struct_size [(2, 2), (2, 2)]"

definition NLA_HDRLEN :: u32 where
  "NLA_HDRLEN = NLA_ALIGN (of_nat sizeof_nlattr)"

definition NLA_F_NESTED :: u32 where
  "NLA_F_NESTED = push_bit 15 1"

definition NLA_F_NET_BYTEORDER :: u32 where
  "NLA_F_NET_BYTEORDER = push_bit 14 1"

definition NLA_TYPE_MASK :: u32 where
  "NLA_TYPE_MASK = NOT (NLA_F_NESTED OR NLA_F_NET_BYTEORDER)"

section \<open>Route attributes\<close>

record rtattr =
  rta_len :: u16
  rta_type :: u16

definition sizeof_rtattr :: nat where
  "sizeof_rtattr = struct_size [(2, 2), (2, 2)]"

definition RTA_ALIGN :: "u32 \<Rightarrow> u32" where
  "RTA_ALIGN len = (len + 4 - 1) AND NOT (4 - 1)"

definition RTA_OK :: "u8 list \<Rightarrow> nat \<Rightarrow> u32 \<Rightarrow> bool option" where
  "RTA_OK buf rta len =
     (if sint len \<ge> int sizeof_rtattr then do {
        l \<leftarrow> load16 buf rta;
        Some (promote l \<ge> of_nat sizeof_rtattr \<and> int (unat l) \<le> sint len) }
      else Some False)"

definition RTA_NEXT :: "u8 list \<Rightarrow> nat \<Rightarrow> u32 \<Rightarrow> (nat \<times> u32) option" where
  "RTA_NEXT buf rta attrlen = do {
     l \<leftarrow> load16 buf rta;
     Some (rta + unat (RTA_ALIGN (promote l)), attrlen - RTA_ALIGN (promote l)) }"

definition RTA_LENGTH :: "u32 \<Rightarrow> u32" where
  "RTA_LENGTH len = RTA_ALIGN (of_nat sizeof_rtattr) + len"

definition RTA_SPACE :: "u32 \<Rightarrow> u32" where
  "RTA_SPACE len = RTA_ALIGN (RTA_LENGTH len)"

definition RTA_DATA :: "nat \<Rightarrow> nat" where
  "RTA_DATA rta = rta + unat (RTA_LENGTH 0)"

definition RTA_PAYLOAD :: "u8 list \<Rightarrow> nat \<Rightarrow> u32 option" where
  "RTA_PAYLOAD buf rta = do { l \<leftarrow> load16 buf rta; Some (promote l - RTA_LENGTH 0) }"

partial_function (option) rta_walk :: "u8 list \<Rightarrow> nat \<Rightarrow> u32 \<Rightarrow> (nat \<times> nat) list option" where
  "rta_walk buf rta len =
     Option.bind (RTA_OK buf rta len) (\<lambda>ok.
       if ok then
         Option.bind (load16 buf rta) (\<lambda>l.
           Option.bind (RTA_NEXT buf rta len) (\<lambda>(rta', len').
             Option.bind (rta_walk buf rta' len') (\<lambda>rest. Some ((rta, unat l) # rest))))
       else Some [])"

section \<open>Next hops\<close>

definition sizeof_rtnexthop :: nat where
  "sizeof_rtnexthop = struct_size [(2, 2), (1, 1), (1, 1), (4, 4)]"

definition RTNH_ALIGN :: "u32 \<Rightarrow> u32" where
  "RTNH_ALIGN len = (len + 4 - 1) AND NOT (4 - 1)"

definition RTNH_OK :: "u8 list \<Rightarrow> nat \<Rightarrow> u32 \<Rightarrow> bool option" where
  "RTNH_OK buf rtnh len = do {
     l \<leftarrow> load16 buf rtnh;
     Some (promote l \<ge> of_nat sizeof_rtnexthop \<and> int (unat l) \<le> sint len) }"

definition RTNH_NEXT :: "u8 list \<Rightarrow> nat \<Rightarrow> nat option" where
  "RTNH_NEXT buf rtnh = do { l \<leftarrow> load16 buf rtnh; Some (rtnh + unat (RTNH_ALIGN (promote l))) }"

definition RTNH_LENGTH :: "u32 \<Rightarrow> u32" where
  "RTNH_LENGTH len = RTNH_ALIGN (of_nat sizeof_rtnexthop) + len"

definition RTNH_SPACE :: "u32 \<Rightarrow> u32" where
  "RTNH_SPACE len = RTNH_ALIGN (RTNH_LENGTH len)"

definition RTNH_DATA :: "nat \<Rightarrow> nat" where
  "RTNH_DATA rtnh = rtnh + unat (RTNH_LENGTH 0)"

section \<open>Sizes\<close>

lemma netlink_sizes [simp]:
  "sizeof_nlmsghdr = 16" "sizeof_nlattr = 4" "sizeof_rtattr = 4" "sizeof_rtnexthop = 8"
  by code_simp+

lemma netlink_headers [simp]:
  "NLMSG_HDRLEN = 16" "NLA_HDRLEN = 4" "RTA_LENGTH 0 = 4" "RTNH_LENGTH 0 = 8" "NLMSG_LENGTH 0 = 16"
  by (simp_all add: NLMSG_HDRLEN_def NLMSG_ALIGN_def NLMSG_ALIGNTO_def NLA_HDRLEN_def NLA_ALIGN_def
      RTA_LENGTH_def RTA_ALIGN_def RTNH_LENGTH_def RTNH_ALIGN_def NLMSG_LENGTH_def)

lemma align_macros_eq: "NLA_ALIGN = NLMSG_ALIGN" "RTA_ALIGN = NLMSG_ALIGN" "RTNH_ALIGN = NLMSG_ALIGN"
  by (simp_all add: fun_eq_iff NLA_ALIGN_def RTA_ALIGN_def RTNH_ALIGN_def NLMSG_ALIGN_def
      NLMSG_ALIGNTO_def)

lemma unat_NLMSG_ALIGN: "unat len + 4 \<le> 2 ^ 32 \<Longrightarrow> unat (NLMSG_ALIGN len) = round_up 4 (unat len)"
  using unat_align_up [of len 2] by (simp add: NLMSG_ALIGN_def NLMSG_ALIGNTO_def)

lemma sint_nonneg: "0 \<le> sint x \<Longrightarrow> sint x = uint x \<and> uint x < 2 ^ 31" for x :: u32
proof -
  assume *: "0 \<le> sint x"
  have "uint x = uint (word_of_int (sint x) :: u32)"
    by simp
  also have "\<dots> = sint x"
    using * sint_lt [of x] by (subst uint_word_of_int) (simp add: mod_pos_pos_trivial)
  finally show ?thesis
    using sint_lt [of x] by simp
qed

lemma sint_diff:
  fixes x y :: u32
  assumes "0 \<le> sint x" and "uint y \<le> 2 ^ 31"
  shows "sint (x - y) = sint x - uint y"
proof -
  have "sint x < 2 ^ 31"
    using sint_lt [of x] by simp
  have "x - y = word_of_int (sint x - uint y)"
    by simp
  also have "sint (word_of_int (sint x - uint y) :: u32) = signed_take_bit 31 (sint x - uint y)"
    by (subst sint_sbintrunc') simp
  also have "\<dots> = sint x - uint y"
    using assms \<open>sint x < 2 ^ 31\<close> uint_ge_0 [of y] by (intro signed_take_bit_int_eq_self) linarith+
  finally show ?thesis .
qed

section \<open>The loops are walks over a stream\<close>

definition nlmsg_len_at :: "u8 list \<Rightarrow> nat \<Rightarrow> nat option" where
  "nlmsg_len_at buf off = map_option unat (load32 buf off)"

definition rta_len_at :: "u8 list \<Rightarrow> nat \<Rightarrow> nat option" where
  "rta_len_at buf off = map_option unat (load16 buf off)"

text \<open>
  One step: when the test succeeds, the aligned length is the number that the padding rule
  gives, and the remaining length, possibly below zero, is exact.
\<close>

lemma aligned_step:
  fixes l len :: u32
  assumes "0 \<le> sint len" and "int (unat l) \<le> sint len"
  shows "unat (NLMSG_ALIGN l) = round_up 4 (unat l)"
    and "sint (len - NLMSG_ALIGN l) = sint len - int (round_up 4 (unat l))"
proof -
  have "sint len < 2147483648"
    using sint_nonneg [OF assms(1)] by simp
  then have small: "unat l < 2147483648"
    using assms(2) by linarith
  then show eq: "unat (NLMSG_ALIGN l) = round_up 4 (unat l)"
    by (intro unat_NLMSG_ALIGN) simp
  have "round_up 4 (unat l) \<le> 2 ^ 31"
  proof -
    have "(unat l + 3) div 4 \<le> 2 ^ 29"
      using small by simp
    then show ?thesis
      by (simp add: round_up_def)
  qed
  moreover have "uint (NLMSG_ALIGN l) = int (round_up 4 (unat l))"
    using arg_cong [OF eq, of int] by simp
  ultimately show "sint (len - NLMSG_ALIGN l) = sint len - int (round_up 4 (unat l))"
    using sint_diff [OF assms(1), of "NLMSG_ALIGN l"] by simp
qed

lemma nlmsg_walk_eq:
  "int off + sint len \<le> int (length buf) \<Longrightarrow>
     nlmsg_walk buf off len = stream_walk 16 nlmsg_len_at buf off (sint len)"
proof (induction "nat (sint len)" arbitrary: off len rule: less_induct)
  case less
  show ?case
  proof (cases "sint len < 16")
    case True
    then show ?thesis
      by (simp add: nlmsg_walk.simps [of buf off] stream_walk.simps NLMSG_OK_def)
  next
    case False
    then obtain l where l: "load32 buf off = Some l"
      using load_defined(2) [of off buf] less.prems by auto
    have len: "sint len = uint len"
      using sint_nonneg [of len] False by simp
    then have ok: "NLMSG_OK buf off len = Some (\<not> (unat l < 16 \<or> sint len < int (unat l)))"
      using False l
      by (simp add: NLMSG_OK_def word_le_nat_alt [of 16 l] word_le_def [of l len] not_less)
    show ?thesis
    proof (cases "unat l < 16 \<or> sint len < int (unat l)")
      case True
      then show ?thesis
        using False l ok by (simp add: nlmsg_walk.simps [of buf off] stream_walk.simps [of _ _ buf off] nlmsg_len_at_def)
    next
      case stop: False
      then have step: "unat (NLMSG_ALIGN l) = round_up 4 (unat l)"
        "sint (len - NLMSG_ALIGN l) = sint len - int (round_up 4 (unat l))"
        using False aligned_step [of len l] by auto
      have "nat (sint len - int (round_up 4 (unat l))) < nat (sint len)"
        using stop round_up_4_ge [of "unat l"] by linarith
      then have "nlmsg_walk buf (off + round_up 4 (unat l)) (len - NLMSG_ALIGN l) =
          stream_walk 16 nlmsg_len_at buf (off + round_up 4 (unat l)) (sint len - int (round_up 4 (unat l)))"
        using less.hyps [of "len - NLMSG_ALIGN l" "off + round_up 4 (unat l)"] step(2) less.prems by simp
      then show ?thesis
        using False stop l ok step(1)
        by (simp add: nlmsg_walk.simps [of buf off] stream_walk.simps [of _ _ buf off] nlmsg_len_at_def
            NLMSG_NEXT_def)
    qed
  qed
qed

lemma rta_walk_eq:
  "int off + sint len \<le> int (length buf) \<Longrightarrow>
     rta_walk buf off len = stream_walk 4 rta_len_at buf off (sint len)"
proof (induction "nat (sint len)" arbitrary: off len rule: less_induct)
  case less
  show ?case
  proof (cases "sint len < 4")
    case True
    then show ?thesis
      by (simp add: rta_walk.simps [of buf off] stream_walk.simps RTA_OK_def)
  next
    case False
    then obtain l where l: "load16 buf off = Some l"
      using load_defined(1) [of off buf] less.prems by auto
    have pl: "unat (promote l) = unat l"
      by (rule unat_promote)
    then have ok: "RTA_OK buf off len = Some (\<not> (unat l < 4 \<or> sint len < int (unat l)))"
      using False l by (simp add: RTA_OK_def word_le_nat_alt [of 4] not_less)
    show ?thesis
    proof (cases "unat l < 4 \<or> sint len < int (unat l)")
      case True
      then show ?thesis
        using False l ok by (simp add: rta_walk.simps [of buf off] stream_walk.simps [of _ _ buf off] rta_len_at_def)
    next
      case stop: False
      then have step: "unat (NLMSG_ALIGN (promote l)) = round_up 4 (unat l)"
        "sint (len - NLMSG_ALIGN (promote l)) = sint len - int (round_up 4 (unat l))"
        using False aligned_step [of len "promote l"] pl by auto
      have "nat (sint len - int (round_up 4 (unat l))) < nat (sint len)"
        using stop round_up_4_ge [of "unat l"] by linarith
      then have "rta_walk buf (off + round_up 4 (unat l)) (len - NLMSG_ALIGN (promote l)) =
          stream_walk 4 rta_len_at buf (off + round_up 4 (unat l)) (sint len - int (round_up 4 (unat l)))"
        using less.hyps [of "len - NLMSG_ALIGN (promote l)" "off + round_up 4 (unat l)"] step(2) less.prems
        by simp
      then show ?thesis
        using False stop l ok step(1)
        by (simp add: rta_walk.simps [of buf off] stream_walk.simps [of _ _ buf off] rta_len_at_def
            RTA_NEXT_def align_macros_eq)
    qed
  qed
qed

section \<open>Packing\<close>

text \<open>
  A message is a header, whose length field the sender fills with \<open>NLMSG_LENGTH\<close>, and a
  payload; an attribute a type and a payload.
\<close>

definition nlmsg_enc :: "nlmsghdr \<times> u8 list \<Rightarrow> u8 list" where
  "nlmsg_enc = (\<lambda>(h, data).
     nlmsghdr_bytes (h\<lparr>nlmsg_len := NLMSG_LENGTH (of_nat (length data))\<rparr>) @ data)"

definition nlmsg_fits :: "nlmsghdr \<times> u8 list \<Rightarrow> bool" where
  "nlmsg_fits = (\<lambda>(h, data). 16 + length data < 2 ^ 32)"

definition rta_enc :: "u16 \<times> u8 list \<Rightarrow> u8 list" where
  "rta_enc = (\<lambda>(ty, data). bytes_of 2 (to_u16 (RTA_LENGTH (of_nat (length data)))) @ bytes_of 2 ty @ data)"

definition rta_fits :: "u16 \<times> u8 list \<Rightarrow> bool" where
  "rta_fits = (\<lambda>(ty, data). 4 + length data < 2 ^ 16)"

lemma nlmsg_enc_length: "length (nlmsg_enc (h, data)) = 16 + length data"
  by (simp add: nlmsg_enc_def nlmsghdr_bytes_def)

lemma rta_enc_length: "length (rta_enc (ty, data)) = 4 + length data"
  by (simp add: rta_enc_def)

lemma rta_length_small:
  assumes "4 + n < 2 ^ 16"
  shows "unat (to_u16 (RTA_LENGTH (of_nat n))) = 4 + n"
proof -
  have "RTA_LENGTH (of_nat n) = of_nat (4 + n)"
    by (simp add: RTA_LENGTH_def RTA_ALIGN_def)
  then have "unat (RTA_LENGTH (of_nat n)) = 4 + n"
    using assms by (simp only: unat_of_nat) simp
  then show ?thesis
    using assms by (simp add: unsigned_ucast_eq take_bit_nat_eq_self)
qed

interpretation nl_messages: record_stream 16 nlmsg_len_at nlmsg_enc nlmsg_fits
proof unfold_locales
  fix buf :: "u8 list" and off
  show "off + 16 \<le> length buf \<Longrightarrow> \<exists>l. nlmsg_len_at buf off = Some l"
    using load_defined(2) [of off buf] by (auto simp: nlmsg_len_at_def)
next
  fix r :: "nlmsghdr \<times> u8 list" and pre post
  obtain h data where r: "r = (h, data)"
    by (cases r)
  show "16 \<le> length (nlmsg_enc r)"
    by (simp add: r nlmsg_enc_length)
  assume "nlmsg_fits r"
  then have "unat (of_nat (16 + length data) :: u32) = 16 + length data"
    by (intro unat_of_nat_small) (simp add: r nlmsg_fits_def)
  moreover have "NLMSG_LENGTH (of_nat (length data)) = of_nat (16 + length data)"
    by (simp add: NLMSG_LENGTH_def)
  ultimately have "unat (NLMSG_LENGTH (of_nat (length data))) = 16 + length data"
    by simp
  then show "nlmsg_len_at (pre @ nlmsg_enc r @ post) (length pre) = Some (length (nlmsg_enc r))"
    by (simp add: r nlmsg_len_at_def nlmsg_enc_length) (simp add: nlmsg_enc_def nlmsghdr_bytes_def load_at)
qed simp

interpretation route_attributes: record_stream 4 rta_len_at rta_enc rta_fits
proof unfold_locales
  fix buf :: "u8 list" and off
  show "off + 4 \<le> length buf \<Longrightarrow> \<exists>l. rta_len_at buf off = Some l"
    using load_defined(1) [of off buf] by (auto simp: rta_len_at_def)
next
  fix r :: "u16 \<times> u8 list" and pre post
  obtain ty data where r: "r = (ty, data)"
    by (cases r)
  show "4 \<le> length (rta_enc r)"
    by (simp add: r rta_enc_length)
  assume "rta_fits r"
  then have "unat (to_u16 (RTA_LENGTH (of_nat (length data)))) = 4 + length data"
    by (intro rta_length_small) (simp add: r rta_fits_def)
  then show "rta_len_at (pre @ rta_enc r @ post) (length pre) = Some (length (rta_enc r))"
    by (simp add: r rta_len_at_def rta_enc_length) (simp add: rta_enc_def load_at)
qed simp

section \<open>Properties\<close>

text \<open>
  C13. A loop with \<open>NLMSG_OK\<close> and \<open>NLMSG_NEXT\<close> over received bytes,
  and one with \<open>RTA_OK\<close> and \<open>RTA_NEXT\<close>, ends for any contents of the
  buffer, reads nothing outside of it, and visits records that lie in the buffer one behind the
  other, each with a complete header.
\<close>

theorem walks_stay_inside:
  assumes "int off + sint len \<le> int (length buf)"
  shows "(\<exists>rs. nlmsg_walk buf off len = Some rs \<and> inside 16 off (sint len) rs) \<and>
    (\<exists>rs. rta_walk buf off len = Some rs \<and> inside 4 off (sint len) rs)"
  using nl_messages.walk_safe [OF assms] route_attributes.walk_safe [OF assms]
  by (simp add: nlmsg_walk_eq [OF assms] rta_walk_eq [OF assms])

theorem walks_stay_inside_witness:
  "\<exists>rs. nlmsg_walk (replicate 20 0xFF) 0 20 = Some rs \<and> inside 16 0 20 rs"
  using walks_stay_inside [of 0 20 "replicate 20 0xFF"] by simp

text \<open>
  C14. Messages with headers whose length is \<open>NLMSG_LENGTH\<close> of the payload, each
  padded to a multiple of four, are found again by the loop: it visits exactly them, in order,
  and likewise for attributes built with \<open>RTA_LENGTH\<close>.
\<close>

theorem packed_messages_found:
  assumes "list_all nlmsg_fits ms" and "sint mlen = int (length (pack nlmsg_enc ms))"
    and "list_all rta_fits rs" and "sint rlen = int (length (pack rta_enc rs))"
  shows "(\<exists>ps. nlmsg_walk (pre @ pack nlmsg_enc ms) (length pre) mlen = Some ps \<and>
      map (\<lambda>(p, l). buf_rd (pre @ pack nlmsg_enc ms) p l) ps = map (\<lambda>m. Some (nlmsg_enc m)) ms) \<and>
    (\<exists>ps. rta_walk (pre @ pack rta_enc rs) (length pre) rlen = Some ps \<and>
      map (\<lambda>(p, l). buf_rd (pre @ pack rta_enc rs) p l) ps = map (\<lambda>r. Some (rta_enc r)) rs)"
  using nl_messages.walk_pack [OF assms(1), of pre] route_attributes.walk_pack [OF assms(3), of pre] assms(2,4)
  by (simp add: nlmsg_walk_eq rta_walk_eq)

theorem packed_messages_found_witness:
  "\<exists>ps. rta_walk (pack rta_enc [(1, [7]), (2, [])]) 0 12 = Some ps \<and>
     map (\<lambda>(p, l). buf_rd (pack rta_enc [(1, [7]), (2, [])]) p l) ps = [Some (rta_enc (1, [7])), Some (rta_enc (2, []))]"
proof -
  have "list_all rta_fits [(1, [7]), (2, [])]" "list_all nlmsg_fits []" "sint (0 :: u32) = int (length (pack nlmsg_enc []))"
    by (simp_all add: rta_fits_def pack_def)
  moreover have "sint (12 :: u32) = int (length (pack rta_enc [(1, [7]), (2, [])]))"
    by (simp add: pack_def rta_enc_length round_up_def)
  ultimately show ?thesis
    using packed_messages_found [of "[]" 0 "[(1, [7]), (2, [])]" 12 "[]"] by simp
qed

end
