(* ===== verification/Inet.thy ===== *)
theory Inet
  imports Swab
begin

text \<open>
  Byte swapping in glibc (\<^verbatim>\<open>bits/byteswap.h\<close>) and the function-like macros of
  \<^verbatim>\<open>netinet/in.h\<close>: the byte order conversions on this little-endian target, the classes of
  an IPv4 address (in host order) and the tests on an IPv6 address, which is an array of four
  32-bit numbers in network order, or of sixteen bytes.
\<close>

section \<open>Byte swapping in glibc\<close>

definition bswap_constant_16 :: "u16 \<Rightarrow> u16" where
  "bswap_constant_16 x =
     to_u16 ((drop_bit 8 (promote x) AND 0xff) OR push_bit 8 (promote x AND 0xff))"

definition bswap_constant_32 :: "u32 \<Rightarrow> u32" where
  "bswap_constant_32 x = drop_bit 24 (x AND 0xff000000) OR drop_bit 8 (x AND 0x00ff0000) OR
     push_bit 8 (x AND 0x0000ff00) OR push_bit 24 (x AND 0x000000ff)"

definition bswap_constant_64 :: "u64 \<Rightarrow> u64" where
  "bswap_constant_64 x =
     drop_bit 56 (x AND 0xff00000000000000) OR drop_bit 40 (x AND 0x00ff000000000000) OR
     drop_bit 24 (x AND 0x0000ff0000000000) OR drop_bit 8 (x AND 0x000000ff00000000) OR
     push_bit 8 (x AND 0x00000000ff000000) OR push_bit 24 (x AND 0x0000000000ff0000) OR
     push_bit 40 (x AND 0x000000000000ff00) OR push_bit 56 (x AND 0x00000000000000ff)"

text \<open>The inline functions, with the branch that does not use a compiler builtin.\<close>

definition bswap_16 :: "u16 \<Rightarrow> u16" where
  "bswap_16 x = bswap_constant_16 x"

definition bswap_32 :: "u32 \<Rightarrow> u32" where
  "bswap_32 x = bswap_constant_32 x"

definition bswap_64 :: "u64 \<Rightarrow> u64" where
  "bswap_64 x = bswap_constant_64 x"

definition ntohs :: "u16 \<Rightarrow> u16" where
  "ntohs x = bswap_16 x"

definition htons :: "u16 \<Rightarrow> u16" where
  "htons x = bswap_16 x"

definition ntohl :: "u32 \<Rightarrow> u32" where
  "ntohl x = bswap_32 x"

definition htonl :: "u32 \<Rightarrow> u32" where
  "htonl x = bswap_32 x"

section \<open>IPv4 addresses\<close>

definition IN_CLASSA :: "u32 \<Rightarrow> bool" where
  "IN_CLASSA a \<longleftrightarrow> a AND 0x80000000 = 0"

definition IN_CLASSB :: "u32 \<Rightarrow> bool" where
  "IN_CLASSB a \<longleftrightarrow> a AND 0xc0000000 = 0x80000000"

definition IN_CLASSC :: "u32 \<Rightarrow> bool" where
  "IN_CLASSC a \<longleftrightarrow> a AND 0xe0000000 = 0xc0000000"

definition IN_CLASSD :: "u32 \<Rightarrow> bool" where
  "IN_CLASSD a \<longleftrightarrow> a AND 0xf0000000 = 0xe0000000"

definition IN_MULTICAST :: "u32 \<Rightarrow> bool" where
  "IN_MULTICAST a \<longleftrightarrow> IN_CLASSD a"

definition IN_EXPERIMENTAL :: "u32 \<Rightarrow> bool" where
  "IN_EXPERIMENTAL a \<longleftrightarrow> a AND 0xe0000000 = 0xe0000000"

definition IN_BADCLASS :: "u32 \<Rightarrow> bool" where
  "IN_BADCLASS a \<longleftrightarrow> a AND 0xf0000000 = 0xf0000000"

section \<open>IPv6 addresses\<close>

record in6_addr =
  u6_addr32_0 :: u32
  u6_addr32_1 :: u32
  u6_addr32_2 :: u32
  u6_addr32_3 :: u32

text \<open>The byte view of the union: the bytes of each number, lowest first.\<close>

definition u6_addr8 :: "in6_addr \<Rightarrow> u8 list" where
  "u6_addr8 a = bytes_of 4 (u6_addr32_0 a) @ bytes_of 4 (u6_addr32_1 a) @
     bytes_of 4 (u6_addr32_2 a) @ bytes_of 4 (u6_addr32_3 a)"

definition IN6_IS_ADDR_UNSPECIFIED :: "in6_addr \<Rightarrow> bool" where
  "IN6_IS_ADDR_UNSPECIFIED a \<longleftrightarrow> u6_addr32_0 a = 0 \<and> u6_addr32_1 a = 0 \<and>
     u6_addr32_2 a = 0 \<and> u6_addr32_3 a = 0"

definition IN6_IS_ADDR_LOOPBACK :: "in6_addr \<Rightarrow> bool" where
  "IN6_IS_ADDR_LOOPBACK a \<longleftrightarrow> u6_addr32_0 a = 0 \<and> u6_addr32_1 a = 0 \<and>
     u6_addr32_2 a = 0 \<and> u6_addr32_3 a = htonl 1"

definition IN6_IS_ADDR_LINKLOCAL :: "in6_addr \<Rightarrow> bool" where
  "IN6_IS_ADDR_LINKLOCAL a \<longleftrightarrow> u6_addr32_0 a AND htonl 0xffc00000 = htonl 0xfe800000"

definition IN6_IS_ADDR_SITELOCAL :: "in6_addr \<Rightarrow> bool" where
  "IN6_IS_ADDR_SITELOCAL a \<longleftrightarrow> u6_addr32_0 a AND htonl 0xffc00000 = htonl 0xfec00000"

definition IN6_IS_ADDR_V4MAPPED :: "in6_addr \<Rightarrow> bool" where
  "IN6_IS_ADDR_V4MAPPED a \<longleftrightarrow> u6_addr32_0 a = 0 \<and> u6_addr32_1 a = 0 \<and>
     u6_addr32_2 a = htonl 0xffff"

definition IN6_IS_ADDR_V4COMPAT :: "in6_addr \<Rightarrow> bool" where
  "IN6_IS_ADDR_V4COMPAT a \<longleftrightarrow> u6_addr32_0 a = 0 \<and> u6_addr32_1 a = 0 \<and>
     u6_addr32_2 a = 0 \<and> ntohl (u6_addr32_3 a) > 1"

definition IN6_ARE_ADDR_EQUAL :: "in6_addr \<Rightarrow> in6_addr \<Rightarrow> bool" where
  "IN6_ARE_ADDR_EQUAL a b \<longleftrightarrow> u6_addr32_0 a = u6_addr32_0 b \<and> u6_addr32_1 a = u6_addr32_1 b \<and>
     u6_addr32_2 a = u6_addr32_2 b \<and> u6_addr32_3 a = u6_addr32_3 b"

definition IN6_IS_ADDR_MULTICAST :: "in6_addr \<Rightarrow> bool" where
  "IN6_IS_ADDR_MULTICAST a \<longleftrightarrow> u6_addr8 a ! 0 = 0xff"

definition IN6_IS_ADDR_MC_NODELOCAL :: "in6_addr \<Rightarrow> bool" where
  "IN6_IS_ADDR_MC_NODELOCAL a \<longleftrightarrow> IN6_IS_ADDR_MULTICAST a \<and> promote (u6_addr8 a ! 1) AND 0xf = 0x1"

definition IN6_IS_ADDR_MC_LINKLOCAL :: "in6_addr \<Rightarrow> bool" where
  "IN6_IS_ADDR_MC_LINKLOCAL a \<longleftrightarrow> IN6_IS_ADDR_MULTICAST a \<and> promote (u6_addr8 a ! 1) AND 0xf = 0x2"

definition IN6_IS_ADDR_MC_SITELOCAL :: "in6_addr \<Rightarrow> bool" where
  "IN6_IS_ADDR_MC_SITELOCAL a \<longleftrightarrow> IN6_IS_ADDR_MULTICAST a \<and> promote (u6_addr8 a ! 1) AND 0xf = 0x5"

definition IN6_IS_ADDR_MC_ORGLOCAL :: "in6_addr \<Rightarrow> bool" where
  "IN6_IS_ADDR_MC_ORGLOCAL a \<longleftrightarrow> IN6_IS_ADDR_MULTICAST a \<and> promote (u6_addr8 a ! 1) AND 0xf = 0x8"

definition IN6_IS_ADDR_MC_GLOBAL :: "in6_addr \<Rightarrow> bool" where
  "IN6_IS_ADDR_MC_GLOBAL a \<longleftrightarrow> IN6_IS_ADDR_MULTICAST a \<and> promote (u6_addr8 a ! 1) AND 0xf = 0xe"

section \<open>Correctness\<close>

lemma bswap_swab: "bswap_16 = constant_swab16" "bswap_32 = constant_swab32" "bswap_64 = constant_swab64"
proof -
  show "bswap_16 = constant_swab16"
    by (simp add: fun_eq_iff bswap_16_def bswap_constant_16_def constant_swab16_def bits16)
  show "bswap_32 = constant_swab32"
    by (simp add: fun_eq_iff bswap_32_def bswap_constant_32_def constant_swab32_def bits32)
  show "bswap_64 = constant_swab64"
    by (simp add: fun_eq_iff bswap_64_def bswap_constant_64_def constant_swab64_def ac_simps)
qed

lemma network_order [simp]: "ntohs (htons x) = x" "ntohl (htonl y) = y"
  by (simp_all add: ntohs_def htons_def ntohl_def htonl_def bswap_swab swab_involutions)

text \<open>The class of an address is its first octet's range, and each address has one class.\<close>

lemma IN_class_bits:
  "IN_CLASSA a \<longleftrightarrow> \<not> bit a 31"
  "IN_CLASSB a \<longleftrightarrow> bit a 31 \<and> \<not> bit a 30"
  "IN_CLASSC a \<longleftrightarrow> bit a 31 \<and> bit a 30 \<and> \<not> bit a 29"
  "IN_CLASSD a \<longleftrightarrow> bit a 31 \<and> bit a 30 \<and> bit a 29 \<and> \<not> bit a 28"
  "IN_EXPERIMENTAL a \<longleftrightarrow> bit a 31 \<and> bit a 30 \<and> bit a 29"
  "IN_BADCLASS a \<longleftrightarrow> bit a 31 \<and> bit a 30 \<and> bit a 29 \<and> bit a 28"
  by (simp_all add: IN_CLASSA_def IN_CLASSB_def IN_CLASSC_def IN_CLASSD_def IN_EXPERIMENTAL_def
      IN_BADCLASS_def bits32)

lemma IN_classes:
  "length (List.filter id [IN_CLASSA a, IN_CLASSB a, IN_CLASSC a, IN_CLASSD a, IN_BADCLASS a]) = 1"
  "IN_EXPERIMENTAL a \<longleftrightarrow> IN_CLASSD a \<or> IN_BADCLASS a"
  by (auto simp: IN_class_bits)

lemma IN6_ARE_ADDR_EQUAL_eq: "IN6_ARE_ADDR_EQUAL a b \<longleftrightarrow> a = b"
  by (auto simp: IN6_ARE_ADDR_EQUAL_def intro: in6_addr.equality)

text \<open>The number tests read the prefix of the byte view.\<close>

lemma u6_prefix: "u6_addr8 a ! 0 = to_u8 (u6_addr32_0 a)" "u6_addr8 a ! 1 = to_u8 (drop_bit 8 (u6_addr32_0 a))"
  by (simp_all add: u6_addr8_def bytes_of_def upt_rec)

lemma IN6_prefixes:
  "IN6_IS_ADDR_LINKLOCAL a \<longleftrightarrow> u6_addr8 a ! 0 = 0xfe \<and> u6_addr8 a ! 1 AND 0xc0 = 0x80"
  "IN6_IS_ADDR_SITELOCAL a \<longleftrightarrow> u6_addr8 a ! 0 = 0xfe \<and> u6_addr8 a ! 1 AND 0xc0 = 0xc0"
  by (auto simp: IN6_IS_ADDR_LINKLOCAL_def IN6_IS_ADDR_SITELOCAL_def u6_prefix(1) u6_prefix(2) [unfolded One_nat_def] htonl_def bswap_32_def
      bswap_constant_32_def bits32 bits8)

text \<open>The kinds of address exclude each other.\<close>

lemma IN6_kinds_exclusive:
  "length (List.filter (\<lambda>p. p a) [IN6_IS_ADDR_UNSPECIFIED, IN6_IS_ADDR_LOOPBACK, IN6_IS_ADDR_LINKLOCAL,
     IN6_IS_ADDR_SITELOCAL, IN6_IS_ADDR_V4MAPPED, IN6_IS_ADDR_V4COMPAT, IN6_IS_ADDR_MULTICAST]) \<le> 1"
proof -
  have not0: "IN6_IS_ADDR_LINKLOCAL a \<or> IN6_IS_ADDR_SITELOCAL a \<or> IN6_IS_ADDR_MULTICAST a \<Longrightarrow>
      u6_addr32_0 a \<noteq> 0"
    by (auto simp: IN6_prefixes IN6_IS_ADDR_MULTICAST_def u6_prefix)
  have "\<not> (IN6_IS_ADDR_LINKLOCAL a \<and> IN6_IS_ADDR_SITELOCAL a)"
    "\<not> (IN6_IS_ADDR_LINKLOCAL a \<and> IN6_IS_ADDR_MULTICAST a)"
    "\<not> (IN6_IS_ADDR_SITELOCAL a \<and> IN6_IS_ADDR_MULTICAST a)"
    by (auto simp: IN6_prefixes IN6_IS_ADDR_MULTICAST_def)
  moreover have "htonl 0xffff \<noteq> 0" "htonl 1 \<noteq> 0"
    by (simp_all add: htonl_def bswap_32_def bswap_constant_32_def)
  moreover have "ntohl 0 = 0"
    by (simp add: ntohl_def bswap_32_def bswap_constant_32_def)
  ultimately show ?thesis
    using not0
    by (auto simp: IN6_IS_ADDR_UNSPECIFIED_def IN6_IS_ADDR_LOOPBACK_def IN6_IS_ADDR_V4MAPPED_def
        IN6_IS_ADDR_V4COMPAT_def)
qed

end
