(* ===== verification/Tipc_Config.thy ===== *)
theory Tipc_Config
  imports Tlv_Stream Inet
begin

text \<open>
  The TLV functions and the message header function of \<^verbatim>\<open>linux/tipc_config.h\<close>.

  Pointers into the message are offsets into a buffer; the source of a copy is the bytes
  from the pointer to the end of its object, or \<open>None\<close> for a null pointer. Reading or writing
  outside an object is \<open>None\<close>.
\<close>

section \<open>TLVs\<close>

record tlv_desc =
  tlv_len :: u16
  tlv_type :: u16

definition sizeof_tlv_desc :: nat where
  "sizeof_tlv_desc = struct_size [(2, 2), (2, 2)]"

definition TLV_ALIGN :: "u32 \<Rightarrow> u32" where
  "TLV_ALIGN datalen = (datalen + (4 - 1)) AND NOT (4 - 1)"

definition TLV_LENGTH :: "u32 \<Rightarrow> u32" where
  "TLV_LENGTH datalen = of_nat sizeof_tlv_desc + datalen"

definition TLV_SPACE :: "u32 \<Rightarrow> u32" where
  "TLV_SPACE datalen = TLV_ALIGN (TLV_LENGTH datalen)"

definition TLV_DATA :: "nat \<Rightarrow> nat" where
  "TLV_DATA tlv = tlv + unat (TLV_LENGTH 0)"

definition TLV_OK :: "u8 list \<Rightarrow> nat \<Rightarrow> u16 \<Rightarrow> bool option" where
  "TLV_OK buf tlv space =
     (if promote space \<ge> TLV_SPACE 0 then do {
        l \<leftarrow> load16 buf tlv;
        Some (ntohs l \<le> space) }
      else Some False)"

definition TLV_CHECK :: "u8 list \<Rightarrow> nat \<Rightarrow> u16 \<Rightarrow> u16 \<Rightarrow> bool option" where
  "TLV_CHECK buf tlv space exp_type = do {
     ok \<leftarrow> TLV_OK buf tlv space;
     if ok then do { t \<leftarrow> load16 buf (tlv + 2); Some (ntohs t = exp_type) } else Some False }"

definition TLV_GET_LEN :: "u8 list \<Rightarrow> nat \<Rightarrow> u32 option" where
  "TLV_GET_LEN buf tlv = do { l \<leftarrow> load16 buf tlv; Some (promote (ntohs l)) }"

definition TLV_SET_LEN :: "nat \<Rightarrow> u16 \<Rightarrow> u8 list \<Rightarrow> u8 list option" where
  "TLV_SET_LEN tlv len buf = store16 tlv (htons len) buf"

definition TLV_CHECK_TYPE :: "u8 list \<Rightarrow> nat \<Rightarrow> u16 \<Rightarrow> bool option" where
  "TLV_CHECK_TYPE buf tlv type = do { t \<leftarrow> load16 buf (tlv + 2); Some (ntohs t = type) }"

definition TLV_SET_TYPE :: "nat \<Rightarrow> u16 \<Rightarrow> u8 list \<Rightarrow> u8 list option" where
  "TLV_SET_TYPE tlv type buf = store16 (tlv + 2) (htons type) buf"

definition TLV_SET :: "nat \<Rightarrow> u16 \<Rightarrow> u8 list option \<Rightarrow> u16 \<Rightarrow> u8 list \<Rightarrow> (u32 \<times> u8 list) option" where
  "TLV_SET tlv type data len buf = do {
     let tlen = TLV_LENGTH (promote len);
     buf \<leftarrow> store16 (tlv + 2) (htons type) buf;
     buf \<leftarrow> store16 tlv (htons (to_u16 tlen)) buf;
     buf \<leftarrow> (case data of
               Some d \<Rightarrow>
                 if len \<noteq> 0 then do { bs \<leftarrow> buf_rd d 0 (unat tlen); buf_wr (TLV_DATA tlv) bs buf }
                 else Some buf
             | None \<Rightarrow> Some buf);
     Some (TLV_SPACE (promote len), buf) }"

record tlv_list_desc =
  tlv_ptr :: nat
  tlv_space :: u32

definition TLV_LIST_INIT :: "nat \<Rightarrow> u32 \<Rightarrow> tlv_list_desc" where
  "TLV_LIST_INIT data space = \<lparr>tlv_ptr = data, tlv_space = space\<rparr>"

definition TLV_LIST_EMPTY :: "tlv_list_desc \<Rightarrow> bool" where
  "TLV_LIST_EMPTY list \<longleftrightarrow> tlv_space list = 0"

definition TLV_LIST_CHECK :: "u8 list \<Rightarrow> tlv_list_desc \<Rightarrow> u16 \<Rightarrow> bool option" where
  "TLV_LIST_CHECK buf list exp_type = TLV_CHECK buf (tlv_ptr list) (to_u16 (tlv_space list)) exp_type"

definition TLV_LIST_DATA :: "tlv_list_desc \<Rightarrow> nat" where
  "TLV_LIST_DATA list = TLV_DATA (tlv_ptr list)"

definition TLV_LIST_STEP :: "u8 list \<Rightarrow> tlv_list_desc \<Rightarrow> tlv_list_desc option" where
  "TLV_LIST_STEP buf list = do {
     l \<leftarrow> load16 buf (tlv_ptr list);
     let space = to_u16 (TLV_ALIGN (promote (ntohs l)));
     Some (list\<lparr>tlv_ptr := tlv_ptr list + unat space,
                tlv_space := tlv_space list - promote space\<rparr>) }"

section \<open>Configuration messages\<close>

record tipc_cfg_msg_hdr =
  tcm_len :: u32
  tcm_type :: u16
  tcm_flags :: u16
  tcm_reserved :: "u8 list"

definition sizeof_tipc_cfg_msg_hdr :: nat where
  "sizeof_tipc_cfg_msg_hdr = struct_size [(4, 4), (2, 2), (2, 2), (8, 1)]"

definition TCM_ALIGN :: "u32 \<Rightarrow> u32" where
  "TCM_ALIGN datalen = (datalen + 3) AND NOT 3"

definition TCM_LENGTH :: "u32 \<Rightarrow> u32" where
  "TCM_LENGTH datalen = of_nat sizeof_tipc_cfg_msg_hdr + datalen"

definition TCM_SPACE :: "u32 \<Rightarrow> u32" where
  "TCM_SPACE datalen = TCM_ALIGN (TCM_LENGTH datalen)"

definition TCM_DATA :: "nat \<Rightarrow> nat" where
  "TCM_DATA tcm_hdr = tcm_hdr + unat (TCM_LENGTH 0)"

definition TCM_SET ::
  "nat \<Rightarrow> u16 \<Rightarrow> u16 \<Rightarrow> u8 list option \<Rightarrow> u16 \<Rightarrow> u8 list \<Rightarrow> (u32 \<times> u8 list) option" where
  "TCM_SET msg cmd flags data data_len buf = do {
     let msg_len = TCM_LENGTH (promote data_len);
     buf \<leftarrow> store32 msg (htonl msg_len) buf;
     buf \<leftarrow> store16 (msg + 4) (htons cmd) buf;
     buf \<leftarrow> store16 (msg + 6) (htons flags) buf;
     buf \<leftarrow> (case data of
               Some d \<Rightarrow>
                 if data_len \<noteq> 0 then do { bs \<leftarrow> buf_rd d 0 (unat data_len); buf_wr (TCM_DATA msg) bs buf }
                 else Some buf
             | None \<Rightarrow> Some buf);
     Some (TCM_SPACE (promote data_len), buf) }"

section \<open>Correctness\<close>

lemma tipc_sizes [simp]: "sizeof_tlv_desc = 4" "sizeof_tipc_cfg_msg_hdr = 16"
  by code_simp+

lemma tipc_headers [simp]: "TLV_LENGTH 0 = 4" "TLV_SPACE 0 = 4" "TCM_LENGTH 0 = 16"
  by (simp_all add: TLV_LENGTH_def TLV_SPACE_def TLV_ALIGN_def TCM_LENGTH_def)

lemma unat_add_promote: "k < 65536 \<Longrightarrow> unat (of_nat k + promote (len :: u16)) = k + unat len"
  using unsigned_less [where 'a = nat, of len]
  by (simp add: unat_word_ariths unat_promote unat_of_nat)

lemma unat_TLV_LENGTH: "unat (TLV_LENGTH (promote len)) = 4 + unat (len :: u16)"
  unfolding TLV_LENGTH_def by (subst unat_add_promote) simp_all

text \<open>Writing the two fields of a descriptor.\<close>

lemma store_desc:
  assumes "length old = 4"
  shows "Option.bind (store16 (length pre + 2) t (pre @ old @ post)) (store16 (length pre) l) =
    Some (pre @ bytes_of 2 l @ bytes_of 2 t @ post)"
proof -
  obtain a b where old: "old = a @ b" "length a = 2" "length b = 2"
    using assms append_take_drop_id [of 2 old] that [of "take 2 old" "drop 2 old"] by simp
  have "store16 (length (pre @ a)) t ((pre @ a) @ b @ post) = Some ((pre @ a) @ bytes_of 2 t @ post)"
    unfolding store16_def by (rule buf_wr_at) (simp add: old)
  moreover have "store16 (length pre) l (pre @ a @ bytes_of 2 t @ post) =
      Some (pre @ bytes_of 2 l @ bytes_of 2 t @ post)"
    unfolding store16_def by (rule buf_wr_at) (simp add: old)
  ultimately show ?thesis
    using old by simp
qed

text \<open>
  \<open>TLV_SET\<close> copies \<open>tlv_len\<close> bytes, the length with the descriptor: four bytes more than the
  value has, from the source and into the message.
\<close>

lemma TLV_SET_result:
  assumes "length old = 8 + unat len" and "length d = 4 + unat len" and "len \<noteq> 0"
  shows "TLV_SET (length pre) type (Some (d @ rest)) len (pre @ old @ post) =
    Some (TLV_SPACE (promote len),
      pre @ bytes_of 2 (htons (to_u16 (TLV_LENGTH (promote len)))) @ bytes_of 2 (htons type) @ d @ post)"
proof -
  obtain a b where old: "old = a @ b" "length a = 4" "length b = 4 + unat len"
    using assms(1) append_take_drop_id [of 4 old] that [of "take 4 old" "drop 4 old"] by simp
  let ?l = "htons (to_u16 (TLV_LENGTH (promote len)))" and ?t = "htons type"
  have "buf_wr (length (pre @ bytes_of 2 ?l @ bytes_of 2 ?t)) d
      ((pre @ bytes_of 2 ?l @ bytes_of 2 ?t) @ b @ post) =
    Some ((pre @ bytes_of 2 ?l @ bytes_of 2 ?t) @ d @ post)"
    by (rule buf_wr_at) (simp add: old assms(2))
  moreover have "buf_rd (d @ rest) 0 (4 + unat len) = Some d"
    using buf_rd_at [of "[]" d rest] assms(2) by simp
  ultimately show ?thesis
    using store_desc [OF old(2), of pre ?t "b @ post" ?l] assms(3)
    by (auto simp: TLV_SET_def Let_def unat_TLV_LENGTH old(1) TLV_DATA_def bind_eq_Some_conv)
qed

text \<open>
  A caller that passes exactly the value makes it read behind the end of the source.
\<close>

lemma TLV_SET_overread:
  assumes "len \<noteq> 0" and "length d < 4 + unat len"
  shows "TLV_SET tlv type (Some d) len buf = None"
  using assms
  by (cases "store16 (tlv + 2) (htons type) buf")
    (auto simp: TLV_SET_def Let_def unat_TLV_LENGTH buf_rd_def split: option.split)

lemma TLV_LENGTH_u16:
  fixes len :: u16
  assumes "unat len < 65532"
  shows "unat (to_u16 (TLV_LENGTH (promote len))) = 4 + unat len"
  using assms by (simp add: unsigned_ucast_eq unat_TLV_LENGTH take_bit_nat_eq_self)

lemma load_desc:
  fixes l t :: u16
  shows "load16 (pre @ bytes_of 2 l @ bytes_of 2 t @ post) (length pre) = Some l"
    and "load16 (pre @ bytes_of 2 l @ bytes_of 2 t @ post) (length pre + 2) = Some t"
  using load_at(1) [of pre l] load_at(1) [of "pre @ bytes_of 2 l" t post] by simp_all

text \<open>A descriptor in memory passes the checks exactly for its own type and enough space.\<close>

lemma TLV_CHECK_desc:
  fixes len type space :: u16
  assumes "unat len < 65532"
  shows "TLV_CHECK (pre @ bytes_of 2 (htons (to_u16 (TLV_LENGTH (promote len)))) @
      bytes_of 2 (htons type) @ post) (length pre) space ty =
    Some (4 + unat len \<le> unat space \<and> ty = type)"
proof -
  have "(TLV_SPACE 0 \<le> promote space) = (4 \<le> unat space)"
    by (simp add: word_le_nat_alt unat_promote)
  then show ?thesis
    using TLV_LENGTH_u16 [OF assms]
    by (auto simp: TLV_CHECK_def TLV_OK_def load_desc word_le_nat_alt simp del: add_2_eq_Suc')
qed

section \<open>Lists of TLVs\<close>

definition tlv_len_at :: "u8 list \<Rightarrow> nat \<Rightarrow> nat option" where
  "tlv_len_at buf off = map_option (\<lambda>l. unat (ntohs l)) (load16 buf off)"

definition tlv_enc :: "u16 \<times> u8 list \<Rightarrow> u8 list" where
  "tlv_enc = (\<lambda>(type, v). bytes_of 2 (htons (to_u16 (TLV_LENGTH (of_nat (length v))))) @
     bytes_of 2 (htons type) @ v)"

text \<open>The longest TLV the list functions step over: its aligned length is a 16-bit number.\<close>

definition tlv_fits :: "u16 \<times> u8 list \<Rightarrow> bool" where
  "tlv_fits = (\<lambda>(type, v). 4 + length v \<le> 65532)"

primrec tlv_list_steps :: "u8 list \<Rightarrow> nat \<Rightarrow> tlv_list_desc \<Rightarrow> tlv_list_desc option" where
  "tlv_list_steps buf 0 list = Some list"
| "tlv_list_steps buf (Suc n) list = Option.bind (tlv_list_steps buf n list) (TLV_LIST_STEP buf)"

lemma tlv_enc_promote:
  assumes "tlv_fits (type, v)"
  shows "tlv_enc (type, v) = bytes_of 2 (htons (to_u16 (TLV_LENGTH (promote (of_nat (length v) :: u16))))) @
    bytes_of 2 (htons type) @ v" "unat (of_nat (length v) :: u16) = length v"
proof -
  have v: "length v < 65532"
    using assms by (simp add: tlv_fits_def)
  then show *: "unat (of_nat (length v) :: u16) = length v"
    by (intro unat_of_nat_small) simp
  have "promote (of_nat (length v) :: u16) = (of_nat (length v) :: u32)"
    using v by (simp add: word_unat_eq_iff unat_promote * unat_of_nat_small)
  then show "tlv_enc (type, v) = bytes_of 2 (htons (to_u16 (TLV_LENGTH (promote (of_nat (length v) :: u16))))) @
      bytes_of 2 (htons type) @ v"
    by (simp add: tlv_enc_def)
qed

lemma tlv_enc_length [simp]: "length (tlv_enc r) = 4 + length (snd r)"
  by (simp add: tlv_enc_def split: prod.split)

lemma tlv_len_at_enc:
  assumes "tlv_fits r"
  shows "tlv_len_at (pre @ tlv_enc r @ post) (length pre) = Some (length (tlv_enc r))"
proof -
  obtain type v where r: "r = (type, v)"
    by (cases r)
  have "unat (of_nat (length v) :: u16) < 65532"
    using assms by (simp add: r tlv_enc_promote(2) tlv_fits_def)
  from TLV_LENGTH_u16 [OF this] show ?thesis
    using assms tlv_enc_promote [of type v] by (simp add: r tlv_len_at_def load_desc)
qed

interpretation tlvs: record_stream 4 tlv_len_at tlv_enc tlv_fits
proof unfold_locales
  fix buf :: "u8 list" and off
  show "off + 4 \<le> length buf \<Longrightarrow> \<exists>l. tlv_len_at buf off = Some l"
    using load_defined(1) [of off buf] by (auto simp: tlv_len_at_def)
qed (simp_all add: tlv_len_at_enc)

lemma TLV_ALIGN_u16:
  assumes "unat l \<le> 65532"
  shows "unat (to_u16 (TLV_ALIGN (promote (l :: u16)))) = round_up 4 (unat l)"
proof -
  have "TLV_ALIGN (promote l) = (promote l + 2 ^ 2 - 1) AND NOT (2 ^ 2 - 1)"
    by (simp add: TLV_ALIGN_def) (simp add: ac_simps)
  then have "unat (TLV_ALIGN (promote l)) = round_up 4 (unat l)"
    using unat_align_up [of "promote l" 2] assms by (simp only: unat_promote) simp
  moreover have "round_up 4 (unat l) < 65536"
    using assms round_up_less [of 4 "unat l"] by simp
  ultimately show ?thesis
    by (simp add: unsigned_ucast_eq take_bit_nat_eq_self)
qed

lemma TLV_LIST_STEP_at:
  assumes "tlv_fits r"
  shows "TLV_LIST_STEP (pre @ padded (tlv_enc r) @ post)
      \<lparr>tlv_ptr = length pre, tlv_space = of_nat (length (padded (tlv_enc r) @ post))\<rparr> =
    Some \<lparr>tlv_ptr = length (pre @ padded (tlv_enc r)), tlv_space = of_nat (length post)\<rparr>"
proof -
  let ?n = "length (tlv_enc r)"
  obtain l where l: "load16 (pre @ padded (tlv_enc r) @ post) (length pre) = Some l" "unat (ntohs l) = ?n"
    using tlv_len_at_enc [OF assms, of pre "replicate (round_up 4 ?n - ?n) 0 @ post"]
    by (auto simp: tlv_len_at_def padded_def)
  moreover have "?n \<le> 65532"
    using assms by (auto simp: tlv_fits_def split: prod.splits)
  ultimately have "unat (to_u16 (TLV_ALIGN (promote (ntohs l)))) = round_up 4 ?n"
    using TLV_ALIGN_u16 [of "ntohs l"] by simp
  moreover from this have "promote (to_u16 (TLV_ALIGN (promote (ntohs l)))) = (of_nat (round_up 4 ?n) :: u32)"
    by (metis of_nat_unat ucast_id unat_promote)
  ultimately show ?thesis
    using l by (simp add: TLV_LIST_STEP_def Let_def)
qed

lemma pack_append: "pack enc (xs @ ys) = pack enc xs @ pack enc ys"
  by (simp add: pack_def)

lemma pack_split:
  "k < length rs \<Longrightarrow> pack enc rs = pack enc (take k rs) @ padded (enc (rs ! k)) @ pack enc (drop (Suc k) rs)"
  by (subst id_take_nth_drop [of k rs]) (simp_all add: pack_def)

text \<open>Stepping through a packed list: after \<open>k\<close> steps the descriptor is at TLV number \<open>k\<close>.\<close>

lemma tlv_list_steps_at:
  assumes "list_all tlv_fits rs" and "k \<le> length rs"
  shows "tlv_list_steps (pack tlv_enc rs) k (TLV_LIST_INIT 0 (of_nat (length (pack tlv_enc rs)))) =
    Some \<lparr>tlv_ptr = length (pack tlv_enc (take k rs)),
      tlv_space = of_nat (length (pack tlv_enc (drop k rs)))\<rparr>"
  using assms(2)
proof (induction k)
  case 0
  then show ?case
    by (simp add: TLV_LIST_INIT_def pack_def)
next
  case (Suc k)
  let ?pre = "pack tlv_enc (take k rs)" and ?post = "pack tlv_enc (drop (Suc k) rs)"
  have k: "k < length rs" "tlv_fits (rs ! k)"
    using Suc.prems assms(1) by (simp_all add: list_all_length)
  have "pack tlv_enc (drop k rs) = padded (tlv_enc (rs ! k)) @ ?post"
    using k by (simp add: pack_def flip: Cons_nth_drop_Suc)
  moreover have "pack tlv_enc (take (Suc k) rs) = ?pre @ padded (tlv_enc (rs ! k))"
    using k by (simp add: take_Suc_conv_app_nth pack_def)
  ultimately show ?case
    using Suc.IH k TLV_LIST_STEP_at [OF k(2), of ?pre ?post] pack_split [OF k(1), of tlv_enc] by simp
qed

text \<open>
  At each TLV the data is its value, and the list checks accept its type when the space that
  is left, as \<open>__u16\<close>, covers it.
\<close>

lemma tlv_entry:
  fixes pre post :: "u8 list"
  assumes "tlv_fits (type, v)"
  defines "list \<equiv> \<lparr>tlv_ptr = length pre, tlv_space = of_nat (length (padded (tlv_enc (type, v)) @ post))\<rparr>"
  shows "TLV_LIST_CHECK (pre @ padded (tlv_enc (type, v)) @ post) list ty =
      Some (ty = type \<and> 4 + length v \<le> length (padded (tlv_enc (type, v)) @ post) mod 65536)"
    and "buf_rd (pre @ padded (tlv_enc (type, v)) @ post) (TLV_LIST_DATA list) (length v) = Some v"
proof -
  let ?e = "tlv_enc (type, v)" and ?len = "of_nat (length v) :: u16"
  let ?post = "replicate (round_up 4 (length ?e) - length ?e) 0 @ post"
  have e: "pre @ padded ?e @ post = pre @ bytes_of 2 (htons (to_u16 (TLV_LENGTH (promote ?len)))) @
      bytes_of 2 (htons type) @ v @ ?post" and len: "unat ?len = length v" "unat ?len < 65532"
    using tlv_enc_promote [OF assms(1)] assms(1) by (simp_all add: padded_def tlv_fits_def)
  have "unat (to_u16 (of_nat n :: u32)) = n mod 65536" for n
    by (simp add: unsigned_ucast_eq unat_of_nat take_bit_eq_mod mod_mod_cancel)
  then show "TLV_LIST_CHECK (pre @ padded ?e @ post) list ty =
      Some (ty = type \<and> 4 + length v \<le> length (padded ?e @ post) mod 65536)"
    unfolding TLV_LIST_CHECK_def list_def e using TLV_CHECK_desc [OF len(2)] len(1)
    by (simp add: conj_commute del: length_append of_nat_add)
  show "buf_rd (pre @ padded ?e @ post) (TLV_LIST_DATA list) (length v) = Some v"
    unfolding e using buf_rd_at [of "pre @ bytes_of 2 (htons (to_u16 (TLV_LENGTH (promote ?len)))) @
      bytes_of 2 (htons type)" v ?post] by (simp add: TLV_LIST_DATA_def TLV_DATA_def list_def)
qed

lemma pack_drop_Cons:
  "k < length rs \<Longrightarrow> pack enc (drop k rs) = padded (enc (rs ! k)) @ pack enc (drop (Suc k) rs)"
  by (simp add: pack_def flip: Cons_nth_drop_Suc)

lemma tlv_list_entry:
  assumes "list_all tlv_fits rs" and "k < length rs"
  defines "list \<equiv> \<lparr>tlv_ptr = length (pack tlv_enc (take k rs)),
      tlv_space = of_nat (length (pack tlv_enc (drop k rs)))\<rparr>"
  shows "TLV_LIST_CHECK (pack tlv_enc rs) list ty = Some (ty = fst (rs ! k) \<and>
      4 + length (snd (rs ! k)) \<le> length (pack tlv_enc (drop k rs)) mod 65536)"
    and "buf_rd (pack tlv_enc rs) (TLV_LIST_DATA list) (length (snd (rs ! k))) = Some (snd (rs ! k))"
proof -
  have fits: "tlv_fits (fst (rs ! k), snd (rs ! k))"
    using assms(1,2) by (simp add: list_all_length)
  show "TLV_LIST_CHECK (pack tlv_enc rs) list ty = Some (ty = fst (rs ! k) \<and>
      4 + length (snd (rs ! k)) \<le> length (pack tlv_enc (drop k rs)) mod 65536)"
    "buf_rd (pack tlv_enc rs) (TLV_LIST_DATA list) (length (snd (rs ! k))) = Some (snd (rs ! k))"
    using tlv_entry [OF fits, of "pack tlv_enc (take k rs)" "pack tlv_enc (drop (Suc k) rs)"]
      pack_split [OF assms(2), of tlv_enc] pack_drop_Cons [OF assms(2), of tlv_enc]
    unfolding list_def by simp_all
qed

lemma tlv_rest_covers:
  assumes "k < length rs"
  shows "4 + length (snd (rs ! k)) \<le> length (pack tlv_enc (drop k rs))"
    and "length (pack tlv_enc (drop k rs)) \<le> length (pack tlv_enc rs)"
proof -
  obtain ty v where r: "rs ! k = (ty, v)"
    by (cases "rs ! k")
  show "4 + length (snd (rs ! k)) \<le> length (pack tlv_enc (drop k rs))"
    using round_up_4_ge [of "length (tlv_enc (ty, v))"] by (simp add: pack_drop_Cons [OF assms] r)
  show "length (pack tlv_enc (drop k rs)) \<le> length (pack tlv_enc rs)"
    using pack_split [OF assms, of tlv_enc] by (simp add: pack_drop_Cons [OF assms])
qed

text \<open>
  The checks also accept lengths that \<open>TLV_LIST_STEP\<close> cannot step over: zero, and those whose
  alignment wraps around to zero. The step then leaves the list as it is.
\<close>

lemma TLV_LIST_STEP_stuck:
  assumes "load16 buf (tlv_ptr list) = Some l" and "ntohs l = 0 \<or> 65532 < unat (ntohs l)"
  shows "TLV_LIST_STEP buf list = Some list"
proof -
  consider "ntohs l = 0" | "ntohs l = 65533" | "ntohs l = 65534" | "ntohs l = 65535"
  proof -
    have "unat (ntohs l) \<in> {0, 65533, 65534, 65535}"
      using assms(2) unsigned_less [where 'a = nat, of "ntohs l"] by auto
    then show thesis
      using that by (auto simp: word_unat_eq_iff)
  qed
  then have "to_u16 (TLV_ALIGN (promote (ntohs l))) = 0"
    by cases (simp_all add: TLV_ALIGN_def)
  then show ?thesis
    using assms(1) by (simp add: TLV_LIST_STEP_def Let_def)
qed

section \<open>Configuration messages\<close>

lemma unat_TCM_LENGTH: "unat (TCM_LENGTH (promote len)) = 16 + unat (len :: u16)"
  unfolding TCM_LENGTH_def by (subst unat_add_promote) simp_all

text \<open>\<open>TCM_SET\<close> copies the value and nothing else.\<close>

lemma TCM_SET_result:
  assumes "length old = 8" "length rsvd = 8" "length room = unat len" "length d = unat len" and "len \<noteq> 0"
  shows "TCM_SET (length pre) cmd flags (Some (d @ rest)) len (pre @ old @ rsvd @ room @ post) =
    Some (TCM_SPACE (promote len), pre @ bytes_of 4 (htonl (TCM_LENGTH (promote len))) @
      bytes_of 2 (htons cmd) @ bytes_of 2 (htons flags) @ rsvd @ d @ post)"
proof -
  obtain a b c where old: "old = a @ b @ c" "length a = 4" "length b = 2" "length c = 2"
    using assms(1) append_take_drop_id [of 4 old] append_take_drop_id [of 2 "drop 4 old"]
      that [of "take 4 old" "take 2 (drop 4 old)" "drop 2 (drop 4 old)"] by simp
  let ?l = "bytes_of 4 (htonl (TCM_LENGTH (promote len)))" and ?c = "bytes_of 2 (htons cmd)"
    and ?f = "bytes_of 2 (htons flags)"
  have "store32 (length pre) (htonl (TCM_LENGTH (promote len))) (pre @ a @ b @ c @ rsvd @ room @ post) =
      Some (pre @ ?l @ b @ c @ rsvd @ room @ post)"
    unfolding store32_def by (rule buf_wr_at) (simp add: old)
  moreover have "store16 (length pre + 4) (htons cmd) (pre @ ?l @ b @ c @ rsvd @ room @ post) =
      Some (pre @ ?l @ ?c @ c @ rsvd @ room @ post)"
    using buf_wr_at [of b ?c "pre @ ?l" "c @ rsvd @ room @ post"] by (simp add: store16_def old)
  moreover have "store16 (length pre + 6) (htons flags) (pre @ ?l @ ?c @ c @ rsvd @ room @ post) =
      Some (pre @ ?l @ ?c @ ?f @ rsvd @ room @ post)"
    using buf_wr_at [of c ?f "pre @ ?l @ ?c" "rsvd @ room @ post"] by (simp add: store16_def old)
  moreover have "buf_wr (length pre + 16) d (pre @ ?l @ ?c @ ?f @ rsvd @ room @ post) =
      Some (pre @ ?l @ ?c @ ?f @ rsvd @ d @ post)"
    using buf_wr_at [of room d "pre @ ?l @ ?c @ ?f @ rsvd" post] assms by simp
  moreover have "buf_rd (d @ rest) 0 (unat len) = Some d"
    using buf_rd_at [of "[]" d rest] assms(4) by simp
  ultimately show ?thesis
    using assms(5) by (simp add: TCM_SET_def Let_def old TCM_DATA_def)
qed

section \<open>Properties\<close>

text \<open>
  C28. A message made of TLVs of at most 65532 bytes is traversed by
  \<open>TLV_LIST_STEP\<close>, whatever its length: after k steps from
  \<open>TLV_LIST_INIT\<close> the descriptor is at TLV number k, where
  \<open>TLV_LIST_DATA\<close> points to its value, and after the last step
  \<open>TLV_LIST_EMPTY\<close> holds. At TLV number k \<open>TLV_LIST_CHECK\<close> accepts
  exactly its type when the bytes that are left, reduced modulo 65536, cover the TLV, and
  nothing otherwise: the 32-bit space of the list is passed as a \<open>__u16\<close>. So all
  checks are right when the message has fewer than 65536 bytes, and with 65536 bytes left the
  check rejects a well-formed TLV.
\<close>

theorem tlv_list_traversal:
  assumes "list_all tlv_fits rs"
  shows "(\<forall>k. k < length rs \<longrightarrow> (\<exists>list.
      tlv_list_steps (pack tlv_enc rs) k (TLV_LIST_INIT 0 (of_nat (length (pack tlv_enc rs)))) = Some list \<and>
      (\<forall>ty. TLV_LIST_CHECK (pack tlv_enc rs) list ty = Some (ty = fst (rs ! k) \<and>
        4 + length (snd (rs ! k)) \<le> length (pack tlv_enc (drop k rs)) mod 65536)) \<and>
      (length (pack tlv_enc rs) < 65536 \<longrightarrow>
        TLV_LIST_CHECK (pack tlv_enc rs) list (fst (rs ! k)) = Some True) \<and>
      buf_rd (pack tlv_enc rs) (TLV_LIST_DATA list) (length (snd (rs ! k))) = Some (snd (rs ! k)))) \<and>
    (\<exists>list. tlv_list_steps (pack tlv_enc rs) (length rs) (TLV_LIST_INIT 0 (of_nat (length (pack tlv_enc rs)))) =
      Some list \<and> TLV_LIST_EMPTY list)"
proof (intro conjI allI impI)
  show "\<exists>list. tlv_list_steps (pack tlv_enc rs) (length rs) (TLV_LIST_INIT 0 (of_nat (length (pack tlv_enc rs)))) =
      Some list \<and> TLV_LIST_EMPTY list"
    using tlv_list_steps_at [OF assms le_refl] by (simp add: TLV_LIST_EMPTY_def pack_def)
next
  fix k assume k: "k < length rs"
  then show "\<exists>list. tlv_list_steps (pack tlv_enc rs) k (TLV_LIST_INIT 0 (of_nat (length (pack tlv_enc rs)))) = Some list \<and>
      (\<forall>ty. TLV_LIST_CHECK (pack tlv_enc rs) list ty = Some (ty = fst (rs ! k) \<and>
        4 + length (snd (rs ! k)) \<le> length (pack tlv_enc (drop k rs)) mod 65536)) \<and>
      (length (pack tlv_enc rs) < 65536 \<longrightarrow>
        TLV_LIST_CHECK (pack tlv_enc rs) list (fst (rs ! k)) = Some True) \<and>
      buf_rd (pack tlv_enc rs) (TLV_LIST_DATA list) (length (snd (rs ! k))) = Some (snd (rs ! k))"
    using tlv_list_steps_at [OF assms, of k] tlv_list_entry [OF assms k] tlv_rest_covers [OF k] by simp
qed

theorem tlv_list_traversal_witness:
  "\<exists>list. tlv_list_steps (pack tlv_enc [(1, replicate 65524 7), (2, [])]) 0
     (TLV_LIST_INIT 0 (of_nat (length (pack tlv_enc [(1, replicate 65524 7), (2, [])])))) = Some list \<and>
     TLV_LIST_CHECK (pack tlv_enc [(1, replicate 65524 7), (2, [])]) list 1 = Some True"
proof -
  have "list_all tlv_fits [(1, replicate 65524 7), (2, [])]"
    by (simp add: tlv_fits_def)
  from tlv_list_traversal [OF this, THEN conjunct1, THEN spec [of _ 0]] show ?thesis
    by (auto simp: pack_def round_up_def)
qed

text \<open>
  C29. \<open>TLV_SET\<close>, for a value of 1 to 65531 bytes, copies \<open>tlv_len\<close>
  bytes, the length with the descriptor, where the value has len: a caller whose value has
  exactly len bytes makes it read behind the value. When four more bytes can be read and
  written, the TLV is the one that \<open>TLV_CHECK\<close> accepts, and the four bytes behind
  the value are overwritten.
\<close>

theorem tlv_set_overrun:
  assumes "len \<noteq> 0" and "unat len < 65532" and "length v = unat len"
    and "length old = 4" and "length room = unat len" and "length extra = 4" and "length behind = 4"
  shows "TLV_SET tlv type (Some v) len buf = None \<and>
    (\<exists>buf. TLV_SET (length pre) type (Some (v @ extra)) len (pre @ old @ room @ behind @ post) =
        Some (TLV_SPACE (promote len), buf) \<and>
      (\<forall>space ty. TLV_CHECK buf (length pre) space ty = Some (4 + unat len \<le> unat space \<and> ty = type)) \<and>
      drop (length pre + 4) buf = v @ extra @ post)"
proof
  show "TLV_SET tlv type (Some v) len buf = None"
    using TLV_SET_overread [OF assms(1), of v] assms(3) by simp
  let ?l = "bytes_of 2 (htons (to_u16 (TLV_LENGTH (promote len))))" and ?t = "bytes_of 2 (htons type)"
  have "TLV_SET (length pre) type (Some (v @ extra)) len (pre @ old @ room @ behind @ post) =
      Some (TLV_SPACE (promote len), pre @ ?l @ ?t @ v @ extra @ post)"
    using TLV_SET_result [of "old @ room @ behind" len "v @ extra" pre type "[]" post] assms by simp
  then show "\<exists>buf. TLV_SET (length pre) type (Some (v @ extra)) len (pre @ old @ room @ behind @ post) =
      Some (TLV_SPACE (promote len), buf) \<and>
      (\<forall>space ty. TLV_CHECK buf (length pre) space ty = Some (4 + unat len \<le> unat space \<and> ty = type)) \<and>
      drop (length pre + 4) buf = v @ extra @ post"
    using TLV_CHECK_desc [OF assms(2), of pre type "v @ extra @ post"] by auto
qed

theorem tlv_set_overrun_witness:
  "TLV_SET 0 1 (Some [10, 20]) 2 (replicate 16 0) = None \<and>
   (\<exists>buf. TLV_SET 0 1 (Some [10, 20, 30, 40, 50, 60]) 2 (replicate 12 0) = Some (TLV_SPACE (promote (2 :: u16)), buf) \<and>
      drop 4 buf = [10, 20, 30, 40, 50, 60, 0, 0])"
proof -
  have "replicate 12 0 = [] @ replicate 4 0 @ replicate 2 0 @ replicate 4 0 @ [0, 0 :: u8]"
    by (simp add: eval_nat_numeral)
  then show ?thesis
    using tlv_set_overrun [where len = 2 and v = "[10, 20]" and old = "replicate 4 0" and room = "replicate 2 0" and
        extra = "[30, 40, 50, 60]" and behind = "replicate 4 0" and tlv = 0 and type = 1 and buf = "replicate 16 0" and
        pre = "[]" and post = "[0, 0]"]
    by auto
qed

text \<open>
  C30. \<open>TLV_LIST_STEP\<close> makes no progress at a TLV with length 0 or above 65532
  (whose aligned length is 0 as a 16-bit number), although \<open>TLV_OK\<close> accepts such
  lengths: a traversal of a received message that holds such a TLV stays there whatever number
  of steps it does.
\<close>

theorem tlv_list_stuck:
  assumes "load16 buf (tlv_ptr list) = Some l" and "ntohs l = 0 \<or> 65532 < unat (ntohs l)"
  shows "tlv_list_steps buf n list = Some list \<and>
    (ntohs l \<le> space \<and> 4 \<le> space \<longrightarrow> TLV_OK buf (tlv_ptr list) space = Some True)"
proof
  show "tlv_list_steps buf n list = Some list"
    by (induction n) (simp_all add: TLV_LIST_STEP_stuck [OF assms])
  show "ntohs l \<le> space \<and> 4 \<le> space \<longrightarrow> TLV_OK buf (tlv_ptr list) space = Some True"
    using assms(1) by (simp add: TLV_OK_def word_le_nat_alt unat_promote)
qed

theorem tlv_list_stuck_witness:
  "tlv_list_steps (replicate 8 0) 100 (TLV_LIST_INIT 0 8) = Some (TLV_LIST_INIT 0 8) \<and> TLV_OK (replicate 8 0) 0 8 = Some True"
proof -
  have "load16 (replicate 8 0) (tlv_ptr (TLV_LIST_INIT 0 8)) = Some 0" "ntohs 0 = 0" "tlv_ptr (TLV_LIST_INIT 0 8) = 0"
    by (simp_all add: load16_def buf_rd_def TLV_LIST_INIT_def ntohs_def bswap_16_def bswap_constant_16_def
        numeral_2_eq_2)
  then show ?thesis
    using tlv_list_stuck [of "replicate 8 0" "TLV_LIST_INIT 0 8" 0 100 8] by simp
qed

end
