(* ===== verification/Socket_Cmsg.thy ===== *)
theory Socket_Cmsg
  imports Tlv_Stream
begin

text \<open>
  Ancillary data of a socket message: the \<open>CMSG_\<close> macros and the inline function
  \<open>__cmsg_nxthdr\<close> of \<^verbatim>\<open>bits/socket.h\<close>.

  Pointers are 32-bit addresses and their arithmetic wraps around, as it does on the target;
  the null pointer is 0. The bytes from \<open>msg_control\<close> on are a list; reading a header
  outside of them is \<open>None\<close>.
\<close>

section \<open>Headers\<close>

record cmsghdr =
  cmsg_len :: u32
  cmsg_level :: u32
  cmsg_type :: u32

record msghdr =
  msg_name :: u32
  msg_namelen :: u32
  msg_iov :: u32
  msg_iovlen :: u32
  msg_control :: u32
  msg_controllen :: u32
  msg_flags :: u32

definition sizeof_cmsghdr :: nat where
  "sizeof_cmsghdr = struct_size [(4, 4), (4, 4), (4, 4)]"

definition cmsg_len_of :: "msghdr \<Rightarrow> u8 list \<Rightarrow> u32 \<Rightarrow> u32 option" where
  "cmsg_len_of mhdr ctl cmsg = load32 ctl (unat (cmsg - msg_control mhdr))"

definition CMSG_DATA :: "u32 \<Rightarrow> u32" where
  "CMSG_DATA cmsg = cmsg + of_nat sizeof_cmsghdr"

definition CMSG_ALIGN :: "u32 \<Rightarrow> u32" where
  "CMSG_ALIGN len = (len + 4 - 1) AND NOT (4 - 1)"

definition CMSG_SPACE :: "u32 \<Rightarrow> u32" where
  "CMSG_SPACE len = CMSG_ALIGN len + CMSG_ALIGN (of_nat sizeof_cmsghdr)"

definition CMSG_LEN :: "u32 \<Rightarrow> u32" where
  "CMSG_LEN len = CMSG_ALIGN (of_nat sizeof_cmsghdr) + len"

definition CMSG_FIRSTHDR :: "msghdr \<Rightarrow> u32" where
  "CMSG_FIRSTHDR mhdr = (if msg_controllen mhdr \<ge> of_nat sizeof_cmsghdr then msg_control mhdr else 0)"

definition cmsg_nxthdr :: "msghdr \<Rightarrow> u8 list \<Rightarrow> u32 \<Rightarrow> u32 option" where
  "cmsg_nxthdr mhdr ctl cmsg = do {
     len \<leftarrow> cmsg_len_of mhdr ctl cmsg;
     if len < of_nat sizeof_cmsghdr then Some 0
     else do {
       let cmsg = cmsg + CMSG_ALIGN len;
       if cmsg + of_nat sizeof_cmsghdr > msg_control mhdr + msg_controllen mhdr then Some 0
       else do {
         len \<leftarrow> cmsg_len_of mhdr ctl cmsg;
         if cmsg + CMSG_ALIGN len > msg_control mhdr + msg_controllen mhdr then Some 0
         else Some cmsg } } }"

definition CMSG_NXTHDR :: "msghdr \<Rightarrow> u8 list \<Rightarrow> u32 \<Rightarrow> u32 option" where
  "CMSG_NXTHDR mhdr ctl cmsg = cmsg_nxthdr mhdr ctl cmsg"

text \<open>The loop over all headers: \<open>for (c = CMSG_FIRSTHDR (m); c; c = CMSG_NXTHDR (m, c))\<close>.\<close>

partial_function (option) cmsg_walk :: "msghdr \<Rightarrow> u8 list \<Rightarrow> u32 \<Rightarrow> u32 list option" where
  "cmsg_walk mhdr ctl c =
     (if c = 0 then Some []
      else Option.bind (CMSG_NXTHDR mhdr ctl c) (\<lambda>c'.
        Option.bind (cmsg_walk mhdr ctl c') (\<lambda>cs. Some (c # cs))))"

section \<open>Correctness\<close>

lemma cmsg_size [simp]: "sizeof_cmsghdr = 12" "CMSG_ALIGN 12 = 12"
  by code_simp+

lemma unat_CMSG_ALIGN: "unat len + 4 \<le> 2 ^ 32 \<Longrightarrow> unat (CMSG_ALIGN len) = round_up 4 (unat len)"
  using unat_align_up [of len 2] by (simp add: CMSG_ALIGN_def)

text \<open>
  The control buffer is an object in the part of the address space that a process has: a
  header behind its end does not wrap around.
\<close>

definition ctl_ok :: "msghdr \<Rightarrow> u8 list \<Rightarrow> bool" where
  "ctl_ok mhdr ctl \<longleftrightarrow> msg_control mhdr \<noteq> 0 \<and> length ctl = unat (msg_controllen mhdr) \<and>
     unat (msg_control mhdr) + length ctl + 12 < 2 ^ 32"

lemma unat_addr: "unat (b :: u32) + n < 2 ^ 32 \<Longrightarrow> unat (b + of_nat n) = unat b + n"
  by (subst unat_word_ariths) (simp add: unat_of_nat_small)

lemma ctl_end:
  assumes "ctl_ok mhdr ctl"
  shows "unat (msg_control mhdr + msg_controllen mhdr) = unat (msg_control mhdr) + length ctl"
  using assms unat_addr [of "msg_control mhdr" "length ctl"] by (simp add: ctl_ok_def)

lemma cmsg_len_at:
  assumes "unat (msg_control mhdr) + n < 2 ^ 32"
  shows "cmsg_len_of mhdr ctl (msg_control mhdr + of_nat n) = load32 ctl n"
  using assms by (simp add: cmsg_len_of_def unat_of_nat_small)

text \<open>
  One step, in natural numbers, from a header that lies in the buffer with all its data and
  padding: the next header is behind it, and inside of the buffer.
\<close>

lemma cmsg_nxthdr_at:
  assumes ok: "ctl_ok mhdr ctl" and l: "load32 ctl n = Some l" "12 \<le> unat l"
    and inside: "n + round_up 4 (unat l) \<le> length ctl"
  defines "n' \<equiv> n + round_up 4 (unat l)"
  shows "cmsg_nxthdr mhdr ctl (msg_control mhdr + of_nat n) =
    (if n' + 12 > length ctl then Some 0
     else Option.bind (load32 ctl n') (\<lambda>l'.
       if unat (msg_control mhdr + of_nat n' + CMSG_ALIGN l') > unat (msg_control mhdr) + length ctl
       then Some 0 else Some (msg_control mhdr + of_nat n')))"
proof -
  let ?b = "msg_control mhdr"
  have fit: "unat ?b + length ctl + 12 < 2 ^ 32"
    using ok by (simp add: ctl_ok_def)
  have "unat l + 4 \<le> 2 ^ 32"
    using inside fit round_up_4_ge [of "unat l"] by linarith
  then have "unat (CMSG_ALIGN l) = round_up 4 (unat l)"
    by (rule unat_CMSG_ALIGN)
  then have "CMSG_ALIGN l = of_nat (round_up 4 (unat l))"
    by (metis of_nat_unat ucast_id)
  then have next': "?b + of_nat n + CMSG_ALIGN l = ?b + of_nat n'"
    by (simp add: n'_def)
  have n': "unat (?b + of_nat n' + 12) = unat ?b + n' + 12"
    using unat_addr [of ?b "n' + 12"] fit inside by (simp add: n'_def add.assoc)
  have len: "cmsg_len_of mhdr ctl (?b + of_nat n) = Some l"
    "cmsg_len_of mhdr ctl (?b + of_nat n') = load32 ctl n'"
    using fit inside l(1) cmsg_len_at [of mhdr n ctl] cmsg_len_at [of mhdr n' ctl] by (simp_all add: n'_def)
  show ?thesis
    using l(2) unfolding cmsg_nxthdr_def len(1)
    by (simp add: word_less_nat_alt next' n' len(2) ctl_end [OF ok] Let_def)
qed

text \<open>From such a header the step is defined, and it goes forward or ends.\<close>

lemma cmsg_nxthdr_safe:
  assumes "ctl_ok mhdr ctl" "load32 ctl n = Some l" "12 \<le> unat l" "n + round_up 4 (unat l) \<le> length ctl"
  shows "\<exists>q. cmsg_nxthdr mhdr ctl (msg_control mhdr + of_nat n) = Some q \<and>
    (q = 0 \<or> (\<exists>n'. q = msg_control mhdr + of_nat n' \<and> n + 12 \<le> n' \<and> n' + 12 \<le> length ctl))"
  using round_up_4_ge [of "unat l"] assms(3) load_defined(2) [of "n + round_up 4 (unat l)" ctl]
  unfolding cmsg_nxthdr_at [OF assms]
  by (cases "n + round_up 4 (unat l) + 12 > length ctl") (auto intro!: exI [of _ "n + round_up 4 (unat l)"])

section \<open>Packing\<close>

definition cmsg_enc :: "u32 \<times> u32 \<times> u8 list \<Rightarrow> u8 list" where
  "cmsg_enc = (\<lambda>(level, type, data).
     bytes_of 4 (CMSG_LEN (of_nat (length data))) @ bytes_of 4 level @ bytes_of 4 type @ data)"

definition cmsg_fits :: "u32 \<times> u32 \<times> u8 list \<Rightarrow> bool" where
  "cmsg_fits = (\<lambda>(level, type, data). 12 + length data < 2 ^ 32)"

definition cmsg_length_at :: "u8 list \<Rightarrow> nat \<Rightarrow> nat option" where
  "cmsg_length_at buf off = map_option unat (load32 buf off)"

lemma cmsg_enc_length [simp]: "length (cmsg_enc (level, type, data)) = 12 + length data"
  by (simp add: cmsg_enc_def)

interpretation control_messages: record_stream 12 cmsg_length_at cmsg_enc cmsg_fits
proof unfold_locales
  fix buf :: "u8 list" and off
  show "off + 12 \<le> length buf \<Longrightarrow> \<exists>l. cmsg_length_at buf off = Some l"
    using load_defined(2) [of off buf] by (auto simp: cmsg_length_at_def)
next
  fix r :: "u32 \<times> u32 \<times> u8 list" and pre post
  obtain level type data where r: "r = (level, type, data)"
    by (cases r)
  show "12 \<le> length (cmsg_enc r)"
    by (simp add: r)
  assume "cmsg_fits r"
  then have "unat (of_nat (12 + length data) :: u32) = 12 + length data"
    by (intro unat_of_nat_small) (simp add: r cmsg_fits_def)
  moreover have "CMSG_LEN (of_nat (length data)) = of_nat (12 + length data)"
    by (simp add: CMSG_LEN_def)
  ultimately have "unat (CMSG_LEN (of_nat (length data))) = 12 + length data"
    by simp
  then show "cmsg_length_at (pre @ cmsg_enc r @ post) (length pre) = Some (length (cmsg_enc r))"
    by (simp add: r cmsg_length_at_def) (simp add: cmsg_enc_def load_at)
qed simp

text \<open>The offsets of the packed messages, and the walk that finds them all.\<close>

primrec cmsg_offsets :: "nat \<Rightarrow> (u32 \<times> u32 \<times> u8 list) list \<Rightarrow> nat list" where
  "cmsg_offsets n [] = []"
| "cmsg_offsets n (r # rs) = n # cmsg_offsets (n + length (padded (cmsg_enc r))) rs"

lemma load_packed:
  assumes "cmsg_fits r"
  obtains l where "load32 (pre @ padded (cmsg_enc r) @ post) (length pre) = Some l" "unat l = length (cmsg_enc r)"
  using control_messages.len_at_enc [OF assms, of pre
      "replicate (round_up 4 (length (cmsg_enc r)) - length (cmsg_enc r)) 0 @ post"]
  by (auto simp: cmsg_length_at_def padded_def)

lemma cmsg_next_packed:
  assumes ok: "ctl_ok mhdr ctl" and ctl: "ctl = pre @ padded (cmsg_enc r) @ pack cmsg_enc rs"
    and fits: "list_all cmsg_fits (r # rs)"
  shows "CMSG_NXTHDR mhdr ctl (msg_control mhdr + of_nat (length pre)) =
    Some (if rs = [] then 0 else msg_control mhdr + of_nat (length (pre @ padded (cmsg_enc r))))"
proof -
  let ?b = "msg_control mhdr" and ?pre = "pre @ padded (cmsg_enc r)"
  obtain l where l: "load32 ctl (length pre) = Some l" "unat l = length (cmsg_enc r)"
    using load_packed [of r pre "pack cmsg_enc rs"] fits ctl by auto
  have "12 \<le> unat l"
    unfolding l(2) by (rule control_messages.enc_len) (use fits in simp)
  moreover have e: "length pre + round_up 4 (unat l) = length ?pre"
    by (simp add: l(2))
  moreover have "length ?pre \<le> length ctl"
    by (simp add: ctl)
  ultimately have step: "CMSG_NXTHDR mhdr ctl (?b + of_nat (length pre)) =
      (if length ?pre + 12 > length ctl then Some 0
       else Option.bind (load32 ctl (length ?pre)) (\<lambda>l'.
         if unat (?b + of_nat (length ?pre) + CMSG_ALIGN l') > unat ?b + length ctl
         then Some 0 else Some (?b + of_nat (length ?pre))))"
    using cmsg_nxthdr_at [OF ok l(1), unfolded e] by (simp only: CMSG_NXTHDR_def)
  show ?thesis
  proof (cases rs)
    case Nil
    then show ?thesis
      using ctl step by (simp add: pack_def)
  next
    case (Cons r' rs')
    let ?n = "round_up 4 (length (cmsg_enc r'))"
    have ctl': "ctl = ?pre @ padded (cmsg_enc r') @ pack cmsg_enc rs'"
      by (simp add: ctl Cons pack_def)
    obtain l' where l': "load32 ctl (length ?pre) = Some l'" "unat l' = length (cmsg_enc r')"
      using load_packed [of r' ?pre "pack cmsg_enc rs'"] fits Cons ctl' by auto
    have len: "length ?pre + ?n \<le> length ctl" "unat ?b + length ctl + 12 < 2 ^ 32"
      using ok by (simp_all add: ctl' ctl_ok_def)
    have "unat (CMSG_ALIGN l') = ?n"
      unfolding l'(2) [symmetric] using len round_up_4_ge [of "unat l'"]
      by (intro unat_CMSG_ALIGN) (simp add: l'(2))
    then have "unat (?b + of_nat (length ?pre) + CMSG_ALIGN l') = unat ?b + length ?pre + ?n"
      using len unat_addr [of ?b "length ?pre"] by (subst unat_word_ariths) simp
    moreover have "12 \<le> length (cmsg_enc r')"
      by (rule control_messages.enc_len) (use fits Cons in simp)
    then have "12 \<le> ?n"
      using round_up_4_ge le_trans by blast
    ultimately show ?thesis
      using len l'(1) Cons by (simp add: step)
  qed
qed

lemma cmsg_walk_packed:
  assumes "ctl_ok mhdr ctl" and "ctl = pre @ pack cmsg_enc rs" and "list_all cmsg_fits rs" and "rs \<noteq> []"
  shows "cmsg_walk mhdr ctl (msg_control mhdr + of_nat (length pre)) =
    Some (map (\<lambda>n. msg_control mhdr + of_nat n) (cmsg_offsets (length pre) rs))"
  using assms(2-)
proof (induction rs arbitrary: pre)
  case (Cons r rs)
  let ?b = "msg_control mhdr" and ?pre = "pre @ padded (cmsg_enc r)"
  have ctl: "ctl = pre @ padded (cmsg_enc r) @ pack cmsg_enc rs" "ctl = ?pre @ pack cmsg_enc rs"
    using Cons.prems(1) by (simp_all add: pack_def)
  have "unat (?b + of_nat (length pre)) = unat ?b + length pre"
    using assms(1) by (intro unat_addr) (simp add: ctl(1) ctl_ok_def)
  then have nonnull: "?b + of_nat (length pre) \<noteq> 0"
    using assms(1) by (auto simp: word_unat_eq_iff ctl_ok_def)
  show ?case
  proof (cases "rs = []")
    case True
    then show ?thesis
      using cmsg_next_packed [OF assms(1) ctl(1)] Cons.prems(2) nonnull
      by (subst cmsg_walk.simps) (simp add: cmsg_walk.simps [of _ _ 0])
  next
    case False
    then show ?thesis
      using cmsg_next_packed [OF assms(1) ctl(1)] Cons.IH [OF ctl(2)] Cons.prems(2) nonnull
      by (subst cmsg_walk.simps) simp
  qed
qed simp

text \<open>
  A length whose alignment wraps around to zero passes the checks of \<open>__cmsg_nxthdr\<close>, and the
  function returns the same header again: the loop does not end.
\<close>

lemma cmsg_nxthdr_stuck:
  assumes "ctl_ok mhdr ctl" "n + 12 \<le> length ctl" "load32 ctl n = Some l" "0xFFFFFFFC < l"
  shows "cmsg_nxthdr mhdr ctl (msg_control mhdr + of_nat n) = Some (msg_control mhdr + of_nat n)"
proof -
  let ?p = "msg_control mhdr + of_nat n"
  have fit: "unat (msg_control mhdr) + length ctl + 12 < 2 ^ 32"
    using assms(1) by (simp add: ctl_ok_def)
  then have p: "unat ?p = unat (msg_control mhdr) + n" "unat (?p + 12) = unat (msg_control mhdr) + n + 12"
    using assms(2) unat_addr [of "msg_control mhdr" n] unat_addr [of "msg_control mhdr" "n + 12"]
    by (simp_all add: add.assoc)
  have "unat l \<in> {0xFFFFFFFD, 0xFFFFFFFE, 0xFFFFFFFF}"
    using assms(4) unsigned_less [where 'a = nat, of l] by (auto simp: word_less_nat_alt)
  then have "l = 0xFFFFFFFD \<or> l = 0xFFFFFFFE \<or> l = 0xFFFFFFFF"
    by (auto simp: word_unat_eq_iff)
  then have "CMSG_ALIGN l = 0" "\<not> l < 12"
    by (auto simp: CMSG_ALIGN_def)
  moreover have "cmsg_len_of mhdr ctl ?p = Some l"
    using assms(2,3) fit cmsg_len_at [of mhdr n ctl] by simp
  moreover have "\<not> msg_control mhdr + msg_controllen mhdr < ?p + 12"
    "\<not> msg_control mhdr + msg_controllen mhdr < ?p"
    using assms(2) unfolding word_less_nat_alt ctl_end [OF assms(1)] p by linarith+
  ultimately show ?thesis
    by (simp add: cmsg_nxthdr_def Let_def)
qed

lemma cmsg_walk_diverges:
  assumes "p \<noteq> 0" and "CMSG_NXTHDR mhdr ctl p = Some p"
  shows "cmsg_walk mhdr ctl p = None"
proof (cases "cmsg_walk mhdr ctl p")
  case (Some cs)
  have "cmsg_walk mhdr ctl p = Option.bind (cmsg_walk mhdr ctl p) (\<lambda>cs. Some (p # cs))"
    by (subst cmsg_walk.simps) (simp add: assms)
  then have "Some cs = Some (p # cs)"
    unfolding Some by simp
  then show ?thesis
    by simp
qed

section \<open>Properties\<close>

text \<open>
  C26. A loop with \<open>CMSG_FIRSTHDR\<close> and \<open>CMSG_NXTHDR\<close> over control
  messages that were built with \<open>CMSG_LEN\<close> and padded to words ends, visits exactly
  them in order, and reads nothing outside of the control buffer.
\<close>

theorem control_messages_found:
  assumes "ctl_ok mhdr (pack cmsg_enc rs)" and "list_all cmsg_fits rs" and "rs \<noteq> []"
  shows "cmsg_walk mhdr (pack cmsg_enc rs) (CMSG_FIRSTHDR mhdr) =
    Some (map (\<lambda>n. msg_control mhdr + of_nat n) (cmsg_offsets 0 rs))"
proof -
  obtain r rs' where rs: "rs = r # rs'"
    using assms(3) by (cases rs) auto
  have "12 \<le> length (cmsg_enc r)"
    using assms(2) rs by (intro control_messages.enc_len) simp
  then have "12 \<le> unat (msg_controllen mhdr)"
    using assms(1) round_up_4_ge [of "length (cmsg_enc r)"] by (simp add: rs ctl_ok_def pack_def)
  then have "CMSG_FIRSTHDR mhdr = msg_control mhdr"
    by (simp add: CMSG_FIRSTHDR_def word_le_nat_alt)
  then show ?thesis
    using cmsg_walk_packed [OF assms(1) _ assms(2,3), of "[]"] by simp
qed

theorem control_messages_found_witness:
  "cmsg_walk \<lparr>msg_name = 0, msg_namelen = 0, msg_iov = 0, msg_iovlen = 0, msg_control = 0x1000, msg_controllen = 28,
       msg_flags = 0\<rparr> (pack cmsg_enc [(1, 1, [3, 0, 0, 0]), (1, 2, [])])
     (CMSG_FIRSTHDR \<lparr>msg_name = 0, msg_namelen = 0, msg_iov = 0, msg_iovlen = 0, msg_control = 0x1000,
       msg_controllen = 28, msg_flags = 0\<rparr>) = Some [0x1000, 0x1010]"
proof -
  let ?m = "\<lparr>msg_name = 0, msg_namelen = 0, msg_iov = 0, msg_iovlen = 0, msg_control = 0x1000, msg_controllen = 28,
       msg_flags = 0\<rparr> :: msghdr"
  have "ctl_ok ?m (pack cmsg_enc [(1, 1, [3, 0, 0, 0]), (1, 2, [])])"
    "list_all cmsg_fits [(1, 1, [3, 0, 0, 0]), (1, 2, [])]"
    by (simp_all add: ctl_ok_def cmsg_fits_def pack_def round_up_def)
  from control_messages_found [OF this] show ?thesis
    by (simp add: round_up_def)
qed

text \<open>
  C27. From a header whose aligned data ends inside of the control buffer
  \<open>__cmsg_nxthdr\<close> returns null or a later header inside of the buffer; but it
  checks the aligned length of the next header with an addition that wraps around, so that a
  header with a length above 0xFFFFFFFC is accepted and returned again for ever: the loop over
  the control messages does not end.
\<close>

theorem control_message_loop:
  assumes "ctl_ok mhdr ctl" and "load32 ctl n = Some l"
  shows "(12 \<le> unat l \<and> n + round_up 4 (unat l) \<le> length ctl \<longrightarrow>
      (\<exists>q. cmsg_nxthdr mhdr ctl (msg_control mhdr + of_nat n) = Some q \<and>
        (q = 0 \<or> (\<exists>n'. q = msg_control mhdr + of_nat n' \<and> n + 12 \<le> n' \<and> n' + 12 \<le> length ctl)))) \<and>
    (n + 12 \<le> length ctl \<and> 0xFFFFFFFC < l \<longrightarrow>
      cmsg_nxthdr mhdr ctl (msg_control mhdr + of_nat n) = Some (msg_control mhdr + of_nat n) \<and>
      cmsg_walk mhdr ctl (msg_control mhdr + of_nat n) = None)"
proof (intro conjI impI; elim conjE)
  assume "12 \<le> unat l" "n + round_up 4 (unat l) \<le> length ctl"
  then show "\<exists>q. cmsg_nxthdr mhdr ctl (msg_control mhdr + of_nat n) = Some q \<and>
      (q = 0 \<or> (\<exists>n'. q = msg_control mhdr + of_nat n' \<and> n + 12 \<le> n' \<and> n' + 12 \<le> length ctl))"
    by (rule cmsg_nxthdr_safe [OF assms])
next
  assume *: "n + 12 \<le> length ctl" "0xFFFFFFFC < l"
  then show stuck: "cmsg_nxthdr mhdr ctl (msg_control mhdr + of_nat n) = Some (msg_control mhdr + of_nat n)"
    by (intro cmsg_nxthdr_stuck [OF assms(1) _ assms(2)])
  have "unat (msg_control mhdr + of_nat n) = unat (msg_control mhdr) + n"
    using assms(1) *(1) by (intro unat_addr) (simp add: ctl_ok_def)
  then have "msg_control mhdr + of_nat n \<noteq> 0"
    using assms(1) by (auto simp: ctl_ok_def word_unat_eq_iff)
  then show "cmsg_walk mhdr ctl (msg_control mhdr + of_nat n) = None"
    using stuck by (intro cmsg_walk_diverges) (simp_all add: CMSG_NXTHDR_def)
qed

theorem control_message_loop_witness:
  "cmsg_walk \<lparr>msg_name = 0, msg_namelen = 0, msg_iov = 0, msg_iovlen = 0, msg_control = 0x1000, msg_controllen = 12,
       msg_flags = 0\<rparr> (replicate 12 0xFF) 0x1000 = None"
proof -
  let ?m = "\<lparr>msg_name = 0, msg_namelen = 0, msg_iov = 0, msg_iovlen = 0, msg_control = 0x1000, msg_controllen = 12,
       msg_flags = 0\<rparr> :: msghdr"
  have "ctl_ok ?m (replicate 12 0xFF)"
    by (simp add: ctl_ok_def)
  moreover have "load32 (replicate 12 0xFF) 0 = Some 0xFFFFFFFF"
    by code_simp
  ultimately show ?thesis
    using control_message_loop [of ?m "replicate 12 0xFF" 0 "0xFFFFFFFF"] by simp
qed

end
