(* ===== verification/Posix_Macros.thy ===== *)
theory Posix_Macros
  imports C_Stdio Swab
begin

text \<open>
  The macros of four glibc headers that compute: device numbers (\<^verbatim>\<open>bits/sysmacros.h\<close>), time
  values (\<^verbatim>\<open>sys/time.h\<close>), sets of file descriptors (\<^verbatim>\<open>sys/select.h\<close> with
  \<^verbatim>\<open>bits/select.h\<close>) and the status of a child process (\<^verbatim>\<open>bits/waitstatus.h\<close>).

  \<open>long\<close> has 32 bits. Where signed arithmetic can overflow, numbers are integers and an
  overflow, which is undefined in C, is \<open>None\<close>.
\<close>

section \<open>Device numbers\<close>

definition gnu_dev_major :: "u64 \<Rightarrow> u32" where
  "gnu_dev_major dev =
     ucast (drop_bit 8 (dev AND 0x00000000000fff00)) OR
     ucast (drop_bit 32 (dev AND 0xfffff00000000000))"

definition gnu_dev_minor :: "u64 \<Rightarrow> u32" where
  "gnu_dev_minor dev =
     ucast (drop_bit 0 (dev AND 0x00000000000000ff)) OR
     ucast (drop_bit 12 (dev AND 0x00000ffffff00000))"

definition gnu_dev_makedev :: "u32 \<Rightarrow> u32 \<Rightarrow> u64" where
  "gnu_dev_makedev major minor =
     push_bit 8 (ucast (major AND 0x00000fff)) OR
     push_bit 32 (ucast (major AND 0xfffff000)) OR
     push_bit 0 (ucast (minor AND 0x000000ff)) OR
     push_bit 12 (ucast (minor AND 0xffffff00))"

lemma makedev_parts: "gnu_dev_major (gnu_dev_makedev ma mi) = ma" "gnu_dev_minor (gnu_dev_makedev ma mi) = mi"
  by (simp_all add: gnu_dev_major_def gnu_dev_minor_def gnu_dev_makedev_def bits32)

lemma makedev_major_minor: "gnu_dev_makedev (gnu_dev_major d) (gnu_dev_minor d) = d"
  by (simp add: gnu_dev_major_def gnu_dev_minor_def gnu_dev_makedev_def bits64)

section \<open>Time values\<close>

record timeval =
  tv_sec :: int
  tv_usec :: int

type_synonym tv_store = "nat \<Rightarrow> timeval"

text \<open>An assignment of an arithmetic result to a \<open>long\<close>.\<close>

definition as_long :: "int \<Rightarrow> int option" where
  "as_long x = (if is_int x then Some x else None)"

definition timerisset :: "timeval \<Rightarrow> bool" where
  "timerisset tvp \<longleftrightarrow> tv_sec tvp \<noteq> 0 \<or> tv_usec tvp \<noteq> 0"

definition timerclear :: "nat \<Rightarrow> tv_store \<Rightarrow> tv_store" where
  "timerclear tvp h = h(tvp := (h tvp)\<lparr>tv_sec := 0, tv_usec := 0\<rparr>)"

definition timercmp :: "timeval \<Rightarrow> timeval \<Rightarrow> (int \<Rightarrow> int \<Rightarrow> bool) \<Rightarrow> bool" where
  "timercmp a b CMP =
     (if tv_sec a = tv_sec b then CMP (tv_usec a) (tv_usec b) else CMP (tv_sec a) (tv_sec b))"

text \<open>\<open>a\<close>, \<open>b\<close> and \<open>result\<close> are addresses, which may be equal; each statement reads the store.\<close>

definition timeradd :: "nat \<Rightarrow> nat \<Rightarrow> nat \<Rightarrow> tv_store \<Rightarrow> tv_store option" where
  "timeradd a b result h = do {
     s \<leftarrow> as_long (tv_sec (h a) + tv_sec (h b));
     let h = h(result := (h result)\<lparr>tv_sec := s\<rparr>);
     u \<leftarrow> as_long (tv_usec (h a) + tv_usec (h b));
     let h = h(result := (h result)\<lparr>tv_usec := u\<rparr>);
     if tv_usec (h result) \<ge> 1000000 then do {
       s \<leftarrow> as_long (tv_sec (h result) + 1);
       let h = h(result := (h result)\<lparr>tv_sec := s\<rparr>);
       u \<leftarrow> as_long (tv_usec (h result) - 1000000);
       Some (h(result := (h result)\<lparr>tv_usec := u\<rparr>)) }
     else Some h }"

definition timersub :: "nat \<Rightarrow> nat \<Rightarrow> nat \<Rightarrow> tv_store \<Rightarrow> tv_store option" where
  "timersub a b result h = do {
     s \<leftarrow> as_long (tv_sec (h a) - tv_sec (h b));
     let h = h(result := (h result)\<lparr>tv_sec := s\<rparr>);
     u \<leftarrow> as_long (tv_usec (h a) - tv_usec (h b));
     let h = h(result := (h result)\<lparr>tv_usec := u\<rparr>);
     if tv_usec (h result) < 0 then do {
       s \<leftarrow> as_long (tv_sec (h result) - 1);
       let h = h(result := (h result)\<lparr>tv_sec := s\<rparr>);
       u \<leftarrow> as_long (tv_usec (h result) + 1000000);
       Some (h(result := (h result)\<lparr>tv_usec := u\<rparr>)) }
     else Some h }"

text \<open>The value in microseconds, and the normal form that the macros keep.\<close>

definition usecs :: "timeval \<Rightarrow> int" where
  "usecs t = 1000000 * tv_sec t + tv_usec t"

definition tv_normal :: "timeval \<Rightarrow> bool" where
  "tv_normal t \<longleftrightarrow> 0 \<le> tv_usec t \<and> tv_usec t < 1000000 \<and> is_int (tv_sec t)"

text \<open>The seconds before the carry have to be representable too.\<close>

lemma timeradd_value:
  assumes "tv_normal (h a)" "tv_normal (h b)"
    and "is_int (tv_sec (h a) + tv_sec (h b))" and "is_int (tv_sec (h a) + tv_sec (h b) + 1)"
  shows "\<exists>t. timeradd a b result h = Some (h(result := t)) \<and> tv_normal t \<and>
    usecs t = usecs (h a) + usecs (h b)"
proof -
  let ?s = "tv_sec (h a) + tv_sec (h b)" and ?u = "tv_usec (h a) + tv_usec (h b)"
  let ?t = "if 1000000 \<le> ?u then (h result)\<lparr>tv_sec := ?s + 1, tv_usec := ?u - 1000000\<rparr>
    else (h result)\<lparr>tv_sec := ?s, tv_usec := ?u\<rparr>"
  have "as_long ?s = Some ?s" "as_long (?s + 1) = Some (?s + 1)" "as_long ?u = Some ?u"
    "1000000 \<le> ?u \<Longrightarrow> as_long (?u - 1000000) = Some (?u - 1000000)"
    using assms by (simp_all add: as_long_def is_int_def tv_normal_def)
  then have "timeradd a b result h = Some (h(result := ?t))"
    by (cases "a = result"; cases "b = result") (simp_all add: timeradd_def Let_def)
  moreover have "tv_normal ?t" "usecs ?t = usecs (h a) + usecs (h b)"
    using assms by (auto simp: tv_normal_def usecs_def)
  ultimately show ?thesis
    by blast
qed

lemma timersub_value:
  assumes "tv_normal (h a)" "tv_normal (h b)"
    and "is_int (tv_sec (h a) - tv_sec (h b))" and "is_int (tv_sec (h a) - tv_sec (h b) - 1)"
  shows "\<exists>t. timersub a b result h = Some (h(result := t)) \<and> tv_normal t \<and>
    usecs t = usecs (h a) - usecs (h b)"
proof -
  let ?s = "tv_sec (h a) - tv_sec (h b)" and ?u = "tv_usec (h a) - tv_usec (h b)"
  let ?t = "if ?u < 0 then (h result)\<lparr>tv_sec := ?s - 1, tv_usec := ?u + 1000000\<rparr>
    else (h result)\<lparr>tv_sec := ?s, tv_usec := ?u\<rparr>"
  have "as_long ?s = Some ?s" "as_long (?s - 1) = Some (?s - 1)" "as_long ?u = Some ?u"
    "?u < 0 \<Longrightarrow> as_long (?u + 1000000) = Some (?u + 1000000)"
    using assms by (simp_all add: as_long_def is_int_def tv_normal_def)
  then have "timersub a b result h = Some (h(result := ?t))"
    by (cases "a = result"; cases "b = result") (simp_all add: timersub_def Let_def)
  moreover have "tv_normal ?t" "usecs ?t = usecs (h a) - usecs (h b)"
    using assms by (auto simp: tv_normal_def usecs_def)
  ultimately show ?thesis
    by blast
qed

text \<open>The comparison works for every order relation, \<open>\<le>\<close> and \<open>\<ge>\<close> included.\<close>

lemma timercmp_value:
  assumes "tv_normal a" "tv_normal b"
  shows "timercmp a b (<) \<longleftrightarrow> usecs a < usecs b" "timercmp a b (>) \<longleftrightarrow> usecs a > usecs b"
    "timercmp a b (\<le>) \<longleftrightarrow> usecs a \<le> usecs b" "timercmp a b (\<ge>) \<longleftrightarrow> usecs a \<ge> usecs b"
    "timercmp a b (=) \<longleftrightarrow> usecs a = usecs b" "timercmp a b (\<noteq>) \<longleftrightarrow> usecs a \<noteq> usecs b"
  using assms by (auto simp: timercmp_def tv_normal_def usecs_def)

section \<open>Sets of file descriptors\<close>

type_synonym fd_set = "u32 list"

abbreviation (input) FD_SETSIZE :: nat where "FD_SETSIZE \<equiv> 1024"
abbreviation (input) NFDBITS :: int where "NFDBITS \<equiv> 8 * 4"

text \<open>C division and remainder truncate towards zero; a shift by a negative amount is undefined.\<close>

definition FD_ELT :: "int \<Rightarrow> int" where
  "FD_ELT d = sgn d * (\<bar>d\<bar> div NFDBITS)"

definition FD_MASK :: "int \<Rightarrow> u32 option" where
  "FD_MASK d = (let r = sgn d * (\<bar>d\<bar> mod NFDBITS) in if r < 0 then None else Some (push_bit (nat r) 1))"

definition fds_elt :: "int \<Rightarrow> fd_set \<Rightarrow> u32 option" where
  "fds_elt i s = (if 0 \<le> i \<and> i < int (length s) then Some (s ! nat i) else None)"

function FD_ZERO_loop :: "nat \<Rightarrow> fd_set \<Rightarrow> fd_set" where
  "FD_ZERO_loop i s = (if i < FD_SETSIZE div 32 then FD_ZERO_loop (Suc i) (s[i := 0]) else s)"
  by pat_completeness auto

termination FD_ZERO_loop
  by (relation "measure (\<lambda>(i, s). 32 - i)") auto

declare FD_ZERO_loop.simps [simp del]

definition FD_ZERO :: "fd_set \<Rightarrow> fd_set" where
  "FD_ZERO s = FD_ZERO_loop 0 s"

definition FD_SET :: "int \<Rightarrow> fd_set \<Rightarrow> fd_set option" where
  "FD_SET d s = do {
     m \<leftarrow> FD_MASK d;
     e \<leftarrow> fds_elt (FD_ELT d) s;
     Some (s[nat (FD_ELT d) := e OR m]) }"

definition FD_CLR :: "int \<Rightarrow> fd_set \<Rightarrow> fd_set option" where
  "FD_CLR d s = do {
     m \<leftarrow> FD_MASK d;
     e \<leftarrow> fds_elt (FD_ELT d) s;
     Some (s[nat (FD_ELT d) := e AND NOT m]) }"

definition FD_ISSET :: "int \<Rightarrow> fd_set \<Rightarrow> bool option" where
  "FD_ISSET d s = do {
     m \<leftarrow> FD_MASK d;
     e \<leftarrow> fds_elt (FD_ELT d) s;
     Some (e AND m \<noteq> 0) }"

text \<open>
  The contract of a set of small integers, with the sequences of operations a client runs
  between clearing a set and asking for its members.
\<close>

datatype fd_op = Add_fd int | Del_fd int

primrec fd_op_set :: "int set \<Rightarrow> fd_op \<Rightarrow> int set" where
  "fd_op_set A (Add_fd d) = insert d A"
| "fd_op_set A (Del_fd d) = A - {d}"

primrec fd_of :: "fd_op \<Rightarrow> int" where
  "fd_of (Add_fd d) = d"
| "fd_of (Del_fd d) = d"

locale descriptor_set =
  fixes ok :: "'s \<Rightarrow> bool" and dom_fd :: "int \<Rightarrow> bool" and members :: "'s \<Rightarrow> int set"
    and zero :: "'s \<Rightarrow> 's" and add del :: "int \<Rightarrow> 's \<Rightarrow> 's option" and isset :: "int \<Rightarrow> 's \<Rightarrow> bool option"
  assumes zero: "ok s \<Longrightarrow> ok (zero s) \<and> members (zero s) = {}"
    and add: "ok s \<Longrightarrow> dom_fd d \<Longrightarrow> \<exists>s'. add d s = Some s' \<and> ok s' \<and> members s' = insert d (members s)"
    and del: "ok s \<Longrightarrow> dom_fd d \<Longrightarrow> \<exists>s'. del d s = Some s' \<and> ok s' \<and> members s' = members s - {d}"
    and isset: "ok s \<Longrightarrow> dom_fd d \<Longrightarrow> isset d s = Some (d \<in> members s)"
    and outside: "ok s \<Longrightarrow> \<not> dom_fd d \<Longrightarrow> add d s = None \<and> del d s = None \<and> isset d s = None"
begin

primrec step :: "fd_op \<Rightarrow> 's \<Rightarrow> 's option" where
  "step (Add_fd d) s = add d s"
| "step (Del_fd d) s = del d s"

primrec run :: "fd_op list \<Rightarrow> 's \<Rightarrow> 's option" where
  "run [] s = Some s"
| "run (x # xs) s = Option.bind (step x s) (run xs)"

lemma step_ok:
  assumes "ok s" "dom_fd (fd_of x)"
  obtains s' where "step x s = Some s'" "ok s'" "members s' = fd_op_set (members s) x"
  using assms add [of s "fd_of x"] del [of s "fd_of x"] by (cases x) auto

lemma run_ok:
  "ok s \<Longrightarrow> list_all (\<lambda>x. dom_fd (fd_of x)) xs \<Longrightarrow>
     \<exists>s'. run xs s = Some s' \<and> ok s' \<and> members s' = foldl fd_op_set (members s) xs"
proof (induction xs arbitrary: s)
  case (Cons x xs)
  then obtain s' where "step x s = Some s'" "ok s'" "members s' = fd_op_set (members s) x"
    using step_ok [of s x] by auto
  then show ?case
    using Cons.IH [of s'] Cons.prems by auto
qed simp

lemma zero_run_isset:
  "ok s \<Longrightarrow> list_all (\<lambda>x. dom_fd (fd_of x)) xs \<Longrightarrow> dom_fd d \<Longrightarrow>
     Option.bind (run xs (zero s)) (isset d) = Some (d \<in> foldl fd_op_set {} xs)"
  using run_ok [of "zero s" xs] zero [of s] isset by auto

end

definition fd_set_ok :: "fd_set \<Rightarrow> bool" where
  "fd_set_ok s \<longleftrightarrow> length s = FD_SETSIZE div 32"

definition fd_ok :: "int \<Rightarrow> bool" where
  "fd_ok d \<longleftrightarrow> 0 \<le> d \<and> d < int FD_SETSIZE"

definition fds :: "fd_set \<Rightarrow> int set" where
  "fds s = {d. fd_ok d \<and> bit (s ! (nat d div 32)) (nat d mod 32)}"

lemma FD_ZERO_loop_elts:
  "length (FD_ZERO_loop i s) = length s \<and>
   (\<forall>j < length s. FD_ZERO_loop i s ! j = (if i \<le> j \<and> j < 32 then 0 else s ! j))"
proof (induction i s rule: FD_ZERO_loop.induct)
  case (1 i s)
  show ?case
  proof (cases "i < 32")
    case True
    then show ?thesis
      using 1 by (subst (1 2) FD_ZERO_loop.simps) (auto simp: nth_list_update)
  qed (auto simp: FD_ZERO_loop.simps)
qed

lemma fd_access:
  assumes "fd_set_ok s" "fd_ok d"
  shows "FD_MASK d = Some (2 ^ (nat d mod 32))" "fds_elt (FD_ELT d) s = Some (s ! (nat d div 32))"
    "nat (FD_ELT d) = nat d div 32" "nat d div 32 < length s"
proof -
  have "0 \<le> d" "d < 1024"
    using assms(2) by (simp_all add: fd_ok_def)
  then show "nat d div 32 < length s"
    using assms(1) by (simp add: fd_set_ok_def)
  have e: "FD_ELT d = d div 32"
    using \<open>0 \<le> d\<close> by (cases "d = 0") (simp_all add: FD_ELT_def)
  show "FD_MASK d = Some (2 ^ (nat d mod 32))"
    using \<open>0 \<le> d\<close> by (cases "d = 0") (simp_all add: FD_MASK_def nat_mod_distrib Let_def)
  show "nat (FD_ELT d) = nat d div 32"
    using \<open>0 \<le> d\<close> by (simp add: e nat_div_distrib)
  then show "fds_elt (FD_ELT d) s = Some (s ! (nat d div 32))"
    using \<open>0 \<le> d\<close> \<open>nat d div 32 < length s\<close> by (auto simp: fds_elt_def e)
qed

lemma fd_outside:
  assumes "fd_set_ok s" "\<not> fd_ok d"
  shows "FD_MASK d = None \<or> fds_elt (FD_ELT d) s = None"
proof (cases "0 \<le> d")
  case True
  then have "int (length s) \<le> FD_ELT d"
    using assms by (cases "d = 0") (auto simp: fd_set_ok_def fd_ok_def FD_ELT_def)
  then show ?thesis
    by (simp add: fds_elt_def)
next
  case False
  then show ?thesis
    by (cases "- d mod 32 = 0") (auto simp: FD_MASK_def FD_ELT_def fds_elt_def Let_def
        pos_imp_zdiv_nonneg_iff zdiv_eq_0_iff less_le)
qed

lemma same_fd: "fd_ok d \<Longrightarrow> fd_ok d' \<Longrightarrow> nat d div 32 = nat d' div 32 \<Longrightarrow> nat d mod 32 = nat d' mod 32 \<Longrightarrow> d = d'"
  by (metis fd_ok_def div_mult_mod_eq eq_nat_nat_iff)

lemma fds_update:
  assumes "fd_set_ok s" "fd_ok d"
  shows "fds (s[nat d div 32 := s ! (nat d div 32) OR 2 ^ (nat d mod 32)]) = insert d (fds s)"
    and "fds (s[nat d div 32 := s ! (nat d div 32) AND NOT (2 ^ (nat d mod 32))]) = fds s - {d}"
  using fd_access(4) [OF assms] assms(2)
  by (auto simp: fds_def nth_list_update bit_simps dest: same_fd)

interpretation fds: descriptor_set fd_set_ok fd_ok fds FD_ZERO FD_SET FD_CLR FD_ISSET
proof unfold_locales
  fix s :: fd_set and d
  assume ok: "fd_set_ok s"
  then show "fd_set_ok (FD_ZERO s) \<and> fds (FD_ZERO s) = {}"
    using FD_ZERO_loop_elts [of 0 s] by (auto simp: FD_ZERO_def fd_set_ok_def fds_def fd_ok_def)
  show "FD_SET d s = None \<and> FD_CLR d s = None \<and> FD_ISSET d s = None" if "\<not> fd_ok d"
    using fd_outside [OF ok that] by (auto simp: FD_SET_def FD_CLR_def FD_ISSET_def bind_eq_None_conv)
  assume d: "fd_ok d"
  note access = fd_access [OF ok d]
  show "\<exists>s'. FD_SET d s = Some s' \<and> fd_set_ok s' \<and> fds s' = insert d (fds s)"
    using access ok by (simp add: FD_SET_def fds_update(1) [OF ok d] fd_set_ok_def)
  show "\<exists>s'. FD_CLR d s = Some s' \<and> fd_set_ok s' \<and> fds s' = fds s - {d}"
    using access ok by (simp add: FD_CLR_def fds_update(2) [OF ok d] fd_set_ok_def)
  have "(x AND 2 ^ k \<noteq> 0) = bit x k" if "k < 32" for x :: u32 and k
    using that by (simp add: and_exp_eq_0_iff_not_bit)
  then show "FD_ISSET d s = Some (d \<in> fds s)"
    using access d by (simp add: FD_ISSET_def fds_def)
qed

section \<open>The status of a child process\<close>

definition WEXITSTATUS :: "u32 \<Rightarrow> u32" where
  "WEXITSTATUS status = drop_bit 8 (status AND 0xff00)"

definition WTERMSIG :: "u32 \<Rightarrow> u32" where
  "WTERMSIG status = status AND 0x7f"

definition WSTOPSIG :: "u32 \<Rightarrow> u32" where
  "WSTOPSIG status = WEXITSTATUS status"

definition WIFEXITED :: "u32 \<Rightarrow> bool" where
  "WIFEXITED status \<longleftrightarrow> WTERMSIG status = 0"

text \<open>The right shift of a negative number is the arithmetic one.\<close>

definition WIFSIGNALED :: "u32 \<Rightarrow> bool" where
  "WIFSIGNALED status \<longleftrightarrow> sint (to_u8 ((status AND 0x7f) + 1)) div 2 > 0"

definition WIFSTOPPED :: "u32 \<Rightarrow> bool" where
  "WIFSTOPPED status \<longleftrightarrow> status AND 0xff = 0x7f"

definition WIFCONTINUED :: "u32 \<Rightarrow> bool" where
  "WIFCONTINUED status \<longleftrightarrow> status = 0xffff"

definition WCOREDUMP :: "u32 \<Rightarrow> u32" where
  "WCOREDUMP status = status AND 0x80"

definition W_EXITCODE :: "u32 \<Rightarrow> u32 \<Rightarrow> u32" where
  "W_EXITCODE ret sig = push_bit 8 ret OR sig"

definition W_STOPCODE :: "u32 \<Rightarrow> u32" where
  "W_STOPCODE sig = push_bit 8 sig OR 0x7f"

lemma WTERMSIG_less: "WTERMSIG status < 128"
proof -
  have "status AND 0x7f = take_bit 7 status"
    by (simp add: take_bit_eq_mask mask_eq_exp_minus_1)
  then show ?thesis
    using take_bit_nat_less_exp [of 7 "unat status"]
    by (simp add: WTERMSIG_def word_less_nat_alt unsigned_take_bit_eq)
qed

text \<open>The signed-character trick: the status tells of a signal when it is neither 0 nor 0x7f.\<close>

lemma WIFSIGNALED_termsig: "WIFSIGNALED status \<longleftrightarrow> WTERMSIG status \<noteq> 0 \<and> WTERMSIG status \<noteq> 0x7f"
proof -
  define n where "n = unat (WTERMSIG status)"
  have n: "n < 128" "WTERMSIG status = of_nat n"
    using WTERMSIG_less [of status] by (simp_all add: n_def word_less_nat_alt)
  have "WTERMSIG status + 1 = of_nat (n + 1)"
    by (simp add: n(2))
  then have "unat (WTERMSIG status + 1) = n + 1"
    using n(1) by (simp only: unat_of_nat) simp
  then have "to_u8 (WTERMSIG status + 1) = word_of_int (int n + 1)"
    using of_nat_unat [of "WTERMSIG status + 1", where 'a = u8] by (simp add: add.commute)
  then have "sint (to_u8 (WTERMSIG status + 1)) = signed_take_bit 7 (int n + 1)"
    by (simp only: sint_sbintrunc') simp
  also have "\<dots> = (if n = 127 then - 128 else int n + 1)"
    using n(1) by (auto intro!: signed_take_bit_int_eq_self)
  finally have "WIFSIGNALED status \<longleftrightarrow> n \<noteq> 127 \<and> 0 < (int n + 1) div 2"
    unfolding WIFSIGNALED_def WTERMSIG_def [symmetric] by simp
  also have "\<dots> \<longleftrightarrow> n \<noteq> 0 \<and> n \<noteq> 127"
    by (cases n) auto
  finally show ?thesis
    by (simp add: n_def word_unat_eq_iff)
qed

text \<open>Exactly one of the three kinds of status, and the round trips of the constructors.\<close>

lemma status_kinds:
  "length (List.filter id [WIFEXITED st, WIFSIGNALED st, WIFSTOPPED st \<or> st AND 0xff = 0xff]) = 1"
proof -
  have "(WTERMSIG st = 0x7f) \<longleftrightarrow> WIFSTOPPED st \<or> st AND 0xff = 0xff"
    by (auto simp: WTERMSIG_def WIFSTOPPED_def bits32)
  then show ?thesis
    by (auto simp: WIFEXITED_def WIFSIGNALED_termsig)
qed

lemma status_roundtrip:
  assumes "ret < 256" "sig < 128"
  shows "WEXITSTATUS (W_EXITCODE ret sig) = ret" "WTERMSIG (W_EXITCODE ret sig) = sig"
    "WIFEXITED (W_EXITCODE ret sig) \<longleftrightarrow> sig = 0" "WIFSTOPPED (W_STOPCODE sig)" "WSTOPSIG (W_STOPCODE sig) = sig"
proof -
  have *: "take_bit 8 ret = ret" "take_bit 7 sig = sig"
    using assms by (simp_all add: word_less_nat_alt word_unat_eq_iff unsigned_take_bit_eq take_bit_nat_eq_self_iff)
  have "WEXITSTATUS (W_EXITCODE (take_bit 8 ret) (take_bit 7 sig)) = take_bit 8 ret"
    "WTERMSIG (W_EXITCODE (take_bit 8 ret) (take_bit 7 sig)) = take_bit 7 sig"
    "WIFSTOPPED (W_STOPCODE (take_bit 7 sig))" "WSTOPSIG (W_STOPCODE (take_bit 7 sig)) = take_bit 7 sig"
    by (simp_all add: WEXITSTATUS_def WTERMSIG_def W_EXITCODE_def WSTOPSIG_def W_STOPCODE_def
        WIFSTOPPED_def bits32)
  then show "WEXITSTATUS (W_EXITCODE ret sig) = ret" "WTERMSIG (W_EXITCODE ret sig) = sig"
    "WIFSTOPPED (W_STOPCODE sig)" "WSTOPSIG (W_STOPCODE sig) = sig"
    by (simp_all only: *)
  then show "WIFEXITED (W_EXITCODE ret sig) \<longleftrightarrow> sig = 0"
    by (simp add: WIFEXITED_def)
qed

section \<open>Properties\<close>

text \<open>
  C32. \<open>FD_ZERO\<close>, \<open>FD_SET\<close>, \<open>FD_CLR\<close> and
  \<open>FD_ISSET\<close> implement sets of the descriptors 0 to 1023: after
  \<open>FD_ZERO\<close> and any sequence of \<open>FD_SET\<close> and \<open>FD_CLR\<close> on
  such descriptors, \<open>FD_ISSET\<close> of a descriptor tells whether it is in the set the
  sequence describes.
\<close>

theorem fd_set_refines_sets:
  assumes "fd_set_ok s" and "list_all (\<lambda>x. fd_ok (fd_of x)) ops" and "fd_ok d"
  shows "Option.bind (fds.run ops (FD_ZERO s)) (FD_ISSET d) = Some (d \<in> foldl fd_op_set {} ops)"
  by (rule fds.zero_run_isset [OF assms])

theorem fd_set_refines_sets_witness:
  "Option.bind (fds.run [Add_fd 33, Add_fd 1, Del_fd 1] (FD_ZERO (replicate 32 7))) (FD_ISSET 33) = Some True"
  using fd_set_refines_sets [of "replicate 32 7" "[Add_fd 33, Add_fd 1, Del_fd 1]" 33]
  by (simp add: fd_set_ok_def fd_ok_def)

text \<open>
  C33. timercmp orders normal time values by their microseconds for each of the six comparison
  operators, >= and <= included, although the comment above the macro says that it does not work
  for these two. timeradd (timersub) of normal time values, whichever of the three arguments are
  the same variable, gives a normal value whose microseconds are the sum (difference), when the
  sum (difference) of the seconds, and that with the carry (borrow) of one, are in the range of
  long.
\<close>

theorem timeval_arithmetic:
  assumes "tv_normal (h a)" and "tv_normal (h b)"
  shows "timercmp (h a) (h b) (<) = (usecs (h a) < usecs (h b)) \<and> timercmp (h a) (h b) (\<le>) = (usecs (h a) \<le> usecs (h b)) \<and>
    timercmp (h a) (h b) (>) = (usecs (h a) > usecs (h b)) \<and> timercmp (h a) (h b) (\<ge>) = (usecs (h a) \<ge> usecs (h b)) \<and>
    timercmp (h a) (h b) (=) = (usecs (h a) = usecs (h b)) \<and> timercmp (h a) (h b) (\<noteq>) = (usecs (h a) \<noteq> usecs (h b)) \<and>
    (is_int (tv_sec (h a) + tv_sec (h b)) \<and> is_int (tv_sec (h a) + tv_sec (h b) + 1) \<longrightarrow>
      (\<exists>t. timeradd a b result h = Some (h(result := t)) \<and> tv_normal t \<and> usecs t = usecs (h a) + usecs (h b))) \<and>
    (is_int (tv_sec (h a) - tv_sec (h b)) \<and> is_int (tv_sec (h a) - tv_sec (h b) - 1) \<longrightarrow>
      (\<exists>t. timersub a b result h = Some (h(result := t)) \<and> tv_normal t \<and> usecs t = usecs (h a) - usecs (h b)))"
  using timeradd_value [OF assms] timersub_value [OF assms] by (simp add: timercmp_value [OF assms])

theorem timeval_arithmetic_witness:
  "(\<exists>t. timeradd 0 1 0 (\<lambda>_. \<lparr>tv_sec = 3, tv_usec = 700000\<rparr>) = Some ((\<lambda>_. \<lparr>tv_sec = 3, tv_usec = 700000\<rparr>)(0 := t)) \<and>
     tv_normal t \<and> usecs t = 7400000) \<and>
   timercmp \<lparr>tv_sec = 3, tv_usec = 700000\<rparr> \<lparr>tv_sec = 3, tv_usec = 700000\<rparr> (\<le>)"
proof -
  have "tv_normal \<lparr>tv_sec = 3, tv_usec = 700000\<rparr>"
    by (simp add: tv_normal_def is_int_def)
  then show ?thesis
    using timeval_arithmetic [of "\<lambda>_. \<lparr>tv_sec = 3, tv_usec = 700000\<rparr>" 0 1 0]
    by (simp add: is_int_def usecs_def)
qed

end
