(* ===== verification/Stdlib_Search.thy ===== *)
theory Stdlib_Search
  imports Prelude
begin

text \<open>
  \<open>bsearch\<close> of \<^verbatim>\<open>bits/stdlib-bsearch.h\<close>, the binary search that a C program compiles in.

  The indices are \<open>size_t\<close>, 32-bit words whose sum wraps around, and the element pointer is
  computed from the base address. The comparison function of the caller is a parameter: it
  gets an address (the key is the caller's) and returns an \<open>int\<close>, or \<open>None\<close> when the address is
  not one of an object it may read. A search that does not end, or that compares the key
  with such an address, is \<open>None\<close>; a null result is \<open>Some None\<close>.
\<close>

partial_function (option) bsearch_loop ::
  "u32 \<Rightarrow> u32 \<Rightarrow> (u32 \<Rightarrow> int option) \<Rightarrow> u32 \<Rightarrow> u32 \<Rightarrow> u32 option option" where
  "bsearch_loop base sz compar l u =
     (if l < u then
        let idx = (l + u) div 2;
            p = base + idx * sz
        in Option.bind (compar p) (\<lambda>comparison.
             if comparison < 0 then bsearch_loop base sz compar l idx
             else if comparison > 0 then bsearch_loop base sz compar (idx + 1) u
             else Some (Some p))
      else Some None)"

declare bsearch_loop.simps [code]

definition bsearch :: "u32 \<Rightarrow> u32 \<Rightarrow> u32 \<Rightarrow> (u32 \<Rightarrow> int option) \<Rightarrow> u32 option option" where
  "bsearch base nmemb sz compar = bsearch_loop base sz compar 0 nmemb"

section \<open>Correctness\<close>

text \<open>
  The address of an element, and what the caller provides: a comparison that is defined on
  the elements, with the results \<open>c\<close>, and elements in its order.
\<close>

definition elt :: "u32 \<Rightarrow> u32 \<Rightarrow> nat \<Rightarrow> u32" where
  "elt base sz i = base + of_nat i * sz"

definition compares :: "u32 \<Rightarrow> u32 \<Rightarrow> nat \<Rightarrow> (u32 \<Rightarrow> int option) \<Rightarrow> (nat \<Rightarrow> int) \<Rightarrow> bool" where
  "compares base sz n compar c \<longleftrightarrow> (\<forall>i < n. compar (elt base sz i) = Some (c i)) \<and>
     (\<forall>j < n. \<forall>i < j. sgn (c j) \<le> sgn (c i))"

definition found_at :: "u32 \<Rightarrow> u32 \<Rightarrow> nat \<Rightarrow> nat \<Rightarrow> (nat \<Rightarrow> int) \<Rightarrow> u32 option \<Rightarrow> bool" where
  "found_at base sz l u c r \<longleftrightarrow>
     (case r of Some p \<Rightarrow> \<exists>i. l \<le> i \<and> i < u \<and> p = elt base sz i \<and> c i = 0
              | None \<Rightarrow> \<forall>i. l \<le> i \<and> i < u \<longrightarrow> c i \<noteq> 0)"

lemma found_at_widen:
  assumes "found_at base sz l' u' c r" "l \<le> l'" "u' \<le> u"
    and "\<And>i. l \<le> i \<Longrightarrow> i < u \<Longrightarrow> i < l' \<or> u' \<le> i \<Longrightarrow> c i \<noteq> 0"
  shows "found_at base sz l u c r"
proof (cases r)
  case None
  then show ?thesis
    using assms(1,4) by (auto simp: found_at_def) (meson not_le)
next
  case (Some p)
  then obtain i where "l' \<le> i" "i < u'" "p = elt base sz i" "c i = 0"
    using assms(1) by (auto simp: found_at_def)
  moreover from this have "l \<le> i" "i < u"
    using assms(2,3) by auto
  ultimately show ?thesis
    using Some by (auto simp: found_at_def)
qed

text \<open>No sum of two indices wraps around while the array has at most \<open>2 ^ 31\<close> elements.\<close>

lemma midpoint:
  fixes l u :: u32
  assumes "l < u" and "unat u \<le> 2 ^ 31"
  shows "unat ((l + u) div 2) = (unat l + unat u) div 2"
    and "unat l \<le> (unat l + unat u) div 2" and "(unat l + unat u) div 2 < unat u"
    and "unat ((l + u) div 2 + 1) = (unat l + unat u) div 2 + 1"
proof -
  have l: "unat l < unat u"
    using assms(1) by (simp add: word_less_nat_alt)
  then have "unat (l + u) = unat l + unat u"
    using assms(2) by (subst unat_word_ariths) simp
  then show *: "unat ((l + u) div 2) = (unat l + unat u) div 2"
    by (simp add: unat_div)
  show "unat l \<le> (unat l + unat u) div 2" "(unat l + unat u) div 2 < unat u"
    using l by auto
  then show "unat ((l + u) div 2 + 1) = (unat l + unat u) div 2 + 1"
    using assms(2) by (subst unat_word_ariths) (simp add: *)
qed

lemma bsearch_loop_found:
  assumes "unat u \<le> n" "n \<le> 2 ^ 31" "compares base sz n compar c"
  shows "\<exists>r. bsearch_loop base sz compar l u = Some r \<and> found_at base sz (unat l) (unat u) c r"
  using assms(1)
proof (induction "unat u - unat l" arbitrary: l u rule: less_induct)
  case less
  show ?case
  proof (cases "l < u")
    case False
    then show ?thesis
      by (simp add: bsearch_loop.simps found_at_def word_less_nat_alt)
  next
    case True
    let ?m = "(unat l + unat u) div 2" and ?idx = "(l + u) div 2"
    have u: "unat u \<le> 2 ^ 31"
      using less.prems assms(2) by simp
    note m = midpoint [OF True u]
    have p: "base + ?idx * sz = elt base sz ?m"
      unfolding elt_def m(1) [symmetric] by simp
    have order: "sgn (c j) \<le> sgn (c i)" if "i < j" "j < unat u" for i j
      using that less.prems assms(3) by (simp add: compares_def)
    have c: "compar (elt base sz ?m) = Some (c ?m)"
      using m(3) less.prems assms(3) by (simp add: compares_def)
    consider "c ?m < 0" | "c ?m > 0" | "c ?m = 0"
      by linarith
    then show ?thesis
    proof cases
      case 1
      have "c i \<noteq> 0" if "?m \<le> i" "i < unat u" for i
        using order [of ?m i] that 1 by (cases "i = ?m") auto
      moreover obtain r where "bsearch_loop base sz compar l ?idx = Some r"
        "found_at base sz (unat l) ?m c r"
        using less.hyps [of ?idx l] diff_less_mono [OF m(3) m(2)] m less.prems by auto
      ultimately show ?thesis
        using True 1 m(2,3) by (subst bsearch_loop.simps)
          (auto simp: Let_def p c intro: found_at_widen)
    next
      case 2
      have "c i \<noteq> 0" if "i \<le> ?m" for i
        using order [of i ?m] m(3) that 2 by (cases "i = ?m") auto
      moreover obtain r where "bsearch_loop base sz compar (?idx + 1) u = Some r"
        "found_at base sz (?m + 1) (unat u) c r"
        using less.hyps [of u "?idx + 1"] diff_less_mono2 [of "unat l" "Suc ?m" "unat u"] m less.prems by auto
      ultimately show ?thesis
        using True 2 m(2) by (subst bsearch_loop.simps)
          (auto simp: Let_def p c intro: found_at_widen)
    next
      case 3
      then show ?thesis
        using True m by (subst bsearch_loop.simps) (auto simp: Let_def p c found_at_def)
    qed
  qed
qed

section \<open>Properties\<close>

text \<open>
  C31. bsearch on an array of at most 2^31 elements that is in the order of the comparison
  function ends and compares the key only with elements of the array (the comparison may be
  undefined for every other address); it returns the address of an element that compares equal
  when there is one and null otherwise.
\<close>

theorem bsearch_finds:
  assumes "unat nmemb \<le> 2 ^ 31"
    and "\<forall>i < unat nmemb. compar (elt base sz i) = Some (c i)"
    and "\<forall>j < unat nmemb. \<forall>i < j. sgn (c j) \<le> sgn (c i)"
  shows "\<exists>r. bsearch base nmemb sz compar = Some r \<and>
    (case r of Some p \<Rightarrow> \<exists>i < unat nmemb. p = elt base sz i \<and> c i = 0
     | None \<Rightarrow> \<forall>i < unat nmemb. c i \<noteq> 0)"
proof -
  obtain r where "bsearch base nmemb sz compar = Some r" "found_at base sz 0 (unat nmemb) c r"
    using bsearch_loop_found [of nmemb "unat nmemb" base sz compar c 0] assms
    by (auto simp: bsearch_def compares_def)
  then show ?thesis
    by (intro exI [of _ r]) (auto simp: found_at_def split: option.splits)
qed

theorem bsearch_finds_witness:
  "\<exists>r. bsearch 0x1000 3 4 [0x1000 \<mapsto> 5, 0x1004 \<mapsto> 0, 0x1008 \<mapsto> - 2] = Some r \<and> r \<noteq> None"
proof -
  let ?c = "\<lambda>i. [5, 0, - 2 :: int] ! i" and ?cmp = "[0x1000 \<mapsto> 5, 0x1004 \<mapsto> 0, 0x1008 \<mapsto> - 2 :: int]"
  have three: "unat (3 :: u32) = 3"
    by simp
  have all: "(\<forall>i < 3. P i) \<longleftrightarrow> P 0 \<and> P 1 \<and> P 2" for P :: "nat \<Rightarrow> bool"
    by (auto simp: less_Suc_eq numeral_3_eq_3 numeral_2_eq_2)
  have "\<forall>i < 3. ?cmp (elt 0x1000 4 i) = Some (?c i)" "\<forall>j < 3. \<forall>i < j. sgn (?c j) \<le> sgn (?c i)"
    by (simp add: all elt_def, auto simp: less_Suc_eq numeral_3_eq_3 numeral_2_eq_2)
  then obtain r where r: "bsearch 0x1000 3 4 ?cmp = Some r"
      "case r of Some p \<Rightarrow> \<exists>i < 3. p = elt 0x1000 4 i \<and> ?c i = 0 | None \<Rightarrow> \<forall>i < 3. ?c i \<noteq> 0"
    using bsearch_finds [of 3 ?cmp "0x1000" 4 ?c] unfolding three by auto
  then have "r \<noteq> None"
    by (cases r) (simp_all add: all)
  with r(1) show ?thesis
    by blast
qed

end
