(* ===== verification/Stl_Base.thy ===== *)
theory Stl_Base
  imports Main "HOL-Library.Multiset" "HOL-Library.Monad_Syntax"
begin

text \<open>
  Ranges of a random access container, for the algorithms of libstdc++
  (\<^verbatim>\<open>c++/8.2.0/bits\<close>).

  The container is a list and an iterator is an index into it, so that an iterator range is a
  pair of indices. Reading or writing outside of the container is \<open>None\<close>: a theorem that an
  algorithm returns \<open>Some\<close> also says that it stays inside. A move is a copy, as
  \<open>_GLIBCXX_MOVE\<close> is in C++98. The comparison object is a function on the elements.

  \<open>strict_weak_order\<close> is the contract of a comparison object; \<open>rearranged\<close> says what an
  algorithm on a range keeps: the elements outside of the range, and all elements with
  their numbers.
\<close>

section \<open>Accesses\<close>

definition aget :: "'a list \<Rightarrow> nat \<Rightarrow> 'a option" where
  "aget xs i = (if i < length xs then Some (xs ! i) else None)"

definition aset :: "nat \<Rightarrow> 'a \<Rightarrow> 'a list \<Rightarrow> 'a list option" where
  "aset i v xs = (if i < length xs then Some (xs[i := v]) else None)"

lemma aget_Some [simp]: "i < length xs \<Longrightarrow> aget xs i = Some (xs ! i)"
  by (simp add: aget_def)

lemma aset_Some [simp]: "i < length xs \<Longrightarrow> aset i v xs = Some (xs[i := v])"
  by (simp add: aset_def)

text \<open>\<open>std::swap\<close> on two elements, and \<open>iter_swap\<close>.\<close>

definition swap_elts :: "nat \<Rightarrow> nat \<Rightarrow> 'a list \<Rightarrow> 'a list option" where
  "swap_elts a b xs = do {
     tmp \<leftarrow> aget xs a;
     y \<leftarrow> aget xs b;
     xs \<leftarrow> aset a y xs;
     aset b tmp xs }"

definition iter_swap :: "nat \<Rightarrow> nat \<Rightarrow> 'a list \<Rightarrow> 'a list option" where
  "iter_swap a b xs = swap_elts a b xs"

section \<open>Ranges\<close>

definition slice :: "nat \<Rightarrow> nat \<Rightarrow> 'a list \<Rightarrow> 'a list" where
  "slice f l xs = take (l - f) (drop f xs)"

definition rearranged :: "nat \<Rightarrow> nat \<Rightarrow> 'a list \<Rightarrow> 'a list \<Rightarrow> bool" where
  "rearranged f l xs ys \<longleftrightarrow>
     take f ys = take f xs \<and> drop l ys = drop l xs \<and> mset ys = mset xs"

lemma rearranged_refl [simp, intro]: "rearranged f l xs xs"
  by (simp add: rearranged_def)

lemma rearranged_trans [trans]: "rearranged f l xs ys \<Longrightarrow> rearranged f l ys zs \<Longrightarrow> rearranged f l xs zs"
  by (simp add: rearranged_def)

lemma rearranged_length: "rearranged f l xs ys \<Longrightarrow> length ys = length xs"
  by (auto simp: rearranged_def dest: mset_eq_length)

lemma rearranged_mono:
  assumes "rearranged f l xs ys" and "f' \<le> f" and "l \<le> l'"
  shows "rearranged f' l' xs ys"
proof -
  have "take f' ys = take f' xs"
    using assms by (metis rearranged_def min.absorb1 take_take)
  moreover have "drop l' ys = drop l' xs"
    using assms by (metis rearranged_def drop_drop le_add_diff_inverse2)
  ultimately show ?thesis
    using assms(1) by (simp add: rearranged_def)
qed

lemma rearranged_outside:
  assumes "rearranged f l xs ys" and "i < f \<or> l \<le> i" and "i < length xs"
  shows "ys ! i = xs ! i"
proof (cases "i < f")
  case True
  then show ?thesis
    using assms(1) by (metis nth_take rearranged_def)
next
  case False
  then have "drop l ys ! (i - l) = drop l xs ! (i - l)" "l \<le> i"
    using assms by (auto simp: rearranged_def)
  then show ?thesis
    using assms(3) rearranged_length [OF assms(1)] by simp
qed

lemma slice_split: "f \<le> l \<Longrightarrow> l \<le> length xs \<Longrightarrow> xs = take f xs @ slice f l xs @ drop l xs"
  by (simp add: slice_def) (metis append_take_drop_id drop_drop le_add_diff_inverse2)

lemma slice_length [simp]: "l \<le> length xs \<Longrightarrow> length (slice f l xs) = l - f"
  by (simp add: slice_def)

lemma slice_nth: "f + i < l \<Longrightarrow> l \<le> length xs \<Longrightarrow> slice f l xs ! i = xs ! (f + i)"
  by (simp add: slice_def)

lemma slice_set: "l \<le> length xs \<Longrightarrow> set (slice f l xs) = (\<lambda>i. xs ! i) ` {f..<l}"
proof -
  assume l: "l \<le> length xs"
  have "set (slice f l xs) = (\<lambda>i. xs ! (f + i)) ` {0..<l - f}"
    using l by (force simp: set_conv_nth slice_nth)
  also have "\<dots> = (\<lambda>i. xs ! i) ` ((+) f ` {0..<l - f})"
    by (simp only: image_image)
  also have "(+) f ` {0..<l - f} = {f..<l}"
    by (cases "f \<le> l") simp_all
  finally show ?thesis .
qed

lemma rearranged_slice:
  assumes "rearranged f l xs ys" and "f \<le> l" and "l \<le> length xs"
  shows "mset (slice f l ys) = mset (slice f l xs)"
proof -
  have "mset (take f ys) + mset (slice f l ys) + mset (drop l ys) = mset ys"
    using assms rearranged_length [OF assms(1)]
    by (metis mset_append slice_split union_assoc)
  also have "mset ys = mset (take f xs) + mset (slice f l xs) + mset (drop l xs)"
    using assms by (metis rearranged_def mset_append slice_split union_assoc)
  finally show ?thesis
    using assms(1) by (simp add: rearranged_def)
qed

text \<open>Every element of the range was in the range before.\<close>

lemma rearranged_from:
  assumes "rearranged f l xs ys" and "l \<le> length xs" and "f \<le> i" and "i < l"
  obtains j where "f \<le> j" and "j < l" and "ys ! i = xs ! j"
proof -
  have "set (slice f l ys) = set (slice f l xs)"
    using rearranged_slice [OF assms(1)] assms(2-) by (metis le_trans less_imp_le mset_eq_setD)
  then have "ys ! i \<in> (\<lambda>j. xs ! j) ` {f..<l}"
    using assms rearranged_length [OF assms(1)] by (auto simp: slice_set)
  then show thesis
    using that by auto
qed

lemma rearranged_swap:
  assumes "f \<le> i" "f \<le> j" "i < l" "j < l" "l \<le> length xs"
  shows "rearranged f l xs (xs[i := xs ! j, j := xs ! i])"
  using assms by (simp add: rearranged_def mset_swap)

lemma iter_swap_Some:
  "i < length xs \<Longrightarrow> j < length xs \<Longrightarrow> iter_swap i j xs = Some (xs[i := xs ! j, j := xs ! i])"
  by (simp add: iter_swap_def swap_elts_def)

text \<open>
  An algorithm that holds an element in a variable leaves a hole in the container:
  \<open>xs[h := v]\<close> is what the container stands for, and moving the hole keeps that.
\<close>

lemma move_hole:
  assumes "h < length xs" "p < length xs" "h \<noteq> p"
  shows "mset (xs[h := xs ! p, p := v]) = mset (xs[h := v])"
proof -
  have "mset ((xs[h := v])[h := xs[h := v] ! p, p := xs[h := v] ! h]) = mset (xs[h := v])"
    using assms by (intro mset_swap) simp_all
  then show ?thesis
    using assms by simp
qed

lemma rearranged_move_hole:
  assumes "f \<le> h" "f \<le> p" "h < l" "p < l" "l \<le> length xs" "h \<noteq> p"
  shows "rearranged f l (xs[h := v]) (xs[h := xs ! p, p := v])"
  using assms move_hole [of h xs p v] by (simp add: rearranged_def)

section \<open>Orders\<close>

locale strict_weak_order =
  fixes lt :: "'a \<Rightarrow> 'a \<Rightarrow> bool"
  assumes asym: "lt x y \<Longrightarrow> \<not> lt y x"
    and neg_trans: "\<not> lt x y \<Longrightarrow> \<not> lt y z \<Longrightarrow> \<not> lt x z"
begin

lemma irrefl [simp]: "\<not> lt x x"
  using asym by blast

lemma trans: "lt x y \<Longrightarrow> lt y z \<Longrightarrow> lt x z"
  using asym neg_trans by blast

lemma lt_le_trans: "lt x y \<Longrightarrow> \<not> lt z y \<Longrightarrow> lt x z"
  using neg_trans by blast

lemma le_lt_trans: "\<not> lt y x \<Longrightarrow> lt y z \<Longrightarrow> lt x z"
  using neg_trans by blast

end

text \<open>The default comparison of two iterators, \<open>operator<\<close> on a type with a linear order.\<close>

definition Iter_less_iter :: "'a::linorder list \<Rightarrow> nat \<Rightarrow> nat \<Rightarrow> bool option" where
  "Iter_less_iter xs a b = do { x \<leftarrow> aget xs a; y \<leftarrow> aget xs b; Some (x < y) }"

lemma less_strict_weak_order: "strict_weak_order ((<) :: 'a::linorder \<Rightarrow> 'a \<Rightarrow> bool)"
  by unfold_locales auto

interpretation less_order: strict_weak_order "(<) :: 'a::linorder \<Rightarrow> 'a \<Rightarrow> bool"
  by (rule less_strict_weak_order)

definition sorted_range :: "('a \<Rightarrow> 'a \<Rightarrow> bool) \<Rightarrow> nat \<Rightarrow> nat \<Rightarrow> 'a list \<Rightarrow> bool" where
  "sorted_range lt f l xs \<longleftrightarrow> (\<forall>j. j < l \<longrightarrow> (\<forall>i. f \<le> i \<and> i < j \<longrightarrow> \<not> lt (xs ! j) (xs ! i)))"

lemma sorted_range_sorted_wrt:
  "l \<le> length xs \<Longrightarrow> sorted_range lt f l xs \<longleftrightarrow> sorted_wrt (\<lambda>x y. \<not> lt y x) (slice f l xs)"
proof -
  assume l: "l \<le> length xs"
  have "sorted_wrt (\<lambda>x y. \<not> lt y x) (slice f l xs) \<longleftrightarrow>
      (\<forall>i j. i < j \<longrightarrow> f + j < l \<longrightarrow> \<not> lt (xs ! (f + j)) (xs ! (f + i)))"
    using l by (auto simp: sorted_wrt_iff_nth_less slice_nth less_diff_conv add.commute)
  also have "\<dots> \<longleftrightarrow> sorted_range lt f l xs"
  proof
    assume *: "\<forall>i j. i < j \<longrightarrow> f + j < l \<longrightarrow> \<not> lt (xs ! (f + j)) (xs ! (f + i))"
    have "\<not> lt (xs ! j) (xs ! i)" if "f \<le> i" "i < j" "j < l" for i j
      using * [rule_format, of "i - f" "j - f"] that by simp
    then show "sorted_range lt f l xs"
      by (simp add: sorted_range_def)
  qed (simp add: sorted_range_def)
  finally show ?thesis ..
qed

end
