(* ===== verification/Stl_Heap.thy ===== *)
theory Stl_Heap
  imports Stl_Base
begin

text \<open>
  The heap algorithms of \<^verbatim>\<open>c++/8.2.0/bits/stl_heap.h\<close>: \<open>push_heap\<close>, \<open>pop_heap\<close>, \<open>make_heap\<close>,
  \<open>sort_heap\<close> and \<open>is_heap_until\<close> with the functions they share.

  Distances are natural numbers. Where the source divides a negative distance, \<open>(0 - 1) / 2\<close>
  truncates to 0 as subtraction does here; \<open>(len - 2) / 2\<close> is written on integers because its
  result \<open>-1\<close> for an empty range matters.
\<close>

section \<open>The algorithms\<close>

function push_heap_at :: "('a \<Rightarrow> 'a \<Rightarrow> bool) \<Rightarrow> nat \<Rightarrow> nat \<Rightarrow> nat \<Rightarrow> 'a \<Rightarrow> 'a list \<Rightarrow> 'a list option" where
  "push_heap_at cmp first holeIndex topIndex value xs =
     (let parent = (holeIndex - 1) div 2 in
      if holeIndex > topIndex then do {
        p \<leftarrow> aget xs (first + parent);
        if cmp p value then do {
          xs \<leftarrow> aset (first + holeIndex) p xs;
          push_heap_at cmp first parent topIndex value xs }
        else aset (first + holeIndex) value xs }
      else aset (first + holeIndex) value xs)"
  by pat_completeness auto

termination push_heap_at
  by (relation "measure (\<lambda>(cmp, first, hole, top, v, xs). hole)") auto

declare push_heap_at.simps [simp del]

definition push_heap :: "('a \<Rightarrow> 'a \<Rightarrow> bool) \<Rightarrow> nat \<Rightarrow> nat \<Rightarrow> 'a list \<Rightarrow> 'a list option" where
  "push_heap cmp first lst xs = do {
     value \<leftarrow> aget xs (lst - 1);
     push_heap_at cmp first ((lst - first) - 1) 0 value xs }"

function adjust_heap_loop ::
  "('a \<Rightarrow> 'a \<Rightarrow> bool) \<Rightarrow> nat \<Rightarrow> nat \<Rightarrow> nat \<Rightarrow> nat \<Rightarrow> 'a list \<Rightarrow> ('a list \<times> nat \<times> nat) option" where
  "adjust_heap_loop cmp first holeIndex len secondChild xs =
     (if secondChild < (len - 1) div 2 then do {
        let secondChild' = 2 * (secondChild + 1);
        r \<leftarrow> aget xs (first + secondChild');
        l \<leftarrow> aget xs (first + (secondChild' - 1));
        let secondChild' = (if cmp r l then secondChild' - 1 else secondChild');
        c \<leftarrow> aget xs (first + secondChild');
        xs \<leftarrow> aset (first + holeIndex) c xs;
        adjust_heap_loop cmp first secondChild' len secondChild' xs }
      else Some (xs, holeIndex, secondChild))"
  by pat_completeness auto

termination adjust_heap_loop
  by (relation "measure (\<lambda>(cmp, first, hole, len, second, xs). len - second)") auto

declare adjust_heap_loop.simps [simp del]

definition adjust_heap :: "('a \<Rightarrow> 'a \<Rightarrow> bool) \<Rightarrow> nat \<Rightarrow> nat \<Rightarrow> nat \<Rightarrow> 'a \<Rightarrow> 'a list \<Rightarrow> 'a list option" where
  "adjust_heap cmp first holeIndex len value xs = do {
     let topIndex = holeIndex;
     (xs, holeIndex, secondChild) \<leftarrow> adjust_heap_loop cmp first holeIndex len holeIndex xs;
     if even len \<and> int secondChild = (int len - 2) div 2 then do {
       let secondChild = 2 * (secondChild + 1);
       c \<leftarrow> aget xs (first + (secondChild - 1));
       xs \<leftarrow> aset (first + holeIndex) c xs;
       push_heap_at cmp first (secondChild - 1) topIndex value xs }
     else push_heap_at cmp first holeIndex topIndex value xs }"

definition pop_heap_to :: "('a \<Rightarrow> 'a \<Rightarrow> bool) \<Rightarrow> nat \<Rightarrow> nat \<Rightarrow> nat \<Rightarrow> 'a list \<Rightarrow> 'a list option" where
  "pop_heap_to cmp first lst result xs = do {
     value \<leftarrow> aget xs result;
     root \<leftarrow> aget xs first;
     xs \<leftarrow> aset result root xs;
     adjust_heap cmp first 0 (lst - first) value xs }"

definition pop_heap :: "('a \<Rightarrow> 'a \<Rightarrow> bool) \<Rightarrow> nat \<Rightarrow> nat \<Rightarrow> 'a list \<Rightarrow> 'a list option" where
  "pop_heap cmp first lst xs =
     (if lst - first > 1 then pop_heap_to cmp first (lst - 1) (lst - 1) xs else Some xs)"

primrec make_heap_loop :: "('a \<Rightarrow> 'a \<Rightarrow> bool) \<Rightarrow> nat \<Rightarrow> nat \<Rightarrow> nat \<Rightarrow> 'a list \<Rightarrow> 'a list option" where
  "make_heap_loop cmp first len 0 xs = do {
     value \<leftarrow> aget xs (first + 0);
     adjust_heap cmp first 0 len value xs }"
| "make_heap_loop cmp first len (Suc parent) xs = do {
     value \<leftarrow> aget xs (first + Suc parent);
     xs \<leftarrow> adjust_heap cmp first (Suc parent) len value xs;
     make_heap_loop cmp first len parent xs }"

definition make_heap :: "('a \<Rightarrow> 'a \<Rightarrow> bool) \<Rightarrow> nat \<Rightarrow> nat \<Rightarrow> 'a list \<Rightarrow> 'a list option" where
  "make_heap cmp first lst xs =
     (if lst - first < 2 then Some xs
      else make_heap_loop cmp first (lst - first) ((lst - first - 2) div 2) xs)"

function sort_heap :: "('a \<Rightarrow> 'a \<Rightarrow> bool) \<Rightarrow> nat \<Rightarrow> nat \<Rightarrow> 'a list \<Rightarrow> 'a list option" where
  "sort_heap cmp first lst xs =
     (if lst - first > 1 then do {
        xs \<leftarrow> pop_heap_to cmp first (lst - 1) (lst - 1) xs;
        sort_heap cmp first (lst - 1) xs }
      else Some xs)"
  by pat_completeness auto

termination sort_heap
  by (relation "measure (\<lambda>(cmp, first, lst, xs). lst)") auto

declare sort_heap.simps [simp del]

function is_heap_until_loop :: "('a \<Rightarrow> 'a \<Rightarrow> bool) \<Rightarrow> nat \<Rightarrow> nat \<Rightarrow> nat \<Rightarrow> nat \<Rightarrow> 'a list \<Rightarrow> nat option" where
  "is_heap_until_loop cmp first n parent child xs =
     (if child < n then do {
        p \<leftarrow> aget xs (first + parent);
        c \<leftarrow> aget xs (first + child);
        if cmp p c then Some child
        else is_heap_until_loop cmp first n (if even child then parent + 1 else parent) (child + 1) xs }
      else Some n)"
  by pat_completeness auto

termination is_heap_until_loop
  by (relation "measure (\<lambda>(cmp, first, n, parent, child, xs). n - child)") auto

declare is_heap_until_loop.simps [simp del]

definition is_heap_until :: "('a \<Rightarrow> 'a \<Rightarrow> bool) \<Rightarrow> nat \<Rightarrow> nat \<Rightarrow> 'a list \<Rightarrow> nat option" where
  "is_heap_until cmp first lst xs = do {
     n \<leftarrow> is_heap_until_loop cmp first (lst - first) 0 1 xs;
     Some (first + n) }"

definition is_heap :: "('a \<Rightarrow> 'a \<Rightarrow> bool) \<Rightarrow> nat \<Rightarrow> nat \<Rightarrow> 'a list \<Rightarrow> bool option" where
  "is_heap cmp first lst xs = do {
     n \<leftarrow> is_heap_until_loop cmp first (lst - first) 0 1 xs;
     Some (n = lst - first) }"

section \<open>Heaps\<close>

text \<open>
  The elements of the range as a function of their distance. \<open>heap_from k\<close> is the heap
  property below all nodes from \<open>k\<close> on, \<open>hole_heap k h\<close> the same with the node \<open>h\<close> left out.
\<close>

definition par :: "nat \<Rightarrow> nat" where
  "par i = (i - 1) div 2"

lemma par_less: "0 < i \<Longrightarrow> par i < i"
  by (simp add: par_def)

lemma par_le: "par i \<le> i"
  by (simp add: par_def)

lemma par_child [simp]: "par (2 * h + 1) = h" "par (Suc (2 * h)) = h" "par (2 * h + 2) = h" "par (Suc (Suc (2 * h))) = h"
  by (simp_all add: par_def)

lemmas push_heap_at_unfold = push_heap_at.simps [unfolded Let_def, folded par_def]

lemma par_eq_iff: "0 < i \<Longrightarrow> par i = h \<longleftrightarrow> i = 2 * h + 1 \<or> i = 2 * h + 2"
  by (auto simp: par_def)

definition elts :: "nat \<Rightarrow> 'a list \<Rightarrow> nat \<Rightarrow> 'a" where
  "elts f xs i = xs ! (f + i)"

definition heap_from :: "('a \<Rightarrow> 'a \<Rightarrow> bool) \<Rightarrow> (nat \<Rightarrow> 'a) \<Rightarrow> nat \<Rightarrow> nat \<Rightarrow> bool" where
  "heap_from lt A n k \<longleftrightarrow> (\<forall>i<n. 0 < i \<and> k \<le> par i \<longrightarrow> \<not> lt (A (par i)) (A i))"

definition hole_heap :: "('a \<Rightarrow> 'a \<Rightarrow> bool) \<Rightarrow> (nat \<Rightarrow> 'a) \<Rightarrow> nat \<Rightarrow> nat \<Rightarrow> nat \<Rightarrow> bool" where
  "hole_heap lt A n k h \<longleftrightarrow>
     (\<forall>i<n. 0 < i \<and> k \<le> par i \<and> i \<noteq> h \<and> par i \<noteq> h \<longrightarrow> \<not> lt (A (par i)) (A i)) \<and>
     (\<forall>i<n. 0 < i \<and> par i = h \<and> k < h \<longrightarrow> \<not> lt (A (par h)) (A i))"

lemma heap_from_shorter: "heap_from lt A n k \<Longrightarrow> m \<le> n \<Longrightarrow> heap_from lt A m k"
  by (simp add: heap_from_def)

text \<open>\<open>t\<close> is on the path from \<open>i\<close> to the root.\<close>

function above :: "nat \<Rightarrow> nat \<Rightarrow> bool" where
  "above t i = (if i \<le> t then i = t else above t (par i))"
  by pat_completeness auto

termination above
  by (relation "measure snd") (auto simp: par_less)

declare above.simps [simp del]

lemma above_refl [simp]: "above t t"
  by (simp add: above.simps)

lemma above_le: "above t i \<Longrightarrow> t \<le> i"
  by (simp add: above.simps split: if_splits)

lemma above_parent: "above t i \<Longrightarrow> t < i \<Longrightarrow> above t (par i)"
  by (simp add: above.simps [of t i])

lemma above_child: "above t h \<Longrightarrow> par c = h \<Longrightarrow> h < c \<Longrightarrow> above t c"
  using above_le [of t h] by (simp add: above.simps [of t c])

lemma elts_update: "f + h < length xs \<Longrightarrow> elts f (xs[f + h := v]) = (elts f xs)(h := v)"
  by (auto simp: fun_eq_iff elts_def nth_list_update)

context strict_weak_order
begin

lemma heap_root_max: "heap_from lt A n 0 \<Longrightarrow> i < n \<Longrightarrow> \<not> lt (A 0) (A i)"
proof (induction i rule: less_induct)
  case (less i)
  show ?case
  proof (cases "i = 0")
    case False
    then have "par i < i"
      by (simp add: par_less)
    then have "\<not> lt (A 0) (A (par i))"
      using less by simp
    moreover have "\<not> lt (A (par i)) (A i)"
      using less.prems False by (simp add: heap_from_def)
    ultimately show ?thesis
      by (rule neg_trans)
  qed simp
qed

text \<open>Moving the hole up, as \<open>__push_heap\<close> does, when the value is larger than the parent.\<close>

lemma hole_up:
  assumes inv: "hole_heap lt A n k h" "\<And>i. i < n \<Longrightarrow> 0 < i \<Longrightarrow> par i = h \<Longrightarrow> \<not> lt v (A i)"
    and h: "k < h" "h < n" "above k h" and p: "par h = p" "lt (A p) v"
  shows "hole_heap lt (A(h := A p)) n k p"
    and "\<And>i. i < n \<Longrightarrow> 0 < i \<Longrightarrow> par i = p \<Longrightarrow> \<not> lt v ((A(h := A p)) i)"
proof -
  have p_less: "p < h" "p < n" "k \<le> p" "above k p"
    using h p par_less [of h] above_parent [OF h(3) h(1)] above_le by auto
  have ok: "\<not> lt (A (par i)) (A i)" if "i < n" "0 < i" "k \<le> par i" "i \<noteq> h" "par i \<noteq> h" for i
    using inv(1) that by (simp add: hole_heap_def)
  have down: "\<not> lt (A p) (A i)" if "i < n" "0 < i" "par i = h" for i
    using inv(1) that h(1) p(1) by (auto simp: hole_heap_def)
  have sibling: "\<not> lt (A p) (A i)" if "i < n" "0 < i" "par i = p" "i \<noteq> h" for i
    using ok [of i] that p_less by auto
  show "\<not> lt v ((A(h := A p)) i)" if "i < n" "0 < i" "par i = p" for i
    using sibling [OF that] asym [OF p(2)] trans [OF p(2), of "A i"] by (cases "i = h") auto
  have "\<not> lt ((A(h := A p)) (par i)) ((A(h := A p)) i)"
    if "i < n" "0 < i" "k \<le> par i" "i \<noteq> p" "par i \<noteq> p" for i
    using that ok [of i] down [of i] p(1) by (cases "i = h"; cases "par i = h") auto
  moreover have "\<not> lt ((A(h := A p)) (par p)) ((A(h := A p)) i)" if "i < n" "0 < i" "par i = p" "k < p" for i
  proof -
    have "par p \<noteq> h" "0 < p" "k \<le> par p"
      using that(4) p_less par_le [of p] above_le [OF above_parent [OF p_less(4) that(4)]] by auto
    moreover from this have "\<not> lt (A (par p)) (A p)"
      using ok [of p] p_less by simp
    ultimately show ?thesis
      using sibling [of i] that neg_trans by (cases "i = h") auto
  qed
  ultimately show "hole_heap lt (A(h := A p)) n k p"
    by (simp add: hole_heap_def)
qed

text \<open>Filling the hole where it belongs.\<close>

lemma hole_fill:
  assumes inv: "hole_heap lt A n k h" "\<And>i. i < n \<Longrightarrow> 0 < i \<Longrightarrow> par i = h \<Longrightarrow> \<not> lt v (A i)"
    and h: "k < h \<Longrightarrow> \<not> lt (A (par h)) v"
  shows "heap_from lt (A(h := v)) n k"
  unfolding heap_from_def
proof (intro allI impI)
  fix i assume i: "i < n" "0 < i \<and> k \<le> par i"
  then have "k < i" "par i \<noteq> i"
    using par_less [of i] by auto
  then show "\<not> lt ((A(h := v)) (par i)) ((A(h := v)) i)"
    using inv h i by (cases "i = h"; cases "par i = h") (auto simp: hole_heap_def)
qed

text \<open>Moving the hole down to the larger child, as \<open>__adjust_heap\<close> does.\<close>

lemma hole_down:
  assumes inv: "hole_heap lt A n k h" and h: "k \<le> h"
    and c: "0 < c" "c < n" "par c = h"
    and larger: "\<And>i. i < n \<Longrightarrow> 0 < i \<Longrightarrow> par i = h \<Longrightarrow> \<not> lt (A c) (A i)"
  shows "hole_heap lt (A(h := A c)) n k c"
proof -
  have "h < c"
    using par_less [OF c(1)] c(3) by simp
  have ok: "\<not> lt (A (par i)) (A i)" if "i < n" "0 < i" "k \<le> par i" "i \<noteq> h" "par i \<noteq> h" for i
    using inv that by (simp add: hole_heap_def)
  have "\<not> lt ((A(h := A c)) (par i)) ((A(h := A c)) i)" if "i < n" "0 < i" "k \<le> par i" "i \<noteq> c" "par i \<noteq> c" for i
  proof (cases "i = h")
    case True
    then have "k < h" "par h \<noteq> h"
      using that par_less [of i] by auto
    then show ?thesis
      using True inv c by (simp add: hole_heap_def)
  next
    case False
    then show ?thesis
      using that ok [of i] larger [of i] by (cases "par i = h") auto
  qed
  moreover have "\<not> lt ((A(h := A c)) (par c)) ((A(h := A c)) i)" if "i < n" "0 < i" "par i = c" for i
  proof -
    have "c < i"
      using par_less [of i] that by simp
    then have "i \<noteq> h" "\<not> lt (A c) (A i)"
      using that h \<open>h < c\<close> ok [of i] by auto
    then show ?thesis
      using c by simp
  qed
  ultimately show ?thesis
    by (simp add: hole_heap_def)
qed

section \<open>Correctness of the algorithms\<close>

lemma push_heap_at_correct:
  assumes "f + n \<le> length xs" "h < n" "above k h" "hole_heap lt (elts f xs) n k h"
    and "\<And>i. i < n \<Longrightarrow> 0 < i \<Longrightarrow> par i = h \<Longrightarrow> \<not> lt v (elts f xs i)"
  shows "\<exists>ys. push_heap_at lt f h k v xs = Some ys \<and> rearranged f (f + n) (xs[f + h := v]) ys \<and>
    heap_from lt (elts f ys) n k"
  using assms
proof (induction h arbitrary: xs rule: less_induct)
  case (less h)
  let ?A = "elts f xs" and ?p = "par h"
  have len: "f + h < length xs"
    using less.prems by simp
  have stop: "\<exists>ys. aset (f + h) v xs = Some ys \<and> rearranged f (f + n) (xs[f + h := v]) ys \<and>
      heap_from lt (elts f ys) n k" if "k < h \<Longrightarrow> \<not> lt (?A ?p) v"
  proof -
    have "heap_from lt (?A(h := v)) n k"
      by (rule hole_fill [OF less.prems(4,5) that])
    then show ?thesis
      using len by (simp add: elts_update)
  qed
  show ?case
  proof (cases "k < h")
    case False
    then show ?thesis
      using stop by (simp add: push_heap_at.simps [of lt f h])
  next
    case True
    then have p: "?p < h" "f + ?p < length xs" "f + h \<noteq> f + ?p"
      using par_less [of h] len by auto
    show ?thesis
    proof (cases "lt (?A ?p) v")
      case False
      then show ?thesis
        using stop p True by (subst push_heap_at_unfold) (simp add: elts_def)
    next
      case up: True
      let ?xs = "xs[f + h := xs ! (f + ?p)]"
      have A: "elts f ?xs = ?A(h := ?A ?p)"
        using len by (simp add: elts_update) (simp add: elts_def)
      note inv = hole_up [OF less.prems(4,5) True less.prems(2,3) refl up]
      have "f + n \<le> length ?xs" "?p < n"
        using less.prems(1,2) p(1) by simp_all
      then obtain ys where ys: "push_heap_at lt f ?p k v ?xs = Some ys"
        "rearranged f (f + n) (?xs[f + ?p := v]) ys" "heap_from lt (elts f ys) n k"
        using less.IH [OF p(1), of ?xs, unfolded A, OF _ _ above_parent [OF less.prems(3) True] inv] by blast
      have "rearranged f (f + n) (xs[f + h := v]) (?xs[f + ?p := v])"
        using less.prems(1,2) p by (intro rearranged_move_hole) auto
      then have "rearranged f (f + n) (xs[f + h := v]) ys"
        using ys(2) by (rule rearranged_trans)
      then show ?thesis
        using ys True up p len by (subst push_heap_at_unfold) (simp add: elts_def)
    qed
  qed
qed

lemma push_heap_correct:
  assumes "f < l" "l \<le> length xs" "heap_from lt (elts f xs) (l - f - 1) 0"
  shows "\<exists>ys. push_heap lt f l xs = Some ys \<and> rearranged f l xs ys \<and> heap_from lt (elts f ys) (l - f) 0"
proof -
  let ?h = "l - f - 1" and ?v = "xs ! (l - 1)"
  have above0: "above 0 i" for i
    by (induction i rule: less_induct) (subst above.simps, simp add: par_less)
  have no_child: "par i \<noteq> ?h" if "i < l - f" "0 < i" for i
    using par_less [of i] that by auto
  then have "hole_heap lt (elts f xs) (l - f) 0 ?h"
    using assms(3) by (auto simp: hole_heap_def heap_from_def)
  then have "\<exists>ys. push_heap_at lt f ?h 0 ?v xs = Some ys \<and> rearranged f (f + (l - f)) (xs[f + ?h := ?v]) ys \<and>
      heap_from lt (elts f ys) (l - f) 0"
    using assms(1,2) above0 no_child by (intro push_heap_at_correct) auto
  moreover have "f + ?h = l - 1"
    using assms(1) by simp
  ultimately show ?thesis
    using assms(1,2) by (simp add: push_heap_def)
qed

text \<open>The first phase of \<open>__adjust_heap\<close>: the hole goes down along the larger children.\<close>

lemma adjust_step:
  assumes "f + n \<le> length xs" "2 * h + 2 < n" "k \<le> h" "hole_heap lt (elts f xs) n k h"
  obtains c where "0 < c" "c < n" "par c = h" "hole_heap lt (elts f (xs[f + h := xs ! (f + c)])) n k c"
    "c = (if lt (xs ! (f + (2 * h + 2))) (xs ! (f + (2 * h + 1))) then 2 * h + 1 else 2 * h + 2)"
proof -
  let ?c = "if lt (xs ! (f + (2 * h + 2))) (xs ! (f + (2 * h + 1))) then 2 * h + 1 else 2 * h + 2"
  have c: "0 < ?c" "?c < n" "par ?c = h"
    using assms(2) by auto
  have "\<not> lt (elts f xs ?c) (elts f xs i)" if "i < n" "0 < i" "par i = h" for i
  proof -
    have "i = 2 * h + 1 \<or> i = 2 * h + 2"
      using that par_eq_iff by blast
    then show ?thesis
      unfolding elts_def using asym irrefl by (elim disjE) auto
  qed
  from hole_down [OF assms(4,3) c this]
  have "hole_heap lt (elts f (xs[f + h := xs ! (f + ?c)])) n k ?c"
    using assms(1,2) by (simp only: elts_update elts_def [of f xs ?c] order_less_le_trans)
  with c show thesis
    by (rule that) (rule refl)
qed

lemma adjust_heap_loop_correct:
  assumes "f + n \<le> length xs" "h < n" "above k h" "hole_heap lt (elts f xs) n k h"
  shows "\<exists>ys h'. adjust_heap_loop lt f h n h xs = Some (ys, h', h') \<and>
    rearranged f (f + n) (xs[f + h := v]) (ys[f + h' := v]) \<and> length ys = length xs \<and>
    h' < n \<and> above k h' \<and> hole_heap lt (elts f ys) n k h' \<and> (n - 1) div 2 \<le> h'"
  using assms
proof (induction "n - h" arbitrary: h xs rule: less_induct)
  case less
  show ?case
  proof (cases "h < (n - 1) div 2")
    case False
    then show ?thesis
      using less.prems by (simp add: adjust_heap_loop.simps)
  next
    case True
    then have h: "2 * h + 2 < n" "f + h < length xs"
      using less.prems(1) by auto
    obtain c where c: "0 < c" "c < n" "par c = h" "hole_heap lt (elts f (xs[f + h := xs ! (f + c)])) n k c"
      "c = (if lt (xs ! (f + (2 * h + 2))) (xs ! (f + (2 * h + 1))) then 2 * h + 1 else 2 * h + 2)"
      using adjust_step [OF less.prems(1) h(1) above_le [OF less.prems(3)] less.prems(4)] by blast
    let ?xs = "xs[f + h := xs ! (f + c)]"
    have "h < c"
      using par_less [OF c(1)] c(3) by simp
    then have "n - c < n - h" "above k c"
      using c less.prems(2) above_child [OF less.prems(3) c(3)] by auto
    then obtain ys h' where ys: "adjust_heap_loop lt f c n c ?xs = Some (ys, h', h')"
      "rearranged f (f + n) (?xs[f + c := v]) (ys[f + h' := v])" "length ys = length ?xs"
      "h' < n" "above k h'" "hole_heap lt (elts f ys) n k h'" "(n - 1) div 2 \<le> h'"
      using less.hyps [of c ?xs] less.prems(1) c by auto
    have "rearranged f (f + n) (xs[f + h := v]) (?xs[f + c := v])"
      using h c less.prems(1) \<open>h < c\<close> by (intro rearranged_move_hole) auto
    then have "rearranged f (f + n) (xs[f + h := v]) (ys[f + h' := v])"
      using ys(2) by (rule rearranged_trans)
    moreover have "adjust_heap_loop lt f h n h xs = adjust_heap_loop lt f c n c ?xs"
      using True h less.prems(1) c(2,5) by (subst adjust_heap_loop.simps) (simp add: Let_def)
    ultimately show ?thesis
      using ys by auto
  qed
qed

lemma heap_hole: "heap_from lt A n (Suc k) \<Longrightarrow> hole_heap lt A n k k"
  by (auto simp: heap_from_def hole_heap_def Suc_le_eq le_less)

lemma adjust_heap_correct:
  assumes "f + n \<le> length xs" "k < n" "heap_from lt (elts f xs) n (Suc k)"
  shows "\<exists>ys. adjust_heap lt f k n v xs = Some ys \<and> rearranged f (f + n) (xs[f + k := v]) ys \<and>
    heap_from lt (elts f ys) n k"
proof -
  obtain ys h where ys: "adjust_heap_loop lt f k n k xs = Some (ys, h, h)"
    "rearranged f (f + n) (xs[f + k := v]) (ys[f + h := v])" "length ys = length xs"
    "h < n" "above k h" "hole_heap lt (elts f ys) n k h" "(n - 1) div 2 \<le> h"
    using adjust_heap_loop_correct [OF assms(1,2) above_refl heap_hole [OF assms(3)], of v] by blast
  have push: "\<exists>zs. push_heap_at lt f c k v as = Some zs \<and> rearranged f (f + n) (xs[f + k := v]) zs \<and>
      heap_from lt (elts f zs) n k"
    if "length as = length xs" "c < n" "above k c" "hole_heap lt (elts f as) n k c" "n \<le> 2 * c + 1"
      "rearranged f (f + n) (xs[f + k := v]) (as[f + c := v])" for as c
  proof -
    note hyps = that
    have "\<not> lt v (elts f as i)" if "i < n" "0 < i" "par i = c" for i
      using that \<open>n \<le> 2 * c + 1\<close> par_eq_iff [of i c] by linarith
    moreover have "f + n \<le> length as"
      using assms(1) hyps(1) by simp
    ultimately obtain zs where "push_heap_at lt f c k v as = Some zs"
      "rearranged f (f + n) (as[f + c := v]) zs" "heap_from lt (elts f zs) n k"
      using push_heap_at_correct [OF _ hyps(2-4)] by blast
    then show ?thesis
      using rearranged_trans [OF hyps(6)] by blast
  qed
  show ?thesis
  proof (cases "even n \<and> int h = (int n - 2) div 2")
    case True
    then have n: "n = 2 * h + 2"
      by presburger
    let ?c = "2 * h + 1"
    let ?ys = "ys[f + h := ys ! (f + ?c)]"
    have "\<not> lt (elts f ys ?c) (elts f ys i)" if "i < n" "0 < i" "par i = h" for i
      using that n par_eq_iff [of i h] by auto
    then have "hole_heap lt (elts f ?ys) n k ?c"
      using hole_down [OF ys(6) above_le [OF ys(5)], of ?c] n ys(3,4) assms(1)
      by (simp add: elts_update) (simp add: elts_def)
    moreover have "rearranged f (f + n) (xs[f + k := v]) (?ys[f + ?c := v])"
      using n ys(3) assms(1) by (intro rearranged_trans [OF ys(2)] rearranged_move_hole) auto
    ultimately obtain zs where "push_heap_at lt f ?c k v ?ys = Some zs"
      "rearranged f (f + n) (xs[f + k := v]) zs" "heap_from lt (elts f zs) n k"
      using push [of ?ys ?c] ys(3) n above_child [OF ys(5), of ?c] by auto
    then show ?thesis
      using True ys(1,3) n assms(1) by (simp add: adjust_heap_def Let_def)
  next
    case False
    then have "n \<le> 2 * h + 1"
      using ys(4,7) by presburger
    then show ?thesis
      using False ys push [of ys h] by (auto simp: adjust_heap_def Let_def)
  qed
qed

lemma pop_heap_to_correct:
  assumes "f < l" "l \<le> r" "r < length xs" "heap_from lt (elts f xs) (l - f) 0"
  shows "\<exists>ys. pop_heap_to lt f l r xs = Some ys \<and> ys ! r = xs ! f \<and>
    rearranged f l (xs[r := xs ! f, f := xs ! r]) ys \<and> heap_from lt (elts f ys) (l - f) 0"
proof -
  let ?xs = "xs[r := xs ! f]"
  have same: "elts f ?xs i = elts f xs i" if "i < l - f" for i
    using that assms(2) by (auto simp: elts_def)
  have "\<not> lt (elts f ?xs (par i)) (elts f ?xs i)" if "i < l - f" "0 < i" for i
    using that assms(4) same [of i] same [of "par i"] par_less [of i] by (simp add: heap_from_def)
  then have "heap_from lt (elts f ?xs) (l - f) (Suc 0)"
    by (simp add: heap_from_def)
  then obtain ys where ys: "adjust_heap lt f 0 (l - f) (xs ! r) ?xs = Some ys"
    "rearranged f l (?xs[f := xs ! r]) ys" "heap_from lt (elts f ys) (l - f) 0"
    using adjust_heap_correct [of f "l - f" ?xs 0 "xs ! r"] assms by auto
  moreover have "ys ! r = xs ! f"
    using rearranged_outside [OF ys(2), of r] assms by simp
  ultimately show ?thesis
    using assms by (simp add: pop_heap_to_def)
qed

text \<open>In the range that includes the place of the result, the elements are rearranged.\<close>

lemma pop_heap_to_rearranged:
  assumes "f < l" "l \<le> r" "r < length xs" "rearranged f l (xs[r := xs ! f, f := xs ! r]) ys"
  shows "rearranged f (Suc r) xs ys"
proof -
  have "rearranged f (Suc r) xs (xs[r := xs ! f, f := xs ! r])"
    using assms by (intro rearranged_swap) auto
  also have "rearranged f (Suc r) (xs[r := xs ! f, f := xs ! r]) ys"
    using assms(2,4) by (auto intro: rearranged_mono)
  finally show ?thesis .
qed

lemma pop_heap_correct:
  assumes "f < l" "l \<le> length xs" "heap_from lt (elts f xs) (l - f) 0"
  shows "\<exists>ys. pop_heap lt f l xs = Some ys \<and> rearranged f l xs ys \<and> ys ! (l - 1) = xs ! f \<and>
    heap_from lt (elts f ys) (l - 1 - f) 0 \<and> (\<forall>i. f \<le> i \<and> i < l \<longrightarrow> \<not> lt (ys ! (l - 1)) (ys ! i))"
proof (cases "l - f > 1")
  case False
  then have "l = Suc f"
    using assms(1) by simp
  then show ?thesis
    by (auto simp: pop_heap_def heap_from_def) (metis irrefl le_antisym less_Suc_eq_le)
next
  case True
  have heap: "heap_from lt (elts f xs) (l - 1 - f) 0"
    using assms(3) by (simp add: heap_from_def)
  have b: "f < l - 1" "l - 1 < length xs" "Suc (l - 1) = l"
    using True assms(2) by linarith+
  obtain ys where ys: "pop_heap_to lt f (l - 1) (l - 1) xs = Some ys" "ys ! (l - 1) = xs ! f"
    "rearranged f (l - 1) (xs[l - 1 := xs ! f, f := xs ! (l - 1)]) ys" "heap_from lt (elts f ys) (l - 1 - f) 0"
    using pop_heap_to_correct [OF b(1) le_refl b(2) heap] by blast
  have arr: "rearranged f l xs ys"
    using pop_heap_to_rearranged [OF b(1) le_refl b(2) ys(3)] b(3) by simp
  have "\<not> lt (xs ! f) (ys ! i)" if i: "f \<le> i" "i < l" for i
  proof -
    obtain j where "f \<le> j" "j < l" "ys ! i = xs ! j"
      using rearranged_from [OF arr assms(2) i] .
    then show ?thesis
      using heap_root_max [OF assms(3), of "j - f"] by (simp add: elts_def)
  qed
  then show ?thesis
    using True ys arr by (simp add: pop_heap_def)
qed

lemma make_heap_loop_correct:
  assumes "f + n \<le> length xs" "k < n" "heap_from lt (elts f xs) n (Suc k)"
  shows "\<exists>ys. make_heap_loop lt f n k xs = Some ys \<and> rearranged f (f + n) xs ys \<and> heap_from lt (elts f ys) n 0"
  using assms
proof (induction k arbitrary: xs)
  case 0
  then show ?case
    using adjust_heap_correct [OF 0, of "xs ! f"] by auto
next
  case (Suc k)
  obtain ys where ys: "adjust_heap lt f (Suc k) n (xs ! (f + Suc k)) xs = Some ys"
    "rearranged f (f + n) xs ys" "heap_from lt (elts f ys) n (Suc k)"
    using adjust_heap_correct [OF Suc.prems, of "xs ! (f + Suc k)"] by auto
  then obtain zs where "make_heap_loop lt f n k ys = Some zs" "rearranged f (f + n) ys zs"
    "heap_from lt (elts f zs) n 0"
    using Suc.IH [of ys] Suc.prems rearranged_length [OF ys(2)] by auto
  then show ?case
    using ys Suc.prems rearranged_trans [OF ys(2)] by auto
qed

lemma make_heap_correct:
  assumes "f \<le> l" "l \<le> length xs"
  shows "\<exists>ys. make_heap lt f l xs = Some ys \<and> rearranged f l xs ys \<and> heap_from lt (elts f ys) (l - f) 0"
proof (cases "l - f < 2")
  case True
  then show ?thesis
    by (auto simp: make_heap_def heap_from_def)
next
  case False
  have "heap_from lt (elts f xs) (l - f) (Suc ((l - f - 2) div 2))"
    by (auto simp: heap_from_def par_def)
  then show ?thesis
    using make_heap_loop_correct [of f "l - f" xs "(l - f - 2) div 2"] False assms by (auto simp: make_heap_def)
qed

lemma sort_heap_correct:
  assumes "f \<le> l" "l \<le> length xs" "heap_from lt (elts f xs) (l - f) 0"
  shows "\<exists>ys. sort_heap lt f l xs = Some ys \<and> rearranged f l xs ys \<and> sorted_range lt f l ys"
  using assms
proof (induction l arbitrary: xs)
  case 0
  then show ?case
    by (simp add: sort_heap.simps sorted_range_def)
next
  case (Suc l)
  show ?case
  proof (cases "Suc l - f > 1")
    case False
    then show ?thesis
      using Suc.prems(1) by (auto simp: sort_heap.simps sorted_range_def)
  next
    case True
    then have fl: "f < Suc l" "f \<le> l"
      by linarith+
    obtain ys where ys: "pop_heap lt f (Suc l) xs = Some ys" "rearranged f (Suc l) xs ys"
      "heap_from lt (elts f ys) (l - f) 0" "\<And>i. f \<le> i \<Longrightarrow> i < Suc l \<Longrightarrow> \<not> lt (ys ! l) (ys ! i)"
      using pop_heap_correct [OF fl(1) Suc.prems(2,3)] by auto
    have pop: "pop_heap_to lt f l l xs = Some ys"
      using ys(1) True by (simp add: pop_heap_def)
    obtain zs where zs: "sort_heap lt f l ys = Some zs" "rearranged f l ys zs" "sorted_range lt f l zs"
      using Suc.IH [of ys] Suc.prems(2) fl(2) ys(3) rearranged_length [OF ys(2)] by auto
    have last: "zs ! l = ys ! l"
      using rearranged_outside [OF zs(2), of l] Suc.prems(2) rearranged_length [OF ys(2)] by simp
    have "\<not> lt (zs ! l) (zs ! i)" if i: "f \<le> i" "i < l" for i
      using rearranged_from [OF zs(2) _ i] ys(4) Suc.prems(2) rearranged_length [OF ys(2)] last
      by (metis Suc_leD less_SucI)
    then have "sorted_range lt f (Suc l) zs"
      using zs(3) by (auto simp: sorted_range_def less_Suc_eq)
    moreover have "rearranged f (Suc l) xs zs"
      using rearranged_trans [OF ys(2)] rearranged_mono [OF zs(2)] by simp
    ultimately show ?thesis
      using True pop zs(1) by (simp add: sort_heap.simps [of lt f "Suc l"])
  qed
qed

text \<open>\<open>is_heap_until\<close> finds the longest prefix that is a heap.\<close>

lemma is_heap_until_loop_correct:
  assumes "f + n \<le> length xs" "0 < c" "heap_from lt (elts f xs) c 0" "c \<le> max 1 n"
  shows "\<exists>m. is_heap_until_loop lt f n (par c) c xs = Some m \<and> m \<le> n \<and> heap_from lt (elts f xs) m 0 \<and>
    (m < n \<longrightarrow> \<not> heap_from lt (elts f xs) (Suc m) 0)"
  using assms(2-)
proof (induction "n - c" arbitrary: c rule: less_induct)
  case less
  show ?case
  proof (cases "c < n")
    case False
    then have "heap_from lt (elts f xs) n 0"
      using less.prems by (auto simp: heap_from_def)
    then show ?thesis
      using False by (simp add: is_heap_until_loop.simps)
  next
    case True
    have p: "par c < c" "(if even c then par c + 1 else par c) = par (c + 1)"
      using less.prems(1) unfolding par_def by presburger+
    let ?bad = "lt (elts f xs (par c)) (elts f xs c)"
    have Suc: "heap_from lt (elts f xs) (Suc c) 0 \<longleftrightarrow> \<not> ?bad"
      using less.prems(1,2) by (auto simp: heap_from_def less_Suc_eq)
    have step: "is_heap_until_loop lt f n (par c) c xs =
        (if ?bad then Some c else is_heap_until_loop lt f n (par (c + 1)) (c + 1) xs)"
      using True assms(1) p by (subst is_heap_until_loop.simps) (simp add: elts_def)
    show ?thesis
    proof (cases ?bad)
      case bad: True
      then show ?thesis
        using True less.prems(2) Suc by (auto simp: step)
    next
      case False
      then show ?thesis
        using less.hyps [of "c + 1"] True Suc by (simp add: step)
    qed
  qed
qed

end

section \<open>Further theorems\<close>

text \<open>
  \<open>make_heap\<close> and \<open>sort_heap\<close> together refine sorting: on any valid
  range \<open>make_heap\<close> ends inside of the container and leaves a heap of the same
  elements, and on any range that is a heap \<open>sort_heap\<close> ends inside of the
  container and leaves the range sorted with the same elements.
\<close>

theorem heap_sort:
  assumes "strict_weak_order lt" and "f \<le> l" and "l \<le> length xs"
  shows "(\<exists>hs. make_heap lt f l xs = Some hs \<and> rearranged f l xs hs \<and> heap_from lt (elts f hs) (l - f) 0) \<and>
    (heap_from lt (elts f xs) (l - f) 0 \<longrightarrow>
      (\<exists>ys. sort_heap lt f l xs = Some ys \<and> rearranged f l xs ys \<and> sorted_range lt f l ys))"
  using strict_weak_order.make_heap_correct [OF assms] strict_weak_order.sort_heap_correct [OF assms]
  by blast

text \<open>
  \<open>is_heap_until\<close> returns the end of the longest prefix of the range that is a
  heap, and \<open>is_heap\<close> says whether that is the whole range; neither reads outside
  of the range.
\<close>

theorem heap_prefix:
  assumes "strict_weak_order lt" and "f \<le> l" and "l \<le> length xs"
  shows "\<exists>m. is_heap_until lt f l xs = Some (f + m) \<and> m \<le> l - f \<and> heap_from lt (elts f xs) m 0 \<and>
    (m < l - f \<longrightarrow> \<not> heap_from lt (elts f xs) (Suc m) 0)"
    and "is_heap lt f l xs = Some (heap_from lt (elts f xs) (l - f) 0)"
proof -
  have par1: "par 1 = 0"
    by (simp add: par_def)
  obtain m where m: "is_heap_until_loop lt f (l - f) 0 1 xs = Some m" "m \<le> l - f" "heap_from lt (elts f xs) m 0"
    "m < l - f \<longrightarrow> \<not> heap_from lt (elts f xs) (Suc m) 0"
    using strict_weak_order.is_heap_until_loop_correct [OF assms(1), of f "l - f" xs 1] assms(2,3)
    unfolding par1 by (auto simp: heap_from_def)
  then show "\<exists>m. is_heap_until lt f l xs = Some (f + m) \<and> m \<le> l - f \<and> heap_from lt (elts f xs) m 0 \<and>
      (m < l - f \<longrightarrow> \<not> heap_from lt (elts f xs) (Suc m) 0)"
    by (auto simp: is_heap_until_def)
  have "m = l - f \<longleftrightarrow> heap_from lt (elts f xs) (l - f) 0"
    using m(2-4) heap_from_shorter [of lt "elts f xs" "l - f" 0 "Suc m"] by (cases "m = l - f") auto
  then show "is_heap lt f l xs = Some (heap_from lt (elts f xs) (l - f) 0)"
    using m(1) by (simp add: is_heap_def)
qed

section \<open>Properties\<close>

text \<open>
  C7. The heap property is kept by the heap operations: \<open>push_heap\<close> makes a heap of
  a heap and a new last element, \<open>pop_heap\<close> moves a largest element (the root) to
  the end and leaves a heap in front of it; both rearrange the range and nothing else.
\<close>

theorem heap_invariant:
  assumes "strict_weak_order lt" and "f < l" and "l \<le> length xs"
  shows "(heap_from lt (elts f xs) (l - f - 1) 0 \<longrightarrow>
      (\<exists>ys. push_heap lt f l xs = Some ys \<and> rearranged f l xs ys \<and> heap_from lt (elts f ys) (l - f) 0)) \<and>
    (heap_from lt (elts f xs) (l - f) 0 \<longrightarrow>
      (\<exists>ys. pop_heap lt f l xs = Some ys \<and> rearranged f l xs ys \<and> heap_from lt (elts f ys) (l - 1 - f) 0 \<and>
        ys ! (l - 1) = xs ! f \<and> (\<forall>i. f \<le> i \<and> i < l \<longrightarrow> \<not> lt (ys ! (l - 1)) (ys ! i))))"
  using strict_weak_order.push_heap_correct [OF assms] strict_weak_order.pop_heap_correct [OF assms] by blast

theorem heap_invariant_witness:
  "(\<exists>ys. push_heap (<) 0 3 [4, 1, 6 :: int] = Some ys \<and> heap_from (<) (elts 0 ys) 3 0) \<and>
   (\<exists>ys. pop_heap (<) 0 3 [6, 1, 4 :: int] = Some ys \<and> ys ! 2 = 6)"
proof -
  have "heap_from (<) (elts 0 [4, 1, 6 :: int]) (3 - 0 - 1) 0" "heap_from (<) (elts 0 [6, 1, 4 :: int]) (3 - 0) 0"
    by (auto simp: heap_from_def elts_def par_def less_Suc_eq numeral_3_eq_3)
  then show ?thesis
    using heap_invariant [OF less_strict_weak_order, of 0 3 "[4, 1, 6 :: int]"]
      heap_invariant [OF less_strict_weak_order, of 0 3 "[6, 1, 4 :: int]"] by auto
qed

end
