(* ===== verification/Stl_Sort.thy ===== *)
theory Stl_Sort
  imports Stl_Heap
begin

text \<open>
  \<open>std::sort\<close> and \<open>std::partial_sort\<close> of libstdc++ (\<^verbatim>\<open>c++/8.2.0/bits/stl_algo.h\<close>): introsort
  with a median-of-three pivot, heap sort at the depth limit, and a final insertion sort with
  unguarded inner loops.

  The unguarded loops have no bound in the source. Here they run on the container, and
  leaving it is \<open>None\<close>; a loop that does not end is \<open>None\<close> too. The theorems say that the
  algorithms return a container, for every strict weak order and every valid range.
\<close>

section \<open>The algorithms\<close>

definition icmp :: "('a \<Rightarrow> 'a \<Rightarrow> bool) \<Rightarrow> 'a list \<Rightarrow> nat \<Rightarrow> nat \<Rightarrow> bool option" where
  "icmp cmp xs a b = do { x \<leftarrow> aget xs a; y \<leftarrow> aget xs b; Some (cmp x y) }"

definition move_median_to_first ::
  "('a \<Rightarrow> 'a \<Rightarrow> bool) \<Rightarrow> nat \<Rightarrow> nat \<Rightarrow> nat \<Rightarrow> nat \<Rightarrow> 'a list \<Rightarrow> 'a list option" where
  "move_median_to_first cmp result a b c xs = do {
     ab \<leftarrow> icmp cmp xs a b;
     if ab then do {
       bc \<leftarrow> icmp cmp xs b c;
       if bc then iter_swap result b xs
       else do {
         ac \<leftarrow> icmp cmp xs a c;
         if ac then iter_swap result c xs else iter_swap result a xs } }
     else do {
       ac \<leftarrow> icmp cmp xs a c;
       if ac then iter_swap result a xs
       else do {
         bc \<leftarrow> icmp cmp xs b c;
         if bc then iter_swap result c xs else iter_swap result b xs } } }"

subsection \<open>Heap selection\<close>

function heap_select_loop :: "('a \<Rightarrow> 'a \<Rightarrow> bool) \<Rightarrow> nat \<Rightarrow> nat \<Rightarrow> nat \<Rightarrow> nat \<Rightarrow> 'a list \<Rightarrow> 'a list option" where
  "heap_select_loop cmp first middle lst i xs =
     (if i < lst then do {
        b \<leftarrow> icmp cmp xs i first;
        xs \<leftarrow> (if b then pop_heap_to cmp first middle i xs else Some xs);
        heap_select_loop cmp first middle lst (i + 1) xs }
      else Some xs)"
  by pat_completeness auto

termination heap_select_loop
  by (relation "measure (\<lambda>(cmp, first, middle, lst, i, xs). lst - i)") auto

declare heap_select_loop.simps [simp del]

definition heap_select :: "('a \<Rightarrow> 'a \<Rightarrow> bool) \<Rightarrow> nat \<Rightarrow> nat \<Rightarrow> nat \<Rightarrow> 'a list \<Rightarrow> 'a list option" where
  "heap_select cmp first middle lst xs = do {
     xs \<leftarrow> make_heap cmp first middle xs;
     heap_select_loop cmp first middle lst middle xs }"

definition partial_sort :: "('a \<Rightarrow> 'a \<Rightarrow> bool) \<Rightarrow> nat \<Rightarrow> nat \<Rightarrow> nat \<Rightarrow> 'a list \<Rightarrow> 'a list option" where
  "partial_sort cmp first middle lst xs = do {
     xs \<leftarrow> heap_select cmp first middle lst xs;
     sort_heap cmp first middle xs }"

subsection \<open>Insertion sort\<close>

primrec unguarded_linear_insert_loop :: "('a \<Rightarrow> 'a \<Rightarrow> bool) \<Rightarrow> 'a \<Rightarrow> nat \<Rightarrow> 'a list \<Rightarrow> 'a list option" where
  "unguarded_linear_insert_loop cmp val 0 xs = None"
| "unguarded_linear_insert_loop cmp val (Suc nxt) xs = do {
     y \<leftarrow> aget xs nxt;
     if cmp val y then do {
       xs \<leftarrow> aset (Suc nxt) y xs;
       unguarded_linear_insert_loop cmp val nxt xs }
     else aset (Suc nxt) val xs }"

definition unguarded_linear_insert :: "('a \<Rightarrow> 'a \<Rightarrow> bool) \<Rightarrow> nat \<Rightarrow> 'a list \<Rightarrow> 'a list option" where
  "unguarded_linear_insert cmp lst xs = do {
     val \<leftarrow> aget xs lst;
     unguarded_linear_insert_loop cmp val lst xs }"

primrec move_backward_loop :: "nat \<Rightarrow> nat \<Rightarrow> nat \<Rightarrow> 'a list \<Rightarrow> ('a list \<times> nat) option" where
  "move_backward_loop 0 lst result xs = Some (xs, result)"
| "move_backward_loop (Suc n) lst result xs =
     (if lst = 0 \<or> result = 0 then None
      else do {
        v \<leftarrow> aget xs (lst - 1);
        xs \<leftarrow> aset (result - 1) v xs;
        move_backward_loop n (lst - 1) (result - 1) xs })"

definition move_backward :: "nat \<Rightarrow> nat \<Rightarrow> nat \<Rightarrow> 'a list \<Rightarrow> ('a list \<times> nat) option" where
  "move_backward first lst result xs = move_backward_loop (lst - first) lst result xs"

partial_function (option) insertion_sort_loop ::
  "('a \<Rightarrow> 'a \<Rightarrow> bool) \<Rightarrow> nat \<Rightarrow> nat \<Rightarrow> nat \<Rightarrow> 'a list \<Rightarrow> 'a list option" where
  "insertion_sort_loop cmp first lst i xs =
     (if i \<noteq> lst then
        Option.bind (icmp cmp xs i first) (\<lambda>b.
        Option.bind
          (if b then do {
             val \<leftarrow> aget xs i;
             (xs, r) \<leftarrow> move_backward first i (i + 1) xs;
             aset first val xs }
           else unguarded_linear_insert cmp i xs)
          (\<lambda>xs. insertion_sort_loop cmp first lst (i + 1) xs))
      else Some xs)"

definition insertion_sort :: "('a \<Rightarrow> 'a \<Rightarrow> bool) \<Rightarrow> nat \<Rightarrow> nat \<Rightarrow> 'a list \<Rightarrow> 'a list option" where
  "insertion_sort cmp first lst xs =
     (if first = lst then Some xs else insertion_sort_loop cmp first lst (first + 1) xs)"

partial_function (option) unguarded_insertion_sort ::
  "('a \<Rightarrow> 'a \<Rightarrow> bool) \<Rightarrow> nat \<Rightarrow> nat \<Rightarrow> 'a list \<Rightarrow> 'a list option" where
  "unguarded_insertion_sort cmp i lst xs =
     (if i \<noteq> lst then
        Option.bind (unguarded_linear_insert cmp i xs) (\<lambda>xs. unguarded_insertion_sort cmp (i + 1) lst xs)
      else Some xs)"

abbreviation (input) S_threshold :: nat where "S_threshold \<equiv> 16"

definition final_insertion_sort :: "('a \<Rightarrow> 'a \<Rightarrow> bool) \<Rightarrow> nat \<Rightarrow> nat \<Rightarrow> 'a list \<Rightarrow> 'a list option" where
  "final_insertion_sort cmp first lst xs =
     (if lst - first > S_threshold then do {
        xs \<leftarrow> insertion_sort cmp first (first + S_threshold) xs;
        unguarded_insertion_sort cmp (first + S_threshold) lst xs }
      else insertion_sort cmp first lst xs)"

subsection \<open>Partition\<close>

partial_function (option) scan_up :: "('a \<Rightarrow> 'a \<Rightarrow> bool) \<Rightarrow> nat \<Rightarrow> nat \<Rightarrow> 'a list \<Rightarrow> nat option" where
  "scan_up cmp pivot first xs =
     Option.bind (icmp cmp xs first pivot) (\<lambda>b.
       if b then scan_up cmp pivot (first + 1) xs else Some first)"

partial_function (option) scan_down :: "('a \<Rightarrow> 'a \<Rightarrow> bool) \<Rightarrow> nat \<Rightarrow> nat \<Rightarrow> 'a list \<Rightarrow> nat option" where
  "scan_down cmp pivot lst xs =
     Option.bind (icmp cmp xs pivot lst) (\<lambda>b.
       if b then (if lst = 0 then None else scan_down cmp pivot (lst - 1) xs) else Some lst)"

partial_function (option) unguarded_partition ::
  "('a \<Rightarrow> 'a \<Rightarrow> bool) \<Rightarrow> nat \<Rightarrow> nat \<Rightarrow> nat \<Rightarrow> 'a list \<Rightarrow> ('a list \<times> nat) option" where
  "unguarded_partition cmp first lst pivot xs =
     Option.bind (scan_up cmp pivot first xs) (\<lambda>first.
       if lst = 0 then None
       else Option.bind (scan_down cmp pivot (lst - 1) xs) (\<lambda>lst.
         if \<not> first < lst then Some (xs, first)
         else Option.bind (iter_swap first lst xs) (\<lambda>xs.
           unguarded_partition cmp (first + 1) lst pivot xs)))"

definition unguarded_partition_pivot ::
  "('a \<Rightarrow> 'a \<Rightarrow> bool) \<Rightarrow> nat \<Rightarrow> nat \<Rightarrow> 'a list \<Rightarrow> ('a list \<times> nat) option" where
  "unguarded_partition_pivot cmp first lst xs = do {
     let mid = first + (lst - first) div 2;
     xs \<leftarrow> move_median_to_first cmp first (first + 1) mid (lst - 1) xs;
     unguarded_partition cmp (first + 1) lst first xs }"

subsection \<open>Introsort\<close>

text \<open>One iteration of the loop decrements the depth limit, calls the function on the upper part
  and goes on with the lower part.\<close>

primrec introsort_loop :: "('a \<Rightarrow> 'a \<Rightarrow> bool) \<Rightarrow> nat \<Rightarrow> nat \<Rightarrow> nat \<Rightarrow> 'a list \<Rightarrow> 'a list option" where
  "introsort_loop cmp 0 first lst xs =
     (if lst - first > S_threshold then partial_sort cmp first lst lst xs else Some xs)"
| "introsort_loop cmp (Suc depth_limit) first lst xs =
     (if lst - first > S_threshold then do {
        (xs, cut) \<leftarrow> unguarded_partition_pivot cmp first lst xs;
        xs \<leftarrow> introsort_loop cmp depth_limit cut lst xs;
        introsort_loop cmp depth_limit first cut xs }
      else Some xs)"

text \<open>\<open>__builtin_clz\<close> counts the zero bits above the highest one of a positive \<open>int\<close>.\<close>

definition clz :: "nat \<Rightarrow> nat" where
  "clz n = length (takeWhile (\<lambda>i. \<not> bit n i) (rev [0..<32]))"

definition lg :: "nat \<Rightarrow> nat" where
  "lg n = 4 * 8 - 1 - clz n"

definition stl_sort :: "('a \<Rightarrow> 'a \<Rightarrow> bool) \<Rightarrow> nat \<Rightarrow> nat \<Rightarrow> 'a list \<Rightarrow> 'a list option" where
  "stl_sort cmp first lst xs =
     (if first \<noteq> lst then do {
        xs \<leftarrow> introsort_loop cmp (lg (lst - first) * 2) first lst xs;
        final_insertion_sort cmp first lst xs }
      else Some xs)"

section \<open>Correctness\<close>

text \<open>The smallest element of the range is among its first sixteen.\<close>

definition min_near :: "('a \<Rightarrow> 'a \<Rightarrow> bool) \<Rightarrow> nat \<Rightarrow> nat \<Rightarrow> 'a list \<Rightarrow> bool" where
  "min_near lt f l xs \<longleftrightarrow> (\<exists>s<l. f \<le> s \<and> s < f + 16 \<and> (\<forall>j. f \<le> j \<and> j < l \<longrightarrow> \<not> lt (xs ! j) (xs ! s)))"

text \<open>
  Below \<open>i\<close> nothing is larger than the pivot, from \<open>j\<close> on nothing is smaller, and each scan
  has an element that stops it.
\<close>

definition part_inv :: "('a \<Rightarrow> 'a \<Rightarrow> bool) \<Rightarrow> 'a list \<Rightarrow> nat \<Rightarrow> nat \<Rightarrow> nat \<Rightarrow> nat \<Rightarrow> bool" where
  "part_inv lt xs p l i j \<longleftrightarrow>
     p < i \<and> j \<le> l \<and> l \<le> length xs \<and>
     (\<forall>k. p < k \<and> k < i \<longrightarrow> \<not> lt (xs ! p) (xs ! k)) \<and> (\<forall>k. j \<le> k \<and> k < l \<longrightarrow> \<not> lt (xs ! k) (xs ! p)) \<and>
     (\<exists>k. i \<le> k \<and> k < l \<and> \<not> lt (xs ! k) (xs ! p)) \<and> (\<exists>k. p < k \<and> k < j \<and> \<not> lt (xs ! p) (xs ! k))"

definition part_post :: "('a \<Rightarrow> 'a \<Rightarrow> bool) \<Rightarrow> 'a list \<Rightarrow> nat \<Rightarrow> nat \<Rightarrow> nat \<Rightarrow> bool" where
  "part_post lt xs p l c \<longleftrightarrow> p < c \<and> c < l \<and>
     (\<forall>k. p < k \<and> k < c \<longrightarrow> \<not> lt (xs ! p) (xs ! k)) \<and> (\<forall>k. c \<le> k \<and> k < l \<longrightarrow> \<not> lt (xs ! k) (xs ! p))"

lemma icmp_Some [simp]: "a < length xs \<Longrightarrow> b < length xs \<Longrightarrow> icmp cmp xs a b = Some (cmp (xs ! a) (xs ! b))"
  by (simp add: icmp_def)

lemma move_backward_loop_shift:
  assumes "f + n < length xs"
  shows "\<exists>zs. move_backward_loop n (f + n) (f + n + 1) xs = Some (zs, f + 1) \<and> length zs = length xs \<and>
    (\<forall>j < length xs. zs ! j = (if f < j \<and> j \<le> f + n then xs ! (j - 1) else xs ! j)) \<and>
    rearranged f (f + n + 1) (xs[f + n := v]) (zs[f := v])"
  using assms
proof (induction n arbitrary: xs)
  case (Suc n)
  let ?xs = "xs[f + Suc n := xs ! (f + n)]"
  obtain zs where zs: "move_backward_loop n (f + n) (f + n + 1) ?xs = Some (zs, f + 1)" "length zs = length xs"
    "\<And>j. j < length xs \<Longrightarrow> zs ! j = (if f < j \<and> j \<le> f + n then ?xs ! (j - 1) else ?xs ! j)"
    "rearranged f (f + n + 1) (?xs[f + n := v]) (zs[f := v])"
    using Suc.IH [of ?xs] Suc.prems by auto
  have "rearranged f (f + Suc n + 1) (xs[f + Suc n := v]) (?xs[f + n := v])"
    using Suc.prems by (intro rearranged_move_hole) auto
  also have "rearranged f (f + Suc n + 1) (?xs[f + n := v]) (zs[f := v])"
    using zs(4) by (rule rearranged_mono) auto
  finally have "rearranged f (f + Suc n + 1) (xs[f + Suc n := v]) (zs[f := v])" .
  moreover have "zs ! j = (if f < j \<and> j \<le> f + Suc n then xs ! (j - 1) else xs ! j)" if "j < length xs" for j
    using zs(3) [OF that] that by (auto simp: nth_list_update le_Suc_eq)
  ultimately show ?case
    using zs(1,2) Suc.prems by simp
qed auto

context strict_weak_order
begin

subsection \<open>Partial sort\<close>

text \<open>The loop keeps a heap of the smallest elements so far.\<close>

lemma heap_select_loop_correct:
  assumes "f < m" "m \<le> i" "l \<le> length xs" "i \<le> l" "heap_from lt (elts f xs) (m - f) 0"
    and "\<And>j. m \<le> j \<Longrightarrow> j < i \<Longrightarrow> \<not> lt (xs ! j) (xs ! f)"
  shows "\<exists>ys. heap_select_loop lt f m l i xs = Some ys \<and> rearranged f l xs ys \<and>
    heap_from lt (elts f ys) (m - f) 0 \<and> (\<forall>j. m \<le> j \<and> j < l \<longrightarrow> \<not> lt (ys ! j) (ys ! f))"
  using assms
proof (induction "l - i" arbitrary: i xs)
  case 0
  then show ?case
    by (simp add: heap_select_loop.simps)
next
  case (Suc d)
  then have i: "i < l" "d = l - (i + 1)" "i < length xs" "f < length xs"
    by linarith+
  have "\<exists>ys. (if lt (xs ! i) (xs ! f) then pop_heap_to lt f m i xs else Some xs) = Some ys \<and>
      rearranged f l xs ys \<and> heap_from lt (elts f ys) (m - f) 0 \<and>
      (\<forall>j. m \<le> j \<and> j < i + 1 \<longrightarrow> \<not> lt (ys ! j) (ys ! f))"
  proof (cases "lt (xs ! i) (xs ! f)")
    case False
    then show ?thesis
      using Suc.prems(5,6) by (auto simp: less_Suc_eq)
  next
    case True
    let ?xs = "xs[i := xs ! f, f := xs ! i]"
    obtain ys where ys: "pop_heap_to lt f m i xs = Some ys" "ys ! i = xs ! f" "rearranged f m ?xs ys"
      "heap_from lt (elts f ys) (m - f) 0"
      using pop_heap_to_correct [OF Suc.prems(1,2) i(3) Suc.prems(5)] by blast
    have arr: "rearranged f l xs ys"
      using rearranged_mono [OF pop_heap_to_rearranged [OF Suc.prems(1,2) i(3) ys(3)]] i(1) by simp
    obtain k where k: "f \<le> k" "k < m" "ys ! f = ?xs ! k"
      using rearranged_from [OF ys(3), of f] Suc.prems(1-4) by auto
    have "\<not> lt (xs ! f) (ys ! f)"
      using k heap_root_max [OF Suc.prems(5), of "k - f"] True Suc.prems(1-4) asym
      by (cases "k = f") (auto simp: elts_def)
    moreover have "ys ! j = xs ! j" if "m \<le> j" "j < i" for j
      using rearranged_outside [OF ys(3), of j] that i(3) Suc.prems(1) by simp
    ultimately have "\<not> lt (ys ! j) (ys ! f)" if "m \<le> j" "j < i + 1" for j
      using that ys(2) Suc.prems(6) [of j] neg_trans [of "ys ! j" "xs ! f" "ys ! f"] by (cases "j = i") auto
    then show ?thesis
      using True ys(1,4) arr by auto
  qed
  then obtain ys where ys: "(if lt (xs ! i) (xs ! f) then pop_heap_to lt f m i xs else Some xs) = Some ys"
      "rearranged f l xs ys" "heap_from lt (elts f ys) (m - f) 0"
      "\<And>j. m \<le> j \<Longrightarrow> j < i + 1 \<Longrightarrow> \<not> lt (ys ! j) (ys ! f)"
    by blast
  then obtain zs where "heap_select_loop lt f m l (i + 1) ys = Some zs" "rearranged f l ys zs"
    "heap_from lt (elts f zs) (m - f) 0" "\<forall>j. m \<le> j \<and> j < l \<longrightarrow> \<not> lt (zs ! j) (zs ! f)"
    using Suc.hyps(1) [OF i(2), of ys] Suc.prems(1-4) i(1) rearranged_length [OF ys(2)] by auto
  then show ?case
    using ys(1,2) i rearranged_trans [OF ys(2)] by (subst heap_select_loop.simps) auto
qed

lemma partial_sort_correct:
  assumes "f < m" "m \<le> l" "l \<le> length xs"
  shows "\<exists>ys. partial_sort lt f m l xs = Some ys \<and> rearranged f l xs ys \<and> sorted_range lt f m ys \<and>
    (\<forall>i j. f \<le> i \<and> i < m \<and> m \<le> j \<and> j < l \<longrightarrow> \<not> lt (ys ! j) (ys ! i))"
proof -
  obtain as where as: "make_heap lt f m xs = Some as" "rearranged f m xs as" "heap_from lt (elts f as) (m - f) 0"
    using make_heap_correct [of f m xs] assms by auto
  note len = rearranged_length [OF as(2)]
  obtain bs where bs: "heap_select_loop lt f m l m as = Some bs" "rearranged f l as bs"
    "heap_from lt (elts f bs) (m - f) 0" "\<And>j. m \<le> j \<Longrightarrow> j < l \<Longrightarrow> \<not> lt (bs ! j) (bs ! f)"
    using heap_select_loop_correct [OF assms(1) le_refl _ assms(2) as(3)] assms(3) len by auto
  note len' = rearranged_length [OF bs(2)]
  obtain ys where ys: "sort_heap lt f m bs = Some ys" "rearranged f m bs ys" "sorted_range lt f m ys"
    using sort_heap_correct [OF _ _ bs(3)] assms len len' by auto
  have "rearranged f l xs as"
    using as(2) assms(2) by (auto intro: rearranged_mono)
  also note bs(2)
  also have "rearranged f l bs ys"
    using ys(2) assms(2) by (auto intro: rearranged_mono)
  finally have "rearranged f l xs ys" .
  moreover have "\<not> lt (ys ! j) (ys ! i)" if i: "f \<le> i" "i < m" and j: "m \<le> j" "j < l" for i j
  proof -
    obtain k where "f \<le> k" "k < m" "ys ! i = bs ! k"
      using rearranged_from [OF ys(2) _ i] assms len len' by auto
    moreover from this have "\<not> lt (bs ! f) (bs ! k)"
      using heap_root_max [OF bs(3), of "k - f"] by (simp add: elts_def)
    moreover have "ys ! j = bs ! j"
      using rearranged_outside [OF ys(2), of j] j assms(3) len len' by simp
    ultimately show ?thesis
      using bs(4) [OF j] neg_trans by metis
  qed
  ultimately show ?thesis
    using as(1) bs(1) ys(1,3) by (auto simp: partial_sort_def heap_select_def)
qed

subsection \<open>Insertion sort\<close>

text \<open>
  The inner loop with its hole at \<open>h\<close>: the range up to \<open>m\<close> is sorted without the hole, the
  value belongs below everything above the hole, and some element below the hole stops the
  loop.
\<close>

lemma linear_insert_loop_correct:
  assumes "m < length xs" "h \<le> m" "f \<le> s" "s < h" "\<not> lt v (xs ! s)"
    and "\<And>i j. f \<le> i \<Longrightarrow> i < j \<Longrightarrow> j \<le> m \<Longrightarrow> i \<noteq> h \<Longrightarrow> j \<noteq> h \<Longrightarrow> \<not> lt (xs ! j) (xs ! i)"
    and "\<And>j. h < j \<Longrightarrow> j \<le> m \<Longrightarrow> \<not> lt (xs ! j) v"
  shows "\<exists>ys. unguarded_linear_insert_loop lt v h xs = Some ys \<and>
    rearranged f (Suc m) (xs[h := v]) ys \<and> sorted_range lt f (Suc m) ys"
  using assms
proof (induction h arbitrary: xs)
  case (Suc h)
  have len: "h < length xs" "Suc h < length xs"
    using Suc.prems(1,2) by auto
  show ?case
  proof (cases "lt v (xs ! h)")
    case True
    let ?xs = "xs[Suc h := xs ! h]"
    have "s \<noteq> h"
      using True Suc.prems(5) by auto
    then have s: "s < h" "?xs ! s = xs ! s"
      using Suc.prems(4) by auto
    have up: "\<not> lt (?xs ! j) (?xs ! i)" if "f \<le> i" "i < j" "j \<le> m" "i \<noteq> h" "j \<noteq> h" for i j
      using Suc.prems(6) [of i j] Suc.prems(6) [of i h] Suc.prems(6) [of h j] that s(1) Suc.prems(2,3) len
      by (cases "i = Suc h"; cases "j = Suc h") (auto simp: nth_list_update)
    have above: "\<not> lt (?xs ! j) v" if "h < j" "j \<le> m" for j
      using Suc.prems(7) [of j] that asym [OF True] len by (cases "j = Suc h") (auto simp: nth_list_update)
    have "\<exists>ys. unguarded_linear_insert_loop lt v h ?xs = Some ys \<and>
        rearranged f (Suc m) (?xs[h := v]) ys \<and> sorted_range lt f (Suc m) ys"
      using Suc.prems(1-3,5) s up above by (intro Suc.IH) auto
    then obtain ys where ys: "unguarded_linear_insert_loop lt v h ?xs = Some ys"
      "rearranged f (Suc m) (?xs[h := v]) ys" "sorted_range lt f (Suc m) ys"
      by blast
    have "rearranged f (Suc m) (xs[Suc h := v]) (?xs[h := v])"
      using Suc.prems(1-3) s by (intro rearranged_move_hole) auto
    then have "rearranged f (Suc m) (xs[Suc h := v]) ys"
      using ys(2) by (rule rearranged_trans)
    then show ?thesis
      using ys True len by auto
  next
    case False
    have "\<not> lt (xs[Suc h := v] ! j) (xs[Suc h := v] ! i)" if "f \<le> i" "i < j" "j \<le> m" for i j
      using Suc.prems(6) [of i j] Suc.prems(6) [of i h] Suc.prems(7) [of j] neg_trans [OF False] False that len
        Suc.prems(2)
      by (cases "i = Suc h"; cases "j = Suc h"; cases "i = h") (auto simp: nth_list_update)
    then have "sorted_range lt f (Suc m) (xs[Suc h := v])"
      by (auto simp: sorted_range_def)
    then show ?thesis
      using False len by auto
  qed
qed simp

lemma linear_insert_correct:
  assumes "i < length xs" "f \<le> s" "s < i" "\<not> lt (xs ! i) (xs ! s)" "sorted_range lt f i xs"
  shows "\<exists>ys. unguarded_linear_insert lt i xs = Some ys \<and> rearranged f (Suc i) xs ys \<and> sorted_range lt f (Suc i) ys"
  using linear_insert_loop_correct [of i xs i f s "xs ! i"] assms
  by (simp add: unguarded_linear_insert_def sorted_range_def)

lemma insert_front:
  assumes "f < i" "i < length xs" "sorted_range lt f i xs" "lt (xs ! i) (xs ! f)"
  shows "\<exists>ys. do { (xs, r) \<leftarrow> move_backward f i (i + 1) xs; aset f v xs } = Some ys \<and>
    (v = xs ! i \<longrightarrow> rearranged f (Suc i) xs ys \<and> sorted_range lt f (Suc i) ys)"
proof -
  obtain zs where zs: "move_backward_loop (i - f) i (i + 1) xs = Some (zs, f + 1)" "length zs = length xs"
    "\<And>j. j < length xs \<Longrightarrow> zs ! j = (if f < j \<and> j \<le> i then xs ! (j - 1) else xs ! j)"
    "rearranged f (Suc i) (xs[i := v]) (zs[f := v])"
    using move_backward_loop_shift [of f "i - f" xs v] assms(1,2) by auto
  have "\<not> lt (zs[f := v] ! k) (zs[f := v] ! j)" if "f \<le> j" "j < k" "k \<le> i" "v = xs ! i" for j k
  proof (cases "j = f")
    case True
    have "\<not> lt (xs ! (k - 1)) (xs ! f)"
      using that True assms(3) by (cases "k - 1 = f") (auto simp: sorted_range_def)
    then have "\<not> lt (xs ! (k - 1)) (xs ! i)"
      using asym [OF lt_le_trans [OF assms(4)]] by blast
    then show ?thesis
      using True that zs(2,3) assms(2) by simp
  next
    case False
    then have "k - 1 < i" "f \<le> j - 1" "j - 1 < k - 1"
      using that by linarith+
    then have "\<not> lt (xs ! (k - 1)) (xs ! (j - 1))"
      using assms(3) by (simp add: sorted_range_def)
    then show ?thesis
      using False that zs(2,3) assms(2) by simp
  qed
  then have "v = xs ! i \<Longrightarrow> sorted_range lt f (Suc i) (zs[f := v])"
    by (auto simp: sorted_range_def)
  then show ?thesis
    using zs assms(1,2) by (auto simp: move_backward_def)
qed

lemma insertion_sort_loop_correct:
  assumes "f < i" "i \<le> l" "l \<le> length xs" "sorted_range lt f i xs"
  shows "\<exists>ys. insertion_sort_loop lt f l i xs = Some ys \<and> rearranged f l xs ys \<and> sorted_range lt f l ys"
  using assms
proof (induction "l - i" arbitrary: i xs)
  case 0
  then show ?case
    by (simp add: insertion_sort_loop.simps)
next
  case (Suc d)
  then have i: "i < length xs" "i \<noteq> l" "d = l - (i + 1)" "f < length xs" "Suc i \<le> l"
    by linarith+
  let ?step = "if lt (xs ! i) (xs ! f) then do {
             val \<leftarrow> aget xs i;
             (xs, r) \<leftarrow> move_backward f i (i + 1) xs;
             aset f val xs }
           else unguarded_linear_insert lt i xs"
  have "\<exists>ys. ?step = Some ys \<and> rearranged f (Suc i) xs ys \<and> sorted_range lt f (Suc i) ys"
    using insert_front [OF Suc.prems(1) i(1) Suc.prems(4), of "xs ! i"]
      linear_insert_correct [OF i(1) le_refl Suc.prems(1) _ Suc.prems(4)] i(1)
    by (cases "lt (xs ! i) (xs ! f)") auto
  then obtain ys where ys: "?step = Some ys" "rearranged f (Suc i) xs ys" "sorted_range lt f (Suc i) ys"
    by blast
  have arr: "rearranged f l xs ys"
    using rearranged_mono [OF ys(2)] i(5) by simp
  obtain zs where "insertion_sort_loop lt f l (i + 1) ys = Some zs" "rearranged f l ys zs" "sorted_range lt f l zs"
    using Suc.hyps(1) [OF i(3), of ys] Suc.prems(1,3) i(5) ys(3) rearranged_length [OF ys(2)] by auto
  then show ?case
    using ys(1) rearranged_trans [OF arr] i by (subst insertion_sort_loop.simps) auto
qed

lemma insertion_sort_correct:
  assumes "f \<le> l" "l \<le> length xs"
  shows "\<exists>ys. insertion_sort lt f l xs = Some ys \<and> rearranged f l xs ys \<and> sorted_range lt f l ys"
proof (cases "f = l")
  case False
  have "sorted_range lt f (f + 1) xs"
    by (auto simp: sorted_range_def)
  then show ?thesis
    using insertion_sort_loop_correct [of f "f + 1" l xs] assms False by (simp add: insertion_sort_def)
qed (auto simp: insertion_sort_def sorted_range_def)

lemma rearranged_sym: "rearranged f l xs ys \<Longrightarrow> rearranged f l ys xs"
  by (simp add: rearranged_def)

text \<open>Without a guard, an element of the sorted part has to be below all that follow.\<close>

lemma unguarded_insertion_sort_correct:
  assumes "f \<le> s" "s < i" "i \<le> l" "l \<le> length xs" "sorted_range lt f i xs"
    and "\<And>j. i \<le> j \<Longrightarrow> j < l \<Longrightarrow> \<not> lt (xs ! j) (xs ! s)"
  shows "\<exists>ys. unguarded_insertion_sort lt i l xs = Some ys \<and> rearranged f l xs ys \<and> sorted_range lt f l ys"
  using assms
proof (induction "l - i" arbitrary: i s xs)
  case 0
  then show ?case
    by (simp add: unguarded_insertion_sort.simps)
next
  case (Suc d)
  then have i: "i < length xs" "i < l" "d = l - (i + 1)" "Suc i \<le> l" "i \<noteq> l"
    by linarith+
  obtain ys where ys: "unguarded_linear_insert lt i xs = Some ys" "rearranged f (Suc i) xs ys"
    "sorted_range lt f (Suc i) ys"
    using linear_insert_correct [OF i(1) Suc.prems(1,2) Suc.prems(6) Suc.prems(5)] i(2) by blast
  note len = rearranged_length [OF ys(2)]
  have arr: "rearranged f l xs ys"
    using rearranged_mono [OF ys(2)] i(4) by simp
  obtain s' where s': "f \<le> s'" "s' < Suc i" "xs ! s = ys ! s'"
    using rearranged_from [OF rearranged_sym [OF ys(2)], of s] Suc.prems(1,2) i(1) len by auto
  have "\<not> lt (ys ! j) (ys ! s')" if "i + 1 \<le> j" "j < l" for j
    using Suc.prems(6) [of j] rearranged_outside [OF ys(2), of j] that Suc.prems(4) s'(3) by simp
  then obtain zs where "unguarded_insertion_sort lt (i + 1) l ys = Some zs" "rearranged f l ys zs"
    "sorted_range lt f l zs"
    using Suc.hyps(1) [OF i(3), of s' ys] s' ys(3) i(4) Suc.prems(4) len by auto
  then show ?case
    using ys(1) i(5) rearranged_trans [OF arr] by (subst unguarded_insertion_sort.simps) auto
qed

lemma final_insertion_sort_correct:
  assumes "f < l" "l \<le> length xs" "min_near lt f l xs"
  shows "\<exists>ys. final_insertion_sort lt f l xs = Some ys \<and> rearranged f l xs ys \<and> sorted_range lt f l ys"
proof (cases "l - f > 16")
  case False
  then show ?thesis
    using insertion_sort_correct [of f l xs] assms by (simp add: final_insertion_sort_def)
next
  case True
  let ?m = "f + 16"
  have m: "?m \<le> l" "?m \<le> length xs"
    using True assms(2) by linarith+
  obtain ys where ys: "insertion_sort lt f ?m xs = Some ys" "rearranged f ?m xs ys" "sorted_range lt f ?m ys"
    using insertion_sort_correct [of f ?m xs] m by auto
  obtain s where s: "f \<le> s" "s < ?m" "\<And>j. f \<le> j \<Longrightarrow> j < l \<Longrightarrow> \<not> lt (xs ! j) (xs ! s)"
    using assms(3) by (auto simp: min_near_def)
  obtain s' where s': "f \<le> s'" "s' < ?m" "xs ! s = ys ! s'"
    using rearranged_from [OF rearranged_sym [OF ys(2)] _ s(1,2)] m rearranged_length [OF ys(2)] by auto
  have "\<not> lt (ys ! j) (ys ! s')" if "?m \<le> j" "j < l" for j
    using s(3) [of j] rearranged_outside [OF ys(2), of j] that assms(2) s'(3) by simp
  then obtain zs where "unguarded_insertion_sort lt ?m l ys = Some zs" "rearranged f l ys zs"
    "sorted_range lt f l zs"
    using unguarded_insertion_sort_correct [OF s'(1,2) m(1) _ ys(3)] assms(2) rearranged_length [OF ys(2)] by auto
  moreover have "rearranged f l xs ys"
    using rearranged_mono [OF ys(2)] m(1) by simp
  ultimately show ?thesis
    using ys(1) True rearranged_trans [of f l xs ys] by (auto simp: final_insertion_sort_def)
qed

subsection \<open>Partition\<close>

lemma scan_up_correct:
  assumes "p < length xs" "i \<le> k" "k < length xs" "\<not> lt (xs ! k) (xs ! p)"
  shows "\<exists>r. scan_up lt p i xs = Some r \<and> i \<le> r \<and> r \<le> k \<and> \<not> lt (xs ! r) (xs ! p) \<and>
    (\<forall>j. i \<le> j \<and> j < r \<longrightarrow> lt (xs ! j) (xs ! p))"
  using assms(2)
proof (induction "k - i" arbitrary: i)
  case 0
  then show ?case
    using assms by (subst scan_up.simps) auto
next
  case (Suc d)
  show ?case
  proof (cases "lt (xs ! i) (xs ! p)")
    case False
    then show ?thesis
      using Suc.prems assms by (subst scan_up.simps) auto
  next
    case True
    have "d = k - Suc i" "Suc i \<le> k"
      using Suc.hyps(2) by linarith+
    then obtain r where r: "scan_up lt p (Suc i) xs = Some r" "Suc i \<le> r" "r \<le> k" "\<not> lt (xs ! r) (xs ! p)"
      "\<And>j. Suc i \<le> j \<Longrightarrow> j < r \<Longrightarrow> lt (xs ! j) (xs ! p)"
      using Suc.hyps(1) [of "Suc i"] by auto
    then have "lt (xs ! j) (xs ! p)" if "i \<le> j" "j < r" for j
      using that True by (cases "j = i") auto
    then show ?thesis
      using True Suc.prems assms r by (subst scan_up.simps) auto
  qed
qed

lemma scan_down_correct:
  assumes "p < length xs" "k \<le> i" "i < length xs" "\<not> lt (xs ! p) (xs ! k)"
  shows "\<exists>r. scan_down lt p i xs = Some r \<and> k \<le> r \<and> r \<le> i \<and> \<not> lt (xs ! p) (xs ! r) \<and>
    (\<forall>j. r < j \<and> j \<le> i \<longrightarrow> lt (xs ! p) (xs ! j))"
  using assms(2,3)
proof (induction "i - k" arbitrary: i)
  case 0
  then show ?case
    using assms by (subst scan_down.simps) auto
next
  case (Suc d)
  show ?case
  proof (cases "lt (xs ! p) (xs ! i)")
    case False
    then show ?thesis
      using Suc.prems assms by (subst scan_down.simps) auto
  next
    case True
    have i: "d = i - 1 - k" "k \<le> i - 1" "i - 1 < length xs" "i \<noteq> 0"
      using Suc.hyps(2) Suc.prems(2) by linarith+
    then obtain r where r: "scan_down lt p (i - 1) xs = Some r" "k \<le> r" "r \<le> i - 1" "\<not> lt (xs ! p) (xs ! r)"
      "\<And>j. r < j \<Longrightarrow> j \<le> i - 1 \<Longrightarrow> lt (xs ! p) (xs ! j)"
      using Suc.hyps(1) [of "i - 1"] by auto
    then have "lt (xs ! p) (xs ! j)" if "r < j" "j \<le> i" for j
      using that True by (cases "j = i") auto
    then show ?thesis
      using True Suc.prems assms i r by (subst scan_down.simps) auto
  qed
qed

lemma unguarded_partition_correct:
  assumes "part_inv lt xs p l i j"
  shows "\<exists>ys c. unguarded_partition lt i j p xs = Some (ys, c) \<and> rearranged (Suc p) l xs ys \<and> part_post lt ys p l c"
  using assms
proof (induction j arbitrary: i xs rule: less_induct)
  case (less j)
  have p: "p < i" "j \<le> l" "l \<le> length xs"
    and left: "\<And>k. p < k \<Longrightarrow> k < i \<Longrightarrow> \<not> lt (xs ! p) (xs ! k)"
    and right: "\<And>k. j \<le> k \<Longrightarrow> k < l \<Longrightarrow> \<not> lt (xs ! k) (xs ! p)"
    using less.prems by (auto simp: part_inv_def)
  obtain a b where a: "i \<le> a" "a < l" "\<not> lt (xs ! a) (xs ! p)" and b: "p < b" "b < j" "\<not> lt (xs ! p) (xs ! b)"
    using less.prems by (auto simp: part_inv_def)
  have len: "p < length xs" "a < length xs" "b \<le> j - 1" "j - 1 < length xs" "j \<noteq> 0"
    using p a b by linarith+
  obtain i' where i': "scan_up lt p i xs = Some i'" "i \<le> i'" "i' \<le> a" "\<not> lt (xs ! i') (xs ! p)"
    "\<And>k. i \<le> k \<Longrightarrow> k < i' \<Longrightarrow> lt (xs ! k) (xs ! p)"
    using scan_up_correct [OF len(1) a(1) len(2) a(3)] by blast
  obtain j' where j': "scan_down lt p (j - 1) xs = Some j'" "b \<le> j'" "j' \<le> j - 1" "\<not> lt (xs ! p) (xs ! j')"
    "\<And>k. j' < k \<Longrightarrow> k \<le> j - 1 \<Longrightarrow> lt (xs ! p) (xs ! k)"
    using scan_down_correct [OF len(1,3,4) b(3)] by blast
  have left': "\<not> lt (xs ! p) (xs ! k)" if "p < k" "k < i'" for k
    using left [of k] i'(5) [of k] asym that by (cases "k < i") auto
  have right': "\<not> lt (xs ! k) (xs ! p)" if "j' < k" "k < l" for k
    using right [of k] j'(5) [of k] asym that by (cases "j \<le> k") auto
  show ?case
  proof (cases "i' < j'")
    case False
    have "\<not> lt (xs ! k) (xs ! p)" if "i' \<le> k" "k < l" for k
      using that False right' [of k] i'(4) by (cases "k = i'") auto
    then have "part_post lt xs p l i'"
      using left' p(1) i'(2,3) a(2) by (auto simp: part_post_def)
    then show ?thesis
      using False i'(1) j'(1) len(5) by (subst unguarded_partition.simps) auto
  next
    case True
    let ?xs = "xs[i' := xs ! j', j' := xs ! i']"
    have b': "p < i'" "j' < l" "i' < length xs" "j' < length xs" "j' < j"
      using p i'(2,3) j'(3) len by linarith+
    have nth: "?xs ! p = xs ! p" "?xs ! i' = xs ! j'" "?xs ! j' = xs ! i'"
      "\<And>k. k \<noteq> i' \<Longrightarrow> k \<noteq> j' \<Longrightarrow> ?xs ! k = xs ! k"
      using b' True by (auto simp: nth_list_update)
    have "part_inv lt ?xs p l (i' + 1) j'"
      unfolding part_inv_def nth(1)
    proof (intro conjI allI impI)
      show "\<not> lt (xs ! p) (?xs ! k)" if "p < k \<and> k < i' + 1" for k
        using that left' [of k] j'(4) nth True by (cases "k = i'") auto
      show "\<not> lt (?xs ! k) (xs ! p)" if "j' \<le> k \<and> k < l" for k
        using that right' [of k] i'(4) nth True by (cases "k = j'") auto
      show "\<exists>k. i' + 1 \<le> k \<and> k < l \<and> \<not> lt (?xs ! k) (xs ! p)"
        using True b' i'(4) nth(3) by (intro exI [of _ j']) auto
      show "\<exists>k. p < k \<and> k < j' \<and> \<not> lt (xs ! p) (?xs ! k)"
        using True b' j'(4) nth(2) by (intro exI [of _ i']) auto
    qed (use b' p in auto)
    then obtain ys c where ys: "unguarded_partition lt (i' + 1) j' p ?xs = Some (ys, c)"
      "rearranged (Suc p) l ?xs ys" "part_post lt ys p l c"
      using less.IH [OF b'(5)] by blast
    have "rearranged (Suc p) l xs ?xs"
      using b' True p(3) by (intro rearranged_swap) auto
    then have "rearranged (Suc p) l xs ys"
      using ys(2) by (rule rearranged_trans)
    then show ?thesis
      using True i'(1) j'(1) len(5) b' ys iter_swap_Some [OF b'(3,4)]
      by (subst unguarded_partition.simps) auto
  qed
qed

text \<open>The pivot is a median: of the two other elements one stops each scan.\<close>

lemma move_median_correct:
  assumes "f < a" "a < b" "b < c" "c < length xs"
  shows "\<exists>ys. move_median_to_first lt f a b c xs = Some ys \<and> rearranged f (Suc c) xs ys \<and>
    (\<exists>k \<in> {a, b, c}. \<not> lt (ys ! k) (ys ! f)) \<and> (\<exists>k \<in> {a, b, c}. \<not> lt (ys ! f) (ys ! k))"
proof -
  have ex: "\<exists>ys. iter_swap f m xs = Some ys \<and> rearranged f (Suc c) xs ys \<and>
      (\<exists>k \<in> {a, b, c}. \<not> lt (ys ! k) (ys ! f)) \<and> (\<exists>k \<in> {a, b, c}. \<not> lt (ys ! f) (ys ! k))"
    if m: "m \<in> {a, b, c}" and x: "x \<in> {a, b, c} - {m}" "\<not> lt (xs ! x) (xs ! m)"
      and y: "y \<in> {a, b, c} - {m}" "\<not> lt (xs ! m) (xs ! y)" for m x y
  proof -
    have b: "f < m" "f < x" "f < y" "m < length xs" "f < length xs" "x \<noteq> m" "y \<noteq> m" "m \<le> c"
      using m x(1) y(1) assms by auto
    let ?ys = "xs[f := xs ! m, m := xs ! f]"
    have "?ys ! f = xs ! m" "?ys ! x = xs ! x" "?ys ! y = xs ! y"
      using b by (simp_all add: nth_list_update)
    moreover have "rearranged f (Suc c) xs ?ys"
      using b assms(4) by (intro rearranged_swap) auto
    ultimately show ?thesis
      using x y b iter_swap_Some [of f xs m] by (metis DiffD1)
  qed
  have len: "a < length xs" "b < length xs" "c < length xs"
    using assms by auto
  consider "lt (xs ! a) (xs ! b)" "lt (xs ! b) (xs ! c)"
    | "lt (xs ! a) (xs ! b)" "\<not> lt (xs ! b) (xs ! c)" "lt (xs ! a) (xs ! c)"
    | "lt (xs ! a) (xs ! b)" "\<not> lt (xs ! b) (xs ! c)" "\<not> lt (xs ! a) (xs ! c)"
    | "\<not> lt (xs ! a) (xs ! b)" "lt (xs ! a) (xs ! c)"
    | "\<not> lt (xs ! a) (xs ! b)" "\<not> lt (xs ! a) (xs ! c)" "lt (xs ! b) (xs ! c)"
    | "\<not> lt (xs ! a) (xs ! b)" "\<not> lt (xs ! a) (xs ! c)" "\<not> lt (xs ! b) (xs ! c)"
    by blast
  then show ?thesis
  proof cases
    case 1
    then show ?thesis
      using ex [of b c a] asym len assms by (simp add: move_median_to_first_def)
  next
    case 2
    then show ?thesis
      using ex [of c b a] asym len assms by (simp add: move_median_to_first_def)
  next
    case 3
    then show ?thesis
      using ex [of a b c] asym len assms by (simp add: move_median_to_first_def)
  next
    case 4
    then show ?thesis
      using ex [of a c b] asym len assms by (simp add: move_median_to_first_def)
  next
    case 5
    then show ?thesis
      using ex [of c a b] asym len assms by (simp add: move_median_to_first_def)
  next
    case 6
    then show ?thesis
      using ex [of b a c] asym len assms by (simp add: move_median_to_first_def)
  qed
qed

lemma unguarded_partition_pivot_correct:
  assumes "4 \<le> l - f" "l \<le> length xs"
  shows "\<exists>ys c. unguarded_partition_pivot lt f l xs = Some (ys, c) \<and> rearranged f l xs ys \<and> f < c \<and> c < l \<and>
    (\<forall>i j. f \<le> i \<and> i < c \<and> c \<le> j \<and> j < l \<longrightarrow> \<not> lt (ys ! j) (ys ! i))"
proof -
  let ?a = "f + 1" and ?b = "f + (l - f) div 2" and ?c = "l - 1"
  have order: "f < ?a" "?a < ?b" "?b < ?c" "?c < length xs" "Suc ?c = l"
    using assms by linarith+
  obtain as where as: "move_median_to_first lt f ?a ?b ?c xs = Some as" "rearranged f l xs as"
    "\<exists>k \<in> {?a, ?b, ?c}. \<not> lt (as ! k) (as ! f)" "\<exists>k \<in> {?a, ?b, ?c}. \<not> lt (as ! f) (as ! k)"
    using move_median_correct [OF order(1-4)] order(5) by auto
  have inner: "f < k \<and> k < l" if "k \<in> {?a, ?b, ?c}" for k
  proof -
    have "k = ?a \<or> k = ?b \<or> k = ?c"
      using that by simp
    then show ?thesis
      using order by linarith
  qed
  have "part_inv lt as f l ?a l"
    unfolding part_inv_def
  proof (intro conjI)
    show "\<exists>k\<ge>?a. k < l \<and> \<not> lt (as ! k) (as ! f)"
      using as(3) inner by (metis Suc_eq_plus1 Suc_leI)
    show "\<exists>k>f. k < l \<and> \<not> lt (as ! f) (as ! k)"
      using as(4) inner by blast
  qed (use assms(2) rearranged_length [OF as(2)] in auto)
  then obtain ys c where ys: "unguarded_partition lt ?a l f as = Some (ys, c)" "rearranged (Suc f) l as ys"
    "part_post lt ys f l c"
    using unguarded_partition_correct by blast
  have "\<not> lt (ys ! j) (ys ! i)" if "f \<le> i" "i < c" "c \<le> j" "j < l" for i j
  proof -
    have "\<not> lt (ys ! j) (ys ! f)"
      using ys(3) that by (simp add: part_post_def)
    moreover have "\<not> lt (ys ! f) (ys ! i)"
      using ys(3) that by (cases "i = f") (simp_all add: part_post_def)
    ultimately show ?thesis
      by (rule neg_trans)
  qed
  moreover have "rearranged f l as ys"
    using rearranged_mono [OF ys(2)] by simp
  then have "rearranged f l xs ys"
    by (rule rearranged_trans [OF as(2)])
  ultimately show ?thesis
    using as(1) ys(1,3) by (auto simp: unguarded_partition_pivot_def Let_def part_post_def)
qed

subsection \<open>Introsort\<close>

lemma range_min: "f < l \<Longrightarrow> \<exists>s. f \<le> s \<and> s < l \<and> (\<forall>j. f \<le> j \<and> j < l \<longrightarrow> \<not> lt (xs ! j) (xs ! s))"
proof (induction l)
  case (Suc l)
  show ?case
  proof (cases "f < l")
    case False
    then show ?thesis
      using Suc.prems by (intro exI [of _ f]) (auto simp: less_Suc_eq)
  next
    case True
    then obtain s where s: "f \<le> s" "s < l" "\<And>j. f \<le> j \<Longrightarrow> j < l \<Longrightarrow> \<not> lt (xs ! j) (xs ! s)"
      using Suc.IH by blast
    show ?thesis
    proof (cases "lt (xs ! l) (xs ! s)")
      case less: True
      then have "\<not> lt (xs ! j) (xs ! l)" if "f \<le> j" "j < Suc l" for j
        using s(3) [of j] that trans [of "xs ! j" "xs ! l" "xs ! s"] by (cases "j = l") auto
      then show ?thesis
        using True by (intro exI [of _ l]) auto
    next
      case False
      then show ?thesis
        using s by (intro exI [of _ s]) (auto simp: less_Suc_eq)
    qed
  qed
qed simp

lemma min_near_short: "f < l \<Longrightarrow> l \<le> f + 16 \<Longrightarrow> min_near lt f l xs"
  using range_min [of f l xs] by (force simp: min_near_def)

lemma min_near_extend:
  assumes "min_near lt f c xs" and "\<And>i j. f \<le> i \<Longrightarrow> i < c \<Longrightarrow> c \<le> j \<Longrightarrow> j < l \<Longrightarrow> \<not> lt (xs ! j) (xs ! i)"
    and "c \<le> l"
  shows "min_near lt f l xs"
proof -
  obtain s where s: "s < c" "f \<le> s" "s < f + 16" "\<And>j. f \<le> j \<Longrightarrow> j < c \<Longrightarrow> \<not> lt (xs ! j) (xs ! s)"
    using assms(1) by (auto simp: min_near_def)
  then have "\<not> lt (xs ! j) (xs ! s)" if "f \<le> j" "j < l" for j
    using that assms(2) [of s j] by (cases "j < c") auto
  then show ?thesis
    using s assms(3) by (auto simp: min_near_def intro!: exI [of _ s])
qed

lemma introsort_loop_correct:
  assumes "f < l" "l \<le> length xs"
  shows "\<exists>ys. introsort_loop lt d f l xs = Some ys \<and> rearranged f l xs ys \<and> min_near lt f l ys"
  using assms
proof (induction d arbitrary: f l xs)
  case 0
  show ?case
  proof (cases "l - f > 16")
    case False
    then show ?thesis
      using 0 min_near_short [of f l xs] by simp
  next
    case True
    obtain ys where ys: "partial_sort lt f l l xs = Some ys" "rearranged f l xs ys" "sorted_range lt f l ys"
      using partial_sort_correct [OF 0(1) le_refl 0(2)] by blast
    then have "\<not> lt (ys ! j) (ys ! f)" if "f \<le> j" "j < l" for j
      using that by (cases "j = f") (auto simp: sorted_range_def)
    then have "min_near lt f l ys"
      using 0(1) by (auto simp: min_near_def intro!: exI [of _ f])
    then show ?thesis
      using True ys by simp
  qed
next
  case (Suc d)
  show ?case
  proof (cases "l - f > 16")
    case False
    then show ?thesis
      using Suc.prems min_near_short [of f l xs] by simp
  next
    case True
    then have "4 \<le> l - f"
      by simp
    then obtain as c where as: "unguarded_partition_pivot lt f l xs = Some (as, c)" "rearranged f l xs as"
      "f < c" "c < l" "\<And>i j. f \<le> i \<Longrightarrow> i < c \<Longrightarrow> c \<le> j \<Longrightarrow> j < l \<Longrightarrow> \<not> lt (as ! j) (as ! i)"
      using unguarded_partition_pivot_correct [OF _ Suc.prems(2)] by blast
    note len = rearranged_length [OF as(2)]
    obtain bs where bs: "introsort_loop lt d c l as = Some bs" "rearranged c l as bs"
      using Suc.IH [of c l as] as(4) Suc.prems(2) len by auto
    note len' = rearranged_length [OF bs(2)]
    obtain ys where ys: "introsort_loop lt d f c bs = Some ys" "rearranged f c bs ys" "min_near lt f c ys"
      using Suc.IH [of f c bs] as(3,4) Suc.prems(2) len len' by auto
    have "rearranged f l as ys"
      using rearranged_trans [OF rearranged_mono [OF bs(2)] rearranged_mono [OF ys(2)]] as(3,4) by auto
    then have arr: "rearranged f l xs ys"
      by (rule rearranged_trans [OF as(2)])
    have split: "\<not> lt (ys ! j) (ys ! i)" if i: "f \<le> i" "i < c" and j: "c \<le> j" "j < l" for i j
    proof -
      obtain i' where i': "f \<le> i'" "i' < c" "ys ! i = bs ! i'"
        using rearranged_from [OF ys(2) _ i] as(4) Suc.prems(2) len len' by auto
      moreover obtain j' where "c \<le> j'" "j' < l" "bs ! j = as ! j'"
        using rearranged_from [OF bs(2) _ j] Suc.prems(2) len by auto
      moreover have "bs ! i' = as ! i'" "ys ! j = bs ! j"
        using rearranged_outside [OF bs(2), of i'] rearranged_outside [OF ys(2), of j] i' j as(4) Suc.prems(2) len len'
        by auto
      ultimately show ?thesis
        using as(5) by simp
    qed
    have "min_near lt f l ys"
      by (rule min_near_extend [OF ys(3) split]) (use as(4) in auto)
    with arr show ?thesis
      using True as(1) bs(1) ys(1) by simp
  qed
qed

lemma stl_sort_correct:
  assumes "f \<le> l" "l \<le> length xs"
  shows "\<exists>ys. stl_sort lt f l xs = Some ys \<and> rearranged f l xs ys \<and> sorted_range lt f l ys"
proof (cases "f = l")
  case True
  then show ?thesis
    by (auto simp: stl_sort_def sorted_range_def)
next
  case False
  then obtain as where as: "introsort_loop lt (lg (l - f) * 2) f l xs = Some as" "rearranged f l xs as"
    "min_near lt f l as"
    using introsort_loop_correct [of f l xs] assms by fastforce
  then obtain ys where "final_insertion_sort lt f l as = Some ys" "rearranged f l as ys" "sorted_range lt f l ys"
    using final_insertion_sort_correct [of f l as] assms False rearranged_length [OF as(2)] by auto
  then show ?thesis
    using as False rearranged_trans [OF as(2)] by (simp add: stl_sort_def)
qed

end

section \<open>Properties\<close>

text \<open>
  C5. std::sort, for every strict weak order and every valid range of a container: it ends, no
  access leaves the container (also the unguarded scans and insertions do not), the range is
  sorted afterwards, its elements are the old ones with their numbers, and the container is
  unchanged outside of the range.
\<close>

theorem sort_sorts:
  assumes "strict_weak_order lt" and "f \<le> l" and "l \<le> length xs"
  shows "\<exists>ys. stl_sort lt f l xs = Some ys \<and> sorted_wrt (\<lambda>x y. \<not> lt y x) (slice f l ys) \<and>
    mset (slice f l ys) = mset (slice f l xs) \<and> take f ys = take f xs \<and> drop l ys = drop l xs"
proof -
  obtain ys where ys: "stl_sort lt f l xs = Some ys" "rearranged f l xs ys" "sorted_range lt f l ys"
    using strict_weak_order.stl_sort_correct [OF assms] by blast
  moreover have "l \<le> length ys"
    using assms(3) rearranged_length [OF ys(2)] by simp
  ultimately show ?thesis
    using rearranged_slice [OF ys(2) assms(2,3)] sorted_range_sorted_wrt [of l ys]
    by (auto simp: rearranged_def)
qed

theorem sort_sorts_witness:
  "\<exists>ys. stl_sort (<) 1 4 [9, 7, 3, 5, 0 :: int] = Some ys \<and> sorted (slice 1 4 ys) \<and>
     mset (slice 1 4 ys) = {#3, 5, 7#} \<and> take 1 ys = [9] \<and> drop 4 ys = [0]"
proof -
  obtain ys where "stl_sort (<) 1 4 [9, 7, 3, 5, 0 :: int] = Some ys"
    "sorted_wrt (\<lambda>x y. \<not> y < x) (slice 1 4 ys)"
    "mset (slice 1 4 ys) = mset (slice 1 4 [9, 7, 3, 5, 0])" "take 1 ys = take 1 [9, 7, 3, 5, 0]"
    "drop 4 ys = drop 4 [9, 7, 3, 5, 0]"
    using sort_sorts [OF less_strict_weak_order, of 1 4 "[9, 7, 3, 5, 0 :: int]"] by auto
  then show ?thesis
    by (intro exI [of _ ys]) (simp add: slice_def not_less add_mset_commute)
qed

text \<open>
  C20. std::\<open>partial_sort\<close> of a non-empty first part: it ends inside of the
  container, the first part is sorted afterwards, none of its elements is larger than an element
  of the rest of the range, and the range is rearranged only.
\<close>

theorem partial_sort_selects:
  assumes "strict_weak_order lt" and "f < m" and "m \<le> l" and "l \<le> length xs"
  shows "\<exists>ys. partial_sort lt f m l xs = Some ys \<and> rearranged f l xs ys \<and> sorted_range lt f m ys \<and>
    (\<forall>i j. f \<le> i \<and> i < m \<and> m \<le> j \<and> j < l \<longrightarrow> \<not> lt (ys ! j) (ys ! i))"
  by (rule strict_weak_order.partial_sort_correct [OF assms])

theorem partial_sort_selects_witness:
  "\<exists>ys. partial_sort (<) 0 1 3 [5, 2, 4 :: int] = Some ys \<and> mset ys = {#5, 2, 4#} \<and>
     \<not> ys ! 1 < ys ! 0 \<and> \<not> ys ! 2 < ys ! 0"
proof -
  obtain ys where "partial_sort (<) 0 1 3 [5, 2, 4 :: int] = Some ys" "rearranged 0 3 [5, 2, 4] ys"
    "\<forall>i j. 0 \<le> i \<and> i < 1 \<and> 1 \<le> j \<and> j < 3 \<longrightarrow> \<not> ys ! j < ys ! i"
    using partial_sort_selects [OF less_strict_weak_order, of 0 1 3 "[5, 2, 4 :: int]"] by auto
  then show ?thesis
    by (auto simp: rearranged_def)
qed

end
