(* ===== verification/Stl_Select.thy ===== *)
theory Stl_Select
  imports Stl_Sort
begin

text \<open>
  \<open>std::nth_element\<close> of libstdc++ (\<^verbatim>\<open>c++/8.2.0/bits/stl_algo.h\<close>): introselect, which goes on
  with the part that holds the position, selects by a heap at the depth limit, and ends with an
  insertion sort of at most three elements.
\<close>

primrec introselect :: "('a \<Rightarrow> 'a \<Rightarrow> bool) \<Rightarrow> nat \<Rightarrow> nat \<Rightarrow> nat \<Rightarrow> nat \<Rightarrow> 'a list \<Rightarrow> 'a list option" where
  "introselect cmp 0 first nth1 lst xs =
     (if lst - first > 3 then do {
        xs \<leftarrow> heap_select cmp first (nth1 + 1) lst xs;
        iter_swap first nth1 xs }
      else insertion_sort cmp first lst xs)"
| "introselect cmp (Suc depth_limit) first nth1 lst xs =
     (if lst - first > 3 then do {
        (xs, cut) \<leftarrow> unguarded_partition_pivot cmp first lst xs;
        if cut \<le> nth1 then introselect cmp depth_limit cut nth1 lst xs
        else introselect cmp depth_limit first nth1 cut xs }
      else insertion_sort cmp first lst xs)"

definition nth_element :: "('a \<Rightarrow> 'a \<Rightarrow> bool) \<Rightarrow> nat \<Rightarrow> nat \<Rightarrow> nat \<Rightarrow> 'a list \<Rightarrow> 'a list option" where
  "nth_element cmp first nth1 lst xs =
     (if first = lst \<or> nth1 = lst then Some xs
      else introselect cmp (lg (lst - first) * 2) first nth1 lst xs)"

section \<open>Correctness\<close>

text \<open>The element at \<open>n\<close> is at its place: nothing before it is larger, nothing behind it smaller.\<close>

definition placed :: "('a \<Rightarrow> 'a \<Rightarrow> bool) \<Rightarrow> nat \<Rightarrow> nat \<Rightarrow> nat \<Rightarrow> 'a list \<Rightarrow> bool" where
  "placed lt f n l xs \<longleftrightarrow>
     (\<forall>i. f \<le> i \<and> i < n \<longrightarrow> \<not> lt (xs ! n) (xs ! i)) \<and> (\<forall>j. n < j \<and> j < l \<longrightarrow> \<not> lt (xs ! j) (xs ! n))"

lemma sorted_placed: "sorted_range lt f l xs \<Longrightarrow> f \<le> n \<Longrightarrow> n < l \<Longrightarrow> placed lt f n l xs"
  by (auto simp: sorted_range_def placed_def)

context strict_weak_order
begin

lemma heap_select_correct:
  assumes "f < m" "m \<le> l" "l \<le> length xs"
  shows "\<exists>ys. heap_select lt f m l xs = Some ys \<and> rearranged f l xs ys \<and>
    (\<forall>i. f \<le> i \<and> i < m \<longrightarrow> \<not> lt (ys ! f) (ys ! i)) \<and> (\<forall>j. m \<le> j \<and> j < l \<longrightarrow> \<not> lt (ys ! j) (ys ! f))"
proof -
  obtain as where as: "make_heap lt f m xs = Some as" "rearranged f m xs as" "heap_from lt (elts f as) (m - f) 0"
    using make_heap_correct [of f m xs] assms by auto
  obtain ys where ys: "heap_select_loop lt f m l m as = Some ys" "rearranged f l as ys"
    "heap_from lt (elts f ys) (m - f) 0" "\<forall>j. m \<le> j \<and> j < l \<longrightarrow> \<not> lt (ys ! j) (ys ! f)"
    using heap_select_loop_correct [OF assms(1) le_refl _ assms(2) as(3)] assms(3) rearranged_length [OF as(2)] by auto
  have "\<not> lt (ys ! f) (ys ! i)" if "f \<le> i" "i < m" for i
    using heap_root_max [OF ys(3), of "i - f"] that by (simp add: elts_def)
  moreover have "rearranged f l xs ys"
    using rearranged_trans [OF rearranged_mono [OF as(2) le_refl assms(2)] ys(2)] .
  ultimately show ?thesis
    using as(1) ys by (auto simp: heap_select_def)
qed

lemma heap_selection_correct:
  assumes "f \<le> n" "n < l" "l \<le> length xs"
  shows "\<exists>ys. do { xs \<leftarrow> heap_select lt f (n + 1) l xs; iter_swap f n xs } = Some ys \<and>
    rearranged f l xs ys \<and> placed lt f n l ys"
proof -
  obtain hs where hs: "heap_select lt f (n + 1) l xs = Some hs" "rearranged f l xs hs"
    "\<And>i. f \<le> i \<Longrightarrow> i < n + 1 \<Longrightarrow> \<not> lt (hs ! f) (hs ! i)" "\<And>j. n + 1 \<le> j \<Longrightarrow> j < l \<Longrightarrow> \<not> lt (hs ! j) (hs ! f)"
    using heap_select_correct [of f "n + 1" l xs] assms by auto
  have len: "f < length hs" "n < length hs" "l \<le> length hs"
    using assms rearranged_length [OF hs(2)] by auto
  let ?ys = "hs[f := hs ! n, n := hs ! f]"
  have "\<not> lt (?ys ! n) (?ys ! i)" if "f \<le> i" "i < n" for i
    using that hs(3) [of i] hs(3) [of n] assms(1) len by (auto simp: nth_list_update)
  moreover have "\<not> lt (?ys ! j) (?ys ! n)" if "n < j" "j < l" for j
    using that hs(4) [of j] assms(1) len by (simp add: nth_list_update)
  moreover have "rearranged f l hs ?ys"
    using assms len by (intro rearranged_swap) auto
  ultimately show ?thesis
    using hs(1) rearranged_trans [OF hs(2)] iter_swap_Some [OF len(1,2)] by (auto simp: placed_def)
qed

lemma introselect_correct:
  assumes "f \<le> n" "n < l" "l \<le> length xs"
  shows "\<exists>ys. introselect lt d f n l xs = Some ys \<and> rearranged f l xs ys \<and> placed lt f n l ys"
  using assms
proof (induction d arbitrary: f l xs)
  case 0
  then show ?case
    using heap_selection_correct [of f n l xs] insertion_sort_correct [of f l xs] sorted_placed [of lt f l _ n]
    by (cases "l - f > 3") auto
next
  case (Suc d)
  show ?case
  proof (cases "l - f > 3")
    case False
    then show ?thesis
      using Suc.prems insertion_sort_correct [of f l xs] sorted_placed [of lt f l _ n] by auto
  next
    case True
    then obtain ys c where ys: "unguarded_partition_pivot lt f l xs = Some (ys, c)" "rearranged f l xs ys" "f < c" "c < l"
      "\<And>i j. f \<le> i \<Longrightarrow> i < c \<Longrightarrow> c \<le> j \<Longrightarrow> j < l \<Longrightarrow> \<not> lt (ys ! j) (ys ! i)"
      using unguarded_partition_pivot_correct [of l f xs] Suc.prems(3) by auto
    note len = rearranged_length [OF ys(2)]
    show ?thesis
    proof (cases "c \<le> n")
      case c: True
      obtain zs where zs: "introselect lt d c n l ys = Some zs" "rearranged c l ys zs" "placed lt c n l zs"
        using Suc.IH [OF c Suc.prems(2), of ys] Suc.prems(3) len by auto
      obtain k where k: "c \<le> k" "k < l" "zs ! n = ys ! k"
        using rearranged_from [OF zs(2) _ c Suc.prems(2)] Suc.prems(3) len by auto
      have "\<not> lt (zs ! n) (zs ! i)" if "f \<le> i" "i < n" for i
        using that zs(3) k ys(5) [of i k] rearranged_outside [OF zs(2), of i] Suc.prems(2,3) len
        by (cases "i < c") (auto simp: placed_def)
      then have "placed lt f n l zs"
        using zs(3) by (auto simp: placed_def)
      moreover have "rearranged f l xs zs"
        using rearranged_trans [OF ys(2) rearranged_mono [OF zs(2)]] ys(3) by simp
      ultimately show ?thesis
        using True c ys(1) zs(1) by auto
    next
      case c: False
      obtain zs where zs: "introselect lt d f n c ys = Some zs" "rearranged f c ys zs" "placed lt f n c zs"
        using Suc.IH [of f c ys] Suc.prems(1,3) c ys(4) len by auto
      obtain k where k: "f \<le> k" "k < c" "zs ! n = ys ! k"
        using rearranged_from [OF zs(2) _ Suc.prems(1)] c ys(4) Suc.prems(3) len by auto
      have "\<not> lt (zs ! j) (zs ! n)" if "n < j" "j < l" for j
        using that zs(3) k ys(5) [of k j] rearranged_outside [OF zs(2), of j] Suc.prems(3) len
        by (cases "j < c") (auto simp: placed_def)
      then have "placed lt f n l zs"
        using zs(3) by (auto simp: placed_def)
      moreover have "rearranged f l xs zs"
        using rearranged_trans [OF ys(2) rearranged_mono [OF zs(2)]] ys(4) by simp
      ultimately show ?thesis
        using True c ys(1) zs(1) by auto
    qed
  qed
qed

lemma nth_element_correct:
  assumes "f \<le> n" "n < l" "l \<le> length xs"
  shows "\<exists>ys. nth_element lt f n l xs = Some ys \<and> rearranged f l xs ys \<and> placed lt f n l ys"
  using introselect_correct [OF assms] assms by (simp add: nth_element_def)

subsection \<open>The element is determined\<close>

text \<open>
  Two arrangements of the same elements with the position in its place have equivalent
  elements there: of the elements that are not larger than a smaller one, one arrangement has
  at least \<open>n - f + 1\<close> and the other at most \<open>n - f\<close>.
\<close>

lemma placed_count:
  assumes "placed lt f n l xs" "f \<le> n" "n < l" "l \<le> length xs"
  shows "Suc (n - f) \<le> length (filter (\<lambda>x. \<not> lt (xs ! n) x) (slice f l xs))"
    and "lt v (xs ! n) \<Longrightarrow> length (filter (\<lambda>x. \<not> lt v x) (slice f l xs)) \<le> n - f"
proof -
  let ?I = "\<lambda>P. {i. i < l - f \<and> P (xs ! (f + i))}"
  have count: "length (filter P (slice f l xs)) = card (?I P)" for P
    using assms(4) by (auto simp: length_filter_conv_card slice_nth intro!: arg_cong [where f = card])
  have "{..<Suc (n - f)} \<subseteq> ?I (\<lambda>x. \<not> lt (xs ! n) x)"
  proof
    fix i assume "i \<in> {..<Suc (n - f)}"
    then have "f + i \<le> n" "i < l - f"
      using assms(2,3) by auto
    then show "i \<in> ?I (\<lambda>x. \<not> lt (xs ! n) x)"
      using assms(1) by (cases "f + i = n") (auto simp: placed_def)
  qed
  then show "Suc (n - f) \<le> length (filter (\<lambda>x. \<not> lt (xs ! n) x) (slice f l xs))"
    unfolding count by (metis card_lessThan card_mono finite_Collect_conjI finite_Collect_less_nat)
  assume v: "lt v (xs ! n)"
  have "?I (\<lambda>x. \<not> lt v x) \<subseteq> {..<n - f}"
  proof
    fix i assume i: "i \<in> ?I (\<lambda>x. \<not> lt v x)"
    show "i \<in> {..<n - f}"
    proof (rule ccontr)
      assume "i \<notin> {..<n - f}"
      then have "n \<le> f + i" "f + i < l"
        using i by auto
      then have "\<not> lt (xs ! (f + i)) (xs ! n)"
        using assms(1) by (cases "f + i = n") (auto simp: placed_def)
      then show False
        using lt_le_trans [OF v] i by auto
    qed
  qed
  then show "length (filter (\<lambda>x. \<not> lt v x) (slice f l xs)) \<le> n - f"
    unfolding count by (metis card_lessThan card_mono finite_lessThan)
qed

lemma placed_equivalent:
  assumes "placed lt f n l xs" "placed lt f n l ys" "f \<le> n" "n < l" "l \<le> length xs" "l \<le> length ys"
    and "mset (slice f l xs) = mset (slice f l ys)"
  shows "\<not> lt (xs ! n) (ys ! n)"
proof
  assume "lt (xs ! n) (ys ! n)"
  then have "length (filter (\<lambda>x. \<not> lt (xs ! n) x) (slice f l ys)) \<le> n - f"
    using placed_count(2) [OF assms(2-4,6)] by blast
  moreover have "mset (filter P (slice f l xs)) = mset (filter P (slice f l ys))" for P
    using assms(7) by simp
  then have "length (filter P (slice f l xs)) = length (filter P (slice f l ys))" for P
    by (rule mset_eq_length)
  ultimately show False
    using placed_count(1) [OF assms(1,3-5)] by simp
qed

end

section \<open>Properties\<close>

text \<open>
  C15. std::\<open>nth_element\<close>, for every strict weak order and every position of a
  valid range: it ends, stays inside of the container and rearranges only the range; no element
  before the position is larger and none behind it smaller than the element there, and that
  element is equivalent to the one that std::sort puts there.
\<close>

theorem nth_element_selects:
  assumes "strict_weak_order lt" and "f \<le> n" and "n < l" and "l \<le> length xs"
  shows "\<exists>ys zs. nth_element lt f n l xs = Some ys \<and> rearranged f l xs ys \<and>
    (\<forall>i. f \<le> i \<and> i < n \<longrightarrow> \<not> lt (ys ! n) (ys ! i)) \<and> (\<forall>j. n < j \<and> j < l \<longrightarrow> \<not> lt (ys ! j) (ys ! n)) \<and>
    stl_sort lt f l xs = Some zs \<and> \<not> lt (ys ! n) (zs ! n) \<and> \<not> lt (zs ! n) (ys ! n)"
proof -
  obtain ys where ys: "nth_element lt f n l xs = Some ys" "rearranged f l xs ys" "placed lt f n l ys"
    using strict_weak_order.nth_element_correct [OF assms] by blast
  have fl: "f \<le> l"
    using assms by simp
  obtain zs where zs: "stl_sort lt f l xs = Some zs" "rearranged f l xs zs" "placed lt f n l zs"
    using strict_weak_order.stl_sort_correct [OF assms(1) fl assms(4)] sorted_placed assms(2,3) by blast
  have len: "l \<le> length ys" "l \<le> length zs"
    using assms(4) rearranged_length [OF ys(2)] rearranged_length [OF zs(2)] by simp_all
  have "mset (slice f l ys) = mset (slice f l zs)"
    using rearranged_slice [OF ys(2) fl assms(4)] rearranged_slice [OF zs(2) fl assms(4)] by simp
  then have "\<not> lt (ys ! n) (zs ! n)" "\<not> lt (zs ! n) (ys ! n)"
    using strict_weak_order.placed_equivalent [OF assms(1) ys(3) zs(3) assms(2,3) len]
      strict_weak_order.placed_equivalent [OF assms(1) zs(3) ys(3) assms(2,3) len(2,1)] by simp_all
  then show ?thesis
    using ys zs(1) unfolding placed_def by blast
qed

theorem nth_element_selects_witness:
  "\<exists>ys zs. nth_element (<) 0 2 5 [9, 7, 3, 5, 0 :: int] = Some ys \<and>
     stl_sort (<) 0 5 [9, 7, 3, 5, 0 :: int] = Some zs \<and> ys ! 2 = zs ! 2"
proof -
  obtain ys zs where "nth_element (<) 0 2 5 [9, 7, 3, 5, 0 :: int] = Some ys"
    "stl_sort (<) 0 5 [9, 7, 3, 5, 0 :: int] = Some zs" "\<not> ys ! 2 < zs ! 2" "\<not> zs ! 2 < ys ! 2"
    using nth_element_selects [OF less_strict_weak_order, of 0 2 5 "[9, 7, 3, 5, 0 :: int]"] by auto
  then show ?thesis
    by (intro exI [of _ ys] exI [of _ zs]) simp
qed

end
