(* ===== verification/Stl_Rotate.thy ===== *)
theory Stl_Rotate
  imports Stl_Sort
begin

text \<open>
  Algorithms of libstdc++ that move blocks of elements (\<^verbatim>\<open>c++/8.2.0/bits/stl_algobase.h\<close> and
  \<^verbatim>\<open>stl_algo.h\<close>): \<open>std::move\<close> on ranges, \<open>swap_ranges\<close>, \<open>reverse\<close> and \<open>rotate\<close>, each in
  the versions for the different kinds of iterators.

  The lemmas describe a container as \<open>pre @ s @ post\<close>, where \<open>s\<close> is the range that the
  algorithm works on, and give the container afterwards in the same form.
\<close>

section \<open>The algorithms\<close>

subsection \<open>Moving ranges\<close>

text \<open>\<open>std::move\<close> inside of a container, and from one container to another.\<close>

primrec move_loop :: "nat \<Rightarrow> nat \<Rightarrow> nat \<Rightarrow> 'a list \<Rightarrow> ('a list \<times> nat) option" where
  "move_loop 0 first result xs = Some (xs, result)"
| "move_loop (Suc n) first result xs = do {
     x \<leftarrow> aget xs first;
     xs \<leftarrow> aset result x xs;
     move_loop n (first + 1) (result + 1) xs }"

definition move_range :: "nat \<Rightarrow> nat \<Rightarrow> nat \<Rightarrow> 'a list \<Rightarrow> ('a list \<times> nat) option" where
  "move_range first lst result xs = move_loop (lst - first) first result xs"

primrec move_to_loop :: "nat \<Rightarrow> nat \<Rightarrow> nat \<Rightarrow> 'a list \<Rightarrow> 'a list \<Rightarrow> ('a list \<times> nat) option" where
  "move_to_loop 0 first result src dst = Some (dst, result)"
| "move_to_loop (Suc n) first result src dst = do {
     x \<leftarrow> aget src first;
     dst \<leftarrow> aset result x dst;
     move_to_loop n (first + 1) (result + 1) src dst }"

definition move_to :: "nat \<Rightarrow> nat \<Rightarrow> nat \<Rightarrow> 'a list \<Rightarrow> 'a list \<Rightarrow> ('a list \<times> nat) option" where
  "move_to first lst result src dst = move_to_loop (lst - first) first result src dst"

primrec move_backward_to_loop :: "nat \<Rightarrow> nat \<Rightarrow> nat \<Rightarrow> 'a list \<Rightarrow> 'a list \<Rightarrow> ('a list \<times> nat) option" where
  "move_backward_to_loop 0 lst result src dst = Some (dst, result)"
| "move_backward_to_loop (Suc n) lst result src dst =
     (if lst = 0 \<or> result = 0 then None else do {
        x \<leftarrow> aget src (lst - 1);
        dst \<leftarrow> aset (result - 1) x dst;
        move_backward_to_loop n (lst - 1) (result - 1) src dst })"

definition move_backward_to :: "nat \<Rightarrow> nat \<Rightarrow> nat \<Rightarrow> 'a list \<Rightarrow> 'a list \<Rightarrow> ('a list \<times> nat) option" where
  "move_backward_to first lst result src dst = move_backward_to_loop (lst - first) lst result src dst"

partial_function (option) swap_ranges :: "nat \<Rightarrow> nat \<Rightarrow> nat \<Rightarrow> 'a list \<Rightarrow> ('a list \<times> nat) option" where
  "swap_ranges first1 last1 first2 xs =
     (if first1 \<noteq> last1 then
        Option.bind (iter_swap first1 first2 xs) (\<lambda>xs. swap_ranges (first1 + 1) last1 (first2 + 1) xs)
      else Some (xs, first2))"

subsection \<open>Reversal\<close>

text \<open>For bidirectional and for random access iterators.\<close>

partial_function (option) reverse_bidirectional :: "nat \<Rightarrow> nat \<Rightarrow> 'a list \<Rightarrow> 'a list option" where
  "reverse_bidirectional first lst xs =
     (if first = lst then Some xs
      else if lst = 0 then None
      else if first = lst - 1 then Some xs
      else Option.bind (iter_swap first (lst - 1) xs) (\<lambda>xs. reverse_bidirectional (first + 1) (lst - 1) xs))"

partial_function (option) reverse_loop :: "nat \<Rightarrow> nat \<Rightarrow> 'a list \<Rightarrow> 'a list option" where
  "reverse_loop first lst xs =
     (if first < lst then
        Option.bind (iter_swap first lst xs) (\<lambda>xs. reverse_loop (first + 1) (lst - 1) xs)
      else Some xs)"

definition reverse_random :: "nat \<Rightarrow> nat \<Rightarrow> 'a list \<Rightarrow> 'a list option" where
  "reverse_random first lst xs = (if first = lst then Some xs else reverse_loop first (lst - 1) xs)"

subsection \<open>Rotation\<close>

primrec swap_up :: "nat \<Rightarrow> nat \<Rightarrow> nat \<Rightarrow> 'a list \<Rightarrow> 'a list option" where
  "swap_up 0 p q xs = Some xs"
| "swap_up (Suc n) p q xs = do { xs \<leftarrow> iter_swap p q xs; swap_up n (p + 1) (q + 1) xs }"

primrec swap_down :: "nat \<Rightarrow> nat \<Rightarrow> nat \<Rightarrow> 'a list \<Rightarrow> 'a list option" where
  "swap_down 0 p q xs = Some xs"
| "swap_down (Suc n) p q xs =
     (if p = 0 \<or> q = 0 then None
      else do { xs \<leftarrow> iter_swap (p - 1) (q - 1) xs; swap_down n (p - 1) (q - 1) xs })"

text \<open>
  The loop of \<open>__rotate\<close> for random access iterators: \<open>n\<close> elements from \<open>p\<close> on are still to be
  rotated by \<open>k\<close>. For elements of a plain data type a block of one element is moved instead.
\<close>

partial_function (option) rotate_loop :: "bool \<Rightarrow> nat \<Rightarrow> nat \<Rightarrow> nat \<Rightarrow> 'a list \<Rightarrow> 'a list option" where
  "rotate_loop is_pod p n k xs =
     (if k < n - k then
        (if is_pod \<and> k = 1 then
           Option.bind (aget xs p) (\<lambda>t.
             Option.bind (move_range (p + 1) (p + n) p xs) (\<lambda>(xs, r). aset (p + n - 1) t xs))
         else
           Option.bind (swap_up (n - k) p (p + k) xs) (\<lambda>xs.
             if n mod k = 0 then Some xs
             else rotate_loop is_pod (p + (n - k)) k (k - n mod k) xs))
      else
        (let k = n - k
         in if is_pod \<and> k = 1 then
              Option.bind (aget xs (p + n - 1)) (\<lambda>t.
                Option.bind (move_backward p (p + n - 1) (p + n) xs) (\<lambda>(xs, r). aset p t xs))
            else
              Option.bind (swap_down (n - k) (p + n - k) (p + n) xs) (\<lambda>xs.
                if n mod k = 0 then Some xs
                else rotate_loop is_pod (p + n - k - (n - k)) k (n mod k) xs)))"

definition rotate_random :: "bool \<Rightarrow> nat \<Rightarrow> nat \<Rightarrow> nat \<Rightarrow> 'a list \<Rightarrow> ('a list \<times> nat) option" where
  "rotate_random is_pod first middle lst xs =
     (if first = middle then Some (xs, lst)
      else if lst = middle then Some (xs, first)
      else do {
        let n = lst - first;
        let k = middle - first;
        if k = n - k then do {
          (xs, r) \<leftarrow> swap_ranges first middle middle xs;
          Some (xs, middle) }
        else do {
          let ret = first + (lst - middle);
          xs \<leftarrow> rotate_loop is_pod first n k xs;
          Some (xs, ret) } })"

text \<open>The version for bidirectional iterators, by three reversals, the last of which is done
  while one of the two blocks lasts.\<close>

partial_function (option) rotate_bidirectional_loop ::
  "nat \<Rightarrow> nat \<Rightarrow> nat \<Rightarrow> 'a list \<Rightarrow> ('a list \<times> nat \<times> nat) option" where
  "rotate_bidirectional_loop first middle lst xs =
     (if first \<noteq> middle \<and> middle \<noteq> lst then
        if lst = 0 then None
        else Option.bind (iter_swap first (lst - 1) xs) (\<lambda>xs. rotate_bidirectional_loop (first + 1) middle (lst - 1) xs)
      else Some (xs, first, lst))"

definition rotate_bidirectional :: "nat \<Rightarrow> nat \<Rightarrow> nat \<Rightarrow> 'a list \<Rightarrow> ('a list \<times> nat) option" where
  "rotate_bidirectional first middle lst xs =
     (if first = middle then Some (xs, lst)
      else if lst = middle then Some (xs, first)
      else do {
        xs \<leftarrow> reverse_bidirectional first middle xs;
        xs \<leftarrow> reverse_bidirectional middle lst xs;
        (xs, first, lst) \<leftarrow> rotate_bidirectional_loop first middle lst xs;
        if first = middle then do {
          xs \<leftarrow> reverse_bidirectional middle lst xs;
          Some (xs, lst) }
        else do {
          xs \<leftarrow> reverse_bidirectional first middle xs;
          Some (xs, first) } })"

section \<open>Correctness\<close>

lemma aget_append [simp]: "aget (as @ x # bs) (length as) = Some x"
  by (simp add: aget_def)

lemma aset_append [simp]: "aset (length as) y (as @ x # bs) = Some (as @ y # bs)"
  by (simp add: aset_def)

lemma iter_swap_append:
  "iter_swap (length as) (length as + Suc (length bs)) (as @ x # bs @ y # cs) = Some (as @ y # bs @ x # cs)"
  by (simp add: iter_swap_Some nth_append list_update_append)

text \<open>Moving a block over a gap leaves some elements behind.\<close>

lemma move_loop_block:
  "\<exists>J. length J = length A \<and>
    move_loop (length X) (length pre + length A) (length pre) (pre @ A @ X @ post) =
      Some (pre @ X @ J @ post, length pre + length X)"
proof (induction X arbitrary: pre A)
  case (Cons x X)
  show ?case
  proof (cases A)
    case Nil
    then show ?thesis
      using Cons.IH [where pre = "pre @ [x]" and A = "[]"] by simp
  next
    case gap: (Cons a A')
    have "aget (pre @ a # A' @ x # X @ post) (length pre + Suc (length A')) = Some x"
      using aget_append [of "pre @ a # A'"] by simp
    then show ?thesis
      using Cons.IH [where pre = "pre @ [x]" and A = "A' @ [x]"] gap by simp
  qed
qed auto

lemma move_backward_loop_block:
  "\<exists>J. length J = length A \<and>
    move_backward_loop (length X) (length pre + length X) (length pre + length X + length A) (pre @ X @ A @ post) =
      Some (pre @ J @ X @ post, length pre + length A)"
proof (induction X arbitrary: post A rule: rev_induct)
  case (snoc x X)
  have "aget (pre @ X @ x # A @ post) (length pre + length X) = Some x" for A
    using aget_append [of "pre @ X"] by simp
  moreover obtain A' z where A': "x # A = A' @ [z]" "length A' = length A"
    by (rule that [of "butlast (x # A)" "last (x # A)"]) (simp_all del: last.simps butlast.simps)
  moreover have "aset (length pre + length X + length A) x (pre @ X @ x # A @ post) = Some (pre @ X @ A' @ x # post)"
  proof -
    have "pre @ X @ x # A @ post = (pre @ X @ A') @ z # post"
      using arg_cong [OF A'(1), of "\<lambda>B. pre @ X @ B @ post"] by simp
    moreover have "length pre + length X + length A = length (pre @ X @ A')"
      using A'(2) by simp
    ultimately show ?thesis
      by (simp only: aset_append) simp
  qed
  ultimately show ?case
    using snoc.IH [where post = "x # post" and A = A'] by simp
qed auto

lemma move_to_loop_block:
  "length J = length X \<Longrightarrow>
    move_to_loop (length X) (length pre) (length pre') (pre @ X @ post) (pre' @ J @ post') =
      Some (pre' @ X @ post', length pre' + length X)"
proof (induction X arbitrary: pre pre' J)
  case (Cons x X)
  then obtain j J' where "J = j # J'" "length J' = length X"
    by (cases J) auto
  then show ?case
    using Cons.IH [where pre = "pre @ [x]" and pre' = "pre' @ [x]" and J = J'] by simp
qed simp

lemma move_backward_to_loop_block:
  "length J = length X \<Longrightarrow>
    move_backward_to_loop (length X) (length pre + length X) (length pre' + length X) (pre @ X @ post) (pre' @ J @ post') =
      Some (pre' @ X @ post', length pre')"
proof (induction X arbitrary: post post' J rule: rev_induct)
  case (snoc x X)
  then obtain j J' where J: "J = J' @ [j]" "length J' = length X"
    by (cases J rule: rev_cases) auto
  have "aget (pre @ X @ x # post) (length pre + length X) = Some x"
    using aget_append [of "pre @ X"] by simp
  moreover have "aset (length pre' + length X) x (pre' @ J' @ j # post') = Some (pre' @ J' @ x # post')"
    using aset_append [of "pre' @ J'"] J(2) by simp
  ultimately show ?case
    using snoc.IH [where post = "x # post" and post' = "x # post'" and J = J'] J by simp
qed simp

lemma swap_ranges_block:
  "length A = length B \<Longrightarrow>
    swap_ranges (length pre) (length pre + length A) (length pre + length A + length M) (pre @ A @ M @ B @ post) =
      Some (pre @ B @ M @ A @ post, length pre + length A + length M + length B)"
proof (induction A arbitrary: pre B M)
  case Nil
  then show ?case
    by (subst swap_ranges.simps) simp
next
  case (Cons a A)
  then obtain b B' where B: "B = b # B'" "length A = length B'"
    by (cases B) auto
  have "iter_swap (length pre) (length pre + (Suc (length A) + length M)) (pre @ a # A @ M @ b # B' @ post) =
      Some (pre @ b # A @ M @ a # B' @ post)"
    using iter_swap_append [of pre "A @ M"] by simp
  then show ?case
    using Cons.IH [where pre = "pre @ [b]" and B = B' and M = "M @ [a]"] B by (subst swap_ranges.simps) (simp add: add.assoc)
qed

subsection \<open>Reversal\<close>

lemma reverse_bidirectional_block:
  "reverse_bidirectional (length pre) (length pre + length s) (pre @ s @ post) = Some (pre @ rev s @ post)"
proof (induction s arbitrary: pre post rule: length_induct)
  case (1 s)
  consider "s = []" | x where "s = [x]" | x m y where "s = x # m @ [y]"
    by (cases s) (simp_all, metis rev_exhaust)
  then show ?case
  proof cases
    case 3
    then have "reverse_bidirectional (length (pre @ [y])) (length (pre @ [y]) + length m) ((pre @ [y]) @ m @ x # post) =
        Some ((pre @ [y]) @ rev m @ x # post)"
      using 1 by (metis length_Cons length_append_singleton less_Suc_eq)
    then show ?thesis
      using 3 iter_swap_append [of pre m x y post] by (subst reverse_bidirectional.simps) simp
  qed (subst reverse_bidirectional.simps, simp)+
qed

lemma reverse_loop_block:
  "s \<noteq> [] \<Longrightarrow> reverse_loop (length pre) (length pre + length s - 1) (pre @ s @ post) = Some (pre @ rev s @ post)"
proof (induction s arbitrary: pre post rule: length_induct)
  case (1 s)
  consider x where "s = [x]" | x y where "s = [x, y]" | x m y where "s = x # m @ [y]" "m \<noteq> []"
    using 1(2) by (cases s) (simp_all, metis append_Nil rev_exhaust)
  then show ?case
  proof cases
    case 1
    then show ?thesis
      by (subst reverse_loop.simps) simp
  next
    case 2
    then show ?thesis
      using iter_swap_append [of pre "[]" x y post] by (subst reverse_loop.simps, simp, subst reverse_loop.simps, simp)
  next
    case 3
    then have "reverse_loop (length (pre @ [y])) (length (pre @ [y]) + length m - 1) ((pre @ [y]) @ m @ x # post) =
        Some ((pre @ [y]) @ rev m @ x # post)"
      using 1 by (metis length_Cons length_append_singleton less_Suc_eq)
    then show ?thesis
      using 3 iter_swap_append [of pre m x y post] by (subst reverse_loop.simps) simp
  qed
qed

lemma reverse_random_block:
  "reverse_random (length pre) (length pre + length s) (pre @ s @ post) = Some (pre @ rev s @ post)"
  using reverse_loop_block [of s pre post] by (cases "s = []") (simp_all add: reverse_random_def)

subsection \<open>Rotation\<close>

lemma swap_up_block:
  "A \<noteq> [] \<Longrightarrow> swap_up (length X) (length pre) (length pre + length A) (pre @ A @ X @ post) =
    Some (pre @ X @ rotate (length X) A @ post)"
proof (induction X arbitrary: pre A)
  case (Cons x X)
  then obtain a A' where A: "A = a # A'"
    by (cases A) auto
  show ?case
    using Cons.IH [where pre = "pre @ [x]" and A = "A' @ [a]"] iter_swap_append [of pre A' a x "X @ post"]
    by (simp add: A rotate1_rotate_swap)
qed simp

lemma swap_down_block:
  "B \<noteq> [] \<Longrightarrow> \<exists>C. length C = length B \<and> rotate (length X) C = B \<and>
    swap_down (length X) (length pre + length X) (length pre + length X + length B) (pre @ X @ B @ post) =
      Some (pre @ C @ X @ post)"
proof (induction X arbitrary: B post rule: rev_induct)
  case (snoc x X)
  then obtain b B' where B: "B = B' @ [b]"
    by (cases B rule: rev_cases) auto
  obtain C where C: "length C = length (b # B')" "rotate (length X) C = b # B'"
    "swap_down (length X) (length pre + length X) (length pre + length X + length (b # B')) (pre @ X @ (b # B') @ x # post) =
      Some (pre @ C @ X @ x # post)"
    using snoc.IH [where B = "b # B'" and post = "x # post"] by auto
  then show ?case
    using iter_swap_append [of "pre @ X" B' x b post] B by (intro exI [of _ C]) simp
qed simp

lemma rotate_split: "rotate (length A) (A @ X) = X @ A"
  by (rule rotate_append)

lemma rotate_loop_correct:
  assumes "0 < k" "k < n" "length s = n"
  shows "rotate_loop is_pod (length pre) n k (pre @ s @ post) = Some (pre @ rotate k s @ post)"
  using assms
proof (induction n arbitrary: s k pre post rule: less_induct)
  case (less n)
  show ?case
  proof (cases "k < n - k")
    case True
    define A X where "A = take k s" and "X = drop k s"
    have s: "s = A @ X" "length A = k" "length X = n - k" "A \<noteq> []"
      using less.prems by (auto simp: A_def X_def)
    have goal: "rotate k s = X @ A"
      using rotate_split [of A X] by (simp add: s)
    show ?thesis
    proof (cases "is_pod \<and> k = 1")
      case one: True
      then obtain a where a: "A = [a]"
        using s(2) by (cases A) auto
      obtain J where J: "length J = 1" "move_loop (length X) (length pre + 1) (length pre) (pre @ a # X @ post) =
          Some (pre @ X @ J @ post, length pre + length X)"
        using move_loop_block [of "[a]" X pre post] by auto
      then obtain j where "J = [j]"
        by (cases J) auto
      then show ?thesis
        using J True one a s goal aset_append [of "pre @ X" a j post] aget_append [of pre a "X @ post"]
        by (subst rotate_loop.simps) (simp add: move_range_def)
    next
      case False
      let ?A = "rotate (n - k) A"
      have up: "swap_up (n - k) (length pre) (length pre + k) (pre @ s @ post) = Some (pre @ X @ ?A @ post)"
        using swap_up_block [OF s(4), of X pre post] s by simp
      show ?thesis
      proof (cases "n mod k = 0")
        case dvd: True
        then have "(n - k) mod length A = 0"
          using s(2) less.prems le_mod_geq [of k n] by simp
        then have "?A = A"
          by (rule rotate_id)
        then show ?thesis
          using up dvd True False goal by (subst rotate_loop.simps) auto
      next
        case rest: False
        have "(k - n mod k + (n - k)) mod k = 0"
        proof -
          have "n mod k < k" "n mod k \<le> n"
            using less.prems(1) by simp_all
          then have "k - n mod k + (n - k) = n - n mod k"
            using less.prems by linarith
          then show ?thesis
            by (simp add: minus_mod_eq_mult_div)
        qed
        then have "rotate (k - n mod k) ?A = A"
          using rotate_id [of "k - n mod k + (n - k)" A] s(2) by (simp add: rotate_rotate)
        moreover have "rotate_loop is_pod (length (pre @ X)) k (k - n mod k) ((pre @ X) @ ?A @ post) =
            Some ((pre @ X) @ rotate (k - n mod k) ?A @ post)"
          using less.IH [of k "k - n mod k" ?A "pre @ X" post] s(2) less.prems rest by simp
        ultimately show ?thesis
          using up rest True False goal s(2,3) by (subst rotate_loop.simps) auto
      qed
    qed
  next
    case ge: False
    let ?k = "n - k"
    define X B where "X = take k s" and "B = drop k s"
    have s: "s = X @ B" "length X = k" "length B = ?k" "B \<noteq> []" "n - ?k = k" "?k < n" "0 < ?k"
      using less.prems by (auto simp: X_def B_def)
    have goal: "rotate k s = B @ X"
      using rotate_split [of X B] by (simp add: s)
    show ?thesis
    proof (cases "is_pod \<and> ?k = 1")
      case one: True
      then obtain b where b: "B = [b]"
        using s(3) by (cases B) auto
      obtain J where J: "length J = 1" "move_backward_loop (length X) (length pre + length X) (length pre + length X + 1)
          (pre @ X @ b # post) = Some (pre @ J @ X @ post, length pre + 1)"
        using move_backward_loop_block [of "[b]" X pre post] by auto
      then obtain j where "J = [j]"
        by (cases J) auto
      moreover have "n = Suc k"
        using s(3,6) less.prems(2) b by simp
      ultimately show ?thesis
        using J ge one b s goal aget_append [of "pre @ X" b post]
        by (subst rotate_loop.simps) (simp add: move_backward_def Let_def)
    next
      case False
      obtain C where C: "length C = ?k" "rotate k C = B"
        "swap_down k (length pre + k) (length pre + n) (pre @ s @ post) = Some (pre @ C @ X @ post)"
        using swap_down_block [OF s(4), of X pre post] s(1-3,6) less.prems(2) by auto
      have pos: "length pre + n - ?k = length pre + k" "length pre + n - ?k - k = length pre"
        using less.prems by linarith+
      have mod: "k mod ?k = n mod ?k"
        using s(5,6) by (metis le_mod_geq less_imp_le)
      show ?thesis
      proof (cases "n mod ?k = 0")
        case dvd: True
        then have "C = B"
          using C rotate_id [of k C] mod by simp
        then show ?thesis
          using C(3) pos dvd False ge goal s(5) by (subst rotate_loop.simps) (auto simp: Let_def)
      next
        case rest: False
        have "rotate (n mod ?k) C = B"
          using C(1,2) mod rotate_conv_mod [of k C] by simp
        moreover have "rotate_loop is_pod (length pre) ?k (n mod ?k) (pre @ C @ X @ post) =
            Some (pre @ rotate (n mod ?k) C @ X @ post)"
          using less.IH [of ?k "n mod ?k" C pre "X @ post"] C(1) s(6,7) rest by simp
        ultimately show ?thesis
          using C(1,3) pos rest False ge goal s(5) by (subst rotate_loop.simps) (auto simp: Let_def)
      qed
    qed
  qed
qed

lemma rotate_random_correct:
  "rotate_random is_pod (length pre) (length pre + length A) (length pre + length A + length B) (pre @ A @ B @ post) =
     Some (pre @ B @ A @ post, length pre + length B)"
proof -
  consider "A = []" | "B = []" | "A \<noteq> []" "B \<noteq> []" "length A = length B" | "A \<noteq> []" "B \<noteq> []" "length A \<noteq> length B"
    by blast
  then show ?thesis
  proof cases
    case 3
    then show ?thesis
      using swap_ranges_block [of A B pre "[]" post] by (simp add: rotate_random_def)
  next
    case 4
    then show ?thesis
      using rotate_loop_correct [of "length A" "length A + length B" "A @ B" is_pod pre post] rotate_split [of A B]
      by (simp add: rotate_random_def add.assoc)
  qed (simp_all add: rotate_random_def)
qed

text \<open>The version by reversals: the longer block is left reversed by the loop and is reversed
  once more.\<close>

lemma rotate_bidirectional_loop_block:
  "rotate_bidirectional_loop (length pre) (length pre + length A) (length pre + length A + length B) (pre @ A @ B @ post) =
    (let m = min (length A) (length B)
     in Some (pre @ rev (drop (length B - m) B) @ drop m A @ take (length B - m) B @ rev (take m A) @ post,
          length pre + m, length pre + length A + length B - m))"
proof (induction A arbitrary: B pre post)
  case Nil
  then show ?case
    by (subst rotate_bidirectional_loop.simps) simp
next
  case (Cons a A)
  show ?case
  proof (cases B rule: rev_cases)
    case Nil
    then show ?thesis
      by (subst rotate_bidirectional_loop.simps) simp
  next
    case (snoc B' b)
    have "iter_swap (length pre) (length pre + length (a # A) + length B - 1) (pre @ (a # A) @ B @ post) =
        Some (pre @ b # A @ B' @ a # post)"
      using iter_swap_append [of pre "A @ B'" a b post] snoc by (simp add: add.assoc)
    then show ?thesis
      using Cons.IH [where pre = "pre @ [b]" and B = B' and post = "a # post"] snoc
      by (subst rotate_bidirectional_loop.simps) (simp add: Let_def add.assoc)
  qed
qed

lemma rotate_bidirectional_correct:
  "rotate_bidirectional (length pre) (length pre + length A) (length pre + length A + length B) (pre @ A @ B @ post) =
     Some (pre @ B @ A @ post, length pre + length B)"
proof -
  consider "A = []" | "B = []" | "A \<noteq> []" "B \<noteq> []" "length A \<le> length B" | "A \<noteq> []" "B \<noteq> []" "length B < length A"
    by linarith
  then show ?thesis
  proof cases
    case 3
    have *: "reverse_bidirectional (length pre) (length pre + length A) (pre @ A @ B @ post) = Some (pre @ rev A @ B @ post)"
      "reverse_bidirectional (length pre + length A) (length pre + length A + length B) (pre @ rev A @ B @ post) =
        Some (pre @ rev A @ rev B @ post)"
      using reverse_bidirectional_block [of pre A "B @ post"] reverse_bidirectional_block [of "pre @ rev A" B post]
      by (simp_all add: add.assoc)
    have "rev (drop (length B - length A) (rev B)) = take (length A) B" "take (length B - length A) (rev B) = rev (drop (length A) B)"
      using 3 by (simp add: rev_drop, simp add: take_rev)
    moreover have "reverse_bidirectional (length pre + length A) (length pre + length B)
        (pre @ take (length A) B @ rev (drop (length A) B) @ A @ post) =
        Some (pre @ take (length A) B @ drop (length A) B @ A @ post)"
      using reverse_bidirectional_block [of "pre @ take (length A) B" "rev (drop (length A) B)" "A @ post"] 3 by simp
    ultimately show ?thesis
      using 3 rotate_bidirectional_loop_block [of pre "rev A" "rev B" post] *
      by (simp add: rotate_bidirectional_def min_def Let_def)
  next
    case 4
    have *: "reverse_bidirectional (length pre) (length pre + length A) (pre @ A @ B @ post) = Some (pre @ rev A @ B @ post)"
      "reverse_bidirectional (length pre + length A) (length pre + length A + length B) (pre @ rev A @ B @ post) =
        Some (pre @ rev A @ rev B @ post)"
      using reverse_bidirectional_block [of pre A "B @ post"] reverse_bidirectional_block [of "pre @ rev A" B post]
      by (simp_all add: add.assoc)
    have AA: "take (length A - length B) A @ drop (length A - length B) A @ post = A @ post"
      by (metis append_assoc append_take_drop_id)
    have "drop (length B) (rev A) = rev (take (length A - length B) A)" "rev (take (length B) (rev A)) = drop (length A - length B) A"
      using 4 by (simp add: drop_rev, simp add: rev_take)
    moreover have "reverse_bidirectional (length pre + length B) (length pre + length A)
        (pre @ B @ rev (take (length A - length B) A) @ drop (length A - length B) A @ post) =
        Some (pre @ B @ A @ post)"
      using reverse_bidirectional_block [of "pre @ B" "rev (take (length A - length B) A)" "drop (length A - length B) A @ post"] 4 AA by simp
    ultimately show ?thesis
      using 4 rotate_bidirectional_loop_block [of pre "rev A" "rev B" post] *
      by (simp add: rotate_bidirectional_def min_def Let_def)
  qed (simp_all add: rotate_bidirectional_def)
qed

section \<open>Properties\<close>

text \<open>
  C18. The two rotations of libstdc++, the one for random access iterators (cycles of swaps that
  shrink like in the Euclidean algorithm, with a special case for blocks of one plain element)
  and the one for bidirectional iterators (by reversals), both exchange the two blocks of the
  range, whatever their lengths, return the new position of the first element, and touch nothing
  else; and the two reversals both reverse the range.
\<close>

theorem rotations_agree:
  "rotate_random is_pod (length pre) (length pre + length A) (length pre + length A + length B) (pre @ A @ B @ post) =
     Some (pre @ B @ A @ post, length pre + length B) \<and>
   rotate_bidirectional (length pre) (length pre + length A) (length pre + length A + length B) (pre @ A @ B @ post) =
     Some (pre @ B @ A @ post, length pre + length B) \<and>
   reverse_random (length pre) (length pre + length A) (pre @ A @ post) = Some (pre @ rev A @ post) \<and>
   reverse_bidirectional (length pre) (length pre + length A) (pre @ A @ post) = Some (pre @ rev A @ post)"
  by (intro conjI rotate_random_correct rotate_bidirectional_correct reverse_random_block reverse_bidirectional_block)

end
