(* ===== verification/Stl_Search.thy ===== *)
theory Stl_Search
  imports Stl_Sort
begin

text \<open>
  Searching algorithms of libstdc++ (\<^verbatim>\<open>c++/8.2.0/bits/stl_algobase.h\<close> and \<^verbatim>\<open>stl_algo.h\<close>): the
  binary searches \<open>partition_point\<close>, \<open>lower_bound\<close>, \<open>upper_bound\<close>, \<open>equal_range\<close> and
  \<open>binary_search\<close>, the linear searches with the unrolled loop for random access iterators,
  \<open>is_sorted_until\<close> and the algorithms that find smallest and largest elements.

  The three binary searches are the same loop with three predicates, so that one lemma on
  \<open>partition_point\<close> carries them.
\<close>

section \<open>Binary searches\<close>

function partition_point_loop :: "('a \<Rightarrow> bool) \<Rightarrow> nat \<Rightarrow> nat \<Rightarrow> 'a list \<Rightarrow> nat option" where
  "partition_point_loop pred first len xs =
     (if len > 0 then do {
        let half = len div 2;
        let middle = first + half;
        m \<leftarrow> aget xs middle;
        if pred m then partition_point_loop pred (middle + 1) (len - half - 1) xs
        else partition_point_loop pred first half xs }
      else Some first)"
  by pat_completeness auto

termination partition_point_loop
  by (relation "measure (\<lambda>(pred, first, len, xs). len)") auto

declare partition_point_loop.simps [simp del]

definition partition_point :: "('a \<Rightarrow> bool) \<Rightarrow> nat \<Rightarrow> nat \<Rightarrow> 'a list \<Rightarrow> nat option" where
  "partition_point pred first lst xs = partition_point_loop pred first (lst - first) xs"

function lower_bound_loop :: "('a \<Rightarrow> 'b \<Rightarrow> bool) \<Rightarrow> nat \<Rightarrow> nat \<Rightarrow> 'b \<Rightarrow> 'a list \<Rightarrow> nat option" where
  "lower_bound_loop cmp first len val xs =
     (if len > 0 then do {
        let half = len div 2;
        let middle = first + half;
        m \<leftarrow> aget xs middle;
        if cmp m val then lower_bound_loop cmp (middle + 1) (len - half - 1) val xs
        else lower_bound_loop cmp first half val xs }
      else Some first)"
  by pat_completeness auto

termination lower_bound_loop
  by (relation "measure (\<lambda>(cmp, first, len, val, xs). len)") auto

declare lower_bound_loop.simps [simp del]

definition lower_bound :: "('a \<Rightarrow> 'b \<Rightarrow> bool) \<Rightarrow> nat \<Rightarrow> nat \<Rightarrow> 'b \<Rightarrow> 'a list \<Rightarrow> nat option" where
  "lower_bound cmp first lst val xs = lower_bound_loop cmp first (lst - first) val xs"

function upper_bound_loop :: "('b \<Rightarrow> 'a \<Rightarrow> bool) \<Rightarrow> nat \<Rightarrow> nat \<Rightarrow> 'b \<Rightarrow> 'a list \<Rightarrow> nat option" where
  "upper_bound_loop cmp first len val xs =
     (if len > 0 then do {
        let half = len div 2;
        let middle = first + half;
        m \<leftarrow> aget xs middle;
        if cmp val m then upper_bound_loop cmp first half val xs
        else upper_bound_loop cmp (middle + 1) (len - half - 1) val xs }
      else Some first)"
  by pat_completeness auto

termination upper_bound_loop
  by (relation "measure (\<lambda>(cmp, first, len, val, xs). len)") auto

declare upper_bound_loop.simps [simp del]

definition upper_bound :: "('b \<Rightarrow> 'a \<Rightarrow> bool) \<Rightarrow> nat \<Rightarrow> nat \<Rightarrow> 'b \<Rightarrow> 'a list \<Rightarrow> nat option" where
  "upper_bound cmp first lst val xs = upper_bound_loop cmp first (lst - first) val xs"

function equal_range_loop ::
  "('a \<Rightarrow> 'b \<Rightarrow> bool) \<Rightarrow> ('b \<Rightarrow> 'a \<Rightarrow> bool) \<Rightarrow> nat \<Rightarrow> nat \<Rightarrow> 'b \<Rightarrow> 'a list \<Rightarrow> (nat \<times> nat) option" where
  "equal_range_loop comp_it_val comp_val_it first len val xs =
     (if len > 0 then do {
        let half = len div 2;
        let middle = first + half;
        m \<leftarrow> aget xs middle;
        if comp_it_val m val then equal_range_loop comp_it_val comp_val_it (middle + 1) (len - half - 1) val xs
        else if comp_val_it val m then equal_range_loop comp_it_val comp_val_it first half val xs
        else do {
          left \<leftarrow> lower_bound comp_it_val first middle val xs;
          right \<leftarrow> upper_bound comp_val_it (middle + 1) (first + len) val xs;
          Some (left, right) } }
      else Some (first, first))"
  by pat_completeness auto

termination equal_range_loop
  by (relation "measure (\<lambda>(comp_it_val, comp_val_it, first, len, val, xs). len)") auto

declare equal_range_loop.simps [simp del]

definition equal_range :: "('a \<Rightarrow> 'a \<Rightarrow> bool) \<Rightarrow> nat \<Rightarrow> nat \<Rightarrow> 'a \<Rightarrow> 'a list \<Rightarrow> (nat \<times> nat) option" where
  "equal_range cmp first lst val xs = equal_range_loop cmp cmp first (lst - first) val xs"

definition binary_search :: "('a \<Rightarrow> 'a \<Rightarrow> bool) \<Rightarrow> nat \<Rightarrow> nat \<Rightarrow> 'a \<Rightarrow> 'a list \<Rightarrow> bool option" where
  "binary_search cmp first lst val xs = do {
     i \<leftarrow> lower_bound cmp first lst val xs;
     if i \<noteq> lst then do { x \<leftarrow> aget xs i; Some (\<not> cmp val x) } else Some False }"

section \<open>Linear searches\<close>

text \<open>The loop for input iterators, and the one for random access iterators, four elements a round.\<close>

partial_function (option) find_if_input :: "('a \<Rightarrow> bool) \<Rightarrow> nat \<Rightarrow> nat \<Rightarrow> 'a list \<Rightarrow> nat option" where
  "find_if_input pred first lst xs =
     (if first \<noteq> lst then
        Option.bind (aget xs first) (\<lambda>x. if \<not> pred x then find_if_input pred (first + 1) lst xs else Some first)
      else Some first)"

definition find_if_switch :: "('a \<Rightarrow> bool) \<Rightarrow> nat \<Rightarrow> nat \<Rightarrow> 'a list \<Rightarrow> nat option" where
  "find_if_switch pred first lst xs = (
     let case1 = (\<lambda>first. do { x \<leftarrow> aget xs first; if pred x then Some first else Some lst });
         case2 = (\<lambda>first. do { x \<leftarrow> aget xs first; if pred x then Some first else case1 (first + 1) });
         case3 = (\<lambda>first. do { x \<leftarrow> aget xs first; if pred x then Some first else case2 (first + 1) })
     in if lst - first = 3 then case3 first
        else if lst - first = 2 then case2 first
        else if lst - first = 1 then case1 first
        else Some lst)"

primrec find_if_rounds :: "('a \<Rightarrow> bool) \<Rightarrow> nat \<Rightarrow> nat \<Rightarrow> nat \<Rightarrow> 'a list \<Rightarrow> nat option" where
  "find_if_rounds pred 0 first lst xs = find_if_switch pred first lst xs"
| "find_if_rounds pred (Suc trip_count) first lst xs = do {
     x \<leftarrow> aget xs first;
     if pred x then Some first else do {
     x \<leftarrow> aget xs (first + 1);
     if pred x then Some (first + 1) else do {
     x \<leftarrow> aget xs (first + 2);
     if pred x then Some (first + 2) else do {
     x \<leftarrow> aget xs (first + 3);
     if pred x then Some (first + 3)
     else find_if_rounds pred trip_count (first + 4) lst xs } } } }"

definition find_if :: "('a \<Rightarrow> bool) \<Rightarrow> nat \<Rightarrow> nat \<Rightarrow> 'a list \<Rightarrow> nat option" where
  "find_if pred first lst xs = find_if_rounds pred ((lst - first) div 4) first lst xs"

definition find_if_not :: "('a \<Rightarrow> bool) \<Rightarrow> nat \<Rightarrow> nat \<Rightarrow> 'a list \<Rightarrow> nat option" where
  "find_if_not pred first lst xs = find_if (\<lambda>x. \<not> pred x) first lst xs"

definition all_of :: "('a \<Rightarrow> bool) \<Rightarrow> nat \<Rightarrow> nat \<Rightarrow> 'a list \<Rightarrow> bool option" where
  "all_of pred first lst xs = do { i \<leftarrow> find_if_not pred first lst xs; Some (lst = i) }"

definition none_of :: "('a \<Rightarrow> bool) \<Rightarrow> nat \<Rightarrow> nat \<Rightarrow> 'a list \<Rightarrow> bool option" where
  "none_of pred first lst xs = do { i \<leftarrow> find_if pred first lst xs; Some (lst = i) }"

definition any_of :: "('a \<Rightarrow> bool) \<Rightarrow> nat \<Rightarrow> nat \<Rightarrow> 'a list \<Rightarrow> bool option" where
  "any_of pred first lst xs = do { b \<leftarrow> none_of pred first lst xs; Some (\<not> b) }"

definition is_partitioned :: "('a \<Rightarrow> bool) \<Rightarrow> nat \<Rightarrow> nat \<Rightarrow> 'a list \<Rightarrow> bool option" where
  "is_partitioned pred first lst xs = do {
     first \<leftarrow> find_if_not pred first lst xs;
     if first = lst then Some True else none_of pred (first + 1) lst xs }"

partial_function (option) is_sorted_until_loop ::
  "('a \<Rightarrow> 'a \<Rightarrow> bool) \<Rightarrow> nat \<Rightarrow> nat \<Rightarrow> nat \<Rightarrow> 'a list \<Rightarrow> nat option" where
  "is_sorted_until_loop cmp first next lst xs =
     (if next \<noteq> lst then
        Option.bind (icmp cmp xs next first) (\<lambda>b.
          if b then Some next else is_sorted_until_loop cmp next (next + 1) lst xs)
      else Some next)"

definition is_sorted_until :: "('a \<Rightarrow> 'a \<Rightarrow> bool) \<Rightarrow> nat \<Rightarrow> nat \<Rightarrow> 'a list \<Rightarrow> nat option" where
  "is_sorted_until cmp first lst xs =
     (if first = lst then Some lst else is_sorted_until_loop cmp first (first + 1) lst xs)"

definition is_sorted :: "('a \<Rightarrow> 'a \<Rightarrow> bool) \<Rightarrow> nat \<Rightarrow> nat \<Rightarrow> 'a list \<Rightarrow> bool option" where
  "is_sorted cmp first lst xs = do { i \<leftarrow> is_sorted_until cmp first lst xs; Some (i = lst) }"

section \<open>Smallest and largest elements\<close>

partial_function (option) min_element_loop ::
  "('a \<Rightarrow> 'a \<Rightarrow> bool) \<Rightarrow> nat \<Rightarrow> nat \<Rightarrow> nat \<Rightarrow> 'a list \<Rightarrow> nat option" where
  "min_element_loop cmp result first lst xs =
     (if first + 1 \<noteq> lst then
        Option.bind (icmp cmp xs (first + 1) result) (\<lambda>b.
          min_element_loop cmp (if b then first + 1 else result) (first + 1) lst xs)
      else Some result)"

definition min_element :: "('a \<Rightarrow> 'a \<Rightarrow> bool) \<Rightarrow> nat \<Rightarrow> nat \<Rightarrow> 'a list \<Rightarrow> nat option" where
  "min_element cmp first lst xs = (if first = lst then Some first else min_element_loop cmp first first lst xs)"

partial_function (option) max_element_loop ::
  "('a \<Rightarrow> 'a \<Rightarrow> bool) \<Rightarrow> nat \<Rightarrow> nat \<Rightarrow> nat \<Rightarrow> 'a list \<Rightarrow> nat option" where
  "max_element_loop cmp result first lst xs =
     (if first + 1 \<noteq> lst then
        Option.bind (icmp cmp xs result (first + 1)) (\<lambda>b.
          max_element_loop cmp (if b then first + 1 else result) (first + 1) lst xs)
      else Some result)"

definition max_element :: "('a \<Rightarrow> 'a \<Rightarrow> bool) \<Rightarrow> nat \<Rightarrow> nat \<Rightarrow> 'a list \<Rightarrow> nat option" where
  "max_element cmp first lst xs = (if first = lst then Some first else max_element_loop cmp first first lst xs)"

text \<open>One round of the loop of \<open>__minmax_element\<close> takes two elements, with three comparisons.\<close>

partial_function (option) minmax_element_loop ::
  "('a \<Rightarrow> 'a \<Rightarrow> bool) \<Rightarrow> nat \<Rightarrow> nat \<Rightarrow> nat \<Rightarrow> nat \<Rightarrow> 'a list \<Rightarrow> (nat \<times> nat) option" where
  "minmax_element_loop cmp mn mx first lst xs =
     (if first \<noteq> lst then
        if first + 1 = lst then
          Option.bind (icmp cmp xs first mn) (\<lambda>b.
            if b then Some (first, mx)
            else Option.bind (icmp cmp xs first mx) (\<lambda>c. Some (mn, if \<not> c then first else mx)))
        else
          Option.bind (icmp cmp xs (first + 1) first) (\<lambda>swapped.
            let small = (if swapped then first + 1 else first);
                large = (if swapped then first else first + 1)
            in Option.bind (icmp cmp xs small mn) (\<lambda>b.
                 Option.bind (icmp cmp xs large mx) (\<lambda>c.
                   minmax_element_loop cmp (if b then small else mn) (if \<not> c then large else mx) (first + 2) lst xs)))
      else Some (mn, mx))"

definition minmax_element :: "('a \<Rightarrow> 'a \<Rightarrow> bool) \<Rightarrow> nat \<Rightarrow> nat \<Rightarrow> 'a list \<Rightarrow> (nat \<times> nat) option" where
  "minmax_element cmp first lst xs =
     (if first = lst \<or> first + 1 = lst then Some (first, first)
      else do {
        b \<leftarrow> icmp cmp xs (first + 1) first;
        let (mn, mx) = (if b then (first + 1, first) else (first, first + 1));
        minmax_element_loop cmp mn mx (first + 2) lst xs })"

section \<open>Correctness of the binary searches\<close>

lemma lower_bound_loop_eq: "lower_bound_loop cmp f n v xs = partition_point_loop (\<lambda>x. cmp x v) f n xs"
proof (induction cmp f n v xs rule: lower_bound_loop.induct)
  case (1 cmp f n v xs)
  then show ?case
    by (subst lower_bound_loop.simps, subst partition_point_loop.simps)
      (cases "aget xs (f + n div 2)", simp_all add: Let_def)
qed

lemma upper_bound_loop_eq: "upper_bound_loop cmp f n v xs = partition_point_loop (\<lambda>x. \<not> cmp v x) f n xs"
proof (induction cmp f n v xs rule: upper_bound_loop.induct)
  case (1 cmp f n v xs)
  then show ?case
    by (subst upper_bound_loop.simps, subst partition_point_loop.simps)
      (cases "aget xs (f + n div 2)", simp_all add: Let_def)
qed

text \<open>\<open>r\<close> is where the elements with the property end.\<close>

definition splits :: "('a \<Rightarrow> bool) \<Rightarrow> nat \<Rightarrow> nat \<Rightarrow> 'a list \<Rightarrow> nat \<Rightarrow> bool" where
  "splits P f l xs r \<longleftrightarrow> f \<le> r \<and> r \<le> l \<and> (\<forall>i. f \<le> i \<and> i < r \<longrightarrow> P (xs ! i)) \<and> (\<forall>i. r \<le> i \<and> i < l \<longrightarrow> \<not> P (xs ! i))"

definition partitioned :: "('a \<Rightarrow> bool) \<Rightarrow> nat \<Rightarrow> nat \<Rightarrow> 'a list \<Rightarrow> bool" where
  "partitioned P f l xs \<longleftrightarrow> (\<forall>i j. f \<le> i \<and> i < j \<and> j < l \<and> P (xs ! j) \<longrightarrow> P (xs ! i))"

lemma splits_iff: "splits P f l xs r \<Longrightarrow> f \<le> i \<Longrightarrow> i < l \<Longrightarrow> P (xs ! i) \<longleftrightarrow> i < r"
  unfolding splits_def by (meson not_le)

lemma splits_unique: "splits P f l xs r \<Longrightarrow> splits P f l xs s \<Longrightarrow> r = s"
  unfolding splits_def by (metis le_less_trans linorder_neqE_nat order.strict_trans2 le_refl)

lemma partitioned_sub: "partitioned P f l xs \<Longrightarrow> f \<le> f' \<Longrightarrow> l' \<le> l \<Longrightarrow> partitioned P f' l' xs"
  unfolding partitioned_def by (meson le_trans order.strict_trans2)

lemma splits_extend:
  assumes "splits P f' l' xs r" "f \<le> f'" "l' \<le> l"
    and "\<And>i. f \<le> i \<Longrightarrow> i < f' \<Longrightarrow> P (xs ! i)" and "\<And>i. l' \<le> i \<Longrightarrow> i < l \<Longrightarrow> \<not> P (xs ! i)"
  shows "splits P f l xs r"
proof -
  have "P (xs ! i)" if "f \<le> i" "i < r" for i
    using that assms(1,4) by (cases "i < f'") (auto simp: splits_def)
  moreover have "\<not> P (xs ! i)" if "r \<le> i" "i < l" for i
    using that assms(1,5) by (cases "i < l'") (auto simp: splits_def)
  ultimately show ?thesis
    using assms(1-3) by (auto simp: splits_def)
qed

lemma partition_point_loop_correct:
  assumes "f + n \<le> length xs" "partitioned P f (f + n) xs"
  shows "\<exists>r. partition_point_loop P f n xs = Some r \<and> splits P f (f + n) xs r"
  using assms
proof (induction n arbitrary: f rule: less_induct)
  case (less n)
  show ?case
  proof (cases "n = 0")
    case True
    then show ?thesis
      by (auto simp: partition_point_loop.simps splits_def)
  next
    case False
    let ?h = "n div 2"
    let ?m = "f + ?h"
    have m: "?m < length xs" "?h < n" "n - ?h - 1 < n" "?m + 1 + (n - ?h - 1) = f + n"
      using False less.prems(1) by linarith+
    have mono: "P (xs ! i)" if "f \<le> i" "i < j" "j < f + n" "P (xs ! j)" for i j
      using less.prems(2) that by (auto simp: partitioned_def)
    show ?thesis
    proof (cases "P (xs ! ?m)")
      case True
      obtain r where r: "partition_point_loop P (?m + 1) (n - ?h - 1) xs = Some r" "splits P (?m + 1) (f + n) xs r"
        using less.IH [OF m(3), of "?m + 1"] partitioned_sub [OF less.prems(2)] less.prems(1) m(4) by auto
      have "P (xs ! i)" if "f \<le> i" "i < ?m + 1" for i
        using that True mono [of i ?m] m(2) by (cases "i = ?m") auto
      then have "splits P f (f + n) xs r"
        by (intro splits_extend [OF r(2)]) auto
      then show ?thesis
        using r(1) True m(1) False by (subst partition_point_loop.simps) (simp add: Let_def)
    next
      case no: False
      obtain r where r: "partition_point_loop P f ?h xs = Some r" "splits P f ?m xs r"
        using less.IH [OF m(2), of f] partitioned_sub [OF less.prems(2)] less.prems(1) m(2) by auto
      have "\<not> P (xs ! i)" if "?m \<le> i" "i < f + n" for i
        using that no mono [of ?m i] by (cases "i = ?m") auto
      then have "splits P f (f + n) xs r"
        using m(2) by (intro splits_extend [OF r(2)]) auto
      then show ?thesis
        using r(1) no m(1) False by (subst partition_point_loop.simps) (simp add: Let_def)
    qed
  qed
qed

lemma partition_point_correct:
  assumes "f \<le> l" "l \<le> length xs" "partitioned P f l xs"
  shows "\<exists>r. partition_point P f l xs = Some r \<and> splits P f l xs r"
  using partition_point_loop_correct [of f "l - f" xs P] assms by (simp add: partition_point_def)

lemma lower_bound_eq: "lower_bound cmp f l v xs = partition_point (\<lambda>x. cmp x v) f l xs"
  by (simp add: lower_bound_def partition_point_def lower_bound_loop_eq)

lemma upper_bound_eq: "upper_bound cmp f l v xs = partition_point (\<lambda>x. \<not> cmp v x) f l xs"
  by (simp add: upper_bound_def partition_point_def upper_bound_loop_eq)

context strict_weak_order
begin

lemma sorted_partitioned:
  assumes "sorted_range lt f l xs" "f \<le> f'" "l' \<le> l"
  shows "partitioned (\<lambda>x. lt x v) f' l' xs" and "partitioned (\<lambda>x. \<not> lt v x) f' l' xs"
proof -
  have *: "\<not> lt (xs ! j) (xs ! i)" if "f' \<le> i" "i < j" "j < l'" for i j
    using assms that by (simp add: sorted_range_def)
  show "partitioned (\<lambda>x. lt x v) f' l' xs"
    using le_lt_trans [OF *] by (auto simp: partitioned_def)
  show "partitioned (\<lambda>x. \<not> lt v x) f' l' xs"
    using neg_trans [OF _ *] by (auto simp: partitioned_def)
qed

lemma bounds_correct:
  assumes "sorted_range lt f l xs" "f \<le> f'" "f' \<le> l'" "l' \<le> l" "l \<le> length xs"
  shows "\<exists>r. lower_bound lt f' l' v xs = Some r \<and> splits (\<lambda>x. lt x v) f' l' xs r"
    and "\<exists>r. upper_bound lt f' l' v xs = Some r \<and> splits (\<lambda>x. \<not> lt v x) f' l' xs r"
  using partition_point_correct [of f' l' xs] sorted_partitioned [OF assms(1,2,4)] assms
  by (simp_all add: lower_bound_eq upper_bound_eq)

lemma equal_range_loop_correct:
  assumes "sorted_range lt f l xs" "l \<le> length xs" "f \<le> f'" "f' + n \<le> l"
    and "\<And>i. f \<le> i \<Longrightarrow> i < f' \<Longrightarrow> lt (xs ! i) v" and "\<And>i. f' + n \<le> i \<Longrightarrow> i < l \<Longrightarrow> lt v (xs ! i)"
  shows "\<exists>a b. equal_range_loop lt lt f' n v xs = Some (a, b) \<and>
    splits (\<lambda>x. lt x v) f l xs a \<and> splits (\<lambda>x. \<not> lt v x) f l xs b"
  using assms(3-6)
proof (induction n arbitrary: f' rule: less_induct)
  case (less n)
  show ?case
  proof (cases "n = 0")
    case True
    then show ?thesis
      using less.prems asym by (subst equal_range_loop.simps) (auto simp: splits_def)
  next
    case False
    let ?h = "n div 2"
    let ?m = "f' + ?h"
    have m: "?m < length xs" "?m < l" "f \<le> ?m" "?h < n" "n - ?h - 1 < n" "?m + 1 + (n - ?h - 1) = f' + n" "?m + 1 \<le> f' + n"
      using False less.prems(1,2) assms(2) by linarith+
    have up: "\<not> lt (xs ! j) (xs ! i)" if "f \<le> i" "i < j" "j < l" for i j
      using assms(1) that by (simp add: sorted_range_def)
    consider "lt (xs ! ?m) v" | "\<not> lt (xs ! ?m) v" "lt v (xs ! ?m)" | "\<not> lt (xs ! ?m) v" "\<not> lt v (xs ! ?m)"
      by blast
    then show ?thesis
    proof cases
      case 1
      have "lt (xs ! i) v" if "f \<le> i" "i < ?m + 1" for i
        using le_lt_trans [OF up [of i ?m] 1] 1 that m by (cases "i = ?m") auto
      then show ?thesis
        using less.IH [OF m(5), of "?m + 1"] less.prems m 1 False
        by (subst equal_range_loop.simps) (simp add: Let_def)
    next
      case 2
      have "lt v (xs ! i)" if "?m \<le> i" "i < l" for i
        using lt_le_trans [OF 2(2) up [of ?m i]] 2 that m by (cases "i = ?m") auto
      then show ?thesis
        using less.IH [OF m(4), of f'] less.prems m 2 False
        by (subst equal_range_loop.simps) (simp add: Let_def)
    next
      case 3
      obtain a where a: "lower_bound lt f' ?m v xs = Some a" "splits (\<lambda>x. lt x v) f' ?m xs a"
        using bounds_correct(1) [OF assms(1) less.prems(1), of ?m v] m assms(2) by auto
      obtain b where b: "upper_bound lt (?m + 1) (f' + n) v xs = Some b" "splits (\<lambda>x. \<not> lt v x) (?m + 1) (f' + n) xs b"
        using bounds_correct(2) [OF assms(1), of "?m + 1" "f' + n" v] m assms(2) less.prems(2) by auto
      have "\<not> lt (xs ! i) v" if "?m \<le> i" "i < l" for i
        using neg_trans [OF up [of ?m i] 3(1)] 3 that m by (cases "i = ?m") auto
      then have sa: "splits (\<lambda>x. lt x v) f l xs a"
        using less.prems(1,3) m(2) by (intro splits_extend [OF a(2)]) auto
      have "\<not> lt v (xs ! i)" if "f \<le> i" "i \<le> ?m" for i
        using neg_trans [OF 3(2) up [of i ?m]] 3 that m by (cases "i = ?m") auto
      then have "splits (\<lambda>x. \<not> lt v x) f l xs b"
        using less.prems(2,4) m(3) asym by (intro splits_extend [OF b(2)]) auto
      then show ?thesis
        using a(1) b(1) sa 3 m(1) False by (subst equal_range_loop.simps) (simp add: Let_def)
    qed
  qed
qed

lemma equal_range_correct:
  assumes "sorted_range lt f l xs" "f \<le> l" "l \<le> length xs"
  shows "\<exists>a b. equal_range lt f l v xs = Some (a, b) \<and> lower_bound lt f l v xs = Some a \<and>
    upper_bound lt f l v xs = Some b \<and> splits (\<lambda>x. lt x v) f l xs a \<and> splits (\<lambda>x. \<not> lt v x) f l xs b"
proof -
  obtain a b where ab: "equal_range lt f l v xs = Some (a, b)" "splits (\<lambda>x. lt x v) f l xs a"
    "splits (\<lambda>x. \<not> lt v x) f l xs b"
    using equal_range_loop_correct [OF assms(1,3), of f "l - f" v] assms(2) by (auto simp: equal_range_def)
  then show ?thesis
    using bounds_correct [OF assms(1) le_refl assms(2) le_refl assms(3), of v] splits_unique by metis
qed

lemma binary_search_correct:
  assumes "sorted_range lt f l xs" "f \<le> l" "l \<le> length xs"
  shows "binary_search lt f l v xs = Some (\<exists>i. f \<le> i \<and> i < l \<and> \<not> lt (xs ! i) v \<and> \<not> lt v (xs ! i))"
proof -
  obtain a where a: "lower_bound lt f l v xs = Some a" "splits (\<lambda>x. lt x v) f l xs a"
    using bounds_correct(1) [OF assms(1) le_refl assms(2) le_refl assms(3)] by blast
  have "lt v (xs ! i)" if "lt v (xs ! a)" "a < i" "i < l" for i
    using lt_le_trans [OF that(1)] that assms(1) a(2) by (auto simp: sorted_range_def splits_def)
  then have "(a \<noteq> l \<and> \<not> lt v (xs ! a)) = (\<exists>i. f \<le> i \<and> i < l \<and> \<not> lt (xs ! i) v \<and> \<not> lt v (xs ! i))"
    using a(2) unfolding splits_def by (metis le_neq_implies_less le_trans less_or_eq_imp_le nat_neq_iff not_le)
  then show ?thesis
    using a assms(3) by (auto simp: binary_search_def splits_def)
qed

end

section \<open>Correctness of the linear searches\<close>

lemma find_if_input_correct:
  assumes "f \<le> l" "l \<le> length xs"
  shows "\<exists>r. find_if_input P f l xs = Some r \<and> f \<le> r \<and> r \<le> l \<and> (\<forall>i. f \<le> i \<and> i < r \<longrightarrow> \<not> P (xs ! i)) \<and>
    (r < l \<longrightarrow> P (xs ! r))"
  using assms
proof (induction "l - f" arbitrary: f)
  case 0
  then show ?case
    by (subst find_if_input.simps) auto
next
  case (Suc d)
  have f: "f < l" "f < length xs" "d = l - Suc f"
    using Suc.hyps(2) Suc.prems by linarith+
  show ?case
  proof (cases "P (xs ! f)")
    case True
    then show ?thesis
      using f by (subst find_if_input.simps) auto
  next
    case False
    obtain r where r: "find_if_input P (Suc f) l xs = Some r" "Suc f \<le> r" "r \<le> l"
      "\<And>i. Suc f \<le> i \<Longrightarrow> i < r \<Longrightarrow> \<not> P (xs ! i)" "r < l \<longrightarrow> P (xs ! r)"
      using Suc.hyps(1) [OF f(3)] f(1) Suc.prems by auto
    have "\<not> P (xs ! i)" if "f \<le> i" "i < r" for i
      using r(4) [of i] False that by (cases "i = f") auto
    then show ?thesis
      using r False f by (subst find_if_input.simps) auto
  qed
qed

lemma find_if_input_step:
  assumes "f < l" "l \<le> length xs"
  shows "find_if_input P f l xs = (if P (xs ! f) then Some f else find_if_input P (f + 1) l xs)"
  using assms by (subst find_if_input.simps) simp

lemma find_if_input_end: "find_if_input P l l xs = Some l"
  by (subst find_if_input.simps) simp

lemma find_if_switch_eq:
  assumes "l - f < 4" "f \<le> l" "l \<le> length xs"
  shows "find_if_switch P f l xs = find_if_input P f l xs"
proof -
  consider "l = f" | "l = f + 1" | "l = f + 2" | "l = f + 3"
    using assms(1,2) by linarith
  then show ?thesis
    using assms(3)
    by cases (simp_all add: find_if_switch_def find_if_input_step find_if_input_end Let_def
        numeral_2_eq_2 numeral_3_eq_3)
qed

lemma find_if_rounds_eq:
  assumes "n = (l - f) div 4" "f \<le> l" "l \<le> length xs"
  shows "find_if_rounds P n f l xs = find_if_input P f l xs"
  using assms
proof (induction n arbitrary: f)
  case 0
  then have "l - f < 4"
    by linarith
  then show ?case
    using 0 find_if_switch_eq by simp
next
  case (Suc n)
  then have "4 \<le> l - f" "n = (l - (f + 4)) div 4"
    by linarith+
  then have "find_if_rounds P n (f + 4) l xs = find_if_input P (f + 4) l xs"
    using Suc.IH [of "f + 4"] Suc.prems by simp
  moreover have "f + 3 < l"
    using \<open>4 \<le> l - f\<close> by linarith
  ultimately show ?case
    using Suc.prems(3) by (simp add: find_if_input_step numeral_eq_Suc)
qed

lemma find_if_eq: "f \<le> l \<Longrightarrow> l \<le> length xs \<Longrightarrow> find_if P f l xs = find_if_input P f l xs"
  by (simp add: find_if_def find_if_rounds_eq)

lemma quantifiers_correct:
  assumes "f \<le> l" "l \<le> length xs"
  shows "all_of P f l xs = Some (\<forall>i. f \<le> i \<and> i < l \<longrightarrow> P (xs ! i))"
    and "none_of P f l xs = Some (\<forall>i. f \<le> i \<and> i < l \<longrightarrow> \<not> P (xs ! i))"
    and "any_of P f l xs = Some (\<exists>i. f \<le> i \<and> i < l \<and> P (xs ! i))"
proof -
  have *: "none_of P f l xs = Some (\<forall>i. f \<le> i \<and> i < l \<longrightarrow> \<not> P (xs ! i))" for P :: "'a \<Rightarrow> bool"
    using find_if_input_correct [OF assms, of P] find_if_eq [OF assms, of P] by (auto simp: none_of_def nat_less_le)
  show "all_of P f l xs = Some (\<forall>i. f \<le> i \<and> i < l \<longrightarrow> P (xs ! i))"
    using * [of "\<lambda>x. \<not> P x"] by (simp add: all_of_def none_of_def find_if_not_def)
  show "none_of P f l xs = Some (\<forall>i. f \<le> i \<and> i < l \<longrightarrow> \<not> P (xs ! i))"
    by (rule *)
  show "any_of P f l xs = Some (\<exists>i. f \<le> i \<and> i < l \<and> P (xs ! i))"
    using * [of P] by (auto simp: any_of_def)
qed

lemma is_partitioned_correct:
  assumes "f \<le> l" "l \<le> length xs"
  shows "is_partitioned P f l xs = Some (partitioned P f l xs)"
proof -
  obtain r where r: "find_if_not P f l xs = Some r" "f \<le> r" "r \<le> l"
    "\<And>i. f \<le> i \<Longrightarrow> i < r \<Longrightarrow> P (xs ! i)" "r < l \<Longrightarrow> \<not> P (xs ! r)"
    using find_if_input_correct [OF assms, of "\<lambda>x. \<not> P x"] find_if_eq [OF assms, of "\<lambda>x. \<not> P x"]
    by (auto simp: find_if_not_def)
  show ?thesis
  proof (cases "r = l")
    case True
    then show ?thesis
      using r by (auto simp: is_partitioned_def partitioned_def)
  next
    case False
    have "(\<forall>i. r + 1 \<le> i \<and> i < l \<longrightarrow> \<not> P (xs ! i)) = partitioned P f l xs"
    proof
      assume *: "\<forall>i. r + 1 \<le> i \<and> i < l \<longrightarrow> \<not> P (xs ! i)"
      have "P (xs ! i)" if "f \<le> i" "i < j" "j < l" "P (xs ! j)" for i j
        using that * r(4) [of i] r(5) by (cases j r rule: linorder_cases) auto
      then show "partitioned P f l xs"
        by (auto simp: partitioned_def)
    next
      assume "partitioned P f l xs"
      then have "\<not> P (xs ! i)" if "r + 1 \<le> i" "i < l" for i
        using r(2,3,5) False that unfolding partitioned_def by (metis Suc_eq_plus1 Suc_le_eq le_neq_implies_less)
      then show "\<forall>i. r + 1 \<le> i \<and> i < l \<longrightarrow> \<not> P (xs ! i)"
        by blast
    qed
    then show ?thesis
      using quantifiers_correct(2) [of "r + 1" l xs P] r(1,3) False assms by (auto simp: is_partitioned_def)
  qed
qed

context strict_weak_order
begin

lemma sorted_range_Suc:
  assumes "sorted_range lt f (Suc n) xs" "f \<le> n" "\<not> lt (xs ! Suc n) (xs ! n)"
  shows "sorted_range lt f (Suc (Suc n)) xs"
proof -
  have "\<not> lt (xs ! Suc n) (xs ! i)" if "f \<le> i" "i < Suc n" for i
    using that assms neg_trans [OF assms(3), of "xs ! i"] by (cases "i = n") (auto simp: sorted_range_def)
  then show ?thesis
    using assms(1) by (auto simp: sorted_range_def less_Suc_eq)
qed

lemma is_sorted_until_loop_correct:
  assumes "f \<le> n" "n < l" "l \<le> length xs" "sorted_range lt f (Suc n) xs"
  shows "\<exists>r. is_sorted_until_loop lt n (Suc n) l xs = Some r \<and> n < r \<and> r \<le> l \<and> sorted_range lt f r xs \<and>
    (r < l \<longrightarrow> lt (xs ! r) (xs ! (r - 1)))"
  using assms
proof (induction "l - n" arbitrary: n)
  case (Suc d)
  show ?case
  proof (cases "Suc n = l \<or> lt (xs ! Suc n) (xs ! n)")
    case True
    then show ?thesis
      using Suc.prems by (subst is_sorted_until_loop.simps) auto
  next
    case False
    then have "d = l - Suc n" "f \<le> Suc n" "Suc n < l"
      using Suc.hyps(2) Suc.prems(1,2) by linarith+
    then have "\<exists>r. is_sorted_until_loop lt (Suc n) (Suc (Suc n)) l xs = Some r \<and> Suc n < r \<and> r \<le> l \<and>
        sorted_range lt f r xs \<and> (r < l \<longrightarrow> lt (xs ! r) (xs ! (r - 1)))"
      using Suc.hyps(1) [of "Suc n"] Suc.prems sorted_range_Suc False by auto
    then show ?thesis
      using False Suc.prems by (subst is_sorted_until_loop.simps) auto
  qed
qed simp

lemma is_sorted_until_correct:
  assumes "f \<le> l" "l \<le> length xs"
  shows "\<exists>r. is_sorted_until lt f l xs = Some r \<and> f \<le> r \<and> r \<le> l \<and> sorted_range lt f r xs \<and>
    (r < l \<longrightarrow> \<not> sorted_range lt f (Suc r) xs)"
proof (cases "f = l")
  case False
  have "sorted_range lt f (Suc f) xs"
    by (auto simp: sorted_range_def)
  then obtain r where r: "is_sorted_until_loop lt f (Suc f) l xs = Some r" "f < r" "r \<le> l" "sorted_range lt f r xs"
    "r < l \<longrightarrow> lt (xs ! r) (xs ! (r - 1))"
    using is_sorted_until_loop_correct [of f f l xs] assms False by auto
  moreover have "f \<le> r - 1" "r - 1 < r" "r < Suc r"
    using r(2) by linarith+
  ultimately have "r < l \<longrightarrow> \<not> sorted_range lt f (Suc r) xs"
    unfolding sorted_range_def by blast
  then show ?thesis
    using r False by (auto simp: is_sorted_until_def intro: less_imp_le)
qed (auto simp: is_sorted_until_def sorted_range_def)

lemma is_sorted_correct:
  assumes "f \<le> l" "l \<le> length xs"
  shows "is_sorted lt f l xs = Some (sorted_range lt f l xs)"
proof -
  obtain r where r: "is_sorted_until lt f l xs = Some r" "r \<le> l" "sorted_range lt f r xs"
    "r < l \<longrightarrow> \<not> sorted_range lt f (Suc r) xs"
    using is_sorted_until_correct [OF assms] by blast
  have "sorted_range lt f (Suc r) xs" if "sorted_range lt f l xs" "r < l"
    using that by (auto simp: sorted_range_def)
  then show ?thesis
    using r by (auto simp: is_sorted_def nat_less_le)
qed

end

text \<open>The first of the smallest elements of a range, and the last of the largest.\<close>

definition first_min :: "('a \<Rightarrow> 'a \<Rightarrow> bool) \<Rightarrow> nat \<Rightarrow> nat \<Rightarrow> 'a list \<Rightarrow> nat \<Rightarrow> bool" where
  "first_min lt f l xs r \<longleftrightarrow> f \<le> r \<and> r < l \<and> (\<forall>i. f \<le> i \<and> i < l \<longrightarrow> \<not> lt (xs ! i) (xs ! r)) \<and>
     (\<forall>i. f \<le> i \<and> i < r \<longrightarrow> lt (xs ! r) (xs ! i))"

definition last_max :: "('a \<Rightarrow> 'a \<Rightarrow> bool) \<Rightarrow> nat \<Rightarrow> nat \<Rightarrow> 'a list \<Rightarrow> nat \<Rightarrow> bool" where
  "last_max lt f l xs r \<longleftrightarrow> f \<le> r \<and> r < l \<and> (\<forall>i. f \<le> i \<and> i < l \<longrightarrow> \<not> lt (xs ! r) (xs ! i)) \<and>
     (\<forall>i. r < i \<and> i < l \<longrightarrow> lt (xs ! i) (xs ! r))"

lemma icmp_flip: "icmp (\<lambda>x y. cmp y x) xs a b = icmp cmp xs b a"
  by (cases "aget xs a"; cases "aget xs b") (simp_all add: icmp_def)

lemma max_element_loop_flip:
  "n < l \<Longrightarrow> max_element_loop cmp r n l xs = min_element_loop (\<lambda>x y. cmp y x) r n l xs"
proof (induction "l - n" arbitrary: n r)
  case (Suc d)
  show ?case
  proof (cases "Suc n = l")
    case True
    then show ?thesis
      by (subst max_element_loop.simps, subst min_element_loop.simps) simp
  next
    case False
    then have "d = l - Suc n" "Suc n < l"
      using Suc.hyps(2) Suc.prems by linarith+
    then show ?thesis
      using Suc.hyps(1) False
      by (subst max_element_loop.simps, subst min_element_loop.simps) (simp add: icmp_flip [of cmp])
  qed
qed simp

lemma max_element_flip: "f \<le> l \<Longrightarrow> max_element cmp f l xs = min_element (\<lambda>x y. cmp y x) f l xs"
  by (simp add: max_element_def min_element_def max_element_loop_flip)

context strict_weak_order
begin

lemma flip: "strict_weak_order (\<lambda>x y. lt y x)"
  using asym neg_trans by unfold_locales blast+

lemma first_min_step:
  assumes "first_min lt f n xs r"
  shows "first_min lt f (Suc n) xs (if lt (xs ! n) (xs ! r) then n else r)"
proof (cases "lt (xs ! n) (xs ! r)")
  case True
  have "lt (xs ! n) (xs ! i)" if "f \<le> i" "i < n" for i
    using lt_le_trans [OF True, of "xs ! i"] assms that by (simp add: first_min_def)
  then show ?thesis
    using assms True asym by (auto simp: first_min_def less_Suc_eq)
qed (use assms in \<open>auto simp: first_min_def less_Suc_eq\<close>)

lemma last_max_step:
  assumes "last_max lt f n xs r"
  shows "last_max lt f (Suc n) xs (if \<not> lt (xs ! n) (xs ! r) then n else r)"
proof (cases "lt (xs ! n) (xs ! r)")
  case False
  have "\<not> lt (xs ! n) (xs ! i)" if "f \<le> i" "i < n" for i
    using neg_trans [OF False, of "xs ! i"] assms that by (simp add: last_max_def)
  then show ?thesis
    using assms False by (auto simp: last_max_def less_Suc_eq)
qed (use assms asym in \<open>auto simp: last_max_def less_Suc_eq\<close>)

lemma min_element_loop_correct:
  assumes "n < l" "l \<le> length xs" "first_min lt f (Suc n) xs r"
  shows "\<exists>m. min_element_loop lt r n l xs = Some m \<and> first_min lt f l xs m"
  using assms
proof (induction "l - n" arbitrary: n r)
  case (Suc d)
  show ?case
  proof (cases "Suc n = l")
    case True
    then show ?thesis
      using Suc.prems by (simp add: min_element_loop.simps)
  next
    case False
    then have n: "d = l - Suc n" "Suc n < l" "Suc n < length xs" "r < length xs"
      using Suc.hyps(2) Suc.prems by (auto simp: first_min_def)
    then show ?thesis
      using Suc.hyps(1) [OF n(1,2) Suc.prems(2) first_min_step [OF Suc.prems(3)]] False
      by (subst min_element_loop.simps) (simp split: if_splits)
  qed
qed simp

lemma min_element_correct:
  assumes "f < l" "l \<le> length xs"
  shows "\<exists>m. min_element lt f l xs = Some m \<and> first_min lt f l xs m"
proof -
  have "first_min lt f (Suc f) xs f"
    by (auto simp: first_min_def le_less_Suc_eq)
  then show ?thesis
    using min_element_loop_correct [OF assms] assms(1) by (simp add: min_element_def)
qed

text \<open>The pair of the next two elements, in order, gives what both would give in turn.\<close>

lemma minmax_step:
  assumes "first_min lt f n xs mn" "last_max lt f n xs mx"
    and "small = (if lt (xs ! Suc n) (xs ! n) then Suc n else n)" "large = (if lt (xs ! Suc n) (xs ! n) then n else Suc n)"
  shows "first_min lt f (Suc (Suc n)) xs (if lt (xs ! small) (xs ! mn) then small else mn)"
    and "last_max lt f (Suc (Suc n)) xs (if \<not> lt (xs ! large) (xs ! mx) then large else mx)"
proof -
  let ?a = "if lt (xs ! n) (xs ! mn) then n else mn" and ?b = "if \<not> lt (xs ! n) (xs ! mx) then n else mx"
  have "(if lt (xs ! Suc n) (xs ! ?a) then Suc n else ?a) = (if lt (xs ! small) (xs ! mn) then small else mn)"
    using trans [of "xs ! Suc n" "xs ! n" "xs ! mn"] neg_trans [of "xs ! Suc n" "xs ! n" "xs ! mn"]
    by (cases "lt (xs ! Suc n) (xs ! n)"; cases "lt (xs ! n) (xs ! mn)") (simp_all add: assms(3))
  then show "first_min lt f (Suc (Suc n)) xs (if lt (xs ! small) (xs ! mn) then small else mn)"
    using first_min_step [OF first_min_step [OF assms(1)]] by (simp only:)
  have "(if \<not> lt (xs ! Suc n) (xs ! ?b) then Suc n else ?b) = (if \<not> lt (xs ! large) (xs ! mx) then large else mx)"
    using trans [of "xs ! Suc n" "xs ! n" "xs ! mx"] neg_trans [of "xs ! Suc n" "xs ! n" "xs ! mx"]
    by (cases "lt (xs ! Suc n) (xs ! n)"; cases "lt (xs ! n) (xs ! mx)") (simp_all add: assms(4))
  then show "last_max lt f (Suc (Suc n)) xs (if \<not> lt (xs ! large) (xs ! mx) then large else mx)"
    using last_max_step [OF last_max_step [OF assms(2)]] by (simp only:)
qed

lemma minmax_element_loop_correct:
  assumes "n \<le> l" "l \<le> length xs" "first_min lt f n xs mn" "last_max lt f n xs mx"
  shows "\<exists>a b. minmax_element_loop lt mn mx n l xs = Some (a, b) \<and> first_min lt f l xs a \<and> last_max lt f l xs b"
  using assms
proof (induction "l - n" arbitrary: n mn mx rule: less_induct)
  case less
  have b: "mn < n" "mx < n"
    using less.prems(3,4) by (auto simp: first_min_def last_max_def)
  consider "n = l" | "Suc n = l" | "Suc (Suc n) \<le> l"
    using less.prems(1) by linarith
  then show ?case
  proof cases
    case 1
    then show ?thesis
      using less.prems by (simp add: minmax_element_loop.simps)
  next
    case 2
    have "\<not> lt (xs ! n) (xs ! mn) \<or> lt (xs ! n) (xs ! mx)"
      using neg_trans less.prems(3,4) b unfolding first_min_def last_max_def by blast
    moreover have "n \<noteq> l" "n < length xs" "mn < length xs" "mx < length xs"
      using 2 b less.prems(2) by linarith+
    ultimately show ?thesis
      using first_min_step [OF less.prems(3)] last_max_step [OF less.prems(4)] 2
      by (subst minmax_element_loop.simps) (auto split: if_splits)
  next
    case 3
    then have len: "n \<noteq> l" "Suc n \<noteq> l" "n < length xs" "Suc n < length xs" "mn < length xs" "mx < length xs"
      "l - Suc (Suc n) < l - n"
      using b less.prems(2) by linarith+
    show ?thesis
      using less.hyps [OF len(7) 3 less.prems(2) minmax_step [OF less.prems(3,4) refl refl]] len(1-6)
      by (subst minmax_element_loop.simps) (simp add: Let_def split: if_splits)
  qed
qed

lemma minmax_element_correct:
  assumes "f < l" "l \<le> length xs"
  shows "\<exists>a b. minmax_element lt f l xs = Some (a, b) \<and> first_min lt f l xs a \<and> last_max lt f l xs b"
proof -
  have start: "first_min lt f (Suc f) xs f" "last_max lt f (Suc f) xs f"
    by (auto simp: first_min_def last_max_def le_less_Suc_eq)
  show ?thesis
  proof (cases "Suc f = l")
    case True
    then show ?thesis
      using start by (auto simp: minmax_element_def)
  next
    case False
    then have "Suc (Suc f) \<le> l" "Suc f < length xs" "f < length xs"
      using assms by linarith+
    then show ?thesis
      using minmax_element_loop_correct [OF _ assms(2) first_min_step [OF start(1)] last_max_step [OF start(2)]] False assms(1)
      by (auto simp: minmax_element_def split: if_splits)
  qed
qed

end

section \<open>Properties\<close>

text \<open>
  C19. The binary searches of libstdc++ on a range that is sorted for a strict weak order: they
  end inside of the range; \<open>lower_bound\<close> and \<open>upper_bound\<close> enclose
  exactly the elements that are equivalent to the value, with all smaller ones before and all
  larger ones behind; \<open>equal_range\<close>, with its one combined loop, returns the same
  two positions; and \<open>binary_search\<close> tells whether there is an equivalent element.
\<close>

theorem bounds_found:
  assumes "strict_weak_order lt" and "sorted_range lt f l xs" and "f \<le> l" and "l \<le> length xs"
  shows "\<exists>a b. lower_bound lt f l v xs = Some a \<and> upper_bound lt f l v xs = Some b \<and>
    equal_range lt f l v xs = Some (a, b) \<and> f \<le> a \<and> a \<le> b \<and> b \<le> l \<and>
    (\<forall>i. f \<le> i \<and> i < l \<longrightarrow> (lt (xs ! i) v \<longleftrightarrow> i < a) \<and> (lt v (xs ! i) \<longleftrightarrow> b \<le> i)) \<and>
    binary_search lt f l v xs = Some (a < b)"
proof -
  obtain a b where ab: "equal_range lt f l v xs = Some (a, b)" "lower_bound lt f l v xs = Some a"
    "upper_bound lt f l v xs = Some b" "splits (\<lambda>x. lt x v) f l xs a" "splits (\<lambda>x. \<not> lt v x) f l xs b"
    using strict_weak_order.equal_range_correct [OF assms] by blast
  have iff: "lt (xs ! i) v \<longleftrightarrow> i < a" "lt v (xs ! i) \<longleftrightarrow> b \<le> i" if "f \<le> i" "i < l" for i
    using splits_iff [OF ab(4) that] splits_iff [OF ab(5) that] by auto
  have le: "f \<le> a" "a \<le> l" "f \<le> b" "b \<le> l"
    using ab(4,5) by (simp_all add: splits_def)
  have "a \<le> b"
  proof (rule ccontr)
    assume "\<not> a \<le> b"
    then show False
      using iff [of b] le strict_weak_order.asym [OF assms(1), of v "xs ! b"] by simp
  qed
  moreover have "(\<exists>i. f \<le> i \<and> i < l \<and> \<not> lt (xs ! i) v \<and> \<not> lt v (xs ! i)) \<longleftrightarrow> a < b"
  proof
    assume "a < b"
    then show "\<exists>i. f \<le> i \<and> i < l \<and> \<not> lt (xs ! i) v \<and> \<not> lt v (xs ! i)"
      using iff [of a] le by (intro exI [of _ a]) auto
  qed (use iff in \<open>metis not_le le_less_trans\<close>)
  then have "binary_search lt f l v xs = Some (a < b)"
    using strict_weak_order.binary_search_correct [OF assms, of v] by simp
  ultimately show ?thesis
    using ab(1-3) iff le by (intro exI [of _ a] exI [of _ b]) simp
qed

theorem bounds_found_witness:
  "\<exists>a b. equal_range (<) 0 5 3 [1, 3, 3, 4, 9 :: int] = Some (a, b) \<and> a \<le> b \<and>
     binary_search (<) 0 5 3 [1, 3, 3, 4, 9 :: int] = Some (a < b)"
proof -
  have "sorted_range (<) 0 5 [1, 3, 3, 4, 9 :: int]"
    by (subst sorted_range_sorted_wrt) (simp_all add: slice_def)
  from bounds_found [OF less_strict_weak_order this, of 3] show ?thesis
    by auto
qed

end
