(* ===== verification/Stl_Merge.thy ===== *)
theory Stl_Merge
  imports Stl_Rotate Stl_Search
begin

text \<open>
  The merging algorithms of libstdc++ (\<^verbatim>\<open>c++/8.2.0/bits/stl_algo.h\<close>): \<open>merge\<close> to another
  container and \<open>inplace_merge\<close>, without a buffer (binary searches and rotations) and with a
  temporary buffer of any size.

  What the algorithms compute is \<open>lmerge\<close>, the stable merge of two lists; a list that is sorted
  and has the same equivalent elements in the same order is unique, so that the correctness of
  each algorithm is an equation.
\<close>

section \<open>The algorithms\<close>

subsection \<open>Merging to another container\<close>

text \<open>The common loop of \<open>__merge\<close> and \<open>__move_merge\<close>, on the two containers that are read
  and the one that is written.\<close>

partial_function (option) merge_loop ::
  "('a \<Rightarrow> 'a \<Rightarrow> bool) \<Rightarrow> nat \<Rightarrow> nat \<Rightarrow> nat \<Rightarrow> nat \<Rightarrow> nat \<Rightarrow> 'a list \<Rightarrow> 'a list \<Rightarrow> 'a list \<Rightarrow>
   (nat \<times> nat \<times> nat \<times> 'a list) option" where
  "merge_loop cmp first1 last1 first2 last2 result src1 src2 dst =
     (if first1 \<noteq> last1 \<and> first2 \<noteq> last2 then
        Option.bind (aget src2 first2) (\<lambda>b.
        Option.bind (aget src1 first1) (\<lambda>a.
          if cmp b a then
            Option.bind (aset result b dst) (\<lambda>dst.
              merge_loop cmp first1 last1 (first2 + 1) last2 (result + 1) src1 src2 dst)
          else
            Option.bind (aset result a dst) (\<lambda>dst.
              merge_loop cmp (first1 + 1) last1 first2 last2 (result + 1) src1 src2 dst)))
      else Some (first1, first2, result, dst))"

definition merge ::
  "('a \<Rightarrow> 'a \<Rightarrow> bool) \<Rightarrow> nat \<Rightarrow> nat \<Rightarrow> nat \<Rightarrow> nat \<Rightarrow> nat \<Rightarrow> 'a list \<Rightarrow> 'a list \<Rightarrow> 'a list \<Rightarrow> ('a list \<times> nat) option" where
  "merge cmp first1 last1 first2 last2 result src1 src2 dst = do {
     (first1, first2, result, dst) \<leftarrow> merge_loop cmp first1 last1 first2 last2 result src1 src2 dst;
     (dst, result) \<leftarrow> move_to first1 last1 result src1 dst;
     move_to first2 last2 result src2 dst }"

definition move_merge ::
  "('a \<Rightarrow> 'a \<Rightarrow> bool) \<Rightarrow> nat \<Rightarrow> nat \<Rightarrow> nat \<Rightarrow> nat \<Rightarrow> nat \<Rightarrow> 'a list \<Rightarrow> 'a list \<Rightarrow> ('a list \<times> nat) option" where
  "move_merge cmp first1 last1 first2 last2 result src dst = do {
     (first1, first2, result, dst) \<leftarrow> merge_loop cmp first1 last1 first2 last2 result src src dst;
     (dst, result) \<leftarrow> move_to first1 last1 result src dst;
     move_to first2 last2 result src dst }"

subsection \<open>Merging in place without a buffer\<close>

text \<open>Where to cut the two halves: in the middle of the longer one, and at the bound of that
  element in the shorter one. The lengths of the left parts come with the cuts.\<close>

definition merge_cuts ::
  "('a \<Rightarrow> 'a \<Rightarrow> bool) \<Rightarrow> nat \<Rightarrow> nat \<Rightarrow> nat \<Rightarrow> nat \<Rightarrow> nat \<Rightarrow> 'a list \<Rightarrow> (nat \<times> nat \<times> nat \<times> nat) option" where
  "merge_cuts cmp first middle lst len1 len2 xs =
     (if len1 > len2 then do {
        let len11 = len1 div 2;
        let first_cut = first + len11;
        v \<leftarrow> aget xs first_cut;
        second_cut \<leftarrow> lower_bound cmp middle lst v xs;
        Some (first_cut, second_cut, len11, second_cut - middle) }
      else do {
        let len22 = len2 div 2;
        let second_cut = middle + len22;
        v \<leftarrow> aget xs second_cut;
        first_cut \<leftarrow> upper_bound cmp first middle v xs;
        Some (first_cut, second_cut, first_cut - first, len22) })"

partial_function (option) merge_without_buffer ::
  "bool \<Rightarrow> ('a \<Rightarrow> 'a \<Rightarrow> bool) \<Rightarrow> nat \<Rightarrow> nat \<Rightarrow> nat \<Rightarrow> nat \<Rightarrow> nat \<Rightarrow> 'a list \<Rightarrow> 'a list option" where
  "merge_without_buffer is_pod cmp first middle lst len1 len2 xs =
     (if len1 = 0 \<or> len2 = 0 then Some xs
      else if len1 + len2 = 2 then
        Option.bind (icmp cmp xs middle first) (\<lambda>b. if b then iter_swap first middle xs else Some xs)
      else
        Option.bind (merge_cuts cmp first middle lst len1 len2 xs) (\<lambda>(first_cut, second_cut, len11, len22).
        Option.bind (rotate_random is_pod first_cut middle second_cut xs) (\<lambda>(xs, r).
          let new_middle = first_cut + (second_cut - middle) in
          Option.bind (merge_without_buffer is_pod cmp first first_cut new_middle len11 len22 xs) (\<lambda>xs.
            merge_without_buffer is_pod cmp new_middle second_cut lst (len1 - len11) (len2 - len22) xs))))"

subsection \<open>Merging in place with a buffer\<close>

text \<open>The first range is in the buffer, the second one and the result are in the container.\<close>

partial_function (option) move_merge_adaptive ::
  "('a \<Rightarrow> 'a \<Rightarrow> bool) \<Rightarrow> nat \<Rightarrow> nat \<Rightarrow> nat \<Rightarrow> nat \<Rightarrow> nat \<Rightarrow> 'a list \<Rightarrow> 'a list \<Rightarrow> 'a list option" where
  "move_merge_adaptive cmp first1 last1 first2 last2 result buf xs =
     (if first1 \<noteq> last1 \<and> first2 \<noteq> last2 then
        Option.bind (aget xs first2) (\<lambda>b.
        Option.bind (aget buf first1) (\<lambda>a.
          if cmp b a then
            Option.bind (aset result b xs) (\<lambda>xs.
              move_merge_adaptive cmp first1 last1 (first2 + 1) last2 (result + 1) buf xs)
          else
            Option.bind (aset result a xs) (\<lambda>xs.
              move_merge_adaptive cmp (first1 + 1) last1 first2 last2 (result + 1) buf xs)))
      else if first1 \<noteq> last1 then map_option fst (move_to first1 last1 result buf xs)
      else Some xs)"

text \<open>The first range and the result are in the container, the second one is in the buffer. The
  iterators \<open>last1\<close> and \<open>last2\<close> of the loop are at the last elements.\<close>

partial_function (option) move_merge_backward_loop ::
  "('a \<Rightarrow> 'a \<Rightarrow> bool) \<Rightarrow> nat \<Rightarrow> nat \<Rightarrow> nat \<Rightarrow> nat \<Rightarrow> nat \<Rightarrow> 'a list \<Rightarrow> 'a list \<Rightarrow> 'a list option" where
  "move_merge_backward_loop cmp first1 last1 first2 last2 result buf xs =
     Option.bind (aget buf last2) (\<lambda>b.
     Option.bind (aget xs last1) (\<lambda>a.
       if result = 0 then None
       else if cmp b a then
         Option.bind (aset (result - 1) a xs) (\<lambda>xs.
           if first1 = last1 then map_option fst (move_backward_to first2 (last2 + 1) (result - 1) buf xs)
           else if last1 = 0 then None
           else move_merge_backward_loop cmp first1 (last1 - 1) first2 last2 (result - 1) buf xs)
       else
         Option.bind (aset (result - 1) b xs) (\<lambda>xs.
           if first2 = last2 then Some xs
           else if last2 = 0 then None
           else move_merge_backward_loop cmp first1 last1 first2 (last2 - 1) (result - 1) buf xs)))"

definition move_merge_adaptive_backward ::
  "('a \<Rightarrow> 'a \<Rightarrow> bool) \<Rightarrow> nat \<Rightarrow> nat \<Rightarrow> nat \<Rightarrow> nat \<Rightarrow> nat \<Rightarrow> 'a list \<Rightarrow> 'a list \<Rightarrow> 'a list option" where
  "move_merge_adaptive_backward cmp first1 last1 first2 last2 result buf xs =
     (if first1 = last1 then map_option fst (move_backward_to first2 last2 result buf xs)
      else if first2 = last2 then Some xs
      else if last1 = 0 \<or> last2 = 0 then None
      else move_merge_backward_loop cmp first1 (last1 - 1) first2 (last2 - 1) result buf xs)"

definition rotate_adaptive ::
  "bool \<Rightarrow> nat \<Rightarrow> nat \<Rightarrow> nat \<Rightarrow> nat \<Rightarrow> nat \<Rightarrow> nat \<Rightarrow> 'a list \<Rightarrow> 'a list \<Rightarrow> ('a list \<times> 'a list \<times> nat) option" where
  "rotate_adaptive is_pod first middle lst len1 len2 buffer_size buf xs =
     (if len1 > len2 \<and> len2 \<le> buffer_size then
        if len2 \<noteq> 0 then do {
          (buf, buffer_end) \<leftarrow> move_to middle lst 0 xs buf;
          (xs, r) \<leftarrow> move_backward first middle lst xs;
          (xs, r) \<leftarrow> move_to 0 buffer_end first buf xs;
          Some (buf, xs, r) }
        else Some (buf, xs, first)
      else if len1 \<le> buffer_size then
        if len1 \<noteq> 0 then do {
          (buf, buffer_end) \<leftarrow> move_to first middle 0 xs buf;
          (xs, r) \<leftarrow> move_range middle lst first xs;
          (xs, r) \<leftarrow> move_backward_to 0 buffer_end lst buf xs;
          Some (buf, xs, r) }
        else Some (buf, xs, lst)
      else do {
        (xs, r) \<leftarrow> rotate_random is_pod first middle lst xs;
        Some (buf, xs, first + (lst - middle)) })"

partial_function (option) merge_adaptive ::
  "bool \<Rightarrow> ('a \<Rightarrow> 'a \<Rightarrow> bool) \<Rightarrow> nat \<Rightarrow> nat \<Rightarrow> nat \<Rightarrow> nat \<Rightarrow> nat \<Rightarrow> nat \<Rightarrow> 'a list \<Rightarrow> 'a list \<Rightarrow> ('a list \<times> 'a list) option" where
  "merge_adaptive is_pod cmp first middle lst len1 len2 buffer_size buf xs =
     (if len1 \<le> len2 \<and> len1 \<le> buffer_size then
        Option.bind (move_to first middle 0 xs buf) (\<lambda>(buf, buffer_end).
        Option.bind (move_merge_adaptive cmp 0 buffer_end middle lst first buf xs) (\<lambda>xs. Some (buf, xs)))
      else if len2 \<le> buffer_size then
        Option.bind (move_to middle lst 0 xs buf) (\<lambda>(buf, buffer_end).
        Option.bind (move_merge_adaptive_backward cmp first middle 0 buffer_end lst buf xs) (\<lambda>xs. Some (buf, xs)))
      else
        Option.bind (merge_cuts cmp first middle lst len1 len2 xs) (\<lambda>(first_cut, second_cut, len11, len22).
        Option.bind (rotate_adaptive is_pod first_cut middle second_cut (len1 - len11) len22 buffer_size buf xs)
          (\<lambda>(buf, xs, new_middle).
        Option.bind (merge_adaptive is_pod cmp first first_cut new_middle len11 len22 buffer_size buf xs) (\<lambda>(buf, xs).
          merge_adaptive is_pod cmp new_middle second_cut lst (len1 - len11) (len2 - len22) buffer_size buf xs))))"

subsection \<open>The temporary buffer\<close>

text \<open>
  \<open>get_temporary_buffer\<close> asks for less and less memory. Whether \<open>operator new\<close> returns memory
  for that many elements is an argument, and so are the size of an element and the contents of the
  memory, which elements with a trivial constructor keep.
\<close>

function get_temporary_buffer_loop :: "(nat \<Rightarrow> bool) \<Rightarrow> nat \<Rightarrow> nat" where
  "get_temporary_buffer_loop new_ok len =
     (if len > 0 then if new_ok len then len else get_temporary_buffer_loop new_ok (len div 2) else 0)"
  by pat_completeness auto

termination get_temporary_buffer_loop
  by (relation "measure snd") auto

declare get_temporary_buffer_loop.simps [simp del]

definition get_temporary_buffer :: "nat \<Rightarrow> (nat \<Rightarrow> bool) \<Rightarrow> nat \<Rightarrow> nat" where
  "get_temporary_buffer sz new_ok len = (
     let mx = (2 ^ 31 - 1) div sz
     in get_temporary_buffer_loop new_ok (if len > mx then mx else len))"

record 'a allocation =
  elt_size :: nat
  new_ok :: "nat \<Rightarrow> bool"
  trivial_ctor :: bool
  memory :: "nat \<Rightarrow> 'a"

text \<open>The constructor of \<open>_Temporary_buffer\<close>: \<open>None\<close> inside is the null pointer.\<close>

definition temporary_buffer :: "'a allocation \<Rightarrow> nat \<Rightarrow> nat \<Rightarrow> 'a list \<Rightarrow> 'a list option option" where
  "temporary_buffer al first lst xs = (
     let n = get_temporary_buffer (elt_size al) (new_ok al) (lst - first)
     in if n = 0 then Some None
        else if trivial_ctor al then Some (Some (map (memory al) [0..<n]))
        else do { seed \<leftarrow> aget xs first; Some (Some (replicate n seed)) })"

definition inplace_merge ::
  "'a allocation \<Rightarrow> bool \<Rightarrow> ('a \<Rightarrow> 'a \<Rightarrow> bool) \<Rightarrow> nat \<Rightarrow> nat \<Rightarrow> nat \<Rightarrow> 'a list \<Rightarrow> 'a list option" where
  "inplace_merge al is_pod cmp first middle lst xs =
     (if first = middle \<or> middle = lst then Some xs
      else do {
        let len1 = middle - first;
        let len2 = lst - middle;
        b \<leftarrow> temporary_buffer al first lst xs;
        (case b of
           None \<Rightarrow> merge_without_buffer is_pod cmp first middle lst len1 len2 xs
         | Some buf \<Rightarrow> map_option snd (merge_adaptive is_pod cmp first middle lst len1 len2 (length buf) buf xs)) })"

section \<open>Stable merging of lists\<close>

definition eqv :: "('a \<Rightarrow> 'a \<Rightarrow> bool) \<Rightarrow> 'a \<Rightarrow> 'a \<Rightarrow> bool" where
  "eqv lt v x \<longleftrightarrow> \<not> lt v x \<and> \<not> lt x v"

abbreviation (input) upward :: "('a \<Rightarrow> 'a \<Rightarrow> bool) \<Rightarrow> 'a list \<Rightarrow> bool" where
  "upward lt \<equiv> sorted_wrt (\<lambda>x y. \<not> lt y x)"

text \<open>\<open>t\<close> is sorted and has the elements of \<open>s\<close>, equivalent ones in their order.\<close>

definition stable_sorted :: "('a \<Rightarrow> 'a \<Rightarrow> bool) \<Rightarrow> 'a list \<Rightarrow> 'a list \<Rightarrow> bool" where
  "stable_sorted lt s t \<longleftrightarrow> upward lt t \<and> (\<forall>v. filter (eqv lt v) t = filter (eqv lt v) s)"

fun lmerge :: "('a \<Rightarrow> 'a \<Rightarrow> bool) \<Rightarrow> 'a list \<Rightarrow> 'a list \<Rightarrow> 'a list" where
  "lmerge lt [] bs = bs"
| "lmerge lt as [] = as"
| "lmerge lt (a # as) (b # bs) = (if lt b a then b # lmerge lt (a # as) bs else a # lmerge lt as (b # bs))"

lemma lmerge_Nil2 [simp]: "lmerge lt as [] = as"
  by (cases as) simp_all

lemma lmerge_induct [case_names Nil1 Nil2 Cons]:
  assumes "\<And>bs. P [] bs" and "\<And>a as. P (a # as) []"
    and "\<And>a as b bs. (lt b a \<Longrightarrow> P (a # as) bs) \<Longrightarrow> (\<not> lt b a \<Longrightarrow> P as (b # bs)) \<Longrightarrow> P (a # as) (b # bs)"
  shows "P as bs"
proof (induction "length as + length bs" arbitrary: as bs rule: less_induct)
  case less
  then show ?case
    using assms by (cases as; cases bs) simp_all
qed

lemma set_lmerge [simp]: "set (lmerge lt as bs) = set as \<union> set bs"
  by (induction lt as bs rule: lmerge.induct) auto

lemma length_lmerge [simp]: "length (lmerge lt as bs) = length as + length bs"
  by (induction lt as bs rule: lmerge.induct) auto

context strict_weak_order
begin

lemma eqv_refl [simp]: "eqv lt v v"
  by (simp add: eqv_def)

lemma not_eqv: "lt x y \<Longrightarrow> eqv lt v x \<Longrightarrow> \<not> eqv lt v y"
  using neg_trans [of x v y] by (auto simp: eqv_def)

lemma stable_unique:
  "upward lt xs \<Longrightarrow> upward lt ys \<Longrightarrow> (\<And>v. filter (eqv lt v) xs = filter (eqv lt v) ys) \<Longrightarrow> xs = ys"
proof (induction xs arbitrary: ys)
  case Nil
  then show ?case
    by (cases ys) (auto dest: meta_spec [of _ "hd ys"])
next
  case (Cons x xs)
  have mem: "z \<in> set (x # xs) \<longleftrightarrow> z \<in> set ys" for z
    using arg_cong [OF Cons.prems(3) [of z], of "\<lambda>l. z \<in> set l"] by (simp only: set_filter mem_Collect_eq eqv_refl simp_thms)
  then obtain y ys' where ys: "ys = y # ys'"
    by (cases ys) auto
  have "\<not> lt x y" "\<not> lt y x"
    using mem [of x] mem [of y] Cons.prems(1,2) ys by auto
  then have "eqv lt x y"
    by (simp add: eqv_def)
  then have "x = y"
    using Cons.prems(3) [of x] ys by simp
  then have "filter (eqv lt v) xs = filter (eqv lt v) ys'" for v
    using Cons.prems(3) [of v] ys by (simp split: if_splits)
  then show ?case
    using Cons.IH [of ys'] Cons.prems(1,2) ys \<open>x = y\<close> by simp
qed

lemma upward_lmerge: "upward lt as \<Longrightarrow> upward lt bs \<Longrightarrow> upward lt (lmerge lt as bs)"
proof (induction as bs rule: lmerge_induct [where lt = lt])
  case (Cons a as b bs)
  show ?case
  proof (cases "lt b a")
    case True
    have "\<not> lt x b" if "x \<in> set (a # as)" for x
      using that Cons.prems(1) asym [OF True] neg_trans [of x a b] by auto
    then show ?thesis
      using True Cons by auto
  next
    case False
    have "\<not> lt x a" if "x \<in> set (b # bs)" for x
      using that Cons.prems(2) False neg_trans [of x b a] by auto
    then show ?thesis
      using False Cons by auto
  qed
qed simp_all

lemma filter_lmerge:
  "upward lt as \<Longrightarrow> filter (eqv lt v) (lmerge lt as bs) = filter (eqv lt v) as @ filter (eqv lt v) bs"
proof (induction as bs rule: lmerge_induct [where lt = lt])
  case (Cons a as b bs)
  show ?case
  proof (cases "lt b a")
    case True
    have "lt b x" if "x \<in> set (a # as)" for x
      using that Cons.prems lt_le_trans [OF True] True by auto
    then have "filter (eqv lt v) (a # as) = []" if "eqv lt v b"
      using not_eqv that by (simp only: filter_empty_conv) blast
    moreover have "filter (eqv lt v) (lmerge lt (a # as) bs) = filter (eqv lt v) (a # as) @ filter (eqv lt v) bs"
      using Cons.IH(1) [OF True Cons.prems] .
    ultimately show ?thesis
      using True by (cases "eqv lt v b") (simp_all only: lmerge.simps filter.simps(2) [of _ b] if_True if_False append_Nil)
  next
    case False
    then show ?thesis
      using Cons by simp
  qed
qed simp_all

lemma lmerge_stable: "upward lt as \<Longrightarrow> upward lt bs \<Longrightarrow> stable_sorted lt (as @ bs) (lmerge lt as bs)"
  by (simp add: stable_sorted_def upward_lmerge filter_lmerge)

lemma stable_sorted_eq: "stable_sorted lt s t \<Longrightarrow> stable_sorted lt s t' \<Longrightarrow> t = t'"
  by (rule stable_unique) (simp_all add: stable_sorted_def)

text \<open>Cutting both lists at the same place of the order cuts the merge.\<close>

lemma lmerge_cut:
  assumes "upward lt (A1 @ A2)" "upward lt (B1 @ B2)"
    and less: "\<And>a b. a \<in> set A2 \<Longrightarrow> b \<in> set B1 \<Longrightarrow> lt b a" and le: "\<And>a b. a \<in> set A1 \<Longrightarrow> b \<in> set B2 \<Longrightarrow> \<not> lt b a"
  shows "lmerge lt (A1 @ A2) (B1 @ B2) = lmerge lt A1 B1 @ lmerge lt A2 B2"
proof (rule stable_sorted_eq)
  show "stable_sorted lt ((A1 @ A2) @ (B1 @ B2)) (lmerge lt (A1 @ A2) (B1 @ B2))"
    by (rule lmerge_stable [OF assms(1,2)])
  have up: "upward lt A1" "upward lt A2" "upward lt B1" "upward lt B2"
    using assms(1,2) by (auto simp: sorted_wrt_append)
  have "\<not> lt y x" if "x \<in> set A1 \<union> set B1" "y \<in> set A2 \<union> set B2" for x y
    using that assms(1,2) less le asym by (auto simp: sorted_wrt_append)
  then have "upward lt (lmerge lt A1 B1 @ lmerge lt A2 B2)"
    using upward_lmerge up by (auto simp: sorted_wrt_append)
  moreover have "filter (eqv lt v) B1 @ filter (eqv lt v) A2 = filter (eqv lt v) A2 @ filter (eqv lt v) B1" for v
  proof (cases "filter (eqv lt v) B1 = []")
    case False
    then obtain b where "b \<in> set B1" "eqv lt v b"
      by (auto simp: filter_empty_conv)
    then have "filter (eqv lt v) A2 = []"
      using less not_eqv unfolding filter_empty_conv by blast
    then show ?thesis
      by simp
  qed simp
  then have "filter (eqv lt v) B1 @ filter (eqv lt v) A2 @ X = filter (eqv lt v) A2 @ filter (eqv lt v) B1 @ X" for v X
    by (metis append_assoc)
  ultimately show "stable_sorted lt ((A1 @ A2) @ (B1 @ B2)) (lmerge lt A1 B1 @ lmerge lt A2 B2)"
    using up by (simp add: stable_sorted_def filter_lmerge)
qed

lemma lmerge_snoc:
  assumes "upward lt (as @ [a])" "upward lt (bs @ [b])"
  shows "lmerge lt (as @ [a]) (bs @ [b]) =
    (if lt b a then lmerge lt as (bs @ [b]) @ [a] else lmerge lt (as @ [a]) bs @ [b])"
proof (cases "lt b a")
  case True
  have "lt x a" if "x \<in> set (bs @ [b])" for x
    using that assms(2) True le_lt_trans [of b x a] by (auto simp: sorted_wrt_append)
  then show ?thesis
    using True lmerge_cut [of as "[a]" "bs @ [b]" "[]"] assms by simp
next
  case False
  have "\<not> lt b x" if "x \<in> set (as @ [a])" for x
    using that assms(1) False neg_trans [of b a x] by (auto simp: sorted_wrt_append)
  then show ?thesis
    using False lmerge_cut [of "as @ [a]" "[]" bs "[b]"] assms by simp
qed

end

section \<open>Correctness of merging to another container\<close>

lemma move_to_block:
  "length J = length X \<Longrightarrow> move_to (length p) (length p + length X) (length d) (p @ X @ q) (d @ J @ e) =
     Some (d @ X @ e, length d + length X)"
  by (simp add: move_to_def move_to_loop_block)

lemma merge_step:
  assumes "first1 \<noteq> last1" "first2 \<noteq> last2" "aget src2 first2 = Some b" "aget src1 first1 = Some a"
    and "aset result (if cmp b a then b else a) dst = Some dst'"
  shows "merge cmp first1 last1 first2 last2 result src1 src2 dst =
    (if cmp b a then merge cmp first1 last1 (first2 + 1) last2 (result + 1) src1 src2 dst'
     else merge cmp (first1 + 1) last1 first2 last2 (result + 1) src1 src2 dst')"
  using assms unfolding merge_def by (cases "cmp b a") (subst merge_loop.simps, simp)+

lemma merge_block:
  "length J = length as + length bs \<Longrightarrow>
   merge lt (length p1) (length p1 + length as) (length p2) (length p2 + length bs) (length d)
     (p1 @ as @ q1) (p2 @ bs @ q2) (d @ J @ e) = Some (d @ lmerge lt as bs @ e, length d + length as + length bs)"
proof (induction as bs arbitrary: p1 p2 d J rule: lmerge_induct [where lt = lt])
  case (Nil1 bs)
  then show ?case
    using move_to_block [of J bs p2 d q2 e] move_to_block [of "[]" "[]" p1 d q1 "J @ e"]
    by (simp add: merge_def merge_loop.simps)
next
  case (Nil2 a as)
  then show ?case
    using move_to_block [of J "a # as" p1 d q1 e] move_to_block [of "[]" "[]" p2 "d @ a # as" q2 e]
    by (simp add: merge_def merge_loop.simps)
next
  case (Cons a as b bs)
  then obtain j J1 where J: "J = j # J1" "length J1 = Suc (length as + length bs)"
    by (cases J) auto
  show ?case
  proof (cases "lt b a")
    case True
    then show ?thesis
      using Cons.IH(1) [OF True, of J1 p1 "p2 @ [b]" "d @ [b]"] J by (simp add: merge_step)
  next
    case False
    then show ?thesis
      using Cons.IH(2) [OF False, of J1 "p1 @ [a]" p2 "d @ [a]"] J by (simp add: merge_step)
  qed
qed

lemma move_merge_eq: "move_merge cmp f1 l1 f2 l2 r src dst = merge cmp f1 l1 f2 l2 r src src dst"
  by (simp add: move_merge_def merge_def)

section \<open>Correctness of merging in place\<close>

lemma move_merge_adaptive_block:
  "length J = length as \<Longrightarrow>
   move_merge_adaptive lt (length p1) (length p1 + length as) (length p + length J) (length p + length J + length bs) (length p)
     (p1 @ as @ q1) (p @ J @ bs @ q) = Some (p @ lmerge lt as bs @ q)"
proof (induction as bs arbitrary: p1 p J rule: lmerge_induct [where lt = lt])
  case (Nil1 bs)
  then show ?case
    by (simp add: move_merge_adaptive.simps)
next
  case (Nil2 a as)
  then show ?case
    using move_to_block [of J "a # as" p1 p q1 q] by (simp add: move_merge_adaptive.simps)
next
  case (Cons a as b bs)
  then obtain j J1 where J: "J = j # J1" "length J1 = length as"
    by (cases J) auto
  have b: "aget (p @ j # J1 @ b # bs @ q) (Suc (length p + length as)) = Some b"
    using aget_append [of "p @ j # J1" b "bs @ q"] J(2) by simp
  show ?case
  proof (cases "lt b a")
    case True
    then show ?thesis
      using Cons.IH(1) [OF True, of "J1 @ [b]" p1 "p @ [b]"] J b by (subst move_merge_adaptive.simps) simp
  next
    case False
    then show ?thesis
      using Cons.IH(2) [OF False, of J1 "p1 @ [a]" "p @ [a]"] J b by (subst move_merge_adaptive.simps) simp
  qed
qed

text \<open>\<open>aget\<close> and \<open>aset\<close> behind a prefix whose length is a sum.\<close>

lemma aget_behind: "n = length as \<Longrightarrow> aget (as @ x # bs) n = Some x"
  by simp

lemma aset_behind: "n = length as \<Longrightarrow> aset n y (as @ x # bs) = Some (as @ y # bs)"
  by simp

context strict_weak_order
begin

lemma move_merge_backward_loop_block:
  assumes "upward lt (as @ [a])" "upward lt (bs @ [b])" "length J = Suc (length bs)"
  shows "move_merge_backward_loop lt (length p) (length p + length as) (length p2) (length p2 + length bs)
      (length p + length as + length bs + 2) (p2 @ (bs @ [b]) @ q2) (p @ (as @ [a]) @ J @ q) =
    Some (p @ lmerge lt (as @ [a]) (bs @ [b]) @ q)"
  using assms
proof (induction "length as + length bs" arbitrary: as a bs b J q q2 rule: less_induct)
  case less
  obtain J1 j where J: "J = J1 @ [j]" "length J1 = length bs"
    using less.prems(3) by (cases J rule: rev_cases) auto
  have at: "aget (p2 @ (bs @ [b]) @ q2) (length p2 + length bs) = Some b"
    "aget (p @ (as @ [a]) @ J @ q) (length p + length as) = Some a"
    "aset (length p + length as + length bs + 2 - 1) v (p @ (as @ [a]) @ J @ q) = Some (p @ (as @ [a]) @ J1 @ v # q)" for v
    using aget_behind [of _ "p2 @ bs" b q2] aget_behind [of _ "p @ as" a "J @ q"]
      aset_behind [of _ "p @ as @ [a] @ J1" v j q] J by (simp_all add: add.assoc)
  note snoc = lmerge_snoc [OF less.prems(1,2)]
  show ?case
  proof (cases "lt b a")
    case True
    show ?thesis
    proof (cases as rule: rev_cases)
      case Nil
      have "move_backward_to (length p2) (length p2 + length bs + 1) (length p + length bs + 1) (p2 @ (bs @ [b]) @ q2)
          (p @ (a # J1) @ a # q) = Some (p @ (bs @ [b]) @ a # q, length p)"
        using move_backward_to_loop_block [of "a # J1" "bs @ [b]" p2 p q2 "a # q"] J(2) by (simp add: move_backward_to_def)
      then show ?thesis
        using at snoc True Nil by (subst move_merge_backward_loop.simps) simp
    next
      case (snoc as1 a1)
      then have "move_merge_backward_loop lt (length p) (length p + length as1) (length p2) (length p2 + length bs)
          (length p + length as1 + length bs + 2) (p2 @ (bs @ [b]) @ q2) (p @ (as1 @ [a1]) @ (a # J1) @ a # q) =
          Some (p @ lmerge lt (as1 @ [a1]) (bs @ [b]) @ a # q)"
        using less.prems J by (intro less.hyps) (auto simp: sorted_wrt_append)
      then show ?thesis
        using at lmerge_snoc [OF less.prems(1,2)] True snoc by (subst move_merge_backward_loop.simps) simp
    qed
  next
    case False
    show ?thesis
    proof (cases bs rule: rev_cases)
      case Nil
      then show ?thesis
        using at snoc False J by (subst move_merge_backward_loop.simps) simp
    next
      case (snoc bs1 b1)
      then have "move_merge_backward_loop lt (length p) (length p + length as) (length p2) (length p2 + length bs1)
          (length p + length as + length bs1 + 2) (p2 @ (bs1 @ [b1]) @ b # q2) (p @ (as @ [a]) @ J1 @ b # q) =
          Some (p @ lmerge lt (as @ [a]) (bs1 @ [b1]) @ b # q)"
        using less.prems J by (intro less.hyps) (auto simp: sorted_wrt_append)
      then show ?thesis
        using at lmerge_snoc [OF less.prems(1,2)] False snoc by (subst move_merge_backward_loop.simps) simp
    qed
  qed
qed

lemma move_merge_adaptive_backward_block:
  assumes "upward lt as" "upward lt bs" "length J = length bs"
  shows "move_merge_adaptive_backward lt (length p) (length p + length as) (length p2) (length p2 + length bs)
      (length p + length as + length bs) (p2 @ bs @ q2) (p @ as @ J @ q) = Some (p @ lmerge lt as bs @ q)"
proof (cases as rule: rev_cases)
  case Nil
  then show ?thesis
    using move_backward_to_loop_block [OF assms(3), of p2 p q2 q]
    by (simp add: move_merge_adaptive_backward_def move_backward_to_def)
next
  case as: (snoc as1 a)
  show ?thesis
  proof (cases bs rule: rev_cases)
    case Nil
    then show ?thesis
      using assms(3) as by (simp add: move_merge_adaptive_backward_def)
  next
    case (snoc bs1 b)
    then show ?thesis
      using move_merge_backward_loop_block [of as1 a bs1 b J p p2 q2 q] assms as
      by (simp add: move_merge_adaptive_backward_def)
  qed
qed

subsection \<open>The cuts\<close>

lemma splits_partitioned: "splits P f l xs r \<Longrightarrow> partitioned P f l xs"
  unfolding splits_def partitioned_def by (meson not_le order.strict_trans)

lemma partition_point_block:
  assumes "\<And>x. x \<in> set A \<Longrightarrow> P x" "\<And>x. x \<in> set B \<Longrightarrow> \<not> P x"
  shows "partition_point P (length p) (length p + length (A @ B)) (p @ (A @ B) @ q) = Some (length p + length A)"
proof -
  let ?xs = "p @ (A @ B) @ q" and ?l = "length p + length (A @ B)"
  have "P (?xs ! i)" if "length p \<le> i" "i < length p + length A" for i
    using that assms(1) by (simp add: nth_append)
  moreover have "\<not> P (?xs ! i)" if "length p + length A \<le> i" "i < ?l" for i
    using that assms(2) by (simp add: nth_append)
  ultimately have "splits P (length p) ?l ?xs (length p + length A)"
    by (auto simp: splits_def)
  then show ?thesis
    using partition_point_correct [of "length p" ?l ?xs P] splits_partitioned splits_unique by fastforce
qed

lemma upward_cut:
  assumes "upward lt s" "\<And>x y. P y \<Longrightarrow> \<not> lt y x \<Longrightarrow> P x"
  obtains A B where "s = A @ B" "\<And>x. x \<in> set A \<Longrightarrow> P x" "\<And>x. x \<in> set B \<Longrightarrow> \<not> P x"
proof
  show "s = takeWhile P s @ dropWhile P s"
    by simp
  show "P x" if "x \<in> set (takeWhile P s)" for x
    using that by (rule set_takeWhileD [THEN conjunct2])
  show "\<not> P x" if "x \<in> set (dropWhile P s)" for x
  proof (cases "dropWhile P s")
    case Nil
    then show ?thesis
      using that by (simp only: list.set empty_iff)
  next
    case (Cons y ys)
    have "upward lt (y # ys)"
      using assms(1) Cons by (metis sorted_wrt_append takeWhile_dropWhile_id)
    moreover have "\<not> P y"
      using Cons by (metis hd_dropWhile list.discI list.sel(1))
    ultimately show ?thesis
      using that Cons assms(2) [of x y] by auto
  qed
qed

lemma merge_cuts_block:
  assumes "upward lt as" "upward lt bs" "as \<noteq> []" "bs \<noteq> []" "3 \<le> length as + length bs"
  obtains A1 A2 B1 B2 where "as = A1 @ A2" "bs = B1 @ B2"
    "merge_cuts lt (length p) (length p + length as) (length p + length as + length bs) (length as) (length bs) (p @ as @ bs @ q) =
      Some (length p + length A1, length p + length as + length B1, length A1, length B1)"
    "\<And>a b. a \<in> set A2 \<Longrightarrow> b \<in> set B1 \<Longrightarrow> lt b a" "\<And>a b. a \<in> set A1 \<Longrightarrow> b \<in> set B2 \<Longrightarrow> \<not> lt b a"
    "length A1 + length B1 < length as + length bs" "0 < length A1 + length B1"
proof (cases "length as > length bs")
  case True
  define A1 A2 where "A1 = take (length as div 2) as" and "A2 = drop (length as div 2) as"
  have "2 \<le> length as"
    using True assms(4) by (cases bs) auto
  then have A: "as = A1 @ A2" "length A1 = length as div 2" "0 < length A1" "A2 \<noteq> []"
    by (auto simp: A1_def A2_def div_greater_zero_iff)
  then obtain v A2' where v: "A2 = v # A2'"
    by (cases A2) auto
  obtain B1 B2 where B: "bs = B1 @ B2" "\<And>x. x \<in> set B1 \<Longrightarrow> lt x v" "\<And>x. x \<in> set B2 \<Longrightarrow> \<not> lt x v"
    using upward_cut [OF assms(2), of "\<lambda>x. lt x v"] le_lt_trans by metis
  have "length p + length as div 2 = length (p @ A1)" "p @ as @ bs @ q = (p @ A1) @ v # A2' @ bs @ q"
    using A(2) by (simp_all only: length_append A(1) v append_assoc append_Cons)
  then have "aget (p @ as @ bs @ q) (length p + length as div 2) = Some v"
    by (simp only: aget_append)
  moreover have "lower_bound lt (length p + length as) (length p + length as + length bs) v (p @ as @ bs @ q) =
      Some (length p + length as + length B1)"
    using partition_point_block [of B1 "\<lambda>x. lt x v" B2 "p @ as" q] B by (simp add: lower_bound_eq)
  ultimately have cuts: "merge_cuts lt (length p) (length p + length as) (length p + length as + length bs) (length as)
      (length bs) (p @ as @ bs @ q) = Some (length p + length A1, length p + length as + length B1, length A1, length B1)"
    using True A(2) by (simp add: merge_cuts_def Let_def)
  have "\<not> lt a v" if "a \<in> set A2" for a
    using that assms(1) A(1) v by (auto simp: sorted_wrt_append)
  then have "lt b a" if "a \<in> set A2" "b \<in> set B1" for a b
    using that B(2) lt_le_trans by blast
  moreover have "\<not> lt v a" if "a \<in> set A1" for a
    using that assms(1) A(1) v by (auto simp: sorted_wrt_append)
  then have "\<not> lt b a" if "a \<in> set A1" "b \<in> set B2" for a b
    using that B(3) neg_trans by blast
  moreover have "length A1 + length B1 < length as + length bs"
    using A(1) v B(1) by simp
  ultimately show thesis
    using that [OF A(1) B(1) cuts] A(3) by simp
next
  case False
  define B1 B2 where "B1 = take (length bs div 2) bs" and "B2 = drop (length bs div 2) bs"
  have "2 \<le> length bs"
    using False assms(5) by linarith
  then have B: "bs = B1 @ B2" "length B1 = length bs div 2" "0 < length B1" "B2 \<noteq> []"
    by (auto simp: B1_def B2_def div_greater_zero_iff)
  then obtain v B2' where v: "B2 = v # B2'"
    by (cases B2) auto
  obtain A1 A2 where A: "as = A1 @ A2" "\<And>x. x \<in> set A1 \<Longrightarrow> \<not> lt v x" "\<And>x. x \<in> set A2 \<Longrightarrow> lt v x"
    using upward_cut [OF assms(1), of "\<lambda>x. \<not> lt v x"] neg_trans by metis
  have "length p + length as + length bs div 2 = length (p @ as @ B1)" "p @ as @ bs @ q = (p @ as @ B1) @ v # B2' @ q"
    using B(2) by (simp_all only: length_append B(1) v append_assoc append_Cons add.assoc)
  then have "aget (p @ as @ bs @ q) (length p + length as + length bs div 2) = Some v"
    by (simp only: aget_append)
  moreover have "upper_bound lt (length p) (length p + length as) v (p @ as @ bs @ q) = Some (length p + length A1)"
    using partition_point_block [of A1 "\<lambda>x. \<not> lt v x" A2 p "bs @ q"] A by (simp add: upper_bound_eq)
  ultimately have cuts: "merge_cuts lt (length p) (length p + length as) (length p + length as + length bs) (length as)
      (length bs) (p @ as @ bs @ q) = Some (length p + length A1, length p + length as + length B1, length A1, length B1)"
    using False B(2) by (simp add: merge_cuts_def Let_def)
  have "\<not> lt v b" if "b \<in> set B1" for b
    using that assms(2) B(1) v by (auto simp: sorted_wrt_append)
  then have "lt b a" if "a \<in> set A2" "b \<in> set B1" for a b
    using that A(3) le_lt_trans by blast
  moreover have "\<not> lt b v" if "b \<in> set B2" for b
    using that assms(2) B(1) v by (auto simp: sorted_wrt_append)
  then have "\<not> lt b a" if "a \<in> set A1" "b \<in> set B2" for a b
    using that A(2) neg_trans by blast
  moreover have "length A1 + length B1 < length as + length bs"
    using B(1) v A(1) by simp
  ultimately show thesis
    using that [OF A(1) B(1) cuts] B(3) by simp
qed

subsection \<open>The algorithms\<close>

lemma merge_without_buffer_correct:
  assumes "upward lt as" "upward lt bs"
  shows "merge_without_buffer is_pod lt (length p) (length p + length as) (length p + length as + length bs) (length as) (length bs)
    (p @ as @ bs @ q) = Some (p @ lmerge lt as bs @ q)"
  using assms
proof (induction "length as + length bs" arbitrary: as bs p q rule: less_induct)
  case less
  have "2 \<le> length as + length bs" if "as \<noteq> []" "bs \<noteq> []"
    using that by (cases as; cases bs) auto
  then consider "as = [] \<or> bs = []" | "as \<noteq> []" "bs \<noteq> []" "length as + length bs = 2"
    | "as \<noteq> []" "bs \<noteq> []" "3 \<le> length as + length bs"
    by (cases "as = [] \<or> bs = []"; cases "length as + length bs = 2") auto
  then show ?case
  proof cases
    case 1
    then show ?thesis
      by (subst merge_without_buffer.simps) auto
  next
    case 2
    then obtain a b where "as = [a]" "bs = [b]"
      by (cases as; cases bs) auto
    then show ?thesis
      using iter_swap_append [of p "[]" a b q] aget_behind [of "Suc (length p)" "p @ [a]" b q]
      by (subst merge_without_buffer.simps) (simp add: icmp_def)
  next
    case 3
    obtain A1 A2 B1 B2 where cut: "as = A1 @ A2" "bs = B1 @ B2"
      "merge_cuts lt (length p) (length p + length as) (length p + length as + length bs) (length as) (length bs) (p @ as @ bs @ q) =
        Some (length p + length A1, length p + length as + length B1, length A1, length B1)"
      "\<And>a b. a \<in> set A2 \<Longrightarrow> b \<in> set B1 \<Longrightarrow> lt b a" "\<And>a b. a \<in> set A1 \<Longrightarrow> b \<in> set B2 \<Longrightarrow> \<not> lt b a"
      "length A1 + length B1 < length as + length bs" "0 < length A1 + length B1"
      using merge_cuts_block [OF less.prems 3] by metis
    have up: "upward lt A1" "upward lt A2" "upward lt B1" "upward lt B2"
      using less.prems cut(1,2) by (auto simp: sorted_wrt_append)
    have rot: "rotate_random is_pod (length p + length A1) (length p + length as) (length p + length as + length B1) (p @ as @ bs @ q) =
        Some (p @ A1 @ B1 @ A2 @ B2 @ q, length p + length A1 + length B1)"
      using rotate_random_correct [of is_pod "p @ A1" A2 B1 "B2 @ q"] cut(1,2) by (simp add: add.assoc)
    have left: "merge_without_buffer is_pod lt (length p) (length p + length A1) (length p + length A1 + length B1) (length A1)
        (length B1) (p @ A1 @ B1 @ A2 @ B2 @ q) = Some (p @ lmerge lt A1 B1 @ A2 @ B2 @ q)"
      using less.hyps [OF cut(6) up(1,3), of p "A2 @ B2 @ q"] by simp
    have "length A2 + length B2 < length as + length bs"
      using cut(1,2,7) by simp
    then have right: "merge_without_buffer is_pod lt (length p + length A1 + length B1) (length p + length as + length B1)
        (length p + length as + length bs) (length A2) (length B2) (p @ lmerge lt A1 B1 @ A2 @ B2 @ q) =
        Some (p @ lmerge lt A1 B1 @ lmerge lt A2 B2 @ q)"
      using less.hyps [OF _ up(2,4), of "p @ lmerge lt A1 B1" q] cut(1,2) by (simp add: ac_simps)
    have "lmerge lt as bs = lmerge lt A1 B1 @ lmerge lt A2 B2"
      using lmerge_cut [of A1 A2 B1 B2] less.prems cut(1,2,4,5) by simp
    moreover have "length as - length A1 = length A2" "length bs - length B1 = length B2"
      "length p + length A1 + (length p + length as + length B1 - (length p + length as)) = length p + length A1 + length B1"
      using cut(1,2) by auto
    moreover have "length as + length bs \<noteq> 2"
      using 3(3) by simp
    ultimately show ?thesis
      using cut(3) rot left right 3(1,2) by (subst merge_without_buffer.simps) (simp add: Let_def)
  qed
qed

lemma rotate_adaptive_block:
  assumes "n \<le> length buf"
  shows "\<exists>buf'. length buf' = length buf \<and>
    rotate_adaptive is_pod (length p) (length p + length A) (length p + length A + length B) (length A) (length B) n buf
      (p @ A @ B @ q) = Some (buf', p @ B @ A @ q, length p + length B)"
proof -
  consider "length A > length B" "length B \<le> n" "B \<noteq> []" | "length A > length B" "B = []"
    | "\<not> (length A > length B \<and> length B \<le> n)" "length A \<le> n" "A \<noteq> []"
    | "\<not> (length A > length B \<and> length B \<le> n)" "A = []"
    | "\<not> (length A > length B \<and> length B \<le> n)" "\<not> length A \<le> n"
    by (cases "A = []"; cases "B = []"; cases "length A > length B"; cases "length B \<le> n"; cases "length A \<le> n") auto
  then show ?thesis
  proof cases
    case 1
    let ?buf = "B @ drop (length B) buf"
    have "length B \<le> length buf"
      using 1(2) assms by simp
    then have "move_to (length p + length A) (length p + length A + length B) 0 (p @ A @ B @ q) buf = Some (?buf, length B)"
      using move_to_block [of "take (length B) buf" B "p @ A" "[]" q "drop (length B) buf"] by simp
    moreover obtain J where J: "length J = length B" "move_backward (length p) (length p + length A) (length p + length A + length B)
        (p @ A @ B @ q) = Some (p @ J @ A @ q, length p + length B)"
      using move_backward_loop_block [of B A p q] by (auto simp: move_backward_def)
    moreover have "move_to 0 (length B) (length p) ?buf (p @ J @ A @ q) = Some (p @ B @ A @ q, length p + length B)"
      using move_to_block [of J B "[]" p "drop (length B) buf" "A @ q"] J(1) by simp
    ultimately show ?thesis
      using 1 \<open>length B \<le> length buf\<close> by (intro exI [of _ ?buf]) (simp add: rotate_adaptive_def)
  next
    case 3
    let ?buf = "A @ drop (length A) buf"
    have "length A \<le> length buf"
      using 3(2) assms by simp
    then have "move_to (length p) (length p + length A) 0 (p @ A @ B @ q) buf = Some (?buf, length A)"
      using move_to_block [of "take (length A) buf" A p "[]" "B @ q" "drop (length A) buf"] by simp
    moreover obtain J where J: "length J = length A" "move_range (length p + length A) (length p + length A + length B) (length p)
        (p @ A @ B @ q) = Some (p @ B @ J @ q, length p + length B)"
      using move_loop_block [of A B p q] by (auto simp: move_range_def)
    moreover have "move_backward_to 0 (length A) (length p + length A + length B) ?buf (p @ B @ J @ q) =
        Some (p @ B @ A @ q, length p + length B)"
      using move_backward_to_loop_block [of J A "[]" "p @ B" "drop (length A) buf" q] J(1)
      by (simp add: move_backward_to_def ac_simps)
    ultimately show ?thesis
      using 3 \<open>length A \<le> length buf\<close> by (intro exI [of _ ?buf]) (auto simp: rotate_adaptive_def)
  next
    case 5
    then show ?thesis
      using rotate_random_correct [of is_pod p A B q] by (intro exI [of _ buf]) (auto simp: rotate_adaptive_def)
  qed (auto simp: rotate_adaptive_def)
qed

lemma merge_adaptive_correct:
  assumes "upward lt as" "upward lt bs" "0 < n" "n \<le> length buf"
  shows "\<exists>buf'. length buf' = length buf \<and>
    merge_adaptive is_pod lt (length p) (length p + length as) (length p + length as + length bs) (length as) (length bs) n buf
      (p @ as @ bs @ q) = Some (buf', p @ lmerge lt as bs @ q)"
  using assms
proof (induction "length as + length bs" arbitrary: as bs p q buf rule: less_induct)
  case less
  consider "length as \<le> length bs" "length as \<le> n" | "\<not> (length as \<le> length bs \<and> length as \<le> n)" "length bs \<le> n"
    | "\<not> (length as \<le> length bs \<and> length as \<le> n)" "\<not> length bs \<le> n"
    by linarith
  then show ?case
  proof cases
    case 1
    let ?buf = "as @ drop (length as) buf"
    have len: "length as \<le> length buf"
      using 1(2) less.prems(4) by simp
    then have "move_to (length p) (length p + length as) 0 (p @ as @ bs @ q) buf = Some (?buf, length as)"
      using move_to_block [of "take (length as) buf" as p "[]" "bs @ q" "drop (length as) buf"] by simp
    moreover have "move_merge_adaptive lt 0 (length as) (length p + length as) (length p + length as + length bs) (length p)
        ?buf (p @ as @ bs @ q) = Some (p @ lmerge lt as bs @ q)"
      using move_merge_adaptive_block [of as as lt "[]" p bs "drop (length as) buf" q] by simp
    ultimately show ?thesis
      using 1 len by (intro exI [of _ ?buf]) (subst merge_adaptive.simps, simp)
  next
    case 2
    let ?buf = "bs @ drop (length bs) buf"
    have len: "length bs \<le> length buf"
      using 2(2) less.prems(4) by simp
    then have "move_to (length p + length as) (length p + length as + length bs) 0 (p @ as @ bs @ q) buf = Some (?buf, length bs)"
      using move_to_block [of "take (length bs) buf" bs "p @ as" "[]" q "drop (length bs) buf"] by simp
    moreover have "move_merge_adaptive_backward lt (length p) (length p + length as) 0 (length bs) (length p + length as + length bs)
        ?buf (p @ as @ bs @ q) = Some (p @ lmerge lt as bs @ q)"
      using move_merge_adaptive_backward_block [OF less.prems(1,2) refl, of p "[]" "drop (length bs) buf" q] by simp
    ultimately show ?thesis
      using 2 len by (intro exI [of _ ?buf]) (subst merge_adaptive.simps, auto)
  next
    case 3
    then have ne: "as \<noteq> []" "bs \<noteq> []" "3 \<le> length as + length bs"
      using less.prems(3) by (auto simp: not_le)
    obtain A1 A2 B1 B2 where cut: "as = A1 @ A2" "bs = B1 @ B2"
      "merge_cuts lt (length p) (length p + length as) (length p + length as + length bs) (length as) (length bs) (p @ as @ bs @ q) =
        Some (length p + length A1, length p + length as + length B1, length A1, length B1)"
      "\<And>a b. a \<in> set A2 \<Longrightarrow> b \<in> set B1 \<Longrightarrow> lt b a" "\<And>a b. a \<in> set A1 \<Longrightarrow> b \<in> set B2 \<Longrightarrow> \<not> lt b a"
      "length A1 + length B1 < length as + length bs" "0 < length A1 + length B1"
      using merge_cuts_block [OF less.prems(1,2) ne] by metis
    have up: "upward lt A1" "upward lt A2" "upward lt B1" "upward lt B2"
      using less.prems(1,2) cut(1,2) by (auto simp: sorted_wrt_append)
    have minus: "length as - length A1 = length A2" "length bs - length B1 = length B2"
      using cut(1,2) by auto
    obtain buf1 where buf1: "length buf1 = length buf"
      "rotate_adaptive is_pod (length p + length A1) (length p + length as) (length p + length as + length B1)
        (length as - length A1) (length B1) n buf (p @ as @ bs @ q) =
        Some (buf1, p @ A1 @ B1 @ A2 @ B2 @ q, length p + length A1 + length B1)"
      using rotate_adaptive_block [OF less.prems(4), of is_pod "p @ A1" A2 B1 "B2 @ q"] cut(1,2) by (auto simp: add.assoc)
    obtain buf2 where buf2: "length buf2 = length buf"
      "merge_adaptive is_pod lt (length p) (length p + length A1) (length p + length A1 + length B1) (length A1) (length B1) n buf1
        (p @ A1 @ B1 @ A2 @ B2 @ q) = Some (buf2, p @ lmerge lt A1 B1 @ A2 @ B2 @ q)"
      using less.hyps [OF cut(6) up(1,3) less.prems(3), of buf1 p "A2 @ B2 @ q"] buf1(1) less.prems(4) by auto
    have "length A2 + length B2 < length as + length bs"
      using cut(1,2,7) by simp
    then obtain buf3 where buf3: "length buf3 = length buf"
      "merge_adaptive is_pod lt (length p + length A1 + length B1) (length p + length as + length B1) (length p + length as + length bs)
        (length as - length A1) (length bs - length B1) n buf2 (p @ lmerge lt A1 B1 @ A2 @ B2 @ q) =
        Some (buf3, p @ lmerge lt A1 B1 @ lmerge lt A2 B2 @ q)"
      using less.hyps [OF _ up(2,4) less.prems(3), of buf2 "p @ lmerge lt A1 B1" q] buf2(1) less.prems(4) cut(1,2)
      by (auto simp: ac_simps)
    have "lmerge lt as bs = lmerge lt A1 B1 @ lmerge lt A2 B2"
      using lmerge_cut [of A1 A2 B1 B2] less.prems(1,2) cut(1,2,4,5) by simp
    then show ?thesis
      using cut(3) buf1(2) buf2(2) buf3 3 by (intro exI [of _ buf3]) (subst merge_adaptive.simps, auto)
  qed
qed

subsection \<open>With the temporary buffer\<close>

lemma temporary_buffer_total:
  assumes "first < lst" "lst \<le> length xs"
  shows "temporary_buffer al first lst xs = Some None \<or> (\<exists>buf. temporary_buffer al first lst xs = Some (Some buf) \<and> buf \<noteq> [])"
  using assms by (auto simp: temporary_buffer_def Let_def)

lemma inplace_merge_correct:
  assumes "upward lt as" "upward lt bs"
  shows "inplace_merge al is_pod lt (length p) (length p + length as) (length p + length as + length bs) (p @ as @ bs @ q) =
    Some (p @ lmerge lt as bs @ q)"
proof (cases "as = [] \<or> bs = []")
  case False
  consider "temporary_buffer al (length p) (length p + length as + length bs) (p @ as @ bs @ q) = Some None"
    | buf where "temporary_buffer al (length p) (length p + length as + length bs) (p @ as @ bs @ q) = Some (Some buf)" "buf \<noteq> []"
    using temporary_buffer_total [of "length p" "length p + length as + length bs" "p @ as @ bs @ q" al] False by auto
  then show ?thesis
  proof cases
    case 1
    then show ?thesis
      using False merge_without_buffer_correct [OF assms, of is_pod p q] by (simp add: inplace_merge_def Let_def)
  next
    case 2
    then show ?thesis
      using False merge_adaptive_correct [OF assms, of "length buf" buf is_pod p q] by (auto simp: inplace_merge_def Let_def)
  qed
qed (auto simp: inplace_merge_def)

end

end
