(* ===== verification/Stl_Stable.thy ===== *)
theory Stl_Stable
  imports Stl_Merge
begin

text \<open>
  \<open>std::stable_sort\<close> of libstdc++ (\<^verbatim>\<open>c++/8.2.0/bits/stl_algo.h\<close>): bottom-up merge sort between
  the container and a temporary buffer when there is memory for one, with a top-down
  merge sort above it when the buffer is small, and an in-place merge sort otherwise.

  All of them compute the one sorted list in which equivalent elements keep their order.
\<close>

section \<open>The algorithms\<close>

partial_function (option) chunk_insertion_sort ::
  "('a \<Rightarrow> 'a \<Rightarrow> bool) \<Rightarrow> nat \<Rightarrow> nat \<Rightarrow> nat \<Rightarrow> 'a list \<Rightarrow> 'a list option" where
  "chunk_insertion_sort cmp first lst chunk_size xs =
     (if lst - first \<ge> chunk_size then
        Option.bind (insertion_sort cmp first (first + chunk_size) xs) (\<lambda>xs.
          chunk_insertion_sort cmp (first + chunk_size) lst chunk_size xs)
      else insertion_sort cmp first lst xs)"

partial_function (option) merge_sort_loop ::
  "('a \<Rightarrow> 'a \<Rightarrow> bool) \<Rightarrow> nat \<Rightarrow> nat \<Rightarrow> nat \<Rightarrow> nat \<Rightarrow> 'a list \<Rightarrow> 'a list \<Rightarrow> 'a list option" where
  "merge_sort_loop cmp first lst result step_size src dst =
     (let two_step = 2 * step_size in
      if lst - first \<ge> two_step then
        Option.bind (move_merge cmp first (first + step_size) (first + step_size) (first + two_step) result src dst)
          (\<lambda>(dst, result). merge_sort_loop cmp (first + two_step) lst result step_size src dst)
      else
        let step_size = min (lst - first) step_size
        in map_option fst (move_merge cmp first (first + step_size) (first + step_size) lst result src dst))"

abbreviation (input) S_chunk_size :: nat where "S_chunk_size \<equiv> 7"

partial_function (option) merge_sort_doubling ::
  "('a \<Rightarrow> 'a \<Rightarrow> bool) \<Rightarrow> nat \<Rightarrow> nat \<Rightarrow> nat \<Rightarrow> 'a list \<Rightarrow> 'a list \<Rightarrow> ('a list \<times> 'a list) option" where
  "merge_sort_doubling cmp first lst step_size buf xs =
     (let len = lst - first in
      if step_size < len then
        Option.bind (merge_sort_loop cmp first lst 0 step_size xs buf) (\<lambda>buf.
        Option.bind (merge_sort_loop cmp 0 len first (step_size * 2) buf xs) (\<lambda>xs.
          merge_sort_doubling cmp first lst (step_size * 2 * 2) buf xs))
      else Some (buf, xs))"

definition merge_sort_with_buffer ::
  "('a \<Rightarrow> 'a \<Rightarrow> bool) \<Rightarrow> nat \<Rightarrow> nat \<Rightarrow> 'a list \<Rightarrow> 'a list \<Rightarrow> ('a list \<times> 'a list) option" where
  "merge_sort_with_buffer cmp first lst buf xs = do {
     xs \<leftarrow> chunk_insertion_sort cmp first lst S_chunk_size xs;
     merge_sort_doubling cmp first lst S_chunk_size buf xs }"

partial_function (option) stable_sort_adaptive ::
  "bool \<Rightarrow> ('a \<Rightarrow> 'a \<Rightarrow> bool) \<Rightarrow> nat \<Rightarrow> nat \<Rightarrow> nat \<Rightarrow> 'a list \<Rightarrow> 'a list \<Rightarrow> ('a list \<times> 'a list) option" where
  "stable_sort_adaptive is_pod cmp first lst buffer_size buf xs =
     (let len = (lst - first + 1) div 2;
          middle = first + len in
      Option.bind
        (if len > buffer_size then
           Option.bind (stable_sort_adaptive is_pod cmp first middle buffer_size buf xs) (\<lambda>(buf, xs).
             stable_sort_adaptive is_pod cmp middle lst buffer_size buf xs)
         else
           Option.bind (merge_sort_with_buffer cmp first middle buf xs) (\<lambda>(buf, xs).
             merge_sort_with_buffer cmp middle lst buf xs))
        (\<lambda>(buf, xs). merge_adaptive is_pod cmp first middle lst (middle - first) (lst - middle) buffer_size buf xs))"

function inplace_stable_sort :: "bool \<Rightarrow> ('a \<Rightarrow> 'a \<Rightarrow> bool) \<Rightarrow> nat \<Rightarrow> nat \<Rightarrow> 'a list \<Rightarrow> 'a list option" where
  "inplace_stable_sort is_pod cmp first lst xs =
     (if lst - first < 15 then insertion_sort cmp first lst xs
      else do {
        let middle = first + (lst - first) div 2;
        xs \<leftarrow> inplace_stable_sort is_pod cmp first middle xs;
        xs \<leftarrow> inplace_stable_sort is_pod cmp middle lst xs;
        merge_without_buffer is_pod cmp first middle lst (middle - first) (lst - middle) xs })"
  by pat_completeness auto

termination inplace_stable_sort
  by (relation "measure (\<lambda>(is_pod, cmp, first, lst, xs). lst - first)") auto

declare inplace_stable_sort.simps [simp del]

definition stable_sort :: "'a allocation \<Rightarrow> bool \<Rightarrow> ('a \<Rightarrow> 'a \<Rightarrow> bool) \<Rightarrow> nat \<Rightarrow> nat \<Rightarrow> 'a list \<Rightarrow> 'a list option" where
  "stable_sort al is_pod cmp first lst xs = do {
     b \<leftarrow> temporary_buffer al first lst xs;
     (case b of
        None \<Rightarrow> inplace_stable_sort is_pod cmp first lst xs
      | Some buf \<Rightarrow> map_option snd (stable_sort_adaptive is_pod cmp first lst (length buf) buf xs)) }"

section \<open>Insertion sort is stable\<close>

lemma filter_swap_adjacent:
  assumes "Suc h < length xs" "\<not> (P v \<and> P (xs ! h))"
  shows "filter P (xs[Suc h := xs ! h, h := v]) = filter P (xs[Suc h := v])"
proof -
  have xs: "xs = take h xs @ xs ! h # xs ! Suc h # drop (Suc (Suc h)) xs"
    using assms(1) by (simp add: Cons_nth_drop_Suc)
  have h: "length (take h xs) = h"
    using assms(1) by simp
  define p x y q where "p = take h xs" and "x = xs ! h" and "y = xs ! Suc h" and "q = drop (Suc (Suc h)) xs"
  have "xs[Suc h := x, h := v] = p @ v # x # q" "xs[Suc h := v] = p @ x # v # q"
    using xs h unfolding p_def [symmetric] x_def [symmetric] y_def [symmetric] q_def [symmetric]
    by (simp_all add: list_update_append)
  then show ?thesis
    using assms(2) by (auto simp: x_def)
qed

context strict_weak_order
begin

lemma linear_insert_loop_stable:
  assumes "unguarded_linear_insert_loop lt v h xs = Some ys" "h < length xs"
  shows "filter (eqv lt w) ys = filter (eqv lt w) (xs[h := v])"
  using assms
proof (induction h arbitrary: xs)
  case (Suc h)
  show ?case
  proof (cases "lt v (xs ! h)")
    case True
    then have "filter (eqv lt w) ys = filter (eqv lt w) (xs[Suc h := xs ! h, h := v])"
      using Suc.IH [of "xs[Suc h := xs ! h]"] Suc.prems by simp
    also have "\<dots> = filter (eqv lt w) (xs[Suc h := v])"
      using Suc.prems(2) not_eqv [OF True] by (intro filter_swap_adjacent) auto
    finally show ?thesis .
  qed (use Suc.prems in simp)
qed simp

lemma insert_front_stable:
  assumes "f < i" "i < length xs" "sorted_range lt f i xs" "lt (xs ! i) (xs ! f)"
    and "do { (xs, r) \<leftarrow> move_backward f i (i + 1) xs; aset f v xs } = Some ys" "v = xs ! i"
  shows "filter (eqv lt w) ys = filter (eqv lt w) xs"
proof -
  define p s q where "p = take f xs" and "s = slice f i xs" and "q = drop (Suc i) xs"
  have xs: "xs = p @ s @ v # q" "length p = f" "length s = i - f"
    using slice_split [of f i xs] assms(1,2) by (simp_all add: p_def s_def assms(6) q_def Cons_nth_drop_Suc)
  obtain J where J: "length J = 1" "move_backward_loop (i - f) i (i + 1) xs = Some (p @ J @ s @ q, f + 1)"
    using move_backward_loop_block [of "[v]" s p q] xs assms(1) by auto
  then obtain j where "J = [j]"
    by (cases J) auto
  then have ys: "ys = p @ v # s @ q"
    using assms(5) J(2) xs(2) aset_append [of p v j "s @ q"] by (simp add: move_backward_def)
  have "lt v x" if x: "x \<in> set s" for x
  proof -
    have "x \<in> (\<lambda>i. xs ! i) ` {f..<i}"
      using x slice_set [of i xs f] assms(2) unfolding s_def by simp
    then obtain k where "x = xs ! k" "f \<le> k" "k < i"
      by auto
    then have "\<not> lt x (xs ! f)"
      using assms(3) by (cases "k = f") (auto simp: sorted_range_def)
    then show ?thesis
      using lt_le_trans [OF assms(4)] by (simp add: assms(6))
  qed
  then have "filter (eqv lt w) s = []" if "eqv lt w v"
    using that not_eqv unfolding filter_empty_conv by blast
  then show ?thesis
    unfolding ys xs(1) by simp
qed

lemma insertion_sort_loop_stable:
  assumes "f < i" "i \<le> l" "l \<le> length xs" "sorted_range lt f i xs" "insertion_sort_loop lt f l i xs = Some ys"
  shows "filter (eqv lt w) ys = filter (eqv lt w) xs"
  using assms
proof (induction "l - i" arbitrary: i xs)
  case 0
  then show ?case
    by (simp add: insertion_sort_loop.simps)
next
  case (Suc d)
  then have i: "i < length xs" "i \<noteq> l" "d = l - (i + 1)" "f < length xs" "Suc i \<le> l"
    by linarith+
  let ?step = "if lt (xs ! i) (xs ! f) then do {
             val \<leftarrow> aget xs i;
             (xs, r) \<leftarrow> move_backward f i (i + 1) xs;
             aset f val xs }
           else unguarded_linear_insert lt i xs"
  have "\<exists>zs. ?step = Some zs \<and> rearranged f (Suc i) xs zs \<and> sorted_range lt f (Suc i) zs \<and>
      filter (eqv lt w) zs = filter (eqv lt w) xs"
  proof (cases "lt (xs ! i) (xs ! f)")
    case True
    let ?v = "xs ! i"
    obtain zs where "do { (xs, r) \<leftarrow> move_backward f i (i + 1) xs; aset f ?v xs } = Some zs"
      "rearranged f (Suc i) xs zs" "sorted_range lt f (Suc i) zs"
      using insert_front [OF Suc.prems(1) i(1) Suc.prems(4) True, of "xs ! i"] by auto
    then show ?thesis
      using True i(1) insert_front_stable [OF Suc.prems(1) i(1) Suc.prems(4) True _ refl] by auto
  next
    case False
    then obtain zs where "unguarded_linear_insert lt i xs = Some zs" "rearranged f (Suc i) xs zs" "sorted_range lt f (Suc i) zs"
      using linear_insert_correct [OF i(1) le_refl Suc.prems(1) _ Suc.prems(4)] by auto
    then show ?thesis
      using False i(1) linear_insert_loop_stable [of "xs ! i" i xs zs] by (simp add: unguarded_linear_insert_def)
  qed
  then obtain zs where zs: "?step = Some zs" "rearranged f (Suc i) xs zs" "sorted_range lt f (Suc i) zs"
      "filter (eqv lt w) zs = filter (eqv lt w) xs"
    by blast
  have "insertion_sort_loop lt f l (i + 1) zs = Some ys"
    using Suc.prems(5) zs(1) i by (subst (asm) insertion_sort_loop.simps) simp
  then show ?case
    using Suc.hyps(1) [OF i(3), of zs] Suc.prems(1,3) i(5) zs rearranged_length [OF zs(2)] by simp
qed

lemma insertion_sort_stable:
  assumes "f \<le> l" "l \<le> length xs" "insertion_sort lt f l xs = Some ys"
  shows "filter (eqv lt w) ys = filter (eqv lt w) xs"
proof (cases "f = l")
  case False
  have "sorted_range lt f (f + 1) xs"
    by (auto simp: sorted_range_def)
  then show ?thesis
    using insertion_sort_loop_stable [of f "f + 1" l xs ys w] assms False by (simp add: insertion_sort_def)
qed (use assms in \<open>simp add: insertion_sort_def\<close>)

text \<open>Facts on the relation.\<close>

lemma stable_sorted_mset: "stable_sorted lt s t \<Longrightarrow> mset t = mset s"
proof (rule multiset_eqI)
  fix x assume "stable_sorted lt s t"
  then have "count (mset (filter (eqv lt x) t)) x = count (mset (filter (eqv lt x) s)) x"
    by (simp add: stable_sorted_def)
  then show "count (mset t) x = count (mset s) x"
    by simp
qed

lemma stable_sorted_length: "stable_sorted lt s t \<Longrightarrow> length t = length s"
  by (metis stable_sorted_mset mset_eq_length)

lemma stable_sorted_merge:
  "stable_sorted lt a b \<Longrightarrow> stable_sorted lt c d \<Longrightarrow> stable_sorted lt (a @ c) (lmerge lt b d)"
  using lmerge_stable [of b d] by (simp add: stable_sorted_def)

lemma insertion_sort_block:
  "\<exists>t. stable_sorted lt s t \<and>
    insertion_sort lt (length p) (length p + length s) (p @ s @ q) = Some (p @ t @ q)"
proof -
  let ?f = "length p" and ?l = "length p + length s" and ?xs = "p @ s @ q"
  obtain ys where ys: "insertion_sort lt ?f ?l ?xs = Some ys" "rearranged ?f ?l ?xs ys" "sorted_range lt ?f ?l ys"
    using insertion_sort_correct [of ?f ?l ?xs] by auto
  define t where "t = slice ?f ?l ys"
  have "?l \<le> length ys"
    using rearranged_length [OF ys(2)] by simp
  then have split: "ys = p @ t @ q" and up: "upward lt t"
    using slice_split [of ?f ?l ys] ys(2,3) sorted_range_sorted_wrt [of ?l ys lt ?f] by (simp_all add: rearranged_def t_def)
  have "filter (eqv lt v) ys = filter (eqv lt v) ?xs" for v
    using insertion_sort_stable [OF _ _ ys(1)] by simp
  then have "stable_sorted lt s t"
    using up split by (simp add: stable_sorted_def)
  then show ?thesis
    using ys(1) split by auto
qed

end

section \<open>Runs\<close>

text \<open>Every run of \<open>n\<close> elements of \<open>t\<close> is the run of \<open>s\<close> at the same place, stably sorted.\<close>

definition runs :: "('a \<Rightarrow> 'a \<Rightarrow> bool) \<Rightarrow> nat \<Rightarrow> 'a list \<Rightarrow> 'a list \<Rightarrow> bool" where
  "runs lt n s t \<longleftrightarrow> length t = length s \<and> (\<forall>k. stable_sorted lt (take n (drop (k * n) s)) (take n (drop (k * n) t)))"

lemma runs_split: "runs lt n s t \<Longrightarrow> stable_sorted lt (take n s) (take n t) \<and> runs lt n (drop n s) (drop n t)"
proof
  assume r: "runs lt n s t"
  then show "stable_sorted lt (take n s) (take n t)"
    unfolding runs_def by (metis drop0 mult_0)
  have "stable_sorted lt (take n (drop (k * n) (drop n s))) (take n (drop (k * n) (drop n t)))" for k
    using r unfolding runs_def drop_drop by (metis mult_Suc add.commute)
  then show "runs lt n (drop n s) (drop n t)"
    using r by (simp add: runs_def)
qed

lemma runs_short:
  assumes "runs lt n s t" "length s \<le> n"
  shows "stable_sorted lt s t"
proof -
  have "length t = length s"
    using assms(1) by (simp add: runs_def)
  then show ?thesis
    using conjunct1 [OF runs_split [OF assms(1)]] assms(2) by simp
qed

context strict_weak_order
begin

lemma runs_Cons:
  assumes "stable_sorted lt a b" "length a = n" "runs lt n s t"
  shows "runs lt n (a @ s) (b @ t)"
proof -
  have b: "length b = n"
    using stable_sorted_length [OF assms(1)] assms(2) by simp
  have "stable_sorted lt (take n (drop (k * n) (a @ s))) (take n (drop (k * n) (b @ t)))" for k
  proof (cases k)
    case 0
    then show ?thesis
      using assms(1,2) b by simp
  next
    case (Suc j)
    then show ?thesis
      using assms(2,3) b by (simp add: runs_def)
  qed
  then show ?thesis
    using assms(2,3) b by (simp add: runs_def)
qed

lemma runs_single:
  assumes "stable_sorted lt s t" "length s \<le> n"
  shows "runs lt n s t"
proof -
  have t: "length t = length s"
    by (rule stable_sorted_length [OF assms(1)])
  have "stable_sorted lt (take n (drop (k * n) s)) (take n (drop (k * n) t))" for k
  proof (cases k)
    case 0
    then show ?thesis
      using assms t by simp
  next
    case (Suc j)
    then have "length s \<le> k * n"
      using assms(2) by simp
    then show ?thesis
      using t by (simp add: stable_sorted_def)
  qed
  then show ?thesis
    using t by (simp add: runs_def)
qed

lemma chunk_insertion_sort_block:
  assumes "0 < n"
  shows "\<exists>t. runs lt n s t \<and>
    chunk_insertion_sort lt (length p) (length p + length s) n (p @ s @ q) = Some (p @ t @ q)"
proof (induction "length s" arbitrary: s p rule: less_induct)
  case less
  show ?case
  proof (cases "length s \<ge> n")
    case False
    then show ?thesis
      using insertion_sort_block [of s p q] runs_single [of s _ n] by (subst chunk_insertion_sort.simps) auto
  next
    case True
    let ?a = "take n s" and ?s = "drop n s"
    obtain b where b: "stable_sorted lt ?a b" "insertion_sort lt (length p) (length p + n) (p @ s @ q) = Some (p @ b @ ?s @ q)"
      using insertion_sort_block [of ?a p "?s @ q"] True by (auto simp flip: append_assoc)
    have lb: "length b = n"
      using stable_sorted_length [OF b(1)] True by simp
    obtain t where t: "runs lt n ?s t" "chunk_insertion_sort lt (length (p @ b)) (length (p @ b) + length ?s) n ((p @ b) @ ?s @ q) =
        Some ((p @ b) @ t @ q)"
      using less [of ?s "p @ b"] True assms by (cases s) auto
    have "runs lt n s (b @ t)"
      using runs_Cons [OF b(1) _ t(1)] True by simp
    then show ?thesis
      using b(2) t(2) lb True by (intro exI [of _ "b @ t"]) (subst chunk_insertion_sort.simps, simp)
  qed
qed

lemma move_merge_block:
  assumes "length J = length as + length bs"
  shows "move_merge lt (length p) (length p + length as) (length p + length as) (length p + length as + length bs) (length d)
    (p @ as @ bs @ q) (d @ J @ e) = Some (d @ lmerge lt as bs @ e, length d + length as + length bs)"
  using merge_block [OF assms, of lt p "p @ as" d "bs @ q" q e] by (simp add: move_merge_eq add.assoc)

lemma merge_sort_loop_block:
  assumes "0 < n" "runs lt n s t" "length J = length t"
  shows "\<exists>t'. runs lt (2 * n) s t' \<and>
    merge_sort_loop lt (length p) (length p + length t) (length d) n (p @ t @ q) (d @ J @ e) = Some (d @ t' @ e)"
  using assms(2,3)
proof (induction "length s" arbitrary: s t J p d rule: less_induct)
  case less
  have len: "length t = length s"
    using less.prems(1) by (simp add: runs_def)
  show ?case
  proof (cases "2 * n \<le> length t")
    case True
    let ?t1 = "take n t" and ?t2 = "take n (drop n t)" and ?t3 = "drop n (drop n t)"
    let ?s1 = "take n s" and ?s2 = "take n (drop n s)" and ?s3 = "drop n (drop n s)"
    have r: "stable_sorted lt ?s1 ?t1" "stable_sorted lt ?s2 ?t2" "runs lt n ?s3 ?t3"
      using runs_split [OF less.prems(1)] runs_split [of lt n "drop n s" "drop n t"] by auto
    have lens: "length ?t1 = n" "length ?t2 = n" "length ?s3 < length s"
      using True len assms(1) by auto
    have t: "t = ?t1 @ ?t2 @ ?t3" and s: "s = (?s1 @ ?s2) @ ?s3"
      by (simp_all only: append_take_drop_id append_assoc)
    have tq: "?t1 @ ?t2 @ ?t3 @ q = t @ q"
      by (metis append_assoc append_take_drop_id)
    define J1 J2 where "J1 = take (2 * n) J" and "J2 = drop (2 * n) J"
    have J: "J = J1 @ J2" "length J1 = length ?t1 + length ?t2" "length J2 = length ?t3"
      using True less.prems(2) by (auto simp: J1_def J2_def)
    let ?m = "lmerge lt ?t1 ?t2"
    have merged: "move_merge lt (length p) (length p + n) (length p + n) (length p + 2 * n) (length d) (p @ t @ q) (d @ J @ e) =
        Some (d @ ?m @ J2 @ e, length d + 2 * n)"
      using move_merge_block [OF J(2), where p = p and q = "?t3 @ q" and d = d and e = "J2 @ e", unfolded tq] lens(1,2) J(1)
      by (simp add: mult_2 add.assoc)
    obtain t' where t': "runs lt (2 * n) ?s3 t'"
      "merge_sort_loop lt (length (p @ ?t1 @ ?t2)) (length (p @ ?t1 @ ?t2) + length ?t3) (length (d @ ?m)) n
        ((p @ ?t1 @ ?t2) @ ?t3 @ q) ((d @ ?m) @ J2 @ e) = Some ((d @ ?m) @ t' @ e)"
      using less.hyps [OF lens(3) r(3) J(3), of "p @ ?t1 @ ?t2" "d @ ?m"] by auto
    have "runs lt (2 * n) ((?s1 @ ?s2) @ ?s3) (?m @ t')"
      using r(1,2) lens(1,2) stable_sorted_length [OF r(1)] stable_sorted_length [OF r(2)]
      by (intro runs_Cons t'(1) stable_sorted_merge) auto
    then have "runs lt (2 * n) s (?m @ t')"
      by (simp only: append_take_drop_id append_assoc)
    moreover have ends: "length (p @ ?t1 @ ?t2) = length p + 2 * n" "length p + 2 * n + length ?t3 = length p + length t"
      "length (d @ ?m) = length d + 2 * n"
      using lens(1,2) True by (auto simp: mult_2)
    have "merge_sort_loop lt (length p + 2 * n) (length p + length t) (length d + 2 * n) n (p @ t @ q) (d @ ?m @ J2 @ e) =
        Some (d @ ?m @ t' @ e)"
      using t'(2) unfolding ends append_assoc tq .
    ultimately show ?thesis
      using merged True by (intro exI [of _ "?m @ t'"]) (subst merge_sort_loop.simps, simp add: Let_def)
  next
    case False
    let ?k = "min (length t) n"
    let ?t1 = "take ?k t" and ?t2 = "drop ?k t"
    have "stable_sorted lt (take n s) (take n t)" "stable_sorted lt (drop n s) (drop n t)"
      using runs_split [OF less.prems(1)] runs_short [of lt n "drop n s" "drop n t"] False len by auto
    then have "stable_sorted lt (take n s @ drop n s) (lmerge lt (take n t) (drop n t))"
      by (rule stable_sorted_merge)
    then have "stable_sorted lt s (lmerge lt ?t1 ?t2)"
      by (cases "length t \<le> n") (simp_all add: min_def)
    then have "runs lt (2 * n) s (lmerge lt ?t1 ?t2)"
      using False len by (intro runs_single) auto
    moreover have "move_merge lt (length p) (length p + ?k) (length p + ?k) (length p + length t) (length d) (p @ t @ q) (d @ J @ e) =
        Some (d @ lmerge lt ?t1 ?t2 @ e, length d + length t)"
      using move_merge_block [of J ?t1 ?t2, where p = p and q = q and d = d and e = e] less.prems(2) by (simp flip: append_assoc)
    ultimately show ?thesis
      using False by (intro exI [of _ "lmerge lt ?t1 ?t2"]) (subst merge_sort_loop.simps, simp add: Let_def)
  qed
qed

lemma merge_sort_doubling_block:
  assumes "0 < n" "runs lt n s t" "length s \<le> length buf"
  shows "\<exists>buf' t'. length buf' = length buf \<and> stable_sorted lt s t' \<and>
    merge_sort_doubling lt (length p) (length p + length s) n buf (p @ t @ q) = Some (buf', p @ t' @ q)"
  using assms
proof (induction "length s - n" arbitrary: n t buf rule: less_induct)
  case less
  have len: "length t = length s"
    using less.prems(2) by (simp add: runs_def)
  show ?case
  proof (cases "n < length s")
    case False
    then show ?thesis
      using runs_short [OF less.prems(2)] by (subst merge_sort_doubling.simps) (auto simp: Let_def)
  next
    case True
    let ?J = "take (length s) buf" and ?e = "drop (length s) buf"
    have J: "length ?J = length t"
      using less.prems(3) len by simp
    obtain t1 where t1: "runs lt (2 * n) s t1"
      "merge_sort_loop lt (length p) (length p + length s) 0 n (p @ t @ q) buf = Some (t1 @ ?e)"
      using merge_sort_loop_block [OF less.prems(1,2) J, of p "[]" q ?e] len by auto
    have len1: "length t1 = length s"
      using t1(1) by (simp add: runs_def)
    obtain t2 where t2: "runs lt (2 * (2 * n)) s t2"
      "merge_sort_loop lt 0 (length s) (length p) (2 * n) (t1 @ ?e) (p @ t @ q) = Some (p @ t2 @ q)"
      using merge_sort_loop_block [OF _ t1(1), of t "[]" p ?e q] less.prems(1) len len1 by auto
    have "length s - n * 4 < length s - n" "length s \<le> length (t1 @ ?e)"
      using True less.prems(1) len1 by auto
    then obtain buf' t' where "length buf' = length (t1 @ ?e)" "stable_sorted lt s t'"
      "merge_sort_doubling lt (length p) (length p + length s) (n * 4) (t1 @ ?e) (p @ t2 @ q) = Some (buf', p @ t' @ q)"
      using less.hyps [of "n * 4" t2 "t1 @ ?e"] less.prems(1) t2(1) by (auto simp: mult.commute)
    then show ?thesis
      using True t1(2) t2(2) len1 less.prems(3)
      by (intro exI [of _ buf'] exI [of _ t']) (subst merge_sort_doubling.simps, simp add: Let_def mult.commute)
  qed
qed

lemma merge_sort_with_buffer_block:
  assumes "length s \<le> length buf"
  shows "\<exists>buf' t. length buf' = length buf \<and> stable_sorted lt s t \<and>
    merge_sort_with_buffer lt (length p) (length p + length s) buf (p @ s @ q) = Some (buf', p @ t @ q)"
proof -
  obtain t where "runs lt 7 s t" "chunk_insertion_sort lt (length p) (length p + length s) 7 (p @ s @ q) = Some (p @ t @ q)"
    using chunk_insertion_sort_block [of 7 s p q] by auto
  then show ?thesis
    using merge_sort_doubling_block [of 7 s t buf p q] assms by (auto simp: merge_sort_with_buffer_def)
qed

section \<open>The stable sorts\<close>

text \<open>Two sorted halves, merged.\<close>

lemma stable_halves:
  assumes "stable_sorted lt (take k s) a" "stable_sorted lt (drop k s) b"
  shows "stable_sorted lt s (lmerge lt a b)" "upward lt a" "upward lt b"
  using stable_sorted_merge [OF assms] assms by (simp_all add: stable_sorted_def)

lemma stable_sort_adaptive_correct:
  assumes "0 < n" "n \<le> length buf"
  shows "\<exists>buf' t. length buf' = length buf \<and> stable_sorted lt s t \<and>
    stable_sort_adaptive is_pod lt (length p) (length p + length s) n buf (p @ s @ q) = Some (buf', p @ t @ q)"
  using assms(2)
proof (induction "length s" arbitrary: s p q buf rule: less_induct)
  case less
  define k where "k = (length s + 1) div 2"
  let ?a = "take k s" and ?b = "drop k s"
  have k: "k \<le> length s" "length ?a = k" "length ?b = length s - k" "length ?b \<le> k"
    by (auto simp: k_def)
  let ?sort = "\<lambda>first middle lst buf xs. if k > n then
           Option.bind (stable_sort_adaptive is_pod lt first middle n buf xs) (\<lambda>(buf, xs).
             stable_sort_adaptive is_pod lt middle lst n buf xs)
         else
           Option.bind (merge_sort_with_buffer lt first middle buf xs) (\<lambda>(buf, xs).
             merge_sort_with_buffer lt middle lst buf xs)"
  have "\<exists>buf' ta tb. length buf' = length buf \<and> stable_sorted lt ?a ta \<and> stable_sorted lt ?b tb \<and>
      ?sort (length p) (length p + k) (length p + length s) buf (p @ s @ q) = Some (buf', p @ ta @ tb @ q)"
  proof (cases "k > n")
    case True
    have small: "length ?a < length s" "length ?b < length s"
      using True assms(1) k(1) by (auto simp: k_def)
    obtain buf1 ta where 1: "length buf1 = length buf" "stable_sorted lt ?a ta"
      "stable_sort_adaptive is_pod lt (length p) (length p + k) n buf (p @ ?a @ ?b @ q) = Some (buf1, p @ ta @ ?b @ q)"
      using less.hyps [OF small(1) less.prems, of p "?b @ q"] k(2) by auto
    have "length ta = k"
      using stable_sorted_length [OF 1(2)] k(2) by simp
    then obtain buf2 tb where "length buf2 = length buf" "stable_sorted lt ?b tb"
      "stable_sort_adaptive is_pod lt (length p + k) (length p + length s) n buf1 (p @ ta @ ?b @ q) = Some (buf2, p @ ta @ tb @ q)"
      using less.hyps [OF small(2), of buf1 "p @ ta" q] less.prems 1(1) k(1) by auto
    then show ?thesis
      using True 1 by (intro exI [of _ buf2] exI [of _ ta] exI [of _ tb]) (simp flip: append_assoc)
  next
    case False
    then have len: "length ?a \<le> length buf" "length ?b \<le> length buf"
      using less.prems k(2,4) by linarith+
    obtain buf1 ta where 1: "length buf1 = length buf" "stable_sorted lt ?a ta"
      "merge_sort_with_buffer lt (length p) (length p + k) buf (p @ ?a @ ?b @ q) = Some (buf1, p @ ta @ ?b @ q)"
      using merge_sort_with_buffer_block [OF len(1), of p "?b @ q"] k(2) by auto
    have "length ta = k"
      using stable_sorted_length [OF 1(2)] k(2) by simp
    then obtain buf2 tb where "length buf2 = length buf" "stable_sorted lt ?b tb"
      "merge_sort_with_buffer lt (length p + k) (length p + length s) buf1 (p @ ta @ ?b @ q) = Some (buf2, p @ ta @ tb @ q)"
      using merge_sort_with_buffer_block [of ?b buf1 "p @ ta" q] len(2) 1(1) k(1) by auto
    then show ?thesis
      using False 1 by (intro exI [of _ buf2] exI [of _ ta] exI [of _ tb]) (simp flip: append_assoc)
  qed
  then obtain buf1 ta tb where h: "length buf1 = length buf" "stable_sorted lt ?a ta" "stable_sorted lt ?b tb"
    "?sort (length p) (length p + k) (length p + length s) buf (p @ s @ q) = Some (buf1, p @ ta @ tb @ q)"
    by blast
  have lens: "length ta = k" "length tb = length s - k"
    using stable_sorted_length [OF h(2)] stable_sorted_length [OF h(3)] k(2,3) by simp_all
  note halves = stable_halves [OF h(2,3)]
  obtain buf2 where m: "length buf2 = length buf"
    "merge_adaptive is_pod lt (length p) (length p + k) (length p + length s) k (length s - k) n buf1 (p @ ta @ tb @ q) =
      Some (buf2, p @ lmerge lt ta tb @ q)"
    using merge_adaptive_correct [OF halves(2,3) assms(1), of buf1 is_pod p q] h(1) less.prems lens k(1) by auto
  have "(length p + length s - length p + 1) div 2 = k" "length p + k - length p = k" "length p + length s - (length p + k) = length s - k"
    by (simp_all add: k_def)
  then have "stable_sort_adaptive is_pod lt (length p) (length p + length s) n buf (p @ s @ q) = Some (buf2, p @ lmerge lt ta tb @ q)"
    using m(2) h(4) by (subst stable_sort_adaptive.simps) (simp only: Let_def Option.bind.simps prod.case)
  then show ?case
    using m(1) halves(1) by blast
qed

lemma inplace_stable_sort_correct:
  "\<exists>t. stable_sorted lt s t \<and>
    inplace_stable_sort is_pod lt (length p) (length p + length s) (p @ s @ q) = Some (p @ t @ q)"
proof (induction "length s" arbitrary: s p q rule: less_induct)
  case less
  show ?case
  proof (cases "length s < 15")
    case True
    then show ?thesis
      using insertion_sort_block [of s p q] by (simp add: inplace_stable_sort.simps)
  next
    case False
    define k where "k = length s div 2"
    let ?a = "take k s" and ?b = "drop k s"
    have k: "k \<le> length s" "length ?a = k" "length ?b = length s - k" "length ?a < length s" "length ?b < length s"
      using False by (auto simp: k_def)
    obtain ta where ta: "stable_sorted lt ?a ta"
      "inplace_stable_sort is_pod lt (length p) (length p + k) (p @ ?a @ ?b @ q) = Some (p @ ta @ ?b @ q)"
      using less [OF k(4), of p "?b @ q"] k(2) by auto
    have lta: "length ta = k"
      using stable_sorted_length [OF ta(1)] k(2) by simp
    obtain tb where tb: "stable_sorted lt ?b tb"
      "inplace_stable_sort is_pod lt (length p + k) (length p + length s) (p @ ta @ ?b @ q) = Some (p @ ta @ tb @ q)"
      using less [OF k(5), of "p @ ta" q] lta k(1) by auto
    have ltb: "length tb = length s - k"
      using stable_sorted_length [OF tb(1)] k(3) by simp
    note halves = stable_halves [OF ta(1) tb(1)]
    have "merge_without_buffer is_pod lt (length p) (length p + k) (length p + length s) k (length s - k) (p @ ta @ tb @ q) =
        Some (p @ lmerge lt ta tb @ q)"
      using merge_without_buffer_correct [OF halves(2,3), of is_pod p q] lta ltb k(1) by simp
    moreover have "inplace_stable_sort is_pod lt (length p) (length p + k) (p @ s @ q) = Some (p @ ta @ ?b @ q)"
      using ta(2) by (simp flip: append_assoc)
    ultimately show ?thesis
      using tb(2) halves(1) False
      by (intro exI [of _ "lmerge lt ta tb"]) (subst inplace_stable_sort.simps, simp add: Let_def flip: k_def)
  qed
qed

lemma stable_sort_correct:
  "\<exists>t. stable_sorted lt s t \<and>
    stable_sort al is_pod lt (length p) (length p + length s) (p @ s @ q) = Some (p @ t @ q)"
proof -
  consider "temporary_buffer al (length p) (length p + length s) (p @ s @ q) = Some None"
    | buf where "temporary_buffer al (length p) (length p + length s) (p @ s @ q) = Some (Some buf)" "buf \<noteq> []"
  proof (cases "s = []")
    case True
    then show ?thesis
      using that(1) by (simp add: temporary_buffer_def get_temporary_buffer_def get_temporary_buffer_loop.simps Let_def)
  next
    case False
    then show ?thesis
      using that temporary_buffer_total [of "length p" "length p + length s" "p @ s @ q" al] by auto
  qed
  then show ?thesis
  proof cases
    case 1
    then show ?thesis
      using inplace_stable_sort_correct [of s is_pod p q] by (simp add: stable_sort_def)
  next
    case 2
    then show ?thesis
      using stable_sort_adaptive_correct [of "length buf" buf s is_pod p q] by (auto simp: stable_sort_def)
  qed
qed

end

text \<open>With a comparison of keys the result is that of the stable sort of the library.\<close>

lemma key_order: "strict_weak_order (\<lambda>x y. key x < (key y :: 'k::linorder))"
  by unfold_locales auto

interpretation key: strict_weak_order "\<lambda>x y. key x < key y" for key :: "'a \<Rightarrow> 'k::linorder"
  by (rule key_order)

lemma stable_sorted_sort_key: "stable_sorted (\<lambda>x y. key x < (key y :: 'k::linorder)) s t \<Longrightarrow> t = sort_key key s"
proof (rule key.stable_sorted_eq [of key s])
  have "eqv (\<lambda>x y. key x < key y) v = (\<lambda>x. key x = key v)" for v
    by (auto simp: eqv_def fun_eq_iff)
  moreover have "sorted_wrt (\<lambda>x y. \<not> key y < key x) (sort_key key s)"
    using sorted_sort_key [of key s] by (simp add: sorted_map not_less)
  ultimately show "stable_sorted (\<lambda>x y. key x < key y) s (sort_key key s)"
    by (simp add: stable_sorted_def sort_key_stable)
qed

section \<open>Properties\<close>

text \<open>
  C6. std::\<open>stable_sort\<close> with a comparison of keys computes the one stable sorted
  order: on the range it gives what the reference definition \<open>sort_key\<close> gives
  (equal keys in their old order), leaves the rest of the container alone, ends and stays inside
  of the container and of its buffer, whatever memory the temporary buffer gets (none, too
  little or enough) and whether or not the elements are plain data.
\<close>

theorem stable_sort_stable:
  fixes key :: "'a \<Rightarrow> 'k::linorder"
  shows "stable_sort al is_pod (\<lambda>x y. key x < key y) (length p) (length p + length s) (p @ s @ q) =
    Some (p @ sort_key key s @ q)"
  using key.stable_sort_correct [of key s al is_pod p q] stable_sorted_sort_key [of key s] by metis

end
