(* ===== verification/Stl_Permute.thy ===== *)
theory Stl_Permute
  imports Stl_Rotate Stl_Search
begin

text \<open>
  \<open>std::next_permutation\<close> and \<open>std::prev_permutation\<close> of libstdc++
  (\<^verbatim>\<open>c++/8.2.0/bits/stl_algo.h\<close>), with \<open>lexicographical_compare\<close>
  (\<^verbatim>\<open>stl_algobase.h\<close>), whose order they follow.
\<close>

section \<open>The algorithms\<close>

primrec next_permutation_scan :: "('a \<Rightarrow> 'a \<Rightarrow> bool) \<Rightarrow> nat \<Rightarrow> nat \<Rightarrow> 'a list \<Rightarrow> nat option" where
  "next_permutation_scan cmp i 0 xs = None"
| "next_permutation_scan cmp i (Suc j) xs = do {
     b \<leftarrow> icmp cmp xs i j;
     if \<not> b then next_permutation_scan cmp i j xs else Some j }"

primrec next_permutation_loop :: "('a \<Rightarrow> 'a \<Rightarrow> bool) \<Rightarrow> nat \<Rightarrow> nat \<Rightarrow> nat \<Rightarrow> 'a list \<Rightarrow> ('a list \<times> bool) option" where
  "next_permutation_loop cmp first lst 0 xs = None"
| "next_permutation_loop cmp first lst (Suc i) xs = do {
     b \<leftarrow> icmp cmp xs i (Suc i);
     if b then do {
       j \<leftarrow> next_permutation_scan cmp i lst xs;
       xs \<leftarrow> iter_swap i j xs;
       xs \<leftarrow> reverse_random (Suc i) lst xs;
       Some (xs, True) }
     else if i = first then do {
       xs \<leftarrow> reverse_random first lst xs;
       Some (xs, False) }
     else next_permutation_loop cmp first lst i xs }"

definition next_permutation :: "('a \<Rightarrow> 'a \<Rightarrow> bool) \<Rightarrow> nat \<Rightarrow> nat \<Rightarrow> 'a list \<Rightarrow> ('a list \<times> bool) option" where
  "next_permutation cmp first lst xs =
     (if first = lst then Some (xs, False)
      else if first + 1 = lst then Some (xs, False)
      else next_permutation_loop cmp first lst (lst - 1) xs)"

primrec prev_permutation_scan :: "('a \<Rightarrow> 'a \<Rightarrow> bool) \<Rightarrow> nat \<Rightarrow> nat \<Rightarrow> 'a list \<Rightarrow> nat option" where
  "prev_permutation_scan cmp i 0 xs = None"
| "prev_permutation_scan cmp i (Suc j) xs = do {
     b \<leftarrow> icmp cmp xs j i;
     if \<not> b then prev_permutation_scan cmp i j xs else Some j }"

primrec prev_permutation_loop :: "('a \<Rightarrow> 'a \<Rightarrow> bool) \<Rightarrow> nat \<Rightarrow> nat \<Rightarrow> nat \<Rightarrow> 'a list \<Rightarrow> ('a list \<times> bool) option" where
  "prev_permutation_loop cmp first lst 0 xs = None"
| "prev_permutation_loop cmp first lst (Suc i) xs = do {
     b \<leftarrow> icmp cmp xs (Suc i) i;
     if b then do {
       j \<leftarrow> prev_permutation_scan cmp i lst xs;
       xs \<leftarrow> iter_swap i j xs;
       xs \<leftarrow> reverse_random (Suc i) lst xs;
       Some (xs, True) }
     else if i = first then do {
       xs \<leftarrow> reverse_random first lst xs;
       Some (xs, False) }
     else prev_permutation_loop cmp first lst i xs }"

definition prev_permutation :: "('a \<Rightarrow> 'a \<Rightarrow> bool) \<Rightarrow> nat \<Rightarrow> nat \<Rightarrow> 'a list \<Rightarrow> ('a list \<times> bool) option" where
  "prev_permutation cmp first lst xs =
     (if first = lst then Some (xs, False)
      else if first + 1 = lst then Some (xs, False)
      else prev_permutation_loop cmp first lst (lst - 1) xs)"

text \<open>For random access iterators the first range is cut to the length of the second one, so that the
  loop tests one end only.\<close>

definition lc_newlast1 :: "nat \<Rightarrow> nat \<Rightarrow> nat \<Rightarrow> nat \<Rightarrow> nat" where
  "lc_newlast1 first1 last1 first2 last2 = (
     let diff1 = last1 - first1;
         diff2 = last2 - first2
     in if diff2 < diff1 then first1 + diff2 else last1)"

partial_function (option) lexicographical_compare_loop ::
  "('a \<Rightarrow> 'a \<Rightarrow> bool) \<Rightarrow> nat \<Rightarrow> nat \<Rightarrow> nat \<Rightarrow> nat \<Rightarrow> 'a list \<Rightarrow> 'a list \<Rightarrow> bool option" where
  "lexicographical_compare_loop cmp first1 last1 first2 last2 xs ys =
     (if first1 \<noteq> last1 then
        Option.bind (aget xs first1) (\<lambda>x.
        Option.bind (aget ys first2) (\<lambda>y.
          if cmp x y then Some True
          else if cmp y x then Some False
          else lexicographical_compare_loop cmp (first1 + 1) last1 (first2 + 1) last2 xs ys))
      else Some (first1 = last1 \<and> first2 \<noteq> last2))"

definition lexicographical_compare ::
  "('a \<Rightarrow> 'a \<Rightarrow> bool) \<Rightarrow> nat \<Rightarrow> nat \<Rightarrow> nat \<Rightarrow> nat \<Rightarrow> 'a list \<Rightarrow> 'a list \<Rightarrow> bool option" where
  "lexicographical_compare cmp first1 last1 first2 last2 xs ys =
     lexicographical_compare_loop cmp first1 (lc_newlast1 first1 last1 first2 last2) first2 last2 xs ys"

section \<open>Stepping through the permutations\<close>

lemma prev_permutation_scan_flip: "prev_permutation_scan cmp i j xs = next_permutation_scan (\<lambda>x y. cmp y x) i j xs"
  by (induction j) (simp_all add: icmp_flip [of cmp] cong: if_cong)

lemma prev_permutation_loop_flip:
  "prev_permutation_loop cmp f l i xs = next_permutation_loop (\<lambda>x y. cmp y x) f l i xs"
  by (induction i) (simp_all add: icmp_flip [of cmp] prev_permutation_scan_flip cong: if_cong)

lemma prev_permutation_flip: "prev_permutation cmp f l xs = next_permutation (\<lambda>x y. cmp y x) f l xs"
  by (simp add: prev_permutation_def next_permutation_def prev_permutation_loop_flip)

text \<open>No element is smaller than one behind it.\<close>

abbreviation (input) downward :: "('a \<Rightarrow> 'a \<Rightarrow> bool) \<Rightarrow> 'a list \<Rightarrow> bool" where
  "downward lt \<equiv> sorted_wrt (\<lambda>x y. \<not> lt x y)"

lemma next_permutation_scan_skip:
  assumes "j \<le> l" "i < length xs" "l \<le> length xs" "\<And>k. j \<le> k \<Longrightarrow> k < l \<Longrightarrow> \<not> lt (xs ! i) (xs ! k)"
  shows "next_permutation_scan lt i l xs = next_permutation_scan lt i j xs"
  using assms
proof (induction "l - j" arbitrary: l)
  case (Suc d)
  then obtain l' where "l = Suc l'" "d = l' - j" "j \<le> l'"
    by (cases l) auto
  then show ?case
    using Suc.hyps(1) [of l'] Suc.prems by simp
qed simp

lemma next_permutation_loop_skip:
  assumes "n \<le> m" "f < n" "m < length xs" "\<And>i. n \<le> i \<Longrightarrow> i < m \<Longrightarrow> \<not> lt (xs ! i) (xs ! Suc i)"
  shows "next_permutation_loop lt f l m xs = next_permutation_loop lt f l n xs"
  using assms
proof (induction "m - n" arbitrary: m)
  case (Suc d)
  then obtain m' where "m = Suc m'" "d = m' - n" "n \<le> m'"
    by (cases m) auto
  then show ?case
    using Suc.hyps(1) [of m'] Suc.prems by simp
qed simp

lemma downward_step:
  assumes "downward lt D" "length p \<le> i" "Suc i < length p + length D"
  shows "\<not> lt ((p @ D @ q) ! i) ((p @ D @ q) ! Suc i)"
proof -
  obtain k where "i = length p + k"
    using le_Suc_ex [OF assms(2)] ..
  then show ?thesis
    using assms(3) sorted_wrt_nth_less [OF assms(1), of k "Suc k"] by (simp add: nth_append)
qed

text \<open>The last ascent decides: \<open>x\<close> is exchanged for the last element behind it that is larger.\<close>

lemma next_permutation_found:
  assumes "downward lt (D1 @ y # D2)" "lt x (hd (D1 @ [y]))" "lt x y" "\<And>z. z \<in> set D2 \<Longrightarrow> \<not> lt x z"
    and s: "s = P @ x # D1 @ y # D2"
  shows "next_permutation lt (length p) (length p + length s) (p @ s @ q) =
    Some (p @ (P @ y # rev D2 @ x # rev D1) @ q, True)"
proof -
  let ?n = "length (p @ P)" and ?l = "length p + length s" and ?xs = "p @ s @ q"
  let ?j = "?n + Suc (length D1)"
  have xs: "?xs = (p @ P @ [x]) @ (D1 @ y # D2) @ q" "?xs = (p @ P) @ x # D1 @ y # D2 @ q"
    by (simp_all add: s)
  have len: "?l = Suc (Suc (?n + length D1 + length D2))" "?l \<le> length ?xs"
    by (simp_all add: s)
  have at: "?xs ! ?n = x" "?xs ! Suc ?n = hd (D1 @ [y])" "?xs ! ?j = y"
    unfolding xs(2) by (simp_all add: nth_append hd_append hd_conv_nth)
  have "next_permutation lt (length p) ?l ?xs = next_permutation_loop lt (length p) ?l (?l - 1) ?xs"
    using len by (simp add: next_permutation_def)
  also have "\<dots> = next_permutation_loop lt (length p) ?l (Suc ?n) ?xs"
  proof (rule next_permutation_loop_skip)
    show "\<not> lt (?xs ! i) (?xs ! Suc i)" if "Suc ?n \<le> i" "i < ?l - 1" for i
      unfolding xs(1) using that len by (intro downward_step [OF assms(1)]) auto
  qed (use len in auto)
  also have "\<dots> = Some (p @ (P @ y # rev D2 @ x # rev D1) @ q, True)"
  proof -
    have "next_permutation_scan lt ?n ?l ?xs = next_permutation_scan lt ?n (Suc ?j) ?xs"
    proof (rule next_permutation_scan_skip)
      show "\<not> lt (?xs ! ?n) (?xs ! k)" if ge: "Suc ?j \<le> k" "k < ?l" for k
      proof -
        obtain m where m: "k = Suc ?j + m"
          using le_Suc_ex [OF ge(1)] ..
        have k: "k = length (p @ P @ x # D1 @ [y]) + m" and "m < length D2"
          using ge(2) m len(1) by simp_all
        moreover have "?xs = (p @ P @ x # D1 @ [y]) @ D2 @ q"
          by (simp add: s)
        ultimately have "?xs ! k = (D2 @ q) ! m"
          by (simp only: nth_append_length_plus)
        then have "?xs ! k = D2 ! m"
          using \<open>m < length D2\<close> by (simp add: nth_append)
        then show ?thesis
          using \<open>m < length D2\<close> assms(4) at(1) by simp
      qed
    qed (use len in auto)
    also have "\<dots> = Some ?j"
      using at assms(3) len by simp
    finally have scan: "next_permutation_scan lt ?n ?l ?xs = Some ?j" .
    have swap: "iter_swap ?n ?j ?xs = Some ((p @ P @ [y]) @ (D1 @ x # D2) @ q)"
      using iter_swap_append [of "p @ P" D1 x y "D2 @ q"] xs(2) by simp
    have "reverse_random (Suc ?n) ?l ((p @ P @ [y]) @ (D1 @ x # D2) @ q) = Some ((p @ P @ [y]) @ rev (D1 @ x # D2) @ q)"
      using reverse_random_block [of "p @ P @ [y]" "D1 @ x # D2" q] len by (simp add: add.assoc)
    moreover have "icmp lt ?xs ?n (Suc ?n) = Some True"
      using at(1,2) assms(2) len by simp
    ultimately show ?thesis
      using scan swap by (simp del: append_assoc length_append)
  qed
  finally show ?thesis .
qed

lemma next_permutation_last:
  assumes "downward lt s"
  shows "next_permutation lt (length p) (length p + length s) (p @ s @ q) = Some (p @ rev s @ q, False)"
proof -
  consider "s = []" | x where "s = [x]" | x y t where "s = x # y # t"
    by (cases s rule: remdups_adj.cases) auto
  then show ?thesis
  proof cases
    case 3
    let ?l = "length p + length s" and ?xs = "p @ s @ q"
    have step: "\<not> lt (?xs ! i) (?xs ! Suc i)" if "length p \<le> i" "Suc i < ?l" for i
      using downward_step [OF assms that] .
    have "next_permutation lt (length p) ?l ?xs = next_permutation_loop lt (length p) ?l (?l - 1) ?xs"
      using 3 by (simp add: next_permutation_def)
    also have "\<dots> = next_permutation_loop lt (length p) ?l (Suc (length p)) ?xs"
      using step 3 by (intro next_permutation_loop_skip) auto
    also have "\<dots> = Some (p @ rev s @ q, False)"
      using step [of "length p"] 3 reverse_random_block [of p s q] by simp
    finally show ?thesis .
  qed (simp_all add: next_permutation_def)
qed

text \<open>One of the two cases applies.\<close>

lemma last_ascent:
  assumes "strict_weak_order lt"
  obtains "downward lt s"
    | P x D1 y D2 where "s = P @ x # D1 @ y # D2" "downward lt (D1 @ y # D2)" "lt x (hd (D1 @ [y]))" "lt x y"
      "\<And>z. z \<in> set D2 \<Longrightarrow> \<not> lt x z"
proof (cases "downward lt s")
  case False
  have "\<exists>P x D1 y D2. s = P @ x # D1 @ y # D2 \<and> downward lt (D1 @ y # D2) \<and> lt x (hd (D1 @ [y])) \<and> lt x y \<and>
      (\<forall>z \<in> set D2. \<not> lt x z)"
    using False
  proof (induction s)
    case (Cons x s)
    show ?case
    proof (cases "downward lt s")
      case False
      then show ?thesis
        using Cons.IH by (metis append_Cons)
    next
      case True
      then have ex: "\<exists>z \<in> set s. lt x z"
        using Cons.prems by auto
      then obtain D1 y D2 where s: "s = D1 @ y # D2" "lt x y" "\<forall>z \<in> set D2. \<not> lt x z"
        using split_list_last_prop [OF ex] by blast
      have "lt x (hd (D1 @ [y]))"
        using s(1,2) True strict_weak_order.lt_le_trans [OF assms, of x y "hd D1"] by (cases D1) auto
      then show ?thesis
        using s True by (metis append_Nil)
    qed
  qed simp
  then show ?thesis
    using that(2) by blast
qed (use that(1) in blast)

section \<open>The order of the permutations\<close>

fun lex_less :: "('a \<Rightarrow> 'a \<Rightarrow> bool) \<Rightarrow> 'a list \<Rightarrow> 'a list \<Rightarrow> bool" where
  "lex_less lt xs [] \<longleftrightarrow> False"
| "lex_less lt [] (y # ys) \<longleftrightarrow> True"
| "lex_less lt (x # xs) (y # ys) \<longleftrightarrow> lt x y \<or> \<not> lt y x \<and> lex_less lt xs ys"

lemma lexicographical_compare_block:
  "lexicographical_compare lt (length p1) (length p1 + length s) (length p2) (length p2 + length t) (p1 @ s @ q1) (p2 @ t @ q2) =
     Some (lex_less lt s t)"
proof (induction lt s t arbitrary: p1 p2 rule: lex_less.induct)
  case (3 lt x s y t)
  have "lc_newlast1 (Suc (length p1)) (Suc (length p1 + length s)) (Suc (length p2)) (Suc (length p2 + length t)) =
      lc_newlast1 (length p1) (Suc (length p1 + length s)) (length p2) (Suc (length p2 + length t))"
    "length p1 \<noteq> lc_newlast1 (length p1) (Suc (length p1 + length s)) (length p2) (Suc (length p2 + length t))"
    by (auto simp: lc_newlast1_def Let_def)
  then show ?case
    using 3 [of "p1 @ [x]" "p2 @ [y]"] unfolding lexicographical_compare_def
    by (subst lexicographical_compare_loop.simps) simp
qed (simp_all add: lexicographical_compare_def lc_newlast1_def lexicographical_compare_loop.simps Let_def)

lemma downward_maximal:
  fixes s :: "'a::linorder list"
  shows "downward (<) s \<Longrightarrow> mset t = mset s \<Longrightarrow> \<not> lex_less (<) s t"
proof (induction s arbitrary: t)
  case (Cons x s)
  show ?case
  proof (cases t)
    case t: (Cons y u)
    have "y \<in> set (x # s)"
      using Cons.prems(2) t by (metis list.set_intros(1) mset_eq_setD)
    then have "y \<le> x"
      using Cons.prems(1) by (auto simp: not_less)
    then show ?thesis
      using Cons.IH [of u] Cons.prems t by auto
  qed simp
qed simp

lemma upward_minimal:
  fixes s :: "'a::linorder list"
  shows "sorted_wrt (\<lambda>x y. \<not> y < x) s \<Longrightarrow> mset t = mset s \<Longrightarrow> \<not> lex_less (<) t s"
proof (induction s arbitrary: t)
  case (Cons x s)
  show ?case
  proof (cases t)
    case Nil
    then show ?thesis
      using Cons.prems(2) by simp
  next
    case t: (Cons y u)
    have "y \<in> set (x # s)"
      using Cons.prems(2) t by (metis list.set_intros(1) mset_eq_setD)
    then have "x \<le> y"
      using Cons.prems(1) by (auto simp: not_less)
    then show ?thesis
      using Cons.IH [of u] Cons.prems t by auto
  qed
qed simp

lemma lex_less_prefix:
  fixes s :: "'a::linorder list"
  assumes "lex_less (<) (P @ s) t" "lex_less (<) t (P @ u)"
  obtains v where "t = P @ v" "lex_less (<) s v" "lex_less (<) v u"
proof -
  have "\<exists>v. t = P @ v \<and> lex_less (<) s v \<and> lex_less (<) v u"
    using assms
  proof (induction P arbitrary: t)
    case (Cons x P)
    then obtain y t' where "t = y # t'"
      by (cases t) auto
    then show ?case
      using Cons by fastforce
  qed simp
  then show thesis
    using that by blast
qed

lemma lex_less_append: "\<not> lt x x \<Longrightarrow> lt x y \<Longrightarrow> (\<And>z. \<not> lt z z) \<Longrightarrow> lex_less lt (P @ x # s) (P @ y # t)"
  by (induction P) auto

text \<open>Between a permutation and the one that follows there is no other.\<close>

lemma no_permutation_between:
  fixes x :: "'a::linorder"
  assumes "downward (<) (D1 @ y # D2)" "x < y" "\<And>z. z \<in> set D2 \<Longrightarrow> \<not> x < z" "mset t = mset (P @ x # D1 @ y # D2)"
  shows "\<not> (lex_less (<) (P @ x # D1 @ y # D2) t \<and> lex_less (<) t (P @ y # rev D2 @ x # rev D1))"
proof
  assume "lex_less (<) (P @ x # D1 @ y # D2) t \<and> lex_less (<) t (P @ y # rev D2 @ x # rev D1)"
  then obtain v where t: "t = P @ v" and v: "lex_less (<) (x # D1 @ y # D2) v" "lex_less (<) v (y # rev D2 @ x # rev D1)"
    using lex_less_prefix [of P "x # D1 @ y # D2" t "y # rev D2 @ x # rev D1"] by blast
  then obtain z F where z: "v = z # F"
    by (cases v) auto
  have ms: "mset (z # F) = mset (x # D1 @ y # D2)"
    using assms(4) t z by simp
  consider "z = x" | "z = y" | "x < z" "z < y"
    using v z by fastforce
  then show False
  proof cases
    case 1
    then have "lex_less (<) (D1 @ y # D2) F" "mset F = mset (D1 @ y # D2)"
      using v(1) ms z by simp_all
    then show ?thesis
      using downward_maximal [OF assms(1)] by blast
  next
    case 2
    let ?E = "rev D2 @ x # rev D1"
    have "lex_less (<) F ?E" "mset F = mset ?E"
      using 2 v(2) ms z by (simp_all add: add_mset_commute)
    moreover have "sorted_wrt (\<lambda>x y. \<not> y < x) ?E"
      using assms(1-3) by (auto simp: sorted_wrt_append sorted_wrt_rev not_less dest: order.strict_trans1 intro: order.trans less_imp_le)
    ultimately show ?thesis
      using upward_minimal by blast
  next
    case 3
    then have "z \<in> set (D1 @ y # D2)"
      using ms by (metis less_irrefl list.set_intros(1) mset_eq_setD set_ConsD)
    then show ?thesis
      using 3 assms(1,3) by (auto simp: sorted_wrt_append)
  qed
qed

text \<open>The order of the elements around the last ascent, read from the other side.\<close>

lemma last_ascent_order:
  fixes x :: "'a::linorder"
  assumes "downward (<) (D1 @ y # D2)" "x < y" "\<And>z. z \<in> set D2 \<Longrightarrow> \<not> x < z"
  shows "sorted_wrt (\<lambda>a b. \<not> b < a) (rev D2 @ x # rev D1)" "hd (rev D2 @ [x]) < y"
    and "z \<in> set D1 \<Longrightarrow> \<not> z < y"
proof -
  have D: "downward (<) D1" "downward (<) D2" "\<And>z. z \<in> set D1 \<Longrightarrow> y \<le> z" "\<And>z. z \<in> set D2 \<Longrightarrow> z \<le> x"
    using assms by (auto simp: sorted_wrt_append not_less)
  then show "z \<in> set D1 \<Longrightarrow> \<not> z < y"
    by (simp add: not_less)
  have "x \<le> a" if "a \<in> set D1" for a
    using D(3) [OF that] assms(2) by simp
  moreover have "a \<le> b" if "a \<in> set D2" "b \<in> set D1" for a b
    using D(3) [OF that(2)] D(4) [OF that(1)] assms(2) by simp
  ultimately show "sorted_wrt (\<lambda>a b. \<not> b < a) (rev D2 @ x # rev D1)"
    using D by (auto simp: sorted_wrt_append sorted_wrt_rev not_less)
  show "hd (rev D2 @ [x]) < y"
    using D(4) [of "last D2"] assms(2) by (cases D2 rule: rev_cases) auto
qed

section \<open>Properties\<close>

text \<open>
  C16. std::\<open>next_permutation\<close> on any range of a linear order gives the next
  permutation of the elements in lexicographic order, with none between, and returns true; on
  the last one it returns false and gives the first one, the sorted range.
  std::\<open>prev_permutation\<close> undoes it, with the same result value, in all cases.
\<close>

theorem permutation_steps:
  fixes s :: "'a::linorder list"
  shows "\<exists>t b. next_permutation (<) (length p) (length p + length s) (p @ s @ q) = Some (p @ t @ q, b) \<and>
    mset t = mset s \<and>
    (b \<longrightarrow> lex_less (<) s t \<and> (\<nexists>u. mset u = mset s \<and> lex_less (<) s u \<and> lex_less (<) u t)) \<and>
    (\<not> b \<longrightarrow> sorted (rev s) \<and> sorted t) \<and>
    prev_permutation (<) (length p) (length p + length s) (p @ t @ q) = Some (p @ s @ q, b)"
proof (cases rule: last_ascent [OF less_strict_weak_order, of s])
  case 1
  have up: "sorted_wrt (\<lambda>x y. \<not> y < x) (rev s)"
    using 1 by (simp add: sorted_wrt_rev)
  then have "sorted (rev s)"
    by (simp add: not_less)
  with next_permutation_last [OF 1, of p q] next_permutation_last [of "\<lambda>x y. y < x" "rev s" p q] up
  show ?thesis
    by (auto simp: prev_permutation_flip)
next
  case (2 P x D1 y D2)
  let ?t = "P @ y # rev D2 @ x # rev D1"
  note facts = last_ascent_order [OF 2(2,4,5)]
  have "next_permutation (<) (length p) (length p + length s) (p @ s @ q) = Some (p @ ?t @ q, True)"
    by (rule next_permutation_found [OF 2(2-5,1)])
  moreover have "prev_permutation (<) (length p) (length p + length s) (p @ ?t @ q) = Some (p @ s @ q, True)"
    using next_permutation_found [of "\<lambda>x y. y < x" "rev D2" x "rev D1" y ?t P p q] facts 2(1,4)
    by (simp add: prev_permutation_flip add.commute [of "length D1"])
  moreover have "lex_less (<) s ?t"
    unfolding 2(1) by (rule lex_less_append) (use 2(4) in auto)
  moreover have "\<nexists>u. mset u = mset s \<and> lex_less (<) s u \<and> lex_less (<) u ?t"
    using no_permutation_between [OF 2(2,4,5)] 2(1) by metis
  ultimately show ?thesis
    by (intro exI [of _ ?t] exI [of _ True]) (simp add: 2(1))
qed

theorem permutation_steps_witness:
  "\<exists>t b. next_permutation (<) 0 3 [1, 3, 2 :: int] = Some (t, b) \<and> mset t = mset [1, 3, 2] \<and>
     b \<and> lex_less (<) [1, 3, 2] t \<and> prev_permutation (<) 0 3 t = Some ([1, 3, 2], b)"
proof -
  obtain t b where t: "next_permutation (<) 0 3 [1, 3, 2 :: int] = Some (t, b)" "mset t = mset [1, 3, 2]"
    "b \<longrightarrow> lex_less (<) [1, 3, 2] t" "\<not> b \<longrightarrow> sorted (rev [1, 3, 2 :: int])"
    "prev_permutation (<) 0 3 t = Some ([1, 3, 2], b)"
    using permutation_steps [of "[]" "[1, 3, 2 :: int]" "[]"] by (auto simp: numeral_3_eq_3)
  moreover have b
    using t(4) by auto
  ultimately show ?thesis
    by blast
qed

end
