(* ===== verification/Stl_Sets.thy ===== *)
theory Stl_Sets
  imports Stl_Merge
begin

text \<open>
  The algorithms of libstdc++ on sorted ranges as sets (\<^verbatim>\<open>c++/8.2.0/bits/stl_algo.h\<close>): \<open>includes\<close>,
  \<open>set_union\<close>, \<open>set_intersection\<close>, \<open>set_difference\<close> and \<open>set_symmetric_difference\<close>. A range may
  hold an element more than once, so that the abstract operations are those on multisets.
\<close>

section \<open>The algorithms\<close>

partial_function (option) includes_loop ::
  "('a \<Rightarrow> 'a \<Rightarrow> bool) \<Rightarrow> nat \<Rightarrow> nat \<Rightarrow> nat \<Rightarrow> nat \<Rightarrow> 'a list \<Rightarrow> 'a list \<Rightarrow> bool option" where
  "includes_loop cmp first1 last1 first2 last2 src1 src2 =
     (if first1 \<noteq> last1 \<and> first2 \<noteq> last2 then
        Option.bind (aget src1 first1) (\<lambda>a.
        Option.bind (aget src2 first2) (\<lambda>b.
          if cmp b a then Some False
          else if cmp a b then includes_loop cmp (first1 + 1) last1 first2 last2 src1 src2
          else includes_loop cmp (first1 + 1) last1 (first2 + 1) last2 src1 src2))
      else Some (first2 = last2))"

partial_function (option) set_union ::
  "('a \<Rightarrow> 'a \<Rightarrow> bool) \<Rightarrow> nat \<Rightarrow> nat \<Rightarrow> nat \<Rightarrow> nat \<Rightarrow> nat \<Rightarrow> 'a list \<Rightarrow> 'a list \<Rightarrow> 'a list \<Rightarrow> ('a list \<times> nat) option" where
  "set_union cmp first1 last1 first2 last2 result src1 src2 dst =
     (if first1 \<noteq> last1 \<and> first2 \<noteq> last2 then
        Option.bind (aget src1 first1) (\<lambda>a.
        Option.bind (aget src2 first2) (\<lambda>b.
          if cmp a b then
            Option.bind (aset result a dst) (\<lambda>dst.
              set_union cmp (first1 + 1) last1 first2 last2 (result + 1) src1 src2 dst)
          else if cmp b a then
            Option.bind (aset result b dst) (\<lambda>dst.
              set_union cmp first1 last1 (first2 + 1) last2 (result + 1) src1 src2 dst)
          else
            Option.bind (aset result a dst) (\<lambda>dst.
              set_union cmp (first1 + 1) last1 (first2 + 1) last2 (result + 1) src1 src2 dst)))
      else
        Option.bind (move_to first1 last1 result src1 dst) (\<lambda>(dst, result).
          move_to first2 last2 result src2 dst))"

partial_function (option) set_intersection ::
  "('a \<Rightarrow> 'a \<Rightarrow> bool) \<Rightarrow> nat \<Rightarrow> nat \<Rightarrow> nat \<Rightarrow> nat \<Rightarrow> nat \<Rightarrow> 'a list \<Rightarrow> 'a list \<Rightarrow> 'a list \<Rightarrow> ('a list \<times> nat) option" where
  "set_intersection cmp first1 last1 first2 last2 result src1 src2 dst =
     (if first1 \<noteq> last1 \<and> first2 \<noteq> last2 then
        Option.bind (aget src1 first1) (\<lambda>a.
        Option.bind (aget src2 first2) (\<lambda>b.
          if cmp a b then set_intersection cmp (first1 + 1) last1 first2 last2 result src1 src2 dst
          else if cmp b a then set_intersection cmp first1 last1 (first2 + 1) last2 result src1 src2 dst
          else
            Option.bind (aset result a dst) (\<lambda>dst.
              set_intersection cmp (first1 + 1) last1 (first2 + 1) last2 (result + 1) src1 src2 dst)))
      else Some (dst, result))"

partial_function (option) set_difference ::
  "('a \<Rightarrow> 'a \<Rightarrow> bool) \<Rightarrow> nat \<Rightarrow> nat \<Rightarrow> nat \<Rightarrow> nat \<Rightarrow> nat \<Rightarrow> 'a list \<Rightarrow> 'a list \<Rightarrow> 'a list \<Rightarrow> ('a list \<times> nat) option" where
  "set_difference cmp first1 last1 first2 last2 result src1 src2 dst =
     (if first1 \<noteq> last1 \<and> first2 \<noteq> last2 then
        Option.bind (aget src1 first1) (\<lambda>a.
        Option.bind (aget src2 first2) (\<lambda>b.
          if cmp a b then
            Option.bind (aset result a dst) (\<lambda>dst.
              set_difference cmp (first1 + 1) last1 first2 last2 (result + 1) src1 src2 dst)
          else if cmp b a then set_difference cmp first1 last1 (first2 + 1) last2 result src1 src2 dst
          else set_difference cmp (first1 + 1) last1 (first2 + 1) last2 result src1 src2 dst))
      else move_to first1 last1 result src1 dst)"

partial_function (option) set_symmetric_difference ::
  "('a \<Rightarrow> 'a \<Rightarrow> bool) \<Rightarrow> nat \<Rightarrow> nat \<Rightarrow> nat \<Rightarrow> nat \<Rightarrow> nat \<Rightarrow> 'a list \<Rightarrow> 'a list \<Rightarrow> 'a list \<Rightarrow> ('a list \<times> nat) option" where
  "set_symmetric_difference cmp first1 last1 first2 last2 result src1 src2 dst =
     (if first1 \<noteq> last1 \<and> first2 \<noteq> last2 then
        Option.bind (aget src1 first1) (\<lambda>a.
        Option.bind (aget src2 first2) (\<lambda>b.
          if cmp a b then
            Option.bind (aset result a dst) (\<lambda>dst.
              set_symmetric_difference cmp (first1 + 1) last1 first2 last2 (result + 1) src1 src2 dst)
          else if cmp b a then
            Option.bind (aset result b dst) (\<lambda>dst.
              set_symmetric_difference cmp first1 last1 (first2 + 1) last2 (result + 1) src1 src2 dst)
          else set_symmetric_difference cmp (first1 + 1) last1 (first2 + 1) last2 result src1 src2 dst))
      else
        Option.bind (move_to first1 last1 result src1 dst) (\<lambda>(dst, result).
          move_to first2 last2 result src2 dst))"

section \<open>The same on lists\<close>

text \<open>What to do with the first of two elements when it is smaller, larger, or neither: keep or
  drop it. The four operations and the inclusion differ in that only.\<close>

function zip_sorted :: "bool \<Rightarrow> bool \<Rightarrow> bool \<Rightarrow> 'a::linorder list \<Rightarrow> 'a list \<Rightarrow> 'a list" where
  "zip_sorted l r b [] ys = (if r then ys else [])"
| "zip_sorted l r b (x # xs) [] = (if l then x # xs else [])"
| "zip_sorted l r b (x # xs) (y # ys) =
     (if x < y then (if l then [x] else []) @ zip_sorted l r b xs (y # ys)
      else if y < x then (if r then [y] else []) @ zip_sorted l r b (x # xs) ys
      else (if b then [x] else []) @ zip_sorted l r b xs ys)"
  by pat_completeness auto

termination zip_sorted
  by (relation "measure (\<lambda>(l, r, b, xs, ys). length xs + length ys)") auto

lemma zip_sorted_Nil2 [simp]: "zip_sorted l r b xs [] = (if l then xs else [])"
  by (cases xs) auto

lemma zip_sorted_set: "set (zip_sorted l r b xs ys) \<subseteq> set xs \<union> set ys"
  by (induction l r b xs ys rule: zip_sorted.induct) (auto split: if_splits)

lemma zip_sorted_length: "length (zip_sorted l r b xs ys) \<le> length xs + length ys"
  by (induction l r b xs ys rule: zip_sorted.induct) auto

lemma zip_sorted_sorted: "sorted xs \<Longrightarrow> sorted ys \<Longrightarrow> sorted (zip_sorted l r b xs ys)"
proof (induction l r b xs ys rule: zip_sorted.induct)
  case (3 l r b x xs y ys)
  consider "x < y" | "y < x" | "x = y"
    by (rule linorder_cases)
  then show ?case
  proof cases
    case 1
    have "x \<le> z" if "z \<in> set (zip_sorted l r b xs (y # ys))" for z
      using subsetD [OF zip_sorted_set that] 3(4,5) 1 by auto
    then show ?thesis
      using 3 1 by auto
  next
    case 2
    have "y \<le> z" if "z \<in> set (zip_sorted l r b (x # xs) ys)" for z
      using subsetD [OF zip_sorted_set that] 3(4,5) 2 by auto
    then show ?thesis
      using 3 2 by auto
  next
    case 3
    have "y \<le> z" if "z \<in> set (zip_sorted l r b xs ys)" for z
      using subsetD [OF zip_sorted_set that] "3.prems" 3 by auto
    then show ?thesis
      using "3.IH"(3) "3.prems" 3 by auto
  qed
qed auto

text \<open>How often an element is in the result: the pairs count if \<open>b\<close>, what is more on the left if
  \<open>l\<close> and on the right if \<open>r\<close>.\<close>

lemma zip_sorted_count:
  "sorted xs \<Longrightarrow> sorted ys \<Longrightarrow>
   count (mset (zip_sorted l r b xs ys)) z =
     (if b then min (count (mset xs) z) (count (mset ys) z) else 0) +
     (if l then count (mset xs) z - count (mset ys) z else 0) + (if r then count (mset ys) z - count (mset xs) z else 0)"
proof (induction l r b xs ys rule: zip_sorted.induct)
  case (3 l r b x xs y ys)
  consider "x < y" | "y < x" | "x = y"
    by (rule linorder_cases)
  then show ?case
  proof cases
    case 1
    then have "z \<noteq> x \<or> count (mset (y # ys)) z = 0"
      using "3.prems"(2) by (auto simp: count_eq_zero_iff)
    moreover have "zip_sorted l r b (x # xs) (y # ys) = (if l then [x] else []) @ zip_sorted l r b xs (y # ys)"
      using 1 by simp
    moreover have "sorted xs"
      using "3.prems"(1) by simp
    ultimately show ?thesis
      using "3.IH"(1) [OF 1 _ "3.prems"(2)]
      by (cases "z = x") (simp_all del: zip_sorted.simps mset.simps(2) [of y] add: Suc_diff_le)
  next
    case 2
    then have le: "\<not> x < y"
      by simp
    have "z \<noteq> y \<or> count (mset (x # xs)) z = 0"
      using "3.prems"(1) 2 by (auto simp: count_eq_zero_iff)
    moreover have "zip_sorted l r b (x # xs) (y # ys) = (if r then [y] else []) @ zip_sorted l r b (x # xs) ys"
      using 2 le by simp
    moreover have "sorted ys"
      using "3.prems"(2) by simp
    ultimately show ?thesis
      using "3.IH"(2) [OF le 2 "3.prems"(1)]
      by (cases "z = y") (simp_all del: zip_sorted.simps mset.simps(2) [of x])
  next
    case eq: 3
    then show ?thesis
      using 3 by auto
  qed
qed auto

section \<open>Correctness\<close>

lemma nth_block: "(p @ x # xs) ! length p = x"
  by simp

lemma aset_block: "aset (length d) v (d @ j # J) = Some ((d @ [v]) @ J)"
  by (simp add: aset_def)

lemma includes_block:
  "includes_loop (<) (length p1) (length p1 + length as) (length p2) (length p2 + length bs) (p1 @ as @ q1) (p2 @ bs @ q2) =
   Some (zip_sorted False True False as bs = [])"
proof (induction "False" "True" "False" as bs arbitrary: p1 p2 rule: zip_sorted.induct)
  case (3 x xs y ys)
  show ?case
    using 3(1) [of "p1 @ [x]" p2] 3(3) [of "p1 @ [x]" "p2 @ [y]"]
    by (subst includes_loop.simps) auto
qed (simp_all add: includes_loop.simps)

lemma set_union_block:
  "length J = length (zip_sorted True True True as bs) \<Longrightarrow>
   set_union (<) (length p1) (length p1 + length as) (length p2) (length p2 + length bs) (length d)
     (p1 @ as @ q1) (p2 @ bs @ q2) (d @ J @ e) =
   Some (d @ zip_sorted True True True as bs @ e, length d + length J)"
proof (induction "True" "True" "True" as bs arbitrary: p1 p2 d J rule: zip_sorted.induct)
  case (1 bs)
  then show ?case
    using move_to_block [of J bs p2 d q2 e] move_to_block [of "[]" "[]" p1 d q1 "J @ e"]
    by (simp add: set_union.simps)
next
  case (2 a as)
  then show ?case
    using move_to_block [of J "a # as" p1 d q1 e] move_to_block [of "[]" "[]" p2 "d @ a # as" q2 e]
    by (simp add: set_union.simps)
next
  case (3 x xs y ys)
  then obtain j J1 where J: "J = j # J1"
    by (cases J) (auto split: if_splits)
  show ?case
    using 3(1) [of J1 "p1 @ [x]" p2 "d @ [x]"] 3(2) [of J1 p1 "p2 @ [y]" "d @ [y]"]
      3(3) [of J1 "p1 @ [x]" "p2 @ [y]" "d @ [x]"] 3(4) J
    by (subst set_union.simps) (auto simp: aset_block split: if_splits)
qed

lemma set_intersection_block:
  "length J = length (zip_sorted False False True as bs) \<Longrightarrow>
   set_intersection (<) (length p1) (length p1 + length as) (length p2) (length p2 + length bs) (length d)
     (p1 @ as @ q1) (p2 @ bs @ q2) (d @ J @ e) =
   Some (d @ zip_sorted False False True as bs @ e, length d + length J)"
proof (induction "False" "False" "True" as bs arbitrary: p1 p2 d J rule: zip_sorted.induct)
  case (3 x xs y ys)
  show ?case
    using 3(1) [of J "p1 @ [x]" p2 d] 3(2) [of J p1 "p2 @ [y]" d]
      3(3) [of "tl J" "p1 @ [x]" "p2 @ [y]" "d @ [x]"] 3(4)
    by (subst set_intersection.simps) (cases J; auto simp: aset_block split: if_splits)
qed (simp_all add: set_intersection.simps)

lemma set_difference_block:
  "length J = length (zip_sorted True False False as bs) \<Longrightarrow>
   set_difference (<) (length p1) (length p1 + length as) (length p2) (length p2 + length bs) (length d)
     (p1 @ as @ q1) (p2 @ bs @ q2) (d @ J @ e) =
   Some (d @ zip_sorted True False False as bs @ e, length d + length J)"
proof (induction "True" "False" "False" as bs arbitrary: p1 p2 d J rule: zip_sorted.induct)
  case (1 bs)
  then show ?case
    using move_to_block [of "[]" "[]" p1 d q1 "J @ e"] by (simp add: set_difference.simps)
next
  case (2 a as)
  then show ?case
    using move_to_block [of J "a # as" p1 d q1 e] by (simp add: set_difference.simps)
next
  case (3 x xs y ys)
  show ?case
    using 3(1) [of "tl J" "p1 @ [x]" p2 "d @ [x]"] 3(2) [of J p1 "p2 @ [y]" d]
      3(3) [of J "p1 @ [x]" "p2 @ [y]" d] 3(4)
    by (subst set_difference.simps) (cases J; auto simp: aset_block split: if_splits)
qed

lemma set_symmetric_difference_block:
  "length J = length (zip_sorted True True False as bs) \<Longrightarrow>
   set_symmetric_difference (<) (length p1) (length p1 + length as) (length p2) (length p2 + length bs) (length d)
     (p1 @ as @ q1) (p2 @ bs @ q2) (d @ J @ e) =
   Some (d @ zip_sorted True True False as bs @ e, length d + length J)"
proof (induction "True" "True" "False" as bs arbitrary: p1 p2 d J rule: zip_sorted.induct)
  case (1 bs)
  then show ?case
    using move_to_block [of J bs p2 d q2 e] move_to_block [of "[]" "[]" p1 d q1 "J @ e"]
    by (simp add: set_symmetric_difference.simps)
next
  case (2 a as)
  then show ?case
    using move_to_block [of J "a # as" p1 d q1 e] move_to_block [of "[]" "[]" p2 "d @ a # as" q2 e]
    by (simp add: set_symmetric_difference.simps)
next
  case (3 x xs y ys)
  show ?case
    using 3(1) [of "tl J" "p1 @ [x]" p2 "d @ [x]"] 3(2) [of "tl J" p1 "p2 @ [y]" "d @ [y]"]
      3(3) [of J "p1 @ [x]" "p2 @ [y]" d] 3(4)
    by (subst set_symmetric_difference.simps) (cases J; auto simp: aset_block split: if_splits)
qed

subsection \<open>The operations on multisets\<close>

lemma zip_sorted_mset:
  assumes "sorted xs" and "sorted ys"
  shows "mset (zip_sorted True True True xs ys) = mset xs \<union># mset ys"
    and "mset (zip_sorted False False True xs ys) = mset xs \<inter># mset ys"
    and "mset (zip_sorted True False False xs ys) = mset xs - mset ys"
    and "mset (zip_sorted False True False xs ys) = mset ys - mset xs"
    and "mset (zip_sorted True True False xs ys) = (mset xs - mset ys) + (mset ys - mset xs)"
  by (rule multiset_eqI, simp add: zip_sorted_count [OF assms])+

lemma zip_sorted_inclusion:
  "sorted xs \<Longrightarrow> sorted ys \<Longrightarrow> zip_sorted False True False xs ys = [] \<longleftrightarrow> mset ys \<subseteq># mset xs"
  using zip_sorted_mset(4) [of xs ys]
  by (metis mset_zero_iff Diff_eq_empty_iff_mset)

text \<open>
  What an operation leaves behind: the destination \<open>d @ J @ e\<close> with a sorted range of the elements
  \<open>M\<close> in the front part of \<open>J\<close>, and the position behind it.
\<close>

definition written :: "('a::linorder list \<times> nat) option \<Rightarrow> 'a list \<Rightarrow> 'a list \<Rightarrow> 'a list \<Rightarrow> 'a multiset \<Rightarrow> bool" where
  "written r d J e M \<longleftrightarrow> (\<exists>c. r = Some (d @ c @ drop (length c) J @ e, length d + length c) \<and> sorted c \<and> mset c = M)"

lemma written_zip:
  assumes "\<And>J e. length J = length (zip_sorted l r b as bs) \<Longrightarrow>
      f (d @ J @ e) = Some (d @ zip_sorted l r b as bs @ e, length d + length J)"
    and "sorted as" and "sorted bs" and "length J = length as + length bs"
    and "mset (zip_sorted l r b as bs) = M"
  shows "written (f (d @ J @ e)) d J e M"
proof -
  let ?c = "zip_sorted l r b as bs"
  have c: "length ?c \<le> length J"
    using zip_sorted_length assms(4) by simp
  have "f (d @ take (length ?c) J @ drop (length ?c) J @ e) =
      Some (d @ ?c @ drop (length ?c) J @ e, length d + length ?c)"
    using assms(1) [of "take (length ?c) J" "drop (length ?c) J @ e"] c by simp
  moreover have "take (length ?c) J @ drop (length ?c) J @ e = J @ e"
    by (simp flip: append_assoc)
  ultimately show ?thesis
    using assms(5) zip_sorted_sorted [OF assms(2,3)] by (auto simp: written_def)
qed

section \<open>Properties\<close>

text \<open>
  C17. The algorithms on sorted ranges refine the operations on multisets. For sorted ranges of
  a linear order, with repetitions, includes decides the inclusion, and
  \<open>set_union\<close>, \<open>set_intersection\<close>, \<open>set_difference\<close> and
  \<open>set_symmetric_difference\<close> end inside of their containers and write a sorted
  range with the union (the larger number of each element), intersection, difference and
  symmetric difference at the given place of the destination, which has room for both ranges;
  they return its end and change nothing else.
\<close>

theorem set_operations:
  assumes "sorted as" and "sorted bs" and "length J = length as + length bs"
  shows "includes_loop (<) (length p1) (length p1 + length as) (length p2) (length p2 + length bs)
      (p1 @ as @ q1) (p2 @ bs @ q2) = Some (mset bs \<subseteq># mset as) \<and>
    written (set_union (<) (length p1) (length p1 + length as) (length p2) (length p2 + length bs) (length d)
      (p1 @ as @ q1) (p2 @ bs @ q2) (d @ J @ e)) d J e (mset as \<union># mset bs) \<and>
    written (set_intersection (<) (length p1) (length p1 + length as) (length p2) (length p2 + length bs) (length d)
      (p1 @ as @ q1) (p2 @ bs @ q2) (d @ J @ e)) d J e (mset as \<inter># mset bs) \<and>
    written (set_difference (<) (length p1) (length p1 + length as) (length p2) (length p2 + length bs) (length d)
      (p1 @ as @ q1) (p2 @ bs @ q2) (d @ J @ e)) d J e (mset as - mset bs) \<and>
    written (set_symmetric_difference (<) (length p1) (length p1 + length as) (length p2) (length p2 + length bs)
      (length d) (p1 @ as @ q1) (p2 @ bs @ q2) (d @ J @ e)) d J e ((mset as - mset bs) + (mset bs - mset as))"
proof (intro conjI)
  show "includes_loop (<) (length p1) (length p1 + length as) (length p2) (length p2 + length bs)
      (p1 @ as @ q1) (p2 @ bs @ q2) = Some (mset bs \<subseteq># mset as)"
    using includes_block [of p1 as p2 bs q1 q2] zip_sorted_inclusion [OF assms(1,2)] by simp
qed (rule written_zip [OF _ assms zip_sorted_mset(1) [OF assms(1,2)]]
    written_zip [OF _ assms zip_sorted_mset(2) [OF assms(1,2)]]
    written_zip [OF _ assms zip_sorted_mset(3) [OF assms(1,2)]]
    written_zip [OF _ assms zip_sorted_mset(5) [OF assms(1,2)]], simp add: set_union_block set_intersection_block set_difference_block
    set_symmetric_difference_block)+

theorem set_operations_witness:
  "\<exists>c. set_union (<) 0 3 0 2 0 [1, 1, 4 :: int] [1, 2] [0, 0, 0, 0, 0] = Some (c @ drop (length c) [0, 0, 0, 0, 0], length c) \<and>
     sorted c \<and> mset c = mset [1, 1, 4] \<union># mset [1, 2]"
  using set_operations [of "[1, 1, 4 :: int]" "[1, 2]" "[0, 0, 0, 0, 0]" "[]" "[]" "[]" "[]" "[]" "[]"]
  by (simp add: written_def numeral_eq_Suc del: mset.simps)

end
