(* ===== verification/Stl_Iterator.thy ===== *)
theory Stl_Iterator
  imports Main "HOL-Library.Monad_Syntax"
begin

text \<open>
  Iterators of libstdc++ (\<^verbatim>\<open>c++/8.2.0/bits/stl_iterator.h\<close> and
  \<^verbatim>\<open>stl_iterator_base_funcs.h\<close>): the adaptor \<open>reverse_iterator\<close>, and \<open>distance\<close> and \<open>advance\<close>
  for the kinds of iterators. The operations of the iterator that a template is instantiated with are
  arguments.

  The locale \<open>random_access\<close> is the contract of a random access iterator on a range of \<open>N\<close>
  elements: \<open>at k\<close> is the iterator to the element number \<open>k\<close>, \<open>at N\<close> the end. Its lemmas are about
  the templates, for every iterator that keeps the contract; one of them is that the reverse iterator
  keeps it too. A difference is an \<open>int\<close>: between iterators of one range it does not overflow.
\<close>

section \<open>The templates\<close>

subsection \<open>Distance and advance\<close>

partial_function (option) distance_input ::
  "('i \<Rightarrow> 'i) \<Rightarrow> ('i \<Rightarrow> 'i \<Rightarrow> bool) \<Rightarrow> 'i \<Rightarrow> 'i \<Rightarrow> int \<Rightarrow> int option" where
  "distance_input incr eq first lst n =
     (if \<not> eq first lst then distance_input incr eq (incr first) lst (n + 1) else Some n)"

definition distance_random :: "('i \<Rightarrow> 'i \<Rightarrow> int) \<Rightarrow> 'i \<Rightarrow> 'i \<Rightarrow> int" where
  "distance_random diff first lst = diff lst first"

text \<open>The loops \<open>while (n--) ++i\<close> and \<open>while (n++) --i\<close>; \<open>None\<close> is a loop that does not end.\<close>

partial_function (option) advance_input :: "('i \<Rightarrow> 'i) \<Rightarrow> 'i \<Rightarrow> int \<Rightarrow> 'i option" where
  "advance_input incr i n = (if n \<noteq> 0 then advance_input incr (incr i) (n - 1) else Some i)"

partial_function (option) advance_down :: "('i \<Rightarrow> 'i) \<Rightarrow> 'i \<Rightarrow> int \<Rightarrow> 'i option" where
  "advance_down decr i n = (if n \<noteq> 0 then advance_down decr (decr i) (n + 1) else Some i)"

definition advance_bidirectional :: "('i \<Rightarrow> 'i) \<Rightarrow> ('i \<Rightarrow> 'i) \<Rightarrow> 'i \<Rightarrow> int \<Rightarrow> 'i option" where
  "advance_bidirectional incr decr i n =
     (if n > 0 then advance_input incr i n else advance_down decr i n)"

text \<open>Whether the compiler knows \<open>n\<close> (\<open>__builtin_constant_p\<close>) is an argument.\<close>

definition advance_random ::
  "bool \<Rightarrow> ('i \<Rightarrow> 'i) \<Rightarrow> ('i \<Rightarrow> 'i) \<Rightarrow> ('i \<Rightarrow> int \<Rightarrow> 'i) \<Rightarrow> 'i \<Rightarrow> int \<Rightarrow> 'i" where
  "advance_random const incr decr add i n =
     (if const \<and> n = 1 then incr i else if const \<and> n = - 1 then decr i else add i n)"

definition next_random ::
  "bool \<Rightarrow> ('i \<Rightarrow> 'i) \<Rightarrow> ('i \<Rightarrow> 'i) \<Rightarrow> ('i \<Rightarrow> int \<Rightarrow> 'i) \<Rightarrow> 'i \<Rightarrow> int \<Rightarrow> 'i" where
  "next_random const incr decr add x n = advance_random const incr decr add x n"

definition prev_random ::
  "bool \<Rightarrow> ('i \<Rightarrow> 'i) \<Rightarrow> ('i \<Rightarrow> 'i) \<Rightarrow> ('i \<Rightarrow> int \<Rightarrow> 'i) \<Rightarrow> 'i \<Rightarrow> int \<Rightarrow> 'i" where
  "prev_random const incr decr add x n = advance_random const incr decr add x (- n)"

subsection \<open>Reverse iterators\<close>

datatype 'i reverse_iterator = Reverse_iterator (base: 'i)

definition reverse_deref :: "('i \<Rightarrow> 'i) \<Rightarrow> ('i \<Rightarrow> 'v) \<Rightarrow> 'i reverse_iterator \<Rightarrow> 'v" where
  "reverse_deref decr deref r = (let tmp = base r in deref (decr tmp))"

definition reverse_incr :: "('i \<Rightarrow> 'i) \<Rightarrow> 'i reverse_iterator \<Rightarrow> 'i reverse_iterator" where
  "reverse_incr decr r = Reverse_iterator (decr (base r))"

definition reverse_decr :: "('i \<Rightarrow> 'i) \<Rightarrow> 'i reverse_iterator \<Rightarrow> 'i reverse_iterator" where
  "reverse_decr incr r = Reverse_iterator (incr (base r))"

definition reverse_plus :: "('i \<Rightarrow> int \<Rightarrow> 'i) \<Rightarrow> 'i reverse_iterator \<Rightarrow> int \<Rightarrow> 'i reverse_iterator" where
  "reverse_plus sub r n = Reverse_iterator (sub (base r) n)"

definition reverse_minus :: "('i \<Rightarrow> int \<Rightarrow> 'i) \<Rightarrow> 'i reverse_iterator \<Rightarrow> int \<Rightarrow> 'i reverse_iterator" where
  "reverse_minus add r n = Reverse_iterator (add (base r) n)"

definition reverse_index ::
  "('i \<Rightarrow> 'i) \<Rightarrow> ('i \<Rightarrow> int \<Rightarrow> 'i) \<Rightarrow> ('i \<Rightarrow> 'v) \<Rightarrow> 'i reverse_iterator \<Rightarrow> int \<Rightarrow> 'v" where
  "reverse_index decr sub deref r n = reverse_deref decr deref (reverse_plus sub r n)"

definition reverse_diff :: "('i \<Rightarrow> 'i \<Rightarrow> int) \<Rightarrow> 'i reverse_iterator \<Rightarrow> 'i reverse_iterator \<Rightarrow> int" where
  "reverse_diff diff x y = diff (base y) (base x)"

definition reverse_eq :: "('i \<Rightarrow> 'i \<Rightarrow> bool) \<Rightarrow> 'i reverse_iterator \<Rightarrow> 'i reverse_iterator \<Rightarrow> bool" where
  "reverse_eq eq x y = eq (base x) (base y)"

definition reverse_less :: "('i \<Rightarrow> 'i \<Rightarrow> bool) \<Rightarrow> 'i reverse_iterator \<Rightarrow> 'i reverse_iterator \<Rightarrow> bool" where
  "reverse_less lt x y = lt (base y) (base x)"

section \<open>The contract\<close>

locale random_access =
  fixes at :: "nat \<Rightarrow> 'i" and N :: nat
    and incr :: "'i \<Rightarrow> 'i" and decr :: "'i \<Rightarrow> 'i"
    and add :: "'i \<Rightarrow> int \<Rightarrow> 'i" and sub :: "'i \<Rightarrow> int \<Rightarrow> 'i"
    and diff :: "'i \<Rightarrow> 'i \<Rightarrow> int"
    and eq :: "'i \<Rightarrow> 'i \<Rightarrow> bool" and lt :: "'i \<Rightarrow> 'i \<Rightarrow> bool"
  assumes incr_at: "k < N \<Longrightarrow> incr (at k) = at (k + 1)"
    and decr_at: "k < N \<Longrightarrow> decr (at (k + 1)) = at k"
    and add_at: "k \<le> N \<Longrightarrow> l \<le> N \<Longrightarrow> add (at k) (int l - int k) = at l"
    and sub_at: "k \<le> N \<Longrightarrow> l \<le> N \<Longrightarrow> sub (at k) (int k - int l) = at l"
    and diff_at: "k \<le> N \<Longrightarrow> l \<le> N \<Longrightarrow> diff (at k) (at l) = int k - int l"
    and eq_at: "k \<le> N \<Longrightarrow> l \<le> N \<Longrightarrow> eq (at k) (at l) \<longleftrightarrow> k = l"
    and lt_at: "k \<le> N \<Longrightarrow> l \<le> N \<Longrightarrow> lt (at k) (at l) \<longleftrightarrow> k < l"
begin

text \<open>Counting the steps gives the difference.\<close>

lemma distance_input_at: "k \<le> l \<Longrightarrow> l \<le> N \<Longrightarrow> distance_input incr eq (at k) (at l) n = Some (n + int (l - k))"
proof (induction "l - k" arbitrary: k n)
  case 0
  then show ?case
    by (subst distance_input.simps) (simp add: eq_at)
next
  case (Suc d)
  then have "distance_input incr eq (at (k + 1)) (at l) (n + 1) = Some (n + 1 + int (l - (k + 1)))"
    by (intro Suc.hyps(1)) simp_all
  then show ?case
    using Suc by (subst distance_input.simps) (simp add: eq_at incr_at)
qed

lemma distance_eq:
  "k \<le> l \<Longrightarrow> l \<le> N \<Longrightarrow> distance_input incr eq (at k) (at l) 0 = Some (distance_random diff (at k) (at l))"
  by (simp add: distance_input_at distance_random_def diff_at)

lemma advance_input_at: "k + n \<le> N \<Longrightarrow> advance_input incr (at k) (int n) = Some (at (k + n))"
proof (induction n arbitrary: k)
  case (Suc n)
  then show ?case
    using Suc.IH [of "k + 1"] by (subst advance_input.simps) (simp add: incr_at)
qed (simp add: advance_input.simps)

lemma advance_down_at: "k + n \<le> N \<Longrightarrow> advance_down decr (at (k + n)) (- int n) = Some (at k)"
proof (induction n)
  case (Suc n)
  then show ?case
    using decr_at [of "k + n"] by (subst advance_down.simps) simp
qed (simp add: advance_down.simps)

text \<open>The three versions of \<open>advance\<close> go to the same place.\<close>

lemma advance_random_at:
  assumes "k \<le> N" and "l \<le> N"
  shows "advance_random const incr decr add (at k) (int l - int k) = at l"
proof -
  consider "l = k + 1" | "k = l + 1" | "int l - int k \<noteq> 1" "int l - int k \<noteq> - 1"
    by linarith
  then show ?thesis
    using assms incr_at [of k] decr_at [of l] add_at [of k l] by cases (auto simp: advance_random_def)
qed

lemma advance_bidirectional_at:
  assumes "k \<le> N" and "l \<le> N"
  shows "advance_bidirectional incr decr (at k) (int l - int k) = Some (at l)"
proof (cases "k < l")
  case True
  then show ?thesis
    using assms advance_input_at [of k "l - k"] by (simp add: advance_bidirectional_def of_nat_diff)
next
  case False
  then show ?thesis
    using assms advance_down_at [of l "k - l"] by (simp add: advance_bidirectional_def of_nat_diff)
qed

lemma advance_eq:
  "k \<le> N \<Longrightarrow> l \<le> N \<Longrightarrow>
   advance_bidirectional incr decr (at k) (int l - int k) = Some (advance_random const incr decr add (at k) (int l - int k))"
  by (simp add: advance_bidirectional_at advance_random_at)

text \<open>The reverse iterator keeps the contract, on the range in the other direction.\<close>

lemma reverse_random_access:
  "random_access (\<lambda>k. Reverse_iterator (at (N - k))) N (reverse_incr decr) (reverse_decr incr)
     (reverse_plus sub) (reverse_minus add) (reverse_diff diff) (reverse_eq eq) (reverse_less lt)"
proof
  show "reverse_incr decr (Reverse_iterator (at (N - k))) = Reverse_iterator (at (N - (k + 1)))" if "k < N" for k
    using that decr_at [of "N - k - 1"] by (simp add: reverse_incr_def Suc_diff_Suc)
  show "reverse_decr incr (Reverse_iterator (at (N - (k + 1)))) = Reverse_iterator (at (N - k))" if "k < N" for k
    using that incr_at [of "N - k - 1"] by (simp add: reverse_decr_def Suc_diff_Suc)
  show "reverse_plus sub (Reverse_iterator (at (N - k))) (int l - int k) = Reverse_iterator (at (N - l))"
    if "k \<le> N" "l \<le> N" for k l
    using that sub_at [of "N - k" "N - l"] by (simp add: reverse_plus_def of_nat_diff)
  show "reverse_minus add (Reverse_iterator (at (N - k))) (int k - int l) = Reverse_iterator (at (N - l))"
    if "k \<le> N" "l \<le> N" for k l
    using that add_at [of "N - k" "N - l"] by (simp add: reverse_minus_def of_nat_diff)
qed (auto simp: reverse_diff_def reverse_eq_def reverse_less_def diff_at eq_at lt_at of_nat_diff)

lemma reverse_deref_at:
  "k < N \<Longrightarrow> reverse_deref decr deref (Reverse_iterator (at (N - k))) = deref (at (N - 1 - k))"
  using decr_at [of "N - k - 1"] by (simp add: reverse_deref_def Suc_diff_Suc)

lemma reverse_index_at:
  "k \<le> N \<Longrightarrow> l < N \<Longrightarrow>
   reverse_index decr sub deref (Reverse_iterator (at (N - k))) (int l - int k) = deref (at (N - 1 - l))"
  using sub_at [of "N - k" "N - l"] reverse_deref_at [of l deref]
  by (simp add: reverse_index_def reverse_plus_def of_nat_diff)

end

end
