(* ===== verification/Stl_Bits.thy ===== *)
theory Stl_Bits
  imports Prelude Stl_Rotate Stl_Iterator "HOL-Library.Signed_Division"
begin

text \<open>
  References to and iterators on single bits, the elements of \<open>vector<bool>\<close>
  (\<^verbatim>\<open>c++/8.2.0/bits/stl_bvector.h\<close>), and the algorithms \<open>copy\<close>, \<open>copy_backward\<close>
  (\<^verbatim>\<open>stl_algobase.h\<close>) and \<open>fill\<close> on them.

  A block of memory is a list of words (\<open>_Bit_type\<close>, 32 bits) and a pointer into it is the number
  of the word; an access outside of the block is \<open>None\<close>. \<open>bits\<close> reads a block as a list of
  booleans and \<open>bit_at k\<close> is the iterator at bit number \<open>k\<close>. Each operation is shown to do on the
  bits what the generic algorithm does on a list, so that the theorems about lists carry over.
\<close>

unbundle bit_operations_syntax

section \<open>References and iterators\<close>

definition word_get :: "u32 list \<Rightarrow> int \<Rightarrow> u32 option" where
  "word_get ws p = (if p < 0 then None else aget ws (nat p))"

definition word_set :: "int \<Rightarrow> u32 \<Rightarrow> u32 list \<Rightarrow> u32 list option" where
  "word_set p w ws = (if p < 0 then None else aset (nat p) w ws)"

record bit_reference =
  R_p :: int
  R_mask :: u32

definition ref_get :: "bit_reference \<Rightarrow> u32 list \<Rightarrow> bool option" where
  "ref_get r ws = do { w \<leftarrow> word_get ws (R_p r); Some (w AND R_mask r \<noteq> 0) }"

definition ref_set :: "bit_reference \<Rightarrow> bool \<Rightarrow> u32 list \<Rightarrow> u32 list option" where
  "ref_set r x ws = do {
     w \<leftarrow> word_get ws (R_p r);
     if x then word_set (R_p r) (w OR R_mask r) ws
     else word_set (R_p r) (w AND NOT (R_mask r)) ws }"

definition ref_flip :: "bit_reference \<Rightarrow> u32 list \<Rightarrow> u32 list option" where
  "ref_flip r ws = do { w \<leftarrow> word_get ws (R_p r); word_set (R_p r) (w XOR R_mask r) ws }"

definition ref_swap :: "bit_reference \<Rightarrow> bit_reference \<Rightarrow> u32 list \<Rightarrow> u32 list option" where
  "ref_swap x y ws = do {
     tmp \<leftarrow> ref_get x ws;
     v \<leftarrow> ref_get y ws;
     ws \<leftarrow> ref_set x v ws;
     ref_set y tmp ws }"

record bit_iterator =
  M_p :: int
  M_offset :: u32

definition M_bump_up :: "bit_iterator \<Rightarrow> bit_iterator" where
  "M_bump_up i = (
     let old = M_offset i; i = i\<lparr>M_offset := old + 1\<rparr>
     in if old = 32 - 1 then i\<lparr>M_offset := 0, M_p := M_p i + 1\<rparr> else i)"

definition M_bump_down :: "bit_iterator \<Rightarrow> bit_iterator" where
  "M_bump_down i = (
     let old = M_offset i; i = i\<lparr>M_offset := old - 1\<rparr>
     in if old = 0 then i\<lparr>M_offset := 32 - 1, M_p := M_p i - 1\<rparr> else i)"

text \<open>The sum of a \<open>ptrdiff_t\<close> and an \<open>unsigned int\<close> is an \<open>unsigned int\<close>, which is converted to
  \<open>difference_type\<close>.\<close>

definition M_incr :: "bit_iterator \<Rightarrow> int \<Rightarrow> bit_iterator" where
  "M_incr it i = (
     let n = sint (word_of_int i + M_offset it);
         p = M_p it + n sdiv 32;
         n = n smod 32;
         (n, p) = (if n < 0 then (n + 32, p - 1) else (n, p))
     in it\<lparr>M_p := p, M_offset := word_of_int n\<rparr>)"

definition M_decr :: "bit_iterator \<Rightarrow> int \<Rightarrow> bit_iterator" where
  "M_decr it i = M_incr it (- i)"

definition bit_eq :: "bit_iterator \<Rightarrow> bit_iterator \<Rightarrow> bool" where
  "bit_eq x y \<longleftrightarrow> M_p x = M_p y \<and> M_offset x = M_offset y"

definition bit_less :: "bit_iterator \<Rightarrow> bit_iterator \<Rightarrow> bool" where
  "bit_less x y \<longleftrightarrow> M_p x < M_p y \<or> (M_p x = M_p y \<and> M_offset x < M_offset y)"

definition bit_diff :: "bit_iterator \<Rightarrow> bit_iterator \<Rightarrow> int" where
  "bit_diff x y = sint (word_of_int (32 * (M_p x - M_p y)) + M_offset x - M_offset y)"

definition bit_deref :: "bit_iterator \<Rightarrow> bit_reference" where
  "bit_deref i = \<lparr>R_p = M_p i, R_mask = push_bit (unat (M_offset i)) 1\<rparr>"

definition bit_index :: "bit_iterator \<Rightarrow> int \<Rightarrow> bit_reference" where
  "bit_index i n = bit_deref (M_incr i n)"

section \<open>Algorithms\<close>

text \<open>\<open>std::copy\<close> inside of a block, from one block to another, and from a range of booleans;
  \<open>std::copy_backward\<close>.\<close>

primrec bit_copy_loop :: "nat \<Rightarrow> bit_iterator \<Rightarrow> bit_iterator \<Rightarrow> u32 list \<Rightarrow> (u32 list \<times> bit_iterator) option" where
  "bit_copy_loop 0 first result ws = Some (ws, result)"
| "bit_copy_loop (Suc n) first result ws = do {
     x \<leftarrow> ref_get (bit_deref first) ws;
     ws \<leftarrow> ref_set (bit_deref result) x ws;
     bit_copy_loop n (M_bump_up first) (M_bump_up result) ws }"

definition bit_copy :: "bit_iterator \<Rightarrow> bit_iterator \<Rightarrow> bit_iterator \<Rightarrow> u32 list \<Rightarrow> (u32 list \<times> bit_iterator) option" where
  "bit_copy first lst result ws = bit_copy_loop (nat (bit_diff lst first)) first result ws"

primrec bit_copy_to_loop ::
  "nat \<Rightarrow> bit_iterator \<Rightarrow> bit_iterator \<Rightarrow> u32 list \<Rightarrow> u32 list \<Rightarrow> (u32 list \<times> bit_iterator) option" where
  "bit_copy_to_loop 0 first result src dst = Some (dst, result)"
| "bit_copy_to_loop (Suc n) first result src dst = do {
     x \<leftarrow> ref_get (bit_deref first) src;
     dst \<leftarrow> ref_set (bit_deref result) x dst;
     bit_copy_to_loop n (M_bump_up first) (M_bump_up result) src dst }"

definition bit_copy_to ::
  "bit_iterator \<Rightarrow> bit_iterator \<Rightarrow> bit_iterator \<Rightarrow> u32 list \<Rightarrow> u32 list \<Rightarrow> (u32 list \<times> bit_iterator) option" where
  "bit_copy_to first lst result src dst = bit_copy_to_loop (nat (bit_diff lst first)) first result src dst"

primrec bit_copy_from :: "bool list \<Rightarrow> bit_iterator \<Rightarrow> u32 list \<Rightarrow> (u32 list \<times> bit_iterator) option" where
  "bit_copy_from [] result ws = Some (ws, result)"
| "bit_copy_from (x # xs) result ws = do {
     ws \<leftarrow> ref_set (bit_deref result) x ws;
     bit_copy_from xs (M_bump_up result) ws }"

primrec bit_copy_backward_loop ::
  "nat \<Rightarrow> bit_iterator \<Rightarrow> bit_iterator \<Rightarrow> u32 list \<Rightarrow> (u32 list \<times> bit_iterator) option" where
  "bit_copy_backward_loop 0 lst result ws = Some (ws, result)"
| "bit_copy_backward_loop (Suc n) lst result ws = (
     let lst = M_bump_down lst; result = M_bump_down result
     in do {
       x \<leftarrow> ref_get (bit_deref lst) ws;
       ws \<leftarrow> ref_set (bit_deref result) x ws;
       bit_copy_backward_loop n lst result ws })"

definition bit_copy_backward ::
  "bit_iterator \<Rightarrow> bit_iterator \<Rightarrow> bit_iterator \<Rightarrow> u32 list \<Rightarrow> (u32 list \<times> bit_iterator) option" where
  "bit_copy_backward first lst result ws = bit_copy_backward_loop (nat (bit_diff lst first)) lst result ws"

text \<open>\<open>fill\<close> sets whole words by \<open>memset\<close> and the ends of the range with a mask.\<close>

definition fill_bvector :: "int \<Rightarrow> u32 \<Rightarrow> u32 \<Rightarrow> bool \<Rightarrow> u32 list \<Rightarrow> u32 list option" where
  "fill_bvector v first lst x ws = do {
     let fmask = push_bit (unat first) (- 1);
     let lmask = drop_bit (unat (32 - lst)) (- 1);
     let mask = fmask AND lmask;
     w \<leftarrow> word_get ws v;
     if x then word_set v (w OR mask) ws else word_set v (w AND NOT mask) ws }"

primrec memset_words :: "nat \<Rightarrow> int \<Rightarrow> u32 \<Rightarrow> u32 list \<Rightarrow> u32 list option" where
  "memset_words 0 p w ws = Some ws"
| "memset_words (Suc n) p w ws = do { ws \<leftarrow> word_set p w ws; memset_words n (p + 1) w ws }"

definition bit_fill :: "bit_iterator \<Rightarrow> bit_iterator \<Rightarrow> bool \<Rightarrow> u32 list \<Rightarrow> u32 list option" where
  "bit_fill first lst x ws =
     (if M_p first \<noteq> M_p lst then do {
        (first_p, ws) \<leftarrow>
          (if M_offset first \<noteq> 0 then do {
             ws \<leftarrow> fill_bvector (M_p first) (M_offset first) 32 x ws;
             Some (M_p first + 1, ws) }
           else Some (M_p first, ws));
        ws \<leftarrow> memset_words (nat (M_p lst - first_p)) first_p (if x then - 1 else 0) ws;
        if M_offset lst \<noteq> 0 then fill_bvector (M_p lst) 0 (M_offset lst) x ws else Some ws }
      else if M_offset first \<noteq> M_offset lst then fill_bvector (M_p first) (M_offset first) (M_offset lst) x ws
      else Some ws)"

section \<open>A block as a list of bits\<close>

definition bits :: "u32 list \<Rightarrow> bool list" where
  "bits ws = map (\<lambda>k. bit (ws ! (k div 32)) (k mod 32)) [0..<32 * length ws]"

definition bit_at :: "nat \<Rightarrow> bit_iterator" where
  "bit_at k = \<lparr>M_p = int (k div 32), M_offset = of_nat (k mod 32)\<rparr>"

lemma length_bits [simp]: "length (bits ws) = 32 * length ws"
  by (simp add: bits_def)

lemma bits_nth: "k < 32 * length ws \<Longrightarrow> bits ws ! k = bit (ws ! (k div 32)) (k mod 32)"
  by (simp add: bits_def)

lemma offset_at [simp]: "unat (of_nat (k mod 32) :: u32) = k mod 32"
  by (rule unat_of_nat_small) (simp add: less_trans [OF mod_less_divisor])

lemma bit_at_sel [simp]: "M_p (bit_at k) = int (k div 32)" "unat (M_offset (bit_at k)) = k mod 32"
  by (simp_all add: bit_at_def)

lemma bit_at_inject [simp]: "bit_at k = bit_at l \<longleftrightarrow> k = l"
proof
  assume "bit_at k = bit_at l"
  then have "k div 32 = l div 32" "k mod 32 = l mod 32"
    by (metis bit_at_sel of_nat_eq_iff)+
  then show "k = l"
    by (metis div_mult_mod_eq)
qed simp

lemma at_word: "bit_at (32 * n) = \<lparr>M_p = int n, M_offset = 0\<rparr>"
  by (simp add: bit_at_def)

lemma bit_at_eqI:
  assumes "M_p i = int p" and "unat (M_offset i) = q" and "q < 32" and "k = 32 * p + q"
  shows "i = bit_at k"
proof -
  have "unat (M_offset i) = unat (of_nat q :: u32)"
    using assms(2,3) by (simp add: unat_of_nat_small)
  then show ?thesis
    using assms by (simp add: bit_at_def word_unat_eq_iff)
qed

lemma offset_eq: "M_offset (bit_at k) = of_nat (k mod 32)"
  by (simp add: bit_at_def)

lemma offset_num: "c < 32 \<Longrightarrow> M_offset (bit_at k) = of_nat c \<longleftrightarrow> k mod 32 = c"
  by (simp add: word_unat_eq_iff unat_of_nat_small)

lemma offset_0 [simp]: "M_offset (bit_at k) = 0 \<longleftrightarrow> k mod 32 = 0"
  by (simp add: word_unat_eq_iff)

subsection \<open>Arithmetic of iterators\<close>

lemma bit_at_split: "r < 32 \<Longrightarrow> bit_at (32 * q + r) = \<lparr>M_p = int q, M_offset = of_nat r\<rparr>"
  by (simp add: bit_at_def)

lemma position_cases:
  obtains q r where "k = 32 * q + r" and "r < (32::nat)"
  by (rule that [of "k div 32" "k mod 32"]) simp_all

lemma small_of_nat_eq: "r < 32 \<Longrightarrow> c < 32 \<Longrightarrow> (of_nat r :: u32) = of_nat c \<longleftrightarrow> r = c"
  by (simp add: word_unat_eq_iff unat_of_nat_small)

lemma bump_up_at [simp]: "M_bump_up (bit_at k) = bit_at (Suc k)"
proof (cases k rule: position_cases)
  case (1 q r)
  show ?thesis
  proof (cases "r = 31")
    case True
    then show ?thesis
      using 1 bit_at_split [of 31 q] bit_at_split [of 0 "Suc q"] by (simp add: M_bump_up_def)
  next
    case False
    then show ?thesis
      using 1 bit_at_split [of r q] bit_at_split [of "Suc r" q] small_of_nat_eq [of r 31]
      by (simp add: M_bump_up_def add.commute)
  qed
qed

lemma bump_down_at [simp]: "M_bump_down (bit_at (Suc k)) = bit_at k"
proof (cases k rule: position_cases)
  case (1 q r)
  show ?thesis
  proof (cases "r = 31")
    case True
    then show ?thesis
      using 1 bit_at_split [of 31 q] bit_at_split [of 0 "Suc q"] by (simp add: M_bump_down_def)
  next
    case False
    then show ?thesis
      using 1 bit_at_split [of r q] bit_at_split [of "Suc r" q] small_of_nat_eq [of "Suc r" 0]
      by (simp add: M_bump_down_def)
  qed
qed

lemma sint_word_of_int: "- 2147483648 \<le> x \<Longrightarrow> x < 2147483648 \<Longrightarrow> sint (word_of_int x :: u32) = x"
  by (simp add: signed_take_bit_int_eq_self sint_sbintrunc')

lemma quotient_32: "32 * D + R = 32 * a + b \<Longrightarrow> - 32 < R \<Longrightarrow> R < 32 \<Longrightarrow> 0 \<le> b \<Longrightarrow> b < 32 \<Longrightarrow>
    D = a + of_bool (R < 0) \<and> R = b - 32 * of_bool (R < 0)" for D R a b :: int
proof -
  assume r: "32 * D + R = 32 * a + b" "- 32 < R" "R < 32" "0 \<le> b" "b < 32"
  have "D = a + 1" if "R < 0"
    using r that by linarith
  moreover have "D = a" if "\<not> R < 0"
    using r that by linarith
  ultimately have "D = a + of_bool (R < 0)"
    by simp
  moreover from this have "R = b - 32 * of_bool (R < 0)"
    using r(1) by linarith
  ultimately show ?thesis ..
qed

lemma sdiv_32:
  fixes m :: int
  assumes "m = 32 * a + b" and "0 \<le> b" and "b < 32"
  shows "m sdiv 32 = a + of_bool (m smod 32 < 0) \<and> m smod 32 = b - 32 * of_bool (m smod 32 < 0)"
proof (rule quotient_32)
  show "32 * (m sdiv 32) + m smod 32 = 32 * a + b"
    using mult_sdiv_smod_eq [of 32 m] assms(1) by simp
  have "\<bar>m smod 32\<bar> < 32"
    by (cases "m \<ge> 0") (auto simp: smod_int_alt_def abs_mult sgn_if)
  then show "- 32 < m smod 32" "m smod 32 < 32"
    by linarith+
qed (fact assms)+

text \<open>Adding a difference: right as long as the sum with the offset is a \<open>difference_type\<close>.\<close>

lemma incr_at:
  assumes "int k + n = int l" and "- 2147483648 \<le> n" and "int (k mod 32) + n < 2147483648"
  shows "M_incr (bit_at k) n = bit_at l"
proof -
  obtain q r where k: "k = 32 * q + r" "r < 32"
    by (rule position_cases)
  obtain a b where l: "l = 32 * a + b" "b < 32"
    by (rule position_cases)
  define m where "m = int r + n"
  have "word_of_int n + of_nat r = (word_of_int m :: u32)"
    by (simp add: m_def add.commute)
  then have s: "sint (word_of_int n + of_nat r :: u32) = m"
    using assms(2,3) k sint_word_of_int [of m] by (simp only: m_def) simp
  have "m = 32 * (int a - int q) + int b"
    using assms(1) k(1) l(1) by (simp add: m_def)
  note sdiv_32 [OF this]
  then show ?thesis
    using l(2) k bit_at_split [of r q] bit_at_split [of b a] l(1)
    by (cases "m smod 32 < 0") (simp_all add: M_incr_def s Let_def)
qed

lemma decr_at:
  assumes "int k - n = int l" and "n \<le> 2147483648" and "int (k mod 32) - n < 2147483648"
  shows "M_decr (bit_at k) n = bit_at l"
  unfolding M_decr_def by (rule incr_at) (use assms in simp_all)

lemma diff_at:
  assumes "\<bar>int k - int l\<bar> < 2147483648"
  shows "bit_diff (bit_at k) (bit_at l) = int k - int l"
proof -
  obtain q r where k: "k = 32 * q + r" "r < 32"
    by (rule position_cases)
  obtain a b where l: "l = 32 * a + b" "b < 32"
    by (rule position_cases)
  have "word_of_int (32 * (int q - int a)) + of_nat r - of_nat b = (word_of_int (int k - int l) :: u32)"
    by (simp add: k l algebra_simps)
  then show ?thesis
    using assms sint_word_of_int [of "int k - int l"] bit_at_split [OF k(2), of q] bit_at_split [OF l(2), of a] k(1) l(1)
    by (simp add: bit_diff_def del: of_int_diff of_int_mult of_int_of_nat_eq)
qed

lemma eq_at [simp]: "bit_eq (bit_at k) (bit_at l) \<longleftrightarrow> k = l"
proof
  assume "bit_eq (bit_at k) (bit_at l)"
  then have "M_p (bit_at k) = M_p (bit_at l)" "M_offset (bit_at k) = M_offset (bit_at l)"
    unfolding bit_eq_def by blast+
  then have "bit_at k = bit_at l"
    by (intro bit_iterator.equality) simp_all
  then show "k = l"
    by simp
qed (simp add: bit_eq_def)

lemma less_at: "bit_less (bit_at k) (bit_at l) \<longleftrightarrow> k < l"
proof -
  obtain q r where k: "k = 32 * q + r" "r < 32"
    by (rule position_cases)
  obtain a b where l: "l = 32 * a + b" "b < 32"
    by (rule position_cases)
  have "(of_nat r :: u32) < of_nat b \<longleftrightarrow> r < b"
    using k(2) l(2) by (simp add: word_less_nat_alt unat_of_nat_small)
  moreover have "32 * q + r < 32 * a + b \<longleftrightarrow> q < a \<or> q = a \<and> r < b"
    using k(2) l(2) by linarith
  ultimately show ?thesis
    using k l by (simp add: bit_less_def bit_at_split)
qed

text \<open>The contract of a random access iterator, for every block that the code can address.\<close>

interpretation bit_iter: random_access bit_at "2147483616" M_bump_up M_bump_down M_incr M_decr bit_diff bit_eq bit_less
proof
  show "M_incr (bit_at k) (int l - int k) = bit_at l" if "k \<le> 2147483616" "l \<le> 2147483616" for k l
  proof (rule incr_at)
    have "k mod 32 \<le> k" "k mod 32 < 32"
      by simp_all
    then show "int (k mod 32) + (int l - int k) < 2147483648"
      using that by linarith
  qed (use that in linarith)+
  show "M_decr (bit_at k) (int k - int l) = bit_at l" if "k \<le> 2147483616" "l \<le> 2147483616" for k l
  proof (rule decr_at)
    have "k mod 32 \<le> k" "k mod 32 < 32"
      by simp_all
    then show "int (k mod 32) - (int k - int l) < 2147483648"
      using that by linarith
  qed (use that in linarith)+
qed (simp_all add: diff_at less_at)

subsection \<open>Accesses\<close>

lemma bits_update:
  assumes "q < length ws" and "k < 32 * length ws"
  shows "bits (ws[q := w]) ! k = (if k div 32 = q then bit w (k mod 32) else bits ws ! k)"
  using assms by (simp add: bits_nth)

lemma word_index: "k div 32 < length ws \<longleftrightarrow> k < 32 * length ws"
  by (simp add: div_less_iff_less_mult mult.commute)

lemma ref_get_at: "ref_get (bit_deref (bit_at k)) ws = aget (bits ws) k"
  using word_index [of k ws]
  by (cases "k < 32 * length ws")
    (simp_all add: ref_get_def bit_deref_def word_get_def aget_def bits_nth bit_iff_and_push_bit_not_eq_0)

lemma bits_set:
  assumes "k < 32 * length ws" and "\<And>j. j < 32 \<Longrightarrow> bit w j = (if j = k mod 32 then x else bit (ws ! (k div 32)) j)"
  shows "bits (ws[k div 32 := w]) = (bits ws)[k := x]"
proof (rule nth_equalityI)
  fix l
  assume "l < length (bits (ws[k div 32 := w]))"
  moreover have "k div 32 < length ws"
    using assms(1) by (simp add: word_index)
  moreover have "l div 32 = k div 32 \<Longrightarrow> l mod 32 = k mod 32 \<longleftrightarrow> l = k"
    by (metis div_mult_mod_eq)
  ultimately show "bits (ws[k div 32 := w]) ! l = (bits ws)[k := x] ! l"
    using assms by (auto simp: bits_update nth_list_update bits_nth)
qed simp

lemma ref_set_at: "map_option bits (ref_set (bit_deref (bit_at k)) x ws) = aset k x (bits ws)"
proof (cases "k < 32 * length ws")
  case True
  then have "k div 32 < length ws"
    by (simp add: word_index)
  then show ?thesis
    using bits_set [OF True, of "ws ! (k div 32) OR push_bit (k mod 32) 1" True]
      bits_set [OF True, of "ws ! (k div 32) AND NOT (push_bit (k mod 32) 1)" False] True
    by (cases x) (simp_all add: ref_set_def bit_deref_def word_get_def word_set_def bit_simps)
next
  case False
  then have "\<not> k div 32 < length ws"
    by (simp add: word_index)
  then show ?thesis
    using False by (simp add: ref_set_def bit_deref_def word_get_def aget_def aset_def)
qed

lemma ref_flip_at:
  assumes "k < 32 * length ws"
  shows "map_option bits (ref_flip (bit_deref (bit_at k)) ws) = Some ((bits ws)[k := \<not> bits ws ! k])"
proof -
  have "k div 32 < length ws"
    using assms by (simp add: word_index)
  then show ?thesis
    using bits_set [OF assms, of "ws ! (k div 32) XOR push_bit (k mod 32) 1" "\<not> bits ws ! k"] assms
    by (simp add: ref_flip_def bit_deref_def word_get_def word_set_def bit_simps bits_nth)
qed

text \<open>A write inside of the block succeeds.\<close>

lemma ref_set_ex:
  assumes "aset k x (bits ws) = Some l"
  obtains ws' where "ref_set (bit_deref (bit_at k)) x ws = Some ws'" and "bits ws' = l"
  using assms ref_set_at [of k x ws] by (cases "ref_set (bit_deref (bit_at k)) x ws") auto

lemma ref_set_none: "aset k x (bits ws) = None \<Longrightarrow> ref_set (bit_deref (bit_at k)) x ws = None"
  using ref_set_at [of k x ws] by simp

subsection \<open>Copying\<close>

text \<open>Copying bits is copying elements of the list.\<close>

lemma bit_copy_loop_at:
  "map_option (map_prod bits id) (bit_copy_loop n (bit_at i) (bit_at j) ws) =
   map_option (map_prod id bit_at) (move_loop n i j (bits ws))"
proof (induction n arbitrary: i j ws)
  case (Suc n)
  show ?case
  proof (cases "aget (bits ws) i")
    case (Some x)
    show ?thesis
    proof (cases "aset j x (bits ws)")
      case None
      then show ?thesis
        using Some by (simp add: ref_get_at ref_set_none)
    next
      case (Some l)
      then obtain ws' where "ref_set (bit_deref (bit_at j)) x ws = Some ws'" "bits ws' = l"
        by (rule ref_set_ex)
      then show ?thesis
        using Suc Some \<open>aget (bits ws) i = Some x\<close> by (simp add: ref_get_at)
    qed
  qed (simp add: ref_get_at)
qed simp

lemma bit_copy_to_loop_at:
  "map_option (map_prod bits id) (bit_copy_to_loop n (bit_at i) (bit_at j) src dst) =
   map_option (map_prod id bit_at) (move_to_loop n i j (bits src) (bits dst))"
proof (induction n arbitrary: i j dst)
  case (Suc n)
  show ?case
  proof (cases "aget (bits src) i")
    case (Some x)
    show ?thesis
    proof (cases "aset j x (bits dst)")
      case None
      then show ?thesis
        using Some by (simp add: ref_get_at ref_set_none)
    next
      case (Some l)
      then obtain ws' where "ref_set (bit_deref (bit_at j)) x dst = Some ws'" "bits ws' = l"
        by (rule ref_set_ex)
      then show ?thesis
        using Suc Some \<open>aget (bits src) i = Some x\<close> by (simp add: ref_get_at)
    qed
  qed (simp add: ref_get_at)
qed simp

lemma bit_copy_backward_loop_at:
  "n \<le> i \<Longrightarrow> n \<le> j \<Longrightarrow>
   map_option (map_prod bits id) (bit_copy_backward_loop n (bit_at i) (bit_at j) ws) =
   map_option (map_prod id bit_at) (move_backward_loop n i j (bits ws))"
proof (induction n arbitrary: i j ws)
  case (Suc n)
  then obtain i' j' where ij: "i = Suc i'" "j = Suc j'"
    by (metis Suc_le_D)
  show ?case
  proof (cases "aget (bits ws) i'")
    case (Some x)
    show ?thesis
    proof (cases "aset j' x (bits ws)")
      case None
      then show ?thesis
        using Some by (simp add: ref_get_at ref_set_none ij)
    next
      case (Some l)
      then obtain ws' where "ref_set (bit_deref (bit_at j')) x ws = Some ws'" "bits ws' = l"
        by (rule ref_set_ex)
      then show ?thesis
        using Suc Some \<open>aget (bits ws) i' = Some x\<close> by (simp add: ref_get_at ij)
    qed
  qed (simp add: ref_get_at ij)
qed simp

lemma bit_copy_from_at:
  "length J = length xs \<Longrightarrow> bits ws = d @ J @ e \<Longrightarrow>
   \<exists>ws'. bit_copy_from xs (bit_at (length d)) ws = Some (ws', bit_at (length d + length xs)) \<and> bits ws' = d @ xs @ e"
proof (induction xs arbitrary: d J ws)
  case (Cons x xs)
  then obtain j J' where J: "J = j # J'" "length J' = length xs"
    by (cases J) auto
  then have "aset (length d) x (bits ws) = Some ((d @ [x]) @ J' @ e)"
    using Cons.prems(2) by (simp add: aset_def)
  then obtain ws' where "ref_set (bit_deref (bit_at (length d))) x ws = Some ws'" "bits ws' = (d @ [x]) @ J' @ e"
    by (rule ref_set_ex)
  then show ?case
    using Cons.IH [OF J(2), of ws' "d @ [x]"] by auto
qed simp

lemma option_map_prodE:
  assumes "map_option (map_prod f id) m = map_option (map_prod id g) (Some (l, k))"
  obtains w where "m = Some (w, g k)" and "f w = l"
  using assms by (cases m) auto

text \<open>The algorithms in block form. The ranges are short enough for their length to be a difference.\<close>

lemma bit_copy_at:
  assumes "bits ws = pre @ A @ X @ post" and "32 * length ws < 2147483648"
  shows "\<exists>J ws'. length J = length A \<and> bits ws' = pre @ X @ J @ post \<and>
    bit_copy (bit_at (length pre + length A)) (bit_at (length pre + length A + length X)) (bit_at (length pre)) ws =
      Some (ws', bit_at (length pre + length X))"
proof -
  have "length X \<le> 32 * length ws"
    using arg_cong [OF assms(1), of length] by simp
  then have "bit_diff (bit_at (length pre + length A + length X)) (bit_at (length pre + length A)) = int (length X)"
    using assms(2) diff_at [of "length pre + length A + length X" "length pre + length A"] by simp
  then show ?thesis
    using move_loop_block [where X = X and pre = pre and A = A and post = post]
      bit_copy_loop_at [of "length X" "length pre + length A" "length pre" ws] assms(1)
    by (fastforce simp: bit_copy_def elim: option_map_prodE)
qed

lemma bit_copy_backward_at:
  assumes "bits ws = pre @ X @ A @ post" and "32 * length ws < 2147483648"
  shows "\<exists>J ws'. length J = length A \<and> bits ws' = pre @ J @ X @ post \<and>
    bit_copy_backward (bit_at (length pre)) (bit_at (length pre + length X)) (bit_at (length pre + length X + length A)) ws =
      Some (ws', bit_at (length pre + length A))"
proof -
  have "length X \<le> 32 * length ws"
    using arg_cong [OF assms(1), of length] by simp
  then have "bit_diff (bit_at (length pre + length X)) (bit_at (length pre)) = int (length X)"
    using assms(2) diff_at [of "length pre + length X" "length pre"] by simp
  then show ?thesis
    using move_backward_loop_block [where X = X and pre = pre and A = A and post = post]
      bit_copy_backward_loop_at [of "length X" "length pre + length X" "length pre + length X + length A" ws] assms(1)
    by (fastforce simp: bit_copy_backward_def elim: option_map_prodE)
qed

lemma bit_copy_to_at:
  assumes "bits src = p @ X @ q" and "bits dst = d @ J @ e" and "length J = length X" and "32 * length src < 2147483648"
  shows "\<exists>dst'. bits dst' = d @ X @ e \<and>
    bit_copy_to (bit_at (length p)) (bit_at (length p + length X)) (bit_at (length d)) src dst =
      Some (dst', bit_at (length d + length X))"
proof -
  have "length X \<le> 32 * length src"
    using arg_cong [OF assms(1), of length] by simp
  then have "bit_diff (bit_at (length p + length X)) (bit_at (length p)) = int (length X)"
    using assms(4) diff_at [of "length p + length X" "length p"] by simp
  then show ?thesis
    using move_to_loop_block [OF assms(3), of p d q e]
      bit_copy_to_loop_at [of "length X" "length p" "length d" src dst] assms(1,2)
    by (fastforce simp: bit_copy_to_def elim: option_map_prodE)
qed

lemma bits_append: "bits (a @ b) = bits a @ bits b"
  by (rule nth_equalityI)
    (auto simp: bits_nth nth_append div_less_iff_less_mult mult.commute div_mult_self4 mod_mult_self4 not_less
      le_div_geq le_iff_add)

lemma bits_take: "q \<le> length ws \<Longrightarrow> bits (take q ws) = take (32 * q) (bits ws)"
  using bits_append [of "take q ws" "drop q ws"] by (simp add: append_eq_conv_conj min_def)

lemma bits_drop: "q \<le> length ws \<Longrightarrow> bits (drop q ws) = drop (32 * q) (bits ws)"
  using bits_append [of "take q ws" "drop q ws"] by (simp add: append_eq_conv_conj min_def)

subsection \<open>Filling\<close>

definition filled :: "nat \<Rightarrow> nat \<Rightarrow> bool \<Rightarrow> u32 list \<Rightarrow> u32 list \<Rightarrow> bool" where
  "filled i j x ws ws' \<longleftrightarrow> length ws' = length ws \<and>
     (\<forall>k < 32 * length ws. bits ws' ! k = (if i \<le> k \<and> k < j then x else bits ws ! k))"

lemma filled_trans: "filled i m x ws ws' \<Longrightarrow> filled m j x ws' ws'' \<Longrightarrow> i \<le> m \<Longrightarrow> m \<le> j \<Longrightarrow> filled i j x ws ws''"
  by (auto simp: filled_def)

lemma filled_refl: "j \<le> i \<Longrightarrow> filled i j x ws ws"
  by (auto simp: filled_def)

lemma filled_word:
  assumes "q < length ws" and "\<And>n. n < 32 \<Longrightarrow> bit w n = (if r \<le> n \<and> n < s then x else bit (ws ! q) n)" and "s \<le> 32"
  shows "filled (32 * q + r) (32 * q + s) x ws (ws[q := w])"
  unfolding filled_def
proof (intro conjI allI impI)
  fix k
  assume k: "k < 32 * length ws"
  obtain a b where ab: "k = 32 * a + b" "b < 32"
    by (rule position_cases)
  have "32 * q + r \<le> k \<and> k < 32 * q + s \<longleftrightarrow> a = q \<and> r \<le> b \<and> b < s" if "a \<noteq> q \<or> b < 32"
    using ab assms(3) by (cases "a < q"; cases "q < a") auto
  then show "bits (ws[q := w]) ! k = (if 32 * q + r \<le> k \<and> k < 32 * q + s then x else bits ws ! k)"
    using assms k ab by (cases "a = q") (auto simp: bits_update bits_nth)
qed simp

lemma fill_bvector_at:
  assumes "q < length ws" and "r < 32" and "s \<le> 32"
  shows "\<exists>ws'. fill_bvector (int q) (of_nat r) (of_nat s) x ws = Some ws' \<and> filled (32 * q + r) (32 * q + s) x ws ws'"
proof -
  have s: "unat (32 - of_nat s :: u32) = 32 - s"
    using assms(3) by (simp add: unat_sub word_le_nat_alt unat_of_nat_small)
  define m :: u32 where "m = push_bit r (- 1) AND drop_bit (32 - s) (- 1)"
  have m: "bit m n \<longleftrightarrow> r \<le> n \<and> n < s" if "n < 32" for n
    using that assms(3) by (auto simp: m_def bit_simps)
  have "fill_bvector (int q) (of_nat r) (of_nat s) x ws =
      Some (ws[q := if x then ws ! q OR m else ws ! q AND NOT m])"
    using assms by (simp only: fill_bvector_def Let_def s unat_of_nat_small m_def) (simp add: word_get_def word_set_def unat_of_nat_small)
  moreover have "filled (32 * q + r) (32 * q + s) x ws (ws[q := if x then ws ! q OR m else ws ! q AND NOT m])"
    using assms m by (intro filled_word) (auto simp: bit_or_iff bit_and_iff bit_not_iff)
  ultimately show ?thesis
    by blast
qed

lemma memset_words_at:
  "p + n \<le> length ws \<Longrightarrow>
   \<exists>ws'. memset_words n (int p) (if x then - 1 else 0) ws = Some ws' \<and> filled (32 * p) (32 * (p + n)) x ws ws'"
proof (induction n arbitrary: p ws)
  case (Suc n)
  define w :: u32 where "w = (if x then - 1 else 0)"
  have "filled (32 * p + 0) (32 * p + 32) x ws (ws[p := w])"
    using Suc.prems by (intro filled_word) (auto simp: w_def)
  moreover obtain ws' where "memset_words n (int (Suc p)) w (ws[p := w]) = Some ws'"
    "filled (32 * Suc p) (32 * (Suc p + n)) x (ws[p := w]) ws'"
    using Suc.IH [of "Suc p" "ws[p := w]"] Suc.prems by (auto simp: w_def)
  ultimately show ?case
    using filled_trans [of "32 * p" "32 * Suc p" x ws "ws[p := w]" "32 * (Suc p + n)" ws'] Suc.prems
    by (simp add: w_def [symmetric] word_set_def add.commute)
qed (simp add: filled_refl)

lemma bit_fill_filled:
  assumes "i \<le> j" and "j \<le> 32 * length ws"
  shows "\<exists>ws'. bit_fill (bit_at i) (bit_at j) x ws = Some ws' \<and> filled i j x ws ws'"
proof -
  obtain q r where i: "i = 32 * q + r" "r < 32"
    by (rule position_cases)
  obtain a b where j: "j = 32 * a + b" "b < 32"
    by (rule position_cases)
  have ij: "bit_at i = \<lparr>M_p = int q, M_offset = of_nat r\<rparr>" "bit_at j = \<lparr>M_p = int a, M_offset = of_nat b\<rparr>"
    using i j by (simp_all add: bit_at_split)
  show ?thesis
  proof (cases "q = a")
    case True
    then show ?thesis
      using fill_bvector_at [of q ws r b x] i j ij assms small_of_nat_eq [OF i(2) j(2)]
      by (cases "r = b") (auto simp: bit_fill_def filled_refl)
  next
    case False
    then have "q < a"
      using assms i j by linarith
    then have "q < length ws"
      using assms j by linarith
    define p where "p = (if r = 0 then q else q + 1)"
    have p: "q \<le> p" "p \<le> a" "i \<le> 32 * p" "a \<le> length ws"
      using \<open>q < a\<close> assms i j by (auto simp: p_def)
    obtain w1 where w1: "(if M_offset (bit_at i) \<noteq> 0 then do {
             ws \<leftarrow> fill_bvector (M_p (bit_at i)) (M_offset (bit_at i)) 32 x ws;
             Some (M_p (bit_at i) + 1, ws) }
           else Some (M_p (bit_at i), ws)) = Some (int p, w1)" "filled i (32 * p) x ws w1"
      using fill_bvector_at [OF \<open>q < length ws\<close> i(2), of 32 x] ij i small_of_nat_eq [OF i(2), of 0]
      by (auto simp: p_def filled_refl add.commute)
    then have "length w1 = length ws"
      by (simp add: filled_def)
    then obtain w2 where w2: "memset_words (a - p) (int p) (if x then - 1 else 0) w1 = Some w2" "filled (32 * p) (32 * a) x w1 w2"
      using memset_words_at [of p "a - p" w1 x] p by auto
    then have "length w2 = length ws"
      using \<open>length w1 = length ws\<close> by (simp add: filled_def)
    obtain w3 where w3: "(if M_offset (bit_at j) \<noteq> 0 then fill_bvector (M_p (bit_at j)) 0 (M_offset (bit_at j)) x w2 else Some w2) = Some w3"
      "filled (32 * a) j x w2 w3"
    proof (cases "b = 0")
      case False
      then have "a < length w2"
        using assms(2) j \<open>length w2 = length ws\<close> by linarith
      then show thesis
        using that fill_bvector_at [of a w2 0 b x] j ij False small_of_nat_eq [OF j(2), of 0] by auto
    qed (use that j ij in \<open>auto simp: filled_refl\<close>)
    have "bit_fill (bit_at i) (bit_at j) x ws = Some w3"
      using w1(1) w2(1) w3(1) False p unfolding bit_fill_def by (simp add: ij nat_diff_distrib)
    moreover have "filled i j x ws w3"
      using filled_trans [OF filled_trans [OF w1(2) w2(2)] w3(2)] p j by simp
    ultimately show ?thesis
      by blast
  qed
qed

lemma filled_bits:
  assumes "filled i j x ws ws'" and "i \<le> j" and "j \<le> 32 * length ws"
  shows "bits ws' = take i (bits ws) @ replicate (j - i) x @ drop j (bits ws)"
  using assms by (intro nth_equalityI) (auto simp: filled_def nth_append)

lemma bit_fill_at:
  assumes "bits ws = d @ J @ e"
  shows "\<exists>ws'. bit_fill (bit_at (length d)) (bit_at (length d + length J)) x ws = Some ws' \<and>
    bits ws' = d @ replicate (length J) x @ e"
proof -
  have "length d + length J \<le> 32 * length ws"
    using arg_cong [OF assms, of length] by simp
  then show ?thesis
    using bit_fill_filled [of "length d" "length d + length J" ws x] filled_bits [of "length d" "length d + length J" x ws] assms
    by auto
qed

end
