(* ===== verification/Stl_Bvector.thy ===== *)
theory Stl_Bvector
  imports Stl_Bits
begin

text \<open>
  The container \<open>vector<bool>\<close> of libstdc++ (\<^verbatim>\<open>c++/8.2.0/bits/stl_bvector.h\<close>, \<^verbatim>\<open>vector.tcc\<close>) with
  the allocator \<open>new_allocator\<close> (\<^verbatim>\<open>ext/new_allocator.h\<close>).

  A vector owns one block of words. Its iterators point into that block, so that a pointer is a
  number of a word; a vector without a block has null pointers, for which the model has the pointers
  into the empty block: every comparison and difference of them is the same. Sizes are 32-bit words and
  differences are converted to \<open>difference_type\<close> (\<open>sint\<close>).

  Which requests \<open>operator new\<close> satisfies and what the new memory holds are arguments (\<open>heap\<close>). An
  exception is a value; \<open>None\<close> is an access outside of a block. \<open>represents v xs\<close> is the invariant of the
  container together with the list of its elements, and each operation is shown to do on that list what its name says.
\<close>

unbundle bit_operations_syntax

section \<open>The container\<close>

datatype exn = Length_error | Out_of_range | Bad_alloc

record heap =
  operator_new :: "u32 \<Rightarrow> bool"
  new_memory :: "nat \<Rightarrow> u32"

record bvector =
  M_start :: bit_iterator
  M_finish :: bit_iterator
  M_end_of_storage :: int
  M_words :: "u32 list"

text \<open>A computation that goes on if the one before did not throw.\<close>

definition unless_thrown :: "exn + 'a \<Rightarrow> ('a \<Rightarrow> (exn + 'b) option) \<Rightarrow> (exn + 'b) option" where
  "unless_thrown r f = (case r of Inl e \<Rightarrow> Some (Inl e) | Inr x \<Rightarrow> f x)"

subsection \<open>Allocation\<close>

definition allocator_max_size :: u32 where
  "allocator_max_size = - 1 div 4"

definition allocator_allocate :: "heap \<Rightarrow> u32 \<Rightarrow> exn + u32 list" where
  "allocator_allocate h n =
     (if n > allocator_max_size then Inl Bad_alloc
      else if operator_new h (n * 4) then Inr (map (new_memory h) [0..<unat n])
      else Inl Bad_alloc)"

definition S_nword :: "u32 \<Rightarrow> u32" where
  "S_nword n = (n + 32 - 1) div 32"

definition M_allocate :: "heap \<Rightarrow> u32 \<Rightarrow> exn + u32 list" where
  "M_allocate h n = allocator_allocate h (S_nword n)"

definition bit_begin :: bit_iterator where
  "bit_begin = \<lparr>M_p = 0, M_offset = 0\<rparr>"

definition bvector_empty :: bvector where
  "bvector_empty = \<lparr>M_start = bit_begin, M_finish = bit_begin, M_end_of_storage = 0, M_words = []\<rparr>"

subsection \<open>Sizes and elements\<close>

definition bv_size :: "bvector \<Rightarrow> u32" where
  "bv_size v = word_of_int (bit_diff (M_finish v) (M_start v))"

definition bv_max_size :: u32 where
  "bv_max_size = (
     let isize = 2147483647 - 32 + 1; asize = allocator_max_size
     in if asize \<le> isize div 32 then asize * 32 else isize)"

definition bv_capacity :: "bvector \<Rightarrow> u32" where
  "bv_capacity v = word_of_int (bit_diff \<lparr>M_p = M_end_of_storage v, M_offset = 0\<rparr> (M_start v))"

definition bv_empty :: "bvector \<Rightarrow> bool" where
  "bv_empty v = bit_eq (M_start v) (M_finish v)"

definition bv_index :: "bvector \<Rightarrow> u32 \<Rightarrow> bit_reference" where
  "bv_index v n = bit_deref \<lparr>M_p = M_p (M_start v) + uint (n div 32), M_offset = n mod 32\<rparr>"

definition bv_at :: "bvector \<Rightarrow> u32 \<Rightarrow> exn + bit_reference" where
  "bv_at v n = (if n \<ge> bv_size v then Inl Out_of_range else Inr (bv_index v n))"

definition bv_front :: "bvector \<Rightarrow> bit_reference" where
  "bv_front v = bit_deref (M_start v)"

definition bv_back :: "bvector \<Rightarrow> bit_reference" where
  "bv_back v = bit_deref (M_decr (M_finish v) 1)"

text \<open>\<open>v[n] = x\<close>, an assignment through the reference.\<close>

definition bv_write :: "bvector \<Rightarrow> u32 \<Rightarrow> bool \<Rightarrow> bvector option" where
  "bv_write v n x = do { ws \<leftarrow> ref_set (bv_index v n) x (M_words v); Some (v\<lparr>M_words := ws\<rparr>) }"

definition M_check_len :: "bvector \<Rightarrow> u32 \<Rightarrow> exn + u32" where
  "M_check_len v n =
     (if bv_max_size - bv_size v < n then Inl Length_error
      else let len = bv_size v + max (bv_size v) n
           in Inr (if len < bv_size v \<or> len > bv_max_size then bv_max_size else len))"

subsection \<open>Construction and reallocation\<close>

text \<open>Words are copied by \<open>memmove\<close>, the bits of the last word one by one.\<close>

definition M_copy_aligned ::
  "bit_iterator \<Rightarrow> bit_iterator \<Rightarrow> bit_iterator \<Rightarrow> u32 list \<Rightarrow> u32 list \<Rightarrow> (u32 list \<times> bit_iterator) option" where
  "M_copy_aligned first lst result src dst = do {
     (dst, q) \<leftarrow> move_to (nat (M_p first)) (nat (M_p lst)) (nat (M_p result)) src dst;
     bit_copy_to \<lparr>M_p = M_p lst, M_offset = 0\<rparr> lst \<lparr>M_p = int q, M_offset = 0\<rparr> src dst }"

definition M_initialize :: "heap \<Rightarrow> u32 \<Rightarrow> exn + bvector" where
  "M_initialize h n =
     (if n \<noteq> 0 then
        (case M_allocate h n of
           Inl e \<Rightarrow> Inl e
         | Inr q \<Rightarrow> Inr \<lparr>M_start = bit_begin, M_finish = M_incr bit_begin (sint n),
                       M_end_of_storage = uint (S_nword n), M_words = q\<rparr>)
      else Inr \<lparr>M_start = bit_begin, M_finish = M_incr bit_begin (sint n), M_end_of_storage = 0, M_words = []\<rparr>)"

definition M_initialize_value :: "bool \<Rightarrow> bvector \<Rightarrow> bvector option" where
  "M_initialize_value x v = do {
     ws \<leftarrow> memset_words (nat (M_end_of_storage v - M_p (M_start v))) (M_p (M_start v)) (if x then - 1 else 0) (M_words v);
     Some (v\<lparr>M_words := ws\<rparr>) }"

definition bvector_fill :: "heap \<Rightarrow> u32 \<Rightarrow> bool \<Rightarrow> (exn + bvector) option" where
  "bvector_fill h n value = unless_thrown (M_initialize h n) (\<lambda>v. map_option Inr (M_initialize_value value v))"

definition bvector_copy :: "heap \<Rightarrow> bvector \<Rightarrow> (exn + bvector) option" where
  "bvector_copy h x = unless_thrown (M_initialize h (bv_size x)) (\<lambda>v. do {
     (ws, r) \<leftarrow> M_copy_aligned (M_start x) (M_finish x) (M_start v) (M_words x) (M_words v);
     Some (Inr (v\<lparr>M_words := ws\<rparr>)) })"

definition bvector_range :: "heap \<Rightarrow> bool list \<Rightarrow> (exn + bvector) option" where
  "bvector_range h xs = unless_thrown (M_initialize h (of_nat (length xs))) (\<lambda>v. do {
     (ws, r) \<leftarrow> bit_copy_from xs (M_start v) (M_words v);
     Some (Inr (v\<lparr>M_words := ws\<rparr>)) })"

definition bvector_assign :: "heap \<Rightarrow> bvector \<Rightarrow> bvector \<Rightarrow> (exn + bvector) option" where
  "bvector_assign h v x =
     unless_thrown (if bv_size x > bv_capacity v then M_initialize h (bv_size x) else Inr v) (\<lambda>v. do {
       (ws, r) \<leftarrow> M_copy_aligned (M_start x) (M_finish x) (M_start v) (M_words x) (M_words v);
       Some (Inr (v\<lparr>M_finish := r, M_words := ws\<rparr>)) })"

definition M_reallocate :: "heap \<Rightarrow> u32 \<Rightarrow> bvector \<Rightarrow> (exn + bvector) option" where
  "M_reallocate h n v = unless_thrown (M_allocate h n) (\<lambda>q. do {
     (q, fin) \<leftarrow> M_copy_aligned (M_start v) (M_finish v) bit_begin (M_words v) q;
     Some (Inr \<lparr>M_start = bit_begin, M_finish = fin, M_end_of_storage = uint (S_nword n), M_words = q\<rparr>) })"

definition bv_reserve :: "heap \<Rightarrow> u32 \<Rightarrow> bvector \<Rightarrow> (exn + bvector) option" where
  "bv_reserve h n v =
     (if n > bv_max_size then Some (Inl Length_error)
      else if bv_capacity v < n then M_reallocate h n v else Some (Inr v))"

text \<open>An exception in the reallocation is caught.\<close>

definition M_shrink_to_fit :: "heap \<Rightarrow> bvector \<Rightarrow> (bool \<times> bvector) option" where
  "M_shrink_to_fit h v =
     (if bv_capacity v - bv_size v < 32 then Some (False, v)
      else do {
        r \<leftarrow> M_reallocate h (bv_size v) v;
        Some (case r of Inl e \<Rightarrow> (False, v) | Inr v' \<Rightarrow> (True, v')) })"

subsection \<open>Insertion\<close>

definition M_append :: "bool \<Rightarrow> bvector \<Rightarrow> bvector option" where
  "M_append x v = do {
     ws \<leftarrow> ref_set (bit_deref (M_finish v)) x (M_words v);
     Some (v\<lparr>M_finish := M_bump_up (M_finish v), M_words := ws\<rparr>) }"

definition M_insert_aux :: "heap \<Rightarrow> bit_iterator \<Rightarrow> bool \<Rightarrow> bvector \<Rightarrow> (exn + bvector) option" where
  "M_insert_aux h position x v =
     (if M_p (M_finish v) \<noteq> M_end_of_storage v then do {
        (ws, r) \<leftarrow> bit_copy_backward position (M_finish v) (M_incr (M_finish v) 1) (M_words v);
        ws \<leftarrow> ref_set (bit_deref position) x ws;
        Some (Inr (v\<lparr>M_finish := M_bump_up (M_finish v), M_words := ws\<rparr>)) }
      else
        unless_thrown (M_check_len v 1) (\<lambda>len.
        unless_thrown (M_allocate h len) (\<lambda>q. do {
          (q, i) \<leftarrow> M_copy_aligned (M_start v) position bit_begin (M_words v) q;
          q \<leftarrow> ref_set (bit_deref i) x q;
          (q, fin) \<leftarrow> bit_copy_to position (M_finish v) (M_bump_up i) (M_words v) q;
          Some (Inr \<lparr>M_start = bit_begin, M_finish = fin, M_end_of_storage = uint (S_nword len), M_words = q\<rparr>) })))"

definition bv_push_back :: "heap \<Rightarrow> bool \<Rightarrow> bvector \<Rightarrow> (exn + bvector) option" where
  "bv_push_back h x v =
     (if M_p (M_finish v) \<noteq> M_end_of_storage v then map_option Inr (M_append x v)
      else M_insert_aux h (M_finish v) x v)"

definition bv_insert :: "heap \<Rightarrow> bit_iterator \<Rightarrow> bool \<Rightarrow> bvector \<Rightarrow> (exn + bvector \<times> bit_iterator) option" where
  "bv_insert h position x v = do {
     let n = bit_diff position (M_start v);
     r \<leftarrow> (if M_p (M_finish v) \<noteq> M_end_of_storage v \<and> bit_eq position (M_finish v)
           then map_option Inr (M_append x v)
           else M_insert_aux h position x v);
     Some (map_sum id (\<lambda>v. (v, M_incr (M_start v) n)) r) }"

definition M_fill_insert :: "heap \<Rightarrow> bit_iterator \<Rightarrow> u32 \<Rightarrow> bool \<Rightarrow> bvector \<Rightarrow> (exn + bvector) option" where
  "M_fill_insert h position n x v =
     (if n = 0 then Some (Inr v)
      else if bv_capacity v - bv_size v \<ge> n then do {
        (ws, r) \<leftarrow> bit_copy_backward position (M_finish v) (M_incr (M_finish v) (sint n)) (M_words v);
        ws \<leftarrow> bit_fill position (M_incr position (sint n)) x ws;
        Some (Inr (v\<lparr>M_finish := M_incr (M_finish v) (sint n), M_words := ws\<rparr>)) }
      else
        unless_thrown (M_check_len v n) (\<lambda>len.
        unless_thrown (M_allocate h len) (\<lambda>q. do {
          (q, i) \<leftarrow> M_copy_aligned (M_start v) position bit_begin (M_words v) q;
          q \<leftarrow> bit_fill i (M_incr i (sint n)) x q;
          (q, fin) \<leftarrow> bit_copy_to position (M_finish v) (M_incr i (sint n)) (M_words v) q;
          Some (Inr \<lparr>M_start = bit_begin, M_finish = fin, M_end_of_storage = uint (S_nword len), M_words = q\<rparr>) })))"

definition bv_insert_fill ::
  "heap \<Rightarrow> bit_iterator \<Rightarrow> u32 \<Rightarrow> bool \<Rightarrow> bvector \<Rightarrow> (exn + bvector \<times> bit_iterator) option" where
  "bv_insert_fill h position n x v = do {
     let offset = bit_diff position (M_start v);
     r \<leftarrow> M_fill_insert h position n x v;
     Some (map_sum id (\<lambda>v. (v, M_incr (M_start v) offset)) r) }"

text \<open>For forward iterators, and one element after the other for input iterators.\<close>

definition M_insert_range :: "heap \<Rightarrow> bit_iterator \<Rightarrow> bool list \<Rightarrow> bvector \<Rightarrow> (exn + bvector) option" where
  "M_insert_range h position xs v =
     (if xs \<noteq> [] then
        let n = of_nat (length xs)
        in if bv_capacity v - bv_size v \<ge> n then do {
             (ws, r) \<leftarrow> bit_copy_backward position (M_finish v) (M_incr (M_finish v) (sint n)) (M_words v);
             (ws, r) \<leftarrow> bit_copy_from xs position ws;
             Some (Inr (v\<lparr>M_finish := M_incr (M_finish v) (sint n), M_words := ws\<rparr>)) }
           else
             unless_thrown (M_check_len v n) (\<lambda>len.
             unless_thrown (M_allocate h len) (\<lambda>q. do {
               (q, i) \<leftarrow> M_copy_aligned (M_start v) position bit_begin (M_words v) q;
               (q, i) \<leftarrow> bit_copy_from xs i q;
               (q, fin) \<leftarrow> bit_copy_to position (M_finish v) i (M_words v) q;
               Some (Inr \<lparr>M_start = bit_begin, M_finish = fin, M_end_of_storage = uint (S_nword len), M_words = q\<rparr>) }))
      else Some (Inr v))"

primrec M_insert_input :: "heap \<Rightarrow> bool list \<Rightarrow> bit_iterator \<Rightarrow> bvector \<Rightarrow> (exn + bvector) option" where
  "M_insert_input h [] pos v = Some (Inr v)"
| "M_insert_input h (x # xs) pos v = do {
     r \<leftarrow> bv_insert h pos x v;
     unless_thrown r (\<lambda>(v, pos). M_insert_input h xs (M_bump_up pos) v) }"

primrec bvector_input :: "heap \<Rightarrow> bool list \<Rightarrow> bvector \<Rightarrow> (exn + bvector) option" where
  "bvector_input h [] v = Some (Inr v)"
| "bvector_input h (x # xs) v = do {
     r \<leftarrow> bv_push_back h x v;
     unless_thrown r (bvector_input h xs) }"

subsection \<open>Removal and assignment\<close>

definition bv_pop_back :: "bvector \<Rightarrow> bvector" where
  "bv_pop_back v = v\<lparr>M_finish := M_bump_down (M_finish v)\<rparr>"

definition M_erase_at_end :: "bit_iterator \<Rightarrow> bvector \<Rightarrow> bvector" where
  "M_erase_at_end pos v = v\<lparr>M_finish := pos\<rparr>"

definition bv_clear :: "bvector \<Rightarrow> bvector" where
  "bv_clear v = M_erase_at_end (M_start v) v"

definition bv_erase :: "bit_iterator \<Rightarrow> bvector \<Rightarrow> (bvector \<times> bit_iterator) option" where
  "bv_erase position v = do {
     ws \<leftarrow> (if \<not> bit_eq (M_incr position 1) (M_finish v)
            then map_option fst (bit_copy (M_incr position 1) (M_finish v) position (M_words v))
            else Some (M_words v));
     Some (v\<lparr>M_finish := M_bump_down (M_finish v), M_words := ws\<rparr>, position) }"

definition bv_erase_range :: "bit_iterator \<Rightarrow> bit_iterator \<Rightarrow> bvector \<Rightarrow> (bvector \<times> bit_iterator) option" where
  "bv_erase_range first lst v =
     (if \<not> bit_eq first lst then do {
        (ws, r) \<leftarrow> bit_copy lst (M_finish v) first (M_words v);
        Some (M_erase_at_end r (v\<lparr>M_words := ws\<rparr>), first) }
      else Some (v, first))"

definition bv_resize :: "heap \<Rightarrow> u32 \<Rightarrow> bool \<Rightarrow> bvector \<Rightarrow> (exn + bvector) option" where
  "bv_resize h new_size x v =
     (if new_size < bv_size v then Some (Inr (M_erase_at_end (M_incr (M_start v) (sint new_size)) v))
      else map_option (map_sum id fst) (bv_insert_fill h (M_finish v) (new_size - bv_size v) x v))"

text \<open>\<open>flip\<close> inverts all words of the block.\<close>

primrec flip_loop :: "nat \<Rightarrow> int \<Rightarrow> u32 list \<Rightarrow> u32 list option" where
  "flip_loop 0 p ws = Some ws"
| "flip_loop (Suc n) p ws = do {
     w \<leftarrow> word_get ws p;
     ws \<leftarrow> word_set p (NOT w) ws;
     flip_loop n (p + 1) ws }"

definition bv_flip :: "bvector \<Rightarrow> bvector option" where
  "bv_flip v = do {
     ws \<leftarrow> flip_loop (nat (M_end_of_storage v - M_p (M_start v))) (M_p (M_start v)) (M_words v);
     Some (v\<lparr>M_words := ws\<rparr>) }"

definition M_fill_assign :: "heap \<Rightarrow> u32 \<Rightarrow> bool \<Rightarrow> bvector \<Rightarrow> (exn + bvector) option" where
  "M_fill_assign h n x v =
     (if n > bv_size v then do {
        v \<leftarrow> M_initialize_value x v;
        map_option (map_sum id fst) (bv_insert_fill h (M_finish v) (n - bv_size v) x v) }
      else do {
        let v = M_erase_at_end (M_incr (M_start v) (sint n)) v;
        v \<leftarrow> M_initialize_value x v;
        Some (Inr v) })"

text \<open>\<open>assign\<close> of a range of forward iterators, and of input iterators.\<close>

definition M_assign_aux :: "heap \<Rightarrow> bool list \<Rightarrow> bvector \<Rightarrow> (exn + bvector) option" where
  "M_assign_aux h xs v = (
     let len = of_nat (length xs)
     in if len < bv_size v then do {
          (ws, r) \<leftarrow> bit_copy_from xs (M_start v) (M_words v);
          Some (Inr (M_erase_at_end r (v\<lparr>M_words := ws\<rparr>))) }
        else do {
          let mid = unat (bv_size v);
          (ws, r) \<leftarrow> bit_copy_from (take mid xs) (M_start v) (M_words v);
          M_insert_range h (M_finish v) (drop mid xs) (v\<lparr>M_words := ws\<rparr>) })"

primrec M_assign_input :: "heap \<Rightarrow> bool list \<Rightarrow> bit_iterator \<Rightarrow> bvector \<Rightarrow> (exn + bvector) option" where
  "M_assign_input h [] cur v = Some (Inr (M_erase_at_end cur v))"
| "M_assign_input h (x # xs) cur v =
     (if \<not> bit_eq cur (M_finish v) then do {
        ws \<leftarrow> ref_set (bit_deref cur) x (M_words v);
        M_assign_input h xs (M_bump_up cur) (v\<lparr>M_words := ws\<rparr>) }
      else M_insert_input h (x # xs) (M_finish v) v)"

definition bv_swap :: "bvector \<Rightarrow> bvector \<Rightarrow> bvector \<times> bvector" where
  "bv_swap v x = (x, v)"

subsection \<open>Hashing\<close>

text \<open>\<open>_Hash_bytes\<close>, which is not in the headers, is an argument: it has the bytes and the seed.\<close>

definition word_bytes :: "u32 \<Rightarrow> u8 list" where
  "word_bytes w = map (\<lambda>i. ucast (drop_bit (8 * i) w)) [0..<4]"

definition hash_seed :: u32 where
  "hash_seed = 0xc70f6907"

definition bv_hash :: "(u8 list \<Rightarrow> u32 \<Rightarrow> u32) \<Rightarrow> bvector \<Rightarrow> u32 option" where
  "bv_hash Hash_bytes b = do {
     let words = bv_size b div 32;
     let clength = words * 4;
     let hash = (if words \<noteq> 0
       then Hash_bytes (take (unat clength) (concat (map word_bytes (M_words b)))) hash_seed else 0);
     let extrabits = bv_size b mod 32;
     if extrabits \<noteq> 0 then do {
       hiword \<leftarrow> word_get (M_words b) (M_p (M_finish b));
       let hiword = hiword AND NOT (push_bit (unat extrabits) (NOT 0));
       let clength = (extrabits + 8 - 1) div 8;
       Some (Hash_bytes (take (unat clength) (word_bytes hiword)) (if words \<noteq> 0 then hash else hash_seed)) }
     else Some hash }"

section \<open>What a vector represents\<close>

definition represents :: "bvector \<Rightarrow> bool list \<Rightarrow> bool" where
  "represents v xs \<longleftrightarrow> M_start v = bit_begin \<and> M_finish v = bit_at (length xs) \<and>
     M_end_of_storage v = int (length (M_words v)) \<and> 32 * length (M_words v) \<le> 2147483616 \<and>
     length xs \<le> 32 * length (M_words v) \<and> take (length xs) (bits (M_words v)) = xs"

lemma bit_begin_at: "bit_begin = bit_at 0"
  by (simp add: bit_begin_def bit_at_def)

lemma representsI:
  "bits ws = xs @ J \<Longrightarrow> 32 * length ws \<le> 2147483616 \<Longrightarrow>
   represents \<lparr>M_start = bit_begin, M_finish = bit_at (length xs), M_end_of_storage = int (length ws), M_words = ws\<rparr> xs"
  using length_bits [of ws] by (auto simp: represents_def simp del: length_bits)

lemma representsE:
  assumes "represents v xs"
  obtains ws J where "v = \<lparr>M_start = bit_begin, M_finish = bit_at (length xs), M_end_of_storage = int (length ws), M_words = ws\<rparr>"
    and "bits ws = xs @ J" and "32 * length ws \<le> 2147483616" and "32 * length ws = length xs + length J"
proof (rule that [of "M_words v" "drop (length xs) (bits (M_words v))"])
  show "bits (M_words v) = xs @ drop (length xs) (bits (M_words v))"
    using assms by (metis append_take_drop_id represents_def)
qed (use assms in \<open>auto simp: represents_def\<close>)

text \<open>A vector represents one list.\<close>

lemma represents_unique: "represents v xs \<Longrightarrow> represents v ys \<Longrightarrow> xs = ys"
  by (metis bit_at_inject represents_def)

lemma represents_empty: "represents bvector_empty []"
  by (simp add: represents_def bvector_empty_def bit_begin_at)

lemma represents_length: "represents v xs \<Longrightarrow> length xs \<le> 2147483616"
  by (simp add: represents_def)

subsection \<open>Sizes\<close>

lemma max_size_eq: "bv_max_size = 2147483616" "allocator_max_size = 1073741823"
  by (simp_all add: bv_max_size_def allocator_max_size_def)

lemma unat_small: "n \<le> 2147483616 \<Longrightarrow> unat (of_nat n :: u32) = n"
  by (rule unat_of_nat_small) simp

lemma size_eq: "represents v xs \<Longrightarrow> bv_size v = of_nat (length xs)"
  using represents_length [of v xs] diff_at [of "length xs" 0] by (simp add: represents_def bv_size_def bit_begin_at)

lemma unat_size: "represents v xs \<Longrightarrow> unat (bv_size v) = length xs"
  by (simp add: size_eq unat_small represents_length)

lemma capacity_eq:
  assumes "represents v xs"
  shows "bv_capacity v = of_nat (32 * length (M_words v))"
proof -
  have "bit_diff (bit_at (32 * length (M_words v))) (bit_at 0) = int (32 * length (M_words v))"
    using assms diff_at [of "32 * length (M_words v)" 0] by (simp add: represents_def)
  then show ?thesis
    using assms by (simp add: represents_def bv_capacity_def bit_begin_at at_word [symmetric])
qed

lemma unat_capacity: "represents v xs \<Longrightarrow> unat (bv_capacity v) = 32 * length (M_words v)"
  using unat_small [of "32 * length (M_words v)"] capacity_eq [of v xs] by (simp add: represents_def)

lemma nword_eq:
  assumes "n \<le> 2147483616"
  shows "unat (S_nword (of_nat n)) = (n + 31) div 32"
proof -
  have "unat (of_nat n + 32 - 1 :: u32) = unat (of_nat (n + 31) :: u32)"
    by (simp add: add.commute)
  also have "\<dots> = n + 31"
    using assms by (intro unat_of_nat_small) simp
  finally show ?thesis
    by (simp add: S_nword_def unat_div)
qed

subsection \<open>Allocation\<close>

lemma M_allocate_cases:
  assumes "n \<le> 2147483616"
  obtains b where "M_allocate h (of_nat n) = Inl Bad_alloc" and "\<not> operator_new h b"
  | ws where "M_allocate h (of_nat n) = Inr ws" and "uint (S_nword (of_nat n)) = int (length ws)"
    and "n \<le> 32 * length ws" and "32 * length ws \<le> 2147483616"
proof -
  define k where "k = (n + 31) div 32"
  have k: "unat (S_nword (of_nat n)) = k"
    by (simp add: nword_eq assms k_def)
  have "n \<le> 32 * k" "k \<le> 67108863"
    using assms unfolding k_def by (linarith, simp add: div_le_mono [of "n + 31" "2147483647" 32, simplified])
  then have "32 * k \<le> 2147483616"
    by simp
  moreover from this have "\<not> S_nword (of_nat n) > allocator_max_size"
    using k \<open>32 * k \<le> 2147483616\<close> by (simp add: max_size_eq word_less_nat_alt)
  ultimately show thesis
    using that(1) that(2) [of "map (new_memory h) [0..<k]"] k \<open>n \<le> 32 * k\<close>
    by (cases "operator_new h (S_nword (of_nat n) * 4)") (auto simp: M_allocate_def allocator_allocate_def uint_nat)
qed

lemma M_check_len_cases:
  assumes "represents v xs"
  obtains "M_check_len v n = Inl Length_error" and "length xs + unat n > 2147483616"
  | len where "M_check_len v n = Inr (of_nat len)" and "length xs + unat n \<le> len" and "len \<le> 2147483616"
proof -
  note len = represents_length [OF assms] unat_size [OF assms]
  have room: "unat (bv_max_size - bv_size v) = 2147483616 - length xs"
    using len by (simp add: max_size_eq unat_sub word_le_nat_alt)
  show thesis
  proof (cases "length xs + unat n > 2147483616")
    case True
    then have "bv_max_size - bv_size v < n"
      using len room by (simp add: word_less_nat_alt)
    then show thesis
      using that(1) True by (simp add: M_check_len_def)
  next
    case False
    have "unat (bv_size v + max (bv_size v) n) = length xs + max (length xs) (unat n)"
      using False len by (auto simp: unat_word_ariths max_def word_le_nat_alt)
    moreover have "of_nat (unat w) = w" for w :: u32
      by simp
    ultimately show thesis
      using that(2) [of "unat (if bv_size v + max (bv_size v) n < bv_size v \<or> bv_size v + max (bv_size v) n > bv_max_size
          then bv_max_size else bv_size v + max (bv_size v) n)"] False room len
      by (auto simp: M_check_len_def word_less_nat_alt Let_def max_size_eq split: if_splits)
  qed
qed

lemma M_copy_aligned_at:
  assumes "bits src = X @ q" and "bits dst = J @ e" and "length J = length X" and "32 * length src < 2147483648"
  shows "\<exists>dst'. bits dst' = X @ e \<and>
    M_copy_aligned bit_begin (bit_at (length X)) bit_begin src dst = Some (dst', bit_at (length X))"
proof -
  define k r where "k = length X div 32" and "r = length X mod 32"
  have X: "length X = 32 * k + r"
    by (simp add: k_def r_def)
  have le: "length X \<le> 32 * length src" "length X \<le> 32 * length dst"
    using arg_cong [OF assms(1), of length] arg_cong [OF assms(2), of length] assms(3) by simp_all
  then have k: "k \<le> length src" "k \<le> length dst"
    using X by linarith+
  define d1 where "d1 = take k src @ drop k dst"
  have words: "move_to 0 k 0 src dst = Some (d1, k)"
    using move_to_loop_block [where X = "take k src" and J = "take k dst" and pre = "[]" and pre' = "[]"
        and post = "drop k src" and post' = "drop k dst"] k
    by (simp add: move_to_def d1_def)
  have b1: "bits d1 = take (32 * k) X @ drop (32 * k) J @ e"
    using k X assms(1-3) by (simp add: d1_def bits_append bits_take bits_drop)
  obtain d2 where d2: "bits d2 = take (32 * k) X @ drop (32 * k) X @ e"
    "bit_copy_to (bit_at (length (take (32 * k) X))) (bit_at (length (take (32 * k) X) + length (drop (32 * k) X)))
       (bit_at (length (take (32 * k) X))) src d1 = Some (d2, bit_at (length (take (32 * k) X) + length (drop (32 * k) X)))"
    using bit_copy_to_at [OF _ b1, of src "take (32 * k) X" "drop (32 * k) X" q] assms by auto
  have "length (take (32 * k) X) = 32 * k" "32 * k + length (drop (32 * k) X) = length X"
    using X by simp_all
  then show ?thesis
    using d2 words by (intro exI [of _ d2]) (simp add: M_copy_aligned_def bit_begin_def at_word [symmetric] k_def [symmetric])
qed

section \<open>Correctness of the operations\<close>

text \<open>
  The result of an operation that may throw: the list it leaves, or \<open>length_error\<close> because \<open>m\<close>
  elements are more than \<open>max_size\<close>, or \<open>bad_alloc\<close> because \<open>operator new\<close> failed.
\<close>

definition yields :: "heap \<Rightarrow> nat \<Rightarrow> (exn + bvector) option \<Rightarrow> bool list \<Rightarrow> bool" where
  "yields h m r xs \<longleftrightarrow> (case r of
     None \<Rightarrow> False
   | Some (Inl e) \<Rightarrow> e = Length_error \<and> m > 2147483616 \<or> e = Bad_alloc \<and> (\<exists>b. \<not> operator_new h b)
   | Some (Inr v) \<Rightarrow> represents v xs)"

lemma yields_simps [simp]:
  "yields h m (Some (Inr v)) xs \<longleftrightarrow> represents v xs"
  "yields h m (Some (Inl e)) xs \<longleftrightarrow> e = Length_error \<and> m > 2147483616 \<or> e = Bad_alloc \<and> (\<exists>b. \<not> operator_new h b)"
  "\<not> yields h m None xs"
  by (simp_all add: yields_def)

lemma unless_thrown_simps [simp]:
  "unless_thrown (Inl e) f = Some (Inl e)" "unless_thrown (Inr x) f = f x"
  by (simp_all add: unless_thrown_def)

lemma split_lengths:
  assumes "a + b + c \<le> length l"
  obtains A B C D where "l = A @ B @ C @ D" and "length A = a" and "length B = b" and "length C = c"
  by (rule that [of "take a l" "take b (drop a l)" "take c (drop (a + b) l)" "drop (a + b + c) l"])
    (use assms in \<open>auto simp: take_add [symmetric] append_assoc [symmetric] simp del: append_assoc\<close>)

text \<open>The three insertions with a new block differ in what they write between the parts.\<close>

lemma regrow:
  assumes "represents v xs"
    and body: "\<And>len q. length xs + unat n \<le> 32 * length q \<Longrightarrow> 32 * length q \<le> 2147483616 \<Longrightarrow>
        uint (S_nword len) = int (length q) \<Longrightarrow> \<exists>v'. body len q = Some (Inr v') \<and> represents v' ys"
  shows "yields h (length xs + unat n)
    (unless_thrown (M_check_len v n) (\<lambda>len. unless_thrown (M_allocate h len) (body len))) ys"
proof (cases rule: M_check_len_cases [OF assms(1), of n])
  case (2 len)
  show ?thesis
  proof (cases rule: M_allocate_cases [OF 2(3), of h])
    case (2 q)
    then show ?thesis
      using body [of q "of_nat len"] \<open>M_check_len v n = Inr (of_nat len)\<close> \<open>length xs + unat n \<le> len\<close> by auto
  qed (use 2 in auto)
qed simp

lemma regrow_body:
  assumes v: "represents v (A @ B)"
    and q: "length (A @ B) + length Y \<le> 32 * length q" "32 * length q \<le> 2147483616" "uint (S_nword len) = int (length q)"
    and put: "\<And>q J e. bits q = A @ J @ e \<Longrightarrow> length J = length Y \<Longrightarrow> length A + length Y \<le> 2147483616 \<Longrightarrow>
      \<exists>q'. put (bit_at (length A)) q = Some (q', bit_at (length A + length Y)) \<and> bits q' = A @ Y @ e"
  shows "\<exists>v'. do {
          (q, i) \<leftarrow> M_copy_aligned (M_start v) (bit_at (length A)) bit_begin (M_words v) q;
          (q, i) \<leftarrow> put i q;
          (q, fin) \<leftarrow> bit_copy_to (bit_at (length A)) (M_finish v) i (M_words v) q;
          Some (Inr \<lparr>M_start = bit_begin, M_finish = fin, M_end_of_storage = uint (S_nword len), M_words = q\<rparr>) } = Some (Inr v') \<and>
        represents v' (A @ Y @ B)"
proof -
  obtain ws J where ws: "v = \<lparr>M_start = bit_begin, M_finish = bit_at (length (A @ B)), M_end_of_storage = int (length ws), M_words = ws\<rparr>"
    "bits ws = (A @ B) @ J" "32 * length ws \<le> 2147483616"
    using v by (rule representsE)
  have "length A + length Y + length B \<le> length (bits q)"
    using q(1) by simp
  then obtain J1 J2 J3 e where J: "bits q = J1 @ J2 @ J3 @ e" "length J1 = length A" "length J2 = length Y" "length J3 = length B"
    by (rule split_lengths)
  obtain q1 where q1: "bits q1 = A @ J2 @ J3 @ e" "M_copy_aligned bit_begin (bit_at (length A)) bit_begin ws q = Some (q1, bit_at (length A))"
    using M_copy_aligned_at [of ws A "B @ J" q J1 "J2 @ J3 @ e"] ws J by auto
  obtain q2 where q2: "bits q2 = A @ Y @ J3 @ e" "put (bit_at (length A)) q1 = Some (q2, bit_at (length A + length Y))"
    using put [OF q1(1) J(3)] q(1,2) by auto
  obtain q3 where q3: "bits q3 = (A @ Y) @ B @ e" "bit_copy_to (bit_at (length A)) (bit_at (length A + length B)) (bit_at (length A + length Y)) ws q2 =
      Some (q3, bit_at (length A + length Y + length B))"
    using bit_copy_to_at [of ws A B J q2 "A @ Y" J3 e] ws q2 J by auto
  have "length q3 = length q"
    using arg_cong [OF q3(1), of length] arg_cong [OF J(1), of length] J(2-) by simp
  then show ?thesis
    using representsI [of q3 "A @ Y @ B" e] q3 q1(2) q2(2) q ws(1) by (simp add: add.assoc)
qed

text \<open>With room in the block, the end of the vector is moved up first.\<close>

lemma make_room:
  assumes v: "represents v (A @ B)" and "length A + length B + n \<le> 32 * length (M_words v)"
  shows "\<exists>ws J e. bits ws = A @ J @ B @ e \<and> length J = n \<and> length ws = length (M_words v) \<and>
    bit_copy_backward (bit_at (length A)) (M_finish v) (bit_at (length (A @ B) + n)) (M_words v) = Some (ws, bit_at (length A + n))"
proof -
  obtain ws J where ws: "v = \<lparr>M_start = bit_begin, M_finish = bit_at (length (A @ B)), M_end_of_storage = int (length ws), M_words = ws\<rparr>"
    "bits ws = (A @ B) @ J" "32 * length ws \<le> 2147483616" "32 * length ws = length (A @ B) + length J"
    using v by (rule representsE)
  then have "n \<le> length J"
    using assms(2) by simp
  then obtain J' ws' where ws': "length J' = n" "bits ws' = A @ J' @ B @ drop n J"
    "bit_copy_backward (bit_at (length A)) (bit_at (length A + length B)) (bit_at (length A + length B + n)) ws =
      Some (ws', bit_at (length A + n))"
    using bit_copy_backward_at [of ws A B "take n J" "drop n J"] ws by auto
  moreover have "length ws' = length ws"
    using arg_cong [OF ws'(2), of length] ws(4) ws'(1) \<open>n \<le> length J\<close> by simp
  ultimately show ?thesis
    using ws(1) by auto
qed

lemma incr_small: "k + n \<le> 2147483616 \<Longrightarrow> M_incr (bit_at k) (int n) = bit_at (k + n)"
  using bit_iter.add_at [of k "k + n"] by simp

lemma sint_small: "unat n \<le> 2147483616 \<Longrightarrow> sint (n :: u32) = int (unat n)"
proof -
  assume "unat n \<le> 2147483616"
  then have "- 2147483648 \<le> int (unat n)" "int (unat n) < 2147483648"
    by linarith+
  then have "sint (word_of_int (int (unat n)) :: u32) = int (unat n)"
    by (rule sint_word_of_int)
  then show ?thesis
    by simp
qed

lemma append_correct:
  assumes "represents v xs" and "length xs < 32 * length (M_words v)"
  shows "\<exists>v'. M_append x v = Some v' \<and> represents v' (xs @ [x])"
proof -
  obtain ws J where ws: "v = \<lparr>M_start = bit_begin, M_finish = bit_at (length xs), M_end_of_storage = int (length ws), M_words = ws\<rparr>"
    "bits ws = xs @ J" "32 * length ws \<le> 2147483616" "32 * length ws = length xs + length J"
    using assms(1) by (rule representsE)
  then obtain j J' where "J = j # J'"
    using assms(2) by (cases J) auto
  then have "aset (length xs) x (bits ws) = Some ((xs @ [x]) @ J')"
    using ws(2) by (simp add: aset_def)
  then obtain ws' where ws': "ref_set (bit_deref (bit_at (length xs))) x ws = Some ws'" "bits ws' = (xs @ [x]) @ J'"
    by (rule ref_set_ex)
  moreover have "length ws' = length ws"
    using arg_cong [OF ws'(2), of length] ws(4) \<open>J = j # J'\<close> by simp
  ultimately show ?thesis
    using ws representsI [of ws' "xs @ [x]" J'] by (simp add: M_append_def)
qed

text \<open>The comparison of the pointers decides whether there is room for an element.\<close>

lemma room_for_one:
  "represents v xs \<Longrightarrow> M_p (M_finish v) \<noteq> M_end_of_storage v \<longleftrightarrow> length xs < 32 * length (M_words v)"
  using word_index [of "length xs" "M_words v"] by (auto simp: represents_def)

lemma insert_aux_correct:
  assumes v: "represents v (A @ B)"
  shows "yields h (length A + length B + 1) (M_insert_aux h (bit_at (length A)) x v) (A @ [x] @ B)"
proof (cases "length (A @ B) < 32 * length (M_words v)")
  case True
  obtain ws J e where ws: "bits ws = A @ J @ B @ e" "length J = 1" "length ws = length (M_words v)"
    "bit_copy_backward (bit_at (length A)) (M_finish v) (bit_at (length (A @ B) + 1)) (M_words v) = Some (ws, bit_at (length A + 1))"
    using make_room [OF v, of 1] True by auto
  then have "aset (length A) x (bits ws) = Some (A @ [x] @ B @ e)"
    by (cases J) (simp_all add: aset_def)
  then obtain ws' where ws': "ref_set (bit_deref (bit_at (length A))) x ws = Some ws'" "bits ws' = A @ [x] @ B @ e"
    by (rule ref_set_ex)
  have "M_incr (M_finish v) 1 = bit_at (length (A @ B) + 1)"
    using v True incr_small [of "length (A @ B)" 1] by (simp add: represents_def)
  moreover have "length ws' = length (M_words v)"
    using arg_cong [OF ws'(2), of length] arg_cong [OF ws(1), of length] ws(2,3) by simp
  ultimately show ?thesis
    using ws ws' room_for_one [OF v] True v by (simp add: M_insert_aux_def represents_def)
next
  case False
  define put where "put i q = do { q \<leftarrow> ref_set (bit_deref i) x q; Some (q, M_bump_up i) }" for i q
  have put: "\<exists>q'. put (bit_at (length A)) q = Some (q', bit_at (length A + length [x])) \<and> bits q' = A @ [x] @ e"
    if "bits q = A @ J @ e" "length J = length [x]" "length A + length [x] \<le> 2147483616" for q J e
  proof -
    have "aset (length A) x (bits q) = Some (A @ [x] @ e)"
      using that(1,2) by (cases J) (simp_all add: aset_def)
    then show ?thesis
      by (rule ref_set_ex) (simp add: put_def)
  qed
  have "yields h (length (A @ B) + unat (1 :: u32)) (M_insert_aux h (bit_at (length A)) x v) (A @ [x] @ B)"
    unfolding M_insert_aux_def using room_for_one [OF v] False
    by (simp only: not_False_eq_True if_True if_False)
      (rule regrow [OF v], use regrow_body [OF v, where put = put and Y = "[x]"] put in \<open>simp add: put_def Option.bind_assoc\<close>)
  then show ?thesis
    by simp
qed

lemma push_back_correct:
  assumes "represents v xs"
  shows "yields h (length xs + 1) (bv_push_back h x v) (xs @ [x])"
proof (cases "length xs < 32 * length (M_words v)")
  case True
  then show ?thesis
    using append_correct [OF assms True, of x] room_for_one [OF assms] by (auto simp: bv_push_back_def)
next
  case False
  then show ?thesis
    using insert_aux_correct [of v xs "[]" h x] room_for_one [OF assms] assms by (simp add: bv_push_back_def represents_def)
qed

lemma insert_correct:
  assumes v: "represents v (A @ B)"
  shows "\<exists>r. bv_insert h (bit_at (length A)) x v = Some (map_sum id (\<lambda>v. (v, bit_at (length A))) r) \<and>
    yields h (length A + length B + 1) (Some r) (A @ [x] @ B)"
proof -
  define r where "r = (if M_p (M_finish v) \<noteq> M_end_of_storage v \<and> bit_eq (bit_at (length A)) (M_finish v)
           then map_option Inr (M_append x v) else M_insert_aux h (bit_at (length A)) x v)"
  have y: "yields h (length A + length B + 1) r (A @ [x] @ B)"
  proof (cases "M_p (M_finish v) \<noteq> M_end_of_storage v \<and> bit_eq (bit_at (length A)) (M_finish v)")
    case True
    then have "B = []" "length (A @ B) < 32 * length (M_words v)"
      using v room_for_one [OF v] by (auto simp: represents_def)
    then show ?thesis
      using append_correct [OF v, of x] True by (auto simp: r_def)
  next
    case False
    then show ?thesis
      using insert_aux_correct [OF v, of h x] by (simp only: r_def if_False)
  qed
  have "bit_diff (bit_at (length A)) (M_start v) = int (length A)"
    using represents_length [OF v] v diff_at [of "length A" 0] by (simp add: represents_def bit_begin_at)
  moreover have "M_incr (M_start v') (int (length A)) = bit_at (length A)" if "represents v' (A @ [x] @ B)" for v'
    using represents_length [OF that] that incr_small [of 0 "length A"] by (simp add: represents_def bit_begin_at)
  moreover obtain r' where "r = Some r'"
    using y by (cases r) auto
  ultimately show ?thesis
    using y unfolding bv_insert_def r_def [symmetric] by (intro exI [of _ r'], cases r') auto
qed

text \<open>The words that \<open>n\<close> elements need are there.\<close>

lemma enough_room:
  assumes "represents v xs"
  shows "bv_capacity v - bv_size v \<ge> n \<longleftrightarrow> length xs + unat n \<le> 32 * length (M_words v)"
proof -
  have "unat (bv_capacity v - bv_size v) = 32 * length (M_words v) - length xs"
    using unat_capacity [OF assms] unat_size [OF assms] assms by (simp add: unat_sub word_le_nat_alt represents_def)
  moreover have "length xs \<le> 32 * length (M_words v)"
    using assms by (simp add: represents_def)
  ultimately show ?thesis
    by (auto simp: word_le_nat_alt)
qed

lemma in_place_correct:
  assumes v: "represents v (A @ B)" and ws: "bits ws = A @ Y @ B @ e" "length ws = length (M_words v)"
  shows "represents (v\<lparr>M_finish := bit_at (length A + length B + length Y), M_words := ws\<rparr>) (A @ Y @ B)"
  using v ws length_bits [of ws] by (simp add: represents_def add.commute add.left_commute del: length_bits)

lemma fill_insert_correct:
  assumes v: "represents v (A @ B)"
  shows "yields h (length A + length B + unat n) (M_fill_insert h (bit_at (length A)) n x v) (A @ replicate (unat n) x @ B)"
proof -
  consider "n = 0" | "n \<noteq> 0" "length (A @ B) + unat n \<le> 32 * length (M_words v)"
    | "n \<noteq> 0" "\<not> length (A @ B) + unat n \<le> 32 * length (M_words v)"
    by blast
  then show ?thesis
  proof cases
    case 1
    then show ?thesis
      using v by (simp add: M_fill_insert_def)
  next
    case 2
    have n: "length (A @ B) + unat n \<le> 2147483616"
      using 2 v by (simp add: represents_def)
    obtain ws J e where ws: "bits ws = A @ J @ B @ e" "length J = unat n" "length ws = length (M_words v)"
      "bit_copy_backward (bit_at (length A)) (M_finish v) (bit_at (length (A @ B) + unat n)) (M_words v) = Some (ws, bit_at (length A + unat n))"
      using make_room [OF v, of "unat n"] 2 by auto
    obtain ws' where ws': "bit_fill (bit_at (length A)) (bit_at (length A + unat n)) x ws = Some ws'"
      "bits ws' = A @ replicate (unat n) x @ B @ e"
      using bit_fill_at [OF ws(1), of x] ws(2) by auto
    have incr: "M_incr (M_finish v) (sint n) = bit_at (length (A @ B) + unat n)" "M_incr (bit_at (length A)) (sint n) = bit_at (length A + unat n)"
      using n v incr_small [of "length (A @ B)" "unat n"] incr_small [of "length A" "unat n"] by (simp_all add: sint_small represents_def)
    have "length ws' = length (M_words v)"
      using arg_cong [OF ws'(2), of length] arg_cong [OF ws(1), of length] ws(2,3) by simp
    then have "represents (v\<lparr>M_finish := bit_at (length (A @ B) + unat n), M_words := ws'\<rparr>) (A @ replicate (unat n) x @ B)"
      using in_place_correct [OF v ws'(2)] by simp
    then show ?thesis
      using 2 enough_room [OF v, of n] ws(4) ws'(1) incr by (simp add: M_fill_insert_def)
  next
    case 3
    define put where "put i q = do { q \<leftarrow> bit_fill i (M_incr i (sint n)) x q; Some (q, M_incr i (sint n)) }" for i q
    have put: "\<exists>q'. put (bit_at (length A)) q = Some (q', bit_at (length A + length (replicate (unat n) x))) \<and>
        bits q' = A @ replicate (unat n) x @ e"
      if "bits q = A @ J @ e" "length J = length (replicate (unat n) x)" "length A + length (replicate (unat n) x) \<le> 2147483616" for q J e
      using bit_fill_at [OF that(1), of x] that(2,3) incr_small [of "length A" "unat n"] by (auto simp: put_def sint_small)
    have "yields h (length (A @ B) + unat n) (M_fill_insert h (bit_at (length A)) n x v) (A @ replicate (unat n) x @ B)"
      unfolding M_fill_insert_def using enough_room [OF v, of n] 3
      by (simp only: if_False)
        (rule regrow [OF v], use regrow_body [OF v, where put = put and Y = "replicate (unat n) x"] put in \<open>simp add: put_def Option.bind_assoc\<close>)
    then show ?thesis
      by simp
  qed
qed

lemma insert_fill_correct:
  assumes v: "represents v (A @ B)"
  shows "yields h (length A + length B + unat n) (map_option (map_sum id fst) (bv_insert_fill h (bit_at (length A)) n x v))
    (A @ replicate (unat n) x @ B)"
proof -
  have "map_option (map_sum id fst) (bv_insert_fill h (bit_at (length A)) n x v) = M_fill_insert h (bit_at (length A)) n x v"
    by (cases "M_fill_insert h (bit_at (length A)) n x v"; cases "the (M_fill_insert h (bit_at (length A)) n x v)")
      (auto simp: bv_insert_fill_def)
  then show ?thesis
    using fill_insert_correct [OF v] by simp
qed

lemma insert_range_correct:
  assumes v: "represents v (A @ B)" and len: "length Y < 2147483648"
  shows "yields h (length A + length B + length Y) (M_insert_range h (bit_at (length A)) Y v) (A @ Y @ B)"
proof -
  define n :: u32 where "n = of_nat (length Y)"
  have n: "unat n = length Y"
    using len by (simp add: n_def unat_of_nat_small)
  consider "Y = []" | "Y \<noteq> []" "length (A @ B) + unat n \<le> 32 * length (M_words v)"
    | "Y \<noteq> []" "\<not> length (A @ B) + unat n \<le> 32 * length (M_words v)"
    by blast
  then show ?thesis
  proof cases
    case 1
    then show ?thesis
      using v by (simp add: M_insert_range_def)
  next
    case 2
    have le: "length (A @ B) + unat n \<le> 2147483616"
      using 2 v by (simp add: represents_def)
    obtain ws J e where ws: "bits ws = A @ J @ B @ e" "length J = unat n" "length ws = length (M_words v)"
      "bit_copy_backward (bit_at (length A)) (M_finish v) (bit_at (length (A @ B) + unat n)) (M_words v) = Some (ws, bit_at (length A + unat n))"
      using make_room [OF v, of "unat n"] 2 by auto
    obtain ws' where ws': "bit_copy_from Y (bit_at (length A)) ws = Some (ws', bit_at (length A + length Y))"
      "bits ws' = A @ Y @ B @ e"
      using bit_copy_from_at [OF _ ws(1), of Y] ws(2) n by auto
    have incr: "M_incr (M_finish v) (sint n) = bit_at (length (A @ B) + unat n)"
      using le v incr_small [of "length (A @ B)" "unat n"] by (simp add: sint_small represents_def)
    have "length ws' = length (M_words v)"
      using arg_cong [OF ws'(2), of length] arg_cong [OF ws(1), of length] ws(2,3) n by simp
    then have "represents (v\<lparr>M_finish := bit_at (length (A @ B) + unat n), M_words := ws'\<rparr>) (A @ Y @ B)"
      using in_place_correct [OF v ws'(2)] n by simp
    then show ?thesis
      using 2 enough_room [OF v, of n] ws(4) ws'(1) incr by (simp add: M_insert_range_def n_def [symmetric])
  next
    case 3
    have put: "\<exists>q'. bit_copy_from Y (bit_at (length A)) q = Some (q', bit_at (length A + length Y)) \<and> bits q' = A @ Y @ e"
      if "bits q = A @ J @ e" "length J = length Y" for q J e
      using bit_copy_from_at [OF that(2,1)] by auto
    have "yields h (length (A @ B) + unat n) (M_insert_range h (bit_at (length A)) Y v) (A @ Y @ B)"
      unfolding M_insert_range_def Let_def n_def [symmetric] using enough_room [OF v, of n] 3
      by (simp only: if_False if_True not_False_eq_True)
        (rule regrow [OF v], use regrow_body [OF v, where put = "bit_copy_from Y" and Y = Y] put n in \<open>simp add: Option.bind_assoc\<close>)
    then show ?thesis
      using n by simp
  qed
qed

text \<open>The loops that insert one element after the other leave the same list.\<close>

lemma yields_bind:
  assumes "yields h m r xs" and "m \<le> n" and "\<And>v. represents v xs \<Longrightarrow> yields h n (f v) ys"
  shows "yields h n (Option.bind r (\<lambda>r. unless_thrown r f)) ys"
  using assms by (cases r; cases "the r") auto

lemma insert_input_correct:
  "represents v (A @ B) \<Longrightarrow> yields h (length A + length B + length Y) (M_insert_input h Y (bit_at (length A)) v) (A @ Y @ B)"
proof (induction Y arbitrary: A v)
  case (Cons y Y)
  obtain r where r: "bv_insert h (bit_at (length A)) y v = Some (map_sum id (\<lambda>v. (v, bit_at (length A))) r)"
    "yields h (length A + length B + 1) (Some r) (A @ [y] @ B)"
    using insert_correct [OF Cons.prems] by blast
  show ?case
  proof (cases r)
    case (Inl e)
    then show ?thesis
      using r by auto
  next
    case (Inr v')
    then show ?thesis
      using r Cons.IH [of v' "A @ [y]"] by simp
  qed
qed simp

lemma input_correct:
  "represents v xs \<Longrightarrow> yields h (length xs + length Y) (bvector_input h Y v) (xs @ Y)"
proof (induction Y arbitrary: xs v)
  case (Cons y Y)
  show ?case
    unfolding bvector_input.simps
  proof (rule yields_bind [OF push_back_correct [OF Cons.prems]])
    show "yields h (length xs + length (y # Y)) (bvector_input h Y v') (xs @ y # Y)" if "represents v' (xs @ [y])" for v'
      using Cons.IH [OF that] by simp
  qed simp
qed simp

subsection \<open>Removal\<close>

lemma erase_at_end_correct: "represents v (A @ B) \<Longrightarrow> represents (M_erase_at_end (bit_at (length A)) v) A"
proof (elim representsE)
  fix ws J
  assume "v = \<lparr>M_start = bit_begin, M_finish = bit_at (length (A @ B)), M_end_of_storage = int (length ws), M_words = ws\<rparr>"
    and "bits ws = (A @ B) @ J" and "32 * length ws \<le> 2147483616"
  then show ?thesis
    using representsI [of ws A "B @ J"] by (simp add: M_erase_at_end_def)
qed

lemma pop_back_correct: "represents v (xs @ [x]) \<Longrightarrow> represents (bv_pop_back v) xs"
  using erase_at_end_correct [of v xs "[x]"] by (simp add: bv_pop_back_def M_erase_at_end_def represents_def)

lemma clear_correct: "represents v xs \<Longrightarrow> represents (bv_clear v) []"
  using erase_at_end_correct [of v "[]" xs] by (simp add: bv_clear_def represents_def bit_begin_at)

text \<open>Moving the tail down over a gap.\<close>

lemma close_gap:
  assumes v: "represents v (A @ M @ B)"
  shows "\<exists>ws. bit_copy (bit_at (length A + length M)) (M_finish v) (bit_at (length A)) (M_words v) =
      Some (ws, bit_at (length A + length B)) \<and> represents (v\<lparr>M_finish := bit_at (length A + length B), M_words := ws\<rparr>) (A @ B)"
proof -
  obtain ws J where ws: "v = \<lparr>M_start = bit_begin, M_finish = bit_at (length (A @ M @ B)), M_end_of_storage = int (length ws), M_words = ws\<rparr>"
    "bits ws = (A @ M @ B) @ J" "32 * length ws \<le> 2147483616" "32 * length ws = length (A @ M @ B) + length J"
    using v by (rule representsE)
  obtain J' ws' where ws': "length J' = length M" "bits ws' = A @ B @ J' @ J"
    "bit_copy (bit_at (length A + length M)) (bit_at (length A + length M + length B)) (bit_at (length A)) ws =
      Some (ws', bit_at (length A + length B))"
    using bit_copy_at [of ws A M B J] ws by auto
  moreover have "length ws' = length ws"
    using arg_cong [OF ws'(2), of length] ws(4) ws'(1) by simp
  ultimately show ?thesis
    using representsI [of ws' "A @ B" "J' @ J"] ws(1,3) by (simp add: add.assoc)
qed

lemma erase_correct:
  assumes v: "represents v (A @ [x] @ B)"
  shows "\<exists>v'. bv_erase (bit_at (length A)) v = Some (v', bit_at (length A)) \<and> represents v' (A @ B)"
proof -
  have next_at: "M_incr (bit_at (length A)) 1 = bit_at (length A + 1)"
    using represents_length [OF v] incr_small [of "length A" 1] by simp
  have fin: "M_finish v = bit_at (Suc (length A + length B))"
    using v by (simp add: represents_def)
  show ?thesis
  proof (cases "B = []")
    case True
    then show ?thesis
      using pop_back_correct [of v A x] v fin next_at by (simp add: bv_erase_def bv_pop_back_def)
  next
    case False
    then show ?thesis
      using close_gap [OF v] fin next_at by (auto simp: bv_erase_def)
  qed
qed

lemma erase_range_correct:
  assumes v: "represents v (A @ M @ B)"
  shows "\<exists>v'. bv_erase_range (bit_at (length A)) (bit_at (length A + length M)) v = Some (v', bit_at (length A)) \<and>
    represents v' (A @ B)"
  using close_gap [OF v] v by (cases "M = []") (auto simp: bv_erase_range_def M_erase_at_end_def represents_def)

lemma resize_correct:
  assumes v: "represents v xs"
  shows "yields h (unat n) (bv_resize h n x v)
    (if unat n < length xs then take (unat n) xs else xs @ replicate (unat n - length xs) x)"
proof (cases "unat n < length xs")
  case True
  then have "M_incr (M_start v) (sint n) = bit_at (unat n)"
    using v represents_length [OF v] incr_small [of 0 "unat n"] by (simp add: represents_def bit_begin_at sint_small)
  then show ?thesis
    using True unat_size [OF v] erase_at_end_correct [of v "take (unat n) xs" "drop (unat n) xs"] v
    by (simp add: bv_resize_def word_less_nat_alt)
next
  case False
  then have "unat (n - bv_size v) = unat n - length xs"
    using unat_size [OF v] by (simp add: unat_sub word_le_nat_alt)
  moreover have "M_finish v = bit_at (length xs)"
    using v by (simp add: represents_def)
  ultimately show ?thesis
    using False unat_size [OF v] insert_fill_correct [of v xs "[]" h "n - bv_size v" x] v
    by (simp add: bv_resize_def word_less_nat_alt)
qed

subsection \<open>Values\<close>

lemma flip_loop_at: "flip_loop (length b) (int (length a)) (a @ b) = Some (a @ map NOT b)"
proof (induction b arbitrary: a)
  case (Cons w b)
  then show ?case
    using Cons.IH [of "a @ [NOT w]"] by (simp add: word_get_def word_set_def aget_def aset_def add.commute)
qed simp

lemma bits_not: "bits (map NOT ws) = map Not (bits ws)"
  by (rule nth_equalityI) (simp_all add: bits_nth bit_not_iff less_mult_imp_div_less mult.commute)

lemma flip_correct:
  assumes "represents v xs"
  shows "\<exists>v'. bv_flip v = Some v' \<and> represents v' (map Not xs)"
proof -
  obtain ws J where ws: "v = \<lparr>M_start = bit_begin, M_finish = bit_at (length xs), M_end_of_storage = int (length ws), M_words = ws\<rparr>"
    "bits ws = xs @ J" "32 * length ws \<le> 2147483616"
    using assms by (rule representsE)
  then show ?thesis
    using flip_loop_at [of ws "[]"] representsI [of "map NOT ws" "map Not xs" "map Not J"]
    by (simp add: bv_flip_def bit_begin_def bits_not)
qed

lemma initialize_value_at:
  "\<exists>ws'. memset_words (length ws) 0 (if x then - 1 else 0) ws = Some ws' \<and> length ws' = length ws \<and>
     bits ws' = replicate (32 * length ws) x"
  using memset_words_at [of 0 "length ws" ws x] filled_bits [of 0 "32 * length ws" x ws]
  by (auto simp: filled_def)

lemma initialize_value_correct:
  assumes "represents v xs"
  shows "\<exists>v'. M_initialize_value x v = Some v' \<and> represents v' (replicate (length xs) x)"
proof -
  obtain ws J where ws: "v = \<lparr>M_start = bit_begin, M_finish = bit_at (length xs), M_end_of_storage = int (length ws), M_words = ws\<rparr>"
    "bits ws = xs @ J" "32 * length ws \<le> 2147483616" "32 * length ws = length xs + length J"
    using assms by (rule representsE)
  moreover obtain ws' where ws': "memset_words (length ws) 0 (if x then - 1 else 0) ws = Some ws'" "length ws' = length ws"
    "bits ws' = replicate (length xs) x @ replicate (length J) x"
    using initialize_value_at [of ws x] ws(4) by (auto simp: replicate_add)
  ultimately show ?thesis
    using representsI [OF ws'(3)] by (simp add: M_initialize_value_def bit_begin_def)
qed

lemma fill_assign_correct:
  assumes v: "represents v xs"
  shows "yields h (unat n) (M_fill_assign h n x v) (replicate (unat n) x)"
proof (cases "unat n > length xs")
  case True
  obtain v' where v': "M_initialize_value x v = Some v'" "represents v' (replicate (length xs) x)"
    using initialize_value_correct [OF v] by blast
  have "unat (n - bv_size v') = unat n - length xs"
    using True unat_size [OF v'(2)] by (simp add: unat_sub word_le_nat_alt)
  moreover have "M_finish v' = bit_at (length xs)"
    using v'(2) by (simp add: represents_def)
  ultimately show ?thesis
    using True unat_size [OF v] insert_fill_correct [of v' "replicate (length xs) x" "[]" h "n - bv_size v'" x] v'
    by (simp add: M_fill_assign_def word_less_nat_alt replicate_add [symmetric])
next
  case False
  have "M_incr (M_start v) (sint n) = bit_at (unat n)"
    using False v represents_length [OF v] incr_small [of 0 "unat n"] by (simp add: represents_def bit_begin_at sint_small)
  then have "represents (M_erase_at_end (M_incr (M_start v) (sint n)) v) (take (unat n) xs)"
    using False erase_at_end_correct [of v "take (unat n) xs" "drop (unat n) xs"] v by simp
  note initialize_value_correct [OF this, of x]
  then show ?thesis
    using False unat_size [OF v] by (auto simp: M_fill_assign_def word_less_nat_alt Let_def)
qed

text \<open>Overwriting a part of the elements.\<close>

lemma overwrite:
  assumes "represents v (A @ M @ B)" and "length Y = length M"
  shows "\<exists>ws. bit_copy_from Y (bit_at (length A)) (M_words v) = Some (ws, bit_at (length A + length Y)) \<and>
    represents (v\<lparr>M_words := ws\<rparr>) (A @ Y @ B)"
proof -
  obtain ws J where ws: "v = \<lparr>M_start = bit_begin, M_finish = bit_at (length (A @ M @ B)), M_end_of_storage = int (length ws), M_words = ws\<rparr>"
    "bits ws = (A @ M @ B) @ J" "32 * length ws \<le> 2147483616" "32 * length ws = length (A @ M @ B) + length J"
    using assms(1) by (rule representsE)
  obtain ws' where ws': "bit_copy_from Y (bit_at (length A)) ws = Some (ws', bit_at (length A + length Y))" "bits ws' = (A @ Y @ B) @ J"
    using bit_copy_from_at [of M Y ws A "B @ J"] ws assms(2) by auto
  moreover have "length ws' = length ws"
    using arg_cong [OF ws'(2), of length] ws(4) assms(2) by simp
  ultimately show ?thesis
    using representsI [OF ws'(2)] ws(1,3) assms(2) by simp
qed

lemma assign_aux_correct:
  assumes v: "represents v xs" and len: "length Y < 2147483648"
  shows "yields h (length Y) (M_assign_aux h Y v) Y"
proof -
  have n: "unat (of_nat (length Y) :: u32) = length Y"
    using len by (simp add: unat_of_nat_small)
  have start: "M_start v = bit_at (length ([] :: bool list))" "M_finish v = bit_at (length xs)"
    using v by (simp_all add: represents_def bit_begin_at)
  show ?thesis
  proof (cases "length Y < length xs")
    case True
    then obtain ws where ws: "bit_copy_from Y (M_start v) (M_words v) = Some (ws, bit_at (length Y))"
      "represents (v\<lparr>M_words := ws\<rparr>) (Y @ drop (length Y) xs)"
      using overwrite [of v "[]" "take (length Y) xs" "drop (length Y) xs" Y] v start by auto
    then show ?thesis
      using True n unat_size [OF v] erase_at_end_correct [OF ws(2)]
      by (simp add: M_assign_aux_def word_less_nat_alt)
  next
    case False
    then obtain ws where ws: "bit_copy_from (take (length xs) Y) (M_start v) (M_words v) = Some (ws, bit_at (length xs))"
      "represents (v\<lparr>M_words := ws\<rparr>) (take (length xs) Y)"
      using overwrite [of v "[]" xs "[]" "take (length xs) Y"] v start by auto
    then show ?thesis
      using False n unat_size [OF v] start(2) len
        insert_range_correct [of "v\<lparr>M_words := ws\<rparr>" "take (length xs) Y" "[]" "drop (length xs) Y" h]
      by (simp add: M_assign_aux_def word_less_nat_alt Let_def)
  qed
qed

lemma assign_input_correct:
  "represents v (A @ B) \<Longrightarrow> yields h (length A + length Y) (M_assign_input h Y (bit_at (length A)) v) (A @ Y)"
proof (induction Y arbitrary: A B v)
  case Nil
  then show ?case
    using erase_at_end_correct by simp
next
  case (Cons y Y)
  show ?case
  proof (cases B)
    case Nil
    then show ?thesis
      using Cons.prems insert_input_correct [of v A "[]" h "y # Y"] by (simp add: represents_def)
  next
    case (Cons b B')
    then obtain ws where ws: "ref_set (bit_deref (bit_at (length A))) y (M_words v) = Some ws" "represents (v\<lparr>M_words := ws\<rparr>) ((A @ [y]) @ B')"
      using overwrite [of v A "[b]" B' "[y]"] \<open>represents v (A @ B)\<close>
      by (cases "ref_set (bit_deref (bit_at (length A))) y (M_words v)") auto
    then show ?thesis
      using Cons.IH [OF ws(2)] Cons \<open>represents v (A @ B)\<close> by (simp add: represents_def)
  qed
qed

subsection \<open>Construction and reallocation\<close>

lemma reallocate_correct:
  assumes v: "represents v xs" and n: "length xs \<le> unat n" "unat n \<le> 2147483616"
  shows "yields h m (M_reallocate h n v) xs"
proof -
  have nn: "of_nat (unat n) = n"
    by simp
  show ?thesis
  proof (cases rule: M_allocate_cases [OF n(2), of h, unfolded nn])
    case (2 q)
    obtain ws J where ws: "v = \<lparr>M_start = bit_begin, M_finish = bit_at (length xs), M_end_of_storage = int (length ws), M_words = ws\<rparr>"
      "bits ws = xs @ J" "32 * length ws \<le> 2147483616"
      using v by (rule representsE)
    have "bits q = take (length xs) (bits q) @ drop (length xs) (bits q)" "length (take (length xs) (bits q)) = length xs"
      using 2(3) n(1) by simp_all
    then obtain q' where q': "bits q' = xs @ drop (length xs) (bits q)"
      "M_copy_aligned bit_begin (bit_at (length xs)) bit_begin ws q = Some (q', bit_at (length xs))"
      using M_copy_aligned_at [of ws xs J q "take (length xs) (bits q)" "drop (length xs) (bits q)"] ws by auto
    have "length q' = length q"
      using arg_cong [OF q'(1), of length] 2(3) n(1) by simp
    then show ?thesis
      using representsI [OF q'(1)] q'(2) 2 ws(1) by (simp add: M_reallocate_def)
  qed (auto simp: M_reallocate_def)
qed

lemma reserve_correct:
  assumes v: "represents v xs"
  shows "yields h (unat n) (bv_reserve h n v) xs"
proof (cases "n > bv_max_size")
  case True
  then show ?thesis
    by (simp add: bv_reserve_def max_size_eq word_less_nat_alt)
next
  case False
  show ?thesis
  proof (cases "bv_capacity v < n")
    case True
    then have "length xs \<le> unat n"
      using unat_capacity [OF v] v by (simp add: word_less_nat_alt represents_def)
    then show ?thesis
      using False True reallocate_correct [OF v, of n h] by (simp add: bv_reserve_def max_size_eq word_less_nat_alt)
  qed (use False v in \<open>simp add: bv_reserve_def\<close>)
qed

lemma shrink_to_fit_correct:
  assumes v: "represents v xs"
  shows "\<exists>b v'. M_shrink_to_fit h v = Some (b, v') \<and> represents v' xs"
proof -
  have "yields h 0 (M_reallocate h (bv_size v) v) xs"
    using reallocate_correct [OF v, of "bv_size v"] unat_size [OF v] represents_length [OF v] by simp
  then obtain r where "M_reallocate h (bv_size v) v = Some r" "yields h 0 (Some r) xs"
    by (cases "M_reallocate h (bv_size v) v") auto
  then show ?thesis
    using v by (cases r) (auto simp: M_shrink_to_fit_def)
qed

lemma initialize_cases:
  assumes "n \<le> 2147483616"
  obtains b where "M_initialize h (of_nat n) = Inl Bad_alloc" and "\<not> operator_new h b"
  | ws where "M_initialize h (of_nat n) =
        Inr \<lparr>M_start = bit_begin, M_finish = bit_at n, M_end_of_storage = int (length ws), M_words = ws\<rparr>"
    and "n \<le> 32 * length ws" and "32 * length ws \<le> 2147483616"
proof (cases "n = 0")
  case True
  then show thesis
    using that(2) [of "[]"] incr_small [of 0 0] by (simp add: M_initialize_def bit_begin_at)
next
  case False
  have "M_incr bit_begin (sint (of_nat n :: u32)) = bit_at n"
    using assms incr_small [of 0 n] sint_small [of "of_nat n"] by (simp add: bit_begin_at unat_small)
  moreover have "(of_nat n :: u32) \<noteq> 0"
    using False unat_small [OF assms] by (metis unat_0)
  ultimately show thesis
    using that by (cases rule: M_allocate_cases [OF assms, of h]) (auto simp: M_initialize_def)
qed

lemma bvector_fill_correct:
  assumes "n \<le> 2147483616"
  shows "yields h n (bvector_fill h (of_nat n) x) (replicate n x)"
proof (cases rule: initialize_cases [OF assms, of h])
  case (2 ws)
  obtain ws' where ws': "memset_words (length ws) 0 (if x then - 1 else 0) ws = Some ws'" "length ws' = length ws"
    "bits ws' = replicate n x @ replicate (32 * length ws - n) x"
    using initialize_value_at [of ws x] 2(2) by (auto simp: replicate_add [symmetric])
  then show ?thesis
    using 2 representsI [OF ws'(3)] by (simp add: bvector_fill_def M_initialize_value_def bit_begin_def)
qed (auto simp: bvector_fill_def)

lemma bvector_range_correct:
  assumes "length Y \<le> 2147483616"
  shows "yields h (length Y) (bvector_range h Y) Y"
proof (cases rule: initialize_cases [OF assms, of h])
  case (2 ws)
  have "bits ws = [] @ take (length Y) (bits ws) @ drop (length Y) (bits ws)" "length (take (length Y) (bits ws)) = length Y"
    using 2(2) by simp_all
  then obtain ws' where ws': "bit_copy_from Y bit_begin ws = Some (ws', bit_at (length Y))" "bits ws' = Y @ drop (length Y) (bits ws)"
    using bit_copy_from_at [of "take (length Y) (bits ws)" Y ws "[]" "drop (length Y) (bits ws)"] by (auto simp: bit_begin_at)
  have "length ws' = length ws"
    using arg_cong [OF ws'(2), of length] 2(2) by simp
  then show ?thesis
    using 2 representsI [OF ws'(2)] ws'(1) by (simp add: bvector_range_def)
qed (auto simp: bvector_range_def)

text \<open>Copying the elements of one vector into a block that is long enough.\<close>

lemma copy_into:
  assumes x: "represents x xs" and ws: "length xs \<le> 32 * length ws" "32 * length ws \<le> 2147483616"
  shows "\<exists>ws'. M_copy_aligned (M_start x) (M_finish x) bit_begin (M_words x) ws = Some (ws', bit_at (length xs)) \<and>
    length ws' = length ws \<and>
    represents \<lparr>M_start = bit_begin, M_finish = bit_at (length xs), M_end_of_storage = int (length ws), M_words = ws'\<rparr> xs"
proof -
  obtain src J where src: "x = \<lparr>M_start = bit_begin, M_finish = bit_at (length xs), M_end_of_storage = int (length src), M_words = src\<rparr>"
    "bits src = xs @ J" "32 * length src \<le> 2147483616"
    using x by (rule representsE)
  have "bits ws = take (length xs) (bits ws) @ drop (length xs) (bits ws)" "length (take (length xs) (bits ws)) = length xs"
    using ws(1) by simp_all
  then obtain ws' where ws': "bits ws' = xs @ drop (length xs) (bits ws)"
    "M_copy_aligned bit_begin (bit_at (length xs)) bit_begin src ws = Some (ws', bit_at (length xs))"
    using M_copy_aligned_at [of src xs J ws "take (length xs) (bits ws)" "drop (length xs) (bits ws)"] src by auto
  have "length ws' = length ws"
    using arg_cong [OF ws'(1), of length] ws(1) by simp
  then show ?thesis
    using representsI [OF ws'(1)] ws'(2) ws(2) src(1) by simp
qed

lemma bvector_copy_correct:
  assumes x: "represents x xs"
  shows "yields h 0 (bvector_copy h x) xs"
proof (cases rule: initialize_cases [OF represents_length [OF x], of h])
  case (2 ws)
  then show ?thesis
    using copy_into [OF x 2(2,3)] by (auto simp: bvector_copy_def size_eq [OF x])
qed (auto simp: bvector_copy_def size_eq [OF x])

lemma bvector_assign_correct:
  assumes v: "represents v ys" and x: "represents x xs"
  shows "yields h 0 (bvector_assign h v x) xs"
proof (cases "bv_size x > bv_capacity v")
  case True
  show ?thesis
  proof (cases rule: initialize_cases [OF represents_length [OF x], of h])
    case (2 ws)
    then show ?thesis
      using True copy_into [OF x 2(2,3)] by (auto simp: bvector_assign_def size_eq [OF x])
  qed (use True in \<open>auto simp: bvector_assign_def size_eq [OF x]\<close>)
next
  case False
  then have "length xs \<le> 32 * length (M_words v)"
    using unat_size [OF x] unat_capacity [OF v] by (simp add: word_less_nat_alt)
  moreover obtain ws where "v = \<lparr>M_start = bit_begin, M_finish = bit_at (length ys), M_end_of_storage = int (length ws), M_words = ws\<rparr>"
    "32 * length ws \<le> 2147483616"
    using v by (rule representsE)
  ultimately show ?thesis
    using False copy_into [OF x, of ws] by (auto simp: bvector_assign_def)
qed

subsection \<open>Elements\<close>

lemma index_at:
  assumes "represents v xs"
  shows "bv_index v n = bit_deref (bit_at (unat n))"
proof -
  have "\<lparr>M_p = uint (n div 32), M_offset = n mod 32\<rparr> = bit_at (unat n)"
    by (rule bit_at_eqI [of _ "unat n div 32" "unat n mod 32"]) (simp_all add: uint_nat unat_div unat_mod del: uint_div)
  then show ?thesis
    using assms by (simp add: bv_index_def represents_def bit_begin_def)
qed

lemma element_read:
  assumes "represents v xs" and "k < length xs"
  shows "ref_get (bit_deref (bit_at k)) (M_words v) = Some (xs ! k)"
  using assms(1)
proof (rule representsE)
  fix ws J
  assume "v = \<lparr>M_start = bit_begin, M_finish = bit_at (length xs), M_end_of_storage = int (length ws), M_words = ws\<rparr>"
    and "bits ws = xs @ J" and "32 * length ws = length xs + length J"
  then show ?thesis
    using assms(2) by (simp add: ref_get_at aget_def nth_append)
qed

lemma index_correct: "represents v xs \<Longrightarrow> unat n < length xs \<Longrightarrow> ref_get (bv_index v n) (M_words v) = Some (xs ! unat n)"
  by (simp add: index_at element_read)

lemma at_correct:
  assumes "represents v xs"
  shows "bv_at v n = (if unat n < length xs then Inr (bv_index v n) else Inl Out_of_range)"
  using unat_size [OF assms] by (auto simp: bv_at_def word_le_nat_alt)

lemma front_back_correct:
  assumes "represents v xs" and "xs \<noteq> []"
  shows "ref_get (bv_front v) (M_words v) = Some (hd xs)" and "ref_get (bv_back v) (M_words v) = Some (last xs)"
proof -
  show "ref_get (bv_front v) (M_words v) = Some (hd xs)"
    using assms element_read [of v xs 0] by (simp add: bv_front_def represents_def bit_begin_at hd_conv_nth)
  have "M_decr (M_finish v) 1 = bit_at (length xs - 1)"
    using assms represents_length [OF assms(1)] bit_iter.sub_at [OF _ le_trans [OF diff_le_self], of "length xs" "length xs" 1]
    by (simp add: represents_def of_nat_diff Suc_leI)
  then show "ref_get (bv_back v) (M_words v) = Some (last xs)"
    using assms element_read [of v xs "length xs - 1"] by (simp add: bv_back_def last_conv_nth)
qed

lemma empty_correct: "represents v xs \<Longrightarrow> bv_empty v \<longleftrightarrow> xs = []"
  by (simp add: bv_empty_def represents_def bit_begin_at)

lemma write_correct:
  assumes v: "represents v xs" and "unat n < length xs"
  shows "\<exists>v'. bv_write v n x = Some v' \<and> represents v' (xs[unat n := x])"
proof -
  have "\<exists>ws. ref_set (bit_deref (bit_at (unat n))) x (M_words v) = Some ws \<and> represents (v\<lparr>M_words := ws\<rparr>) (take (unat n) xs @ [x] @ drop (Suc (unat n)) xs)"
    using overwrite [of v "take (unat n) xs" "[xs ! unat n]" "drop (Suc (unat n)) xs" "[x]"] assms
    by (cases "ref_set (bit_deref (bit_at (unat n))) x (M_words v)") (auto simp: id_take_nth_drop [symmetric])
  then show ?thesis
    using assms(2) by (auto simp: bv_write_def index_at [OF v] upd_conv_take_nth_drop)
qed

text \<open>The hash is one of the elements: the words behind them and the unused bits of the last word do not count.\<close>

lemma take_bytes: "take (4 * q) (concat (map word_bytes ws)) = concat (map word_bytes (take q ws))"
proof (induction ws arbitrary: q)
  case (Cons w ws)
  then show ?case
    by (cases q) (simp_all add: word_bytes_def)
qed simp

definition list_hash :: "(u8 list \<Rightarrow> u32 \<Rightarrow> u32) \<Rightarrow> bool list \<Rightarrow> u32" where
  "list_hash H xs = (
     let q = length xs div 32; r = length xs mod 32;
         word = (\<lambda>i. horner_sum of_bool 2 (take 32 (drop (32 * i) xs)));
         hash = (if q \<noteq> 0 then H (concat (map (\<lambda>i. word_bytes (word i)) [0..<q])) hash_seed else 0)
     in if r \<noteq> 0 then H (take ((r + 7) div 8) (word_bytes (word q))) (if q \<noteq> 0 then hash else hash_seed) else hash)"

lemma word_of_bits:
  assumes "bits ws = xs @ J" and "i < length ws" and "32 * i \<le> length xs"
  shows "horner_sum of_bool 2 (take 32 (drop (32 * i) xs)) = (ws ! i) AND mask (length xs - 32 * i)"
proof (rule bit_word_eqI)
  fix n
  assume n: "n < LENGTH(32)"
  have "bit (ws ! i) n = bits ws ! (32 * i + n)"
    using n assms(2) by (simp add: bits_nth)
  then show "bit (horner_sum of_bool 2 (take 32 (drop (32 * i) xs)) :: u32) n \<longleftrightarrow> bit (ws ! i AND mask (length xs - 32 * i)) n"
    using n assms(1,3) by (auto simp: bit_horner_sum_bit_word_iff bit_and_iff bit_mask_iff nth_append)
qed

lemma hash_correct:
  assumes "represents v xs"
  shows "bv_hash H v = Some (list_hash H xs)"
proof -
  obtain ws J where ws: "v = \<lparr>M_start = bit_begin, M_finish = bit_at (length xs), M_end_of_storage = int (length ws), M_words = ws\<rparr>"
    "bits ws = xs @ J" "32 * length ws \<le> 2147483616" "32 * length ws = length xs + length J"
    using assms by (rule representsE)
  define q r where "q = length xs div 32" and "r = length xs mod 32"
  have qr: "length xs = 32 * q + r" "r < 32"
    by (simp_all add: q_def r_def)
  have q: "q \<le> length ws" "q * 4 < 2 ^ 32"
    using qr ws(3,4) by simp_all
  have sizes: "unat (bv_size v div 32) = q" "unat (bv_size v mod 32) = r"
    using unat_size [OF assms] by (simp_all add: unat_div unat_mod q_def r_def)
  have "unat (bv_size v div 32 * 4) = 4 * q"
    using sizes(1) q(2) by (simp add: unat_word_ariths)
  moreover have "take q ws = map (\<lambda>i. horner_sum of_bool 2 (take 32 (drop (32 * i) xs))) [0..<q]"
  proof (rule nth_equalityI)
    fix i
    assume "i < length (take q ws)"
    then have i: "i < q" "i < length ws"
      by simp_all
    have "mask (length xs - 32 * i) = (- 1 :: u32)"
      using i qr(1) by (intro bit_word_eqI) (simp add: bit_mask_iff)
    then show "take q ws ! i = map (\<lambda>i. horner_sum of_bool 2 (take 32 (drop (32 * i) xs))) [0..<q] ! i"
      using i qr(1) word_of_bits [OF ws(2), of i] by simp
  qed (use q in simp)
  moreover have "r \<noteq> 0 \<Longrightarrow> (ws ! q) AND NOT (push_bit r (NOT 0)) = horner_sum of_bool 2 (take 32 (drop (32 * q) xs))" 
    if "r \<noteq> 0"
  proof -
    have "q < length ws"
      using that qr(1) ws(4) by linarith
    moreover have "NOT (push_bit r (NOT 0)) = (mask r :: u32)"
      by (simp add: push_bit_minus_one)
    ultimately show ?thesis
      using word_of_bits [OF ws(2), of q] qr(1) by simp
  qed
  moreover have "word_get ws (int q) = Some (ws ! q)" if "r \<noteq> 0"
    using that qr(1) ws(4) by (simp add: word_get_def)
  moreover have "unat ((bv_size v mod 32 + 8 - 1) div 8) = (r + 7) div 8"
  proof -
    have "bv_size v mod 32 + 8 - 1 = of_nat (unat (bv_size v mod 32)) + 7"
      by simp
    then have "bv_size v mod 32 + 8 - 1 = of_nat (r + 7)"
      by (simp only: sizes of_nat_add of_nat_numeral)
    moreover have "unat (of_nat (r + 7) :: u32) = r + 7"
      using qr(2) by (intro unat_of_nat_small) simp
    ultimately show ?thesis
      by (simp only: unat_div) simp
  qed
  moreover have "bv_size v div 32 = 0 \<longleftrightarrow> q = 0" "bv_size v mod 32 = 0 \<longleftrightarrow> r = 0"
    using sizes by (simp_all add: word_unat_eq_iff)
  moreover have "M_p (M_finish v) = int q" "M_words v = ws"
    using ws(1) by (simp_all add: q_def)
  ultimately show ?thesis
    using sizes take_bytes [of q ws]
    by (simp add: bv_hash_def list_hash_def q_def [symmetric] r_def [symmetric] Let_def comp_def del: push_bit_minus_one)
qed

section \<open>Sequences of operations\<close>

text \<open>A client of a vector: positions are given by numbers, as \<open>begin() + k\<close>.\<close>

datatype bv_op =
    Push_back bool | Pop_back | Insert nat bool | Insert_fill nat u32 bool | Insert_range nat "bool list"
  | Insert_input nat "bool list" | Erase nat | Erase_range nat nat | Resize u32 bool | Flip | Clear
  | Write nat bool | Reserve u32 | Shrink_to_fit | Assign u32 bool | Assign_range "bool list" | Assign_input "bool list"

fun bv_step :: "heap \<Rightarrow> bv_op \<Rightarrow> bvector \<Rightarrow> (exn + bvector) option" where
  "bv_step h (Push_back x) v = bv_push_back h x v"
| "bv_step h Pop_back v = Some (Inr (bv_pop_back v))"
| "bv_step h (Insert k x) v = map_option (map_sum id fst) (bv_insert h (M_incr (M_start v) (int k)) x v)"
| "bv_step h (Insert_fill k n x) v = map_option (map_sum id fst) (bv_insert_fill h (M_incr (M_start v) (int k)) n x v)"
| "bv_step h (Insert_range k ys) v = M_insert_range h (M_incr (M_start v) (int k)) ys v"
| "bv_step h (Insert_input k ys) v = M_insert_input h ys (M_incr (M_start v) (int k)) v"
| "bv_step h (Erase k) v = map_option (Inr \<circ> fst) (bv_erase (M_incr (M_start v) (int k)) v)"
| "bv_step h (Erase_range i j) v =
     map_option (Inr \<circ> fst) (bv_erase_range (M_incr (M_start v) (int i)) (M_incr (M_start v) (int j)) v)"
| "bv_step h (Resize n x) v = bv_resize h n x v"
| "bv_step h Flip v = map_option Inr (bv_flip v)"
| "bv_step h Clear v = Some (Inr (bv_clear v))"
| "bv_step h (Write k x) v = map_option Inr (bv_write v (of_nat k) x)"
| "bv_step h (Reserve n) v = bv_reserve h n v"
| "bv_step h Shrink_to_fit v = map_option (Inr \<circ> snd) (M_shrink_to_fit h v)"
| "bv_step h (Assign n x) v = M_fill_assign h n x v"
| "bv_step h (Assign_range ys) v = M_assign_aux h ys v"
| "bv_step h (Assign_input ys) v = M_assign_input h ys (M_start v) v"

text \<open>What the operation does to the sequence of the elements; \<open>None\<close> if its precondition does not hold.\<close>

fun list_step :: "bv_op \<Rightarrow> bool list \<Rightarrow> bool list option" where
  "list_step (Push_back x) xs = Some (xs @ [x])"
| "list_step Pop_back xs = (if xs = [] then None else Some (butlast xs))"
| "list_step (Insert k x) xs = (if k \<le> length xs then Some (take k xs @ x # drop k xs) else None)"
| "list_step (Insert_fill k n x) xs =
     (if k \<le> length xs then Some (take k xs @ replicate (unat n) x @ drop k xs) else None)"
| "list_step (Insert_range k ys) xs =
     (if k \<le> length xs \<and> length ys < 2 ^ 31 then Some (take k xs @ ys @ drop k xs) else None)"
| "list_step (Insert_input k ys) xs = (if k \<le> length xs then Some (take k xs @ ys @ drop k xs) else None)"
| "list_step (Erase k) xs = (if k < length xs then Some (take k xs @ drop (Suc k) xs) else None)"
| "list_step (Erase_range i j) xs = (if i \<le> j \<and> j \<le> length xs then Some (take i xs @ drop j xs) else None)"
| "list_step (Resize n x) xs =
     Some (if unat n < length xs then take (unat n) xs else xs @ replicate (unat n - length xs) x)"
| "list_step Flip xs = Some (map Not xs)"
| "list_step Clear xs = Some []"
| "list_step (Write k x) xs = (if k < length xs then Some (xs[k := x]) else None)"
| "list_step (Reserve n) xs = Some xs"
| "list_step Shrink_to_fit xs = Some xs"
| "list_step (Assign n x) xs = Some (replicate (unat n) x)"
| "list_step (Assign_range ys) xs = (if length ys < 2 ^ 31 then Some ys else None)"
| "list_step (Assign_input ys) xs = Some ys"

text \<open>The number of elements that there has to be room for.\<close>

fun demand :: "bv_op \<Rightarrow> bool list \<Rightarrow> nat" where
  "demand (Reserve n) ys = unat n"
| "demand op ys = length ys"

lemma position_at: "represents v xs \<Longrightarrow> k \<le> length xs \<Longrightarrow> M_incr (M_start v) (int k) = bit_at k"
  using incr_small [of 0 k] represents_length [of v xs] by (simp add: represents_def bit_begin_at)

lemma bv_step_correct:
  assumes v: "represents v xs" and step: "list_step op xs = Some ys"
  shows "yields h (demand op ys) (bv_step h op v) ys"
proof -
  have split: "represents v (take k xs @ drop k xs)" for k
    using v by simp
  show ?thesis
  proof (cases op)
    case (Push_back x)
    then show ?thesis
      using push_back_correct [OF v, of h x] step by auto
  next
    case Pop_back
    then show ?thesis
      using pop_back_correct [of v "butlast xs" "last xs"] v step by (auto split: if_splits)
  next
    case (Insert k x)
    then have k: "k \<le> length xs" "ys = take k xs @ x # drop k xs"
      using step by (auto split: if_splits)
    then obtain r where "bv_insert h (bit_at k) x v = Some (map_sum id (\<lambda>v. (v, bit_at k)) r)" "yields h (length xs + 1) (Some r) ys"
      using insert_correct [OF split [of k], of h x] by auto
    then show ?thesis
      using Insert position_at [OF v k(1)] k by (cases r) auto
  next
    case (Insert_fill k n x)
    then show ?thesis
      using insert_fill_correct [OF split [of k], of h n x] position_at [OF v, of k] step
      by (auto split: if_splits simp: add.commute add.left_commute)
  next
    case (Insert_range k Y)
    then show ?thesis
      using insert_range_correct [OF split [of k], of Y h] position_at [OF v, of k] step
      by (auto split: if_splits simp: add.commute add.left_commute)
  next
    case (Insert_input k Y)
    then show ?thesis
      using insert_input_correct [OF split [of k], of h Y] position_at [OF v, of k] step
      by (auto split: if_splits simp: add.commute add.left_commute)
  next
    case (Erase k)
    then have k: "k < length xs" "ys = take k xs @ drop (Suc k) xs"
      using step by (auto split: if_splits)
    then show ?thesis
      using Erase erase_correct [of v "take k xs" "xs ! k" "drop (Suc k) xs"] position_at [OF v, of k] v
      by (auto simp: id_take_nth_drop [symmetric])
  next
    case (Erase_range i j)
    then have ij: "i \<le> j" "j \<le> length xs" "ys = take i xs @ drop j xs"
      using step by (auto split: if_splits)
    then have "xs = take i xs @ take (j - i) (drop i xs) @ drop j xs"
      by (metis append_take_drop_id drop_drop le_add_diff_inverse2)
    then have "represents v (take i xs @ take (j - i) (drop i xs) @ drop j xs)"
      using v by simp
    note erase_range_correct [OF this]
    then show ?thesis
      using ij Erase_range position_at [OF v, of i] position_at [OF v, of j] by auto
  next
    case (Resize n x)
    then show ?thesis
      using resize_correct [OF v, of h n x] step by (auto split: if_splits)
  next
    case Flip
    then show ?thesis
      using flip_correct [OF v] step by auto
  next
    case Clear
    then show ?thesis
      using clear_correct [OF v] step by auto
  next
    case (Write k x)
    then show ?thesis
      using write_correct [OF v, of "of_nat k" x] step represents_length [OF v] unat_small [of k] by (auto split: if_splits)
  next
    case (Reserve n)
    then show ?thesis
      using reserve_correct [OF v] step by simp
  next
    case Shrink_to_fit
    then show ?thesis
      using shrink_to_fit_correct [OF v, of h] step by auto
  next
    case (Assign n x)
    then show ?thesis
      using fill_assign_correct [OF v, of h n x] step by auto
  next
    case (Assign_range Y)
    then show ?thesis
      using assign_aux_correct [OF v, of Y h] step by (auto split: if_splits)
  next
    case (Assign_input Y)
    then show ?thesis
      using assign_input_correct [of v "[]" xs h Y] v step by (simp add: represents_def bit_begin_at)
  qed
qed

primrec bv_run :: "heap \<Rightarrow> bv_op list \<Rightarrow> bvector \<Rightarrow> (exn + bvector) option" where
  "bv_run h [] v = Some (Inr v)"
| "bv_run h (op # ops) v = do { r \<leftarrow> bv_step h op v; unless_thrown r (bv_run h ops) }"

primrec list_run :: "bv_op list \<Rightarrow> bool list \<Rightarrow> bool list option" where
  "list_run [] xs = Some xs"
| "list_run (op # ops) xs = do { ys \<leftarrow> list_step op xs; list_run ops ys }"

primrec demands :: "bv_op list \<Rightarrow> bool list \<Rightarrow> nat" where
  "demands [] xs = 0"
| "demands (op # ops) xs = (case list_step op xs of None \<Rightarrow> 0 | Some ys \<Rightarrow> max (demand op ys) (demands ops ys))"

lemma bv_run_correct:
  "represents v xs \<Longrightarrow> list_run ops xs = Some ys \<Longrightarrow> yields h (demands ops xs) (bv_run h ops v) ys"
proof (induction ops arbitrary: v xs)
  case (Cons op ops)
  then obtain zs where zs: "list_step op xs = Some zs" "list_run ops zs = Some ys"
    by (auto simp: bind_eq_Some_conv)
  show ?case
    unfolding bv_run.simps
  proof (rule yields_bind [OF bv_step_correct [OF Cons.prems(1) zs(1)]])
    show "yields h (demands (op # ops) xs) (bv_run h ops v') ys" if "represents v' zs" for v'
      using Cons.IH [OF that zs(2)] zs(1)
      by (cases "bv_run h ops v'"; cases "the (bv_run h ops v')") (auto simp: less_max_iff_disj)
  qed (use zs in simp)
qed simp

text \<open>Without failures of \<open>operator new\<close>, and with room in the address space, no operation throws.\<close>

lemma bv_run_total:
  assumes "represents v xs" and "list_run ops xs = Some ys" and "demands ops xs \<le> 2147483616"
    and "\<And>b. operator_new h b"
  shows "\<exists>v'. bv_run h ops v = Some (Inr v') \<and> represents v' ys"
  using bv_run_correct [OF assms(1,2), of h] assms(3,4)
  by (cases "bv_run h ops v"; cases "the (bv_run h ops v)") auto

section \<open>Well-formed vectors\<close>

text \<open>The same invariant in terms of the fields, and the elements of a vector as a function.\<close>

definition bv_ok :: "bvector \<Rightarrow> bool" where
  "bv_ok v \<longleftrightarrow> M_start v = bit_begin \<and> 0 \<le> M_p (M_finish v) \<and> M_offset (M_finish v) < 32 \<and>
     M_end_of_storage v = int (length (M_words v)) \<and> 32 * int (length (M_words v)) \<le> 2147483616 \<and>
     32 * M_p (M_finish v) + uint (M_offset (M_finish v)) \<le> 32 * M_end_of_storage v"

definition elements :: "bvector \<Rightarrow> bool list" where
  "elements v = take (32 * nat (M_p (M_finish v)) + unat (M_offset (M_finish v))) (bits (M_words v))"

lemma represents_ok: "represents v xs \<Longrightarrow> bv_ok v \<and> elements v = xs"
proof (elim representsE)
  fix ws J
  assume v: "v = \<lparr>M_start = bit_begin, M_finish = bit_at (length xs), M_end_of_storage = int (length ws), M_words = ws\<rparr>"
    "bits ws = xs @ J" "32 * length ws \<le> 2147483616" "32 * length ws = length xs + length J"
  obtain q r where qr: "length xs = 32 * q + r" "r < 32"
    by (rule position_cases)
  then have at: "bit_at (length xs) = \<lparr>M_p = int q, M_offset = of_nat r\<rparr>"
    by (simp add: bit_at_split)
  have r: "unat (of_nat r :: u32) = r"
    using qr(2) by (intro unat_of_nat_small) simp
  then have "uint (of_nat r :: u32) = int r" "(of_nat r :: u32) < 32"
    using qr(2) by (simp_all only: uint_nat) (simp add: word_less_nat_alt)
  moreover have "32 * int q + int r \<le> 32 * int (length ws)" "32 * int (length ws) \<le> 2147483616"
    using v(3,4) qr(1) by linarith+
  ultimately have "bv_ok v"
    using v(1) at by (simp add: bv_ok_def)
  moreover have "elements v = xs"
    using v(1,2) at r qr(1) by (simp add: elements_def)
  ultimately show ?thesis ..
qed

lemma ok_represents:
  assumes "bv_ok v"
  shows "represents v (elements v)"
proof -
  define p q where "p = nat (M_p (M_finish v))" and "q = unat (M_offset (M_finish v))"
  have pq: "M_p (M_finish v) = int p" "uint (M_offset (M_finish v)) = int q" "q < 32"
    using assms by (simp_all add: bv_ok_def p_def q_def word_less_nat_alt)
  then have fin: "M_finish v = bit_at (32 * p + q)"
    by (intro bit_at_eqI [of _ p q]) (simp_all add: q_def)
  have "32 * int p + int q \<le> 32 * int (length (M_words v))"
    using assms pq by (simp add: bv_ok_def)
  then have le: "32 * p + q \<le> 32 * length (M_words v)"
    by linarith
  have elements: "elements v = take (32 * p + q) (bits (M_words v))"
    by (simp add: elements_def p_def q_def)
  have "32 * length (M_words v) \<le> 2147483616" "M_start v = bit_begin" "M_end_of_storage v = int (length (M_words v))"
    using assms by (simp_all add: bv_ok_def)
  then show ?thesis
    using fin le elements by (simp add: represents_def)
qed

section \<open>Construction with too many elements\<close>

text \<open>
  The constructors do not compare the number of elements with \<open>max_size\<close>. For the 31 largest numbers the
  number of words wraps to zero, so that the block is empty.
\<close>

lemma bvector_fill_wraps:
  assumes "0xFFFFFFE1 \<le> n" and "operator_new h 0"
  shows "bvector_fill h n x = Some (Inr \<lparr>M_start = bit_begin, M_finish = M_incr bit_begin (sint n), M_end_of_storage = 0, M_words = []\<rparr>)"
proof -
  have n: "4294967265 \<le> unat n" "unat n < 4294967296"
    using assms(1) unsigned_less [of n, where 'a = nat] by (simp_all add: word_le_nat_alt)
  have "unat (n + 31) = (unat n + 31) mod 4294967296"
    by (simp add: unat_word_ariths)
  also have "\<dots> = unat n + 31 - 4294967296"
    using n by (simp add: le_mod_geq)
  finally have "unat (n + 31) = unat n + 31 - 4294967296" .
  then have "unat (S_nword n) = 0"
    using n by (simp add: S_nword_def unat_div add.commute [of _ n])
  then have "S_nword n = 0"
    by (simp add: word_unat_eq_iff)
  moreover have "n \<noteq> 0"
    using n by auto
  ultimately show ?thesis
    using assms(2) by (simp add: bvector_fill_def M_initialize_def M_allocate_def allocator_allocate_def M_initialize_value_def bit_begin_def)
qed

lemma incr_begin: "M_incr bit_begin (sint n) = \<lparr>M_p = sint n div 32, M_offset = word_of_int (sint n mod 32)\<rparr>" for n :: u32
  using sdiv_32 [of "sint n" "sint n div 32" "sint n mod 32"]
  by (cases "sint n smod 32 < 0") (simp_all add: M_incr_def bit_begin_def Let_def)

text \<open>The difference of the iterators is the number nevertheless.\<close>

lemma initialized_size:
  "bv_size \<lparr>M_start = bit_begin, M_finish = M_incr bit_begin (sint n), M_end_of_storage = e, M_words = ws\<rparr> = n"
proof -
  have "word_of_int (32 * (sint n div 32)) + word_of_int (sint n mod 32) = (word_of_int (sint n) :: u32)"
    by (metis mult_div_mod_eq wi_hom_add)
  then show ?thesis
    by (simp add: bv_size_def incr_begin bit_diff_def) (simp add: bit_begin_def)
qed

section \<open>Properties\<close>

text \<open>
  C4. std::vector<bool> refines lists of truth values. Take any vector that holds the elements
  xs, and any sequence of its modifiers (\<open>push_back\<close>, \<open>pop_back\<close>, the
  insertions, the erasures, resize, flip, clear, assignment to an element, reserve,
  \<open>shrink_to_fit\<close>, the assignments) whose positions are legal for the lists they
  work on and whose ranges are not part of the vector and shorter than 2^31. Then no access
  leaves the block of words, and the outcome is a vector whose size, elements, at
  (\<open>out_of_range\<close> at and past the size) and hash (for whatever byte hash) are those
  of the list that the same operations on lists give; or \<open>length_error\<close>, only if
  more than 2147483616 elements were asked for; or \<open>bad_alloc\<close>, only if operator
  new refuses some request.
\<close>

theorem bvector_refines_lists:
  assumes "represents v xs" and "list_run ops xs = Some ys"
  shows "(\<exists>v'. bv_run h ops v = Some (Inr v') \<and> represents v' ys \<and> bv_size v' = of_nat (length ys) \<and>
      (\<forall>n. unat n < length ys \<longrightarrow> ref_get (bv_index v' n) (M_words v') = Some (ys ! unat n)) \<and>
      (\<forall>n. bv_at v' n = (if unat n < length ys then Inr (bv_index v' n) else Inl Out_of_range)) \<and>
      (\<forall>H. bv_hash H v' = Some (list_hash H ys))) \<or>
    (bv_run h ops v = Some (Inl Length_error) \<and> demands ops xs > 2147483616) \<or>
    (bv_run h ops v = Some (Inl Bad_alloc) \<and> (\<exists>b. \<not> operator_new h b))"
proof (cases "bv_run h ops v")
  case None
  then show ?thesis
    using bv_run_correct [OF assms, of h] by simp
next
  case (Some r)
  then show ?thesis
    using bv_run_correct [OF assms, of h]
    by (cases r) (auto simp: size_eq index_correct at_correct hash_correct)
qed

theorem bvector_refines_lists_witness:
  "\<exists>h v v'. bvector_fill h 3 True = Some (Inr v) \<and>
     bv_run h [Insert 1 False, Push_back False, Erase 0] v = Some (Inr v') \<and> bv_size v' = 4 \<and>
     ref_get (bv_index v' 1) (M_words v') = Some True"
proof -
  let ?h = "\<lparr>operator_new = \<lambda>_. True, new_memory = \<lambda>_. 0\<rparr>" and ?ops = "[Insert 1 False, Push_back False, Erase 0]"
  obtain v where v: "bvector_fill ?h 3 True = Some (Inr v)" "represents v (replicate 3 True)"
    using bvector_fill_correct [of 3 ?h True] by (auto simp: yields_def split: option.splits sum.splits)
  let ?ys = "[False, True, True, False]"
  have run: "list_run ?ops (replicate 3 True) = Some ?ys"
    by (simp add: numeral_3_eq_3)
  have "\<not> demands ?ops (replicate 3 True) > 2147483616" "\<not> (\<exists>b. \<not> operator_new ?h b)"
    by (simp_all add: numeral_3_eq_3)
  then obtain v' where v': "bv_run ?h ?ops v = Some (Inr v')" "bv_size v' = of_nat (length ?ys)"
    "\<forall>n. unat n < length ?ys \<longrightarrow> ref_get (bv_index v' n) (M_words v') = Some (?ys ! unat n)"
    using bvector_refines_lists [OF v(2) run, of ?h] by blast
  have "ref_get (bv_index v' 1) (M_words v') = Some True"
    using v'(3) [THEN spec [of _ 1]] by simp
  with v(1) v'(1,2) show ?thesis
    by (intro exI [of _ ?h] exI [of _ v] exI [of _ v']) simp
qed

text \<open>
  C21. The constructor of n equal elements, vector<bool>(n, x). Up to 2147483616 elements it
  gives the vector of n elements x or throws, \<open>length_error\<close> never and
  \<open>bad_alloc\<close> only when operator new refuses. The constructors do not compare n
  with \<open>max_size\<close>: for the 31 largest numbers the rounding up to words wraps to
  zero, an empty block is requested, and the result claims n elements while v[0] already lies
  outside of the block.
\<close>

theorem bvector_construction:
  "(n \<le> 2147483616 \<longrightarrow>
      (\<exists>v. bvector_fill h (of_nat n) x = Some (Inr v) \<and> represents v (replicate n x)) \<or>
      (bvector_fill h (of_nat n) x = Some (Inl Bad_alloc) \<and> (\<exists>b. \<not> operator_new h b))) \<and>
   (0xFFFFFFE1 \<le> m \<and> operator_new h 0 \<longrightarrow>
      (\<exists>v. bvector_fill h m x = Some (Inr v) \<and> bv_size v = m \<and> M_words v = [] \<and>
        bv_at v 0 = Inr (bv_index v 0) \<and> ref_get (bv_index v 0) (M_words v) = None))"
proof
  show "n \<le> 2147483616 \<longrightarrow>
      (\<exists>v. bvector_fill h (of_nat n) x = Some (Inr v) \<and> represents v (replicate n x)) \<or>
      (bvector_fill h (of_nat n) x = Some (Inl Bad_alloc) \<and> (\<exists>b. \<not> operator_new h b))"
    using bvector_fill_correct [of n h x] by (auto simp: yields_def split: option.splits sum.splits)
  show "0xFFFFFFE1 \<le> m \<and> operator_new h 0 \<longrightarrow>
      (\<exists>v. bvector_fill h m x = Some (Inr v) \<and> bv_size v = m \<and> M_words v = [] \<and>
        bv_at v 0 = Inr (bv_index v 0) \<and> ref_get (bv_index v 0) (M_words v) = None)"
    using bvector_fill_wraps [of m h x] initialized_size [of m 0 "[]"]
    by (auto simp: bv_at_def bv_index_def bit_deref_def ref_get_def word_get_def bit_begin_def aget_def)
qed

theorem bvector_construction_witness:
  "\<exists>v. bvector_fill \<lparr>operator_new = \<lambda>_. True, new_memory = \<lambda>_. 0\<rparr> 0xFFFFFFFF True = Some (Inr v) \<and>
     bv_size v = 0xFFFFFFFF \<and> ref_get (bv_index v 0) (M_words v) = None"
  using bvector_construction [THEN conjunct2, of "0xFFFFFFFF" "\<lparr>operator_new = \<lambda>_. True, new_memory = \<lambda>_. 0\<rparr>" True]
  by auto

end
