(* ===== verification/Stl_Deque.thy ===== *)
theory Stl_Deque
  imports Stl_Iterator Stl_Base "HOL-Library.Signed_Division"
begin

text \<open>
  Iterators of \<open>deque\<close> (\<^verbatim>\<open>c++/8.2.0/bits/stl_deque.h\<close>). A deque holds its elements in nodes of
  \<open>_S_buffer_size()\<close> elements and an array of pointers to them, the map.

  A pointer to an element is the block of memory it points into and an index there; the map is the
  list of the blocks of the nodes and a pointer into it is an index. Two pointers into different blocks are
  different, and are not compared otherwise. Reading the map outside of its bounds is \<open>None\<close>.
\<close>

section \<open>The iterator\<close>

definition deque_buf_size :: "nat \<Rightarrow> nat" where
  "deque_buf_size sz = (if sz < 512 then 512 div sz else 1)"

record elt_pointer =
  P_block :: nat
  P_index :: int

record deque_iterator =
  M_cur :: elt_pointer
  M_first :: elt_pointer
  M_last :: elt_pointer
  M_node :: int

definition ptr_add :: "elt_pointer \<Rightarrow> int \<Rightarrow> elt_pointer" where
  "ptr_add p n = p\<lparr>P_index := P_index p + n\<rparr>"

definition ptr_diff :: "elt_pointer \<Rightarrow> elt_pointer \<Rightarrow> int" where
  "ptr_diff p q = P_index p - P_index q"

definition map_get :: "nat list \<Rightarrow> int \<Rightarrow> elt_pointer option" where
  "map_get mp node = (if node < 0 then None else do { b \<leftarrow> aget mp (nat node); Some \<lparr>P_block = b, P_index = 0\<rparr> })"

text \<open>\<open>sz\<close> is the size of an element.\<close>

definition M_set_node :: "nat \<Rightarrow> nat list \<Rightarrow> int \<Rightarrow> deque_iterator \<Rightarrow> deque_iterator option" where
  "M_set_node sz mp new_node it = do {
     first \<leftarrow> map_get mp new_node;
     Some (it\<lparr>M_node := new_node, M_first := first, M_last := ptr_add first (int (deque_buf_size sz))\<rparr>) }"

definition deque_incr :: "nat \<Rightarrow> nat list \<Rightarrow> deque_iterator \<Rightarrow> deque_iterator option" where
  "deque_incr sz mp it = (
     let it = it\<lparr>M_cur := ptr_add (M_cur it) 1\<rparr>
     in if M_cur it = M_last it then do {
          it \<leftarrow> M_set_node sz mp (M_node it + 1) it;
          Some (it\<lparr>M_cur := M_first it\<rparr>) }
        else Some it)"

definition deque_decr :: "nat \<Rightarrow> nat list \<Rightarrow> deque_iterator \<Rightarrow> deque_iterator option" where
  "deque_decr sz mp it = do {
     it \<leftarrow> (if M_cur it = M_first it then do {
              it \<leftarrow> M_set_node sz mp (M_node it - 1) it;
              Some (it\<lparr>M_cur := M_last it\<rparr>) }
            else Some it);
     Some (it\<lparr>M_cur := ptr_add (M_cur it) (- 1)\<rparr>) }"

text \<open>The quotient of the second case is one of unsigned numbers, of which the first is not negative.\<close>

definition deque_add :: "nat \<Rightarrow> nat list \<Rightarrow> deque_iterator \<Rightarrow> int \<Rightarrow> deque_iterator option" where
  "deque_add sz mp it n = (
     let offset = n + ptr_diff (M_cur it) (M_first it); size = int (deque_buf_size sz)
     in if offset \<ge> 0 \<and> offset < size then Some (it\<lparr>M_cur := ptr_add (M_cur it) n\<rparr>)
        else do {
          let node_offset = (if offset > 0 then offset sdiv size else - ((- offset - 1) sdiv size) - 1);
          it \<leftarrow> M_set_node sz mp (M_node it + node_offset) it;
          Some (it\<lparr>M_cur := ptr_add (M_first it) (offset - node_offset * size)\<rparr>) })"

definition deque_sub :: "nat \<Rightarrow> nat list \<Rightarrow> deque_iterator \<Rightarrow> int \<Rightarrow> deque_iterator option" where
  "deque_sub sz mp it n = deque_add sz mp it (- n)"

definition deque_eq :: "deque_iterator \<Rightarrow> deque_iterator \<Rightarrow> bool" where
  "deque_eq x y \<longleftrightarrow> M_cur x = M_cur y"

definition deque_less :: "deque_iterator \<Rightarrow> deque_iterator \<Rightarrow> bool" where
  "deque_less x y = (if M_node x = M_node y then P_index (M_cur x) < P_index (M_cur y) else M_node x < M_node y)"

definition deque_diff :: "nat \<Rightarrow> deque_iterator \<Rightarrow> deque_iterator \<Rightarrow> int" where
  "deque_diff sz x y = int (deque_buf_size sz) * (M_node x - M_node y - 1) +
     ptr_diff (M_cur x) (M_first x) + ptr_diff (M_last y) (M_cur y)"

section \<open>Positions\<close>

definition deque_at :: "nat \<Rightarrow> nat list \<Rightarrow> nat \<Rightarrow> deque_iterator" where
  "deque_at sz mp k = (
     let B = deque_buf_size sz; b = mp ! (k div B)
     in \<lparr>M_cur = \<lparr>P_block = b, P_index = int (k mod B)\<rparr>, M_first = \<lparr>P_block = b, P_index = 0\<rparr>,
         M_last = \<lparr>P_block = b, P_index = int B\<rparr>, M_node = int (k div B)\<rparr>)"

lemma deque_buf_size_pos [simp]: "0 < sz \<Longrightarrow> 0 < deque_buf_size sz"
  by (simp add: deque_buf_size_def div_greater_zero_iff)

lemma deque_at_split:
  "r < deque_buf_size sz \<Longrightarrow> deque_at sz mp (deque_buf_size sz * q + r) =
     \<lparr>M_cur = \<lparr>P_block = mp ! q, P_index = int r\<rparr>, M_first = \<lparr>P_block = mp ! q, P_index = 0\<rparr>,
      M_last = \<lparr>P_block = mp ! q, P_index = int (deque_buf_size sz)\<rparr>, M_node = int q\<rparr>"
  by (simp add: deque_at_def Let_def)

lemma deque_positionE:
  assumes "0 < sz" and "k < deque_buf_size sz * length mp"
  obtains q r where "k = deque_buf_size sz * q + r" and "r < deque_buf_size sz" and "q < length mp"
  by (rule that [of "k div deque_buf_size sz" "k mod deque_buf_size sz"])
    (use assms in \<open>simp_all add: less_mult_imp_div_less mult.commute\<close>)

lemma set_node_at:
  "q < length mp \<Longrightarrow> M_set_node sz mp (int q) it =
     Some (it\<lparr>M_node := int q, M_first := \<lparr>P_block = mp ! q, P_index = 0\<rparr>,
              M_last := \<lparr>P_block = mp ! q, P_index = int (deque_buf_size sz)\<rparr>\<rparr>)"
  by (simp add: M_set_node_def map_get_def ptr_add_def)

lemma sdiv_nonneg: "0 \<le> m \<Longrightarrow> 0 < n \<Longrightarrow> m sdiv n = m div n" for m n :: int
  by (cases "m = 0") (simp_all add: signed_divide_int_def)

text \<open>How the code finds the node of an offset that is not in the node of the iterator.\<close>

lemma node_offset:
  assumes "a \<noteq> q" and "b < B"
  defines "off \<equiv> int B * (int a - int q) + int b"
  shows "(if off > 0 then off sdiv int B else - ((- off - 1) sdiv int B) - 1) = int a - int q" and "\<not> (0 \<le> off \<and> off < int B)"
proof -
  have "0 < int B"
    using assms(2) by linarith
  consider d where "a = q + Suc d" | d where "q = a + Suc d"
    using assms(1) by (metis add_Suc_right less_imp_Suc_add linorder_neqE_nat)
  then have "(if off > 0 then off sdiv int B else - ((- off - 1) sdiv int B) - 1) = int a - int q \<and> \<not> (0 \<le> off \<and> off < int B)"
  proof cases
    case 1
    then have off: "off = int b + int B * int (Suc d)"
      by (simp add: off_def algebra_simps)
    then have "off \<ge> int B"
      by (simp add: distrib_left)
    moreover have "off div int B = int (Suc d)"
      using assms(2) unfolding off by (simp add: div_mult_self2)
    ultimately show ?thesis
      using 1 \<open>0 < int B\<close> by (simp add: sdiv_nonneg)
  next
    case 2
    then have off: "- off - 1 = (int B - 1 - int b) + int B * int d"
      by (simp add: off_def algebra_simps)
    then have "- off - 1 \<ge> 0"
      using assms(2) mult_nonneg_nonneg [of "int B" "int d"] by linarith
    moreover have "(- off - 1) div int B = int d"
      using assms(2) unfolding off by (simp add: div_mult_self2)
    ultimately show ?thesis
      using 2 \<open>0 < int B\<close> by (simp add: sdiv_nonneg)
  qed
  then show "(if off > 0 then off sdiv int B else - ((- off - 1) sdiv int B) - 1) = int a - int q" and "\<not> (0 \<le> off \<and> off < int B)"
    by blast+
qed

text \<open>The iterator at a position, written as a node and an index there.\<close>

lemma deque_at_eq:
  assumes "k = deque_buf_size sz * q + r" and "r < deque_buf_size sz"
  shows "deque_at sz mp k =
     \<lparr>M_cur = \<lparr>P_block = mp ! q, P_index = int r\<rparr>, M_first = \<lparr>P_block = mp ! q, P_index = 0\<rparr>,
      M_last = \<lparr>P_block = mp ! q, P_index = int (deque_buf_size sz)\<rparr>, M_node = int q\<rparr>"
  using assms by (simp add: deque_at_split)

lemma deque_add_at:
  assumes "0 < sz" and "k < deque_buf_size sz * length mp" and "l < deque_buf_size sz * length mp"
  shows "deque_add sz mp (deque_at sz mp k) (int l - int k) = Some (deque_at sz mp l)"
proof -
  define B where "B = deque_buf_size sz"
  obtain q r where k: "k = B * q + r" "r < B" "q < length mp"
    using deque_positionE [OF assms(1,2)] by (auto simp: B_def)
  obtain a b where l: "l = B * a + b" "b < B" "a < length mp"
    using deque_positionE [OF assms(1,3)] by (auto simp: B_def)
  define off where "off = int B * (int a - int q) + int b"
  have off: "int l - int k + int r = off"
    by (simp add: off_def k(1) l(1) algebra_simps)
  have at: "deque_at sz mp k = \<lparr>M_cur = \<lparr>P_block = mp ! q, P_index = int r\<rparr>, M_first = \<lparr>P_block = mp ! q, P_index = 0\<rparr>,
      M_last = \<lparr>P_block = mp ! q, P_index = int B\<rparr>, M_node = int q\<rparr>"
    "deque_at sz mp l = \<lparr>M_cur = \<lparr>P_block = mp ! a, P_index = int b\<rparr>, M_first = \<lparr>P_block = mp ! a, P_index = 0\<rparr>,
      M_last = \<lparr>P_block = mp ! a, P_index = int B\<rparr>, M_node = int a\<rparr>"
    using k l by (simp_all add: deque_at_eq B_def)
  have "0 < B"
    using assms(1) by (simp add: B_def)
  show ?thesis
  proof (cases "q = a")
    case True
    then have "off = int b"
      by (simp add: off_def)
    then show ?thesis
      using True at l(2) off by (simp add: deque_add_def ptr_diff_def ptr_add_def B_def [symmetric] Let_def algebra_simps)
  next
    case False
    then have nodes: "(if off > 0 then off sdiv int B else - ((- off - 1) sdiv int B) - 1) = int a - int q" "\<not> (0 \<le> off \<and> off < int B)"
      using node_offset [OF False [symmetric] l(2)] unfolding off_def by blast+
    have here: "ptr_diff (M_cur (deque_at sz mp k)) (M_first (deque_at sz mp k)) = int r" "M_node (deque_at sz mp k) = int q"
      by (simp_all add: at ptr_diff_def)
    have "deque_add sz mp (deque_at sz mp k) (int l - int k) = do {
        it \<leftarrow> M_set_node sz mp (int q + (int a - int q)) (deque_at sz mp k);
        Some (it\<lparr>M_cur := ptr_add (M_first it) (off - (int a - int q) * int B)\<rparr>) }"
      by (simp only: deque_add_def Let_def here off B_def [symmetric] nodes if_False)
    moreover have "off - (int a - int q) * int B = int b"
      by (simp add: off_def)
    ultimately show ?thesis
      using at set_node_at [OF l(3), of sz] by (simp add: ptr_add_def B_def)
  qed
qed

lemma deque_sub_at:
  "0 < sz \<Longrightarrow> k < deque_buf_size sz * length mp \<Longrightarrow> l < deque_buf_size sz * length mp \<Longrightarrow>
   deque_sub sz mp (deque_at sz mp k) (int k - int l) = Some (deque_at sz mp l)"
  using deque_add_at [of sz k mp l] by (simp add: deque_sub_def)

lemma deque_incr_at:
  assumes "0 < sz" and "Suc k < deque_buf_size sz * length mp"
  shows "deque_incr sz mp (deque_at sz mp k) = Some (deque_at sz mp (Suc k))"
proof -
  define B where "B = deque_buf_size sz"
  obtain q r where k: "k = B * q + r" "r < B" "q < length mp"
    using deque_positionE [OF assms(1), of k mp] assms(2) by (auto simp: B_def)
  show ?thesis
  proof (cases "Suc r = B")
    case True
    then have "Suc k = B * Suc q + 0"
      using k(1) by simp
    then have "B * Suc q < B * length mp"
      using assms(2) by (simp add: B_def)
    then have "Suc q < length mp"
      by (simp only: mult_less_cancel1)
    then show ?thesis
      using True set_node_at [of "Suc q" mp sz] deque_at_eq [OF k(1,2) [unfolded B_def], of mp]
        deque_at_eq [OF \<open>Suc k = B * Suc q + 0\<close> [unfolded B_def], of mp] assms(1)
      by (simp add: deque_incr_def ptr_add_def B_def add.commute)
  next
    case False
    then show ?thesis
      using k deque_at_eq [OF k(1,2) [unfolded B_def], of mp] deque_at_eq [of "Suc k" sz q "Suc r" mp]
      by (simp add: deque_incr_def ptr_add_def B_def add.commute)
  qed
qed

lemma deque_decr_at:
  assumes "0 < sz" and "Suc k < deque_buf_size sz * length mp"
  shows "deque_decr sz mp (deque_at sz mp (Suc k)) = Some (deque_at sz mp k)"
proof -
  define B where "B = deque_buf_size sz"
  obtain q r where k: "k = B * q + r" "r < B" "q < length mp"
    using deque_positionE [OF assms(1), of k mp] assms(2) by (auto simp: B_def)
  show ?thesis
  proof (cases "Suc r = B")
    case True
    then have "Suc k = B * Suc q + 0"
      using k(1) by simp
    then show ?thesis
      using True set_node_at [OF k(3), of sz] deque_at_eq [OF k(1,2) [unfolded B_def], of mp]
        deque_at_eq [OF \<open>Suc k = B * Suc q + 0\<close> [unfolded B_def], of mp] assms(1)
      by (simp add: deque_decr_def ptr_add_def B_def)
  next
    case False
    then show ?thesis
      using k deque_at_eq [OF k(1,2) [unfolded B_def], of mp] deque_at_eq [of "Suc k" sz q "Suc r" mp]
      by (simp add: deque_decr_def ptr_add_def B_def)
  qed
qed

lemma deque_diff_at:
  assumes "0 < sz" and "k < deque_buf_size sz * length mp" and "l < deque_buf_size sz * length mp"
  shows "deque_diff sz (deque_at sz mp k) (deque_at sz mp l) = int k - int l"
proof -
  obtain q r where k: "k = deque_buf_size sz * q + r" "r < deque_buf_size sz"
    by (rule deque_positionE [OF assms(1,2)])
  obtain a b where l: "l = deque_buf_size sz * a + b" "b < deque_buf_size sz"
    by (rule deque_positionE [OF assms(1,3)])
  show ?thesis
    using deque_at_eq [OF k, of mp] deque_at_eq [OF l, of mp]
    by (simp add: deque_diff_def ptr_diff_def k(1) l(1) algebra_simps)
qed

lemma deque_compare_at:
  assumes "0 < sz" and "distinct mp" and "k < deque_buf_size sz * length mp" and "l < deque_buf_size sz * length mp"
  shows "deque_eq (deque_at sz mp k) (deque_at sz mp l) \<longleftrightarrow> k = l"
    and "deque_less (deque_at sz mp k) (deque_at sz mp l) \<longleftrightarrow> k < l"
proof -
  define B where "B = deque_buf_size sz"
  obtain q r where k: "k = B * q + r" "r < B" "q < length mp"
    using deque_positionE [OF assms(1,3)] by (auto simp: B_def)
  obtain a b where l: "l = B * a + b" "b < B" "a < length mp"
    using deque_positionE [OF assms(1,4)] by (auto simp: B_def)
  note at = deque_at_eq [OF k(1,2) [unfolded B_def], of mp] deque_at_eq [OF l(1,2) [unfolded B_def], of mp]
  have "k = l \<longleftrightarrow> q = a \<and> r = b"
    unfolding k(1) l(1) using k(2) l(2) by (metis div_mult_self4 div_less add.right_neutral gr_implies_not0 mod_less mod_mult_self4)
  then show "deque_eq (deque_at sz mp k) (deque_at sz mp l) \<longleftrightarrow> k = l"
    using at assms(2) k(3) l(3) by (simp add: deque_eq_def nth_eq_iff_index_eq)
  have less: "B * q + r < B * a + b" if "q < a" "r < B" for q a r b
  proof -
    have "B * q + r < B * Suc q"
      using that(2) by simp
    also have "\<dots> \<le> B * a"
      using that(1) by (intro mult_le_mono2) simp
    finally show ?thesis
      by simp
  qed
  show "deque_less (deque_at sz mp k) (deque_at sz mp l) \<longleftrightarrow> k < l"
    using at less [of q a r b] less [of a q b r] k l by (cases q a rule: linorder_cases) (simp_all add: deque_less_def)
qed

text \<open>
  The contract of a random access iterator. An operation that may read the map outside of its bounds gives an
  \<open>option\<close>, so that the iterators of the contract are optional values.
\<close>

lemma deque_random_access:
  assumes "0 < sz" and "distinct mp" and "N < deque_buf_size sz * length mp"
  shows "random_access (\<lambda>k. Some (deque_at sz mp k)) N
    (\<lambda>i. Option.bind i (deque_incr sz mp)) (\<lambda>i. Option.bind i (deque_decr sz mp))
    (\<lambda>i n. Option.bind i (\<lambda>i. deque_add sz mp i n)) (\<lambda>i n. Option.bind i (\<lambda>i. deque_sub sz mp i n))
    (\<lambda>i j. deque_diff sz (the i) (the j)) (\<lambda>i j. deque_eq (the i) (the j)) (\<lambda>i j. deque_less (the i) (the j))"
  by unfold_locales
    (use assms in \<open>simp_all add: deque_incr_at deque_decr_at deque_add_at deque_sub_at deque_diff_at deque_compare_at\<close>)

end
