(* ===== verification/Spec2Isabelle.thy ===== *)
theory Spec2Isabelle
  imports Cec_Api Cec_Devices Byteorder Vring Queue_Doubly Queue_Circ Programs
    Gmp_Integers Netlink Tipc_Config Socket_Cmsg Posix_Macros Stdlib_Search Stl_Select Stl_Stable
    Stl_Permute Stl_Sets Stl_Bvector Stl_Deque
begin

text \<open>
  \<^bold>\<open>What is verified.\<close> The repository is the root file system of an embedded Linux system for
  the 32-bit little-endian ARM EABI (\<^verbatim>\<open>src/rootfs\<close>), with two C programs beside it. Its C code
  are these programs and the headers under \<^verbatim>\<open>src/rootfs/usr/include\<close>, which hold real code:
  inline functions, statement macros and, in the C++ headers, whole algorithms, which every
  program built on the system compiles in.
  This library models that code, at the widths of the target, and proves it correct, or shows
  exactly where it is not.

  \<^bold>\<open>The parts and their theories.\<close>

  \<^item> \<open>Prelude\<close>: the C integer types as words, the integer promotions, the byte expressions that
    the headers repeat, and the bit-level proof rules. Every other theory rests on it.

  \<^item> HDMI CEC, \<^verbatim>\<open>linux/cec.h\<close> and \<^verbatim>\<open>linux/cec-funcs.h\<close>. \<open>Cec_Message\<close> has \<open>struct cec_msg\<close> as a
    record, the accessors, \<open>cec_msg_init\<close>, \<open>cec_msg_set_reply_to\<close> and the statements of which
    the message functions consist; \<open>Cec_Opcodes\<close> the constants. One theory per group of
    features holds the pairs \<open>cec_msg_x\<close> (writes a message) and \<open>cec_ops_x\<close> (reads one):
    \<open>Cec_Routing\<close> (one touch play, routing, standby), \<open>Cec_Record\<close> (recording sources, digital
    services), \<open>Cec_Timer\<close>, \<open>Cec_System\<close> (system information, features), \<open>Cec_Tuner\<close> (deck and
    tuner), \<open>Cec_Vendor\<close> (vendor commands, OSD), \<open>Cec_Menu\<close> (menus, remote control, power, abort),
    \<open>Cec_Audio\<close> (system audio, audio return channel, latency) and \<open>Cec_Cdc\<close> (capability discovery).
    \<open>Cec_Api\<close> puts all message functions under one relation, with what a caller owes each of
    them, and has the sessions of calls. \<open>Cec_Devices\<close> has the adapter structures, the logical
    addresses and the ioctl numbers.

  \<^item> \<open>C_Ioctl\<close> and \<open>C_Layout\<close>: the packing of request numbers of \<^verbatim>\<open>asm-generic/ioctl.h\<close>, and the
    layout rules of the target that give the size of a struct.

  \<^item> \<open>Swab\<close> and \<open>Byteorder\<close>: \<^verbatim>\<open>linux/swab.h\<close>, the ARM routine of \<^verbatim>\<open>asm/swab-32.h\<close> and both
    \<^verbatim>\<open>linux/byteorder\<close> headers.

  \<^item> \<open>Vring\<close>: the memory layout and the notification test of \<^verbatim>\<open>linux/virtio_ring.h\<close>.

  \<^item> \<open>Queue_Heap\<close>, \<open>Queue_Singly\<close>, \<open>Queue_Doubly\<close>, \<open>Queue_Circ\<close>: the intrusive lists and queues
    of \<^verbatim>\<open>sys/queue.h\<close>, over an explicit store of pointers and of addresses of pointers.

  \<^item> \<open>Gmp_Limbs\<close> and \<open>Gmp_Integers\<close>: the inline code of \<^verbatim>\<open>gmp-32.h\<close>. The first has the carry
    propagation on arrays of limbs (\<open>__GMPN_AORS\<close>, \<open>__GMPN_AORS_1\<close>, \<open>__GMPN_CMP\<close> and the \<open>mpn\<close>
    functions built from them) over a memory of 32-bit limbs; the second the \<open>mpz\<close> and \<open>mpq\<close>
    functions and comparison macros over a store of number headers.

  \<^item> \<open>Tlv_Stream\<close>, \<open>Netlink\<close>, \<open>Tipc_Config\<close>, \<open>Socket_Cmsg\<close>: buffers of records that start with
    their length. \<open>Tlv_Stream\<close> has byte buffers and the abstract walk over records; the others
    have the macros of \<^verbatim>\<open>linux/netlink.h\<close> and \<^verbatim>\<open>linux/rtnetlink.h\<close>, the TLV functions of
    \<^verbatim>\<open>linux/tipc_config.h\<close> and the control message macros of \<^verbatim>\<open>bits/socket.h\<close>, with the loop that
    a client writes with them.

  \<^item> \<open>Inet\<close>, \<open>Posix_Macros\<close>, \<open>Stdlib_Search\<close>: code in the headers of glibc. The swaps of
    \<^verbatim>\<open>bits/byteswap.h\<close>, byte order and address classes of \<^verbatim>\<open>netinet/in.h\<close>; device numbers
    (\<^verbatim>\<open>bits/sysmacros.h\<close>), time values (\<^verbatim>\<open>sys/time.h\<close>), descriptor sets (\<^verbatim>\<open>sys/select.h\<close>,
    \<^verbatim>\<open>bits/select.h\<close>) and wait statuses (\<^verbatim>\<open>bits/waitstatus.h\<close>); \<open>bsearch\<close> of
    \<^verbatim>\<open>bits/stdlib-bsearch.h\<close>.

  \<^item> The C++ algorithms of \<^verbatim>\<open>c++/8.2.0/bits\<close>. \<open>Stl_Base\<close> (accesses, swaps, the order) and
    \<open>Stl_Heap\<close> (\<^verbatim>\<open>stl_heap.h\<close>); from \<^verbatim>\<open>stl_algo.h\<close> and \<^verbatim>\<open>stl_algobase.h\<close> \<open>Stl_Sort\<close> (\<open>sort\<close>,
    \<open>partial_sort\<close>), \<open>Stl_Select\<close> (\<open>nth_element\<close>), \<open>Stl_Search\<close> (binary searches, the unrolled
    \<open>find_if\<close>, minima and maxima), \<open>Stl_Rotate\<close> (moves, reversals, rotations), \<open>Stl_Merge\<close> and
    \<open>Stl_Stable\<close> (merging with and without a buffer, \<open>stable_sort\<close>, with the temporary buffer of
    \<^verbatim>\<open>stl_tempbuf.h\<close>), \<open>Stl_Permute\<close> (permutations) and \<open>Stl_Sets\<close> (sorted ranges as sets).

  \<^item> The C++ containers. \<open>Stl_Iterator\<close>: iterator arithmetic and reverse iterators
    (\<^verbatim>\<open>stl_iterator.h\<close>, \<^verbatim>\<open>stl_iterator_base_funcs.h\<close>). \<open>Stl_Bits\<close> and \<open>Stl_Bvector\<close>:
    \<open>vector<bool>\<close>, bit by bit over 32-bit words (\<^verbatim>\<open>stl_bvector.h\<close>, \<^verbatim>\<open>vector.tcc\<close>,
    \<^verbatim>\<open>ext/new_allocator.h\<close>). \<open>Stl_Deque\<close>: the iterators of the deque (\<^verbatim>\<open>stl_deque.h\<close>).

  \<^item> \<open>C_Stdio\<close> and \<open>Programs\<close>: \<^verbatim>\<open>add.c\<close> and \<^verbatim>\<open>hello.c\<close>, with the conversions of \<open>scanf\<close> and
    \<open>printf\<close> that \<^verbatim>\<open>add.c\<close> uses.

  \<^bold>\<open>How code becomes definitions.\<close> A struct is a record, an array member a list whose length is
  part of the invariant (\<open>cec_wf\<close>). An \<open>n\<close>-bit integer is an \<open>n word\<close>; arithmetic on bytes
  happens after promotion to 32 bits and is truncated by the assignment, as in C. A function
  that updates a structure takes the structure last and returns the new one, \<open>None\<close> when the
  code would access memory outside an object; a function with output parameters returns
  their values, and gets the arrays of the caller that it fills, with their sizes. Statement macros are functions on the store, assignment by assignment. A loop
  over pointers is a \<open>partial_function (option)\<close>, whose value is \<open>None\<close> if the loop does not
  end; the theorems show \<open>Some\<close>. Bounded loops recurse on the number of rounds that the code's
  own bound gives (for instance the bytes up to \<open>msg[14]\<close> in \<open>cec_ops_report_features\<close>), so no
  fuel beyond the code's bound appears anywhere. What the compiler may choose
  (\<open>__builtin_constant_p\<close>, Thumb code, strict ANSI mode) is an argument, and the theorems hold
  for every choice. A library function without source here (\<open>mpn_add_n\<close>, \<open>mpn_popcount\<close>,
  \<open>mpz_set\<close> and others of GMP) is an argument too, with its documented behaviour as a hypothesis
  (\<open>mpn_add_n_spec\<close> and so on) that the witnesses show to hold of a reference function.
  In the C++ algorithms a container is a list, a random access iterator a position in it and
  a functor an argument; a move is a copy, since no algorithm reads a moved-from element before
  it writes it. Loops that the source calls unguarded have the value \<open>None\<close> if they leave the
  container, so that the correctness theorems also say that they do not. Memory that may be
  refused is an argument: \<open>allocation\<close> says what the temporary buffer of an algorithm gets,
  \<open>heap\<close> which requests of a vector \<open>operator new\<close> grants and what the new memory holds. A
  thrown exception is a value of a sum type. Whether an element type is plain data
  (\<open>is_pod\<close>) is an argument too.

  \<^bold>\<open>The interfaces.\<close> Locales state what a client may rely on and are interpreted on the model:
  \<open>cec_builder\<close> and \<open>cec_codec\<close> (every message function, with its parser), \<open>field_code\<close> (fields of a request number),
  \<open>cell_swap\<close> and \<open>wire_order\<close> (byte swaps and byte orders), \<open>elem_list\<close>, \<open>elem_queue\<close> and
  \<open>elem_deque\<close> (the list types, over any representation), \<open>record_stream\<close> (a test and a step over
  length-prefixed records; interpreted on netlink messages, route attributes, TIPC TLVs and
  control messages), \<open>descriptor_set\<close> (the operations of a set of descriptors),
  \<open>strict_weak_order\<close> (what the C++ standard asks of a comparison; all sorting, heap, search and
  merge lemmas are proved in it, and it is interpreted on the order of any linear type, the
  default functor, and on the comparison of keys) and \<open>random_access\<close> (the arithmetic of an
  iterator over positions; \<open>distance\<close>, \<open>advance\<close> and the reverse iterator are proved in it, and
  it is interpreted on the bit iterator and shown to hold of the deque iterator).

  \<^bold>\<open>What the theorems show.\<close>

  \<^item> Safety of the CEC functions: every builder, called with arrays of the sizes it is told,
    stays inside the payload array and leaves a well-formed message with its opcode, in every
    sequence of calls (\<open>Cec_Api\<close>), and every parser is total on every received message, whatever
    its bytes and its length field, given output arrays of the stated sizes.

  \<^item> Round trips: what a builder writes, the matching parser reads, for all operands within
    their documented widths; where the header's code loses information, the theorem states
    what arrives instead (the major channel number, the encoder state of a HEC report) or
    what is sent instead (the HEC set state opcode).

  \<^item> The opcodes are distinct, the address classes partition the logical addresses, and the
    ioctl numbers have the fields and the numeric values of the ABI.

  \<^item> Byte swaps reverse the bytes and all variants agree; a value converted to a byte order
    has the same memory image on both kinds of machine.

  \<^item> The ring layout is four adjacent aligned regions of the stated size, and the
    notification test is membership in a window of indices modulo \<open>2 ^ 16\<close>.

  \<^item> The queue macros refine operations on sequences: every legal sequence of operations
    keeps the representation, traversals end in both directions, other queues in the same
    store are untouched, and removal from a singly linked list ends.

  \<^item> \<open>std::sort\<close> sorts: introsort with its depth limit, heap sort fallback and final insertion
    sort ends, stays inside the container in spite of its unguarded loops, and yields a sorted
    rearrangement of the range, for every strict weak order. The heap functions keep the heap
    property, \<open>partial_sort\<close> and \<open>nth_element\<close> select, and \<open>stable_sort\<close> gives the one stable
    order, whatever memory it gets.

  \<^item> The binary searches enclose the equivalent elements, the rotations for different iterators
    agree, the permutation functions step through the permutations in order and undo each
    other, and the algorithms on sorted ranges are the operations on multisets.

  \<^item> \<open>vector<bool>\<close> refines lists of truth values: no operation leaves the block of words, and an
    exception has its reason. The constructors lack the test of the size that the other
    operations have, with the consequence that the theorem states.

  \<^item> The limb arithmetic computes sums, differences and comparisons of the numbers that the
    limbs denote, with the carry out, also when result and operand are the same array; the integer
    functions read sign, parity, range and value of a number, and change signs.

  \<^item> Walks over received records end and stay inside of the buffer whatever it contains, and find
    the records that were packed, for netlink. For TIPC lists and control messages they find
    packed records, and the theorems state for which contents the code of the headers does not
    end, or refuses a record because it cuts the space to 16 bits.

  \<^item> \<open>bsearch\<close> ends, compares only with elements and finds; descriptor sets behave as sets; time values add, subtract and
    compare as times.

  \<^item> \<^verbatim>\<open>add.c\<close> prints the sum of the numbers it reads whenever the sum is an \<open>int\<close>; a sum that is
    not, or input without two numbers, has no defined outcome.

  \<^bold>\<open>What is not modelled.\<close> Binaries, firmware, configuration and the hardware database have no
  source here. The other headers of the kernel, glibc, curl, GnuTLS and nettle mostly declare
  functions whose code is elsewhere. Of the C++ headers the other containers, strings, streams
  and the remaining algorithms are left out; next come the deque itself, partitioning and the
  hash tables, then the USB descriptor helpers of \<^verbatim>\<open>linux/usb/ch9.h\<close>. Move construction of
  \<open>vector<bool>\<close> and the freeing of its blocks are not modelled.
  Elements whose copy, move or comparison has side effects or throws are outside of the model of
  the algorithms. The kernel's handling of the CEC ioctls and of the virtio rings is not in the
  repository, so nothing is said of it. An element that is linked into several queues
  through different fields is several elements of the model.
\<close>

end
